(* ===== verification/Prelude.thy ===== *)
theory Prelude
  imports Complex_Main "HOL-Library.AList" "HOL-Library.List_Lexorder" "HOL-Library.Char_ord"
    "HOL-Library.Sublist" "HOL-Library.Multiset"
begin

text \<open>
  The vocabulary every component shares: Go maps as association lists, loops with an early
  return, lists that are sorted by the runtime's byte order, and the errors of the program.

  A Go map is its list of entries, in the iteration order the runtime happened to choose; the
  keys are distinct (\<open>gm_ok\<close>). Lemmas that a result does not depend on that order are stated
  over two lists with the same entries. The collections \<open>gomap\<close> (facts about maps) and
  \<open>check_intros\<close>, \<open>check_simps\<close> (facts about diagnostic checks) are filled by the theories that
  follow.
\<close>

named_theorems gomap "lookup and key facts of Go maps"
named_theorems check_simps "field values of the checks the stages emit"
named_theorems check_intros "well-formedness of the checks the stages emit"

section \<open>Go maps\<close>

type_synonym 'v gomap = "(string \<times> 'v) list"

definition gm_ok :: "'v gomap \<Rightarrow> bool" where
  "gm_ok m \<longleftrightarrow> distinct (map fst m)"

definition gm_get :: "'v gomap \<Rightarrow> string \<Rightarrow> 'v option" where
  "gm_get m k = map_of m k"

definition gm_set :: "string \<Rightarrow> 'v \<Rightarrow> 'v gomap \<Rightarrow> 'v gomap" where
  "gm_set k v m = AList.update k v m"

definition gm_keys :: "'v gomap \<Rightarrow> string list" where
  "gm_keys m = map fst m"

definition gm_has :: "'v gomap \<Rightarrow> string \<Rightarrow> bool" where
  "gm_has m k = (gm_get m k \<noteq> None)"

text \<open>Reading a missing key gives the zero value of the element type.\<close>

definition gm_or :: "'v \<Rightarrow> 'v gomap \<Rightarrow> string \<Rightarrow> 'v" where
  "gm_or z m k = (case gm_get m k of None \<Rightarrow> z | Some v \<Rightarrow> v)"

text \<open>The same entries, whatever the iteration order.\<close>

definition gm_eq :: "'v gomap \<Rightarrow> 'v gomap \<Rightarrow> bool" where
  "gm_eq m n \<longleftrightarrow> gm_get m = gm_get n"

lemma gm_get_Nil [simp, gomap]: "gm_get [] k = None"
  by (simp add: gm_get_def)

lemma gm_get_Cons: "gm_get ((k, v) # m) k' = (if k' = k then Some v else gm_get m k')"
  by (simp add: gm_get_def)

lemma gm_get_set [simp, gomap]: "gm_get (gm_set k v m) k' = (if k' = k then Some v else gm_get m k')"
  by (simp add: gm_get_def gm_set_def update_conv')

lemma gm_ok_Nil [simp, gomap]: "gm_ok []"
  by (simp add: gm_ok_def)

lemma gm_ok_Cons: "gm_ok ((k, v) # m) \<longleftrightarrow> k \<notin> set (gm_keys m) \<and> gm_ok m"
  by (simp add: gm_ok_def gm_keys_def)

lemma gm_ok_set [simp, gomap]: "gm_ok m \<Longrightarrow> gm_ok (gm_set k v m)"
  by (simp add: gm_ok_def gm_set_def distinct_update)

lemma gm_get_None_keys: "gm_get m k = None \<longleftrightarrow> k \<notin> set (gm_keys m)"
  by (simp add: gm_get_def gm_keys_def map_of_eq_None_iff)

lemma gm_keys_set [gomap]: "set (gm_keys (gm_set k v m)) = insert k (set (gm_keys m))"
  by (rule set_eqI) (metis gm_get_None_keys gm_get_set insert_iff option.distinct(1))

lemma gm_has_keys [gomap]: "gm_has m k \<longleftrightarrow> k \<in> set (gm_keys m)"
  by (auto simp: gm_has_def gm_get_def gm_keys_def map_of_eq_None_iff)

lemma gm_get_SomeD: "gm_get m k = Some v \<Longrightarrow> (k, v) \<in> set m"
  by (simp add: gm_get_def map_of_SomeD)

lemma gm_get_iff: "gm_ok m \<Longrightarrow> gm_get m k = Some v \<longleftrightarrow> (k, v) \<in> set m"
  by (simp add: gm_get_def gm_ok_def)

lemma gm_or_Nil [simp, gomap]: "gm_or z [] k = z"
  by (simp add: gm_or_def)

lemma gm_or_set [simp, gomap]: "gm_or z (gm_set k v m) k' = (if k' = k then v else gm_or z m k')"
  by (simp add: gm_or_def)

lemma gm_or_Some: "gm_get m k = Some v \<Longrightarrow> gm_or z m k = v"
  by (simp add: gm_or_def)

lemma gm_or_None: "gm_get m k = None \<Longrightarrow> gm_or z m k = z"
  by (simp add: gm_or_def)

lemma gm_eq_set: "gm_ok m \<Longrightarrow> gm_ok n \<Longrightarrow> gm_eq m n \<longleftrightarrow> set m = set n"
  by (simp add: gm_eq_def gm_get_def [abs_def] gm_ok_def map_of_inject_set)

text \<open>A loop over a map writes each key once, so a lookup after it sees that key's entry.\<close>

lemma gm_get_foldl_set:
  assumes "gm_ok m"
  shows "gm_get (fold (\<lambda>(k, v) acc. gm_set k (f k v) acc) m acc) k'
    = (case gm_get m k' of None \<Rightarrow> gm_get acc k' | Some v \<Rightarrow> Some (f k' v))"
  using assms
proof (induction m arbitrary: acc)
  case Nil
  then show ?case by simp
next
  case (Cons e m)
  obtain k v where e: "e = (k, v)" by force
  from Cons.prems e have ok: "gm_ok m" and new: "gm_get m k = None"
    by (auto simp: gm_ok_Cons gm_get_None_keys)
  show ?case using Cons.IH [OF ok] new by (auto simp: e gm_get_Cons split: option.splits)
qed

text \<open>
  Most loops over a resource map update the entry of the key they are at and nothing else. Such a
  loop computes each entry on its own, so its result does not depend on the iteration order. A
  client gives the step and the update of one entry.
\<close>

locale pointwise_loop =
  fixes step :: "string \<times> 'v \<Rightarrow> 'w gomap \<Rightarrow> 'w gomap"
    and update :: "string \<Rightarrow> 'v \<Rightarrow> 'w option \<Rightarrow> 'w option"
  assumes step_get: "gm_get (step (k, v) acc) k' = (if k' = k then update k v (gm_get acc k) else gm_get acc k')"
    and step_ok: "gm_ok acc \<Longrightarrow> gm_ok (step (k, v) acc)"
begin

lemma loop_ok: "gm_ok acc \<Longrightarrow> gm_ok (fold step m acc)"
proof (induction m arbitrary: acc)
  case (Cons e m)
  then show ?case by (cases e) (simp add: step_ok)
qed simp

lemma loop_absent: "k' \<notin> set (gm_keys m) \<Longrightarrow> gm_get (fold step m acc) k' = gm_get acc k'"
proof (induction m arbitrary: acc)
  case (Cons e m)
  then show ?case by (cases e) (simp add: gm_keys_def step_get)
qed simp

lemma loop_get:
  assumes "gm_ok m"
  shows "gm_get (fold step m acc) k'
    = (case gm_get m k' of None \<Rightarrow> gm_get acc k' | Some v \<Rightarrow> update k' v (gm_get acc k'))"
  using assms
proof (induction m arbitrary: acc)
  case (Cons e m)
  obtain k v where e: "e = (k, v)" by force
  from Cons.prems e have "gm_ok m" "k \<notin> set (gm_keys m)" by (simp_all add: gm_ok_Cons)
  then show ?case using Cons.IH [of "step e acc"] loop_absent [of k m "step e acc"]
    by (auto simp: e gm_get_Cons step_get split: option.splits)
qed simp

lemma loop_order: "gm_ok m \<Longrightarrow> gm_ok n \<Longrightarrow> gm_eq m n \<Longrightarrow> gm_eq a b \<Longrightarrow> gm_eq (fold step m a) (fold step n b)"
  by (simp add: gm_eq_def fun_eq_iff loop_get split: option.split)

end

section \<open>Sorted name lists\<close>

text \<open>
  \<open>sort.Strings\<close> orders byte strings; a sorted list is determined by its elements, so the
  algorithm does not matter.
\<close>

definition sort_strings :: "string list \<Rightarrow> string list" where
  "sort_strings xs = sort xs"

lemma set_sort_strings [simp]: "set (sort_strings xs) = set xs"
  by (simp add: sort_strings_def)

lemma length_sort_strings [simp]: "length (sort_strings xs) = length xs"
  by (simp add: sort_strings_def)

lemma sorted_sort_strings [simp]: "sorted (sort_strings xs)"
  by (simp add: sort_strings_def)

lemma sort_strings_eq_Nil [simp]: "sort_strings xs = [] \<longleftrightarrow> xs = []"
  using length_sort_strings [of xs] by (metis length_0_conv)

lemma sort_strings_cong: "mset xs = mset ys \<Longrightarrow> sort_strings xs = sort_strings ys"
  unfolding sort_strings_def by (rule properties_for_sort) simp_all

section \<open>Errors\<close>

text \<open>
  A Go error is its text and the sentinel errors and Kubernetes status reasons found in its
  unwrap chain, which is all that \<open>errors.Is\<close>, \<open>errors.As\<close> and \<open>apierrors.IsNotFound\<close> look at.
  A nil error is \<open>None\<close>.
\<close>

datatype err_tag =
    KubeNotFound
  | ErrVolcanoSchedulerNotReady
  | ErrVolcanoSchedulerNotDiscovered
  | ErrVolcanoResourceCacheUnavailable
  | ErrLLMToolRoundLimit
  | DeadlineExceeded
  | Canceled

record go_error =
  err_text :: string
  err_chain :: "err_tag list"

definition errorf :: "string \<Rightarrow> go_error" where
  "errorf msg = \<lparr>err_text = msg, err_chain = []\<rparr>"

text \<open>\<open>fmt.Errorf("...%w", e)\<close> with the wrapped error at the end.\<close>

definition errorw :: "string \<Rightarrow> go_error \<Rightarrow> go_error" where
  "errorw msg e = \<lparr>err_text = msg @ err_text e, err_chain = err_chain e\<rparr>"

definition err_is :: "err_tag \<Rightarrow> go_error \<Rightarrow> bool" where
  "err_is t e = List.member (err_chain e) t"

definition is_not_found :: "go_error \<Rightarrow> bool" where
  "is_not_found e = err_is KubeNotFound e"

lemma err_is_errorf [simp]: "\<not> err_is t (errorf msg)"
  by (simp add: err_is_def errorf_def)

lemma err_is_errorw [simp]: "err_is t (errorw msg e) = err_is t e"
  by (simp add: err_is_def errorw_def)

lemma err_text_errorf [simp]: "err_text (errorf msg) = msg"
  by (simp add: errorf_def)

lemma err_text_errorw [simp]: "err_text (errorw msg e) = msg @ err_text e"
  by (simp add: errorw_def)

text \<open>The text of an error that may be nil; the code calls it only where the error is not nil.\<close>

definition err_str :: "go_error option \<Rightarrow> string" where
  "err_str e = (case e of None \<Rightarrow> [] | Some e' \<Rightarrow> err_text e')"

lemma err_str_Some [simp]: "err_str (Some e) = err_text e"
  by (simp add: err_str_def)

end
