(* ===== verification/Go_Strings.thy ===== *)
theory Go_Strings
  imports Prelude
begin

text \<open>
  What the source uses of Go's \<open>strings\<close>, \<open>strconv\<close> and \<open>fmt\<close> packages, on byte strings
  (a \<open>string\<close> is its list of bytes). Case mapping and white space are those of ASCII: the
  names the program compares (resource names, plugin names, flags, phases) are ASCII, and bytes
  above 127 are left as they are. \<open>fmt\<close> verbs appear as the function that renders one operand.
\<close>

section \<open>Package strings\<close>

definition to_lower_char :: "char \<Rightarrow> char" where
  "to_lower_char c =
     (let n = (of_char c :: nat) in if 65 \<le> n \<and> n \<le> 90 then char_of (n + 32) else c)"

definition to_lower :: "string \<Rightarrow> string" where
  "to_lower s = map to_lower_char s"

definition equal_fold :: "string \<Rightarrow> string \<Rightarrow> bool" where
  "equal_fold a b = (to_lower a = to_lower b)"

definition is_space :: "char \<Rightarrow> bool" where
  "is_space c = (let n = (of_char c :: nat) in (9 \<le> n \<and> n \<le> 13) \<or> n = 32)"

definition trim_with :: "(char \<Rightarrow> bool) \<Rightarrow> string \<Rightarrow> string" where
  "trim_with p s = rev (dropWhile p (rev (dropWhile p s)))"

definition trim_space :: "string \<Rightarrow> string" where
  "trim_space s = trim_with is_space s"

definition has_prefix :: "string \<Rightarrow> string \<Rightarrow> bool" where
  "has_prefix s p = prefix p s"

definition has_suffix :: "string \<Rightarrow> string \<Rightarrow> bool" where
  "has_suffix s p = suffix p s"

definition trim_prefix :: "string \<Rightarrow> string \<Rightarrow> string" where
  "trim_prefix s p = (if has_prefix s p then drop (length p) s else s)"

fun contains :: "string \<Rightarrow> string \<Rightarrow> bool" where
  "contains [] sub = (sub = [])"
| "contains (c # cs) sub = (prefix sub (c # cs) \<or> contains cs sub)"

text \<open>\<open>strings.Split\<close> with a separator of one byte.\<close>

fun split_on :: "char \<Rightarrow> string \<Rightarrow> string list" where
  "split_on sep [] = [[]]"
| "split_on sep (c # cs) =
     (if c = sep then [] # split_on sep cs
      else (case split_on sep cs of [] \<Rightarrow> [[c]] | w # ws \<Rightarrow> (c # w) # ws))"

text \<open>\<open>strings.Fields\<close>: the maximal runs of bytes that are not white space.\<close>

definition fields :: "string \<Rightarrow> string list" where
  "fields s = filter (\<lambda>w. w \<noteq> []) (split_on CHR '' '' (map (\<lambda>c. if is_space c then CHR '' '' else c) s))"

fun join :: "string list \<Rightarrow> string \<Rightarrow> string" where
  "join [] sep = []"
| "join [x] sep = x"
| "join (x # y # ys) sep = x @ sep @ join (y # ys) sep"

text \<open>\<open>strings.LastIndex\<close>: the position of the last occurrence, -1 when there is none.\<close>

fun last_index :: "string \<Rightarrow> string \<Rightarrow> int" where
  "last_index [] sub = (if sub = [] then 0 else -1)"
| "last_index (c # cs) sub =
     (let r = last_index cs sub
      in if 0 \<le> r then r + 1 else if prefix sub (c # cs) then 0 else -1)"

text \<open>\<open>strings.ReplaceAll\<close> of a single byte by a string.\<close>

definition replace_byte :: "char \<Rightarrow> string \<Rightarrow> string \<Rightarrow> string" where
  "replace_byte c r s = concat (map (\<lambda>x. if x = c then r else [x]) s)"

section \<open>Packages strconv and fmt\<close>

text \<open>The decimal digits of a number that is not negative.\<close>

definition digit :: "int \<Rightarrow> char" where
  "digit d = char_of (48 + nat d)"

function dec_str :: "int \<Rightarrow> string" where
  "dec_str n = (if n < 10 then [digit n] else dec_str (n div 10) @ [digit (n mod 10)])"
  by pat_completeness auto
termination
  by (relation "measure nat") auto

declare dec_str.simps [simp del]

text \<open>The verbs \<open>%d\<close>, \<open>%t\<close>, \<open>%v\<close> of a string slice, and \<open>%q\<close>.\<close>

definition fmt_d :: "int \<Rightarrow> string" where
  "fmt_d n = (if n < 0 then CHR ''-'' # dec_str (- n) else dec_str n)"

definition fmt_n :: "nat \<Rightarrow> string" where
  "fmt_n n = dec_str (int n)"

definition fmt_t :: "bool \<Rightarrow> string" where
  "fmt_t b = (if b then ''true'' else ''false'')"

definition fmt_strs :: "string list \<Rightarrow> string" where
  "fmt_strs xs = ''['' @ join xs '' '' @ '']''"

definition hex_digit :: "nat \<Rightarrow> char" where
  "hex_digit n = (if n < 10 then char_of (48 + n) else char_of (87 + n))"

definition quote_char :: "char \<Rightarrow> string" where
  "quote_char c =
     (let n = (of_char c :: nat); bs = char_of (92 :: nat) in
      if n = 34 \<or> n = 92 then [bs, c]
      else if n = 7 then [bs, CHR ''a''] else if n = 8 then [bs, CHR ''b'']
      else if n = 12 then [bs, CHR ''f''] else if n = 10 then [bs, CHR ''n'']
      else if n = 13 then [bs, CHR ''r''] else if n = 9 then [bs, CHR ''t'']
      else if n = 11 then [bs, CHR ''v'']
      else if n < 32 \<or> n = 127 then [bs, CHR ''x'', hex_digit (n div 16), hex_digit (n mod 16)]
      else [c])"

definition fmt_q :: "string \<Rightarrow> string" where
  "fmt_q s = [char_of (34 :: nat)] @ concat (map quote_char s) @ [char_of (34 :: nat)]"

text \<open>\<open>%v\<close> of a map from strings: \<open>fmt\<close> prints the entries in key order.\<close>

definition fmt_map :: "('v \<Rightarrow> string) \<Rightarrow> 'v gomap \<Rightarrow> string" where
  "fmt_map f m =
     ''map['' @ join (map (\<lambda>k. k @ '':'' @ (case gm_get m k of None \<Rightarrow> [] | Some v \<Rightarrow> f v))
       (sort_strings (gm_keys m))) '' '' @ '']''"

text \<open>
  \<open>strconv.ParseInt(s, 10, n)\<close>: an optional sign and decimal digits, in the range of a signed
  integer of \<open>n\<close> bits; anything else is an error.
\<close>

definition is_digit :: "char \<Rightarrow> bool" where
  "is_digit c = (let n = (of_char c :: nat) in 48 \<le> n \<and> n \<le> 57)"

definition digit_val :: "char \<Rightarrow> int" where
  "digit_val c = int (of_char c) - 48"

definition parse_nat :: "string \<Rightarrow> int option" where
  "parse_nat s =
     (if s = [] \<or> \<not> list_all is_digit s then None
      else Some (foldl (\<lambda>n c. 10 * n + digit_val c) 0 s))"

definition in_bits :: "nat \<Rightarrow> int \<Rightarrow> bool" where
  "in_bits w n = (- (2 ^ (w - 1)) \<le> n \<and> n < 2 ^ (w - 1))"

definition ParseInt :: "nat \<Rightarrow> string \<Rightarrow> int option" where
  "ParseInt w s =
     (let (neg, ds) = (case s of
            c # cs \<Rightarrow> if c = CHR ''+'' then (False, cs) else if c = CHR ''-'' then (True, cs)
                      else (False, s)
          | [] \<Rightarrow> (False, s))
      in case parse_nat ds of
           None \<Rightarrow> None
         | Some n \<Rightarrow> (let v = (if neg then - n else n) in if in_bits w v then Some v else None))"

text \<open>A literal with bytes above 127, given by its UTF-8 encoding.\<close>

definition utf8 :: "nat list \<Rightarrow> string" where
  "utf8 bs = map char_of bs"

section \<open>Facts\<close>

lemma to_lower_append: "to_lower (a @ b) = to_lower a @ to_lower b"
  by (simp add: to_lower_def)

lemma length_to_lower [simp]: "length (to_lower s) = length s"
  by (simp add: to_lower_def)

lemma to_lower_char_idem [simp]: "to_lower_char (to_lower_char c) = to_lower_char c"
  by (auto simp: to_lower_char_def Let_def)

lemma to_lower_idem [simp]: "to_lower (to_lower s) = to_lower s"
  by (simp add: to_lower_def)

lemma equal_fold_refl [simp]: "equal_fold s s"
  by (simp add: equal_fold_def)

lemma equal_fold_sym: "equal_fold a b = equal_fold b a"
  by (auto simp: equal_fold_def)

lemma equal_fold_trans: "equal_fold a b \<Longrightarrow> equal_fold b c \<Longrightarrow> equal_fold a c"
  by (simp add: equal_fold_def)

lemma has_prefix_self_append [simp]: "has_prefix (p @ s) p"
  by (simp add: has_prefix_def)

lemma trim_prefix_append [simp]: "trim_prefix (p @ s) p = s"
  by (simp add: trim_prefix_def)

lemma trim_with_idem: "trim_with p (trim_with p s) = trim_with p s"
proof -
  have idem: "dropWhile p (dropWhile p xs) = dropWhile p xs" for xs
    by (induction xs) auto
  have hd: "dropWhile p (rev (dropWhile p (rev ys))) = rev (dropWhile p (rev ys))"
    if "dropWhile p ys = ys" for ys
  proof (cases "rev (dropWhile p (rev ys))")
    case (Cons x xs)
    have "suffix (dropWhile p (rev ys)) (rev ys)" by (rule suffix_dropWhile)
    with Cons have "prefix (x # xs) ys" by (simp add: suffix_to_prefix)
    then obtain zs where ys: "ys = x # xs @ zs" by (auto simp: prefix_def)
    have "\<not> p x"
    proof
      assume "p x"
      with that ys have "dropWhile p (xs @ zs) = x # xs @ zs" by simp
      then show False using length_dropWhile_le [of p "xs @ zs"] by simp
    qed
    with Cons show ?thesis by simp
  next
    case Nil
    then show ?thesis by (simp only:) simp
  qed
  show ?thesis by (simp add: trim_with_def hd idem)
qed

lemma trim_space_idem [simp]: "trim_space (trim_space s) = trim_space s"
  by (simp add: trim_space_def trim_with_idem)

lemma contains_iff: "contains s sub \<longleftrightarrow> (\<exists>a b. s = a @ sub @ b)"
proof (induction s)
  case (Cons c cs)
  show ?case
  proof
    assume "contains (c # cs) sub"
    then consider (here) "prefix sub (c # cs)" | (later) "contains cs sub" by auto
    then show "\<exists>a b. c # cs = a @ sub @ b"
    proof cases
      case here
      then obtain b where "c # cs = [] @ sub @ b" by (auto simp: prefix_def)
      then show ?thesis by blast
    next
      case later
      with Cons.IH obtain a b where "c # cs = (c # a) @ sub @ b" by auto
      then show ?thesis by blast
    qed
  next
    assume "\<exists>a b. c # cs = a @ sub @ b"
    then obtain a b where ab: "c # cs = a @ sub @ b" by blast
    show "contains (c # cs) sub"
    proof (cases a)
      case Nil
      with ab have "prefix sub (c # cs)" by (simp add: prefix_def)
      then show ?thesis by simp
    next
      case (Cons x a')
      with ab have "cs = a' @ sub @ b" by simp
      with Cons.IH show ?thesis by auto
    qed
  qed
qed simp

lemma contains_refl [simp]: "contains s s"
  by (cases s) auto

lemma split_on_neq_Nil [simp]: "split_on c s \<noteq> []"
  by (cases s) (auto split: list.splits)

lemma split_on_no_sep: "w \<in> set (split_on c s) \<Longrightarrow> c \<notin> set w"
  by (induction s arbitrary: w) (fastforce split: if_splits list.splits)+

text \<open>Joining the pieces with the separator gives the string back.\<close>

lemma join_split_on [simp]: "join (split_on c s) [c] = s"
proof (induction s)
  case (Cons x xs)
  obtain w ws where w: "split_on c xs = w # ws"
    by (meson list.exhaust split_on_neq_Nil)
  with Cons.IH show ?case by (cases ws) auto
qed simp

lemma of_char_digit: "0 \<le> d \<Longrightarrow> d < 10 \<Longrightarrow> (of_char (digit d) :: nat) = 48 + nat d"
proof -
  assume "0 \<le> d" "d < 10"
  then have "48 + nat d < 256" by linarith
  then have "(48 + nat d) mod 256 = 48 + nat d" by (rule mod_less)
  then show ?thesis by (simp add: digit_def)
qed

lemma digit_inj: "0 \<le> a \<Longrightarrow> a < 10 \<Longrightarrow> 0 \<le> b \<Longrightarrow> b < 10 \<Longrightarrow> digit a = digit b \<longleftrightarrow> a = b"
  using of_char_digit [of a] of_char_digit [of b] by auto

lemma set_dec_str: "0 \<le> n \<Longrightarrow> d \<in> set (dec_str n) \<Longrightarrow> \<exists>k. 0 \<le> k \<and> k < 10 \<and> d = digit k"
proof (induction n rule: dec_str.induct)
  case (1 n)
  show ?case
  proof (cases "n < 10")
    case True
    with "1.prems" show ?thesis by (auto simp: dec_str.simps [of n])
  next
    case False
    with "1.prems" consider "d \<in> set (dec_str (n div 10))" | "d = digit (n mod 10)"
      by (auto simp: dec_str.simps [of n])
    then show ?thesis
    proof cases
      case 1
      have "0 \<le> n div 10" using False by simp
      with 1 "1.IH" [OF False] show ?thesis by blast
    next
      case 2
      have "0 \<le> n mod 10" "n mod 10 < 10" by simp_all
      with 2 show ?thesis by blast
    qed
  qed
qed

lemma dec_str_neq_Nil [simp]: "dec_str n \<noteq> []"
  by (simp add: dec_str.simps [of n])

lemma dec_str_inj: "0 \<le> m \<Longrightarrow> 0 \<le> n \<Longrightarrow> dec_str m = dec_str n \<longleftrightarrow> m = n"
proof (induction m arbitrary: n rule: dec_str.induct)
  case (1 m)
  have len: "dec_str a \<noteq> [d]" if "\<not> a < 10" for a and d :: char
    using that by (simp add: dec_str.simps [of a])
  show ?case
  proof (cases "m < 10")
    case True
    then have m: "dec_str m = [digit m]" by (simp add: dec_str.simps [of m])
    show ?thesis
    proof (cases "n < 10")
      case True
      then have "dec_str n = [digit n]" by (simp add: dec_str.simps [of n])
      with m True \<open>m < 10\<close> "1.prems" digit_inj [of m n] show ?thesis by simp
    next
      case False
      with len [of n "digit m"] m True show ?thesis by auto
    qed
  next
    case False
    show ?thesis
    proof (cases "n < 10")
      case True
      then have "dec_str n = [digit n]" by (simp add: dec_str.simps [of n])
      with False len [of m "digit n"] True show ?thesis by auto
    next
      case n: False
      have "dec_str m = dec_str n \<longleftrightarrow> m div 10 = n div 10 \<and> m mod 10 = n mod 10"
        using "1.IH" [OF False, of "n div 10"] False n digit_inj [of "m mod 10" "n mod 10"]
        by (simp add: dec_str.simps [of m] dec_str.simps [of n])
      then show ?thesis by (metis div_mult_mod_eq)
    qed
  qed
qed

lemma digit_not_slash: "0 \<le> d \<Longrightarrow> d < 10 \<Longrightarrow> digit d \<noteq> CHR ''/''"
  using of_char_digit [of d] by auto

text \<open>Text up to the first separator determines both halves.\<close>

lemma append_sep_inj:
  assumes "a @ c # x = b @ c # y" and "c \<notin> set a" and "c \<notin> set b"
  shows "a = b \<and> x = y"
  using assms
proof (induction a arbitrary: b)
  case Nil
  then show ?case by (cases b) auto
next
  case (Cons z a)
  then show ?case by (cases b) auto
qed

text \<open>The parser accepts exactly what the decimal renderer produces, in range.\<close>

lemma parse_nat_snoc:
  "parse_nat s = Some n \<Longrightarrow> is_digit c \<Longrightarrow> parse_nat (s @ [c]) = Some (10 * n + digit_val c)"
  by (auto simp: parse_nat_def split: if_splits)

lemma is_digit_digit: "0 \<le> d \<Longrightarrow> d < 10 \<Longrightarrow> is_digit (digit d) \<and> digit_val (digit d) = d"
  using of_char_digit [of d] by (auto simp: is_digit_def digit_val_def Let_def)

lemma parse_nat_dec_str: "0 \<le> n \<Longrightarrow> parse_nat (dec_str n) = Some n"
proof (induction n rule: dec_str.induct)
  case (1 n)
  show ?case
  proof (cases "n < 10")
    case True
    with is_digit_digit [of n] "1.prems" show ?thesis
      by (simp add: dec_str.simps [of n] parse_nat_def)
  next
    case False
    with "1.prems" have "0 \<le> n div 10" by simp
    with "1.IH" [OF False] have "parse_nat (dec_str (n div 10)) = Some (n div 10)" .
    moreover have "is_digit (digit (n mod 10)) \<and> digit_val (digit (n mod 10)) = n mod 10"
      by (rule is_digit_digit) simp_all
    ultimately have "parse_nat (dec_str (n div 10) @ [digit (n mod 10)]) = Some (10 * (n div 10) + n mod 10)"
      using parse_nat_snoc by simp
    with False show ?thesis by (simp add: dec_str.simps [of n])
  qed
qed

lemma dec_str_head: "0 \<le> n \<Longrightarrow> \<exists>c cs. dec_str n = c # cs \<and> is_digit c"
proof -
  assume n: "0 \<le> n"
  obtain c cs where "dec_str n = c # cs" using dec_str_neq_Nil [of n] by (cases "dec_str n") auto
  moreover from this have "is_digit c"
    using parse_nat_dec_str [OF n] by (simp add: parse_nat_def split: if_splits)
  ultimately show ?thesis by blast
qed

lemma ParseInt_fmt_d: "in_bits w n \<Longrightarrow> ParseInt w (fmt_d n) = Some n"
proof (cases "n < 0")
  case True
  assume "in_bits w n"
  with True show ?thesis using parse_nat_dec_str [of "- n"] by (simp add: ParseInt_def fmt_d_def)
next
  case False
  assume w: "in_bits w n"
  obtain c cs where c: "dec_str n = c # cs" "is_digit c" using dec_str_head [of n] False by auto
  have "c \<noteq> CHR ''+''" "c \<noteq> CHR ''-''" using c(2) by (auto simp: is_digit_def)
  with False w c(1) parse_nat_dec_str [of n] show ?thesis by (simp add: ParseInt_def fmt_d_def)
qed

lemma ParseInt_bits: "ParseInt w s = Some n \<Longrightarrow> in_bits w n"
  by (auto simp: ParseInt_def Let_def split: option.splits if_splits list.splits)

text \<open>Splitting, trimming and joining.\<close>

lemma split_on_append_sep: "c \<notin> set w \<Longrightarrow> split_on c (w @ c # s) = w # split_on c s"
  by (induction w) auto

lemma split_on_plain: "c \<notin> set w \<Longrightarrow> split_on c w = [w]"
  by (induction w) auto

lemma split_on_join: "cs \<noteq> [] \<Longrightarrow> \<forall>w \<in> set cs. c \<notin> set w \<Longrightarrow> split_on c (join cs [c]) = cs"
proof (induction cs "[c]" rule: join.induct)
  case (3 x y ys)
  then show ?case by (simp add: split_on_append_sep)
qed (simp_all add: split_on_plain)

lemma set_trim_space: "set (trim_space s) \<subseteq> set s"
  unfolding trim_space_def trim_with_def
  by (metis set_dropWhileD set_rev subsetI)

lemma trim_space_blank: "list_all is_space b \<Longrightarrow> trim_space (b @ a) = trim_space a"
  unfolding trim_space_def trim_with_def by (simp add: list_all_iff dropWhile_append)

lemma join_append_head: "join ((b @ x) # ys) sep = b @ join (x # ys) sep"
  by (cases ys) simp_all

lemma join_blank: "join (a # as) (CHR '','' # b) = join (a # map (\<lambda>x. b @ x) as) '',''"
proof (induction as arbitrary: a)
  case (Cons x xs)
  from Cons.IH [of x] show ?case by (simp add: join_append_head)
qed simp

lemma trim_space_id:
  assumes "s \<noteq> []" "\<not> is_space (hd s)" "\<not> is_space (last s)"
  shows "trim_space s = s"
proof -
  have "dropWhile is_space w = w" if "w \<noteq> []" "\<not> is_space (hd w)" for w using that by (cases w) auto
  from this [of s] this [of "rev s"] assms show ?thesis by (simp add: trim_space_def trim_with_def hd_rev)
qed

lemma fields_pair:
  assumes "a \<noteq> []" "b \<noteq> []" "list_all (\<lambda>c. \<not> is_space c) a" "list_all (\<lambda>c. \<not> is_space c) b"
  shows "fields (a @ CHR '' '' # b) = [a, b]"
proof -
  have "map (\<lambda>c. if is_space c then CHR '' '' else c) w = w" if "list_all (\<lambda>c. \<not> is_space c) w" for w
    using that by (induction w) auto
  moreover have "is_space CHR '' ''" by (simp add: is_space_def)
  moreover from this have "CHR '' '' \<notin> set a" "CHR '' '' \<notin> set b" using assms(3,4) by (auto simp: list_all_iff)
  ultimately show ?thesis using assms
    by (simp add: fields_def split_on_append_sep split_on_plain)
qed

end
