(* ===== verification/Go_Float64.thy ===== *)
theory Go_Float64
  imports Go_Strings
begin

text \<open>
  Go's \<open>float64\<close>: IEEE 754 binary64 with round-to-nearest-even, as rationals with the special
  values beside them. Every operation rounds the exact result once (\<open>rnd\<close>). The sign of a zero
  is not kept: no comparison the program makes can see it. The facts are that numbers with a
  53-bit significand are exact (\<open>rnd_exact\<close>) and that rounding is monotone (\<open>rnd_rat_mono\<close>),
  which is all the components need; \<open>fmt\<close>'s float verbs are at the end.
\<close>

datatype f64 = Fin rat | PInf | NInf | NaN

section \<open>Rounding\<close>

function bit_len :: "int \<Rightarrow> int" where
  "bit_len n = (if n \<le> 0 then 0 else 1 + bit_len (n div 2))"
  by pat_completeness auto
termination
  by (relation "measure nat") auto

declare bit_len.simps [simp del]

text \<open>The exponent of the binade that holds a positive rational.\<close>

definition ilog2 :: "rat \<Rightarrow> int" where
  "ilog2 x =
     (let (a, b) = quotient_of x; e = bit_len a - bit_len b
      in if 2 powi e \<le> x then e else e - 1)"

definition round_even :: "rat \<Rightarrow> int" where
  "round_even x =
     (let f = \<lfloor>x\<rfloor>; d = x - of_int f
      in if d < 1 / 2 then f else if 1 / 2 < d then f + 1 else if even f then f else f + 1)"

text \<open>The exponent of the last place at a binade, with gradual underflow.\<close>

definition ulp_exp :: "int \<Rightarrow> int" where
  "ulp_exp e = max (e - 52) (- 1074)"

definition rnd_rat :: "rat \<Rightarrow> rat" where
  "rnd_rat x =
     (if x = 0 then 0
      else let u = 2 powi (ulp_exp (ilog2 \<bar>x\<bar>)) in of_int (round_even (x / u)) * u)"

definition rnd :: "rat \<Rightarrow> f64" where
  "rnd x =
     (let y = rnd_rat x
      in if y \<noteq> 0 \<and> 1024 \<le> ilog2 \<bar>y\<bar> then (if 0 < y then PInf else NInf) else Fin y)"

section \<open>Operations\<close>

definition f_of_int :: "int \<Rightarrow> f64" where
  "f_of_int n = rnd (of_int n)"

fun f_neg :: "f64 \<Rightarrow> f64" where
  "f_neg (Fin x) = Fin (- x)"
| "f_neg PInf = NInf"
| "f_neg NInf = PInf"
| "f_neg NaN = NaN"

fun f_add :: "f64 \<Rightarrow> f64 \<Rightarrow> f64" where
  "f_add (Fin x) (Fin y) = rnd (x + y)"
| "f_add NaN _ = NaN"
| "f_add _ NaN = NaN"
| "f_add PInf NInf = NaN"
| "f_add NInf PInf = NaN"
| "f_add PInf _ = PInf"
| "f_add _ PInf = PInf"
| "f_add NInf _ = NInf"
| "f_add _ NInf = NInf"

definition f_sub :: "f64 \<Rightarrow> f64 \<Rightarrow> f64" where
  "f_sub a b = f_add a (f_neg b)"

text \<open>Division by a positive constant, the only one the source uses being 1000.\<close>

fun f_div_const :: "f64 \<Rightarrow> rat \<Rightarrow> f64" where
  "f_div_const (Fin x) c = rnd (x / c)"
| "f_div_const v c = v"

fun f_lt :: "f64 \<Rightarrow> f64 \<Rightarrow> bool" where
  "f_lt (Fin x) (Fin y) = (x < y)"
| "f_lt NaN _ = False"
| "f_lt _ NaN = False"
| "f_lt PInf _ = False"
| "f_lt _ PInf = True"
| "f_lt _ NInf = False"
| "f_lt NInf _ = True"

fun f_eq :: "f64 \<Rightarrow> f64 \<Rightarrow> bool" where
  "f_eq NaN _ = False"
| "f_eq a b = (a = b)"

definition f_le :: "f64 \<Rightarrow> f64 \<Rightarrow> bool" where
  "f_le a b = (f_lt a b \<or> f_eq a b)"

abbreviation f_zero :: f64 where "f_zero \<equiv> Fin 0"
abbreviation f_one :: f64 where "f_one \<equiv> Fin 1"

definition is_fin :: "f64 \<Rightarrow> bool" where
  "is_fin a = (case a of Fin _ \<Rightarrow> True | _ \<Rightarrow> False)"

fun f_val :: "f64 \<Rightarrow> rat" where
  "f_val (Fin x) = x"
| "f_val _ = 0"

section \<open>The binade\<close>

lemma bit_len_bounds:
  "0 < a \<Longrightarrow> \<exists>l. bit_len a = int (Suc l) \<and> 2 ^ l \<le> a \<and> a < 2 ^ Suc l"
proof (induction a rule: bit_len.induct)
  case (1 a)
  have eq: "bit_len a = 1 + bit_len (a div 2)" using "1.prems" by (simp add: bit_len.simps [of a])
  show ?case
  proof (cases "a = 1")
    case True
    have "bit_len 0 = 0" by (simp add: bit_len.simps [of 0])
    with True eq show ?thesis by (intro exI [of _ 0]) simp
  next
    case False
    with "1.prems" have "0 < a div 2" by linarith
    with "1.IH" "1.prems" obtain l
      where l: "bit_len (a div 2) = int (Suc l)" "2 ^ l \<le> a div 2" "a div 2 < 2 ^ Suc l" by auto
    have "2 ^ Suc l \<le> a" "a < 2 ^ Suc (Suc l)" using l(2,3) by simp_all
    with l(1) eq show ?thesis by (intro exI [of _ "Suc l"]) simp
  qed
qed

lemma bit_len_powi:
  assumes "0 < a"
  shows "2 powi (bit_len a - 1) \<le> (of_int a :: rat)" and "(of_int a :: rat) < 2 powi bit_len a"
proof -
  obtain l where l: "bit_len a = int (Suc l)" "2 ^ l \<le> a" "a < 2 ^ Suc l"
    using bit_len_bounds [OF assms] by blast
  have "of_int (2 ^ l) \<le> (of_int a :: rat)" using l(2) by (simp only: of_int_le_iff)
  moreover have "bit_len a - 1 = int l" using l(1) by simp
  ultimately show "2 powi (bit_len a - 1) \<le> (of_int a :: rat)" by (simp only: power_int_of_nat) simp
  have "(of_int a :: rat) < of_int (2 ^ Suc l)" using l(3) by (simp only: of_int_less_iff)
  then show "(of_int a :: rat) < 2 powi bit_len a" unfolding l(1) by (simp only: power_int_of_nat) simp
qed

lemma ilog2_bounds:
  assumes "0 < x"
  shows "2 powi (ilog2 x) \<le> x" and "x < 2 powi (ilog2 x + 1)"
proof -
  obtain a b where q: "quotient_of x = (a, b)" by force
  from q have b: "0 < b" by (rule quotient_of_denom_pos)
  from q have x: "x = of_int a / of_int b" by (rule quotient_of_div)
  with assms b have a: "0 < a" by (simp add: zero_less_divide_iff)
  define la where "la = bit_len a"
  define lb where "lb = bit_len b"
  note bnd = bit_len_powi [OF a, folded la_def] bit_len_powi [OF b, folded lb_def]
  have pos: "(0::rat) < of_int a" "(0::rat) < of_int b" using a b by simp_all
  have "x < 2 powi la / 2 powi (lb - 1)"
    unfolding x using bnd pos by (intro frac_less) auto
  also have "\<dots> = 2 powi (la - lb + 1)"
    by (simp add: power_int_diff [symmetric] algebra_simps)
  finally have up: "x < 2 powi (la - lb + 1)" .
  have "2 powi (la - 1) / 2 powi lb \<le> x"
    unfolding x using bnd pos by (intro frac_le) auto
  moreover have "(2::rat) powi (la - 1) / 2 powi lb = 2 powi (la - lb - 1)"
    by (simp add: power_int_diff [symmetric] algebra_simps)
  ultimately have lo: "2 powi (la - lb - 1) \<le> x" by simp
  have "ilog2 x = (if 2 powi (la - lb) \<le> x then la - lb else la - lb - 1)"
    by (simp add: ilog2_def q la_def lb_def Let_def)
  with up lo show "2 powi (ilog2 x) \<le> x" and "x < 2 powi (ilog2 x + 1)" by auto
qed

lemma powi_less_iff: "(2::rat) powi a < 2 powi b \<longleftrightarrow> a < b"
  by (metis less_le_not_le linorder_less_linear one_less_numeral_iff power_int_strict_increasing
      semiring_norm(76) order_less_irrefl)

lemma powi_le_iff: "(2::rat) powi a \<le> 2 powi b \<longleftrightarrow> a \<le> b"
  by (meson linorder_not_less powi_less_iff)

lemma ilog2_mono: "0 < x \<Longrightarrow> x \<le> y \<Longrightarrow> ilog2 x \<le> ilog2 y"
  using ilog2_bounds [of x] ilog2_bounds [of y] powi_less_iff [of "ilog2 x" "ilog2 y + 1"] by linarith

section \<open>Rounding to an integer\<close>

lemma round_even_of_int [simp]: "round_even (of_int n) = n"
  by (simp add: round_even_def)

lemma round_even_near: "\<bar>of_int (round_even x) - x\<bar> \<le> 1 / 2"
proof -
  have "of_int \<lfloor>x\<rfloor> \<le> x" "x < of_int \<lfloor>x\<rfloor> + 1" by linarith+
  then show ?thesis unfolding round_even_def Let_def by (simp add: abs_le_iff split: if_split; linarith)
qed

lemma round_even_mono: "x \<le> y \<Longrightarrow> round_even x \<le> round_even y"
proof -
  assume xy: "x \<le> y"
  then have "\<lfloor>x\<rfloor> < \<lfloor>y\<rfloor> \<or> \<lfloor>x\<rfloor> = \<lfloor>y\<rfloor>" using floor_mono by force
  then show ?thesis
  proof
    assume "\<lfloor>x\<rfloor> < \<lfloor>y\<rfloor>"
    then show ?thesis unfolding round_even_def Let_def by auto
  next
    assume "\<lfloor>x\<rfloor> = \<lfloor>y\<rfloor>"
    with xy show ?thesis unfolding round_even_def Let_def by auto
  qed
qed

lemma round_even_minus: "round_even (- x) = - round_even x"
proof (cases "x = of_int \<lfloor>x\<rfloor>")
  case True
  then have "round_even (- x) = round_even (of_int (- \<lfloor>x\<rfloor>))" by simp
  also have "\<dots> = - \<lfloor>x\<rfloor>" by (rule round_even_of_int)
  finally show ?thesis using True by (metis round_even_of_int)
next
  case False
  then have "\<lfloor>- x\<rfloor> = - \<lfloor>x\<rfloor> - 1" by linarith
  then show ?thesis unfolding round_even_def Let_def by auto
qed

lemma round_even_le_of_int: "x \<le> of_int n \<Longrightarrow> round_even x \<le> n"
  using round_even_mono [of x "of_int n"] by simp

lemma round_even_ge_of_int: "of_int n \<le> x \<Longrightarrow> n \<le> round_even x"
  using round_even_mono [of "of_int n" x] by simp

section \<open>Rounding to 53 bits\<close>

lemma rnd_rat_0 [simp]: "rnd_rat 0 = 0"
  by (simp add: rnd_rat_def)

lemma rnd_rat_minus: "rnd_rat (- x) = - rnd_rat x"
proof -
  have "round_even (- x / u) = - round_even (x / u)" for u
    using round_even_minus [of "x / u"] by simp
  then show ?thesis by (simp add: rnd_rat_def Let_def)
qed

text \<open>A multiple of the last place is not changed.\<close>

lemma rnd_rat_multiple:
  assumes u: "u = 2 powi (ulp_exp (ilog2 \<bar>x\<bar>))" and x: "x = of_int m * u"
  shows "rnd_rat x = x"
proof (cases "x = 0")
  case False
  have "u \<noteq> 0" by (simp add: u)
  then have "x / u = of_int m" by (subst x) simp
  then have "round_even (x / u) = m" by simp
  then have "rnd_rat x = of_int m * u"
    using False unfolding rnd_rat_def Let_def u [symmetric] by simp
  then show ?thesis using x by simp
qed simp

lemma powi_multiple: "k \<le> e \<Longrightarrow> (2::rat) powi e = of_int (2 ^ nat (e - k)) * 2 powi k"
proof -
  assume "k \<le> e"
  then have "(2::rat) powi e = 2 powi (int (nat (e - k)) + k)" by simp
  also have "\<dots> = 2 powi (int (nat (e - k))) * 2 powi k" by (rule power_int_add) simp
  also have "\<dots> = 2 ^ nat (e - k) * 2 powi k" by (simp only: power_int_of_nat)
  finally show ?thesis by simp
qed

theorem rnd_exact:
  assumes x: "x = of_int n * 2 powi e" and n: "\<bar>n\<bar> \<le> 2 ^ 53" and e: "- 1074 \<le> e"
  shows "rnd_rat x = x"
proof (cases "n = 0")
  case True
  with x show ?thesis by simp
next
  case False
  define k where "k = ulp_exp (ilog2 \<bar>x\<bar>)"
  have ax: "\<bar>x\<bar> = of_int \<bar>n\<bar> * 2 powi e" by (simp add: x abs_mult)
  with False have pos: "0 < \<bar>x\<bar>" by simp
  show ?thesis
  proof (cases "k \<le> e")
    case True
    have "x = of_int (n * 2 ^ nat (e - k)) * 2 powi k"
      using powi_multiple [OF True] by (simp add: x)
    then show ?thesis by (rule rnd_rat_multiple [rotated]) (simp add: k_def)
  next
    case False
    with e have k: "k = ilog2 \<bar>x\<bar> - 52" by (auto simp: k_def ulp_exp_def)
    have lo: "(2::rat) powi (k + 52) \<le> \<bar>x\<bar>" using ilog2_bounds(1) [OF pos] k by simp
    have "(of_int \<bar>n\<bar> :: rat) \<le> of_int (2 ^ 53)" using n by (simp only: of_int_le_iff)
    then have "\<bar>x\<bar> \<le> 2 powi 53 * 2 powi e"
      unfolding ax by (intro mult_right_mono) (simp_all add: power_int_def)
    also have eq: "(2::rat) powi 53 * 2 powi e = 2 powi (53 + e)" by (rule power_int_add [symmetric]) simp
    finally have "(2::rat) powi (k + 52) \<le> 2 powi (53 + e)" using lo by simp
    then have "k + 52 \<le> 53 + e" by (simp only: powi_le_iff)
    with False have ke: "k = e + 1" by simp
    have "(2::rat) powi 53 * 2 powi e = 2 powi (k + 52)" unfolding eq ke by (simp add: algebra_simps)
    with lo have "(2::rat) powi 53 * 2 powi e \<le> of_int \<bar>n\<bar> * 2 powi e" by (simp only: ax)
    then have "(2::rat) powi 53 \<le> of_int \<bar>n\<bar>" by simp
    then have "2 ^ 53 \<le> \<bar>n\<bar>" by (simp add: power_int_def)
    with n have "\<bar>n\<bar> = 2 ^ 53" by simp
    then have "n = 2 ^ 53 \<or> n = - (2 ^ 53)" by linarith
    then have "even n" by auto
    then obtain m where m: "n = 2 * m" by (rule evenE)
    have "x = of_int m * 2 powi k" unfolding ke by (simp add: x m power_int_add)
    then show ?thesis by (rule rnd_rat_multiple [rotated]) (simp add: k_def)
  qed
qed

corollary rnd_rat_of_int: "\<bar>n\<bar> \<le> 2 ^ 53 \<Longrightarrow> rnd_rat (of_int n) = of_int n"
  using rnd_exact [of "of_int n" n 0] by simp

text \<open>Rounding is monotone: within a binade by \<open>round_even_mono\<close>, across binades through the power of two.\<close>

lemma rnd_rat_le_pow2:
  assumes "0 < x" shows "rnd_rat x \<le> 2 powi (ilog2 x + 1)"
proof -
  define k where "k = ulp_exp (ilog2 x)"
  define u :: rat where "u = 2 powi k"
  have u: "0 < u" by (simp add: u_def)
  show ?thesis
  proof (cases "k \<le> ilog2 x + 1")
    case True
    define m :: int where "m = 2 ^ nat (ilog2 x + 1 - k)"
    have m: "(2::rat) powi (ilog2 x + 1) = of_int m * u"
      using powi_multiple [OF True] by (simp add: m_def u_def)
    have "x < of_int m * u" using ilog2_bounds(2) [OF assms] m by simp
    then have "x / u \<le> of_int m" using u by (simp add: pos_divide_le_eq)
    then have "round_even (x / u) \<le> m" by (rule round_even_le_of_int)
    then have "of_int (round_even (x / u)) * u \<le> of_int m * u"
      using u by (intro mult_right_mono) simp_all
    with assms m show ?thesis by (simp add: rnd_rat_def Let_def u_def k_def)
  next
    case False
    then have small: "ilog2 x + 1 \<le> k - 1" by simp
    have "x < 2 powi (k - 1)"
      using ilog2_bounds(2) [OF assms] small powi_le_iff [of "ilog2 x + 1" "k - 1"] by linarith
    then have "x < u / 2" by (simp add: u_def power_int_diff)
    then have "x / u < 1 / 2" using u by (simp add: pos_divide_less_eq)
    moreover have "0 < x / u" using u assms by simp
    ultimately have "\<lfloor>x / u\<rfloor> = 0" and "x / u < 1 / 2" by linarith+
    then have "round_even (x / u) = 0" by (simp add: round_even_def)
    with assms show ?thesis by (simp add: rnd_rat_def Let_def u_def k_def)
  qed
qed

lemma rnd_rat_ge_pow2:
  assumes "0 < x" and k: "ulp_exp (ilog2 x) \<le> ilog2 x" shows "2 powi (ilog2 x) \<le> rnd_rat x"
proof -
  define u :: rat where "u = 2 powi (ulp_exp (ilog2 x))"
  define m :: int where "m = 2 ^ nat (ilog2 x - ulp_exp (ilog2 x))"
  have u: "0 < u" by (simp add: u_def)
  have m: "(2::rat) powi (ilog2 x) = of_int m * u"
    using powi_multiple [OF k] by (simp add: m_def u_def)
  have "of_int m * u \<le> x" using ilog2_bounds(1) [OF assms(1)] m by simp
  then have "of_int m \<le> x / u" using u by (simp add: pos_le_divide_eq)
  then have "m \<le> round_even (x / u)" by (rule round_even_ge_of_int)
  then have "of_int m * u \<le> of_int (round_even (x / u)) * u"
    using u by (intro mult_right_mono) simp_all
  with assms m show ?thesis by (simp add: rnd_rat_def Let_def u_def)
qed

lemma rnd_rat_nonneg: "0 \<le> x \<Longrightarrow> 0 \<le> rnd_rat x"
  using round_even_ge_of_int [of 0] by (auto simp: rnd_rat_def Let_def)

lemma rnd_rat_mono_pos:
  assumes "0 < x" and xy: "x \<le> y" shows "rnd_rat x \<le> rnd_rat y"
proof -
  from assms have y: "0 < y" by simp
  have ex: "ilog2 x \<le> ilog2 y" using assms by (rule ilog2_mono)
  show ?thesis
  proof (cases "ulp_exp (ilog2 x) = ulp_exp (ilog2 y)")
    case True
    define u :: rat where "u = 2 powi (ulp_exp (ilog2 y))"
    have u: "0 < u" by (simp add: u_def)
    with xy have "x / u \<le> y / u" by (simp add: divide_right_mono)
    then have "round_even (x / u) \<le> round_even (y / u)" by (rule round_even_mono)
    then have "of_int (round_even (x / u)) * u \<le> of_int (round_even (y / u)) * u"
      using u by (intro mult_right_mono) simp_all
    with assms y True show ?thesis by (simp add: rnd_rat_def Let_def u_def)
  next
    case False
    with ex have lt: "ilog2 x + 1 \<le> ilog2 y" and k: "ulp_exp (ilog2 y) \<le> ilog2 y"
      by (auto simp: ulp_exp_def)
    have "rnd_rat x \<le> 2 powi (ilog2 x + 1)" by (rule rnd_rat_le_pow2 [OF assms(1)])
    also have "\<dots> \<le> 2 powi (ilog2 y)" using lt by (simp only: powi_le_iff)
    also have "\<dots> \<le> rnd_rat y" by (rule rnd_rat_ge_pow2 [OF y k])
    finally show ?thesis .
  qed
qed

theorem rnd_rat_mono:
  assumes "x \<le> y" shows "rnd_rat x \<le> rnd_rat y"
proof -
  consider "0 < x" | "y < 0" | "x \<le> 0" "0 \<le> y" by linarith
  then show ?thesis
  proof cases
    case 1
    then show ?thesis using assms by (rule rnd_rat_mono_pos)
  next
    case 2
    with assms have "rnd_rat (- y) \<le> rnd_rat (- x)" by (intro rnd_rat_mono_pos) simp_all
    then show ?thesis by (simp add: rnd_rat_minus)
  next
    case 3
    then have "0 \<le> rnd_rat (- x)" and "0 \<le> rnd_rat y" by (simp_all add: rnd_rat_nonneg)
    then show ?thesis by (simp add: rnd_rat_minus)
  qed
qed

lemma ilog2_less: "0 < x \<Longrightarrow> x < 2 powi e \<Longrightarrow> ilog2 x < e"
  using ilog2_bounds(1) [of x] powi_less_iff [of "ilog2 x" e] by linarith

lemma ilog2_unique: "0 < x \<Longrightarrow> 2 powi e \<le> x \<Longrightarrow> x < 2 powi (e + 1) \<Longrightarrow> ilog2 x = e"
  using ilog2_bounds [of x] powi_less_iff [of "ilog2 x" "e + 1"] powi_less_iff [of e "ilog2 x + 1"]
  by linarith

text \<open>Evaluation of one rounding, from its binade and the integer significand.\<close>

lemma rnd_eval:
  assumes "0 < x" and "2 powi e \<le> x" and "x < 2 powi (e + 1)" and "- 1022 \<le> e" and "e \<le> 1000"
    and m: "round_even (x / 2 powi (e - 52)) = m"
  shows "rnd x = Fin (of_int m * 2 powi (e - 52))"
proof -
  from assms have e: "ilog2 x = e" by (intro ilog2_unique)
  have y: "rnd_rat x = of_int m * 2 powi (e - 52)"
    using assms by (simp add: rnd_rat_def e ulp_exp_def Let_def)
  have "rnd_rat x \<le> 2 powi (e + 1)" using rnd_rat_le_pow2 [OF assms(1)] e by simp
  also have "\<dots> < 2 powi 1024" using assms(5) by (simp only: powi_less_iff)
  finally have "ilog2 \<bar>rnd_rat x\<bar> < 1024" if "rnd_rat x \<noteq> 0"
    using that rnd_rat_nonneg [of x] assms(1) by (intro ilog2_less) auto
  then show ?thesis unfolding rnd_def Let_def y [symmetric] by auto
qed

lemma rnd_FinI: "rnd_rat x = y \<Longrightarrow> \<bar>y\<bar> < 2 powi 1024 \<Longrightarrow> rnd x = Fin y"
  using ilog2_less [of "\<bar>y\<bar>" 1024] by (auto simp: rnd_def Let_def)

lemma rnd_of_int: "\<bar>n\<bar> \<le> 2 ^ 53 \<Longrightarrow> rnd (of_int n) = Fin (of_int n)"
proof -
  assume n: "\<bar>n\<bar> \<le> 2 ^ 53"
  then have "of_int \<bar>n\<bar> \<le> (of_int (2 ^ 53) :: rat)" by (simp only: of_int_le_iff)
  also have "\<dots> = 2 powi 53" by simp
  also have "\<dots> < (2 powi 1024 :: rat)" by (simp only: powi_less_iff)
  finally have "\<bar>of_int n\<bar> < (2 powi 1024 :: rat)" by simp
  with rnd_rat_of_int [OF n] show ?thesis by (rule rnd_FinI)
qed

lemma f_of_int_exact: "\<bar>n\<bar> \<le> 2 ^ 53 \<Longrightarrow> f_of_int n = Fin (of_int n)"
  by (simp only: f_of_int_def rnd_of_int)

lemma f_add_of_int:
  "\<bar>a + b\<bar> \<le> 2 ^ 53 \<Longrightarrow> f_add (Fin (of_int a)) (Fin (of_int b)) = Fin (of_int (a + b))"
  using rnd_of_int [of "a + b"] by simp

lemma f_sub_of_int:
  "\<bar>a - b\<bar> \<le> 2 ^ 53 \<Longrightarrow> f_sub (Fin (of_int a)) (Fin (of_int b)) = Fin (of_int (a - b))"
  using rnd_of_int [of "a - b"] by (simp add: f_sub_def)

lemma rnd_0 [simp]: "rnd 0 = Fin 0"
  by (simp add: rnd_def)

lemma rnd_not_NaN [simp]: "rnd x \<noteq> NaN"
  by (simp add: rnd_def Let_def)

lemma rnd_mono: "x \<le> y \<Longrightarrow> f_le (rnd x) (rnd y)"
proof -
  assume "x \<le> y"
  then have le: "rnd_rat x \<le> rnd_rat y" by (rule rnd_rat_mono)
  define a where "a = rnd_rat x"
  define b where "b = rnd_rat y"
  have pos: "ilog2 a \<le> ilog2 b" if "0 < a" using that le by (auto simp: a_def b_def intro: ilog2_mono)
  have neg: "ilog2 (- b) \<le> ilog2 (- a)" if "b < 0" using that le by (auto simp: a_def b_def intro: ilog2_mono)
  have ab: "a \<le> b" using le by (simp add: a_def b_def)
  show ?thesis unfolding rnd_def Let_def a_def [symmetric] b_def [symmetric]
    using pos neg ab by (cases "0 < a"; cases "b < 0") (auto simp: f_le_def)
qed

lemma f_le_refl [simp]: "a \<noteq> NaN \<Longrightarrow> f_le a a"
  by (cases a) (auto simp: f_le_def)

lemma f_le_Fin [simp]: "f_le (Fin x) (Fin y) \<longleftrightarrow> x \<le> y"
  by (auto simp: f_le_def)

lemma f_lt_irrefl [simp]: "\<not> f_lt a a"
  by (cases a) auto

lemma f_le_trans: "f_le a b \<Longrightarrow> f_le b c \<Longrightarrow> f_le a c"
  by (cases a; cases b; cases c) (auto simp: f_le_def)

lemma f_lt_trans: "f_lt a b \<Longrightarrow> f_lt b c \<Longrightarrow> f_lt a c"
  by (cases a; cases b; cases c) auto

lemma f_not_lt: "a \<noteq> NaN \<Longrightarrow> b \<noteq> NaN \<Longrightarrow> \<not> f_lt a b \<longleftrightarrow> f_le b a"
  by (cases a; cases b) (auto simp: f_le_def)

section \<open>Rendering: \<open>%.3f\<close>, \<open>%.0f\<close> and \<open>%v\<close>\<close>

fun zeros :: "nat \<Rightarrow> string" where
  "zeros 0 = []"
| "zeros (Suc n) = CHR ''0'' # zeros n"

definition pad_left :: "nat \<Rightarrow> string \<Rightarrow> string" where
  "pad_left w s = zeros (w - length s) @ s"

definition fmt_special :: "f64 \<Rightarrow> string" where
  "fmt_special a = (case a of PInf \<Rightarrow> ''+Inf'' | NInf \<Rightarrow> ''-Inf'' | _ \<Rightarrow> ''NaN'')"

text \<open>\<open>%.<p>f\<close>: the decimal of \<open>p\<close> places nearest to the value, ties to even.\<close>

definition fmt_f :: "nat \<Rightarrow> f64 \<Rightarrow> string" where
  "fmt_f p a =
     (case a of
        Fin x \<Rightarrow>
          (let q = round_even (\<bar>x\<bar> * 10 ^ p); w = dec_str (q div 10 ^ p);
               frac = (if p = 0 then [] else CHR ''.'' # pad_left p (dec_str (q mod 10 ^ p)))
           in (if x < 0 then ''-'' else []) @ w @ frac)
      | _ \<Rightarrow> fmt_special a)"

text \<open>
  \<open>%v\<close> prints the shortest decimal that reads back as the same float: \<open>decimal_at n x\<close> is the
  nearest decimal of \<open>n\<close> significant digits as integer and exponent of its first digit, and 17
  digits always suffice. The exponent form is used below 1e-4 and from 1e6 on.
\<close>

function dec_len :: "int \<Rightarrow> int" where
  "dec_len n = (if n \<le> 0 then 0 else 1 + dec_len (n div 10))"
  by pat_completeness auto
termination
  by (relation "measure nat") auto

declare dec_len.simps [simp del]

definition ilog10 :: "rat \<Rightarrow> int" where
  "ilog10 x =
     (let (a, b) = quotient_of x; e = dec_len a - dec_len b
      in if 10 powi e \<le> x then e else e - 1)"

definition decimal_at :: "int \<Rightarrow> rat \<Rightarrow> int \<times> int" where
  "decimal_at n x =
     (let t = ilog10 x; m = round_even (x * 10 powi (n - 1 - t))
      in if dec_len m = n + 1 then (m div 10, t + 1) else (m, t))"

definition reads_back :: "rat \<Rightarrow> int \<Rightarrow> bool" where
  "reads_back x n = (let (m, t) = decimal_at n x in rnd (of_int m * 10 powi (t + 1 - n)) = Fin x)"

definition shortest_digits :: "rat \<Rightarrow> int" where
  "shortest_digits x = (case find (reads_back x) [1..17] of Some n \<Rightarrow> n | None \<Rightarrow> 17)"

definition fmt_exp :: "string \<Rightarrow> int \<Rightarrow> string" where
  "fmt_exp ds t =
     take 1 ds @ (if length ds \<le> 1 then [] else CHR ''.'' # drop 1 ds) @ CHR ''e'' #
     (if t < 0 then CHR ''-'' else CHR ''+'') # pad_left 2 (dec_str \<bar>t\<bar>)"

definition fmt_fixed :: "string \<Rightarrow> int \<Rightarrow> string" where
  "fmt_fixed ds t =
     (let dp = t + 1; nd = int (length ds) in
      if dp \<le> 0 then ''0.'' @ zeros (nat (- dp)) @ ds
      else if nd \<le> dp then ds @ zeros (nat (dp - nd))
      else take (nat dp) ds @ CHR ''.'' # drop (nat dp) ds)"

definition fmt_v :: "f64 \<Rightarrow> string" where
  "fmt_v a =
     (case a of
        Fin x \<Rightarrow>
          (if x = 0 then ''0''
           else let (m, t) = decimal_at (shortest_digits \<bar>x\<bar>) \<bar>x\<bar>; ds = dec_str m
                in (if x < 0 then ''-'' else []) @
                   (if t < - 4 \<or> 6 \<le> t then fmt_exp ds t else fmt_fixed ds t))
      | _ \<Rightarrow> fmt_special a)"

text \<open>\<open>%v\<close> of a \<open>map[string]float64\<close>.\<close>

definition fmt_resources :: "f64 gomap \<Rightarrow> string" where
  "fmt_resources m = fmt_map fmt_v m"

end
