(* ===== verification/Kube_Types.thy ===== *)
theory Kube_Types
  imports Go_Float64 "HOL-Library.Word"
begin

text \<open>
  The parts of the Kubernetes API objects (\<open>corev1\<close>) that the program reads: plain data, one
  record per API struct, an optional pointer or nil map as an \<open>option\<close>. API enumerations are
  strings, as in Go. A \<open>resource.Quantity\<close> is third-party code; the program only calls its
  methods \<open>Value\<close>, \<open>MilliValue\<close> and \<open>IsZero\<close>, so a quantity is the results of these three
  calls. Times are nanoseconds from Go's zero time, which is 0.
\<close>

type_synonym i32 = "32 word"
type_synonym gotime = int

record quantity =
  q_value :: int
  q_milli :: int
  q_is_zero :: bool

type_synonym resource_list = "quantity gomap"

record container_port =
  cp_host_port :: int
  cp_host_ip :: string
  cp_protocol :: string

record volume_mount =
  vm_name :: string
  vm_path :: string
  vm_sub_path :: string

record container =
  ct_name :: string
  ct_image :: string
  ct_command :: "string list"
  ct_args :: "string list"
  ct_ports :: "container_port list"
  ct_requests :: resource_list
  ct_limits :: resource_list
  ct_mounts :: "volume_mount list"
  ct_restart_policy :: "string option"

record taint =
  tn_key :: string
  tn_value :: string
  tn_effect :: string

record toleration =
  tl_key :: string
  tl_operator :: string
  tl_value :: string
  tl_effect :: string

record selector_requirement =
  sr_key :: string
  sr_operator :: string
  sr_values :: "string list"

record node_selector_term =
  st_expressions :: "selector_requirement list"
  st_fields :: "selector_requirement list"

text \<open>
  Node affinity with its terms; of pod (anti-)affinity, which the program does not evaluate, the
  topology keys of the required and of the preferred terms.
\<close>

record pod_terms =
  pt_required :: "string list"
  pt_preferred :: "string list"

record affinity =
  af_node_required :: "node_selector_term list option option"
  af_node_preferred :: "node_selector_term list"
  af_pod :: "pod_terms option"
  af_pod_anti :: "pod_terms option"

record topology_constraint =
  tc_key :: string
  tc_when_unsatisfiable :: string

text \<open>The items of a ConfigMap volume are pairs of a key and the path it is projected to; a claim is its
  name and whether it is mounted read-only.\<close>

record config_map_source =
  cs_name :: string
  cs_items :: "(string \<times> string) list"

record volume =
  vo_name :: string
  vo_config_map :: "config_map_source option"
  vo_pvc :: "(string \<times> bool) option"
  vo_csi :: bool
  vo_ephemeral :: bool

record condition =
  cd_type :: string
  cd_status :: string
  cd_reason :: string
  cd_message :: string
  cd_time :: gotime

text \<open>The state of a container, with the reason and the message of the two states that have them.\<close>

datatype container_state = StateWaiting string string | StateRunning | StateTerminated string string | StateNone

record container_status =
  st_name :: string
  st_ready :: bool
  st_restarts :: i32
  st_state :: container_state

record pod =
  pod_namespace :: string
  pod_name :: string
  pod_uid :: string
  pod_labels :: "string gomap"
  pod_annotations :: "string gomap"
  pod_deletion :: "gotime option"
  pod_scheduler_name :: string
  pod_node_name :: string
  pod_gates :: "string list"
  pod_containers :: "container list"
  pod_init_containers :: "container list"
  pod_node_selector :: "string gomap"
  pod_affinity :: "affinity option"
  pod_tolerations :: "toleration list"
  pod_constraints :: "topology_constraint list"
  pod_volumes :: "volume list"
  pod_overhead :: resource_list
  pod_phase :: string
  pod_conditions :: "condition list"
  pod_nominated :: string
  pod_priority :: "i32 option"
  pod_priority_class :: string
  pod_preemption :: "string option"
  pod_runtime_class :: "string option"
  pod_host_network :: bool
  pod_statuses :: "container_status list"

record node =
  nd_name :: string
  nd_labels :: "string gomap"
  nd_unschedulable :: bool
  nd_taints :: "taint list"
  nd_conditions :: "condition list"
  nd_capacity :: resource_list
  nd_allocatable :: resource_list

record event =
  ev_type :: string
  ev_reason :: string
  ev_message :: string
  ev_count :: i32
  ev_action :: string
  ev_kind :: string
  ev_object_name :: string
  ev_object_uid :: string
  ev_component :: string
  ev_controller :: string
  ev_event_time :: gotime
  ev_series_time :: "gotime option"
  ev_last_time :: gotime
  ev_first_time :: gotime
  ev_created :: gotime

text \<open>The zero values.\<close>

definition empty_pod :: pod where
  "empty_pod = \<lparr>pod_namespace = '''', pod_name = '''', pod_uid = '''', pod_labels = [],
     pod_annotations = [], pod_deletion = None, pod_scheduler_name = '''', pod_node_name = '''',
     pod_gates = [], pod_containers = [], pod_init_containers = [], pod_node_selector = [],
     pod_affinity = None, pod_tolerations = [], pod_constraints = [], pod_volumes = [],
     pod_overhead = [], pod_phase = '''', pod_conditions = [], pod_nominated = '''',
     pod_priority = None, pod_priority_class = '''', pod_preemption = None, pod_runtime_class = None,
     pod_host_network = False, pod_statuses = []\<rparr>"

definition empty_container :: container where
  "empty_container = \<lparr>ct_name = '''', ct_image = '''', ct_command = [], ct_args = [], ct_ports = [],
     ct_requests = [], ct_limits = [], ct_mounts = [], ct_restart_policy = None\<rparr>"

definition empty_node :: node where
  "empty_node = \<lparr>nd_name = '''', nd_labels = [], nd_unschedulable = False, nd_taints = [],
     nd_conditions = [], nd_capacity = [], nd_allocatable = []\<rparr>"

end
