(* ===== verification/Cluster_Types.thy ===== *)
theory Cluster_Types
  imports Kube_Types
begin

text \<open>
  The data of package \<open>internal/cluster\<close>: the scheduler identity, PodGroups and Queues decoded
  from the informers, the parsed scheduler configuration, the cache dump and the queue snapshot
  computed from it.
\<close>

text \<open>Values of type \<open>any\<close> in parsed YAML documents.\<close>

datatype any_val =
    AnyNil
  | AnyBool bool
  | AnyNum f64
  | AnyStr string
  | AnyList "any_val list"
  | AnyMap "(string \<times> any_val) list"

record scheduler =
  sch_namespace :: string
  sch_name :: string
  sch_uid :: string
  sch_container :: string
  sch_binary :: string
  sch_image :: string
  sch_tag :: string
  sch_version :: string
  sch_git_sha :: string
  sch_built_at :: string
  sch_go_version :: string
  sch_go_os_arch :: string
  sch_names :: "string list"
  sch_default_queue :: string
  sch_determinate :: bool
  sch_reason :: string
  sch_version_reason :: string

record pod_group_condition =
  pc_type :: string
  pc_status :: string
  pc_transition_id :: string
  pc_reason :: string
  pc_message :: string
  pc_last_transition :: string

record pod_group =
  pg_namespace :: string
  pg_name :: string
  pg_uid :: string
  pg_version :: string
  pg_created :: gotime
  pg_queue :: string
  pg_priority_class :: string
  pg_priority :: "i32 option"
  pg_min_member :: i32
  pg_min_task_member :: "i32 gomap"
  pg_min_resources :: "resource_list option"
  pg_phase :: string
  pg_conditions :: "pod_group_condition list"
  pg_running :: i32
  pg_succeeded :: i32
  pg_failed :: i32

record queue =
  qu_name :: string
  qu_uid :: string
  qu_version :: string
  qu_state :: string
  qu_type :: string
  qu_parent :: string
  qu_weight :: i32
  qu_reclaimable :: bool
  qu_guarantee :: resource_list
  qu_capability :: resource_list
  qu_deserved :: resource_list
  qu_allocated :: resource_list
  qu_pending :: i32
  qu_inqueue :: i32
  qu_running :: i32
  qu_completed :: i32
  qu_unknown :: i32

record scheduler_plugin =
  sp_name :: string
  sp_arguments :: "any_val gomap"
  sp_options :: "any_val gomap"

record scheduler_tier =
  sti_plugins :: "scheduler_plugin list"

record plugin_configuration =
  pcf_name :: string
  pcf_arguments :: "any_val gomap"

record runtime_config =
  rc_determinate :: bool
  rc_reason :: string
  rc_namespace :: string
  rc_pod :: string
  rc_uid :: string
  rc_conf_path :: string
  rc_cm_namespace :: string
  rc_cm_name :: string
  rc_cm_key :: string
  rc_cm_uid :: string
  rc_cm_version :: string
  rc_actions :: "string list"
  rc_tiers :: "scheduler_tier list"
  rc_configurations :: "plugin_configuration list"
  rc_metrics :: "any_val gomap"

record cache_node =
  cn_name :: string
  cn_allocatable :: "f64 gomap"
  cn_idle :: "f64 gomap"
  cn_used :: "f64 gomap"
  cn_releasing :: "f64 gomap"

record cache_task =
  tk_uid :: string
  tk_namespace :: string
  tk_name :: string
  tk_job :: string
  tk_status :: string
  tk_resreq :: "f64 gomap"

record cache_job =
  cj_uid :: string
  cj_namespace :: string
  cj_name :: string
  cj_queue :: string
  cj_min_available :: i32
  cj_tasks :: "cache_task list"

text \<open>The nodes and jobs maps are \<open>None\<close> when nil: the capture is retried only then.\<close>

record cache_dump =
  cu_scheduler :: scheduler
  cu_nodes :: "cache_node gomap option"
  cu_jobs :: "cache_job gomap option"

record queue_snapshot_resource =
  qr_capability :: "f64 option"
  qr_deserved :: "f64 option"
  qr_allocated :: "f64 option"
  qr_request :: "f64 option"
  qr_inqueue :: "f64 option"
  qr_elastic :: "f64 option"

record queue_snapshot =
  qs_queue :: string
  qs_strategy :: string
  qs_source :: string
  qs_resources :: "queue_snapshot_resource gomap"

definition empty_scheduler :: scheduler where
  "empty_scheduler = \<lparr>sch_namespace = [], sch_name = [], sch_uid = [], sch_container = [],
     sch_binary = [], sch_image = [], sch_tag = [], sch_version = [],
     sch_git_sha = [], sch_built_at = [], sch_go_version = [], sch_go_os_arch = [], sch_names = [],
     sch_default_queue = [], sch_determinate = False, sch_reason = [], sch_version_reason = []\<rparr>"

definition empty_runtime_config :: runtime_config where
  "empty_runtime_config = \<lparr>rc_determinate = False, rc_reason = [], rc_namespace = [], rc_pod = [],
     rc_uid = [], rc_conf_path = [], rc_cm_namespace = [], rc_cm_name = [], rc_cm_key = [],
     rc_cm_uid = [], rc_cm_version = [], rc_actions = [], rc_tiers = [], rc_configurations = [],
     rc_metrics = []\<rparr>"

definition empty_pod_group :: pod_group where
  "empty_pod_group = \<lparr>pg_namespace = [], pg_name = [], pg_uid = [], pg_version = [], pg_created = 0,
     pg_queue = [], pg_priority_class = [], pg_priority = None, pg_min_member = 0,
     pg_min_task_member = [], pg_min_resources = None, pg_phase = [],
     pg_conditions = [], pg_running = 0, pg_succeeded = 0, pg_failed = 0\<rparr>"

definition empty_queue :: queue where
  "empty_queue = \<lparr>qu_name = [], qu_uid = [], qu_version = [], qu_state = [],
     qu_type = [], qu_parent = [], qu_weight = 0, qu_reclaimable = False, qu_guarantee = [],
     qu_capability = [], qu_deserved = [], qu_allocated = [], qu_pending = 0, qu_inqueue = 0,
     qu_running = 0, qu_completed = 0, qu_unknown = 0\<rparr>"

definition empty_cache_node :: cache_node where
  "empty_cache_node = \<lparr>cn_name = [], cn_allocatable = [], cn_idle = [], cn_used = [],
     cn_releasing = []\<rparr>"

definition empty_snapshot_resource :: queue_snapshot_resource where
  "empty_snapshot_resource = \<lparr>qr_capability = None, qr_deserved = None, qr_allocated = None,
     qr_request = None, qr_inqueue = None, qr_elastic = None\<rparr>"

definition empty_queue_snapshot :: queue_snapshot where
  "empty_queue_snapshot = \<lparr>qs_queue = [], qs_strategy = [], qs_source = [], qs_resources = []\<rparr>"

definition empty_cache_dump :: cache_dump where
  "empty_cache_dump = \<lparr>cu_scheduler = empty_scheduler, cu_nodes = None, cu_jobs = None\<rparr>"

end
