(* ===== verification/Model.thy ===== *)
theory Model
  imports Cluster_Types
begin

text \<open>
  Package \<open>internal/agent/model\<close>: checks, stage states, the per-stage reports and the report of
  one analysis, with the three constructors of a check. A check is well formed (\<open>check_wf\<close>) when
  a skipped one counts as passed and determinate and an undetermined one does not count as
  passed; every check any stage emits is, which is what the aggregation in the report relies on.
\<close>

section \<open>Scheduler policy\<close>

record configured_plugin =
  pl_name :: string
  pl_tier :: int
  pl_order :: int
  pl_argument_keys :: "string list"
  pl_option_keys :: "string list"
  pl_arguments :: "bool gomap"
  pl_options :: "bool gomap"

record plugin_tier =
  ti_order :: int
  ti_plugins :: "configured_plugin list"

record scheduler_policy =
  po_determinate :: bool
  po_active :: bool
  po_reason :: string
  po_namespace :: string
  po_pod :: string
  po_uid :: string
  po_conf_path :: string
  po_cm_namespace :: string
  po_cm_name :: string
  po_cm_key :: string
  po_cm_uid :: string
  po_cm_version :: string
  po_actions :: "string list"
  po_tiers :: "plugin_tier list"

section \<open>Checks\<close>

record queue_resource_value =
  rv_capability :: "f64 option"
  rv_deserved :: "f64 option"
  rv_allocated :: "f64 option"
  rv_request :: "f64 option"
  rv_inqueue :: "f64 option"
  rv_elastic :: "f64 option"
  rv_candidate :: "f64 option"
  rv_available :: "f64 option"
  rv_required :: "f64 option"

text \<open>The dynamic types the program stores in \<open>Check.Evidence\<close>.\<close>

datatype evidence =
    EvNil
  | EvBool bool
  | EvInt32 i32
  | EvCounts "i32 gomap"
  | EvStrs "string list"
  | EvStrMap "string gomap"
  | EvResources "f64 gomap"
  | EvPolicy scheduler_policy
  | EvQueue queue
  | EvPodGroup pod_group
  | EvEvent event
  | EvCacheNode cache_node
  | EvCacheNodes "cache_node gomap"
  | EvConstraint topology_constraint
  | EvQueueResources "queue_resource_value gomap"
  | EvMap "(string \<times> evidence) list"

record check =
  chk_id :: string
  chk_stage :: string
  chk_name :: string
  chk_passed :: bool
  chk_determinate :: bool
  chk_skipped :: bool
  chk_reason :: string
  chk_evidence :: evidence
  chk_source :: "string list"

definition Known :: "string \<Rightarrow> string \<Rightarrow> string \<Rightarrow> bool \<Rightarrow> string \<Rightarrow> string list \<Rightarrow> check" where
  "Known cid stage name passed reason source =
     \<lparr>chk_id = cid, chk_stage = stage, chk_name = name, chk_passed = passed,
      chk_determinate = True, chk_skipped = False, chk_reason = reason, chk_evidence = EvNil,
      chk_source = source\<rparr>"

definition Unknown ::
  "string \<Rightarrow> string \<Rightarrow> string \<Rightarrow> string \<Rightarrow> evidence \<Rightarrow> string list \<Rightarrow> check" where
  "Unknown cid stage name reason evidence source =
     \<lparr>chk_id = cid, chk_stage = stage, chk_name = name, chk_passed = False,
      chk_determinate = False, chk_skipped = False, chk_reason = reason,
      chk_evidence = evidence, chk_source = source\<rparr>"

definition Skipped :: "string \<Rightarrow> string \<Rightarrow> string \<Rightarrow> string \<Rightarrow> string list \<Rightarrow> check" where
  "Skipped cid stage name reason source =
     \<lparr>chk_id = cid, chk_stage = stage, chk_name = name, chk_passed = True,
      chk_determinate = True, chk_skipped = True, chk_reason = reason, chk_evidence = EvNil,
      chk_source = source\<rparr>"

definition empty_check :: check where
  "empty_check = \<lparr>chk_id = [], chk_stage = [], chk_name = [], chk_passed = False,
      chk_determinate = False, chk_skipped = False, chk_reason = [], chk_evidence = EvNil,
      chk_source = []\<rparr>"

section \<open>Reports\<close>

datatype outcome = OutcomePass | OutcomeFail | OutcomeUnknown | OutcomeSkipped

record stage_state =
  ss_outcome :: outcome
  ss_conclusion :: string
  ss_skip_reason :: string

record resource_pair =
  rp_free :: "f64 option"
  rp_total :: "f64 option"
  rp_used :: "f64 option"
  rp_releasing :: "f64 option"
  rp_insufficient :: bool

record node_result =
  nr_name :: string
  nr_passed :: bool
  nr_determinate :: bool
  nr_resources :: "resource_pair gomap"
  nr_checks :: "check list"

record queue_summary =
  qm_name :: string
  qm_state :: string
  qm_strategy :: string
  qm_formula :: string
  qm_formula_note :: string
  qm_runtime_source :: string
  qm_runtime_determinate :: bool
  qm_runtime_reason :: string
  qm_resources :: "queue_resource_value gomap"

record pod_group_summary =
  gs_namespace :: string
  gs_name :: string
  gs_target :: bool
  gs_phase :: string
  gs_priority_class :: string
  gs_priority :: "i32 option"
  gs_created_at :: string
  gs_age_seconds :: int
  gs_min_member :: i32
  gs_resources :: "f64 gomap"

record enqueue_report =
  er_state :: stage_state
  er_queue :: queue_summary
  er_checks :: "check list"
  er_pod_groups :: "pod_group_summary list"

record workload_row =
  wr_namespace :: string
  wr_pod :: string
  wr_containers :: "string list"
  wr_resources :: "f64 gomap"
  wr_checks :: "check list"

record job_valid_report =
  jr_state :: stage_state
  jr_rows :: "workload_row list"

record allocate_report =
  ar_state :: stage_state
  ar_nodes :: "node_result list"

record diagnosis =
  di_root_cause :: string
  di_suggestions :: "string list"

record plugin_hook_report =
  ph_action :: string
  ph_phase :: int
  ph_tier :: int
  ph_order :: int
  ph_plugin :: string
  ph_hook :: string
  ph_enabled :: bool
  ph_enabled_determinate :: bool
  ph_passed :: bool
  ph_determinate :: bool
  ph_reason :: string
  ph_source :: "string list"

record action_report =
  ac_name :: string
  ac_order :: int
  ac_configured :: bool
  ac_checks :: "check list"
  ac_plugins :: "plugin_hook_report list"
  ac_nodes :: "node_result list"

record request =
  rq_namespace :: string
  rq_pod :: string
  rq_branch :: string

record report =
  re_request :: request
  re_scheduler :: "scheduler option"
  re_policy :: scheduler_policy
  re_checks :: "check list"
  re_nodes :: "node_result list"
  re_actions :: "action_report list"
  re_passed :: bool
  re_conclusion :: string
  re_diagnosis :: diagnosis
  re_enqueue :: enqueue_report
  re_job_valid :: job_valid_report
  re_allocate :: allocate_report
  re_source_fallback :: bool
  re_llm :: string
  re_plugin_hooks :: "plugin_hook_report list"
  re_hooks_inspected :: bool
  re_predicate_defaults :: "bool gomap"
  re_predicate_defaults_err :: string

section \<open>Zero values\<close>

text \<open>What Go's \<open>Report{}\<close>, \<open>SchedulerPolicy{}\<close>, ... denote.\<close>

definition empty_policy :: scheduler_policy where
  "empty_policy = \<lparr>po_determinate = False, po_active = False, po_reason = [], po_namespace = [],
     po_pod = [], po_uid = [], po_conf_path = [], po_cm_namespace = [], po_cm_name = [], po_cm_key = [],
     po_cm_uid = [], po_cm_version = [], po_actions = [], po_tiers = []\<rparr>"

text \<open>The zero value of the string type \<open>Outcome\<close> is \<open>""\<close>, which is none of its constants; every
  report is given its stages before it is read, so the model starts from \<open>OutcomeUnknown\<close>.\<close>

definition empty_stage :: stage_state where
  "empty_stage = \<lparr>ss_outcome = OutcomeUnknown, ss_conclusion = [], ss_skip_reason = []\<rparr>"

definition empty_queue_summary :: queue_summary where
  "empty_queue_summary = \<lparr>qm_name = [], qm_state = [], qm_strategy = [], qm_formula = [],
     qm_formula_note = [], qm_runtime_source = [], qm_runtime_determinate = False,
     qm_runtime_reason = [], qm_resources = []\<rparr>"

definition empty_queue_value :: queue_resource_value where
  "empty_queue_value = \<lparr>rv_capability = None, rv_deserved = None, rv_allocated = None, rv_request = None,
     rv_inqueue = None, rv_elastic = None, rv_candidate = None, rv_available = None, rv_required = None\<rparr>"

definition empty_report :: report where
  "empty_report = \<lparr>re_request = \<lparr>rq_namespace = [], rq_pod = [], rq_branch = []\<rparr>, re_scheduler = None,
     re_policy = empty_policy, re_checks = [], re_nodes = [], re_actions = [], re_passed = False,
     re_conclusion = [], re_diagnosis = \<lparr>di_root_cause = [], di_suggestions = []\<rparr>,
     re_enqueue = \<lparr>er_state = empty_stage, er_queue = empty_queue_summary, er_checks = [], er_pod_groups = []\<rparr>,
     re_job_valid = \<lparr>jr_state = empty_stage, jr_rows = []\<rparr>,
     re_allocate = \<lparr>ar_state = empty_stage, ar_nodes = []\<rparr>, re_source_fallback = False, re_llm = [],
     re_plugin_hooks = [], re_hooks_inspected = False, re_predicate_defaults = [],
     re_predicate_defaults_err = []\<rparr>"

section \<open>Well-formed checks\<close>

definition check_wf :: "check \<Rightarrow> bool" where
  "check_wf c \<longleftrightarrow>
     (chk_skipped c \<longrightarrow> chk_passed c \<and> chk_determinate c) \<and> (\<not> chk_determinate c \<longrightarrow> \<not> chk_passed c)"

text \<open>A definite failure, the only kind of result that stops or fails a stage.\<close>

definition known_failure :: "check \<Rightarrow> bool" where
  "known_failure c \<longleftrightarrow> chk_determinate c \<and> \<not> chk_passed c \<and> \<not> chk_skipped c"

lemma Known_simps [simp, check_simps]:
  "chk_id (Known i s n p r src) = i" "chk_stage (Known i s n p r src) = s"
  "chk_name (Known i s n p r src) = n" "chk_passed (Known i s n p r src) = p"
  "chk_determinate (Known i s n p r src)" "\<not> chk_skipped (Known i s n p r src)"
  "chk_reason (Known i s n p r src) = r" "chk_evidence (Known i s n p r src) = EvNil"
  "chk_source (Known i s n p r src) = src"
  by (simp_all add: Known_def)

lemma Unknown_simps [simp, check_simps]:
  "chk_id (Unknown i s n r e src) = i" "chk_stage (Unknown i s n r e src) = s"
  "chk_name (Unknown i s n r e src) = n" "\<not> chk_passed (Unknown i s n r e src)"
  "\<not> chk_determinate (Unknown i s n r e src)" "\<not> chk_skipped (Unknown i s n r e src)"
  "chk_reason (Unknown i s n r e src) = r" "chk_evidence (Unknown i s n r e src) = e"
  "chk_source (Unknown i s n r e src) = src"
  by (simp_all add: Unknown_def)

lemma Skipped_simps [simp, check_simps]:
  "chk_id (Skipped i s n r src) = i" "chk_stage (Skipped i s n r src) = s"
  "chk_name (Skipped i s n r src) = n" "chk_passed (Skipped i s n r src)"
  "chk_determinate (Skipped i s n r src)" "chk_skipped (Skipped i s n r src)"
  "chk_reason (Skipped i s n r src) = r" "chk_evidence (Skipped i s n r src) = EvNil"
  "chk_source (Skipped i s n r src) = src"
  by (simp_all add: Skipped_def)

lemma check_wf_constructors [simp, check_intros]:
  "check_wf (Known i s n p r src)" "check_wf (Unknown i s n r e src)" "check_wf (Skipped i s n r src)"
  by (simp_all add: check_wf_def)

lemma check_wf_update [simp, check_intros]:
  "check_wf (c\<lparr>chk_evidence := e\<rparr>) = check_wf c" "check_wf (c\<lparr>chk_reason := r\<rparr>) = check_wf c"
  by (simp_all add: check_wf_def)

lemma known_failure_constructors [simp, check_simps]:
  "known_failure (Known i s n p r src) = (\<not> p)" "\<not> known_failure (Unknown i s n r e src)"
  "\<not> known_failure (Skipped i s n r src)"
  by (simp_all add: known_failure_def)

lemma known_failure_update [simp, check_simps]:
  "known_failure (c\<lparr>chk_evidence := e\<rparr>) = known_failure c"
  "known_failure (c\<lparr>chk_reason := r\<rparr>) = known_failure c"
  by (simp_all add: known_failure_def)

lemma check_wf_known_failure: "check_wf c \<Longrightarrow> known_failure c \<longleftrightarrow> chk_determinate c \<and> \<not> chk_passed c"
  by (auto simp: check_wf_def known_failure_def)

section \<open>The contract of a stage\<close>

text \<open>
  A stage evaluator is a function from its input to a list of checks. The contract that the
  report and the presentation rely on: every check is well formed and carries one of the
  stage's labels. \<open>check_emitter\<close> is that interface; each stage interprets it on its own
  evaluation function.
\<close>

locale check_emitter =
  fixes emit :: "'a \<Rightarrow> check list"
    and stages :: "string set"
  assumes emit_wf: "c \<in> set (emit x) \<Longrightarrow> check_wf c"
    and emit_stage: "c \<in> set (emit x) \<Longrightarrow> chk_stage c \<in> stages"
begin

lemma emit_all_wf: "\<forall>c \<in> set (emit x). check_wf c"
  using emit_wf by blast

lemma emit_failure_iff: "c \<in> set (emit x) \<Longrightarrow> known_failure c \<longleftrightarrow> chk_determinate c \<and> \<not> chk_passed c"
  by (rule check_wf_known_failure) (rule emit_wf)

lemma emit_other_stage: "s \<notin> stages \<Longrightarrow> filter (\<lambda>c. chk_stage c = s) (emit x) = []"
  using emit_stage by (fastforce simp: filter_empty_conv)

lemma emit_no_failure_elsewhere:
  "s \<notin> stages \<Longrightarrow> find (\<lambda>c. chk_stage c = s \<and> known_failure c) (emit x) = None"
  using emit_stage by (auto simp: find_None_iff)

end

end
