(* ===== verification/Texts.thy ===== *)
theory Texts
  imports Go_Strings
begin

text \<open>
  The literals of \<open>internal/agent\<close> that hold characters outside ASCII, byte by byte, each named after
  what it says. Proofs never look into them.
\<close>

text \<open>Enqueue checks not executed.\<close>

definition zh_enqueue_skipped :: string where
  "zh_enqueue_skipped = utf8 [230, 156, 170, 230, 137, 167, 232, 161, 140, 229, 133, 165, 233, 152, 159, 230,
       163, 128, 230, 159, 165]"

text \<open>The PodGroup has definite enqueue evidence; a question mark means a vote cannot be traced back.\<close>

definition zh_enqueue_evidence :: string where
  "zh_enqueue_evidence = ''PodGroup ''
     @ utf8 [229, 183, 178, 230, 156, 137, 231, 161, 174, 229, 174, 154, 229, 133, 165, 233,
       152, 159, 232, 175, 129, 230, 141, 174, 239, 188, 155, 233, 151, 174, 229, 143,
       183, 232, 161, 168, 231, 164, 186, 230, 151, 160, 230, 179, 149, 233, 128, 144,
       233, 161, 185, 229, 155, 158, 230, 186, 175, 230, 143, 146, 228, 187, 182, 230,
       138, 149, 231, 165, 168, 239, 188, 140, 228, 184, 141, 230, 148, 185, 229, 143,
       152, 232, 175, 165, 233, 152, 182, 230, 174, 181, 229, 183, 178, 231, 187, 143,
       233, 128, 154, 232, 191, 135, 231, 154, 132, 228, 186, 139, 229, 174, 158]"

text \<open>JobValid not executed.\<close>

definition zh_job_valid_skipped :: string where
  "zh_job_valid_skipped = utf8 [230, 156, 170, 230, 137, 167, 232, 161, 140]
     @ '' JobValid''"

text \<open>Node allocation checks not executed.\<close>

definition zh_allocate_skipped :: string where
  "zh_allocate_skipped = utf8 [230, 156, 170, 230, 137, 167, 232, 161, 140, 232, 138, 130, 231, 130, 185, 229,
       136, 134, 233, 133, 141, 230, 163, 128, 230, 159, 165]"

text \<open>ConfigMap read but not proven active; what follows is a local projection.\<close>

definition zh_not_proven_active :: string where
  "zh_not_proven_active = ''ConfigMap ''
     @ utf8 [229, 183, 178, 232, 175, 187, 229, 143, 150, 239, 188, 140, 228, 189, 134, 229,
       176, 154, 230, 156, 170, 228, 187, 142]
     @ '' scheduler ''
     @ utf8 [230, 151, 165, 229, 191, 151, 231, 161, 174, 232, 174, 164, 232, 175, 165, 231,
       137, 136, 230, 156, 172, 229, 183, 178, 229, 138, 160, 232, 189, 189, 229, 136,
       176, 229, 189, 147, 229, 137, 141]
     @ '' Session (not proven active)''
     @ utf8 [239, 188, 155, 228, 187, 165, 228, 184, 139, 228, 187, 133, 230, 152, 175, 230,
       156, 172, 229, 156, 176, 232, 167, 132, 229, 136, 153, 230, 138, 149, 229, 189,
       177]"

text \<open>The registration source of the branch is not indexed.\<close>

definition zh_not_indexed :: string where
  "zh_not_indexed = utf8 [230, 137, 128, 233, 128, 137, 229, 136, 134, 230, 148, 175, 231, 154, 132, 230,
       143, 146, 228, 187, 182, 230, 179, 168, 229, 134, 140, 230, 186, 144, 231, 160,
       129, 230, 156, 170, 229, 174, 140, 230, 136, 144, 231, 180, 162, 229, 188, 149]"

text \<open>Predicates configured, but no registration matched in the branch.\<close>

definition zh_no_registration :: string where
  "zh_no_registration = ''ConfigMap ''
     @ utf8 [233, 133, 141, 231, 189, 174, 228, 186, 134]
     @ '' predicates''
     @ utf8 [239, 188, 140, 228, 189, 134, 230, 137, 128, 233, 128, 137, 229, 136, 134, 230,
       148, 175, 230, 186, 144, 231, 160, 129, 230, 178, 161, 230, 156, 137, 229, 140,
       185, 233, 133, 141, 229, 136, 176]
     @ '' Predicate ''
     @ utf8 [230, 179, 168, 229, 134, 140, 239, 188, 155, 229, 136, 134, 230, 148, 175, 229,
       143, 175, 232, 131, 189, 228, 184, 142]
     @ '' scheduler ''
     @ utf8 [233, 149, 156, 229, 131, 143, 228, 184, 141, 228, 184, 128, 232, 135, 180]"

text \<open>Full-width semicolon.\<close>

definition zh_semicolon :: string where
  "zh_semicolon = utf8 [239, 188, 155]"

text \<open>Full-width colon.\<close>

definition zh_colon :: string where
  "zh_colon = utf8 [239, 188, 154]"

text \<open>Dash between a name and a reason.\<close>

definition zh_dash :: string where
  "zh_dash = '' ''
     @ utf8 [226, 128, 148]
     @ '' ''"

text \<open>No definite failure, still.\<close>

definition zh_open_left :: string where
  "zh_open_left = utf8 [230, 178, 161, 230, 156, 137, 231, 161, 174, 229, 174, 154, 229, 164, 177, 232,
       180, 165, 239, 188, 140, 228, 187, 141, 230, 156, 137]
     @ '' ''"

text \<open>Items need runtime or source evidence.\<close>

definition zh_open_right :: string where
  "zh_open_right = '' ''
     @ utf8 [233, 161, 185, 233, 156, 128, 232, 166, 129, 232, 191, 144, 232, 161, 140, 230,
       151, 182, 230, 136, 150, 230, 186, 144, 231, 160, 129, 232, 175, 129, 230, 141,
       174]"

text \<open>All executed checks passed.\<close>

definition zh_stage_passed :: string where
  "zh_stage_passed = utf8 [230, 137, 128, 230, 156, 137, 229, 183, 178, 230, 137, 167, 232, 161, 140, 230,
       163, 128, 230, 159, 165, 229, 157, 135, 233, 128, 154, 232, 191, 135]"

text \<open>Not enough evidence to go on.\<close>

definition zh_preflight_open :: string where
  "zh_preflight_open = utf8 [229, 137, 141, 231, 189, 174, 232, 175, 129, 230, 141, 174, 228, 184, 141, 232,
       182, 179, 239, 188, 140, 230, 151, 160, 230, 179, 149, 231, 187, 167, 231, 187,
       173, 232, 176, 131, 229, 186, 166, 229, 136, 134, 230, 158, 144, 239, 188, 154]"

text \<open>Retry to read the informer cache again.\<close>

definition zh_retry_informer :: string where
  "zh_retry_informer = utf8 [233, 135, 141, 232, 175, 149, 229, 136, 134, 230, 158, 144, 228, 187, 165, 233,
       135, 141, 230, 150, 176, 232, 175, 187, 229, 143, 150]
     @ '' Kubernetes informer ''
     @ utf8 [231, 188, 147, 229, 173, 152]"

text \<open>Check the API connection and the informer sync.\<close>

definition zh_check_informer :: string where
  "zh_check_informer = utf8 [230, 163, 128, 230, 159, 165]
     @ '' Kubernetes API ''
     @ utf8 [232, 191, 158, 233, 128, 154, 230, 128, 167, 228, 187, 165, 229, 143, 138]
     @ '' informer ''
     @ utf8 [230, 152, 175, 229, 144, 166, 229, 174, 140, 230, 136, 144, 229, 144, 140, 230,
       173, 165]"

text \<open>Handle.\<close>

definition zh_handle :: string where
  "zh_handle = utf8 [229, 164, 132, 231, 144, 134]
     @ '' ''"

text \<open>(affects.\<close>

definition zh_affects_left :: string where
  "zh_affects_left = utf8 [239, 188, 136, 229, 189, 177, 229, 147, 141]
     @ '' ''"

text \<open>Nodes).\<close>

definition zh_affects_right :: string where
  "zh_affects_right = '' ''
     @ utf8 [228, 184, 170, 232, 138, 130, 231, 130, 185, 239, 188, 137]"

text \<open>Confirm the red crosses of the node table.\<close>

definition zh_confirm_rows :: string where
  "zh_confirm_rows = utf8 [230, 140, 137, 232, 138, 130, 231, 130, 185, 232, 161, 168, 228, 184, 173, 231,
       154, 132, 231, 186, 162, 232, 137, 178, 229, 143, 137, 229, 143, 183, 233, 128,
       144, 232, 161, 140, 231, 161, 174, 232, 174, 164, 229, 143, 175, 228, 191, 174,
       229, 164, 141, 230, 157, 161, 228, 187, 182]"

text \<open>All nodes are filtered for certain, for different reasons.\<close>

definition zh_all_nodes_failed :: string where
  "zh_all_nodes_failed = utf8 [230, 137, 128, 230, 156, 137, 229, 128, 153, 233, 128, 137, 232, 138, 130, 231,
       130, 185, 233, 131, 189, 232, 162, 171, 231, 161, 174, 229, 174, 154, 232, 191,
       135, 230, 187, 164, 239, 188, 140, 228, 189, 134, 229, 144, 132, 232, 138, 130,
       231, 130, 185, 231, 154, 132, 233, 166, 150, 232, 166, 129, 229, 164, 177, 232,
       180, 165, 233, 161, 185, 228, 184, 141, 229, 144, 140]"

text \<open>Not enough evidence for one root cause.\<close>

definition zh_cause_open :: string where
  "zh_cause_open = utf8 [231, 142, 176, 230, 156, 137, 232, 167, 132, 229, 136, 153, 229, 146, 140, 232,
       191, 144, 232, 161, 140, 230, 151, 182, 232, 175, 129, 230, 141, 174, 228, 184,
       141, 232, 182, 179, 228, 187, 165, 229, 148, 175, 228, 184, 128, 231, 161, 174,
       229, 174, 154]
     @ '' Pending ''
     @ utf8 [230, 160, 185, 229, 155, 160]"

text \<open>See the question marks and their evidence.\<close>

definition zh_see_question_marks :: string where
  "zh_see_question_marks = utf8 [230, 159, 165, 231, 156, 139, 233, 161, 181, 233, 157, 162, 228, 184, 173, 231,
       154, 132, 231, 129, 176, 232, 137, 178, 233, 151, 174, 229, 143, 183, 229, 143,
       138, 229, 133, 182, 232, 175, 129, 230, 141, 174, 232, 175, 180, 230, 152, 142]"

text \<open>Go on with branch source and scheduler log.\<close>

definition zh_continue_source :: string where
  "zh_continue_source = utf8 [231, 187, 147, 229, 144, 136, 230, 137, 128, 233, 128, 137, 229, 136, 134, 230,
       148, 175, 230, 186, 144, 231, 160, 129, 229, 146, 140]
     @ '' scheduler ''
     @ utf8 [230, 151, 165, 229, 191, 151, 231, 187, 167, 231, 187, 173, 229, 136, 134, 230,
       158, 144, 230, 143, 146, 228, 187, 182, 231, 167, 129, 230, 156, 137, 231, 138,
       182, 230, 128, 129]"

text \<open>The common rules found no definite failure.\<close>

definition zh_no_failure_found :: string where
  "zh_no_failure_found = utf8 [229, 184, 184, 232, 167, 129]
     @ '' enqueue''
     @ utf8 [227, 128, 129]
     @ ''JobValid ''
     @ utf8 [229, 146, 140, 232, 138, 130, 231, 130, 185, 232, 191, 135, 230, 187, 164, 232,
       167, 132, 229, 136, 153, 230, 156, 170, 229, 143, 145, 231, 142, 176, 231, 161,
       174, 229, 174, 154, 229, 164, 177, 232, 180, 165]"

text \<open>Check ordering, fairness, preemption and binding.\<close>

definition zh_check_fairness :: string where
  "zh_check_fairness = utf8 [231, 187, 167, 231, 187, 173, 230, 163, 128, 230, 159, 165, 233, 152, 159, 229,
       136, 151, 230, 142, 146, 229, 186, 143, 227, 128, 129, 229, 133, 172, 229, 185,
       179, 230, 128, 167, 227, 128, 129, 230, 138, 162, 229, 141, 160, 229, 143, 138,
       231, 187, 145, 229, 174, 154, 233, 152, 182, 230, 174, 181, 231, 154, 132, 231,
       158, 172, 230, 151, 182, 231, 138, 182, 230, 128, 129]"

text \<open>Compare the branch source with the scheduler log.\<close>

definition zh_compare_source :: string where
  "zh_compare_source = utf8 [229, 175, 185, 231, 133, 167, 230, 137, 128, 233, 128, 137, 229, 136, 134, 230,
       148, 175, 230, 186, 144, 231, 160, 129, 228, 184, 142]
     @ '' scheduler ''
     @ utf8 [230, 151, 165, 229, 191, 151, 231, 161, 174, 232, 174, 164, 229, 174, 158, 233,
       153, 133, 230, 137, 167, 232, 161, 140, 232, 183, 175, 229, 190, 132]"

text \<open>The Pod does not exist or is deleted.\<close>

definition zh_pod_missing :: string where
  "zh_pod_missing = utf8 [231, 155, 174, 230, 160, 135]
     @ '' Pod ''
     @ utf8 [228, 184, 141, 229, 173, 152, 229, 156, 168, 230, 136, 150, 229, 183, 178, 231,
       187, 143, 232, 162, 171, 229, 136, 160, 233, 153, 164]"

text \<open>Refresh the list of Pods.\<close>

definition zh_refresh_list :: string where
  "zh_refresh_list = utf8 [229, 136, 183, 230, 150, 176]
     @ '' Pending Pod ''
     @ utf8 [229, 136, 151, 232, 161, 168, 229, 144, 142, 233, 135, 141, 230, 150, 176, 233,
       128, 137, 230, 139, 169, 231, 155, 174, 230, 160, 135]"

text \<open>The Pod is not an unbound Pending Pod.\<close>

definition zh_not_pending :: string where
  "zh_not_pending = utf8 [231, 155, 174, 230, 160, 135]
     @ '' Pod ''
     @ utf8 [228, 184, 141, 229, 177, 158, 228, 186, 142, 230, 156, 170, 231, 187, 145, 229,
       174, 154, 231, 154, 132]
     @ '' Pending ''
     @ utf8 [232, 176, 131, 229, 186, 166, 233, 151, 174, 233, 162, 152]"

text \<open>If bound, look at the kubelet, runtime, image, volumes.\<close>

definition zh_if_bound :: string where
  "zh_if_bound = utf8 [232, 139, 165]
     @ '' Pod ''
     @ utf8 [229, 183, 178, 231, 187, 145, 229, 174, 154, 232, 138, 130, 231, 130, 185, 239,
       188, 140, 232, 175, 183, 232, 189, 172, 230, 159, 165]
     @ '' kubelet''
     @ utf8 [227, 128, 129, 229, 174, 185, 229, 153, 168, 232, 191, 144, 232, 161, 140, 230,
       151, 182, 227, 128, 129, 233, 149, 156, 229, 131, 143, 230, 136, 150, 229, 141,
       183, 230, 140, 130, 232, 189, 189]"

text \<open>No Volcano scheduler instance handles the Pod.\<close>

definition zh_no_scheduler :: string where
  "zh_no_scheduler = utf8 [231, 155, 174, 230, 160, 135]
     @ '' Pod ''
     @ utf8 [230, 178, 161, 230, 156, 137, 229, 143, 175, 231, 148, 168, 231, 154, 132]
     @ '' Volcano scheduler ''
     @ utf8 [229, 174, 158, 228, 190, 139, 229, 164, 132, 231, 144, 134]"

text \<open>Compare schedulerName with the scheduler arguments.\<close>

definition zh_check_scheduler_name :: string where
  "zh_check_scheduler_name = utf8 [230, 160, 184, 229, 175, 185]
     @ '' Pod spec.schedulerName ''
     @ utf8 [228, 184, 142]
     @ '' vc-scheduler ''
     @ utf8 [229, 144, 175, 229, 138, 168, 229, 143, 130, 230, 149, 176]"

text \<open>Make the scheduler Pod Ready again.\<close>

definition zh_restore_scheduler :: string where
  "zh_restore_scheduler = utf8 [230, 129, 162, 229, 164, 141]
     @ '' Volcano scheduler Pod Ready ''
     @ utf8 [231, 138, 182, 230, 128, 129]"

text \<open>The Pod has a scheduling gate.\<close>

definition zh_has_gate :: string where
  "zh_has_gate = ''Pod ''
     @ utf8 [228, 187, 141, 229, 184, 166, 230, 156, 137]
     @ '' Kubernetes scheduling gate''"

text \<open>Let the controller remove the gate first.\<close>

definition zh_remove_gate :: string where
  "zh_remove_gate = utf8 [231, 148, 177, 232, 180, 159, 232, 180, 163, 232, 175, 165]
     @ '' gate ''
     @ utf8 [231, 154, 132, 230, 142, 167, 229, 136, 182, 229, 153, 168, 231, 167, 187, 233,
       153, 164]
     @ '' gate ''
     @ utf8 [229, 144, 142, 229, 134, 141, 229, 136, 134, 230, 158, 144]
     @ '' Volcano ''
     @ utf8 [232, 176, 131, 229, 186, 166]"

text \<open>No valid PodGroup association.\<close>

definition zh_no_podgroup :: string where
  "zh_no_podgroup = ''Pod ''
     @ utf8 [231, 188, 186, 229, 176, 145, 230, 156, 137, 230, 149, 136, 231, 154, 132]
     @ '' PodGroup ''
     @ utf8 [229, 133, 179, 232, 129, 148]"

text \<open>Check the group-name annotation.\<close>

definition zh_check_group_name :: string where
  "zh_check_group_name = utf8 [230, 163, 128, 230, 159, 165]
     @ '' scheduling.k8s.io/group-name''"

text \<open>Make sure the PodGroup exists under that name.\<close>

definition zh_create_podgroup :: string where
  "zh_create_podgroup = utf8 [231, 161, 174, 232, 174, 164, 229, 144, 140, 229, 145, 189, 229, 144, 141, 231,
       169, 186, 233, 151, 180]
     @ '' PodGroup ''
     @ utf8 [229, 183, 178, 229, 136, 155, 229, 187, 186, 228, 184, 148, 229, 144, 141, 231,
       167, 176, 228, 184, 128, 232, 135, 180]"

text \<open>The queue does not exist.\<close>

definition zh_queue_missing :: string where
  "zh_queue_missing = ''PodGroup ''
     @ utf8 [230, 137, 128, 229, 177, 158, 233, 152, 159, 229, 136, 151, 228, 184, 141, 229,
       173, 152, 229, 156, 168]"

text \<open>Create or fix the queue.\<close>

definition zh_create_queue :: string where
  "zh_create_queue = utf8 [229, 136, 155, 229, 187, 186, 230, 136, 150, 228, 191, 174, 230, 173, 163, 233,
       152, 159, 229, 136, 151]
     @ '' ''"

text \<open>Check the default queue argument.\<close>

definition zh_check_default_queue :: string where
  "zh_check_default_queue = utf8 [231, 161, 174, 232, 174, 164]
     @ '' scheduler ''
     @ utf8 [231, 154, 132, 233, 187, 152, 232, 174, 164, 233, 152, 159, 229, 136, 151, 229,
       143, 130, 230, 149, 176]"

text \<open>The queue has not enough resources.\<close>

definition zh_queue_full :: string where
  "zh_queue_full = utf8 [233, 152, 159, 229, 136, 151, 229, 189, 147, 229, 137, 141, 230, 178, 161, 230,
       156, 137, 232, 182, 179, 229, 164, 159, 231, 154, 132, 229, 143, 175, 229, 133,
       165, 233, 152, 159, 232, 181, 132, 230, 186, 144]"

text \<open>Release resources of the queue.\<close>

definition zh_release_queue :: string where
  "zh_release_queue = utf8 [233, 135, 138, 230, 148, 190, 232, 175, 165, 233, 152, 159, 229, 136, 151, 228,
       184, 173, 229, 183, 178, 229, 136, 134, 233, 133, 141, 230, 136, 150, 229, 183,
       178, 229, 133, 165, 233, 152, 159, 231, 154, 132, 232, 181, 132, 230, 186, 144]"

text \<open>Wait, or change capability or guarantee.\<close>

definition zh_wait_queue :: string where
  "zh_wait_queue = utf8 [231, 173, 137, 229, 190, 133, 232, 191, 144, 232, 161, 140, 228, 184, 173, 231,
       154, 132]
     @ '' PodGroup ''
     @ utf8 [229, 174, 140, 230, 136, 144, 239, 188, 140, 230, 136, 150, 232, 176, 131, 230,
       149, 180]
     @ '' Queue capability/guarantee''"

text \<open>The enqueue stage or a plugin rejected the PodGroup.\<close>

definition zh_enqueue_rejected :: string where
  "zh_enqueue_rejected = ''Volcano ''
     @ utf8 [229, 133, 165, 233, 152, 159, 233, 152, 182, 230, 174, 181, 230, 136, 150]
     @ '' JobEnqueueable ''
     @ utf8 [230, 143, 146, 228, 187, 182, 230, 139, 146, 231, 187, 157, 228, 186, 134]
     @ '' PodGroup''
     @ utf8 [239, 188, 154]"

text \<open>Find the plugin from the reason.\<close>

definition zh_find_plugin :: string where
  "zh_find_plugin = utf8 [230, 160, 185, 230, 141, 174, 230, 139, 146, 231, 187, 157, 229, 142, 159, 229,
       155, 160, 229, 174, 154, 228, 189, 141, 229, 175, 185, 229, 186, 148, 231, 154,
       132]
     @ '' JobEnqueueable ''
     @ utf8 [230, 143, 146, 228, 187, 182, 229, 146, 140, 233, 133, 141, 231, 189, 174]"

text \<open>Confirm the private state of the plugin.\<close>

definition zh_confirm_plugin :: string where
  "zh_confirm_plugin = utf8 [231, 187, 147, 229, 144, 136]
     @ '' scheduler ''
     @ utf8 [230, 151, 165, 229, 191, 151, 228, 184, 142, 230, 137, 128, 233, 128, 137, 229,
       136, 134, 230, 148, 175, 230, 186, 144, 231, 160, 129, 231, 161, 174, 232, 174,
       164, 230, 143, 146, 228, 187, 182, 231, 167, 129, 230, 156, 137, 231, 138, 182,
       230, 128, 129]"

text \<open>No node has enough resources.\<close>

definition zh_no_node_resources :: string where
  "zh_no_node_resources = utf8 [230, 178, 161, 230, 156, 137, 232, 138, 130, 231, 130, 185, 229, 133, 183, 229,
       164, 135, 232, 182, 179, 229, 164, 159, 231, 154, 132]
     @ '' Volcano ''
     @ utf8 [229, 143, 175, 231, 148, 168, 232, 181, 132, 230, 186, 144]"

text \<open>Release node resources or scale out.\<close>

definition zh_release_nodes :: string where
  "zh_release_nodes = utf8 [233, 135, 138, 230, 148, 190, 232, 138, 130, 231, 130, 185, 232, 181, 132, 230,
       186, 144, 230, 136, 150, 230, 137, 169, 229, 174, 185, 233, 155, 134, 231, 190,
       164]"

text \<open>Lower the request or wait.\<close>

definition zh_lower_request :: string where
  "zh_lower_request = utf8 [233, 153, 141, 228, 189, 142]
     @ '' Pod ''
     @ utf8 [232, 175, 183, 230, 177, 130, 239, 188, 140, 230, 136, 150, 231, 173, 137, 229,
       190, 133]
     @ '' releasing ''
     @ utf8 [232, 181, 132, 230, 186, 144, 231, 156, 159, 230, 173, 163, 229, 155, 158, 230,
       148, 182]"

text \<open>All nodes have a taint that is not tolerated.\<close>

definition zh_all_tainted :: string where
  "zh_all_tainted = utf8 [230, 137, 128, 230, 156, 137, 229, 128, 153, 233, 128, 137, 232, 138, 130, 231,
       130, 185, 233, 131, 189, 229, 173, 152, 229, 156, 168]
     @ '' Pod ''
     @ utf8 [230, 156, 170, 229, 174, 185, 229, 191, 141, 231, 154, 132, 230, 177, 161, 231,
       130, 185]"

text \<open>Add a toleration.\<close>

definition zh_add_toleration :: string where
  "zh_add_toleration = utf8 [228, 184, 186]
     @ '' Pod ''
     @ utf8 [229, 162, 158, 229, 138, 160, 230, 173, 163, 231, 161, 174, 231, 154, 132]
     @ '' toleration''"

text \<open>Remove taints only by policy.\<close>

definition zh_remove_taint :: string where
  "zh_remove_taint = utf8 [228, 187, 133, 229, 156, 168, 231, 172, 166, 229, 144, 136, 232, 191, 144, 231,
       187, 180, 231, 173, 150, 231, 149, 165, 230, 151, 182, 231, 167, 187, 233, 153,
       164, 232, 138, 130, 231, 130, 185, 230, 177, 161, 231, 130, 185]"

text \<open>Selector or affinity excludes all nodes.\<close>

definition zh_affinity_excludes :: string where
  "zh_affinity_excludes = ''Pod ''
     @ utf8 [231, 154, 132, 232, 138, 130, 231, 130, 185, 233, 128, 137, 230, 139, 169, 230,
       136, 150, 229, 191, 133, 233, 156, 128, 228, 186, 178, 229, 146, 140, 230, 128,
       167, 230, 142, 146, 233, 153, 164, 228, 186, 134, 230, 137, 128, 230, 156, 137,
       229, 128, 153, 233, 128, 137, 232, 138, 130, 231, 130, 185]"

text \<open>Fix selector or affinity.\<close>

definition zh_fix_affinity :: string where
  "zh_fix_affinity = utf8 [228, 191, 174, 230, 173, 163]
     @ '' nodeSelector/required nodeAffinity''"

text \<open>Label the nodes.\<close>

definition zh_add_labels :: string where
  "zh_add_labels = utf8 [228, 184, 186, 231, 172, 166, 229, 144, 136, 230, 157, 161, 228, 187, 182, 231,
       154, 132, 232, 138, 130, 231, 130, 185, 232, 161, 165, 229, 133, 133, 230, 173,
       163, 231, 161, 174, 230, 160, 135, 231, 173, 190]"

text \<open>Did not pass.\<close>

definition zh_not_passed :: string where
  "zh_not_passed = '' ''
     @ utf8 [230, 156, 170, 233, 128, 154, 232, 191, 135, 239, 188, 154]"

text \<open>Fix this first, then run again.\<close>

definition zh_fix_first :: string where
  "zh_fix_first = utf8 [229, 133, 136, 229, 164, 132, 231, 144, 134, 232, 175, 165, 231, 161, 174, 229,
       174, 154, 229, 164, 177, 232, 180, 165, 233, 161, 185, 239, 188, 140, 229, 134,
       141, 233, 135, 141, 230, 150, 176, 232, 191, 144, 232, 161, 140, 229, 136, 134,
       230, 158, 144]"

text \<open>Enqueue failed for certain.\<close>

definition zh_enqueue_failed :: string where
  "zh_enqueue_failed = ''enqueue ''
     @ utf8 [230, 152, 142, 231, 161, 174, 229, 164, 177, 232, 180, 165, 239, 188, 154]"

text \<open>JobValid failed for certain.\<close>

definition zh_job_valid_failed :: string where
  "zh_job_valid_failed = ''JobValid ''
     @ utf8 [230, 152, 142, 231, 161, 174, 229, 164, 177, 232, 180, 165, 239, 188, 154]"

text \<open>Preflight cannot be completed.\<close>

definition zh_preflight_incomplete :: string where
  "zh_preflight_incomplete = ''preflight ''
     @ utf8 [230, 151, 160, 230, 179, 149, 229, 174, 140, 230, 136, 144]"

text \<open>Preflight failed for certain.\<close>

definition zh_preflight_failed :: string where
  "zh_preflight_failed = ''preflight ''
     @ utf8 [230, 152, 142, 231, 161, 174, 229, 164, 177, 232, 180, 165]"

text \<open>Analysis given by the LLM.\<close>

definition zh_llm_cause :: string where
  "zh_llm_cause = ''LLM ''
     @ utf8 [229, 159, 186, 228, 186, 142, 230, 137, 128, 233, 128, 137, 229, 136, 134, 230,
       148, 175, 230, 186, 144, 231, 160, 129, 229, 146, 140, 232, 191, 144, 232, 161,
       140, 230, 151, 182, 232, 175, 129, 230, 141, 174, 231, 187, 153, 229, 135, 186,
       231, 154, 132, 229, 136, 134, 230, 158, 144, 239, 188, 154]"

text \<open>Review before changing the cluster.\<close>

definition zh_llm_review :: string where
  "zh_llm_review = utf8 [230, 140, 137, 228, 184, 138, 232, 191, 176, 229, 135, 189, 230, 149, 176, 232,
       183, 175, 229, 190, 132, 229, 146, 140]
     @ '' scheduler ''
     @ utf8 [230, 151, 165, 229, 191, 151, 232, 175, 129, 230, 141, 174, 229, 164, 141, 230,
       160, 184, 229, 144, 142, 229, 134, 141, 228, 191, 174, 230, 148, 185, 233, 155,
       134, 231, 190, 164, 233, 133, 141, 231, 189, 174]"

text \<open>No root cause within the LLM limits.\<close>

definition zh_llm_no_cause :: string where
  "zh_llm_no_cause = utf8 [232, 135, 170, 229, 138, 168, 229, 136, 134, 230, 158, 144, 230, 156, 170, 232,
       131, 189, 229, 156, 168, 233, 133, 141, 231, 189, 174, 231, 154, 132]
     @ '' LLM ''
     @ utf8 [229, 190, 170, 231, 142, 175, 230, 136, 150, 230, 151, 182, 233, 151, 180, 233,
       153, 144, 229, 136, 182, 229, 134, 133, 231, 161, 174, 229, 174, 154, 230, 160,
       185, 229, 155, 160]"

text \<open>Go on by hand.\<close>

definition zh_llm_manual :: string where
  "zh_llm_manual = utf8 [230, 160, 185, 230, 141, 174, 233, 161, 181, 233, 157, 162, 228, 184, 173, 231,
       154, 132]
     @ '' scheduler ''
     @ utf8 [230, 151, 165, 229, 191, 151, 229, 146, 140, 230, 137, 128, 233, 128, 137, 229,
       136, 134, 230, 148, 175, 230, 186, 144, 231, 160, 129, 231, 187, 167, 231, 187,
       173, 228, 186, 186, 229, 183, 165, 229, 136, 134, 230, 158, 144]"

end
