(* ===== verification/Presentation_Checks.thy ===== *)
theory Presentation_Checks
  imports Model Texts
begin

text \<open>
  The list operations of \<open>internal/agent/presentation.go\<close>: selecting, removing, replacing and merging
  checks, and the outcome of a stage, of a node and of the node table. The facts: the outcome of a
  stage is a function of three predicates over its checks; replacing and merging behave as the
  update of a map keyed by the check id; on well-formed checks the node outcome does not depend on
  the skipped ones.
\<close>

section \<open>Lists of checks\<close>

definition checksForStage :: "check list \<Rightarrow> string \<Rightarrow> check list" where
  "checksForStage checks stage = filter (\<lambda>check. chk_stage check = stage) checks"

text \<open>\<open>None\<close> is the second result \<open>false\<close>.\<close>

definition knownStageFailure :: "check list \<Rightarrow> string \<Rightarrow> check option" where
  "knownStageFailure checks stage =
     find (\<lambda>check. chk_stage check = stage \<and> chk_determinate check \<and> \<not> chk_passed check
        \<and> \<not> chk_skipped check) checks"

definition skippedChecks :: "check list \<Rightarrow> string \<Rightarrow> string \<Rightarrow> check list" where
  "skippedChecks checks stage reason =
     map (\<lambda>check. Skipped (chk_id check) stage (chk_name check) reason (chk_source check)) checks"

definition removeCheck :: "check list \<Rightarrow> string \<Rightarrow> check list" where
  "removeCheck checks cid = filter (\<lambda>check. chk_id check \<noteq> cid) checks"

text \<open>The loop of \<open>replaceCheck\<close> carries the flag \<open>replaced\<close>; the append after it is its last case.\<close>

fun replace_loop :: "bool \<Rightarrow> check list \<Rightarrow> string \<Rightarrow> check \<Rightarrow> check list" where
  "replace_loop replaced [] cid replacement = (if replaced then [] else [replacement])"
| "replace_loop replaced (check # checks) cid replacement =
     (if chk_id check = cid
      then (if replaced then replace_loop replaced checks cid replacement
            else replacement # replace_loop True checks cid replacement)
      else check # replace_loop replaced checks cid replacement)"

definition replaceCheck :: "check list \<Rightarrow> string \<Rightarrow> check \<Rightarrow> check list" where
  "replaceCheck checks cid replacement = replace_loop False checks cid replacement"

definition removeCheckPrefix :: "check list \<Rightarrow> string \<Rightarrow> check list" where
  "removeCheckPrefix checks p = filter (\<lambda>check. \<not> has_prefix (chk_id check) p) checks"

definition hasCheck :: "check list \<Rightarrow> string \<Rightarrow> bool" where
  "hasCheck checks cid = list_ex (\<lambda>check. chk_id check = cid) checks"

text \<open>\<open>mergeChecks\<close>: the index of the last check of each id, then one addition after the other.\<close>

fun index_checks :: "nat \<Rightarrow> check list \<Rightarrow> nat gomap \<Rightarrow> nat gomap" where
  "index_checks i [] indexes = indexes"
| "index_checks i (check # checks) indexes = index_checks (Suc i) checks (gm_set (chk_id check) i indexes)"

definition merge_step :: "check \<Rightarrow> check list \<times> nat gomap \<Rightarrow> check list \<times> nat gomap" where
  "merge_step check st =
     (let (result, indexes) = st
      in case gm_get indexes (chk_id check) of
           Some index \<Rightarrow> (result[index := check], indexes)
         | None \<Rightarrow> (result @ [check], gm_set (chk_id check) (length result) indexes))"

definition mergeChecks :: "check list \<Rightarrow> check list \<Rightarrow> check list" where
  "mergeChecks existing additions =
     fst (fold merge_step additions (existing, index_checks 0 existing []))"

text \<open>
  The function \<open>identifier\<close> works on runes: the bytes that continue a rune of several bytes add nothing, the
  first one becomes a dash, as every other character outside \<open>a\<close> to \<open>z\<close> and \<open>0\<close> to \<open>9\<close>.
\<close>

definition identifier_char :: "char \<Rightarrow> string" where
  "identifier_char c =
     (let n = (of_char c :: nat)
      in if 97 \<le> n \<and> n \<le> 122 \<or> 48 \<le> n \<and> n \<le> 57 \<or> c = CHR ''-'' then [c]
         else if 128 \<le> n \<and> n < 192 then [] else ''-'')"

definition plugin_identifier :: "string \<Rightarrow> string" where
  "plugin_identifier value = trim_with (\<lambda>c. c = CHR ''-'') (concat (map identifier_char (to_lower value)))"

definition removePluginCheck :: "check list \<Rightarrow> string \<Rightarrow> check list" where
  "removePluginCheck checks plugin =
     (let p = ''plugin.'' @ plugin_identifier plugin @ ''.''
      in filter (\<lambda>check. \<not> has_prefix (chk_id check) p) checks)"

section \<open>Outcomes\<close>

definition state_step :: "check \<Rightarrow> string list \<times> nat \<times> nat \<Rightarrow> string list \<times> nat \<times> nat" where
  "state_step check st =
     (let (failures, unknown, executed) = st
      in if chk_skipped check then (failures, unknown, executed)
         else if \<not> chk_determinate check then (failures, unknown + 1, executed + 1)
         else if \<not> chk_passed check then (failures @ [chk_name check], unknown, executed + 1)
         else (failures, unknown, executed + 1))"

definition stateFromChecks :: "check list \<Rightarrow> stage_state" where
  "stateFromChecks checks =
     (let (failures, unknown, executed) = fold state_step checks ([], 0, 0)
      in if failures \<noteq> [] then
           \<lparr>ss_outcome = OutcomeFail, ss_conclusion = join failures zh_semicolon, ss_skip_reason = ''''\<rparr>
         else if 0 < unknown \<or> executed = 0 then
           \<lparr>ss_outcome = OutcomeUnknown, ss_conclusion = zh_open_left @ fmt_n unknown @ zh_open_right,
            ss_skip_reason = ''''\<rparr>
         else \<lparr>ss_outcome = OutcomePass, ss_conclusion = zh_stage_passed, ss_skip_reason = ''''\<rparr>)"

definition recompute_step :: "check \<Rightarrow> bool \<times> bool \<times> bool \<Rightarrow> bool \<times> bool \<times> bool" where
  "recompute_step check st =
     (let (passed, knownFailure, unknown) = st
      in if chk_skipped check then st
         else (passed \<and> chk_passed check \<and> chk_determinate check,
               knownFailure \<or> chk_determinate check \<and> \<not> chk_passed check,
               unknown \<or> \<not> chk_determinate check))"

definition recomputeNodeOutcome :: "node_result \<Rightarrow> node_result" where
  "recomputeNodeOutcome node =
     (let (passed, knownFailure, unknown) = fold recompute_step (nr_checks node) (True, False, False)
      in node\<lparr>nr_passed := passed, nr_determinate := knownFailure \<or> \<not> unknown\<rparr>)"

definition availability_sources :: "string list" where
  "availability_sources = [''pkg/scheduler/actions/allocate/allocate.go'',
     ''pkg/scheduler/framework/session_plugins.go:PredicateFn'']"

definition nodeAvailabilityCheck :: "node_result list \<Rightarrow> check" where
  "nodeAvailabilityCheck nodes =
     (let passed = length (filter nr_passed nodes);
          unknown = length (filter (\<lambda>node. \<not> nr_passed node \<and> \<not> nr_determinate node) nodes);
          reason = fmt_n passed @ ''/'' @ fmt_n (length nodes) @
            '' nodes passed all active, reproducible filters; '' @ fmt_n unknown @
            '' node results remain unknown''
      in if 0 < passed then Known ''allocate.nodes'' ''allocate''
             ''At least one node passes active filters'' True reason availability_sources
         else if 0 < unknown then Unknown ''allocate.nodes'' ''allocate''
             ''At least one node passes active filters'' reason EvNil availability_sources
         else Known ''allocate.nodes'' ''allocate''
             ''At least one node passes active filters'' False reason availability_sources)"

text \<open>Copies are the values themselves; the maps keep their entries.\<close>

definition clone_pair :: "resource_pair \<Rightarrow> resource_pair" where
  "clone_pair pair =
     \<lparr>rp_free = rp_free pair, rp_total = rp_total pair, rp_used = rp_used pair,
      rp_releasing = rp_releasing pair, rp_insufficient = rp_insufficient pair\<rparr>"

definition cloneNodeResults :: "node_result list \<Rightarrow> node_result list" where
  "cloneNodeResults nodes =
     map (\<lambda>node. node\<lparr>nr_resources :=
       fold (\<lambda>(name, pair) m. gm_set name (clone_pair pair) m) (nr_resources node) []\<rparr>) nodes"


section \<open>The outcome of a stage\<close>

definition check_clear :: "check \<Rightarrow> bool" where
  "check_clear c \<longleftrightarrow> chk_skipped c \<or> chk_determinate c \<and> chk_passed c"

lemma check_clear_constructors [simp, check_simps]:
  "check_clear (Known i s n p r src) = p" "\<not> check_clear (Unknown i s n r e src)"
  "check_clear (Skipped i s n r src)"
  by (simp_all add: check_clear_def)

lemma state_fold:
  "fold state_step checks (fs, u, e) =
     (fs @ map chk_name (filter known_failure checks),
      u + length (filter (\<lambda>c. \<not> chk_skipped c \<and> \<not> chk_determinate c) checks),
      e + length (filter (\<lambda>c. \<not> chk_skipped c) checks))"
  by (induction checks arbitrary: fs u e) (auto simp: state_step_def known_failure_def)

lemma stateFromChecks_eq:
  "stateFromChecks checks =
     (if list_ex known_failure checks then
        \<lparr>ss_outcome = OutcomeFail, ss_conclusion = join (map chk_name (filter known_failure checks)) zh_semicolon,
         ss_skip_reason = ''''\<rparr>
      else if list_all check_clear checks \<and> list_ex (\<lambda>c. \<not> chk_skipped c) checks then
        \<lparr>ss_outcome = OutcomePass, ss_conclusion = zh_stage_passed, ss_skip_reason = ''''\<rparr>
      else \<lparr>ss_outcome = OutcomeUnknown,
        ss_conclusion = zh_open_left @
          fmt_n (length (filter (\<lambda>c. \<not> chk_skipped c \<and> \<not> chk_determinate c) checks)) @ zh_open_right,
        ss_skip_reason = ''''\<rparr>)"
proof -
  have f: "filter P xs = [] \<longleftrightarrow> \<not> list_ex P xs" for P and xs :: "check list"
    by (auto simp: filter_empty_conv list_ex_iff)
  have a: "list_all check_clear checks \<longleftrightarrow> \<not> list_ex (\<lambda>c. \<not> chk_skipped c \<and> \<not> chk_determinate c) checks"
    if "\<not> list_ex known_failure checks"
    using that by (auto simp: list_ex_iff list_all_iff known_failure_def check_clear_def)
  show ?thesis
    unfolding stateFromChecks_def state_fold prod.case Let_def
    using a by (auto simp: f length_greater_0_conv)
qed

lemma stateFromChecks_outcome:
  "ss_outcome (stateFromChecks checks) = OutcomeFail \<longleftrightarrow> list_ex known_failure checks"
  "ss_outcome (stateFromChecks checks) = OutcomePass
     \<longleftrightarrow> list_all check_clear checks \<and> list_ex (\<lambda>c. \<not> chk_skipped c) checks"
  "ss_outcome (stateFromChecks checks) \<noteq> OutcomeSkipped"
  "ss_skip_reason (stateFromChecks checks) = ''''"
proof -
  have "\<not> list_ex known_failure checks" if "list_all check_clear checks"
    using that by (auto simp: list_all_iff list_ex_iff known_failure_def check_clear_def)
  then show "ss_outcome (stateFromChecks checks) = OutcomeFail \<longleftrightarrow> list_ex known_failure checks"
    "ss_outcome (stateFromChecks checks) = OutcomePass
     \<longleftrightarrow> list_all check_clear checks \<and> list_ex (\<lambda>c. \<not> chk_skipped c) checks"
    "ss_outcome (stateFromChecks checks) \<noteq> OutcomeSkipped"
    "ss_skip_reason (stateFromChecks checks) = ''''"
    by (auto simp: stateFromChecks_eq)
qed

section \<open>The outcome of a node\<close>

lemma recompute_fold:
  "fold recompute_step checks (p, k, u) =
     (p \<and> list_all check_clear checks, k \<or> list_ex known_failure checks,
      u \<or> list_ex (\<lambda>c. \<not> chk_skipped c \<and> \<not> chk_determinate c) checks)"
  by (induction checks arbitrary: p k u)
     (auto simp: recompute_step_def check_clear_def known_failure_def)

lemma recomputeNodeOutcome_simps [simp]:
  "nr_passed (recomputeNodeOutcome node) = list_all check_clear (nr_checks node)"
  "nr_determinate (recomputeNodeOutcome node) \<longleftrightarrow> list_ex known_failure (nr_checks node)
     \<or> list_all (\<lambda>c. chk_skipped c \<or> chk_determinate c) (nr_checks node)"
  "nr_checks (recomputeNodeOutcome node) = nr_checks node"
  "nr_name (recomputeNodeOutcome node) = nr_name node"
  "nr_resources (recomputeNodeOutcome node) = nr_resources node"
  by (auto simp: recomputeNodeOutcome_def recompute_fold list_all_iff list_ex_iff)

lemma recompute_passed_determinate:
  "nr_passed (recomputeNodeOutcome node) \<Longrightarrow> nr_determinate (recomputeNodeOutcome node)"
  by (auto simp: list_all_iff check_clear_def)

lemma recompute_failed:
  "nr_determinate (recomputeNodeOutcome node) \<and> \<not> nr_passed (recomputeNodeOutcome node)
     \<longleftrightarrow> list_ex known_failure (nr_checks node)"
  by (auto simp: list_all_iff list_ex_iff check_clear_def known_failure_def)

lemma nodeAvailability_iff:
  "chk_passed (nodeAvailabilityCheck nodes) \<longleftrightarrow> list_ex nr_passed nodes"
  "known_failure (nodeAvailabilityCheck nodes) \<longleftrightarrow> list_all (\<lambda>n. \<not> nr_passed n \<and> nr_determinate n) nodes"
  "check_wf (nodeAvailabilityCheck nodes)"
  "chk_id (nodeAvailabilityCheck nodes) = ''allocate.nodes''"
  "chk_stage (nodeAvailabilityCheck nodes) = ''allocate''"
  "\<not> chk_skipped (nodeAvailabilityCheck nodes)"
proof -
  have f: "0 < length (filter P nodes) \<longleftrightarrow> list_ex P nodes" for P
    by (auto simp: filter_empty_conv list_ex_iff)
  show "chk_passed (nodeAvailabilityCheck nodes) \<longleftrightarrow> list_ex nr_passed nodes"
    "known_failure (nodeAvailabilityCheck nodes) \<longleftrightarrow> list_all (\<lambda>n. \<not> nr_passed n \<and> nr_determinate n) nodes"
    "check_wf (nodeAvailabilityCheck nodes)"
    "chk_id (nodeAvailabilityCheck nodes) = ''allocate.nodes''"
    "chk_stage (nodeAvailabilityCheck nodes) = ''allocate''"
    "\<not> chk_skipped (nodeAvailabilityCheck nodes)"
    unfolding nodeAvailabilityCheck_def Let_def f by (auto simp: list_ex_iff list_all_iff)
qed

lemma gm_set_new: "k \<notin> fst ` set m \<Longrightarrow> gm_set k v m = m @ [(k, v)]"
  by (induction m) (auto simp: gm_set_def)

lemma rebuild_map: "gm_ok (xs @ m) \<Longrightarrow> fold (\<lambda>(k, v) m. gm_set k (f v) m) m xs = xs @ map (\<lambda>(k, v). (k, f v)) m"
proof (induction m arbitrary: xs)
  case (Cons e m)
  obtain k v where e: "e = (k, v)" by force
  with Cons.prems have "k \<notin> fst ` set xs" by (auto simp: gm_ok_def)
  then have "gm_set k (f v) xs = xs @ [(k, f v)]"
    by (rule gm_set_new)
  moreover have "gm_ok ((xs @ [(k, f v)]) @ m)" using Cons.prems by (simp add: e gm_ok_def)
  ultimately show ?case using Cons.IH [of "xs @ [(k, f v)]"] by (simp add: e)
qed simp

lemma cloneNodeResults_id:
  "list_all (\<lambda>n. gm_ok (nr_resources n)) nodes \<Longrightarrow> cloneNodeResults nodes = nodes"
proof -
  have "clone_pair p = p" for p by (simp add: clone_pair_def)
  then show "list_all (\<lambda>n. gm_ok (nr_resources n)) nodes \<Longrightarrow> cloneNodeResults nodes = nodes"
    using rebuild_map [of "[]" _ clone_pair]
    by (auto simp: cloneNodeResults_def list_all_iff intro!: map_idI)
qed


section \<open>Replacing and merging as map updates\<close>

text \<open>A list of checks, read as the map from an id to the last check that carries it.\<close>

definition check_map :: "check list \<Rightarrow> string \<Rightarrow> check option" where
  "check_map checks = foldl (\<lambda>m c. m(chk_id c \<mapsto> c)) (\<lambda>_. None) checks"

lemma check_map_simps [simp]:
  "check_map [] = (\<lambda>_. None)"
  "check_map (cs @ [c]) = (check_map cs)(chk_id c \<mapsto> c)"
  by (simp_all add: check_map_def)

lemma check_map_None: "check_map cs k = None \<longleftrightarrow> k \<notin> chk_id ` set cs"
  by (induction cs rule: rev_induct) auto

lemma check_map_last:
  "j < length cs \<Longrightarrow> chk_id (cs ! j) = k \<Longrightarrow> (\<And>i. j < i \<Longrightarrow> i < length cs \<Longrightarrow> chk_id (cs ! i) \<noteq> k)
    \<Longrightarrow> check_map cs k = Some (cs ! j)"
proof (induction cs rule: rev_induct)
  case (snoc c cs)
  show ?case
  proof (cases "j = length cs")
    case True
    with snoc.prems(2) show ?thesis by simp
  next
    case False
    with snoc.prems(1) have j: "j < length cs" by simp
    have "chk_id c \<noteq> k" using snoc.prems(3) [of "length cs"] j by simp
    moreover have "check_map cs k = Some (cs ! j)"
    proof (rule snoc.IH [OF j])
      show "chk_id (cs ! j) = k" using snoc.prems(2) j by (simp add: nth_append)
      show "chk_id (cs ! i) \<noteq> k" if "j < i" "i < length cs" for i
        using snoc.prems(3) [of i] that by (simp add: nth_append)
    qed
    ultimately show ?thesis using j by (simp add: nth_append)
  qed
qed simp

definition index_ok :: "check list \<Rightarrow> nat gomap \<Rightarrow> bool" where
  "index_ok cs m \<longleftrightarrow> (\<forall>k. case gm_get m k of
       None \<Rightarrow> k \<notin> chk_id ` set cs
     | Some j \<Rightarrow> j < length cs \<and> chk_id (cs ! j) = k \<and> (\<forall>i. j < i \<and> i < length cs \<longrightarrow> chk_id (cs ! i) \<noteq> k))"

lemma index_okD:
  assumes "index_ok cs m"
  shows "gm_get m k = None \<Longrightarrow> k \<notin> chk_id ` set cs"
    and "gm_get m k = Some j \<Longrightarrow> j < length cs"
    and "gm_get m k = Some j \<Longrightarrow> chk_id (cs ! j) = k"
    and "gm_get m k = Some j \<Longrightarrow> j < i \<Longrightarrow> i < length cs \<Longrightarrow> chk_id (cs ! i) \<noteq> k"
  using assms unfolding index_ok_def by (metis (mono_tags, lifting) option.simps(4,5))+

lemma index_ok_snoc:
  assumes "index_ok cs m"
  shows "index_ok (cs @ [c]) (gm_set (chk_id c) (length cs) m)"
  unfolding index_ok_def
proof
  fix k
  show "case gm_get (gm_set (chk_id c) (length cs) m) k of
       None \<Rightarrow> k \<notin> chk_id ` set (cs @ [c])
     | Some j \<Rightarrow> j < length (cs @ [c]) \<and> chk_id ((cs @ [c]) ! j) = k
        \<and> (\<forall>i. j < i \<and> i < length (cs @ [c]) \<longrightarrow> chk_id ((cs @ [c]) ! i) \<noteq> k)"
  proof (cases "k = chk_id c")
    case True
    then show ?thesis by (auto simp: less_Suc_eq)
  next
    case False
    then show ?thesis using index_okD [OF assms, of k]
      by (cases "gm_get m k") (auto simp: nth_append less_Suc_eq)
  qed
qed

lemma index_checks_ok:
  "index_ok cs m \<Longrightarrow> index_ok (cs @ ds) (index_checks (length cs) ds m)"
proof (induction ds arbitrary: cs m)
  case (Cons d ds)
  from Cons.IH [OF index_ok_snoc [OF Cons.prems, of d]] show ?case by simp
qed simp

lemma check_map_index:
  "index_ok cs m \<Longrightarrow> check_map cs k = map_option (nth cs) (gm_get m k)"
  by (cases "gm_get m k") (auto simp: check_map_None intro!: check_map_last dest: index_okD)

lemma index_ok_update:
  assumes ok: "index_ok cs m" and j: "gm_get m (chk_id c) = Some j"
  shows "index_ok (cs[j := c]) m"
proof -
  have same: "chk_id (cs[j := c] ! i) = chk_id (cs ! i)" if "i < length cs" for i
    using index_okD(3) [OF ok j] that by (cases "i = j") simp_all
  then have "map chk_id (cs[j := c]) = map chk_id cs" by (intro nth_equalityI) simp_all
  then have "chk_id ` set (cs[j := c]) = chk_id ` set cs" by (metis set_map)
  note ids = this
  show ?thesis
    unfolding index_ok_def
  proof
    fix k
    show "case gm_get m k of None \<Rightarrow> k \<notin> chk_id ` set (cs[j := c])
      | Some i \<Rightarrow> i < length (cs[j := c]) \<and> chk_id (cs[j := c] ! i) = k
        \<and> (\<forall>l. i < l \<and> l < length (cs[j := c]) \<longrightarrow> chk_id (cs[j := c] ! l) \<noteq> k)"
    proof (cases "gm_get m k")
      case None
      with index_okD(1) [OF ok None] ids show ?thesis by simp
    next
      case (Some i)
      with index_okD(2,3,4) [OF ok Some] same show ?thesis by simp
    qed
  qed
qed

lemma merge_step_map:
  assumes "index_ok cs m"
  shows "index_ok (fst (merge_step c (cs, m))) (snd (merge_step c (cs, m)))
    \<and> check_map (fst (merge_step c (cs, m))) = (check_map cs)(chk_id c \<mapsto> c)"
proof (cases "gm_get m (chk_id c)")
  case None
  with index_ok_snoc [OF assms, of c] show ?thesis by (simp add: merge_step_def)
next
  case (Some j)
  note ok = index_ok_update [OF assms Some]
  have "check_map (cs[j := c]) k = ((check_map cs)(chk_id c \<mapsto> c)) k" for k
  proof (cases "k = chk_id c")
    case True
    then show ?thesis
      using check_map_index [OF ok, of k] Some index_okD(2) [OF assms Some] by simp
  next
    case False
    have "gm_get m k \<noteq> Some j" using index_okD(3) [OF assms, of k] index_okD(3) [OF assms Some] False by auto
    then show ?thesis
      using check_map_index [OF ok, of k] check_map_index [OF assms, of k] False
      by (cases "gm_get m k") auto
  qed
  then show ?thesis using ok Some by (simp add: merge_step_def fun_eq_iff)
qed

lemma mergeChecks_map:
  "check_map (mergeChecks existing additions) = check_map existing ++ check_map additions"
proof -
  have "index_ok [] []" by (simp add: index_ok_def)
  from index_checks_ok [OF this, of existing] have start: "index_ok existing (index_checks 0 existing [])" by simp
  have "index_ok (fst st) (snd st) \<and> check_map (fst st) = check_map existing ++ check_map additions"
    if "st = fold merge_step additions (existing, index_checks 0 existing [])" for st
    using that
  proof (induction additions arbitrary: st rule: rev_induct)
    case Nil
    with start show ?case by simp
  next
    case (snoc c cs)
    let ?st = "fold merge_step cs (existing, index_checks 0 existing [])"
    from snoc.IH [of ?st] merge_step_map [of "fst ?st" "snd ?st" c] snoc.prems show ?case
      by (simp add: map_add_upd [symmetric] del: map_add_upd fun_upd_apply)
  qed
  then show ?thesis by (simp add: mergeChecks_def)
qed

text \<open>Nothing else enters the list, and what is not named in the additions keeps its place.\<close>

lemma merge_step_set: "set (fst (merge_step c st)) \<subseteq> insert c (set (fst st))"
proof -
  obtain cs m where "st = (cs, m)" by force
  then show ?thesis using set_update_subset_insert [of cs _ c]
    by (auto simp: merge_step_def split: option.splits)
qed

lemma mergeChecks_set: "set (mergeChecks existing additions) \<subseteq> set existing \<union> set additions"
proof -
  have "set (fst (fold merge_step additions st)) \<subseteq> set (fst st) \<union> set additions" for st
  proof (induction additions arbitrary: st)
    case (Cons c cs)
    from Cons.IH [of "merge_step c st"] merge_step_set [of c st] show ?case by auto
  qed simp
  from this [of "(existing, index_checks 0 existing [])"] show ?thesis by (simp add: mergeChecks_def)
qed

lemma mergeChecks_Nil [simp]: "mergeChecks existing [] = existing"
  by (simp add: mergeChecks_def)


text \<open>
  The list a merge gives, without an index: \<open>first_new\<close> are the first additions of the ids that do not
  occur yet, and \<open>latest\<close> puts the check a map holds for an id at the last place of that id.
\<close>

fun first_new :: "string set \<Rightarrow> check list \<Rightarrow> check list" where
  "first_new seen [] = []"
| "first_new seen (c # cs) =
     (if chk_id c \<in> seen then first_new seen cs else c # first_new (insert (chk_id c) seen) cs)"

fun latest :: "(string \<Rightarrow> check option) \<Rightarrow> check list \<Rightarrow> check list" where
  "latest m [] = []"
| "latest m (c # cs) =
     (if chk_id c \<in> chk_id ` set cs then c else case m (chk_id c) of Some d \<Rightarrow> d | None \<Rightarrow> c) # latest m cs"

definition keyed :: "(string \<Rightarrow> check option) \<Rightarrow> bool" where
  "keyed m \<longleftrightarrow> (\<forall>k d. m k = Some d \<longrightarrow> chk_id d = k)"

lemma keyed_check_map [simp]: "keyed (check_map cs)"
  by (induction cs rule: rev_induct) (auto simp: keyed_def split: if_splits)

lemma latest_ids [simp]: "keyed m \<Longrightarrow> map chk_id (latest m cs) = map chk_id cs"
  by (induction cs) (auto simp: keyed_def split: option.split)

lemma latest_id_set [simp]: "keyed m \<Longrightarrow> chk_id ` set (latest m cs) = chk_id ` set cs"
  by (metis latest_ids set_map)

lemma latest_none [simp]: "latest (\<lambda>_. None) cs = cs"
  by (induction cs) auto

lemma latest_snoc: "chk_id c \<notin> chk_id ` set cs \<Longrightarrow> latest (m(chk_id c \<mapsto> c)) (cs @ [c]) = latest m cs @ [c]"
  by (induction cs) auto

lemma latest_update:
  assumes "keyed m" and "j < length cs" and "chk_id (cs ! j) = chk_id c"
    and "\<And>i. j < i \<Longrightarrow> i < length cs \<Longrightarrow> chk_id (cs ! i) \<noteq> chk_id c"
  shows "(latest m cs)[j := c] = latest (m(chk_id c \<mapsto> c)) cs"
  using assms(2-4)
proof (induction cs arbitrary: j)
  case (Cons d cs)
  have later: "chk_id (cs ! i) \<noteq> chk_id c" if "j \<le> i" "i < length cs" for i
    using Cons.prems(3) [of "Suc i"] that by simp
  show ?case
  proof (cases j)
    case 0
    with later have no: "chk_id c \<notin> chk_id ` set cs" by (auto simp: in_set_conv_nth) metis
    then have "latest (m(chk_id c \<mapsto> c)) cs = latest m cs"
      by (induction cs) auto
    with no 0 Cons.prems(2) show ?thesis by (simp add: fun_upd_same del: fun_upd_apply)
  next
    case (Suc l)
    with Cons.prems have l: "l < length cs" "chk_id (cs ! l) = chk_id c" by simp_all
    then have "chk_id c \<in> chk_id ` set cs" by (metis imageI nth_mem)
    moreover have "(latest m cs)[l := c] = latest (m(chk_id c \<mapsto> c)) cs"
      using later Suc by (intro Cons.IH [OF l]) simp
    ultimately show ?thesis using Suc by (cases "chk_id d = chk_id c") (simp_all add: fun_upd_other del: fun_upd_apply)
  qed
qed simp

lemma first_new_snoc:
  "first_new seen (cs @ [c]) = first_new seen cs @ (if chk_id c \<in> seen \<union> chk_id ` set cs then [] else [c])"
  by (induction cs arbitrary: seen) auto

lemma first_new_ids: "seen \<union> chk_id ` set (first_new seen cs) = seen \<union> chk_id ` set cs"
proof (induction cs arbitrary: seen)
  case (Cons c cs)
  from Cons.IH [of seen] Cons.IH [of "insert (chk_id c) seen"] show ?case by auto
qed simp

lemma first_new_distinct: "distinct (map chk_id (first_new seen cs)) \<and> chk_id ` set (first_new seen cs) \<inter> seen = {}"
proof (induction cs arbitrary: seen)
  case (Cons c cs)
  from Cons.IH [of seen] Cons.IH [of "insert (chk_id c) seen"] show ?case by auto
qed simp

lemma mergeChecks_latest:
  "mergeChecks existing additions
     = latest (check_map additions) (existing @ first_new (chk_id ` set existing) additions)"
proof -
  have "index_ok [] []" by (simp add: index_ok_def)
  from index_checks_ok [OF this, of existing] have start: "index_ok existing (index_checks 0 existing [])" by simp
  let ?news = "\<lambda>cs. existing @ first_new (chk_id ` set existing) cs"
  have "index_ok (fst st) (snd st) \<and> fst st = latest (check_map additions) (?news additions)"
    if "st = fold merge_step additions (existing, index_checks 0 existing [])" for st
    using that
  proof (induction additions arbitrary: st rule: rev_induct)
    case Nil
    with start show ?case by simp
  next
    case (snoc c cs)
    let ?st = "fold merge_step cs (existing, index_checks 0 existing [])"
    from snoc.IH [of ?st] have ok: "index_ok (fst ?st) (snd ?st)"
      and eq: "fst ?st = latest (check_map cs) (?news cs)" by blast+
    have ids: "map chk_id (fst ?st) = map chk_id (?news cs)" unfolding eq by (rule latest_ids) simp
    then have idset: "chk_id ` set (fst ?st) = chk_id ` set existing \<union> chk_id ` set cs"
      using first_new_ids [of "chk_id ` set existing" cs] by (metis list.set_map image_Un set_append)
    have st: "st = merge_step c (fst ?st, snd ?st)" using snoc.prems by simp
    have step: "index_ok (fst st) (snd st)" unfolding st using merge_step_map [OF ok] by blast
    moreover have "fst st = latest (check_map (cs @ [c])) (?news (cs @ [c]))"
    proof (cases "gm_get (snd ?st) (chk_id c)")
      case None
      then have "chk_id c \<notin> chk_id ` set existing \<union> chk_id ` set cs" using index_okD(1) [OF ok None] idset by simp
      moreover from this have "chk_id c \<notin> chk_id ` set (?news cs)"
        using first_new_ids [of "chk_id ` set existing" cs] by auto
      ultimately show ?thesis
        using latest_snoc [of c "?news cs" "check_map cs"] None by (simp add: st merge_step_def eq first_new_snoc)
    next
      case (Some j)
      note at_j = index_okD(2-4) [OF ok Some]
      have len: "length (fst ?st) = length (?news cs)" using ids by (metis length_map)
      have pos: "chk_id (fst ?st ! i) = chk_id (?news cs ! i)" if "i < length (?news cs)" for i
        using ids len that by (metis nth_map)
      have "(latest (check_map cs) (?news cs))[j := c] = latest ((check_map cs)(chk_id c \<mapsto> c)) (?news cs)"
        using at_j len pos by (intro latest_update) simp_all
      moreover have "chk_id c \<in> chk_id ` set existing \<union> chk_id ` set cs"
        using at_j(1,2) idset by (metis imageI nth_mem)
      ultimately show ?thesis using Some by (simp add: st merge_step_def eq first_new_snoc)
    qed
    ultimately show ?case by blast
  qed
  then show ?thesis by (simp add: mergeChecks_def)
qed

lemma mergeChecks_ids:
  "map chk_id (mergeChecks existing additions)
     = map chk_id existing @ map chk_id (first_new (chk_id ` set existing) additions)"
  by (simp add: mergeChecks_latest)

lemma mergeChecks_distinct: "distinct (map chk_id (mergeChecks existing additions)) = distinct (map chk_id existing)"
  using first_new_distinct [of "chk_id ` set existing" additions] by (auto simp: mergeChecks_ids)


lemma replace_loop_true: "replace_loop True cs i r = filter (\<lambda>c. chk_id c \<noteq> i) cs"
  by (induction cs) auto

lemma replace_loop_set:
  "c \<in> set (replace_loop False cs i r) \<longleftrightarrow> c = r \<or> c \<in> set cs \<and> chk_id c \<noteq> i"
  by (induction cs) (auto simp: replace_loop_true)

lemma replaceCheck_set [simp]: "set (replaceCheck cs i r) = insert r {c \<in> set cs. chk_id c \<noteq> i}"
  by (auto simp: replaceCheck_def replace_loop_set)

lemma replaceCheck_others:
  "chk_id r = i \<Longrightarrow> filter (\<lambda>c. chk_id c \<noteq> i) (replaceCheck cs i r) = filter (\<lambda>c. chk_id c \<noteq> i) cs"
  unfolding replaceCheck_def by (induction cs) (auto simp: replace_loop_true)

lemma replaceCheck_once:
  "chk_id r = i \<Longrightarrow> filter (\<lambda>c. chk_id c = i) (replaceCheck cs i r) = [r]"
  unfolding replaceCheck_def by (induction cs) (auto simp: replace_loop_true filter_empty_conv)

lemma check_map_filter: "check_map cs k = check_map (filter (\<lambda>c. chk_id c = k) cs) k"
  by (induction cs rule: rev_induct) auto

lemma replaceCheck_map:
  "check_map (replaceCheck cs (chk_id r) r) = (check_map cs)(chk_id r \<mapsto> r)"
proof
  fix k
  show "check_map (replaceCheck cs (chk_id r) r) k = ((check_map cs)(chk_id r \<mapsto> r)) k"
  proof (cases "k = chk_id r")
    case True
    have "check_map [r] k = Some r" using True check_map_simps(2) [of "[]" r] by simp
    with True replaceCheck_once [of r k cs] check_map_filter [of "replaceCheck cs k r" k]
    show ?thesis by simp
  next
    case False
    have "filter (\<lambda>c. chk_id c = k) (replaceCheck cs (chk_id r) r) = filter (\<lambda>c. chk_id c = k) cs"
    proof -
      have f: "filter (\<lambda>c. chk_id c = k) xs = filter (\<lambda>c. chk_id c = k) (filter (\<lambda>c. chk_id c \<noteq> chk_id r) xs)" for xs
        using False by (auto simp: filter_filter intro!: filter_cong)
      show ?thesis using f [of "replaceCheck cs (chk_id r) r"] f [of cs] replaceCheck_others [of r "chk_id r" cs]
        by simp
    qed
    with False check_map_filter [of "replaceCheck cs (chk_id r) r" k] check_map_filter [of cs k]
    show ?thesis by simp
  qed
qed

lemma removePluginCheck_set: "set (removePluginCheck cs p) \<subseteq> set cs"
  by (auto simp: removePluginCheck_def Let_def)

section \<open>Properties\<close>

text \<open>The counting loop of \<open>stateFromChecks\<close> computes the outcome of a stage from its checks: it
  fails exactly on a definite failure, and then its conclusion lists the failed checks by name; it
  passes exactly when no check is open and at least one was executed; otherwise it is open, and it
  is never skipped.\<close>

theorem stage_outcome:
  "(ss_outcome (stateFromChecks checks) = OutcomeFail \<longleftrightarrow> list_ex known_failure checks)
   \<and> (ss_outcome (stateFromChecks checks) = OutcomePass
       \<longleftrightarrow> list_all check_clear checks \<and> list_ex (\<lambda>c. \<not> chk_skipped c) checks)
   \<and> (ss_outcome (stateFromChecks checks) = OutcomeUnknown
       \<longleftrightarrow> \<not> list_ex known_failure checks \<and> (list_ex (\<lambda>c. \<not> chk_skipped c \<and> \<not> chk_determinate c) checks
           \<or> list_all chk_skipped checks))
   \<and> (if list_ex known_failure checks
      then ss_conclusion (stateFromChecks checks) = join (map chk_name (filter known_failure checks)) zh_semicolon
      else ss_conclusion (stateFromChecks checks) \<in> {zh_stage_passed, zh_open_left @
        fmt_n (length (filter (\<lambda>c. \<not> chk_skipped c \<and> \<not> chk_determinate c) checks)) @ zh_open_right})"
proof -
  have "list_ex known_failure checks \<or> list_all check_clear checks
      \<or> list_ex (\<lambda>c. \<not> chk_skipped c \<and> \<not> chk_determinate c) checks"
    by (auto simp: list_ex_iff list_all_iff check_clear_def known_failure_def)
  moreover have "\<not> (list_all check_clear checks \<and> list_ex (\<lambda>c. \<not> chk_skipped c \<and> \<not> chk_determinate c) checks)"
    by (auto simp: list_ex_iff list_all_iff check_clear_def)
  moreover have "list_all chk_skipped checks \<longleftrightarrow> \<not> list_ex (\<lambda>c. \<not> chk_skipped c) checks"
    by (auto simp: list_ex_iff list_all_iff)
  ultimately show ?thesis
    using stateFromChecks_outcome [of checks]
    by (simp add: stateFromChecks_eq) argo
qed

text \<open>C4: \<open>mergeChecks\<close>, with its index map and in-place updates, gives exactly this list: the existing
  checks in their places and then the first addition of every id that is new, in the order of the
  additions, where the last check of each id is replaced by the last addition of that id. So the ids
  that were there keep their places, every new id is appended once, no id occurs twice unless it did
  before, and, read as a map from ids to checks, the merge is the update of the one map by the other.
  \<open>replaceCheck\<close>, with its flag, is the update of one key: the id occurs exactly once afterwards and
  the other checks keep their order.\<close>

theorem check_lists_refine_maps:
  "mergeChecks existing additions
     = latest (check_map additions) (existing @ first_new (chk_id ` set existing) additions)
   \<and> map chk_id (mergeChecks existing additions)
     = map chk_id existing @ map chk_id (first_new (chk_id ` set existing) additions)
   \<and> distinct (map chk_id (mergeChecks existing additions)) = distinct (map chk_id existing)
   \<and> check_map (mergeChecks existing additions) = check_map existing ++ check_map additions
   \<and> check_map (replaceCheck checks (chk_id c) c) = (check_map checks)(chk_id c \<mapsto> c)
   \<and> filter (\<lambda>x. chk_id x = chk_id c) (replaceCheck checks (chk_id c) c) = [c]
   \<and> removeCheck (replaceCheck checks (chk_id c) c) (chk_id c) = removeCheck checks (chk_id c)"
  using mergeChecks_latest mergeChecks_ids mergeChecks_distinct mergeChecks_map replaceCheck_map [of checks c]
    replaceCheck_once [of c "chk_id c" checks] replaceCheck_others [of c "chk_id c" checks]
  by (simp add: removeCheck_def)

end
