(* ===== verification/Amounts.thy ===== *)
theory Amounts
  imports Go_Float64
begin

text \<open>
  Entries of a resource map, one at a time: \<open>None\<close> is an absent entry, which reads as zero. The
  map loops of the filter and of the queue snapshot are these operations at every name, and on
  whole amounts within 2 to the 53 they are the operations on integers (\<open>is_int\<close>).
\<close>

text \<open>The scalar versions: \<open>None\<close> is an absent entry.\<close>

definition f_or0 :: "f64 option \<Rightarrow> f64" where
  "f_or0 o' = (case o' of None \<Rightarrow> f_zero | Some x \<Rightarrow> x)"

definition add_at :: "f64 option \<Rightarrow> f64 option \<Rightarrow> f64 option" where
  "add_at d s = (case s of None \<Rightarrow> d | Some v \<Rightarrow> Some (f_add (f_or0 d) v))"

definition max_at :: "f64 option \<Rightarrow> f64 option \<Rightarrow> f64 option" where
  "max_at d s = (case s of None \<Rightarrow> d | Some v \<Rightarrow> if f_lt (f_or0 d) v then Some v else d)"

definition is_int :: "f64 option \<Rightarrow> int \<Rightarrow> bool" where
  "is_int o' n \<longleftrightarrow> f_or0 o' = Fin (of_int n)"

lemma add_at_int: "is_int d a \<Longrightarrow> is_int s b \<Longrightarrow> \<bar>a + b\<bar> \<le> 2 ^ 53 \<Longrightarrow> is_int (add_at d s) (a + b)"
proof (cases s)
  case None
  assume "is_int d a" "is_int s b"
  with None have "b = 0" by (simp add: is_int_def f_or0_def)
  with None \<open>is_int d a\<close> show ?thesis by (simp add: add_at_def)
next
  case (Some v)
  assume "is_int d a" "is_int s b" "\<bar>a + b\<bar> \<le> 2 ^ 53"
  with Some show ?thesis
    using f_add_of_int [of a b] by (simp add: is_int_def add_at_def f_or0_def [of "Some _"])
qed

lemma max_at_int: "is_int d a \<Longrightarrow> is_int s b \<Longrightarrow> 0 \<le> a \<Longrightarrow> is_int (max_at d s) (max a b)"
proof (cases s)
  case None
  assume a: "is_int d a" "is_int s b" "0 \<le> a"
  with None have "b = 0" by (simp add: is_int_def f_or0_def)
  with None a show ?thesis by (simp add: max_at_def max_def)
next
  case (Some v)
  assume "is_int d a" "is_int s b"
  with Some show ?thesis by (auto simp: is_int_def max_at_def f_or0_def [of "Some _"] max_def)
qed

definition sub_at :: "f64 option \<Rightarrow> f64 option \<Rightarrow> f64 option" where
  "sub_at d s = (case s of None \<Rightarrow> d | Some v \<Rightarrow> Some (f_sub (f_or0 d) v))"

definition min_at :: "f64 option \<Rightarrow> f64 option \<Rightarrow> f64 option" where
  "min_at d s =
     (case s of None \<Rightarrow> d
      | Some v \<Rightarrow> (case d of None \<Rightarrow> Some v | Some x \<Rightarrow> if f_lt v x then Some v else d))"

lemma f_or0_simps [simp]: "f_or0 None = f_zero" "f_or0 (Some x) = x"
  by (simp_all add: f_or0_def)

lemma sub_at_int: "is_int d a \<Longrightarrow> is_int s b \<Longrightarrow> \<bar>a - b\<bar> \<le> 2 ^ 53 \<Longrightarrow> is_int (sub_at d s) (a - b)"
  using f_sub_of_int [of a b] by (cases s) (simp_all add: is_int_def sub_at_def)

lemma min_at_int:
  "is_int d a \<Longrightarrow> is_int (Some v) b \<Longrightarrow> is_int (min_at d (Some v)) (if d = None then b else min a b)"
  by (cases d) (auto simp: is_int_def min_at_def min_def)

end
