(* ===== verification/Filter_Resources.thy ===== *)
theory Filter_Resources
  imports Model Amounts
begin

text \<open>
  File \<open>internal/agent/filter/resources.go\<close>: the resources a Pod requests, and the node conditions that need no
  cache. \<open>ToleratesTaint\<close> is a method of the Kubernetes API library and a parameter. The map
  loops are pointwise (\<open>pointwise_loop\<close>), so \<open>podRequests\<close> computes every resource on its own: at
  each name it is the scalar program \<open>request_at\<close>.
\<close>

definition nodeReady :: "node \<Rightarrow> bool" where
  "nodeReady node =
     (case find (\<lambda>condition. cd_type condition = ''Ready'') (nd_conditions node) of
        Some condition \<Rightarrow> cd_status condition = ''True''
      | None \<Rightarrow> False)"

definition taintsTolerated ::
  "(toleration \<Rightarrow> taint \<Rightarrow> bool) \<Rightarrow> taint list \<Rightarrow> toleration list \<Rightarrow> bool" where
  "taintsTolerated tolerates taints tolerations =
     list_all (\<lambda>taint.
       tn_effect taint \<noteq> ''NoSchedule'' \<and> tn_effect taint \<noteq> ''NoExecute''
       \<or> list_ex (\<lambda>toleration. tolerates toleration taint) tolerations) taints"

definition resourceValue :: "string \<Rightarrow> quantity \<Rightarrow> f64" where
  "resourceValue name quantity =
     (if name = ''cpu'' then f_div_const (f_of_int (q_milli quantity)) 1000
      else f_of_int (q_value quantity))"

definition resourceListValues :: "resource_list \<Rightarrow> f64 gomap" where
  "resourceListValues resources =
     fold (\<lambda>(name, quantity) result. gm_set name (resourceValue name quantity) result) resources []"

definition add_step :: "string \<times> f64 \<Rightarrow> f64 gomap \<Rightarrow> f64 gomap" where
  "add_step e destination =
     (case e of (name, value) \<Rightarrow>
        gm_set name (f_add (gm_or f_zero destination name) value) destination)"

definition addResources :: "f64 gomap \<Rightarrow> f64 gomap \<Rightarrow> f64 gomap" where
  "addResources destination source = fold add_step source destination"

definition max_step :: "string \<times> f64 \<Rightarrow> f64 gomap \<Rightarrow> f64 gomap" where
  "max_step e destination =
     (case e of (name, value) \<Rightarrow>
        if f_lt (gm_or f_zero destination name) value then gm_set name value destination
        else destination)"

definition maxResources :: "f64 gomap \<Rightarrow> f64 gomap \<Rightarrow> f64 gomap" where
  "maxResources destination candidate = fold max_step candidate destination"

definition is_restartable :: "container \<Rightarrow> bool" where
  "is_restartable c = (ct_restart_policy c = Some ''Always'')"

text \<open>The loop over the init containers, on requests, restartable sum and maximum.\<close>

definition init_step ::
  "container \<Rightarrow> f64 gomap \<times> f64 gomap \<times> f64 gomap \<Rightarrow> f64 gomap \<times> f64 gomap \<times> f64 gomap" where
  "init_step container st =
     (let (requests, restartableInit, maxInit) = st;
          current = resourceListValues (ct_requests container)
      in if is_restartable container then
           (let requests' = addResources requests current;
                restartableInit' = addResources restartableInit current
            in (requests', restartableInit', maxResources maxInit restartableInit'))
         else (requests, restartableInit, maxResources maxInit (addResources current restartableInit)))"

definition podRequests :: "pod \<Rightarrow> f64 gomap" where
  "podRequests pod =
     (let requests =
            fold (\<lambda>container requests. addResources requests (resourceListValues (ct_requests container)))
              (pod_containers pod) [(''pods'', f_one)];
          (requests', restartableInit, maxInit) =
            fold init_step (pod_init_containers pod) (requests, [], [])
      in addResources (maxResources requests' maxInit) (resourceListValues (pod_overhead pod)))"

definition hasRestartableInitContainer :: "pod \<Rightarrow> bool" where
  "hasRestartableInitContainer pod = list_ex is_restartable (pod_init_containers pod)"

text \<open>
  \<open>fits\<close> returns at the first entry, in iteration order, that does not fit; only its text depends
  on the order.
\<close>

definition fits :: "f64 gomap \<Rightarrow> f64 gomap \<Rightarrow> bool \<times> string" where
  "fits request available =
     (case find (\<lambda>(name, value). f_lt (gm_or f_zero available name) value) request of
        Some (name, value) \<Rightarrow>
          (False, name @ '' request '' @ fmt_f 3 value @ '' > available '' @
            fmt_f 3 (gm_or f_zero available name))
      | None \<Rightarrow>
          (True, ''request='' @ fmt_resources request @ '' available='' @ fmt_resources available))"

section \<open>The loops are pointwise\<close>

interpretation add_loop: pointwise_loop add_step "\<lambda>k v old. Some (f_add (case old of None \<Rightarrow> f_zero | Some x \<Rightarrow> x) v)"
  by unfold_locales (auto simp: add_step_def gm_or_def)

interpretation max_loop: pointwise_loop max_step
    "\<lambda>k v old. if f_lt (case old of None \<Rightarrow> f_zero | Some x \<Rightarrow> x) v then Some v else old"
  by unfold_locales (auto simp: max_step_def gm_or_def)

interpretation values_loop: pointwise_loop
    "\<lambda>(name, quantity) result. gm_set name (resourceValue name quantity) result"
    "\<lambda>k v old. Some (resourceValue k v)"
  by unfold_locales auto

lemma gm_ok_resourceListValues [simp]: "gm_ok (resourceListValues l)"
  unfolding resourceListValues_def by (rule values_loop.loop_ok) simp

lemma gm_ok_addResources [simp]: "gm_ok d \<Longrightarrow> gm_ok (addResources d s)"
  unfolding addResources_def by (rule add_loop.loop_ok)

lemma gm_ok_maxResources [simp]: "gm_ok d \<Longrightarrow> gm_ok (maxResources d s)"
  unfolding maxResources_def by (rule max_loop.loop_ok)

lemma gm_get_resourceListValues:
  "gm_ok l \<Longrightarrow> gm_get (resourceListValues l) k = map_option (resourceValue k) (gm_get l k)"
  unfolding resourceListValues_def by (subst values_loop.loop_get) (auto split: option.split)

lemma gm_get_addResources: "gm_ok s \<Longrightarrow> gm_get (addResources d s) k = add_at (gm_get d k) (gm_get s k)"
  unfolding addResources_def by (subst add_loop.loop_get) (auto simp: add_at_def f_or0_def split: option.split)

lemma gm_get_maxResources: "gm_ok s \<Longrightarrow> gm_get (maxResources d s) k = max_at (gm_get d k) (gm_get s k)"
  unfolding maxResources_def by (subst max_loop.loop_get) (auto simp: max_at_def f_or0_def split: option.split)

text \<open>One resource name of a Pod: what each container asks, and the program over it.\<close>

definition asked :: "string \<Rightarrow> container \<Rightarrow> f64 option" where
  "asked k c = map_option (resourceValue k) (gm_get (ct_requests c) k)"

fun init_at ::
  "string \<Rightarrow> container list \<Rightarrow> f64 option \<times> f64 option \<times> f64 option
    \<Rightarrow> f64 option \<times> f64 option \<times> f64 option" where
  "init_at k [] st = st"
| "init_at k (c # cs) (req, restartable, maximum) =
     (if is_restartable c then
        (let r = add_at restartable (asked k c)
         in init_at k cs (add_at req (asked k c), r, max_at maximum r))
      else init_at k cs (req, restartable, max_at maximum (add_at (asked k c) restartable)))"

definition request_at :: "string \<Rightarrow> pod \<Rightarrow> f64 option" where
  "request_at k pod =
     (let req = fold (\<lambda>c r. add_at r (asked k c)) (pod_containers pod)
            (if k = ''pods'' then Some f_one else None);
          (req', restartable, maximum) = init_at k (pod_init_containers pod) (req, None, None)
      in add_at (max_at req' maximum) (map_option (resourceValue k) (gm_get (pod_overhead pod) k)))"

definition pod_maps_ok :: "pod \<Rightarrow> bool" where
  "pod_maps_ok pod \<longleftrightarrow>
     list_all (\<lambda>c. gm_ok (ct_requests c)) (pod_containers pod)
     \<and> list_all (\<lambda>c. gm_ok (ct_requests c)) (pod_init_containers pod) \<and> gm_ok (pod_overhead pod)"

lemma gm_get_asked:
  "gm_ok (ct_requests c) \<Longrightarrow> gm_get (resourceListValues (ct_requests c)) k = asked k c"
  by (simp add: gm_get_resourceListValues asked_def)

lemma fold_containers_at:
  "list_all (\<lambda>c. gm_ok (ct_requests c)) cs \<Longrightarrow>
   gm_get (fold (\<lambda>c r. addResources r (resourceListValues (ct_requests c))) cs m) k
     = fold (\<lambda>c r. add_at r (asked k c)) cs (gm_get m k)"
  by (induction cs arbitrary: m) (simp_all add: gm_get_addResources gm_get_asked)

lemma fold_containers_ok:
  "gm_ok m \<Longrightarrow> gm_ok (fold (\<lambda>c r. addResources r (resourceListValues (ct_requests c))) cs m)"
  by (induction cs arbitrary: m) simp_all

lemma init_step_restartable:
  "is_restartable c \<Longrightarrow> init_step c (a, b, d) =
     (let cur = resourceListValues (ct_requests c); b' = addResources b cur
      in (addResources a cur, b', maxResources d b'))"
  by (simp add: init_step_def Let_def)

lemma init_step_plain:
  "\<not> is_restartable c \<Longrightarrow> init_step c (a, b, d) =
     (a, b, maxResources d (addResources (resourceListValues (ct_requests c)) b))"
  by (simp add: init_step_def)

lemma fold_init_at:
  "list_all (\<lambda>c. gm_ok (ct_requests c)) cs \<Longrightarrow> gm_ok a \<Longrightarrow> gm_ok b \<Longrightarrow> gm_ok d \<Longrightarrow>
   fold init_step cs (a, b, d) = (a', b', d') \<Longrightarrow>
   (gm_get a' k, gm_get b' k, gm_get d' k) = init_at k cs (gm_get a k, gm_get b k, gm_get d k)
     \<and> gm_ok a' \<and> gm_ok b' \<and> gm_ok d'"
proof (induction cs arbitrary: a b d)
  case (Cons c cs)
  let ?cur = "resourceListValues (ct_requests c)"
  show ?case
  proof (cases "is_restartable c")
    case True
    let ?a = "addResources a ?cur" and ?b = "addResources b ?cur"
    have "fold init_step cs (?a, ?b, maxResources d ?b) = (a', b', d')"
      using Cons.prems(5) True by (simp add: init_step_restartable Let_def)
    from Cons.IH [OF _ _ _ _ this] Cons.prems True show ?thesis
      by (simp add: gm_get_addResources gm_get_maxResources gm_get_asked Let_def)
  next
    case False
    have "fold init_step cs (a, b, maxResources d (addResources ?cur b)) = (a', b', d')"
      using Cons.prems(5) False by (simp add: init_step_plain)
    from Cons.IH [OF _ _ _ _ this] Cons.prems False show ?thesis
      by (simp add: gm_get_addResources gm_get_maxResources gm_get_asked)
  qed
qed simp

lemma gm_get_podRequests:
  assumes "pod_maps_ok pod"
  shows "gm_get (podRequests pod) k = request_at k pod" and "gm_ok (podRequests pod)"
proof -
  define r where "r = fold (\<lambda>c r. addResources r (resourceListValues (ct_requests c)))
    (pod_containers pod) [(''pods'', f_one)]"
  obtain a b d where f: "fold init_step (pod_init_containers pod) (r, [], []) = (a, b, d)"
    by (metis prod_cases3)
  have r: "gm_ok r" unfolding r_def by (rule fold_containers_ok) (simp add: gm_ok_def)
  have rk: "gm_get r k = fold (\<lambda>c r. add_at r (asked k c)) (pod_containers pod)
      (if k = ''pods'' then Some f_one else None)"
    unfolding r_def using assms by (subst fold_containers_at) (simp_all add: pod_maps_ok_def gm_get_Cons)
  have i: "init_at k (pod_init_containers pod) (gm_get r k, None, None) = (gm_get a k, gm_get b k, gm_get d k)"
    and ok: "gm_ok a" "gm_ok d"
    using fold_init_at [OF _ r _ _ f, of k] assms by (simp_all add: pod_maps_ok_def)
  have p: "podRequests pod = addResources (maxResources a d) (resourceListValues (pod_overhead pod))"
    using f by (simp add: podRequests_def r_def Let_def)
  from i rk ok assms show "gm_get (podRequests pod) k = request_at k pod"
    by (simp add: p request_at_def Let_def pod_maps_ok_def gm_get_addResources gm_get_maxResources
        gm_get_resourceListValues)
  from p ok show "gm_ok (podRequests pod)" by simp
qed

section \<open>Exact amounts\<close>

text \<open>
  The Kubernetes formula over whole amounts: containers and sidecars together, or the largest
  need while an init container runs beside the sidecars started before it, plus the overhead.
\<close>

definition want :: "string \<Rightarrow> resource_list \<Rightarrow> int" where
  "want k l = (case gm_get l k of None \<Rightarrow> 0 | Some q \<Rightarrow> q_value q)"

fun init_need :: "string \<Rightarrow> int \<Rightarrow> container list \<Rightarrow> int" where
  "init_need k r [] = 0"
| "init_need k r (c # cs) =
     (let w = want k (ct_requests c)
      in if is_restartable c then max (r + w) (init_need k (r + w) cs)
         else max (r + w) (init_need k r cs))"

definition sum_want :: "string \<Rightarrow> container list \<Rightarrow> int" where
  "sum_want k cs = sum_list (map (\<lambda>c. want k (ct_requests c)) cs)"

definition pod_need :: "string \<Rightarrow> pod \<Rightarrow> int" where
  "pod_need k pod =
     max (sum_want k (pod_containers pod) + sum_want k (filter is_restartable (pod_init_containers pod)))
       (init_need k 0 (pod_init_containers pod)) + want k (pod_overhead pod)"

definition amounts_ok :: "string \<Rightarrow> pod \<Rightarrow> bool" where
  "amounts_ok k pod \<longleftrightarrow>
     list_all (\<lambda>c. 0 \<le> want k (ct_requests c)) (pod_containers pod @ pod_init_containers pod)
     \<and> 0 \<le> want k (pod_overhead pod)
     \<and> sum_want k (pod_containers pod) + sum_want k (pod_init_containers pod) + want k (pod_overhead pod)
       \<le> 2 ^ 53"

lemma resourceValue_int:
  assumes "k \<noteq> ''cpu''" and "\<bar>want k l\<bar> \<le> 2 ^ 53"
  shows "is_int (map_option (resourceValue k) (gm_get l k)) (want k l)"
  using assms f_of_int_exact [of "want k l"]
  by (cases "gm_get l k") (simp_all add: is_int_def f_or0_def want_def resourceValue_def)

lemma sum_want_nonneg: "list_all (\<lambda>c. 0 \<le> want k (ct_requests c)) cs \<Longrightarrow> 0 \<le> sum_want k cs"
  by (induction cs) (simp_all add: sum_want_def)

lemma sum_want_Cons [simp]: "sum_want k (c # cs) = want k (ct_requests c) + sum_want k cs"
  by (simp add: sum_want_def)

lemma containers_int:
  assumes "k \<noteq> ''cpu''" and "list_all (\<lambda>c. 0 \<le> want k (ct_requests c)) cs"
    and "is_int r a" and "0 \<le> a" and "a + sum_want k cs \<le> 2 ^ 53"
  shows "is_int (fold (\<lambda>c r. add_at r (asked k c)) cs r) (a + sum_want k cs)"
  using assms(2-)
proof (induction cs arbitrary: r a)
  case Nil
  then show ?case by (simp add: sum_want_def)
next
  case (Cons c cs)
  have s: "0 \<le> want k (ct_requests c)" "0 \<le> sum_want k cs" using Cons.prems sum_want_nonneg by simp_all
  with Cons.prems have "is_int (asked k c) (want k (ct_requests c))"
    unfolding asked_def by (intro resourceValue_int assms(1)) simp
  with Cons.prems s have "is_int (add_at r (asked k c)) (a + want k (ct_requests c))"
    by (intro add_at_int) simp_all
  from Cons.IH [OF _ this] Cons.prems s show ?case by (simp add: algebra_simps)
qed

lemma inits_int:
  assumes k: "k \<noteq> ''cpu''" and "list_all (\<lambda>c. 0 \<le> want k (ct_requests c)) cs"
    and "is_int q a" "is_int r b" "is_int m d" and "0 \<le> a" "0 \<le> b" "0 \<le> d"
    and "a + sum_want k cs \<le> 2 ^ 53" "b + sum_want k cs \<le> 2 ^ 53"
    and "init_at k cs (q, r, m) = (q', r', m')"
  shows "is_int q' (a + sum_want k (filter is_restartable cs)) \<and> is_int m' (max d (init_need k b cs))"
  using assms(2-)
proof (induction cs arbitrary: q r m a b d)
  case Nil
  then show ?case by (simp add: sum_want_def max_def)
next
  case (Cons c cs)
  let ?w = "want k (ct_requests c)"
  have s: "0 \<le> ?w" "0 \<le> sum_want k cs" using Cons.prems(1) sum_want_nonneg by simp_all
  have c: "is_int (asked k c) ?w"
    unfolding asked_def using Cons.prems s by (intro resourceValue_int k) simp
  show ?case
  proof (cases "is_restartable c")
    case True
    have q: "is_int (add_at q (asked k c)) (a + ?w)" and r: "is_int (add_at r (asked k c)) (b + ?w)"
      using Cons.prems c s by (auto intro!: add_at_int)
    have m: "is_int (max_at m (add_at r (asked k c))) (max d (b + ?w))"
      using Cons.prems r by (intro max_at_int)
    from Cons.IH [OF _ q r m] Cons.prems s True show ?thesis
      by (simp add: Let_def algebra_simps max.assoc)
  next
    case False
    have r: "is_int (add_at (asked k c) r) (?w + b)" using Cons.prems c s by (intro add_at_int) simp_all
    have m: "is_int (max_at m (add_at (asked k c) r)) (max d (b + ?w))"
      using Cons.prems max_at_int [OF Cons.prems(4) r] by (simp add: algebra_simps)
    from Cons.IH [OF _ Cons.prems(2,3) m] Cons.prems s False show ?thesis
      by (simp add: Let_def max.assoc)
  qed
qed

lemma sum_want_filter_le:
  "list_all (\<lambda>c. 0 \<le> want k (ct_requests c)) cs \<Longrightarrow> sum_want k (filter P cs) \<le> sum_want k cs"
  by (induction cs) (auto simp: sum_want_def)

lemma init_need_bounds:
  "list_all (\<lambda>c. 0 \<le> want k (ct_requests c)) cs \<Longrightarrow> 0 \<le> r \<Longrightarrow>
     0 \<le> init_need k r cs \<and> init_need k r cs \<le> r + sum_want k cs"
proof (induction cs arbitrary: r)
  case (Cons c cs)
  have "0 \<le> sum_want k cs" using Cons.prems sum_want_nonneg by simp
  with Cons.IH [of r] Cons.IH [of "r + want k (ct_requests c)"] Cons.prems show ?case
    by (auto simp: Let_def)
qed (simp add: sum_want_def)

section \<open>Properties\<close>

text \<open>The requests of a Pod are computed resource by resource: at every name the map program gives
  what the scalar program over the containers gives, so no iteration order of a map matters.\<close>

theorem pod_requests_scalar:
  assumes "pod_maps_ok pod"
  shows "gm_get (podRequests pod) k = request_at k pod \<and> gm_ok (podRequests pod)"
  using gm_get_podRequests [OF assms] by simp

text \<open>For a resource counted in whole units, the requests are the Kubernetes formula exactly:
  containers plus sidecars or the largest init need, whichever is more, plus the overhead, as
  long as the total stays within 2 to the 53.\<close>

theorem pod_requests_exact:
  assumes "pod_maps_ok pod" and "amounts_ok k pod" and "k \<noteq> ''cpu''" and "k \<noteq> ''pods''"
  shows "gm_or f_zero (podRequests pod) k = Fin (of_int (pod_need k pod))"
proof -
  define S where "S = sum_want k (pod_containers pod)"
  define I where "I = sum_want k (pod_init_containers pod)"
  define R where "R = sum_want k (filter is_restartable (pod_init_containers pod))"
  define N where "N = init_need k 0 (pod_init_containers pod)"
  have pos: "list_all (\<lambda>c. 0 \<le> want k (ct_requests c)) (pod_containers pod)"
    "list_all (\<lambda>c. 0 \<le> want k (ct_requests c)) (pod_init_containers pod)"
    and o: "0 \<le> want k (pod_overhead pod)" and sum: "S + I + want k (pod_overhead pod) \<le> 2 ^ 53"
    using assms(2) by (simp_all add: amounts_ok_def S_def I_def)
  have SI: "0 \<le> S" "0 \<le> I" "R \<le> I" "0 \<le> N" "N \<le> I"
    using pos sum_want_nonneg sum_want_filter_le init_need_bounds [OF pos(2), of 0]
    by (simp_all add: S_def I_def R_def N_def)
  define q where "q = fold (\<lambda>c r. add_at r (asked k c)) (pod_containers pod) None"
  obtain q' r' m' where i: "init_at k (pod_init_containers pod) (q, None, None) = (q', r', m')"
    by (metis prod_cases3)
  have zero: "is_int None 0" by (simp add: is_int_def f_or0_def)
  have "is_int q (0 + S)" unfolding q_def S_def
    using SI o sum by (intro containers_int assms(3) pos zero) (simp_all add: S_def [symmetric])
  then have "is_int q S" by simp
  from inits_int [OF assms(3) pos(2) this zero zero _ _ _ _ _ i] SI o sum
  have q': "is_int q' (S + R)" and m': "is_int m' N" by (simp_all add: I_def R_def N_def)
  have R0: "0 \<le> R" unfolding R_def using pos(2) by (intro sum_want_nonneg) (simp add: list_all_iff)
  have mx: "is_int (max_at q' m') (max (S + R) N)" using q' m' SI R0 by (intro max_at_int) simp_all
  have ov: "is_int (map_option (resourceValue k) (gm_get (pod_overhead pod) k)) (want k (pod_overhead pod))"
    using SI o sum by (intro resourceValue_int assms(3)) simp
  have "\<bar>max (S + R) N + want k (pod_overhead pod)\<bar> \<le> 2 ^ 53" using SI R0 o sum by auto
  with mx ov have "is_int (request_at k pod) (pod_need k pod)"
    using add_at_int [OF mx ov] assms(4) i
    by (simp add: request_at_def pod_need_def S_def R_def N_def q_def)
  then show ?thesis
    using gm_get_podRequests(1) [OF assms(1), of k] by (simp add: is_int_def gm_or_def f_or0_def)
qed

definition amount :: "int \<Rightarrow> quantity" where
  "amount n = \<lparr>q_value = n, q_milli = 1000 * n, q_is_zero = (n = 0)\<rparr>"

definition asking :: "string \<Rightarrow> int \<Rightarrow> container" where
  "asking k n = empty_container\<lparr>ct_requests := [(k, amount n)]\<rparr>"

definition sample_pod :: pod where
  "sample_pod = empty_pod\<lparr>pod_containers := [asking ''memory'' 5],
     pod_init_containers := [(asking ''memory'' 2)\<lparr>ct_restart_policy := Some ''Always''\<rparr>, asking ''memory'' 7],
     pod_overhead := [(''memory'', amount 1)]\<rparr>"

lemmas sample_defs = sample_pod_def asking_def amount_def empty_pod_def empty_container_def gm_ok_def
  pod_maps_ok_def gm_get_def

theorem pod_requests_exact_witness: "gm_or f_zero (podRequests sample_pod) ''memory'' = Fin 10"
proof -
  have "pod_maps_ok sample_pod" by (simp add: sample_defs)
  moreover have "amounts_ok ''memory'' sample_pod"
    by (simp add: amounts_ok_def want_def sum_want_def sample_defs)
  ultimately have "gm_or f_zero (podRequests sample_pod) ''memory'' = Fin (of_int (pod_need ''memory'' sample_pod))"
    by (rule pod_requests_exact) simp_all
  moreover have "pod_need ''memory'' sample_pod = 10"
    by (simp add: pod_need_def want_def sum_want_def is_restartable_def sample_defs)
  ultimately show ?thesis by simp
qed

theorem pod_requests_scalar_witness:
  "gm_get (podRequests sample_pod) ''pods'' = request_at ''pods'' sample_pod \<and> gm_ok (podRequests sample_pod)"
  by (rule pod_requests_scalar) (simp add: sample_defs)

end
