(* ===== verification/Presentation_Resources.thy ===== *)
theory Presentation_Resources
  imports Presentation_Checks Filter_Resources
begin

text \<open>
  The amounts that \<open>internal/agent/presentation.go\<close> shows and decides on: resource lists and Pod
  totals, the queue table with the quota formula of proportion and capacity, and the PodGroup rows.
  Facts: on whole amounts within 2 to the 53 the formula that is evaluated is need at most
  capability, exactly; the quota check fails for certain exactly on a candidate above what is
  available; the Pod total shown counts init containers on top of the containers, which the
  request the filter uses does not.
\<close>

section \<open>Resource lists\<close>

definition canonicalResourceName :: "string \<Rightarrow> string" where
  "canonicalResourceName name =
     (let trimmed = trim_space name
      in if has_prefix (to_lower trimmed) ''requests.'' then drop (length ''requests.'') trimmed else trimmed)"

definition list_value_step ::
  "string \<times> quantity \<Rightarrow> f64 gomap \<times> bool gomap \<Rightarrow> f64 gomap \<times> bool gomap" where
  "list_value_step e st =
     (let (originalName, quantity) = e; (result, requestBacked) = st;
          resourceName = canonicalResourceName originalName;
          fromRequest = has_prefix originalName ''requests.''
      in if gm_or False requestBacked resourceName \<and> \<not> fromRequest then (result, requestBacked)
         else (gm_set resourceName (resourceValue resourceName quantity) result,
               gm_set resourceName (fromRequest \<or> gm_or False requestBacked resourceName) requestBacked))"

definition resourceListValues_p :: "resource_list \<Rightarrow> f64 gomap" where
  "resourceListValues_p resources = fst (fold list_value_step resources ([], []))"

definition addResourceValues_p :: "f64 gomap \<Rightarrow> f64 gomap \<Rightarrow> f64 gomap" where
  "addResourceValues_p destination source = fold add_step source destination"

definition podResourceValues :: "pod \<Rightarrow> f64 gomap" where
  "podResourceValues pod =
     (let result = fold (\<lambda>container result.
            addResourceValues_p result (resourceListValues_p (ct_requests container)))
          (pod_containers pod) [(''pods'', f_one)];
          maxInit = fold (\<lambda>container maxInit. fold max_step (resourceListValues_p (ct_requests container)) maxInit)
          (pod_init_containers pod) []
      in addResourceValues_p (addResourceValues_p result maxInit) (resourceListValues_p (pod_overhead pod)))"

section \<open>The queue table\<close>

definition mergeQueueResourceValue ::
  "queue_resource_value \<Rightarrow> queue_snapshot_resource \<Rightarrow> queue_resource_value" where
  "mergeQueueResourceValue destination source =
     destination
       \<lparr>rv_capability := (if qr_capability source = None then rv_capability destination else qr_capability source),
        rv_deserved := (if qr_deserved source = None then rv_deserved destination else qr_deserved source),
        rv_allocated := (if qr_allocated source = None then rv_allocated destination else qr_allocated source),
        rv_request := (if qr_request source = None then rv_request destination else qr_request source),
        rv_inqueue := (if qr_inqueue source = None then rv_inqueue destination else qr_inqueue source),
        rv_elastic := (if qr_elastic source = None then rv_elastic destination else qr_elastic source)\<rparr>"

definition or_zero :: "f64 option \<Rightarrow> f64 option" where
  "or_zero v = (if v = None then Some f_zero else v)"

definition fill_zero :: "queue_snapshot_resource \<Rightarrow> queue_snapshot_resource" where
  "fill_zero value =
     (if qr_capability value = None then value
      else value\<lparr>qr_allocated := or_zero (qr_allocated value), qr_inqueue := or_zero (qr_inqueue value),
        qr_elastic := or_zero (qr_elastic value), qr_request := or_zero (qr_request value)\<rparr>)"

definition table_step ::
  "queue_snapshot_resource gomap \<Rightarrow> string \<Rightarrow> queue_resource_value gomap \<Rightarrow> queue_resource_value gomap" where
  "table_step resources originalName result =
     (let value = fill_zero (gm_or empty_snapshot_resource resources originalName);
          name = canonicalResourceName originalName
      in gm_set name (mergeQueueResourceValue (gm_or empty_queue_value result name) value) result)"

text \<open>Names with the prefix come last, both groups in byte order: two stable sorts.\<close>

definition table_names :: "queue_snapshot_resource gomap \<Rightarrow> string list" where
  "table_names resources =
     sort_key (\<lambda>name. has_prefix (to_lower name) ''requests.'') (sort_strings (gm_keys resources))"

definition candidate_step ::
  "string \<times> f64 \<Rightarrow> queue_resource_value gomap \<Rightarrow> queue_resource_value gomap" where
  "candidate_step e result =
     (let (name, candidate) = e;
          value = (gm_or empty_queue_value result name)\<lparr>rv_candidate := Some candidate\<rparr>
      in gm_set name
        (case (rv_capability value, rv_allocated value, rv_inqueue value) of
           (Some capability, Some allocated, Some inqueue) \<Rightarrow>
             (let available = f_sub (f_sub capability allocated) inqueue;
                  required = f_add (f_add candidate allocated) inqueue
              in case rv_elastic value of
                   None \<Rightarrow> value\<lparr>rv_available := Some available, rv_required := Some required\<rparr>
                 | Some elastic \<Rightarrow> value\<lparr>rv_available := Some (f_add available elastic),
                     rv_required := Some (f_sub required elastic)\<rparr>)
         | _ \<Rightarrow> value) result)"

definition queueResourceValues :: "queue_snapshot \<Rightarrow> pod_group \<Rightarrow> queue_resource_value gomap" where
  "queueResourceValues snapshot podGroup =
     (let result = fold (table_step (qs_resources snapshot)) (table_names (qs_resources snapshot)) []
      in case pg_min_resources podGroup of
           None \<Rightarrow> result
         | Some resources \<Rightarrow> fold candidate_step (resourceListValues_p resources) result)"

definition runtime_sources :: "string list" where
  "runtime_sources = [''SIGUSR2 cache dump'', ''pkg/scheduler/cache/dumper.go'']"

definition queueRuntimeCheck :: "queue_summary \<Rightarrow> go_error option \<Rightarrow> check" where
  "queueRuntimeCheck queue err =
     (case err of
        Some e \<Rightarrow> Unknown ''queue.runtime-snapshot'' ''enqueue'' ''Queue runtime resources''
          (err_text e) EvNil runtime_sources
      | None \<Rightarrow>
          if \<not> qm_runtime_determinate queue then
            Unknown ''queue.runtime-snapshot'' ''enqueue'' ''Queue runtime resources''
              (qm_runtime_reason queue) EvNil runtime_sources
          else Known ''queue.runtime-snapshot'' ''enqueue'' ''Queue runtime resources'' True
              (qm_runtime_reason queue) runtime_sources)"

section \<open>The queue strategy\<close>

definition strategy_step ::
  "configured_plugin \<Rightarrow> bool gomap \<times> bool \<Rightarrow> bool gomap \<times> bool" where
  "strategy_step plugin st =
     (let (strategies, configured) = st; name = to_lower (pl_name plugin)
      in if name = ''proportion'' \<or> name = ''capacity'' then
           (if gm_get (pl_options plugin) ''enableJobEnqueued'' = Some False then (strategies, True)
            else (gm_set name True strategies, True))
         else (strategies, configured))"

definition queueStrategy :: "scheduler_policy \<Rightarrow> string" where
  "queueStrategy policy =
     (let (strategies, configured) =
            fold (\<lambda>tier st. fold strategy_step (ti_plugins tier) st) (po_tiers policy) ([], False);
          strategy = join (sort_strings (gm_keys strategies)) '' + ''
      in if strategy = '''' \<and> configured then ''disabled'' else strategy)"

definition queueBaseStrategy :: "string \<Rightarrow> string" where
  "queueBaseStrategy strategy =
     (if contains strategy ''capacity'' then ''capacity''
      else if contains strategy ''proportion'' then ''proportion'' else '''')"

definition queueStrategySources :: "string \<Rightarrow> string list" where
  "queueStrategySources strategy =
     (if strategy = ''capacity'' then [''pkg/scheduler/plugins/capacity/capacity.go:AddJobEnqueueableFn'']
      else if strategy = ''proportion'' then [''pkg/scheduler/plugins/proportion/proportion.go:AddJobEnqueueableFn'']
      else [''pkg/scheduler/plugins/proportion'', ''pkg/scheduler/plugins/capacity''])"

definition queueStrategyNote :: "string \<Rightarrow> string" where
  "queueStrategyNote strategy =
     (let base = queueBaseStrategy strategy
      in if base = ''capacity'' then
           ''capacity uses the same enqueue quota formula; during allocate it limits tasks by realCapability-allocated and uses Queue.spec.deserved for ordering/share''
         else if base = ''proportion'' then
           ''proportion uses this formula for enqueue; during allocate it computes fair-share deserved and limits tasks by deserved-allocated''
         else ''no proportion or capacity JobEnqueueable rule is configured'')"

section \<open>The quota check\<close>

definition capacity_step ::
  "string \<times> queue_resource_value \<Rightarrow> string list \<times> string list \<Rightarrow> string list \<times> string list" where
  "capacity_step e st =
     (let (name, value) = e; (missing, uncertain) = st
      in case rv_candidate value of
           None \<Rightarrow> st
         | Some candidate \<Rightarrow>
             if f_le candidate f_zero then st
             else (case rv_available value of
                 None \<Rightarrow> (missing @ [name], uncertain)
               | Some available \<Rightarrow>
                   if f_lt available candidate then
                     (missing, uncertain @ [name @ '' candidate '' @ fmt_f 3 candidate @
                        '' > conservative available '' @ fmt_f 3 available])
                   else st))"

definition text_snapshot_unavailable :: string where
  "text_snapshot_unavailable = ''the local scheduler cache snapshot was unavailable: ''"

definition text_config_unparsed :: string where
  "text_config_unparsed = ''the scheduler ConfigMap could not be parsed deterministically, so the active queue plugin cannot be selected''"

definition text_no_strategy :: string where
  "text_no_strategy = ''neither proportion nor capacity is enabled in the scheduler plugin tiers''"

definition text_missing_dimensions :: string where
  "text_missing_dimensions = ''local cache reconstruction is missing candidate dimensions: ''"

definition text_need_exceeds :: string where
  "text_need_exceeds = ''; need=MinReq+allocated+inqueue-elastic exceeds realCapability''"

definition text_need_fits :: string where
  "text_need_fits = ''need=MinReq+allocated+inqueue-elastic is <= realCapability in every requested dimension''"

definition queueCapacityCheck :: "queue_summary \<Rightarrow> go_error option \<Rightarrow> bool \<Rightarrow> check" where
  "queueCapacityCheck queue snapshotErr configurationDeterminate =
     (let strategy = queueBaseStrategy (qm_strategy queue);
          sources = queueStrategySources strategy;
          checkName = (if strategy \<noteq> '''' then strategy @ '' JobEnqueueable quota formula''
            else ''Queue JobEnqueueable quota formula'')
      in case snapshotErr of
           Some e \<Rightarrow> Unknown ''queue.enqueue-capacity'' ''enqueue'' checkName
             (text_snapshot_unavailable @ err_text e) (EvQueueResources (qm_resources queue)) sources
         | None \<Rightarrow>
             if \<not> configurationDeterminate then
               Unknown ''queue.enqueue-capacity'' ''enqueue'' checkName text_config_unparsed
                 (EvQueueResources (qm_resources queue)) sources
             else if strategy = '''' then
               Skipped ''queue.enqueue-capacity'' ''enqueue'' checkName text_no_strategy sources
             else (let (missing, uncertain) = fold capacity_step (qm_resources queue) ([], [])
                   in if missing \<noteq> [] then
                        Unknown ''queue.enqueue-capacity'' ''enqueue'' checkName
                          (text_missing_dimensions @ join (sort_strings missing) '', '')
                          (EvQueueResources (qm_resources queue)) sources
                      else if uncertain \<noteq> [] then
                        Known ''queue.enqueue-capacity'' ''enqueue'' checkName False
                          (join (sort_strings uncertain) ''; '' @ text_need_exceeds) sources
                      else Known ''queue.enqueue-capacity'' ''enqueue'' checkName True text_need_fits sources))"

section \<open>PodGroup rows\<close>

text \<open>
  \<open>time.Time\<close> in UTC by \<open>time.RFC3339\<close>, from the nanoseconds since 1 January of year 1: the day
  number is turned into a date in 400-year eras that start on 1 March.
\<close>

definition civil_date :: "int \<Rightarrow> int \<times> int \<times> int" where
  "civil_date days =
     (let z = days + 306; era = z div 146097; doe = z mod 146097;
          yoe = (doe - doe div 1460 + doe div 36524 - doe div 146096) div 365;
          doy = doe - (365 * yoe + yoe div 4 - yoe div 100);
          mp = (5 * doy + 2) div 153;
          d = doy - (153 * mp + 2) div 5 + 1;
          m = (if mp < 10 then mp + 3 else mp - 9)
      in (yoe + era * 400 + (if m \<le> 2 then 1 else 0), m, d))"

definition rfc3339 :: "gotime \<Rightarrow> string" where
  "rfc3339 t =
     (let seconds = t div 1000000000; days = seconds div 86400; sod = seconds mod 86400;
          (y, m, d) = civil_date days; two = (\<lambda>n. pad_left 2 (dec_str n))
      in pad_left 4 (dec_str y) @ ''-'' @ two m @ ''-'' @ two d @ ''T'' @ two (sod div 3600) @ '':'' @
         two (sod div 60 mod 60) @ '':'' @ two (sod mod 60) @ ''Z'')"

text \<open>
  \<open>now.Sub(t).Seconds()\<close> cut to an integer: \<open>Sub\<close> saturates at the ends of int64, and \<open>Seconds\<close> adds
  the whole seconds and the fraction in floating point.
\<close>

definition age_seconds :: "gotime \<Rightarrow> gotime \<Rightarrow> int" where
  "age_seconds now t =
     (let d = max (- (2 ^ 63)) (min (2 ^ 63 - 1) (now - t));
          sec = sgn d * (\<bar>d\<bar> div 1000000000); nsec = sgn d * (\<bar>d\<bar> mod 1000000000);
          s = f_val (f_add (f_of_int sec) (f_div_const (f_of_int nsec) 1000000000))
      in max (if 0 \<le> s then \<lfloor>s\<rfloor> else \<lceil>s\<rceil>) 0)"

definition podGroupSummaries :: "gotime \<Rightarrow> pod_group list \<Rightarrow> pod_group \<Rightarrow> pod_group_summary list" where
  "podGroupSummaries now groups target =
     map (\<lambda>item.
       \<lparr>gs_namespace = pg_namespace item, gs_name = pg_name item,
        gs_target = (pg_namespace item = pg_namespace target \<and> pg_name item = pg_name target),
        gs_phase = pg_phase item, gs_priority_class = pg_priority_class item,
        gs_priority = pg_priority item,
        gs_created_at = (if pg_created item = 0 then '''' else rfc3339 (pg_created item)),
        gs_age_seconds = (if pg_created item = 0 then 0 else age_seconds now (pg_created item)),
        gs_min_member = pg_min_member item,
        gs_resources = resourceListValues_p (case pg_min_resources item of None \<Rightarrow> [] | Some l \<Rightarrow> l)\<rparr>) groups"


section \<open>The quota verdict\<close>

definition needs_quota :: "queue_resource_value \<Rightarrow> bool" where
  "needs_quota v = (case rv_candidate v of None \<Rightarrow> False | Some c \<Rightarrow> \<not> f_le c f_zero)"

definition quota_missing :: "queue_resource_value \<Rightarrow> bool" where
  "quota_missing v \<longleftrightarrow> needs_quota v \<and> rv_available v = None"

definition quota_exceeds :: "queue_resource_value \<Rightarrow> bool" where
  "quota_exceeds v \<longleftrightarrow> needs_quota v \<and>
     (case (rv_candidate v, rv_available v) of (Some c, Some a) \<Rightarrow> f_lt a c | _ \<Rightarrow> False)"

lemma capacity_step_eq:
  "capacity_step (name, value) (missing, uncertain) =
     (missing @ (if quota_missing value then [name] else []),
      uncertain @ (if quota_exceeds value then
        [name @ '' candidate '' @ fmt_f 3 (the (rv_candidate value)) @
         '' > conservative available '' @ fmt_f 3 (the (rv_available value))] else []))"
  by (cases "rv_candidate value"; cases "rv_available value")
     (auto simp: capacity_step_def quota_missing_def quota_exceeds_def needs_quota_def)

lemma capacity_fold_empty:
  "fst (fold capacity_step m (a, b)) = [] \<longleftrightarrow> a = [] \<and> list_all (\<lambda>(n, v). \<not> quota_missing v) m"
  "snd (fold capacity_step m (a, b)) = [] \<longleftrightarrow> b = [] \<and> list_all (\<lambda>(n, v). \<not> quota_exceeds v) m"
proof (induction m arbitrary: a b)
  case (Cons e m)
  obtain n v where e: "e = (n, v)" by force
  { case 1 show ?case by (simp add: e capacity_step_eq Cons.IH) }
  { case 2 show ?case by (simp add: e capacity_step_eq Cons.IH) }
qed simp_all

lemma capacityCheck_cases:
  "queueCapacityCheck queue err det =
     (let strategy = queueBaseStrategy (qm_strategy queue);
          f = fold capacity_step (qm_resources queue) ([], []);
          checkName = (if strategy \<noteq> '''' then strategy @ '' JobEnqueueable quota formula''
            else ''Queue JobEnqueueable quota formula'')
      in if err \<noteq> None then Unknown ''queue.enqueue-capacity'' ''enqueue'' checkName
             (text_snapshot_unavailable @ err_text (the err)) (EvQueueResources (qm_resources queue))
             (queueStrategySources strategy)
         else if \<not> det then Unknown ''queue.enqueue-capacity'' ''enqueue'' checkName text_config_unparsed
             (EvQueueResources (qm_resources queue)) (queueStrategySources strategy)
         else if strategy = '''' then Skipped ''queue.enqueue-capacity'' ''enqueue'' checkName text_no_strategy
             (queueStrategySources strategy)
         else if fst f \<noteq> [] then Unknown ''queue.enqueue-capacity'' ''enqueue'' checkName
             (text_missing_dimensions @ join (sort_strings (fst f)) '', '')
             (EvQueueResources (qm_resources queue)) (queueStrategySources strategy)
         else if snd f \<noteq> [] then Known ''queue.enqueue-capacity'' ''enqueue'' checkName False
             (join (sort_strings (snd f)) ''; '' @ text_need_exceeds) (queueStrategySources strategy)
         else Known ''queue.enqueue-capacity'' ''enqueue'' checkName True text_need_fits
             (queueStrategySources strategy))"
  by (cases err) (simp_all add: queueCapacityCheck_def Let_def case_prod_beta)

lemma queueCapacityCheck_verdict:
  "known_failure (queueCapacityCheck queue err det) \<longleftrightarrow>
     err = None \<and> det \<and> queueBaseStrategy (qm_strategy queue) \<noteq> ''''
     \<and> list_all (\<lambda>(n, v). \<not> quota_missing v) (qm_resources queue)
     \<and> list_ex (\<lambda>(n, v). quota_exceeds v) (qm_resources queue)"
  "chk_passed (queueCapacityCheck queue err det) \<longleftrightarrow>
     err = None \<and> det \<and> (queueBaseStrategy (qm_strategy queue) = ''''
     \<or> list_all (\<lambda>(n, v). \<not> quota_missing v \<and> \<not> quota_exceeds v) (qm_resources queue))"
  "check_wf (queueCapacityCheck queue err det)"
  "chk_id (queueCapacityCheck queue err det) = ''queue.enqueue-capacity''"
  "chk_stage (queueCapacityCheck queue err det) = ''enqueue''"
proof -
  have ex: "list_ex (\<lambda>(n, v). quota_exceeds v) m \<longleftrightarrow> \<not> list_all (\<lambda>(n, v). \<not> quota_exceeds v) m" for m
    by (induction m) auto
  have both: "list_all (\<lambda>(n, v). \<not> quota_missing v \<and> \<not> quota_exceeds v) m
    \<longleftrightarrow> list_all (\<lambda>(n, v). \<not> quota_missing v) m \<and> list_all (\<lambda>(n, v). \<not> quota_exceeds v) m" for m
    by (induction m) auto
  show "known_failure (queueCapacityCheck queue err det) \<longleftrightarrow>
     err = None \<and> det \<and> queueBaseStrategy (qm_strategy queue) \<noteq> ''''
     \<and> list_all (\<lambda>(n, v). \<not> quota_missing v) (qm_resources queue)
     \<and> list_ex (\<lambda>(n, v). quota_exceeds v) (qm_resources queue)"
    unfolding ex by (simp add: capacityCheck_cases Let_def capacity_fold_empty)
  show "chk_passed (queueCapacityCheck queue err det) \<longleftrightarrow>
     err = None \<and> det \<and> (queueBaseStrategy (qm_strategy queue) = ''''
     \<or> list_all (\<lambda>(n, v). \<not> quota_missing v \<and> \<not> quota_exceeds v) (qm_resources queue))"
    unfolding both by (simp add: capacityCheck_cases Let_def capacity_fold_empty)
  show "check_wf (queueCapacityCheck queue err det)"
    "chk_id (queueCapacityCheck queue err det) = ''queue.enqueue-capacity''"
    "chk_stage (queueCapacityCheck queue err det) = ''enqueue''"
    by (simp_all add: capacityCheck_cases Let_def)
qed

section \<open>The table entry by entry\<close>

lemma list_values_ok: "gm_ok (fst st) \<Longrightarrow> gm_ok (fst (fold list_value_step l st))"
proof (induction l arbitrary: st)
  case (Cons e l)
  obtain n q r b where "e = (n, q)" "st = (r, b)" by (metis prod.collapse)
  with Cons.prems have "gm_ok (fst (list_value_step e st))" by (simp add: list_value_step_def Let_def)
  from Cons.IH [OF this] show ?case by simp
qed simp

lemma gm_ok_resourceListValues_p [simp]: "gm_ok (resourceListValues_p l)"
  unfolding resourceListValues_p_def by (rule list_values_ok) simp

definition with_candidate :: "f64 \<Rightarrow> queue_resource_value \<Rightarrow> queue_resource_value" where
  "with_candidate candidate old =
     (let value = old\<lparr>rv_candidate := Some candidate\<rparr>
      in case (rv_capability value, rv_allocated value, rv_inqueue value) of
           (Some capability, Some allocated, Some inqueue) \<Rightarrow>
             (let available = f_sub (f_sub capability allocated) inqueue;
                  required = f_add (f_add candidate allocated) inqueue
              in case rv_elastic value of
                   None \<Rightarrow> value\<lparr>rv_available := Some available, rv_required := Some required\<rparr>
                 | Some elastic \<Rightarrow> value\<lparr>rv_available := Some (f_add available elastic),
                     rv_required := Some (f_sub required elastic)\<rparr>)
         | _ \<Rightarrow> value)"

lemma candidate_step_eq:
  "candidate_step (k, c) m = gm_set k (with_candidate c (gm_or empty_queue_value m k)) m"
  by (simp add: candidate_step_def with_candidate_def Let_def)

interpretation candidate_loop: pointwise_loop candidate_step
    "\<lambda>k c old. Some (with_candidate c (case old of None \<Rightarrow> empty_queue_value | Some v \<Rightarrow> v))"
  by unfold_locales (simp_all add: candidate_step_eq gm_or_def)

definition table_entry :: "queue_snapshot_resource \<Rightarrow> queue_resource_value" where
  "table_entry v = mergeQueueResourceValue empty_queue_value (fill_zero v)"

text \<open>A snapshot names its resources canonically, so each one has a row of its own.\<close>

lemma table_fold:
  assumes "distinct names" and "\<forall>n \<in> set names. canonicalResourceName n = n \<and> gm_has resources n"
    and "\<forall>n \<in> set names. gm_get acc n = None"
  shows "gm_get (fold (table_step resources) names acc) k =
    (if k \<in> set names then map_option table_entry (gm_get resources k) else gm_get acc k)"
  using assms
proof (induction names arbitrary: acc)
  case (Cons n names)
  let ?acc = "table_step resources n acc"
  obtain v where v: "gm_get resources n = Some v" using Cons.prems(2) by (auto simp: gm_has_def)
  have acc: "gm_get ?acc k' = (if k' = n then Some (table_entry v) else gm_get acc k')" for k'
    using Cons.prems(2,3) v by (simp add: table_step_def Let_def table_entry_def gm_or_def)
  have "\<forall>x \<in> set names. gm_get ?acc x = None" using Cons.prems(1,3) by (auto simp: acc)
  from Cons.IH [OF _ _ this] Cons.prems(1,2)
  have "gm_get (fold (table_step resources) names ?acc) k =
    (if k \<in> set names then map_option table_entry (gm_get resources k) else gm_get ?acc k)" by simp
  then show ?case using Cons.prems(1) v by (auto simp: acc)
qed simp

lemma table_get:
  assumes "gm_ok resources" and "list_all (\<lambda>n. canonicalResourceName n = n) (gm_keys resources)"
  shows "gm_get (fold (table_step resources) (table_names resources) []) k
    = map_option table_entry (gm_get resources k)"
proof -
  have "distinct (table_names resources)" "set (table_names resources) = set (gm_keys resources)"
    using assms(1) by (simp_all add: table_names_def sort_strings_def gm_ok_def gm_keys_def)
  with table_fold [of "table_names resources" resources "[]" k] assms(2)
  have "gm_get (fold (table_step resources) (table_names resources) []) k
     = (if k \<in> set (gm_keys resources) then map_option table_entry (gm_get resources k) else None)"
    by (simp add: list_all_iff gm_has_keys)
  then show ?thesis by (auto simp: gm_get_None_keys [symmetric])
qed

lemma queueResourceValues_get:
  assumes "gm_ok (qs_resources snapshot)"
    and "list_all (\<lambda>n. canonicalResourceName n = n) (gm_keys (qs_resources snapshot))"
    and "pg_min_resources podGroup = Some l" and "gm_get (resourceListValues_p l) k = Some m"
  shows "gm_get (queueResourceValues snapshot podGroup) k = Some (with_candidate m
    (case gm_get (qs_resources snapshot) k of None \<Rightarrow> empty_queue_value | Some v \<Rightarrow> table_entry v))"
  using assms(3,4) candidate_loop.loop_get [OF gm_ok_resourceListValues_p [of l]] table_get [OF assms(1,2), of k]
  by (cases "gm_get (qs_resources snapshot) k") (simp_all add: queueResourceValues_def Let_def)


section \<open>Exact amounts\<close>

lemma fill_zero_cap:
  assumes "qr_capability v = Some c"
  shows "rv_capability (table_entry v) = Some c"
    "rv_allocated (table_entry v) = Some (f_or0 (qr_allocated v))"
    "rv_inqueue (table_entry v) = Some (f_or0 (qr_inqueue v))"
    "rv_elastic (table_entry v) = Some (f_or0 (qr_elastic v))"
  using assms
  by (auto simp: table_entry_def fill_zero_def mergeQueueResourceValue_def or_zero_def f_or0_def
      empty_queue_value_def split: option.splits)

lemma with_candidate_full:
  assumes "rv_capability v = Some c" "rv_allocated v = Some a" "rv_inqueue v = Some i" "rv_elastic v = Some e"
  shows "rv_candidate (with_candidate m v) = Some m"
    "rv_available (with_candidate m v) = Some (f_add (f_sub (f_sub c a) i) e)"
    "rv_required (with_candidate m v) = Some (f_sub (f_add (f_add m a) i) e)"
  using assms by (simp_all add: with_candidate_def Let_def)

lemma with_candidate_exact:
  assumes "qr_capability v = Some (Fin (of_int c))" and "is_int (qr_allocated v) a" and "is_int (qr_inqueue v) i"
    and "is_int (qr_elastic v) e" and "list_all (\<lambda>n. 0 \<le> n \<and> n \<le> 2 ^ 51) [c, a, i, e, m]"
  shows "rv_required (with_candidate (Fin (of_int m)) (table_entry v)) = Some (Fin (of_int (m + a + i - e)))
    \<and> (quota_exceeds (with_candidate (Fin (of_int m)) (table_entry v)) \<longleftrightarrow> 0 < m \<and> c < m + a + i - e)
    \<and> \<not> quota_missing (with_candidate (Fin (of_int m)) (table_entry v))"
proof -
  note full = with_candidate_full [of "table_entry v" "Fin (of_int c)" "Fin (of_int a)" "Fin (of_int i)"
      "Fin (of_int e)" "Fin (of_int m)"]
  have w: "rv_capability (table_entry v) = Some (Fin (of_int c))" "rv_allocated (table_entry v) = Some (Fin (of_int a))"
    "rv_inqueue (table_entry v) = Some (Fin (of_int i))" "rv_elastic (table_entry v) = Some (Fin (of_int e))"
    using fill_zero_cap [OF assms(1)] assms(1-4) by (simp_all add: is_int_def)
  have b: "\<bar>c - a\<bar> \<le> 2 ^ 53" "\<bar>c - a - i\<bar> \<le> 2 ^ 53" "\<bar>c - a - i + e\<bar> \<le> 2 ^ 53"
    "\<bar>m + a\<bar> \<le> 2 ^ 53" "\<bar>m + a + i\<bar> \<le> 2 ^ 53" "\<bar>m + a + i - e\<bar> \<le> 2 ^ 53"
    using assms(5) by (auto simp: abs_le_iff)
  have avail: "f_add (f_sub (f_sub (Fin (of_int c)) (Fin (of_int a))) (Fin (of_int i))) (Fin (of_int e))
      = Fin (of_int (c - a - i + e))"
    using f_sub_of_int [OF b(1)] f_sub_of_int [OF b(2)] f_add_of_int [OF b(3)] by simp
  have req: "f_sub (f_add (f_add (Fin (of_int m)) (Fin (of_int a))) (Fin (of_int i))) (Fin (of_int e))
      = Fin (of_int (m + a + i - e))"
    using f_add_of_int [OF b(4)] f_add_of_int [OF b(5)] f_sub_of_int [OF b(6)] by simp
  have lt: "f_lt (Fin (of_int (c - a - i + e))) (Fin (of_int m)) \<longleftrightarrow> c < m + a + i - e"
    unfolding f_lt.simps of_int_less_iff by linarith
  have z: "f_le (Fin (of_int m)) f_zero \<longleftrightarrow> m \<le> 0"
    by (simp only: f_le_Fin of_int_le_0_iff)
  show ?thesis
    unfolding quota_exceeds_def quota_missing_def needs_quota_def full(1) [OF w] full(2) [OF w] full(3) [OF w]
      avail req prod.case option.case lt z by auto
qed

section \<open>The strategy\<close>

definition strategy_enabled :: "scheduler_policy \<Rightarrow> string \<Rightarrow> bool" where
  "strategy_enabled policy n = list_ex (\<lambda>tier. list_ex (\<lambda>p. to_lower (pl_name p) = n
     \<and> gm_get (pl_options p) ''enableJobEnqueued'' \<noteq> Some False) (ti_plugins tier)) (po_tiers policy)"

definition strategy_configured :: "scheduler_policy \<Rightarrow> bool" where
  "strategy_configured policy = list_ex (\<lambda>tier. list_ex (\<lambda>p. to_lower (pl_name p) = ''proportion''
     \<or> to_lower (pl_name p) = ''capacity'') (ti_plugins tier)) (po_tiers policy)"

lemma strategy_step_eq:
  "strategy_step p (m, c) =
     (if (to_lower (pl_name p) = ''proportion'' \<or> to_lower (pl_name p) = ''capacity'')
        \<and> gm_get (pl_options p) ''enableJobEnqueued'' \<noteq> Some False
      then gm_set (to_lower (pl_name p)) True m else m,
      c \<or> to_lower (pl_name p) = ''proportion'' \<or> to_lower (pl_name p) = ''capacity'')"
  by (auto simp: strategy_step_def Let_def)

lemma strategy_fold:
  assumes "gm_ok (fst st)"
  shows "gm_ok (fst (fold strategy_step ps st))
    \<and> set (gm_keys (fst (fold strategy_step ps st))) = set (gm_keys (fst st)) \<union>
       {n \<in> {''proportion'', ''capacity''}. list_ex (\<lambda>p. to_lower (pl_name p) = n
         \<and> gm_get (pl_options p) ''enableJobEnqueued'' \<noteq> Some False) ps}
    \<and> snd (fold strategy_step ps st) = (snd st \<or> list_ex (\<lambda>p. to_lower (pl_name p) = ''proportion''
     \<or> to_lower (pl_name p) = ''capacity'') ps)"
  using assms
proof (induction ps arbitrary: st)
  case (Cons p ps)
  obtain m c where st: "st = (m, c)" by force
  have ok: "gm_ok (fst (strategy_step p st))" using Cons.prems by (simp add: st strategy_step_eq)
  show ?case using Cons.IH [OF ok] by (auto simp: st strategy_step_eq gm_keys_set)
qed simp

lemma strategy_tiers:
  assumes "gm_ok (fst st)"
  shows "gm_ok (fst (fold (\<lambda>tier st. fold strategy_step (ti_plugins tier) st) ts st))
    \<and> set (gm_keys (fst (fold (\<lambda>tier st. fold strategy_step (ti_plugins tier) st) ts st))) = set (gm_keys (fst st)) \<union>
       {n \<in> {''proportion'', ''capacity''}. list_ex (\<lambda>tier. list_ex (\<lambda>p. to_lower (pl_name p) = n
         \<and> gm_get (pl_options p) ''enableJobEnqueued'' \<noteq> Some False) (ti_plugins tier)) ts}
    \<and> snd (fold (\<lambda>tier st. fold strategy_step (ti_plugins tier) st) ts st)
      = (snd st \<or> list_ex (\<lambda>tier. list_ex (\<lambda>p. to_lower (pl_name p) = ''proportion''
        \<or> to_lower (pl_name p) = ''capacity'') (ti_plugins tier)) ts)"
  using assms
proof (induction ts arbitrary: st)
  case (Cons t ts)
  note one = strategy_fold [OF Cons.prems, of "ti_plugins t"]
  from Cons.IH [of "fold strategy_step (ti_plugins t) st"] one show ?case by auto
qed simp

lemma sorted_pair:
  "distinct xs \<Longrightarrow> set xs = {''proportion'', ''capacity''} \<Longrightarrow> sort_strings xs = [''capacity'', ''proportion'']"
  "distinct xs \<Longrightarrow> set xs = {x} \<Longrightarrow> sort_strings xs = [x]"
proof -
  have m: "distinct xs \<Longrightarrow> set xs = set ys \<Longrightarrow> distinct ys \<Longrightarrow> sorted ys \<Longrightarrow> sort_strings xs = ys" for ys
    using sort_strings_cong [of xs ys] set_eq_iff_mset_eq_distinct [of xs ys]
    by (simp add: sort_strings_def sorted_sort_id)
  show "distinct xs \<Longrightarrow> set xs = {''proportion'', ''capacity''} \<Longrightarrow> sort_strings xs = [''capacity'', ''proportion'']"
    by (rule m) (auto simp: less_char_def)
  show "distinct xs \<Longrightarrow> set xs = {x} \<Longrightarrow> sort_strings xs = [x]"
    by (rule m) auto
qed

lemma queueStrategy_eq:
  "queueStrategy policy =
     (if strategy_enabled policy ''capacity'' then
        (if strategy_enabled policy ''proportion'' then ''capacity + proportion'' else ''capacity'')
      else if strategy_enabled policy ''proportion'' then ''proportion''
      else if strategy_configured policy then ''disabled'' else '''')"
proof -
  define r where "r = fold (\<lambda>tier st. fold strategy_step (ti_plugins tier) st) (po_tiers policy) ([], False)"
  have q: "queueStrategy policy = (let strategy = join (sort_strings (gm_keys (fst r))) '' + ''
      in if strategy = '''' \<and> snd r then ''disabled'' else strategy)"
    by (simp add: queueStrategy_def r_def case_prod_beta)
  have k: "distinct (gm_keys (fst r))" "snd r = strategy_configured policy"
    "set (gm_keys (fst r)) = {n \<in> {''proportion'', ''capacity''}. strategy_enabled policy n}"
    using strategy_tiers [of "([], False)" "po_tiers policy"]
    by (simp_all add: r_def [symmetric] gm_ok_def gm_keys_def strategy_configured_def strategy_enabled_def)
  consider "strategy_enabled policy ''capacity''" "strategy_enabled policy ''proportion''"
    | "strategy_enabled policy ''capacity''" "\<not> strategy_enabled policy ''proportion''"
    | "\<not> strategy_enabled policy ''capacity''" "strategy_enabled policy ''proportion''"
    | "\<not> strategy_enabled policy ''capacity''" "\<not> strategy_enabled policy ''proportion''" by blast
  then show ?thesis
  proof cases
    case 1
    then have "set (gm_keys (fst r)) = {''proportion'', ''capacity''}" using k(3) by auto
    from sorted_pair(1) [OF k(1) this] 1 show ?thesis by (simp add: q)
  next
    case 2
    then have "set (gm_keys (fst r)) = {''capacity''}" using k(3) by auto
    from sorted_pair(2) [OF k(1) this] 2 show ?thesis by (simp add: q)
  next
    case 3
    then have "set (gm_keys (fst r)) = {''proportion''}" using k(3) by auto
    from sorted_pair(2) [OF k(1) this] 3 show ?thesis by (simp add: q)
  next
    case 4
    then have "set (gm_keys (fst r)) = {}" using k(3) by auto
    with 4 k(2) show ?thesis by (simp add: q sort_strings_def)
  qed
qed

lemma queueBaseStrategy_queueStrategy:
  "queueBaseStrategy (queueStrategy policy) =
     (if strategy_enabled policy ''capacity'' then ''capacity''
      else if strategy_enabled policy ''proportion'' then ''proportion'' else '''')"
  by (auto simp: queueStrategy_eq queueBaseStrategy_def)


section \<open>Properties\<close>

text \<open>The queue strategy is read off the configured tiers by an order-independent set and decides
  the formula: capacity when an enabled capacity plugin is configured anywhere, else proportion
  when an enabled one is, else none; a plugin counts unless \<open>enableJobEnqueued\<close> is set to false, and
  only plugins that are all off give \<open>disabled\<close>.\<close>

theorem queue_strategy_selected:
  "queueBaseStrategy (queueStrategy policy) =
     (if strategy_enabled policy ''capacity'' then ''capacity''
      else if strategy_enabled policy ''proportion'' then ''proportion'' else '''')
   \<and> (queueStrategy policy = ''disabled'' \<longleftrightarrow> strategy_configured policy
       \<and> \<not> strategy_enabled policy ''capacity'' \<and> \<not> strategy_enabled policy ''proportion'')"
  by (rule conjI, rule queueBaseStrategy_queueStrategy) (auto simp: queueStrategy_eq)

text \<open>C14: the quota check is a definite failure exactly when the snapshot and the configuration were
  read, a strategy is on, every requested dimension has an available amount, and some candidate is
  above it; it passes exactly when no strategy is on or every candidate fits. Neither depends on the
  order of the table.\<close>

theorem quota_check_verdict:
  "(known_failure (queueCapacityCheck queue err det) \<longleftrightarrow>
     err = None \<and> det \<and> queueBaseStrategy (qm_strategy queue) \<noteq> ''''
     \<and> list_all (\<lambda>(n, v). \<not> quota_missing v) (qm_resources queue)
     \<and> list_ex (\<lambda>(n, v). quota_exceeds v) (qm_resources queue))
   \<and> (chk_passed (queueCapacityCheck queue err det) \<longleftrightarrow>
     err = None \<and> det \<and> (queueBaseStrategy (qm_strategy queue) = ''''
     \<or> list_all (\<lambda>(n, v). \<not> quota_missing v \<and> \<not> quota_exceeds v) (qm_resources queue)))"
  by (rule conjI [OF queueCapacityCheck_verdict(1,2)])

text \<open>C8: on whole amounts of at most 2 to the 51 the row of a requested resource carries the enqueue
  formula of Volcano exactly: need is the candidate plus what is allocated and inqueue minus what is
  elastic, and the row exceeds its quota exactly when need is above the capability.\<close>

theorem quota_formula_exact:
  assumes "gm_ok (qs_resources snapshot)"
    and "list_all (\<lambda>n. canonicalResourceName n = n) (gm_keys (qs_resources snapshot))"
    and "pg_min_resources podGroup = Some l"
    and "gm_get (resourceListValues_p l) k = Some (Fin (of_int m))"
    and "gm_get (qs_resources snapshot) k = Some v"
    and "qr_capability v = Some (Fin (of_int c))"
    and "is_int (qr_allocated v) a" and "is_int (qr_inqueue v) i" and "is_int (qr_elastic v) e"
    and "list_all (\<lambda>n. 0 \<le> n \<and> n \<le> 2 ^ 51) [c, a, i, e, m]"
  shows "case gm_get (queueResourceValues snapshot podGroup) k of
      None \<Rightarrow> False
    | Some row \<Rightarrow> rv_required row = Some (Fin (of_int (m + a + i - e)))
        \<and> (quota_exceeds row \<longleftrightarrow> 0 < m \<and> c < m + a + i - e) \<and> \<not> quota_missing row"
  using queueResourceValues_get [OF assms(1-4)] with_candidate_exact [OF assms(6-10)] assms(5)
  by simp

definition sample_memory :: "int \<Rightarrow> resource_list" where
  "sample_memory n = [(''memory'', \<lparr>q_value = n, q_milli = 1000 * n, q_is_zero = False\<rparr>)]"

definition sample_quota :: queue_snapshot where
  "sample_quota = empty_queue_snapshot\<lparr>qs_resources :=
     [(''memory'', empty_snapshot_resource\<lparr>qr_capability := Some (Fin 10), qr_allocated := Some (Fin 4),
        qr_inqueue := Some (Fin 3)\<rparr>)]\<rparr>"

theorem quota_formula_exact_witness:
  "case gm_get (queueResourceValues sample_quota (empty_pod_group\<lparr>pg_min_resources := Some (sample_memory 5)\<rparr>)) ''memory'' of
     None \<Rightarrow> False | Some row \<Rightarrow> rv_required row = Some (Fin 12) \<and> quota_exceeds row"
proof -
  define g where "g = empty_pod_group\<lparr>pg_min_resources := Some (sample_memory 5)\<rparr>"
  have l: "gm_get (resourceListValues_p (sample_memory 5)) ''memory'' = Some (Fin (of_int 5))" by code_simp
  have c: "list_all (\<lambda>n. canonicalResourceName n = n) (gm_keys (qs_resources sample_quota))" by code_simp
  have ok: "gm_ok (qs_resources sample_quota)" by (simp add: sample_quota_def gm_ok_def)
  have g: "pg_min_resources g = Some (sample_memory 5)" by (simp add: g_def)
  have v: "gm_get (qs_resources sample_quota) ''memory'' = Some (empty_snapshot_resource
      \<lparr>qr_capability := Some (Fin 10), qr_allocated := Some (Fin 4), qr_inqueue := Some (Fin 3)\<rparr>)"
    by (simp add: sample_quota_def gm_get_def)
  from quota_formula_exact [OF ok c g l v, of 10 4 3 0]
  have "case gm_get (queueResourceValues sample_quota g) ''memory'' of
     None \<Rightarrow> False | Some row \<Rightarrow> rv_required row = Some (Fin 12) \<and> quota_exceeds row"
    by (cases "gm_get (queueResourceValues sample_quota g) ''memory''")
       (simp_all add: is_int_def empty_snapshot_resource_def)
  then show ?thesis by (simp only: g_def)
qed

definition init_pod :: pod where
  "init_pod = empty_pod\<lparr>pod_containers := [empty_container\<lparr>ct_requests := sample_memory 4\<rparr>],
     pod_init_containers := [empty_container\<lparr>ct_requests := sample_memory 3\<rparr>]\<rparr>"

text \<open>The Pod total shown in the workload table is not the request the filter compares: with an
  init container of 3 beside a container of 4, the table says 7 where Kubernetes and the filter
  take the maximum, 4.\<close>

theorem shown_total_adds_init:
  "gm_get (podResourceValues init_pod) ''memory'' = Some (Fin 7)
   \<and> gm_get (podRequests init_pod) ''memory'' = Some (Fin 4)"
  by code_simp

end
