(* ===== verification/Presentation_Hooks.thy ===== *)
theory Presentation_Hooks
  imports Presentation_Checks
begin

text \<open>
  How \<open>internal/agent/presentation.go\<close> turns the hook inventory into checks, and what it makes of
  the node checks of the predicates plugin: whether the plugin is active, whether each optional
  predicate is switched on, and the verdict that is left of a local projection. Facts: a hook check
  never fails unless its report does; a policy that is not proven active leaves no node check that
  was skipped turned into a failure, and keeps every definite result.
\<close>

section \<open>Hook checks\<close>

text \<open>\<open>fmt.Sprintf("plugin.%s.t%d-p%d.%s", ...)\<close> and the display name.\<close>

definition hook_check_id :: "plugin_hook_report \<Rightarrow> string" where
  "hook_check_id hook =
     ''plugin.'' @ plugin_identifier (ph_plugin hook) @ ''.t'' @ fmt_d (ph_tier hook + 1) @ ''-p'' @
       fmt_d (ph_order hook + 1) @ ''.'' @ plugin_identifier (ph_hook hook)"

definition hook_check_name :: "plugin_hook_report \<Rightarrow> string" where
  "hook_check_name hook =
     ''T'' @ fmt_d (ph_tier hook + 1) @ ''.'' @ fmt_d (ph_order hook + 1) @ '' '' @ ph_plugin hook @
       '' '' @ trim_prefix (ph_hook hook) ''Add''"

definition hook_key :: "plugin_hook_report \<Rightarrow> string" where
  "hook_key hook =
     fmt_d (ph_tier hook) @ ''/'' @ fmt_d (ph_order hook) @ ''/'' @ ph_plugin hook @ ''/'' @ ph_hook hook"

definition hook_check :: "string \<Rightarrow> plugin_hook_report \<Rightarrow> check" where
  "hook_check stage hook =
     (if \<not> ph_enabled_determinate hook then
        Unknown (hook_check_id hook) stage (hook_check_name hook) (ph_reason hook) EvNil (ph_source hook)
      else if \<not> ph_enabled hook then
        Skipped (hook_check_id hook) stage (hook_check_name hook) (ph_reason hook) (ph_source hook)
      else if ph_determinate hook then
        Known (hook_check_id hook) stage (hook_check_name hook) (ph_passed hook) (ph_reason hook) (ph_source hook)
      else Unknown (hook_check_id hook) stage (hook_check_name hook) (ph_reason hook) EvNil (ph_source hook))"

text \<open>The maps of wanted actions and hooks only hold \<open>true\<close>: they are the lists of their keys.\<close>

definition hook_step ::
  "string list \<Rightarrow> string list \<Rightarrow> string \<Rightarrow> plugin_hook_report \<Rightarrow> check list \<times> string list
    \<Rightarrow> check list \<times> string list" where
  "hook_step actions wantedHooks stage hook st =
     (let (result, seen) = st
      in if ph_action hook \<notin> set actions \<or> ph_hook hook \<notin> set wantedHooks then st
         else if hook_key hook \<in> set seen then st
         else (result @ [hook_check stage hook], seen @ [hook_key hook]))"

definition pluginHookChecks ::
  "plugin_hook_report list \<Rightarrow> string list \<Rightarrow> string list \<Rightarrow> string \<Rightarrow> check list" where
  "pluginHookChecks hooks actions wantedHooks stage =
     fst (fold (hook_step actions wantedHooks stage) hooks ([], []))"

definition unmatched_key :: "plugin_hook_report \<Rightarrow> string" where
  "unmatched_key hook = fmt_d (ph_tier hook) @ ''/'' @ fmt_d (ph_order hook) @ ''/'' @ ph_plugin hook"

definition unmatched_check :: "string \<Rightarrow> string \<Rightarrow> plugin_hook_report \<Rightarrow> check" where
  "unmatched_check stage wantedHook hook =
     Unknown
       (''plugin.'' @ plugin_identifier (ph_plugin hook) @ ''.t'' @ fmt_d (ph_tier hook + 1) @ ''-p'' @
         fmt_d (ph_order hook + 1) @ ''.source-registration'')
       stage
       (''T'' @ fmt_d (ph_tier hook + 1) @ ''.'' @ fmt_d (ph_order hook + 1) @ '' '' @ ph_plugin hook @
         '' '' @ wantedHook @ '' registration'')
       (ph_reason hook @ ''; '' @ wantedHook @
         '' cannot be evaluated until the selected branch matches the configured plugin'')
       EvNil (ph_source hook)"

definition unmatched_step ::
  "string list \<Rightarrow> string \<Rightarrow> string \<Rightarrow> plugin_hook_report \<Rightarrow> check list \<times> string list
    \<Rightarrow> check list \<times> string list" where
  "unmatched_step actions stage wantedHook hook st =
     (let (result, seen) = st
      in if ph_action hook \<notin> set actions \<or> ph_hook hook \<noteq> ''source hook registration'' then st
         else if unmatched_key hook \<in> set seen then st
         else (result @ [unmatched_check stage wantedHook hook], seen @ [unmatched_key hook]))"

definition unmatchedPluginChecks ::
  "plugin_hook_report list \<Rightarrow> string list \<Rightarrow> string \<Rightarrow> string \<Rightarrow> check list" where
  "unmatchedPluginChecks hooks actions stage wantedHook =
     fst (fold (unmatched_step actions stage wantedHook) hooks ([], []))"

definition known_actions :: "string list" where
  "known_actions = [''enqueue'', ''allocate'', ''backfill'', ''preempt'', ''reclaim'', ''shuffle'']"

definition hookInventoryVerified :: "report \<Rightarrow> bool" where
  "hookInventoryVerified report =
     (if \<not> re_hooks_inspected report \<or> \<not> po_determinate (re_policy report) \<or> \<not> po_active (re_policy report)
      then False
      else list_all (\<lambda>action. action \<in> set known_actions) (po_actions (re_policy report)))"

definition hasHookPlugin :: "plugin_hook_report list \<Rightarrow> string \<Rightarrow> string \<Rightarrow> bool" where
  "hasHookPlugin hooks hookName pluginName =
     list_ex (\<lambda>hook. ph_hook hook = hookName \<and> equal_fold (ph_plugin hook) pluginName) hooks"

definition hasEnabledHookPlugin :: "plugin_hook_report list \<Rightarrow> string \<Rightarrow> string \<Rightarrow> bool" where
  "hasEnabledHookPlugin hooks hookName pluginName =
     list_ex (\<lambda>hook. ph_hook hook = hookName \<and> equal_fold (ph_plugin hook) pluginName
       \<and> ph_enabled_determinate hook \<and> ph_enabled hook) hooks"

definition policyHasAction :: "scheduler_policy \<Rightarrow> string \<Rightarrow> bool" where
  "policyHasAction policy wanted = list_ex (\<lambda>action. action = wanted) (po_actions policy)"

section \<open>The predicates plugin\<close>

datatype pluginActivation = ActivationUnknown | ActivationDisabled | ActivationEnabled

definition predicateCheckIDs :: "string list" where
  "predicateCheckIDs = [''node.selector'', ''node.affinity'', ''node.schedulable'', ''node.taints'',
     ''node.pod-count'', ''node.ports'', ''node.pod-affinity'', ''node.volume-limits'',
     ''node.volume-zone'', ''node.topology-spread'', ''node.proportional'']"

definition is_predicates :: "configured_plugin \<Rightarrow> bool" where
  "is_predicates plugin = equal_fold (pl_name plugin) ''predicates''"

definition predicate_hook :: "plugin_hook_report \<Rightarrow> bool" where
  "predicate_hook hook \<longleftrightarrow>
     \<not> (\<not> equal_fold (ph_plugin hook) ''predicates''
        \<or> ph_hook hook \<noteq> ''AddPrePredicateFn'' \<and> ph_hook hook \<noteq> ''AddPredicateFn''
        \<or> ph_action hook \<noteq> ''allocate'' \<and> ph_action hook \<noteq> ''backfill'')"

text \<open>The hook loop: found, unknown and disabled flags, with an early return on an enabled hook.\<close>

fun activation_loop ::
  "plugin_hook_report list \<Rightarrow> bool \<Rightarrow> bool \<Rightarrow> bool \<Rightarrow> pluginActivation \<times> string" where
  "activation_loop [] found unknown disabled =
     (if unknown then (ActivationUnknown,
        ''predicates enablement cannot be determined from the active ConfigMap and selected branch defaults'')
      else if found \<and> disabled then (ActivationDisabled,
        ''all discovered predicates hooks are disabled by the active plugin configuration'')
      else (ActivationUnknown, zh_no_registration))"
| "activation_loop (hook # hooks) found unknown disabled =
     (if \<not> predicate_hook hook then activation_loop hooks found unknown disabled
      else if \<not> ph_enabled_determinate hook then activation_loop hooks True True disabled
      else if ph_enabled hook then (ActivationEnabled, ph_reason hook)
      else activation_loop hooks True unknown True)"

definition text_predicates_not_configured :: string where
  "text_predicates_not_configured = ''predicates is not configured in the active scheduler plugin tiers''"

definition predicatesActivation :: "report \<Rightarrow> pluginActivation \<times> string" where
  "predicatesActivation report =
     (if \<not> po_active (re_policy report) then (ActivationUnknown, zh_not_proven_active)
      else if \<not> list_ex (\<lambda>tier. list_ex is_predicates (ti_plugins tier)) (po_tiers (re_policy report)) then
        (ActivationDisabled, text_predicates_not_configured)
      else if \<not> re_hooks_inspected report then (ActivationUnknown, zh_not_indexed)
      else activation_loop (re_plugin_hooks report) False False False)"

definition predicateArgumentByCheck :: "string gomap" where
  "predicateArgumentByCheck =
     [(''node.selector'', ''predicate.NodeAffinityEnable''),
      (''node.affinity'', ''predicate.NodeAffinityEnable''),
      (''node.taints'', ''predicate.TaintTolerationEnable''),
      (''node.ports'', ''predicate.NodePortsEnable''),
      (''node.pod-affinity'', ''predicate.PodAffinityEnable''),
      (''node.volume-limits'', ''predicate.NodeVolumeLimitsEnable''),
      (''node.volume-zone'', ''predicate.VolumeZoneEnable''),
      (''node.topology-spread'', ''predicate.PodTopologySpreadEnable''),
      (''node.proportional'', ''predicate.ProportionalEnable'')]"

definition containsValue :: "string list \<Rightarrow> string \<Rightarrow> bool" where
  "containsValue values wanted = list_ex (\<lambda>value. value = wanted) values"

text \<open>The plugin loop of \<open>predicateCheckActivation\<close>, over the plugins of all tiers in order.\<close>

fun switch_loop ::
  "report \<Rightarrow> string \<Rightarrow> configured_plugin list \<Rightarrow> bool \<Rightarrow> bool \<Rightarrow> bool \<Rightarrow> pluginActivation \<times> string" where
  "switch_loop report argument [] foundPlugin unknown disabled =
     (if \<not> foundPlugin then (ActivationDisabled, text_predicates_not_configured)
      else if unknown then
        (ActivationUnknown, ''the effective predicates argument '' @ argument @ '' is unknown'' @
          (if re_predicate_defaults_err report \<noteq> '''' then '': '' @ re_predicate_defaults_err report else ''''))
      else if disabled then
        (ActivationDisabled, ''ConfigMap or selected branch default sets '' @ argument @ ''=false'')
      else (ActivationUnknown, ''the effective predicates argument '' @ argument @ '' is unavailable''))"
| "switch_loop report argument (plugin # plugins) foundPlugin unknown disabled =
     (if \<not> is_predicates plugin then switch_loop report argument plugins foundPlugin unknown disabled
      else (case gm_get (pl_arguments plugin) argument of
          Some value \<Rightarrow>
            if value then (ActivationEnabled, ''ConfigMap explicitly sets '' @ argument @ ''=true'')
            else switch_loop report argument plugins True unknown True
        | None \<Rightarrow>
            if containsValue (pl_argument_keys plugin) argument then
              switch_loop report argument plugins True True disabled
            else (case gm_get (re_predicate_defaults report) argument of
                Some value \<Rightarrow>
                  if value then (ActivationEnabled, ''selected branch defaults '' @ argument @ ''=true'')
                  else switch_loop report argument plugins True unknown True
              | None \<Rightarrow> switch_loop report argument plugins True True disabled)))"

definition all_plugins :: "report \<Rightarrow> configured_plugin list" where
  "all_plugins report = concat (map ti_plugins (po_tiers (re_policy report)))"

definition predicateCheckActivation :: "report \<Rightarrow> string \<Rightarrow> pluginActivation \<times> string" where
  "predicateCheckActivation report checkID =
     (case gm_get predicateArgumentByCheck checkID of
        None \<Rightarrow> (ActivationEnabled, ''the predicates hook always runs this check when the plugin is enabled'')
      | Some argument \<Rightarrow> switch_loop report argument (all_plugins report) False False False)"

fun may_loop :: "report \<Rightarrow> string \<Rightarrow> configured_plugin list \<Rightarrow> bool" where
  "may_loop report argument [] = (gm_get (re_predicate_defaults report) argument = Some True)"
| "may_loop report argument (plugin # plugins) =
     (if \<not> is_predicates plugin then may_loop report argument plugins
      else (case gm_get (pl_arguments plugin) argument of
          Some value \<Rightarrow> value
        | None \<Rightarrow> if containsValue (pl_argument_keys plugin) argument then True
                  else may_loop report argument plugins))"

definition predicateMayBeEnabled :: "string \<Rightarrow> report \<Rightarrow> bool" where
  "predicateMayBeEnabled checkID report =
     (case gm_get predicateArgumentByCheck checkID of
        None \<Rightarrow> True
      | Some argument \<Rightarrow> may_loop report argument (all_plugins report))"

definition text_optional_predicate :: string where
  "text_optional_predicate = ''; this enabled optional predicate needs its branch-specific arguments and exact Session state''"

definition text_local_projection :: string where
  "text_local_projection = ''; local Kubernetes-visible projection, scheduler ConfigMap activation is not proven but this result is directly computed from Pod/Node objects''"

definition text_needs_session :: string where
  "text_needs_session = ''; local projection still needs scheduler Session evidence''"

definition normalize_check :: "report \<Rightarrow> pluginActivation \<Rightarrow> string \<Rightarrow> check \<Rightarrow> check" where
  "normalize_check report activation reason check =
     (if chk_id check \<notin> set predicateCheckIDs then check
      else (let (checkActivation, checkReason) =
                  (if activation = ActivationEnabled then predicateCheckActivation report (chk_id check)
                   else (activation, reason))
            in case checkActivation of
                 ActivationEnabled \<Rightarrow>
                   if chk_skipped check then
                     Unknown (chk_id check) ''allocate'' (chk_name check) (checkReason @ text_optional_predicate)
                       (chk_evidence check) (chk_source check)
                   else check
               | ActivationDisabled \<Rightarrow>
                   (Skipped (chk_id check) ''allocate'' (chk_name check) checkReason (chk_source check))
                     \<lparr>chk_evidence := chk_evidence check\<rparr>
               | ActivationUnknown \<Rightarrow>
                   if chk_skipped check \<and> \<not> predicateMayBeEnabled (chk_id check) report then check
                   else if chk_determinate check \<and> \<not> chk_skipped check then
                     check\<lparr>chk_reason := chk_reason check @ text_local_projection\<rparr>
                   else Unknown (chk_id check) ''allocate'' (chk_name check) (checkReason @ text_needs_session)
                     (chk_evidence check) (chk_source check)))"

definition normalizePredicateChecks ::
  "check list \<Rightarrow> report \<Rightarrow> pluginActivation \<Rightarrow> string \<Rightarrow> check list" where
  "normalizePredicateChecks checks report activation reason =
     map (normalize_check report activation reason) checks"


section \<open>Hook checks never fail on their own\<close>

lemma hook_check_fields [simp]:
  "chk_id (hook_check stage h) = hook_check_id h" "chk_stage (hook_check stage h) = stage"
  "check_wf (hook_check stage h)"
  by (simp_all add: hook_check_def)

lemma hook_check_failure:
  "known_failure (hook_check stage h) \<longleftrightarrow> ph_enabled_determinate h \<and> ph_enabled h \<and> ph_determinate h \<and> \<not> ph_passed h"
  by (auto simp: hook_check_def)

lemma hook_fold:
  "set (fst (fold (hook_step as ws stage) hooks (r, s))) \<subseteq> set r \<union> hook_check stage ` set hooks
   \<and> (\<forall>h \<in> set hooks. ph_action h \<in> set as \<and> ph_hook h \<in> set ws \<longrightarrow>
        hook_key h \<in> set (snd (fold (hook_step as ws stage) hooks (r, s))))
   \<and> set s \<subseteq> set (snd (fold (hook_step as ws stage) hooks (r, s)))"
proof (induction hooks arbitrary: r s)
  case (Cons h hooks)
  obtain r' s' where st: "hook_step as ws stage h (r, s) = (r', s')" by force
  then have "set r' \<subseteq> insert (hook_check stage h) (set r)" "set s \<subseteq> set s'"
    "ph_action h \<in> set as \<and> ph_hook h \<in> set ws \<longrightarrow> hook_key h \<in> set s'"
    by (auto simp: hook_step_def split: if_splits)
  with Cons.IH [of r' s'] show ?case by (simp add: st) blast
qed simp

lemma pluginHookChecks_set: "set (pluginHookChecks hooks as ws stage) \<subseteq> hook_check stage ` set hooks"
  using hook_fold [of as ws stage hooks "[]" "[]"] by (simp add: pluginHookChecks_def)

lemma pluginHookChecks_wf: "c \<in> set (pluginHookChecks hooks as ws stage) \<Longrightarrow> check_wf c \<and> chk_stage c = stage"
  using pluginHookChecks_set [of hooks as ws stage] by auto

lemma pluginHookChecks_no_failure:
  assumes "list_all (\<lambda>h. ph_determinate h \<longrightarrow> ph_passed h) hooks" and "c \<in> set (pluginHookChecks hooks as ws stage)"
  shows "\<not> known_failure c"
proof -
  obtain h where "h \<in> set hooks" "c = hook_check stage h"
    using pluginHookChecks_set [of hooks as ws stage] assms(2) by blast
  with assms(1) show ?thesis by (simp add: hook_check_failure list_all_iff)
qed

lemma unmatched_fold:
  "set (fst (fold (unmatched_step as stage w) hooks (r, s))) \<subseteq> set r \<union> unmatched_check stage w ` set hooks"
proof (induction hooks arbitrary: r s)
  case (Cons h hooks)
  obtain r' s' where st: "unmatched_step as stage w h (r, s) = (r', s')" by force
  then have "set r' \<subseteq> insert (unmatched_check stage w h) (set r)"
    by (auto simp: unmatched_step_def split: if_splits)
  with Cons.IH [of r' s'] show ?case by (simp add: st) blast
qed simp

lemma unmatchedPluginChecks_open:
  "c \<in> set (unmatchedPluginChecks hooks as stage w) \<Longrightarrow>
     check_wf c \<and> chk_stage c = stage \<and> \<not> chk_determinate c \<and> \<not> chk_skipped c"
  using unmatched_fold [of as stage w hooks "[]" "[]"]
  by (auto simp: unmatchedPluginChecks_def unmatched_check_def)

section \<open>Activation\<close>

lemma activation_loop_iff:
  "fst (activation_loop hooks f u d) = ActivationEnabled
     \<longleftrightarrow> list_ex (\<lambda>h. predicate_hook h \<and> ph_enabled_determinate h \<and> ph_enabled h) hooks"
  "fst (activation_loop hooks f u d) = ActivationDisabled
     \<longleftrightarrow> \<not> u \<and> \<not> list_ex (\<lambda>h. predicate_hook h \<and> (ph_enabled_determinate h \<longrightarrow> ph_enabled h)) hooks
       \<and> (f \<and> d \<or> list_ex predicate_hook hooks)"
proof (induction hooks arbitrary: f u d)
  case (Cons h hooks)
  { case 1 show ?case by (auto simp: Cons.IH) }
  { case 2 show ?case by (auto simp: Cons.IH) }
qed auto

text \<open>What one configured predicates plugin says about a switch: a value, or nothing for certain.\<close>

definition effective_argument :: "report \<Rightarrow> string \<Rightarrow> configured_plugin \<Rightarrow> bool option" where
  "effective_argument report argument plugin =
     (case gm_get (pl_arguments plugin) argument of
        Some value \<Rightarrow> Some value
      | None \<Rightarrow> if argument \<in> set (pl_argument_keys plugin) then None
                else gm_get (re_predicate_defaults report) argument)"

lemma containsValue_iff: "containsValue xs x \<longleftrightarrow> x \<in> set xs"
  by (auto simp: containsValue_def list_ex_iff)

lemma switch_step:
  "switch_loop report argument (p # ps) f u d =
     (if \<not> is_predicates p then switch_loop report argument ps f u d
      else (case effective_argument report argument p of
          None \<Rightarrow> switch_loop report argument ps True True d
        | Some False \<Rightarrow> switch_loop report argument ps True u True
        | Some True \<Rightarrow> (ActivationEnabled, (if gm_get (pl_arguments p) argument = Some True
            then ''ConfigMap explicitly sets '' @ argument @ ''=true''
            else ''selected branch defaults '' @ argument @ ''=true''))))"
  by (simp add: effective_argument_def containsValue_iff split: option.split bool.split)

lemma switch_loop_iff:
  "fst (switch_loop report argument ps f u d) = ActivationEnabled
     \<longleftrightarrow> list_ex (\<lambda>p. is_predicates p \<and> effective_argument report argument p = Some True) ps"
  "fst (switch_loop report argument ps f u d) = ActivationDisabled
     \<longleftrightarrow> list_all (\<lambda>p. is_predicates p \<longrightarrow> effective_argument report argument p = Some False) ps
       \<and> (f \<or> list_ex is_predicates ps \<longrightarrow> \<not> u) \<and> (f \<and> \<not> list_ex is_predicates ps \<longrightarrow> d)"
proof (induction ps arbitrary: f u d)
  case (Cons p ps)
  { case 1 show ?case
      by (cases "effective_argument report argument p")
         (auto simp: switch_step Cons.IH simp del: switch_loop.simps split: bool.split) }
  { case 2 show ?case
      by (cases "effective_argument report argument p")
         (auto simp: switch_step Cons.IH simp del: switch_loop.simps split: bool.split) }
qed auto

section \<open>The projection of a predicate check\<close>

lemma normalize_check_id [simp]: "chk_id (normalize_check report a reason c) = chk_id c"
  by (auto simp: normalize_check_def Let_def case_prod_beta split: pluginActivation.splits)

lemma normalize_check_wf: "check_wf c \<Longrightarrow> check_wf (normalize_check report a reason c)"
  by (auto simp: normalize_check_def Let_def case_prod_beta split: pluginActivation.splits)

lemma normalize_check_failure:
  "known_failure (normalize_check report a reason c) \<Longrightarrow> known_failure c"
  by (auto simp: normalize_check_def Let_def case_prod_beta split: pluginActivation.splits if_splits)

lemma normalize_check_unknown:
  assumes "check_wf c"
  shows "known_failure (normalize_check report ActivationUnknown reason c) = known_failure c"
    and "check_clear (normalize_check report ActivationUnknown reason c) \<longleftrightarrow> check_clear c
      \<and> (chk_id c \<in> set predicateCheckIDs \<and> chk_skipped c \<longrightarrow> \<not> predicateMayBeEnabled (chk_id c) report)"
  using assms
  by (auto simp: normalize_check_def Let_def check_clear_def known_failure_def check_wf_def)

section \<open>Properties\<close>

text \<open>The activation of the predicates plugin as the two early-returning loops compute it. With an
  active policy that configures the plugin and an inspected branch it is enabled exactly when some
  Predicate hook is enabled for certain, and disabled exactly when there are such hooks and every
  one is off for certain. A switch is enabled exactly when some configured predicates plugin sets it
  or leaves it to a default that does, and disabled exactly when all say false.\<close>

theorem predicate_activation:
  "fst (predicatesActivation report) =
     (let configured = list_ex is_predicates (all_plugins report);
          hooks = filter predicate_hook (re_plugin_hooks report)
      in if \<not> po_active (re_policy report) then ActivationUnknown
         else if \<not> configured then ActivationDisabled
         else if \<not> re_hooks_inspected report then ActivationUnknown
         else if list_ex (\<lambda>h. ph_enabled_determinate h \<and> ph_enabled h) hooks then ActivationEnabled
         else if hooks \<noteq> [] \<and> list_all (\<lambda>h. ph_enabled_determinate h \<and> \<not> ph_enabled h) hooks
           then ActivationDisabled
         else ActivationUnknown)
   \<and> fst (switch_loop report argument ps False False False) =
     (if list_ex (\<lambda>p. is_predicates p \<and> effective_argument report argument p = Some True) ps then ActivationEnabled
      else if list_all (\<lambda>p. effective_argument report argument p = Some False) (filter is_predicates ps)
        then ActivationDisabled
      else ActivationUnknown)"
proof
  let ?a = "activation_loop (re_plugin_hooks report) False False False"
  let ?h = "filter predicate_hook (re_plugin_hooks report)"
  have conf: "list_ex (\<lambda>tier. list_ex is_predicates (ti_plugins tier)) (po_tiers (re_policy report))
      \<longleftrightarrow> list_ex is_predicates (all_plugins report)"
    by (auto simp: all_plugins_def list_ex_iff)
  have en: "list_ex (\<lambda>h. predicate_hook h \<and> ph_enabled_determinate h \<and> ph_enabled h) (re_plugin_hooks report)
      \<longleftrightarrow> list_ex (\<lambda>h. ph_enabled_determinate h \<and> ph_enabled h) ?h"
    by (auto simp: list_ex_iff)
  have dis: "fst ?a = ActivationDisabled
      \<longleftrightarrow> ?h \<noteq> [] \<and> list_all (\<lambda>h. ph_enabled_determinate h \<and> \<not> ph_enabled h) ?h"
    unfolding activation_loop_iff by (auto simp: list_ex_iff list_all_iff filter_empty_conv)
  show "fst (predicatesActivation report) =
     (let configured = list_ex is_predicates (all_plugins report); hooks = ?h
      in if \<not> po_active (re_policy report) then ActivationUnknown
         else if \<not> configured then ActivationDisabled
         else if \<not> re_hooks_inspected report then ActivationUnknown
         else if list_ex (\<lambda>h. ph_enabled_determinate h \<and> ph_enabled h) hooks then ActivationEnabled
         else if hooks \<noteq> [] \<and> list_all (\<lambda>h. ph_enabled_determinate h \<and> \<not> ph_enabled h) hooks
           then ActivationDisabled
         else ActivationUnknown)"
    using dis activation_loop_iff(1) [of "re_plugin_hooks report" False False False]
    unfolding predicatesActivation_def conf en Let_def by (cases "fst ?a") auto
  show "fst (switch_loop report argument ps False False False) =
     (if list_ex (\<lambda>p. is_predicates p \<and> effective_argument report argument p = Some True) ps then ActivationEnabled
      else if list_all (\<lambda>p. effective_argument report argument p = Some False) (filter is_predicates ps)
        then ActivationDisabled
      else ActivationUnknown)"
    using switch_loop_iff [of report argument ps False False False]
    by (cases "fst (switch_loop report argument ps False False False)")
       (auto simp: list_all_iff list_ex_iff)
qed

text \<open>Normalisation never invents a failure, keeps well-formedness and ids, and while the policy is
  not proven active it keeps every definite failure; a check stays clear exactly unless it was
  skipped as unused although the plugin may be switched on.\<close>

theorem predicate_projection_sound:
  assumes "list_all check_wf checks"
  shows "list_all check_wf (normalizePredicateChecks checks report activation reason)
    \<and> map chk_id (normalizePredicateChecks checks report activation reason) = map chk_id checks
    \<and> list_all2 (\<lambda>c' c. \<not> known_failure c' \<or> known_failure c)
        (normalizePredicateChecks checks report activation reason) checks
    \<and> list_all2 (\<lambda>c' c. known_failure c' = known_failure c
          \<and> (check_clear c' = (check_clear c \<and> \<not> (chk_id c \<in> set predicateCheckIDs \<and> chk_skipped c
               \<and> predicateMayBeEnabled (chk_id c) report))))
        (normalizePredicateChecks checks report ActivationUnknown reason) checks"
  using assms normalize_check_failure normalize_check_unknown
  by (auto simp: normalizePredicateChecks_def list_all_iff list_all2_map1 list.rel_map list_all2_same normalize_check_wf)

definition sample_predicates :: "check list" where
  "sample_predicates = [Known ''node.taints'' ''allocate'' ''Taints'' False '''' [],
     Skipped ''node.ports'' ''allocate'' ''Ports'' '''' []]"

theorem predicate_projection_sound_witness:
  "list_all check_wf sample_predicates
   \<and> list_all check_wf (normalizePredicateChecks sample_predicates empty_report ActivationDisabled ''off'')"
proof -
  have "list_all check_wf sample_predicates" by (simp add: sample_predicates_def)
  with predicate_projection_sound [OF this, of empty_report ActivationDisabled "''off''"] show ?thesis by blast
qed

end
