(* ===== verification/Presentation.thy ===== *)
theory Presentation
  imports Presentation_Resources Presentation_Hooks
begin

text \<open>
  The stage reports of \<open>internal/agent/presentation.go\<close>: enqueue, JobValid and allocate, each either
  skipped because an earlier stage stopped or computed from the collected checks, the hook inventory
  and the queue table; and the synchronisation of the report with the allocate stage. The clock
  \<open>time.Now\<close> is an argument. Facts: a stage is skipped exactly when an earlier one stopped it; which
  definite failures a stage can show; after the synchronisation the report and the allocate stage
  show the same nodes.
\<close>

record presentation_evidence =
  pe_pod :: "pod option"
  pe_tasks :: "pod list"
  pe_pod_group :: pod_group
  pe_queue_name :: string
  pe_queue :: queue
  pe_queue_err :: "go_error option"
  pe_snapshot :: queue_snapshot
  pe_snapshot_err :: "go_error option"
  pe_queue_groups :: "pod_group list"
  pe_queue_groups_err :: "go_error option"
  pe_preflight_stopped :: bool
  pe_enqueue_stopped :: bool
  pe_job_valid_stopped :: bool
  pe_allocate_stopped :: bool
  pe_stop_reason :: string

definition empty_evidence :: presentation_evidence where
  "empty_evidence = \<lparr>pe_pod = None, pe_tasks = [], pe_pod_group = empty_pod_group, pe_queue_name = '''',
     pe_queue = empty_queue, pe_queue_err = None, pe_snapshot = empty_queue_snapshot,
     pe_snapshot_err = None, pe_queue_groups = [], pe_queue_groups_err = None,
     pe_preflight_stopped = False, pe_enqueue_stopped = False, pe_job_valid_stopped = False,
     pe_allocate_stopped = False, pe_stop_reason = ''''\<rparr>"

definition skipped_state :: "string \<Rightarrow> string \<Rightarrow> stage_state" where
  "skipped_state conclusion reason =
     \<lparr>ss_outcome = OutcomeSkipped, ss_conclusion = conclusion, ss_skip_reason = reason\<rparr>"

definition stop_reason_or :: "presentation_evidence \<Rightarrow> string \<Rightarrow> string" where
  "stop_reason_or ev reason = (if pe_stop_reason ev = '''' then reason else pe_stop_reason ev)"

section \<open>Enqueue\<close>

definition enqueueState :: "check list \<Rightarrow> stage_state" where
  "enqueueState checks =
     (if list_ex (\<lambda>check. chk_determinate check \<and> \<not> chk_passed check \<and> \<not> chk_skipped check) checks
      then stateFromChecks checks
      else if list_ex (\<lambda>check. chk_id check = ''job.enqueue.evidence'' \<and> chk_determinate check
        \<and> chk_passed check) checks
      then \<lparr>ss_outcome = OutcomePass, ss_conclusion = zh_enqueue_evidence, ss_skip_reason = ''''\<rparr>
      else stateFromChecks checks)"

definition queuePodGroupsCheck :: "pod_group list \<Rightarrow> go_error option \<Rightarrow> check" where
  "queuePodGroupsCheck groups err =
     (case err of
        Some e \<Rightarrow> Unknown ''queue.podgroups'' ''enqueue'' ''Queue PodGroup snapshot'' (err_text e) EvNil
          [''PodGroup informer queue index'']
      | None \<Rightarrow> Known ''queue.podgroups'' ''enqueue'' ''Queue PodGroup snapshot'' True
          (''loaded '' @ fmt_n (length groups) @ '' PodGroups from the informer cache'')
          [''PodGroup informer queue index''])"

definition text_bypass :: string where
  "text_bypass = ''PodGroup spec.minResources is nil, so the standard enqueue action bypasses JobEnqueueable''"

definition text_bypass_unmatched :: string where
  "text_bypass_unmatched = ''PodGroup spec.minResources is nil, so enqueue bypasses JobEnqueueable''"

definition text_no_enqueue_hooks :: string where
  "text_no_enqueue_hooks = ''the selected branch proves that no configured plugin registers JobEnqueueable for the active actions''"

definition text_formula :: string where
  "text_formula = ''need = MinReq + allocated + inqueue - elastic; permit iff need <= realCapability''"

definition queue_table :: "report \<Rightarrow> presentation_evidence \<Rightarrow> queue_summary" where
  "queue_table report ev =
     (let strategy = queueStrategy (re_policy report);
          queue = empty_queue_summary
            \<lparr>qm_name := pe_queue_name ev, qm_state := qu_state (pe_queue ev), qm_strategy := strategy,
             qm_resources := queueResourceValues (pe_snapshot ev) (pe_pod_group ev),
             qm_formula := text_formula, qm_formula_note := queueStrategyNote strategy\<rparr>
      in case pe_snapshot_err ev of
           Some e \<Rightarrow> queue\<lparr>qm_runtime_reason := err_text e\<rparr>
         | None \<Rightarrow>
             if length (qs_resources (pe_snapshot ev)) = 0 then
               queue\<lparr>qm_runtime_reason := ''scheduler cache dump did not expose queue runtime resources''\<rparr>
             else queue\<lparr>qm_runtime_determinate := True, qm_runtime_source := qs_source (pe_snapshot ev),
               qm_runtime_reason := ''values were reconstructed from the active scheduler cache dump''\<rparr>)"

definition enqueue_hook_checks :: "report \<Rightarrow> presentation_evidence \<Rightarrow> check list" where
  "enqueue_hook_checks report ev =
     (let hookChecks = removePluginCheck (removePluginCheck
            (pluginHookChecks (re_plugin_hooks report) [''enqueue''] [''AddJobEnqueueableFn''] ''enqueue'')
            ''proportion'') ''capacity''
      in if pg_min_resources (pe_pod_group ev) = None then skippedChecks hookChecks ''enqueue'' text_bypass
         else hookChecks)"

definition enqueue_unmatched_checks :: "report \<Rightarrow> presentation_evidence \<Rightarrow> check list" where
  "enqueue_unmatched_checks report ev =
     (let unmatchedChecks =
            unmatchedPluginChecks (re_plugin_hooks report) [''enqueue''] ''enqueue'' ''JobEnqueueable''
      in if pg_min_resources (pe_pod_group ev) = None
         then skippedChecks unmatchedChecks ''enqueue'' text_bypass_unmatched else unmatchedChecks)"

definition enqueue_checks :: "report \<Rightarrow> presentation_evidence \<Rightarrow> check list" where
  "enqueue_checks report ev =
     (let checks = checksForStage (re_checks report) ''enqueue'';
          hookChecks = enqueue_hook_checks report ev;
          unmatchedChecks = enqueue_unmatched_checks report ev;
          queue = queue_table report ev;
          checks1 = (if hookInventoryVerified report \<and> policyHasAction (re_policy report) ''enqueue'' then
              removeCheck checks ''plugins.job-enqueueable'' @
              (if hookChecks = [] \<and> unmatchedChecks = [] then
                 [Known ''plugins.job-enqueueable.none'' ''enqueue'' ''No active JobEnqueueable hooks'' True
                    text_no_enqueue_hooks []]
               else [])
            else checks)
      in checks1 @ hookChecks @ unmatchedChecks @
         [queueRuntimeCheck queue (pe_snapshot_err ev),
          queuePodGroupsCheck (pe_queue_groups ev) (pe_queue_groups_err ev)] @
         (if pg_min_resources (pe_pod_group ev) \<noteq> None then
            [queueCapacityCheck queue (pe_snapshot_err ev) (po_determinate (re_policy report))] else []))"

definition buildEnqueuePresentation ::
  "gotime \<Rightarrow> report \<Rightarrow> presentation_evidence \<Rightarrow> enqueue_report" where
  "buildEnqueuePresentation now report ev =
     (if pe_preflight_stopped ev then
        (let reason = stop_reason_or ev ''preflight did not pass, so Volcano does not reach enqueue''
         in \<lparr>er_state = skipped_state zh_enqueue_skipped reason, er_queue = empty_queue_summary,
             er_checks = skippedChecks (checksForStage (re_checks report) ''enqueue'') ''enqueue'' reason,
             er_pod_groups = []\<rparr>)
      else
        (let checks = enqueue_checks report ev
         in \<lparr>er_state = enqueueState checks, er_queue = queue_table report ev, er_checks = checks,
             er_pod_groups = podGroupSummaries now (pe_queue_groups ev) (pe_pod_group ev)\<rparr>))"

section \<open>JobValid\<close>

definition text_gang_resolved :: string where
  "text_gang_resolved = ''Kubernetes-visible valid tasks alone satisfy this gang minimum; Volcano internal Pipelined/Allocated/Binding states can only add valid tasks''"

definition text_gang_open :: string where
  "text_gang_open = ''; Volcano internal Pipelined/Allocated/Binding task states are absent, so failure is not proven''"

definition would_pass :: "evidence \<Rightarrow> bool option" where
  "would_pass ev =
     (case ev of
        EvMap m \<Rightarrow> (case map_of m ''wouldPass'' of Some (EvBool b) \<Rightarrow> Some b | _ \<Rightarrow> None)
      | _ \<Rightarrow> None)"

definition resolve_gang :: "check \<Rightarrow> check" where
  "resolve_gang check =
     (if \<not> has_prefix (chk_id check) ''plugins.gang.'' then check
      else (case would_pass (chk_evidence check) of
          None \<Rightarrow> check
        | Some True \<Rightarrow> (Known (chk_id check) ''jobValid'' (chk_name check) True text_gang_resolved
            (chk_source check))\<lparr>chk_evidence := chk_evidence check\<rparr>
        | Some False \<Rightarrow> check\<lparr>chk_reason := chk_reason check @ text_gang_open\<rparr>))"

definition resolveGangChecks :: "check list \<Rightarrow> check list" where
  "resolveGangChecks checks = map resolve_gang checks"

definition workloadRows :: "pod option \<Rightarrow> pod list \<Rightarrow> check list \<Rightarrow> workload_row list" where
  "workloadRows target tasks checks =
     (let tasks' = (case target of Some pod \<Rightarrow> if tasks = [] then [pod] else tasks | None \<Rightarrow> tasks)
      in sort_key (\<lambda>row. wr_namespace row @ ''/'' @ wr_pod row)
        (map (\<lambda>pod. \<lparr>wr_namespace = pod_namespace pod, wr_pod = pod_name pod,
           wr_containers = map ct_name (pod_containers pod), wr_resources = podResourceValues pod,
           wr_checks = checks\<rparr>) tasks'))"

definition job_valid_actions :: "string list" where
  "job_valid_actions = [''allocate'', ''backfill'', ''preempt'', ''reclaim'']"

definition text_no_job_valid_hooks :: string where
  "text_no_job_valid_hooks = ''the selected branch proves that no configured plugin registers JobValid for the active actions''"

definition job_valid_checks :: "report \<Rightarrow> check list" where
  "job_valid_checks report =
     (let hooks = re_plugin_hooks report;
          checks = checksForStage (re_checks report) ''jobValid'';
          hookChecks = pluginHookChecks hooks job_valid_actions [''AddJobValidFn''] ''jobValid'';
          unmatchedChecks = unmatchedPluginChecks hooks job_valid_actions ''jobValid'' ''JobValid'';
          gangActive = (po_active (re_policy report) \<and> hasEnabledHookPlugin hooks ''AddJobValidFn'' ''gang'');
          checks1 = (if gangActive then resolveGangChecks checks else checks);
          hookChecks1 = (if gangActive then removePluginCheck hookChecks ''gang'' else hookChecks);
          checks2 = (if hookInventoryVerified report then
              (let removed = removeCheck checks1 ''plugins.job-valid'';
                   kept = (if \<not> hasHookPlugin hooks ''AddJobValidFn'' ''gang''
                     then removeCheckPrefix removed ''plugins.gang.'' else removed)
               in kept @
                 (if hookChecks1 = [] \<and> unmatchedChecks = [] \<and> \<not> gangActive then
                    [Known ''plugins.job-valid.none'' ''jobValid'' ''No active JobValid hooks'' True
                       text_no_job_valid_hooks []]
                  else []))
            else checks1)
      in checks2 @ hookChecks1 @ unmatchedChecks)"

definition buildJobValidPresentation :: "report \<Rightarrow> presentation_evidence \<Rightarrow> job_valid_report" where
  "buildJobValidPresentation report ev =
     (let checks = job_valid_checks report
      in if pe_preflight_stopped ev \<or> pe_enqueue_stopped ev \<or> pe_job_valid_stopped ev then
           (let reason = stop_reason_or ev ''enqueue did not pass, so Volcano does not reach allocate JobValid''
            in \<lparr>jr_state = skipped_state zh_job_valid_skipped reason,
                jr_rows = workloadRows (pe_pod ev) (pe_tasks ev) (skippedChecks checks ''jobValid'' reason)\<rparr>)
         else \<lparr>jr_state = stateFromChecks checks, jr_rows = workloadRows (pe_pod ev) (pe_tasks ev) checks\<rparr>)"

section \<open>Allocate\<close>

definition dynamic_checks :: "report \<Rightarrow> check list" where
  "dynamic_checks report =
     pluginHookChecks (re_plugin_hooks report) [''allocate'', ''backfill'']
       [''AddPrePredicateFn'', ''AddPredicateFn''] ''allocate''"

definition present_node :: "report \<Rightarrow> check list \<Rightarrow> node_result \<Rightarrow> node_result" where
  "present_node report dynamicChecks node =
     (let (predicateMode, predicateReason) = predicatesActivation report;
          checks = normalizePredicateChecks (nr_checks node) report predicateMode predicateReason
      in recomputeNodeOutcome (node\<lparr>nr_checks := mergeChecks checks dynamicChecks\<rparr>))"

definition buildAllocatePresentation :: "report \<Rightarrow> presentation_evidence \<Rightarrow> allocate_report" where
  "buildAllocatePresentation report ev =
     (if pe_preflight_stopped ev \<or> pe_enqueue_stopped ev \<or> pe_job_valid_stopped ev \<or> pe_allocate_stopped ev then
        \<lparr>ar_state = skipped_state zh_allocate_skipped
           (stop_reason_or ev ''a previous scheduler gate did not pass''), ar_nodes = []\<rparr>
      else
        (let hasDynamicHooks = (dynamic_checks report \<noteq> []);
             dynamicChecks = removePluginCheck (dynamic_checks report) ''predicates'';
             nodes = map (present_node report dynamicChecks) (re_nodes report);
             checks = removeCheck (checksForStage (re_checks report) ''allocate'') ''allocate.nodes'' @
               [nodeAvailabilityCheck nodes] @ dynamicChecks;
             checks1 = (if hasDynamicHooks then removeCheck checks ''plugins.predicates'' else checks)
         in \<lparr>ar_state = stateFromChecks checks1, ar_nodes = nodes\<rparr>))"

section \<open>Synchronisation\<close>

definition synchronizePresentation :: "report \<Rightarrow> report" where
  "synchronizePresentation report =
     (if ss_outcome (ar_state (re_allocate report)) = OutcomeSkipped then report
      else (let nodes = cloneNodeResults (ar_nodes (re_allocate report))
            in report\<lparr>re_nodes := nodes,
                 re_checks := replaceCheck (re_checks report) ''allocate.nodes'' (nodeAvailabilityCheck nodes)\<rparr>))"


section \<open>Skipped stages\<close>

lemma skippedChecks_skipped: "list_all chk_skipped (skippedChecks cs stage reason)"
  by (auto simp: skippedChecks_def list_all_iff)

lemma skippedChecks_wf: "c \<in> set (skippedChecks cs stage reason) \<Longrightarrow> check_wf c \<and> chk_skipped c \<and> chk_stage c = stage"
  by (auto simp: skippedChecks_def)

lemma enqueueState_not_skipped: "ss_outcome (enqueueState cs) \<noteq> OutcomeSkipped"
  by (simp add: enqueueState_def stateFromChecks_outcome)

lemma enqueueState_outcome:
  "ss_outcome (enqueueState cs) = OutcomeFail \<longleftrightarrow> list_ex known_failure cs"
  "ss_outcome (enqueueState cs) = OutcomePass \<longleftrightarrow> \<not> list_ex known_failure cs
     \<and> (list_ex (\<lambda>c. chk_id c = ''job.enqueue.evidence'' \<and> chk_determinate c \<and> chk_passed c) cs
        \<or> list_all check_clear cs \<and> list_ex (\<lambda>c. \<not> chk_skipped c) cs)"
proof -
  have e: "list_ex (\<lambda>check. chk_determinate check \<and> \<not> chk_passed check \<and> \<not> chk_skipped check) cs
      = list_ex known_failure cs"
    by (simp add: known_failure_def [abs_def])
  have "list_all check_clear cs \<Longrightarrow> \<not> list_ex known_failure cs"
    by (auto simp: list_all_iff list_ex_iff check_clear_def known_failure_def)
  then show "ss_outcome (enqueueState cs) = OutcomeFail \<longleftrightarrow> list_ex known_failure cs"
    "ss_outcome (enqueueState cs) = OutcomePass \<longleftrightarrow> \<not> list_ex known_failure cs
     \<and> (list_ex (\<lambda>c. chk_id c = ''job.enqueue.evidence'' \<and> chk_determinate c \<and> chk_passed c) cs
        \<or> list_all check_clear cs \<and> list_ex (\<lambda>c. \<not> chk_skipped c) cs)"
    unfolding enqueueState_def e by (auto simp: stateFromChecks_outcome)
qed

lemma stages_skipped:
  "ss_outcome (er_state (buildEnqueuePresentation now r ev)) = OutcomeSkipped \<longleftrightarrow> pe_preflight_stopped ev"
  "ss_outcome (jr_state (buildJobValidPresentation r ev)) = OutcomeSkipped
     \<longleftrightarrow> pe_preflight_stopped ev \<or> pe_enqueue_stopped ev \<or> pe_job_valid_stopped ev"
  "ss_outcome (ar_state (buildAllocatePresentation r ev)) = OutcomeSkipped
     \<longleftrightarrow> pe_preflight_stopped ev \<or> pe_enqueue_stopped ev \<or> pe_job_valid_stopped ev \<or> pe_allocate_stopped ev"
  by (auto simp: buildEnqueuePresentation_def buildJobValidPresentation_def buildAllocatePresentation_def
      skipped_state_def Let_def enqueueState_not_skipped stateFromChecks_outcome)

section \<open>Well-formed checks stay well formed\<close>

definition checks_wf :: "check list \<Rightarrow> bool" where
  "checks_wf cs \<longleftrightarrow> list_all check_wf cs"

lemma checks_wf_simps [simp]:
  "checks_wf []" "checks_wf (c # cs) \<longleftrightarrow> check_wf c \<and> checks_wf cs" "checks_wf (as @ bs) \<longleftrightarrow> checks_wf as \<and> checks_wf bs"
  by (simp_all add: checks_wf_def)

lemma checks_wf_ops [check_intros]:
  "checks_wf cs \<Longrightarrow> checks_wf (filter P cs)"
  "checks_wf cs \<Longrightarrow> checks_wf (checksForStage cs stage)"
  "checks_wf cs \<Longrightarrow> checks_wf (removeCheck cs i)"
  "checks_wf cs \<Longrightarrow> checks_wf (removeCheckPrefix cs i)"
  "checks_wf cs \<Longrightarrow> checks_wf (removePluginCheck cs i)"
  "checks_wf (skippedChecks cs stage reason)"
  "checks_wf (pluginHookChecks hooks as ws stage)"
  "checks_wf (unmatchedPluginChecks hooks as stage w)"
  "checks_wf cs \<Longrightarrow> checks_wf (resolveGangChecks cs)"
proof -
  have g: "check_wf c \<Longrightarrow> check_wf (resolve_gang c)" for c
    by (auto simp: resolve_gang_def split: option.split bool.split)
  then show "checks_wf cs \<Longrightarrow> checks_wf (resolveGangChecks cs)"
    by (auto simp: checks_wf_def resolveGangChecks_def list_all_iff)
qed (auto simp: checks_wf_def list_all_iff checksForStage_def removeCheck_def removeCheckPrefix_def
    removePluginCheck_def Let_def skippedChecks_wf pluginHookChecks_wf unmatchedPluginChecks_open)

lemma queue_check_wf [simp]:
  "check_wf (queueRuntimeCheck q e)" "check_wf (queuePodGroupsCheck gs e)" "check_wf (queueCapacityCheck q e d)"
  by (cases e; simp add: queueRuntimeCheck_def queuePodGroupsCheck_def queueCapacityCheck_verdict)+

lemma enqueue_checks_wf: "checks_wf (re_checks r) \<Longrightarrow> checks_wf (enqueue_checks r ev)"
  by (auto simp: enqueue_checks_def enqueue_hook_checks_def enqueue_unmatched_checks_def Let_def
      intro!: checks_wf_ops)

lemma job_valid_checks_wf: "checks_wf (re_checks r) \<Longrightarrow> checks_wf (job_valid_checks r)"
  by (auto simp: job_valid_checks_def Let_def intro!: checks_wf_ops)

section \<open>Which failures a stage shows\<close>

lemma skipped_no_failure: "\<not> list_ex known_failure (skippedChecks cs stage reason)"
  by (auto simp: skippedChecks_def list_ex_iff)

lemma open_no_failure: "\<not> list_ex known_failure (unmatchedPluginChecks hooks as stage w)"
  using unmatchedPluginChecks_open by (auto simp: list_ex_iff known_failure_def)

definition hooks_sound :: "plugin_hook_report list \<Rightarrow> bool" where
  "hooks_sound hooks \<longleftrightarrow> list_all (\<lambda>h. ph_determinate h \<longrightarrow> ph_passed h) hooks"

lemma hooks_no_failure:
  assumes "hooks_sound hooks"
  shows "\<not> list_ex known_failure (pluginHookChecks hooks as ws stage)"
    and "\<not> list_ex known_failure (removePluginCheck (pluginHookChecks hooks as ws stage) p)"
    and "\<not> list_ex known_failure (removePluginCheck (removePluginCheck (pluginHookChecks hooks as ws stage) p) q)"
  using pluginHookChecks_no_failure assms removePluginCheck_set
  unfolding hooks_sound_def list_ex_iff by blast+

lemma enqueue_checks_failure:
  assumes "hooks_sound (re_plugin_hooks r)"
  shows "list_ex known_failure (enqueue_checks r ev) \<longleftrightarrow>
    list_ex (\<lambda>c. chk_stage c = ''enqueue'' \<and> known_failure c \<and>
      (hookInventoryVerified r \<and> policyHasAction (re_policy r) ''enqueue'' \<longrightarrow> chk_id c \<noteq> ''plugins.job-enqueueable''))
      (re_checks r)
    \<or> pg_min_resources (pe_pod_group ev) \<noteq> None
      \<and> known_failure (queueCapacityCheck (queue_table r ev) (pe_snapshot_err ev) (po_determinate (re_policy r)))"
proof -
  have rt: "\<not> known_failure (queueRuntimeCheck q e)" "\<not> known_failure (queuePodGroupsCheck gs e)" for q gs e
    by (cases e; simp add: queueRuntimeCheck_def queuePodGroupsCheck_def)+
  have hk: "\<not> list_ex known_failure (enqueue_hook_checks r ev)"
    using hooks_no_failure(3) [OF assms] skipped_no_failure by (simp add: enqueue_hook_checks_def Let_def)
  have un: "\<not> list_ex known_failure (enqueue_unmatched_checks r ev)"
    using open_no_failure skipped_no_failure by (simp add: enqueue_unmatched_checks_def Let_def)
  have fs: "list_ex known_failure (checksForStage cs s) \<longleftrightarrow> list_ex (\<lambda>c. chk_stage c = s \<and> known_failure c) cs" for cs s
    by (auto simp: checksForStage_def list_ex_iff)
  have rm: "list_ex known_failure (removeCheck (checksForStage cs s) i)
      \<longleftrightarrow> list_ex (\<lambda>c. chk_stage c = s \<and> known_failure c \<and> chk_id c \<noteq> i) cs" for cs s i
    by (auto simp: removeCheck_def checksForStage_def list_ex_iff)
  show ?thesis
  proof (cases "hookInventoryVerified r \<and> policyHasAction (re_policy r) ''enqueue''")
    case True
    then show ?thesis by (simp add: enqueue_checks_def Let_def hk un rt fs rm)
  next
    case False
    then have v: "(hookInventoryVerified r \<and> policyHasAction (re_policy r) ''enqueue'') = False" by simp
    show ?thesis unfolding enqueue_checks_def Let_def v by (simp add: hk un rt fs)
  qed
qed

section \<open>Nodes\<close>

lemma present_node_simps [simp]:
  "nr_name (present_node r ds n) = nr_name n" "nr_resources (present_node r ds n) = nr_resources n"
  by (simp_all add: present_node_def case_prod_beta)

lemma present_node_fixed: "recomputeNodeOutcome (present_node r ds n) = present_node r ds n"
proof -
  have "recomputeNodeOutcome (recomputeNodeOutcome m) = recomputeNodeOutcome m" for m
    by (simp add: recomputeNodeOutcome_def case_prod_beta)
  then show ?thesis by (simp add: present_node_def case_prod_beta Let_def)
qed

lemma cloneNodeResults_simps [simp]:
  "map nr_name (cloneNodeResults ns) = map nr_name ns" "map nr_passed (cloneNodeResults ns) = map nr_passed ns"
  "map nr_determinate (cloneNodeResults ns) = map nr_determinate ns"
  "map nr_checks (cloneNodeResults ns) = map nr_checks ns" "length (cloneNodeResults ns) = length ns"
  by (simp_all add: cloneNodeResults_def)

lemma nodeAvailability_clone: "nodeAvailabilityCheck (cloneNodeResults ns) = nodeAvailabilityCheck ns"
  by (simp add: nodeAvailabilityCheck_def cloneNodeResults_def filter_map comp_def)


section \<open>The stages read only what was collected\<close>

lemma switch_loop_frame:
  "re_predicate_defaults r = re_predicate_defaults r' \<Longrightarrow> re_predicate_defaults_err r = re_predicate_defaults_err r' \<Longrightarrow>
     switch_loop r argument ps f u d = switch_loop r' argument ps f u d"
  by (induction r argument ps f u d rule: switch_loop.induct) (auto split: option.split)

lemma may_loop_frame:
  "re_predicate_defaults r = re_predicate_defaults r' \<Longrightarrow> may_loop r argument ps = may_loop r' argument ps"
  by (induction r argument ps rule: may_loop.induct) (auto split: option.split)

lemma normalize_frame:
  assumes "re_policy r = re_policy r'" and "re_predicate_defaults r = re_predicate_defaults r'"
    and "re_predicate_defaults_err r = re_predicate_defaults_err r'"
  shows "normalizePredicateChecks cs r a reason = normalizePredicateChecks cs r' a reason"
proof -
  have p: "all_plugins r = all_plugins r'" by (simp add: all_plugins_def assms)
  show ?thesis
    unfolding normalizePredicateChecks_def normalize_check_def predicateCheckActivation_def predicateMayBeEnabled_def p
      switch_loop_frame [OF assms(2,3)] may_loop_frame [OF assms(2)] ..
qed

lemma build_frame:
  "buildJobValidPresentation (r\<lparr>re_enqueue := e\<rparr>) ev = buildJobValidPresentation r ev"
  "buildAllocatePresentation (r\<lparr>re_enqueue := e, re_job_valid := j\<rparr>) ev = buildAllocatePresentation r ev"
proof -
  have f: "re_plugin_hooks (r\<lparr>re_enqueue := e\<rparr>) = re_plugin_hooks r" "re_checks (r\<lparr>re_enqueue := e\<rparr>) = re_checks r"
    "re_policy (r\<lparr>re_enqueue := e\<rparr>) = re_policy r" "re_hooks_inspected (r\<lparr>re_enqueue := e\<rparr>) = re_hooks_inspected r"
    by simp_all
  show "buildJobValidPresentation (r\<lparr>re_enqueue := e\<rparr>) ev = buildJobValidPresentation r ev"
    unfolding buildJobValidPresentation_def job_valid_checks_def hookInventoryVerified_def f ..
  have a: "predicatesActivation (r\<lparr>re_enqueue := e, re_job_valid := j\<rparr>) = predicatesActivation r"
    by (simp add: predicatesActivation_def)
  have n: "normalizePredicateChecks cs (r\<lparr>re_enqueue := e, re_job_valid := j\<rparr>) b reason
      = normalizePredicateChecks cs r b reason" for cs b reason
    by (rule normalize_frame) simp_all
  have "present_node (r\<lparr>re_enqueue := e, re_job_valid := j\<rparr>) ds m = present_node r ds m" for ds m
    unfolding present_node_def a n ..
  then show "buildAllocatePresentation (r\<lparr>re_enqueue := e, re_job_valid := j\<rparr>) ev = buildAllocatePresentation r ev"
    by (simp add: buildAllocatePresentation_def dynamic_checks_def cong: map_cong)
qed

section \<open>Properties\<close>

text \<open>A stage is reported as skipped exactly when a stage before it stopped the run, so the skipped
  stages are always the last ones; the enqueue checks of a skipped stage are all marked as skipped.\<close>

theorem skipped_stages:
  "(ss_outcome (er_state (buildEnqueuePresentation now r ev)) = OutcomeSkipped \<longleftrightarrow> pe_preflight_stopped ev)
   \<and> (ss_outcome (jr_state (buildJobValidPresentation r ev)) = OutcomeSkipped
       \<longleftrightarrow> pe_preflight_stopped ev \<or> pe_enqueue_stopped ev \<or> pe_job_valid_stopped ev)
   \<and> (ss_outcome (ar_state (buildAllocatePresentation r ev)) = OutcomeSkipped
       \<longleftrightarrow> pe_preflight_stopped ev \<or> pe_enqueue_stopped ev \<or> pe_job_valid_stopped ev \<or> pe_allocate_stopped ev)
   \<and> (\<not> pe_preflight_stopped ev \<or> list_all chk_skipped (er_checks (buildEnqueuePresentation now r ev)))"
  using stages_skipped skippedChecks_skipped
  by (auto simp: buildEnqueuePresentation_def Let_def)

text \<open>C31: when no plugin hook is reported as failed (the inventory never does), the enqueue stage fails
  exactly when it was reached and either a collected enqueue check failed for certain, other than
  the placeholder the inventory replaces, or the PodGroup asks for resources and the quota check
  failed.\<close>

theorem enqueue_stage_fails_iff:
  assumes "hooks_sound (re_plugin_hooks r)"
  shows "ss_outcome (er_state (buildEnqueuePresentation now r ev)) = OutcomeFail \<longleftrightarrow>
    \<not> pe_preflight_stopped ev \<and>
    (list_ex (\<lambda>c. chk_stage c = ''enqueue'' \<and> known_failure c \<and>
        \<not> (hookInventoryVerified r \<and> policyHasAction (re_policy r) ''enqueue'' \<and> chk_id c = ''plugins.job-enqueueable''))
        (re_checks r)
     \<or> pg_min_resources (pe_pod_group ev) \<noteq> None
       \<and> known_failure (queueCapacityCheck (queue_table r ev) (pe_snapshot_err ev) (po_determinate (re_policy r))))"
proof -
  have "ss_outcome (er_state (buildEnqueuePresentation now r ev)) = OutcomeFail \<longleftrightarrow>
      \<not> pe_preflight_stopped ev \<and> list_ex known_failure (enqueue_checks r ev)"
    by (simp add: buildEnqueuePresentation_def Let_def skipped_state_def enqueueState_outcome)
  moreover have "(A \<and> B \<longrightarrow> x \<noteq> y) \<longleftrightarrow> \<not> (A \<and> B \<and> x = y)" for A B and x y :: string by blast
  ultimately show ?thesis unfolding enqueue_checks_failure [OF assms] by simp
qed

definition failing_enqueue :: report where
  "failing_enqueue = empty_report\<lparr>re_checks := [Known ''job.queue.exists'' ''enqueue'' ''Queue exists'' False '''' []]\<rparr>"

theorem enqueue_stage_fails_iff_witness:
  "hooks_sound (re_plugin_hooks failing_enqueue)
   \<and> ss_outcome (er_state (buildEnqueuePresentation 0 failing_enqueue empty_evidence)) = OutcomeFail"
proof -
  have h: "hooks_sound (re_plugin_hooks failing_enqueue)"
    by (simp add: failing_enqueue_def empty_report_def hooks_sound_def)
  have "\<not> pe_preflight_stopped empty_evidence" by (simp add: empty_evidence_def)
  moreover have "list_ex (\<lambda>c. chk_stage c = ''enqueue'' \<and> known_failure c \<and>
        \<not> (hookInventoryVerified failing_enqueue \<and> policyHasAction (re_policy failing_enqueue) ''enqueue''
          \<and> chk_id c = ''plugins.job-enqueueable'')) (re_checks failing_enqueue)"
    by (simp add: failing_enqueue_def)
  ultimately show ?thesis using h enqueue_stage_fails_iff [OF h, of 0 empty_evidence] by blast
qed

text \<open>After the synchronisation the report and the allocate stage agree: the nodes carry the same
  names, verdicts and checks, the report holds exactly one node availability check, the one of these
  nodes, and every other check is kept in order; doing it twice changes nothing more in the checks.\<close>

theorem synchronized_report:
  "(let r' = synchronizePresentation r; nodes = ar_nodes (re_allocate r);
        skipped = (ss_outcome (ar_state (re_allocate r)) = OutcomeSkipped) in
    if skipped then r' = r
    else map nr_name (re_nodes r') = map nr_name nodes \<and> map nr_passed (re_nodes r') = map nr_passed nodes
      \<and> map nr_determinate (re_nodes r') = map nr_determinate nodes \<and> map nr_checks (re_nodes r') = map nr_checks nodes
      \<and> filter (\<lambda>c. chk_id c = ''allocate.nodes'') (re_checks r') = [nodeAvailabilityCheck nodes]
      \<and> removeCheck (re_checks r') ''allocate.nodes'' = removeCheck (re_checks r) ''allocate.nodes''
      \<and> check_map (re_checks (synchronizePresentation r')) = check_map (re_checks r'))"
proof -
  have i: "chk_id (nodeAvailabilityCheck ns) = ''allocate.nodes''" for ns by (rule nodeAvailability_iff)
  have once: "filter (\<lambda>c. chk_id c = ''allocate.nodes'') (replaceCheck cs ''allocate.nodes'' (nodeAvailabilityCheck ns))
      = [nodeAvailabilityCheck ns]" for cs ns
    using replaceCheck_once [of "nodeAvailabilityCheck ns" "''allocate.nodes''" cs] i by simp
  have rest: "removeCheck (replaceCheck cs ''allocate.nodes'' (nodeAvailabilityCheck ns)) ''allocate.nodes''
      = removeCheck cs ''allocate.nodes''" for cs ns
    using replaceCheck_others [of "nodeAvailabilityCheck ns" "''allocate.nodes''" cs] i by (simp add: removeCheck_def)
  have cm: "check_map (replaceCheck cs ''allocate.nodes'' (nodeAvailabilityCheck ns))
      = (check_map cs)(''allocate.nodes'' \<mapsto> nodeAvailabilityCheck ns)" for cs ns
    using replaceCheck_map [of cs "nodeAvailabilityCheck ns"] i by simp
  show ?thesis
    by (simp add: synchronizePresentation_def Let_def nodeAvailability_clone once rest cm)
qed

end
