(* ===== verification/Diagnosis.thy ===== *)
theory Diagnosis
  imports Presentation
begin

text \<open>
  The diagnosis of \<open>internal/agent/presentation.go\<close>: the first definite failure in the order of the
  scheduler, the failure shared by all nodes, the counted failures of nodes that fail for different
  reasons, and the two closing texts. Facts, over the report as it is shown: the first definite failure
  of preflight, enqueue and JobValid is the one diagnosed; without one the diagnosis follows the nodes;
  a report without any definite failure never gets the diagnosis of one.
\<close>

definition text_quota_insufficient :: string where
  "text_quota_insufficient = ''queue resource quota insufficient''"

definition diagnosis_of :: "string \<Rightarrow> string list \<Rightarrow> diagnosis" where
  "diagnosis_of cause suggestions = \<lparr>di_root_cause = cause, di_suggestions = suggestions\<rparr>"

definition diagnosisForFailure :: "check \<Rightarrow> string \<Rightarrow> diagnosis" where
  "diagnosisForFailure check queueName =
     (let i = chk_id check
      in if i = ''task.exists'' then diagnosis_of zh_pod_missing [zh_refresh_list]
         else if i = ''task.pending'' \<or> i = ''task.unbound'' then diagnosis_of zh_not_pending [zh_if_bound]
         else if i = ''task.scheduler'' then
           diagnosis_of zh_no_scheduler [zh_check_scheduler_name, zh_restore_scheduler]
         else if i = ''task.scheduling-gates'' then diagnosis_of zh_has_gate [zh_remove_gate]
         else if i = ''job.podgroup'' \<or> i = ''job.podgroup.exists'' then
           diagnosis_of zh_no_podgroup [zh_check_group_name, zh_create_podgroup]
         else if i = ''job.queue.exists'' then
           diagnosis_of zh_queue_missing [zh_create_queue @ queueName, zh_check_default_queue]
         else if i = ''queue.enqueue-capacity'' then
           diagnosis_of zh_queue_full [zh_release_queue, zh_wait_queue]
         else if i = ''job.enqueue.evidence'' then
           (if contains (to_lower (chk_reason check)) text_quota_insufficient then
              diagnosis_of zh_queue_full [zh_release_queue, zh_wait_queue]
            else diagnosis_of (zh_enqueue_rejected @ chk_reason check) [zh_find_plugin, zh_confirm_plugin])
         else if i = ''node.resources'' \<or> i = ''allocate.nodes'' then
           diagnosis_of zh_no_node_resources [zh_release_nodes, zh_lower_request]
         else if i = ''node.taints'' then diagnosis_of zh_all_tainted [zh_add_toleration, zh_remove_taint]
         else if i = ''node.selector'' \<or> i = ''node.affinity'' then
           diagnosis_of zh_affinity_excludes [zh_fix_affinity, zh_add_labels]
         else diagnosis_of (chk_name check @ zh_not_passed @ chk_reason check) [zh_fix_first])"

definition allSchedulingStagesSkipped :: "report \<Rightarrow> bool" where
  "allSchedulingStagesSkipped report \<longleftrightarrow>
     ss_outcome (er_state (re_enqueue report)) = OutcomeSkipped
     \<and> ss_outcome (jr_state (re_job_valid report)) = OutcomeSkipped
     \<and> ss_outcome (ar_state (re_allocate report)) = OutcomeSkipped"

definition preferred_ids :: "string list" where
  "preferred_ids = [''node.ready'', ''node.resources'', ''node.pod-count'', ''node.schedulable'',
     ''node.selector'', ''node.affinity'', ''node.taints'', ''node.ports'', ''node.pod-affinity'',
     ''node.volume-limits'', ''node.volume-zone'', ''node.topology-spread'', ''node.proportional'']"

definition id_step :: "check \<Rightarrow> string list \<Rightarrow> string list" where
  "id_step check result =
     (if chk_id check = ''node.pv-bind'' \<or> chk_id check \<in> set result then result
      else result @ [chk_id check])"

text \<open>The set \<open>seen\<close> holds the ids of the result: the preferred ones and those appended.\<close>

definition orderedNodeCheckIDs :: "node_result list \<Rightarrow> string list" where
  "orderedNodeCheckIDs nodes = fold (\<lambda>node. fold id_step (nr_checks node)) nodes preferred_ids"

definition count_step :: "check \<Rightarrow> nat gomap \<times> check gomap \<Rightarrow> nat gomap \<times> check gomap" where
  "count_step check st =
     (let (failureCounts, failureChecks) = st
      in if chk_determinate check \<and> \<not> chk_passed check \<and> \<not> chk_skipped check
         then (gm_set (chk_id check) (gm_or 0 failureCounts (chk_id check) + 1) failureCounts,
               gm_set (chk_id check) check failureChecks)
         else st)"

definition count_failures :: "node_result list \<Rightarrow> nat gomap \<times> check gomap" where
  "count_failures nodes = fold (\<lambda>node. fold count_step (nr_checks node)) nodes ([], [])"

text \<open>By descending count, then by name: two stable sorts; equal entries are the same text.\<close>

definition counted_failures :: "nat gomap \<Rightarrow> check gomap \<Rightarrow> (string \<times> nat) list" where
  "counted_failures failureCounts failureChecks =
     sort_key (\<lambda>(name, count). - int count) (sort_key fst
       (map (\<lambda>(i, count). (chk_name (gm_or empty_check failureChecks i), count)) failureCounts))"

definition counted_diagnosis :: "(string \<times> nat) list \<Rightarrow> diagnosis" where
  "counted_diagnosis counts =
     diagnosis_of zh_all_nodes_failed
       (map (\<lambda>(name, count). zh_handle @ name @ zh_affects_left @ fmt_n count @ zh_affects_right) (take 3 counts) @
        [zh_confirm_rows])"

definition common_failure :: "node_result list \<Rightarrow> check option" where
  "common_failure nodes =
     (let (failureCounts, failureChecks) = count_failures nodes
      in map_option (gm_or empty_check failureChecks)
           (find (\<lambda>i. gm_or 0 failureCounts i = length nodes \<and> 0 < gm_or 0 failureCounts i)
             (orderedNodeCheckIDs nodes)))"

definition open_diagnosis :: "check \<Rightarrow> diagnosis" where
  "open_diagnosis check =
     diagnosis_of (zh_preflight_open @ chk_name check @ zh_dash @ chk_reason check)
       [zh_retry_informer, zh_check_informer]"

definition closing_diagnosis :: "report \<Rightarrow> diagnosis" where
  "closing_diagnosis report =
     (if ss_outcome (er_state (re_enqueue report)) = OutcomeUnknown
         \<or> ss_outcome (jr_state (re_job_valid report)) = OutcomeUnknown
         \<or> ss_outcome (ar_state (re_allocate report)) = OutcomeUnknown
      then diagnosis_of zh_cause_open [zh_see_question_marks, zh_continue_source]
      else diagnosis_of zh_no_failure_found [zh_check_fairness, zh_compare_source])"

definition definite :: "check \<Rightarrow> bool" where
  "definite check \<longleftrightarrow> chk_determinate check \<and> \<not> chk_passed check \<and> \<not> chk_skipped check"

definition node_diagnosis :: "report \<Rightarrow> diagnosis" where
  "node_diagnosis report =
     (let nodes = ar_nodes (re_allocate report); queueName = qm_name (er_queue (re_enqueue report))
      in case common_failure nodes of
           Some check \<Rightarrow> diagnosisForFailure check queueName
         | None \<Rightarrow>
             if nodes \<noteq> [] \<and> \<not> list_ex (\<lambda>node. nr_passed node \<or> \<not> nr_determinate node) nodes
             then counted_diagnosis (case count_failures nodes of (counts, checks) \<Rightarrow> counted_failures counts checks)
             else closing_diagnosis report)"

definition stage_diagnosis :: "report \<Rightarrow> diagnosis" where
  "stage_diagnosis report =
     (let queueName = qm_name (er_queue (re_enqueue report))
      in case find definite (er_checks (re_enqueue report)) of
           Some check \<Rightarrow> diagnosisForFailure check queueName
         | None \<Rightarrow>
             (case find definite (concat (map wr_checks (jr_rows (re_job_valid report)))) of
                Some check \<Rightarrow> diagnosisForFailure check queueName
              | None \<Rightarrow> node_diagnosis report))"

definition diagnoseReport :: "report \<Rightarrow> diagnosis" where
  "diagnoseReport report =
     (case find (\<lambda>check. chk_stage check = ''preflight'' \<and> definite check) (re_checks report) of
        Some check \<Rightarrow> diagnosisForFailure check (qm_name (er_queue (re_enqueue report)))
      | None \<Rightarrow>
          (case (if allSchedulingStagesSkipped report then
              find (\<lambda>check. \<not> (chk_stage check \<noteq> ''preflight'' \<or> chk_determinate check \<or> chk_skipped check))
                (re_checks report) else None) of
             Some check \<Rightarrow> open_diagnosis check
           | None \<Rightarrow> stage_diagnosis report))"

definition buildPresentation :: "gotime \<Rightarrow> report \<Rightarrow> presentation_evidence \<Rightarrow> report" where
  "buildPresentation now report ev =
     (let report1 = report\<lparr>re_enqueue := buildEnqueuePresentation now report ev\<rparr>;
          report2 = report1\<lparr>re_job_valid := buildJobValidPresentation report1 ev\<rparr>;
          report3 = report2\<lparr>re_allocate := buildAllocatePresentation report2 ev\<rparr>
      in report3\<lparr>re_diagnosis := diagnoseReport report3\<rparr>)"


section \<open>Counting failures\<close>

lemma definite_known: "definite = known_failure"
  by (auto simp: definite_def [abs_def] known_failure_def [abs_def])

definition node_checks :: "node_result list \<Rightarrow> check list" where
  "node_checks nodes = concat (map nr_checks nodes)"

lemma fold_concat: "fold (\<lambda>n. fold f (g n)) ns s = fold f (concat (map g ns)) s"
  by (induction ns arbitrary: s) simp_all

lemma failure_count_fold:
  "gm_or 0 (fst (fold count_step cs st)) i = gm_or 0 (fst st) i + length (filter (\<lambda>c. definite c \<and> chk_id c = i) cs)
   \<and> gm_get (snd (fold count_step cs st)) i
     = (case find (\<lambda>c. definite c \<and> chk_id c = i) (rev cs) of None \<Rightarrow> gm_get (snd st) i | Some c \<Rightarrow> Some c)"
proof (induction cs rule: rev_induct)
  case (snoc c cs)
  obtain a b where ab: "fold count_step cs st = (a, b)" by force
  have "count_step c (a, b) = (if definite c then (gm_set (chk_id c) (gm_or 0 a (chk_id c) + 1) a, gm_set (chk_id c) c b)
      else (a, b))"
    by (simp add: count_step_def definite_def)
  with snoc show ?case by (auto simp: ab)
qed simp

lemma count_failures_count:
  "gm_or 0 (fst (count_failures nodes)) i = length (filter (\<lambda>c. definite c \<and> chk_id c = i) (node_checks nodes))"
  using failure_count_fold [of "node_checks nodes" "([], [])" i] by (simp add: count_failures_def fold_concat node_checks_def)

lemma count_failures_check:
  assumes "list_ex (\<lambda>c. definite c \<and> chk_id c = i) (node_checks nodes)"
  shows "\<exists>c \<in> set (node_checks nodes). definite c \<and> chk_id c = i \<and> gm_or empty_check (snd (count_failures nodes)) i = c"
proof -
  obtain c where c: "find (\<lambda>c. definite c \<and> chk_id c = i) (rev (node_checks nodes)) = Some c"
    using assms by (cases "find (\<lambda>c. definite c \<and> chk_id c = i) (rev (node_checks nodes))")
      (auto simp: find_None_iff list_ex_iff)
  then have "gm_get (snd (count_failures nodes)) i = Some c"
    using failure_count_fold [of "node_checks nodes" "([], [])" i] by (simp add: count_failures_def fold_concat node_checks_def)
  moreover have "c \<in> set (node_checks nodes) \<and> definite c \<and> chk_id c = i"
    using c by (auto simp: find_Some_iff) (metis length_rev nth_mem set_rev)
  ultimately show ?thesis by (auto simp: gm_or_def)
qed

text \<open>With one check per id on a node the count of an id is the number of nodes that fail on it.\<close>

lemma count_nodes:
  assumes "list_all (\<lambda>n. distinct (map chk_id (nr_checks n))) nodes"
  shows "length (filter (\<lambda>c. definite c \<and> chk_id c = i) (node_checks nodes))
    = length (filter (\<lambda>n. list_ex (\<lambda>c. definite c \<and> chk_id c = i) (nr_checks n)) nodes)"
  using assms
proof (induction nodes)
  case (Cons n nodes)
  have one: "distinct (map chk_id cs) \<Longrightarrow> length (filter (\<lambda>c. definite c \<and> chk_id c = i) cs)
      = (if list_ex (\<lambda>c. definite c \<and> chk_id c = i) cs then 1 else 0)" for cs
  proof (induction cs)
    case (Cons c cs)
    have "\<not> list_ex (\<lambda>x. definite x \<and> chk_id x = i) cs" if "chk_id c = i"
      using Cons.prems that by (simp add: list_ex_iff image_iff) metis
    with Cons show ?case by (auto simp: list_ex_iff)
  qed simp
  from Cons one [of "nr_checks n"] show ?case by (simp add: node_checks_def)
qed (simp add: node_checks_def)

lemma filter_all: "length (filter P xs) = length xs \<longleftrightarrow> list_all P xs"
proof (induction xs)
  case (Cons x xs)
  have "length (filter P xs) \<noteq> Suc (length xs)" using length_filter_le [of P xs] by linarith
  with Cons show ?case by simp
qed simp

lemma ids_fold: "set (fold id_step cs result) = set result \<union> (chk_id ` set cs - {''node.pv-bind''})"
  by (induction cs arbitrary: result) (auto simp: id_step_def)

lemma orderedNodeCheckIDs_set:
  "set (orderedNodeCheckIDs nodes) = set preferred_ids \<union> (chk_id ` set (node_checks nodes) - {''node.pv-bind''})"
  by (simp add: orderedNodeCheckIDs_def fold_concat ids_fold node_checks_def)

section \<open>The common failure\<close>

lemma common_failure_find:
  "common_failure nodes = map_option (gm_or empty_check (snd (count_failures nodes)))
     (find (\<lambda>i. length (filter (\<lambda>c. definite c \<and> chk_id c = i) (node_checks nodes)) = length nodes
        \<and> 0 < length (filter (\<lambda>c. definite c \<and> chk_id c = i) (node_checks nodes))) (orderedNodeCheckIDs nodes))"
  by (simp add: common_failure_def case_prod_beta count_failures_count)

lemma common_failure_sound:
  assumes "list_all (\<lambda>n. distinct (map chk_id (nr_checks n))) nodes" and "common_failure nodes = Some c"
  shows "nodes \<noteq> []" and "definite c" and "c \<in> set (node_checks nodes)"
    and "list_all (\<lambda>n. list_ex (\<lambda>x. definite x \<and> chk_id x = chk_id c) (nr_checks n)) nodes"
proof -
  obtain i where f: "find (\<lambda>i. length (filter (\<lambda>c. definite c \<and> chk_id c = i) (node_checks nodes)) = length nodes
        \<and> 0 < length (filter (\<lambda>c. definite c \<and> chk_id c = i) (node_checks nodes))) (orderedNodeCheckIDs nodes) = Some i"
    and c: "c = gm_or empty_check (snd (count_failures nodes)) i"
    using assms(2) by (auto simp: common_failure_find)
  from f have cnt: "length (filter (\<lambda>c. definite c \<and> chk_id c = i) (node_checks nodes)) = length nodes"
    "0 < length (filter (\<lambda>c. definite c \<and> chk_id c = i) (node_checks nodes))"
    by (auto simp: find_Some_iff)
  from cnt(2) have "list_ex (\<lambda>c. definite c \<and> chk_id c = i) (node_checks nodes)"
    by (auto simp: filter_empty_conv list_ex_iff)
  from count_failures_check [OF this] c
  have ci: "c \<in> set (node_checks nodes)" "definite c" "chk_id c = i" by auto
  show "definite c" "c \<in> set (node_checks nodes)" by (rule ci)+
  show "nodes \<noteq> []" using cnt by auto
  show "list_all (\<lambda>n. list_ex (\<lambda>x. definite x \<and> chk_id x = chk_id c) (nr_checks n)) nodes"
    using cnt(1) unfolding count_nodes [OF assms(1)] filter_all ci(3) .
qed

lemma common_failure_complete:
  assumes "list_all (\<lambda>n. distinct (map chk_id (nr_checks n))) nodes" and "nodes \<noteq> []" and "i \<noteq> ''node.pv-bind''"
    and "list_all (\<lambda>n. list_ex (\<lambda>x. definite x \<and> chk_id x = i) (nr_checks n)) nodes"
  shows "common_failure nodes \<noteq> None"
proof -
  have n: "length (filter (\<lambda>c. definite c \<and> chk_id c = i) (node_checks nodes)) = length nodes"
    unfolding count_nodes [OF assms(1)] filter_all by (rule assms(4))
  then have "0 < length (filter (\<lambda>c. definite c \<and> chk_id c = i) (node_checks nodes))" using assms(2) by simp
  moreover from this have "i \<in> set (orderedNodeCheckIDs nodes)"
    using assms(3) unfolding orderedNodeCheckIDs_set by (auto simp: filter_empty_conv)
  ultimately show ?thesis using n by (auto simp: common_failure_find find_None_iff)
qed

section \<open>No diagnosis of a failure without one\<close>

lemma common_failure_none:
  assumes "\<not> list_ex definite (node_checks nodes)"
  shows "common_failure nodes = None"
proof -
  have "filter (\<lambda>c. definite c \<and> chk_id c = i) (node_checks nodes) = []" for i
    using assms by (auto simp: filter_empty_conv list_ex_iff)
  then show ?thesis by (simp add: common_failure_find find_None_iff)
qed

definition report_definite :: "report \<Rightarrow> bool" where
  "report_definite r \<longleftrightarrow>
     list_ex (\<lambda>c. chk_stage c = ''preflight'' \<and> definite c) (re_checks r)
     \<or> list_ex definite (er_checks (re_enqueue r))
     \<or> list_ex (\<lambda>row. list_ex definite (wr_checks row)) (jr_rows (re_job_valid r))
     \<or> list_ex definite (node_checks (ar_nodes (re_allocate r)))"

definition nodes_fixed :: "node_result list \<Rightarrow> bool" where
  "nodes_fixed nodes \<longleftrightarrow> list_all (\<lambda>n. recomputeNodeOutcome n = n) nodes"

lemma diagnose_no_definite:
  assumes "\<not> report_definite r" and "nodes_fixed (ar_nodes (re_allocate r))"
  shows "diagnoseReport r = closing_diagnosis r
    \<or> (\<exists>c \<in> set (re_checks r). chk_stage c = ''preflight'' \<and> \<not> chk_determinate c
        \<and> allSchedulingStagesSkipped r \<and> diagnoseReport r = open_diagnosis c)"
proof -
  let ?ns = "ar_nodes (re_allocate r)"
  have pre: "find (\<lambda>check. chk_stage check = ''preflight'' \<and> definite check) (re_checks r) = None"
    "find definite (er_checks (re_enqueue r)) = None"
    "find definite (concat (map wr_checks (jr_rows (re_job_valid r)))) = None"
    using assms(1) by (auto simp: report_definite_def find_None_iff list_ex_iff)
  have nodef: "\<not> list_ex definite (node_checks ?ns)" using assms(1) by (simp add: report_definite_def)
  have "list_ex (\<lambda>node. nr_passed node \<or> \<not> nr_determinate node) ?ns" if ne: "?ns \<noteq> []"
  proof -
    obtain n where n: "n \<in> set ?ns" using ne by (cases ?ns) auto
    then have fix_n: "recomputeNodeOutcome n = n" using assms(2) by (simp add: nodes_fixed_def list_all_iff)
    have "\<not> list_ex known_failure (nr_checks n)"
      using nodef n by (auto simp: node_checks_def list_ex_iff definite_known)
    then have "\<not> (nr_determinate n \<and> \<not> nr_passed n)" using recompute_failed [of n] by (simp add: fix_n)
    with n show ?thesis by (auto simp: list_ex_iff)
  qed
  then have node: "node_diagnosis r = closing_diagnosis r"
    by (auto simp: node_diagnosis_def Let_def common_failure_none [OF nodef])
  have stage: "stage_diagnosis r = closing_diagnosis r" by (simp add: stage_diagnosis_def pre node)
  show ?thesis
  proof (cases "if allSchedulingStagesSkipped r then
      find (\<lambda>check. \<not> (chk_stage check \<noteq> ''preflight'' \<or> chk_determinate check \<or> chk_skipped check)) (re_checks r)
      else None")
    case None
    then show ?thesis unfolding diagnoseReport_def pre None by (simp add: stage)
  next
    case (Some c)
    have d: "diagnoseReport r = open_diagnosis c" unfolding diagnoseReport_def pre Some by simp
    from Some have skip: "allSchedulingStagesSkipped r" and
      "find (\<lambda>check. \<not> (chk_stage check \<noteq> ''preflight'' \<or> chk_determinate check \<or> chk_skipped check)) (re_checks r) = Some c"
      by (simp_all split: if_splits)
    then have "c \<in> set (re_checks r) \<and> chk_stage c = ''preflight'' \<and> \<not> chk_determinate c"
      by (auto simp: find_Some_iff)
    with d skip show ?thesis by blast
  qed
qed


lemma diagnoseReport_diagnosis [simp]: "diagnoseReport (r\<lparr>re_diagnosis := d\<rparr>) = diagnoseReport r"
proof -
  have f: "re_checks (r\<lparr>re_diagnosis := d\<rparr>) = re_checks r" "re_enqueue (r\<lparr>re_diagnosis := d\<rparr>) = re_enqueue r"
    "re_job_valid (r\<lparr>re_diagnosis := d\<rparr>) = re_job_valid r" "re_allocate (r\<lparr>re_diagnosis := d\<rparr>) = re_allocate r"
    by simp_all
  show ?thesis
    unfolding diagnoseReport_def stage_diagnosis_def node_diagnosis_def closing_diagnosis_def
      allSchedulingStagesSkipped_def f ..
qed

lemma buildPresentation_eq:
  "buildPresentation now r ev =
     (let shown = r\<lparr>re_enqueue := buildEnqueuePresentation now r ev, re_job_valid := buildJobValidPresentation r ev,
        re_allocate := buildAllocatePresentation r ev\<rparr>
      in shown\<lparr>re_diagnosis := diagnoseReport shown\<rparr>)"
  by (simp add: buildPresentation_def Let_def build_frame)

lemma buildPresentation_fields [simp]:
  "re_enqueue (buildPresentation now r ev) = buildEnqueuePresentation now r ev"
  "re_job_valid (buildPresentation now r ev) = buildJobValidPresentation r ev"
  "re_allocate (buildPresentation now r ev) = buildAllocatePresentation r ev"
  "re_checks (buildPresentation now r ev) = re_checks r" "re_nodes (buildPresentation now r ev) = re_nodes r"
  "re_plugin_hooks (buildPresentation now r ev) = re_plugin_hooks r" "re_policy (buildPresentation now r ev) = re_policy r"
  "re_request (buildPresentation now r ev) = re_request r"
  "re_diagnosis (buildPresentation now r ev) = diagnoseReport (buildPresentation now r ev)"
  by (simp_all add: buildPresentation_eq Let_def)

section \<open>Properties\<close>

text \<open>C16: with one check per id on each node, the diagnosis shared by all nodes is sound and complete:
  the check it blames is a definite failure, of an id that fails on every node; and when some id
  other than the volume binding fails on every node, one such is found.\<close>

theorem common_failure_correct:
  assumes "list_all (\<lambda>n. distinct (map chk_id (nr_checks n))) nodes"
  shows "(case common_failure nodes of
      Some c \<Rightarrow> nodes \<noteq> [] \<and> known_failure c
        \<and> list_all (\<lambda>n. list_ex (\<lambda>x. known_failure x \<and> chk_id x = chk_id c) (nr_checks n)) nodes
    | None \<Rightarrow> nodes = [] \<or> i = ''node.pv-bind''
        \<or> \<not> list_all (\<lambda>n. list_ex (\<lambda>x. known_failure x \<and> chk_id x = i) (nr_checks n)) nodes)"
proof (cases "common_failure nodes")
  case None
  then show ?thesis using common_failure_complete [OF assms] by (auto simp: definite_known)
next
  case (Some c)
  then show ?thesis using common_failure_sound [OF assms Some] by (simp add: definite_known)
qed

definition tainted_node :: "string \<Rightarrow> node_result" where
  "tainted_node name = \<lparr>nr_name = name, nr_passed = False, nr_determinate = True, nr_resources = [],
     nr_checks = [Known ''node.taints'' ''allocate'' ''Taints'' False name []]\<rparr>"

theorem common_failure_correct_witness:
  "list_all (\<lambda>n. distinct (map chk_id (nr_checks n))) [tainted_node ''a'', tainted_node ''b'']
   \<and> common_failure [tainted_node ''a'', tainted_node ''b''] \<noteq> None"
proof -
  have d: "list_all (\<lambda>n. distinct (map chk_id (nr_checks n))) [tainted_node ''a'', tainted_node ''b'']"
    by (simp add: tainted_node_def)
  have "list_all (\<lambda>n. list_ex (\<lambda>x. known_failure x \<and> chk_id x = ''node.taints'') (nr_checks n))
      [tainted_node ''a'', tainted_node ''b'']"
    by (simp add: tainted_node_def)
  with d common_failure_correct [OF d, of "''node.taints''"] show ?thesis
    by (cases "common_failure [tainted_node ''a'', tainted_node ''b'']") simp_all
qed

section \<open>The diagnosis of a shown report\<close>

text \<open>The failures a shown report holds before its nodes, in the order of the scheduler.\<close>

definition early_checks :: "report \<Rightarrow> check list" where
  "early_checks r =
     filter (\<lambda>c. chk_stage c = ''preflight'') (re_checks r) @ er_checks (re_enqueue r)
       @ concat (map wr_checks (jr_rows (re_job_valid r)))"

lemma workloadRows_checks: "row \<in> set (workloadRows target tasks checks) \<Longrightarrow> wr_checks row = checks"
  by (auto simp: workloadRows_def Let_def split: option.splits)

text \<open>All stages are skipped only after a failed preflight, and then they show nothing but skipped checks.\<close>

lemma presented_skipped:
  assumes "allSchedulingStagesSkipped (buildPresentation now r ev)"
  shows "pe_preflight_stopped ev" and "ar_nodes (re_allocate (buildPresentation now r ev)) = []"
    and "find known_failure (er_checks (re_enqueue (buildPresentation now r ev))) = None"
    and "find known_failure (concat (map wr_checks (jr_rows (re_job_valid (buildPresentation now r ev))))) = None"
proof -
  show stop: "pe_preflight_stopped ev"
    using assms stages_skipped(1) [of now r ev] by (simp add: allSchedulingStagesSkipped_def)
  then show "ar_nodes (re_allocate (buildPresentation now r ev)) = []"
    by (simp add: buildAllocatePresentation_def)
  show "find known_failure (er_checks (re_enqueue (buildPresentation now r ev))) = None"
    using skipped_no_failure stop by (auto simp: buildEnqueuePresentation_def Let_def find_None_iff list_ex_iff)
  show "find known_failure (concat (map wr_checks (jr_rows (re_job_valid (buildPresentation now r ev))))) = None"
    using skipped_no_failure stop
    by (auto simp: buildJobValidPresentation_def Let_def find_None_iff list_ex_iff dest!: workloadRows_checks)
qed

lemma find_append: "find P (xs @ ys) = (case find P xs of Some x \<Rightarrow> Some x | None \<Rightarrow> find P ys)"
  by (induction xs) auto

lemma find_preflight:
  "find P (filter (\<lambda>c. chk_stage c = ''preflight'') cs) = find (\<lambda>c. chk_stage c = ''preflight'' \<and> P c) cs"
  by (induction cs) auto

lemma shown_nodes_fixed: "nodes_fixed (ar_nodes (re_allocate (buildPresentation now r ev)))"
  by (auto simp: nodes_fixed_def buildAllocatePresentation_def Let_def list_all_iff present_node_fixed)

lemma common_failure_member:
  assumes "common_failure nodes = Some c"
  shows "c \<in> set (node_checks nodes) \<and> known_failure c"
proof -
  obtain i where "0 < length (filter (\<lambda>c. definite c \<and> chk_id c = i) (node_checks nodes))"
    and c: "c = gm_or empty_check (snd (count_failures nodes)) i"
    using assms by (auto simp: common_failure_find find_Some_iff)
  then have "list_ex (\<lambda>c. definite c \<and> chk_id c = i) (node_checks nodes)"
    by (auto simp: filter_empty_conv list_ex_iff)
  from count_failures_check [OF this] show ?thesis by (auto simp: c definite_known)
qed

text \<open>What the node table alone leads to.\<close>

lemma node_diagnosis_cases:
  assumes "nodes_fixed (ar_nodes (re_allocate r))"
  defines "nodes \<equiv> ar_nodes (re_allocate r)"
  shows "list_ex (\<lambda>c. known_failure c \<and> node_diagnosis r = diagnosisForFailure c (qm_name (er_queue (re_enqueue r))))
        (node_checks nodes)
    \<or> nodes \<noteq> [] \<and> list_all (\<lambda>n. list_ex known_failure (nr_checks n)) nodes
        \<and> node_diagnosis r = counted_diagnosis (case count_failures nodes of (counts, checks) \<Rightarrow> counted_failures counts checks)
    \<or> (nodes = [] \<or> list_ex (\<lambda>n. \<not> list_ex known_failure (nr_checks n)) nodes) \<and> node_diagnosis r = closing_diagnosis r"
proof (cases "common_failure nodes")
  case (Some c)
  with common_failure_member [OF Some] show ?thesis
    by (auto simp: node_diagnosis_def Let_def nodes_def list_ex_iff)
next
  case None
  have failed: "list_ex known_failure (nr_checks n) \<longleftrightarrow> nr_determinate n \<and> \<not> nr_passed n" if "n \<in> set nodes" for n
  proof -
    have "recomputeNodeOutcome n = n" using assms(1) that by (simp add: nodes_fixed_def list_all_iff nodes_def)
    from recompute_failed [of n, unfolded this] show ?thesis by blast
  qed
  show ?thesis
  proof (cases "nodes \<noteq> [] \<and> \<not> list_ex (\<lambda>node. nr_passed node \<or> \<not> nr_determinate node) nodes")
    case True
    then have "list_all (\<lambda>n. list_ex known_failure (nr_checks n)) nodes"
      using failed by (auto simp: list_all_iff list_ex_iff)
    with True None show ?thesis by (simp add: node_diagnosis_def Let_def nodes_def)
  next
    case False
    then have "nodes = [] \<or> list_ex (\<lambda>n. \<not> list_ex known_failure (nr_checks n)) nodes"
      using failed by (auto simp: list_ex_iff)
    moreover have "node_diagnosis r = closing_diagnosis r"
      using False None by (simp only: node_diagnosis_def Let_def nodes_def [symmetric] option.case if_False)
    ultimately show ?thesis by blast
  qed
qed

text \<open>C15: the diagnosis of a report as it is shown, whatever was collected. The first definite failure in
  the order preflight, enqueue, JobValid is the one diagnosed, although an open preflight question is
  looked for before the stages: it is reported only when the preflight stopped everything, and then no
  stage shows a failure. Without such a failure, either a definite failure of a node is diagnosed; or
  there are nodes, each of them has a definite failure, and they are counted; or some node has none, or
  there is no node, and the diagnosis is a closing text; or it names the preflight question.\<close>

theorem diagnosis_of_shown_report:
  "(let shown = buildPresentation now r ev; nodes = ar_nodes (re_allocate shown);
        blame = (\<lambda>c. diagnosisForFailure c (qm_name (er_queue (re_enqueue shown))))
    in case find known_failure (early_checks shown) of
         Some c \<Rightarrow> re_diagnosis shown = blame c
       | None \<Rightarrow>
           list_ex (\<lambda>c. known_failure c \<and> re_diagnosis shown = blame c) (node_checks nodes)
           \<or> nodes \<noteq> [] \<and> list_all (\<lambda>n. list_ex known_failure (nr_checks n)) nodes
             \<and> re_diagnosis shown
               = counted_diagnosis (case count_failures nodes of (counts, checks) \<Rightarrow> counted_failures counts checks)
           \<or> (nodes = [] \<or> list_ex (\<lambda>n. \<not> list_ex known_failure (nr_checks n)) nodes)
             \<and> re_diagnosis shown = closing_diagnosis shown
           \<or> pe_preflight_stopped ev \<and> nodes = []
             \<and> list_ex (\<lambda>c. chk_stage c = ''preflight'' \<and> \<not> chk_determinate c \<and> \<not> chk_skipped c
                 \<and> re_diagnosis shown = open_diagnosis c) (re_checks r))"
proof -
  let ?p = "buildPresentation now r ev"
  let ?open = "find (\<lambda>check. \<not> (chk_stage check \<noteq> ''preflight'' \<or> chk_determinate check \<or> chk_skipped check)) (re_checks ?p)"
  have d: "re_diagnosis ?p = diagnoseReport ?p" by (rule buildPresentation_fields)
  note parts = diagnoseReport_def stage_diagnosis_def early_checks_def find_append find_preflight definite_known
  show ?thesis
  proof (cases "find known_failure (early_checks ?p)")
    case (Some c)
    have "diagnoseReport ?p = diagnosisForFailure c (qm_name (er_queue (re_enqueue ?p)))"
    proof (cases "allSchedulingStagesSkipped ?p")
      case True
      with Some presented_skipped [OF True] show ?thesis by (simp add: parts split: option.splits)
    next
      case False
      with Some show ?thesis by (simp add: parts Let_def split: option.splits)
    qed
    with Some d show ?thesis by simp
  next
    case None
    then have none: "find (\<lambda>c. chk_stage c = ''preflight'' \<and> known_failure c) (re_checks ?p) = None"
      "find known_failure (er_checks (re_enqueue ?p)) = None"
      "find known_failure (concat (map wr_checks (jr_rows (re_job_valid ?p)))) = None"
      by (simp_all add: parts split: option.splits)
    show ?thesis
    proof (cases "if allSchedulingStagesSkipped ?p then ?open else None")
      case None
      then have "diagnoseReport ?p = node_diagnosis ?p"
        unfolding diagnoseReport_def stage_diagnosis_def definite_known none None by simp
      with node_diagnosis_cases [OF shown_nodes_fixed [of now r ev]] d \<open>find known_failure (early_checks ?p) = None\<close>
      show ?thesis by (simp add: Let_def) blast
    next
      case (Some c)
      then have skip: "allSchedulingStagesSkipped ?p" and "?open = Some c" by (simp_all split: if_splits)
      then have "c \<in> set (re_checks r) \<and> chk_stage c = ''preflight'' \<and> \<not> chk_determinate c \<and> \<not> chk_skipped c"
        by (auto simp: find_Some_iff)
      moreover have "diagnoseReport ?p = open_diagnosis c"
        unfolding diagnoseReport_def definite_known none Some by simp
      ultimately show ?thesis
        using presented_skipped(1,2) [OF skip] d \<open>find known_failure (early_checks ?p) = None\<close>
        by (simp add: Let_def list_ex_iff) blast
    qed
  qed
qed

text \<open>A report whose stages show no definite failure is never given one: the diagnosis is then a
  closing text, or names the preflight check that could not be decided.\<close>

theorem no_blame_without_failure:
  assumes "\<not> report_definite (buildPresentation now r ev)"
  shows "re_diagnosis (buildPresentation now r ev) = closing_diagnosis (buildPresentation now r ev)
    \<or> list_ex (\<lambda>c. chk_stage c = ''preflight'' \<and> \<not> chk_determinate c
        \<and> re_diagnosis (buildPresentation now r ev) = open_diagnosis c) (re_checks r)"
proof -
  let ?p = "buildPresentation now r ev"
  have d: "re_diagnosis ?p = diagnoseReport ?p"
    by (rule buildPresentation_fields)
  from diagnose_no_definite [OF assms shown_nodes_fixed] d show ?thesis by (auto simp: list_ex_iff)
qed

theorem no_blame_without_failure_witness:
  "\<not> report_definite (buildPresentation 0 empty_report (empty_evidence\<lparr>pe_preflight_stopped := True\<rparr>))
   \<and> re_diagnosis (buildPresentation 0 empty_report (empty_evidence\<lparr>pe_preflight_stopped := True\<rparr>))
     = closing_diagnosis (buildPresentation 0 empty_report (empty_evidence\<lparr>pe_preflight_stopped := True\<rparr>))"
proof -
  let ?e = "empty_evidence\<lparr>pe_preflight_stopped := True\<rparr>"
  let ?p = "buildPresentation 0 empty_report ?e"
  have stop: "pe_preflight_stopped ?e" "pe_pod ?e = None" "pe_tasks ?e = []"
    by (simp_all add: empty_evidence_def)
  have no: "\<not> report_definite ?p"
    by (simp add: report_definite_def node_checks_def buildEnqueuePresentation_def buildJobValidPresentation_def
        buildAllocatePresentation_def stop Let_def workloadRows_def skippedChecks_def checksForStage_def
        empty_report_def)
  moreover have "re_checks empty_report = []" by (simp add: empty_report_def)
  ultimately show ?thesis using no_blame_without_failure [OF no] by simp
qed

end
