(* ===== verification/Report.thy ===== *)
theory Report
  imports Model
begin

text \<open>
  File \<open>internal/agent/report.go\<close>: the report is cut into one section per scheduler action, and
  \<open>Passed\<close> and \<open>Conclusion\<close> are read off the sections. The facts: \<open>buildActionReports\<close> is the map of
  one section function over an explicit list of names (\<open>action_plan\<close>), so every check, hook report
  and node ends up in the section of its stage and nowhere else, and the report passes exactly
  when every check, hook and node does.
\<close>

definition nativeActionCoverage :: "string \<Rightarrow> bool" where
  "nativeActionCoverage action = (action = ''enqueue'' \<or> action = ''allocate'')"

definition normalizedActionStage :: "string \<Rightarrow> string" where
  "normalizedActionStage stage =
     (if stage = ''validate'' then ''preflight''
      else if stage = ''filter'' \<or> stage = ''evidence'' \<or> stage = ''jobValid'' then ''allocate''
      else stage)"

section \<open>Nodes\<close>

record split_state =
  sp_nodes :: "node_result gomap"
  sp_known :: "bool gomap"
  sp_unknown :: "bool gomap"
  sp_order :: "string list"

definition fresh_node :: "string \<Rightarrow> node_result" where
  "fresh_node name = \<lparr>nr_name = name, nr_passed = True, nr_determinate = True, nr_resources = [],
     nr_checks = []\<rparr>"

definition split_check :: "string \<Rightarrow> check \<Rightarrow> split_state \<Rightarrow> split_state" where
  "split_check name check st =
     (let actionName = normalizedActionStage (chk_stage check);
          found = gm_has (sp_nodes st) actionName;
          actionNode = gm_or (fresh_node name) (sp_nodes st) actionName;
          actionNode' = actionNode\<lparr>nr_checks := nr_checks actionNode @ [check],
            nr_passed := nr_passed actionNode \<and> chk_passed check \<and> chk_determinate check\<rparr>
      in \<lparr>sp_nodes = gm_set actionName actionNode' (sp_nodes st),
          sp_known = gm_set actionName (gm_or False (sp_known st) actionName
            \<or> (chk_determinate check \<and> \<not> chk_passed check)) (sp_known st),
          sp_unknown = gm_set actionName (gm_or False (sp_unknown st) actionName
            \<or> \<not> chk_determinate check) (sp_unknown st),
          sp_order = (if found then sp_order st else sp_order st @ [actionName])\<rparr>)"

definition split_node :: "node_result \<Rightarrow> node_result list gomap \<Rightarrow> node_result list gomap" where
  "split_node node result =
     (let st = fold (split_check (nr_name node)) (nr_checks node)
            \<lparr>sp_nodes = [], sp_known = [], sp_unknown = [], sp_order = []\<rparr>
      in fold (\<lambda>actionName result.
           let actionNode = gm_or (fresh_node '''') (sp_nodes st) actionName;
               actionNode' = actionNode\<lparr>nr_determinate :=
                 gm_or False (sp_known st) actionName \<or> \<not> gm_or False (sp_unknown st) actionName\<rparr>
           in gm_set actionName (gm_or [] result actionName @ [actionNode']) result)
         (sp_order st) result)"

definition splitNodesByAction :: "node_result list \<Rightarrow> node_result list gomap" where
  "splitNodesByAction nodes = fold split_node nodes []"

section \<open>Action reports\<close>

definition observe :: "string \<Rightarrow> string list \<Rightarrow> string list" where
  "observe stage observedOrder =
     (if stage = '''' \<or> stage \<in> set observedOrder then observedOrder else observedOrder @ [stage])"

definition group_check ::
  "check \<Rightarrow> check list gomap \<times> string list \<Rightarrow> check list gomap \<times> string list" where
  "group_check check st =
     (let (checksByAction, observedOrder) = st; stage = normalizedActionStage (chk_stage check)
      in (gm_set stage (gm_or [] checksByAction stage @ [check]) checksByAction,
          observe stage observedOrder))"

definition group_plugin ::
  "plugin_hook_report \<Rightarrow> plugin_hook_report list gomap \<times> string list
    \<Rightarrow> plugin_hook_report list gomap \<times> string list" where
  "group_plugin plugin st =
     (let (pluginsByAction, observedOrder) = st; stage = normalizedActionStage (ph_action plugin)
      in (gm_set stage (gm_or [] pluginsByAction stage @ [plugin]) pluginsByAction,
          observe stage observedOrder))"

record action_maps =
  am_checks :: "check list gomap"
  am_plugins :: "plugin_hook_report list gomap"
  am_nodes :: "node_result list gomap"

definition appendAction ::
  "action_maps \<Rightarrow> string \<Rightarrow> bool \<Rightarrow> int \<Rightarrow> action_report list \<times> int gomap
    \<Rightarrow> action_report list \<times> int gomap" where
  "appendAction maps name configured order st =
     (let (actions, firstIndex) = st;
          action = \<lparr>ac_name = name, ac_order = order, ac_configured = configured, ac_checks = [],
            ac_plugins = [], ac_nodes = []\<rparr>;
          found = gm_has firstIndex name;
          firstIndex' = (if found then firstIndex else gm_set name (int (length actions)) firstIndex);
          action' = (if configured \<or> \<not> found then
              action\<lparr>ac_checks := gm_or [] (am_checks maps) name,
                ac_plugins := gm_or [] (am_plugins maps) name,
                ac_nodes := gm_or [] (am_nodes maps) name\<rparr>
            else action)
      in (actions @ [action'], firstIndex'))"

fun append_configured ::
  "action_maps \<Rightarrow> int \<Rightarrow> string list \<Rightarrow> action_report list \<times> int gomap
    \<Rightarrow> action_report list \<times> int gomap" where
  "append_configured maps order [] st = st"
| "append_configured maps order (action # actions) st =
     append_configured maps (order + 1) actions (appendAction maps action True order st)"

definition append_observed ::
  "action_maps \<Rightarrow> string \<Rightarrow> action_report list \<times> int gomap \<Rightarrow> action_report list \<times> int gomap" where
  "append_observed maps action st =
     (if action = ''preflight'' then st
      else if gm_has (snd st) action then st
      else appendAction maps action False (int (length (fst st))) st)"

definition text_coverage :: string where
  "text_coverage = ''the action is present in the observed scheduler configuration, but no deterministic local rule module reproduces its complete target-job control flow''"

definition coverage_check :: "string \<Rightarrow> check" where
  "coverage_check name =
     Unknown (''action.'' @ name @ ''.coverage'') name ''Configured action fully reproduced''
       text_coverage EvNil [''pkg/scheduler/actions/'' @ name]"

definition add_coverage :: "action_report \<Rightarrow> action_report" where
  "add_coverage action =
     (if \<not> ac_configured action \<or> nativeActionCoverage (ac_name action) then action
      else action\<lparr>ac_checks := ac_checks action @ [coverage_check (ac_name action)]\<rparr>)"

definition buildActionReports :: "report \<Rightarrow> action_report list" where
  "buildActionReports report =
     (let nodesByAction = splitNodesByAction (re_nodes report);
          (checksByAction, order1) = fold group_check (re_checks report) ([], []);
          order2 = fold observe (gm_keys nodesByAction) order1;
          (pluginsByAction, observedOrder) = fold group_plugin (re_plugin_hooks report) ([], order2);
          maps = \<lparr>am_checks = checksByAction, am_plugins = pluginsByAction, am_nodes = nodesByAction\<rparr>;
          st1 = (if ''preflight'' \<in> set observedOrder
                 then appendAction maps ''preflight'' False (-1) ([], []) else ([], []));
          st2 = append_configured maps 0 (po_actions (re_policy report)) st1;
          (actions, firstIndex) = fold (append_observed maps) observedOrder st2
      in map add_coverage actions)"

section \<open>The conclusion\<close>

definition knownFailures :: "report \<Rightarrow> string list" where
  "knownFailures report =
     map (\<lambda>check. chk_name check @ '': '' @ chk_reason check)
       (filter (\<lambda>check. chk_determinate check \<and> \<not> chk_passed check) (re_checks report)) @
     map (\<lambda>plugin. ph_action plugin @ '' plugin '' @ ph_plugin plugin @ '' '' @ ph_hook plugin @ '': '' @
            ph_reason plugin)
       (filter (\<lambda>plugin. ph_determinate plugin \<and> \<not> ph_passed plugin) (re_plugin_hooks report))"

definition hasUnknown :: "report \<Rightarrow> bool" where
  "hasUnknown report =
     (list_ex (\<lambda>check. \<not> chk_determinate check) (re_checks report)
      \<or> list_ex (\<lambda>plugin. \<not> ph_determinate plugin) (re_plugin_hooks report)
      \<or> list_ex (\<lambda>action. list_ex (\<lambda>check. \<not> chk_determinate check) (ac_checks action)) (re_actions report))"

definition newline_dash :: string where
  "newline_dash = [char_of (10 :: nat)] @ ''- ''"

definition text_all_passed :: string where
  "text_all_passed = ''All inspected action and plugin checks passed; inspect queue ordering, fairness, and scheduler runtime state.''"

definition text_no_failure :: string where
  "text_no_failure = ''Common deterministic rules found no failure; one or more configured action or branch-specific plugin checks require source and scheduler-log analysis.''"

definition action_passed :: "bool \<Rightarrow> action_report \<Rightarrow> bool" where
  "action_passed passed action =
     fold (\<lambda>node p. p \<and> nr_passed node \<and> nr_determinate node) (ac_nodes action)
       (fold (\<lambda>plugin p. p \<and> ph_passed plugin \<and> ph_determinate plugin) (ac_plugins action)
         (fold (\<lambda>check p. p \<and> chk_passed check \<and> chk_determinate check) (ac_checks action) passed))"

definition finalizeReport :: "report \<Rightarrow> report" where
  "finalizeReport report =
     (let report1 = report\<lparr>re_actions := buildActionReports report\<rparr>;
          report2 = report1\<lparr>re_passed := fold (\<lambda>action p. action_passed p action) (re_actions report1) True\<rparr>;
          failures = knownFailures report2
      in if failures \<noteq> [] then
           report2\<lparr>re_conclusion := ''Found '' @ fmt_n (length failures) @ '' deterministic failure(s):'' @
             newline_dash @ join failures newline_dash\<rparr>
         else if re_passed report2 then report2\<lparr>re_conclusion := text_all_passed\<rparr>
         else report2\<lparr>re_conclusion := text_no_failure\<rparr>)"

section \<open>Nodes per action\<close>

definition stage_of :: "check \<Rightarrow> string" where
  "stage_of c = normalizedActionStage (chk_stage c)"

definition check_ok :: "check \<Rightarrow> bool" where
  "check_ok c \<longleftrightarrow> chk_passed c \<and> chk_determinate c"

definition part_node :: "string \<Rightarrow> node_result \<Rightarrow> node_result" where
  "part_node a node =
     (let cs = filter (\<lambda>c. stage_of c = a) (nr_checks node)
      in \<lparr>nr_name = nr_name node, nr_passed = list_all check_ok cs,
          nr_determinate = list_ex (\<lambda>c. chk_determinate c \<and> \<not> chk_passed c) cs
            \<or> \<not> list_ex (\<lambda>c. \<not> chk_determinate c) cs,
          nr_resources = [], nr_checks = cs\<rparr>)"

definition has_stage :: "string \<Rightarrow> node_result \<Rightarrow> bool" where
  "has_stage a node = list_ex (\<lambda>c. stage_of c = a) (nr_checks node)"

definition split_inv :: "string \<Rightarrow> check list \<Rightarrow> split_state \<Rightarrow> bool" where
  "split_inv name cs st \<longleftrightarrow>
     (\<forall>a. gm_get (sp_nodes st) a =
        (if list_ex (\<lambda>c. stage_of c = a) cs
         then Some ((fresh_node name)\<lparr>nr_checks := filter (\<lambda>c. stage_of c = a) cs,
                nr_passed := list_all check_ok (filter (\<lambda>c. stage_of c = a) cs)\<rparr>) else None)
      \<and> gm_or False (sp_known st) a
        = list_ex (\<lambda>c. chk_determinate c \<and> \<not> chk_passed c) (filter (\<lambda>c. stage_of c = a) cs)
      \<and> gm_or False (sp_unknown st) a
        = list_ex (\<lambda>c. \<not> chk_determinate c) (filter (\<lambda>c. stage_of c = a) cs))
     \<and> distinct (sp_order st) \<and> set (sp_order st) = stage_of ` set cs"

lemma fresh_node_update:
  "(fresh_node n)\<lparr>nr_checks := [], nr_passed := True\<rparr> = fresh_node n"
  by (simp add: fresh_node_def)

lemma split_inv_step:
  assumes "split_inv name cs st"
  shows "split_inv name (cs @ [c]) (split_check name c st)"
proof -
  let ?a = "stage_of c"
  have node: "gm_or (fresh_node name) (sp_nodes st) ?a
      = (fresh_node name)\<lparr>nr_checks := filter (\<lambda>x. stage_of x = ?a) cs,
           nr_passed := list_all check_ok (filter (\<lambda>x. stage_of x = ?a) cs)\<rparr>"
  proof (cases "list_ex (\<lambda>x. stage_of x = ?a) cs")
    case True
    with assms show ?thesis by (simp add: split_inv_def gm_or_def)
  next
    case False
    then have "filter (\<lambda>x. stage_of x = ?a) cs = []" by (auto simp: filter_empty_conv list_ex_iff)
    with assms False show ?thesis by (simp add: split_inv_def gm_or_def fresh_node_update)
  qed
  have found: "gm_has (sp_nodes st) ?a = (?a \<in> stage_of ` set cs)"
    using assms by (auto simp: split_inv_def gm_has_def list_ex_iff image_iff; metis)
  have order: "distinct (sp_order (split_check name c st))
    \<and> set (sp_order (split_check name c st)) = stage_of ` set (cs @ [c])"
    using assms found by (auto simp: split_check_def stage_of_def Let_def split_inv_def)
  have st: "split_check name c st = \<lparr>sp_nodes = gm_set ?a
        ((fresh_node name)\<lparr>nr_checks := filter (\<lambda>x. stage_of x = ?a) (cs @ [c]),
           nr_passed := list_all check_ok (filter (\<lambda>x. stage_of x = ?a) (cs @ [c]))\<rparr>) (sp_nodes st),
      sp_known = gm_set ?a (gm_or False (sp_known st) ?a \<or> (chk_determinate c \<and> \<not> chk_passed c)) (sp_known st),
      sp_unknown = gm_set ?a (gm_or False (sp_unknown st) ?a \<or> \<not> chk_determinate c) (sp_unknown st),
      sp_order = sp_order (split_check name c st)\<rparr>"
    using node by (simp add: split_check_def stage_of_def [symmetric] Let_def check_ok_def conj_assoc)
  show ?thesis
    unfolding split_inv_def
  proof (intro conjI allI)
    fix a
    show "gm_get (sp_nodes (split_check name c st)) a =
        (if list_ex (\<lambda>c. stage_of c = a) (cs @ [c])
         then Some ((fresh_node name)\<lparr>nr_checks := filter (\<lambda>c. stage_of c = a) (cs @ [c]),
                nr_passed := list_all check_ok (filter (\<lambda>c. stage_of c = a) (cs @ [c]))\<rparr>) else None)"
      using assms by (subst st) (auto simp: split_inv_def)
    show "gm_or False (sp_known (split_check name c st)) a
        = list_ex (\<lambda>c. chk_determinate c \<and> \<not> chk_passed c) (filter (\<lambda>c. stage_of c = a) (cs @ [c]))"
      using assms by (subst st) (auto simp: split_inv_def)
    show "gm_or False (sp_unknown (split_check name c st)) a
        = list_ex (\<lambda>c. \<not> chk_determinate c) (filter (\<lambda>c. stage_of c = a) (cs @ [c]))"
      using assms by (subst st) (auto simp: split_inv_def)
  qed (use order in auto)
qed

lemma split_inv_fold:
  "split_inv name cs (fold (split_check name) cs \<lparr>sp_nodes = [], sp_known = [], sp_unknown = [], sp_order = []\<rparr>)"
proof (induction cs rule: rev_induct)
  case Nil
  show ?case by (simp add: split_inv_def)
next
  case (snoc c cs)
  then show ?case by (simp add: split_inv_step)
qed

lemma append_nodes_fold:
  "distinct order \<Longrightarrow>
   gm_or [] (fold (\<lambda>actionName result. gm_set actionName (gm_or [] result actionName @ [f actionName]) result)
       order result) a
     = gm_or [] result a @ (if a \<in> set order then [f a] else [])"
  by (induction order arbitrary: result) auto

lemma gm_or_split_node:
  "gm_or [] (split_node node result) a = gm_or [] result a @ (if has_stage a node then [part_node a node] else [])"
proof -
  define st where "st = fold (split_check (nr_name node)) (nr_checks node)
      \<lparr>sp_nodes = [], sp_known = [], sp_unknown = [], sp_order = []\<rparr>"
  define f where "f = (\<lambda>a. (gm_or (fresh_node '''') (sp_nodes st) a)
    \<lparr>nr_determinate := gm_or False (sp_known st) a \<or> \<not> gm_or False (sp_unknown st) a\<rparr>)"
  have inv: "split_inv (nr_name node) (nr_checks node) st" unfolding st_def by (rule split_inv_fold)
  have "f a = part_node a node" if "has_stage a node"
    using inv that by (simp add: f_def split_inv_def has_stage_def gm_or_def part_node_def fresh_node_def Let_def)
  moreover have "a \<in> set (sp_order st) \<longleftrightarrow> has_stage a node"
    using inv by (auto simp: split_inv_def has_stage_def list_ex_iff)
  moreover have "gm_or [] (split_node node result) a = gm_or [] result a @ (if a \<in> set (sp_order st) then [f a] else [])"
    using append_nodes_fold [of "sp_order st" f result a] inv
    by (simp add: split_node_def st_def [symmetric] f_def [abs_def] split_inv_def Let_def)
  ultimately show ?thesis by simp
qed

lemma splitNodesByAction_spec:
  "gm_or [] (splitNodesByAction nodes) a = map (part_node a) (filter (has_stage a) nodes)"
proof -
  have "gm_or [] (fold split_node nodes result) a
      = gm_or [] result a @ map (part_node a) (filter (has_stage a) nodes)" for result
    by (induction nodes arbitrary: result) (simp_all add: gm_or_split_node)
  from this [of "[]"] show ?thesis by (simp add: splitNodesByAction_def)
qed

section \<open>The sections\<close>

lemma set_observe: "set (observe s order) = set order \<union> ({s} - {''''})"
  by (auto simp: observe_def)

lemma distinct_observe: "distinct order \<Longrightarrow> distinct (observe s order)"
  by (simp add: observe_def)

lemma set_fold_observe: "set (fold observe ss order) = set order \<union> (set ss - {''''})"
  by (induction ss arbitrary: order) (auto simp: set_observe)

lemma distinct_fold_observe: "distinct order \<Longrightarrow> distinct (fold observe ss order)"
  by (induction ss arbitrary: order) (simp_all add: distinct_observe)

lemma group_check_fold:
  "fold group_check cs (m, order) = (m', order') \<Longrightarrow>
     gm_or [] m' a = gm_or [] m a @ filter (\<lambda>c. stage_of c = a) cs
     \<and> order' = fold observe (map stage_of cs) order"
proof (induction cs arbitrary: m order)
  case (Cons c cs)
  let ?m = "gm_set (stage_of c) (gm_or [] m (stage_of c) @ [c]) m"
  have "group_check c (m, order) = (?m, observe (stage_of c) order)"
    by (simp add: group_check_def stage_of_def Let_def)
  with Cons.prems have "fold group_check cs (?m, observe (stage_of c) order) = (m', order')" by simp
  from Cons.IH [OF this] show ?case by auto
qed simp

definition hook_stage :: "plugin_hook_report \<Rightarrow> string" where
  "hook_stage p = normalizedActionStage (ph_action p)"

lemma group_plugin_fold:
  "fold group_plugin ps (m, order) = (m', order') \<Longrightarrow>
     gm_or [] m' a = gm_or [] m a @ filter (\<lambda>p. hook_stage p = a) ps
     \<and> order' = fold observe (map hook_stage ps) order"
proof (induction ps arbitrary: m order)
  case (Cons p ps)
  let ?m = "gm_set (hook_stage p) (gm_or [] m (hook_stage p) @ [p]) m"
  have "group_plugin p (m, order) = (?m, observe (hook_stage p) order)"
    by (simp add: group_plugin_def hook_stage_def Let_def)
  with Cons.prems have "fold group_plugin ps (?m, observe (hook_stage p) order) = (m', order')" by simp
  from Cons.IH [OF this] show ?case by auto
qed simp

text \<open>The names of the sections, with whether they are configured and their order numbers.\<close>

definition observed_order :: "report \<Rightarrow> string list" where
  "observed_order r =
     fold observe (map stage_of (re_checks r) @ gm_keys (splitNodesByAction (re_nodes r)) @
       map hook_stage (re_plugin_hooks r)) []"

fun configured_plan :: "int \<Rightarrow> string list \<Rightarrow> (string \<times> bool \<times> int) list" where
  "configured_plan i [] = []"
| "configured_plan i (a # as) = (a, True, i) # configured_plan (i + 1) as"

definition extend_plan :: "string \<Rightarrow> (string \<times> bool \<times> int) list \<Rightarrow> (string \<times> bool \<times> int) list" where
  "extend_plan a plan =
     (if a = ''preflight'' \<or> a \<in> fst ` set plan then plan else plan @ [(a, False, int (length plan))])"

definition action_plan :: "report \<Rightarrow> (string \<times> bool \<times> int) list" where
  "action_plan r =
     fold extend_plan (observed_order r)
       ((if ''preflight'' \<in> set (observed_order r) then [(''preflight'', False, -1)] else [])
        @ configured_plan 0 (po_actions (re_policy r)))"

definition action_section :: "report \<Rightarrow> string \<times> bool \<times> int \<Rightarrow> action_report" where
  "action_section r e =
     (case e of (name, configured, order) \<Rightarrow>
       \<lparr>ac_name = name, ac_order = order, ac_configured = configured,
        ac_checks = filter (\<lambda>c. stage_of c = name) (re_checks r),
        ac_plugins = filter (\<lambda>p. hook_stage p = name) (re_plugin_hooks r),
        ac_nodes = map (part_node name) (filter (has_stage name) (re_nodes r))\<rparr>)"

definition plan_inv ::
  "report \<Rightarrow> action_report list \<times> int gomap \<Rightarrow> (string \<times> bool \<times> int) list \<Rightarrow> bool" where
  "plan_inv r st plan \<longleftrightarrow>
     fst st = map (action_section r) plan \<and> (\<forall>n. gm_has (snd st) n \<longleftrightarrow> n \<in> fst ` set plan)"

definition maps_of :: "report \<Rightarrow> action_maps \<Rightarrow> bool" where
  "maps_of r m \<longleftrightarrow> (\<forall>a. gm_or [] (am_checks m) a = filter (\<lambda>c. stage_of c = a) (re_checks r)
     \<and> gm_or [] (am_plugins m) a = filter (\<lambda>p. hook_stage p = a) (re_plugin_hooks r)
     \<and> gm_or [] (am_nodes m) a = map (part_node a) (filter (has_stage a) (re_nodes r)))"

lemma gm_has_set: "gm_has (gm_set k v m) n \<longleftrightarrow> n = k \<or> gm_has m n"
  by (simp add: gm_has_def)

lemma append_inv:
  assumes "plan_inv r st plan" and "maps_of r m" and "c \<or> n \<notin> fst ` set plan"
  shows "plan_inv r (appendAction m n c order st) (plan @ [(n, c, order)])"
proof -
  obtain actions firstIndex where st: "st = (actions, firstIndex)" by force
  have full: "c \<or> \<not> gm_has firstIndex n" using assms(1,3) by (auto simp: plan_inv_def st)
  have "snd (appendAction m n c order st)
      = (if gm_has firstIndex n then firstIndex else gm_set n (int (length actions)) firstIndex)"
    by (simp add: appendAction_def st Let_def)
  moreover have "fst (appendAction m n c order st) = actions @ [action_section r (n, c, order)]"
    using full assms(2) by (simp add: appendAction_def st Let_def action_section_def maps_of_def)
  ultimately show ?thesis using assms(1)
    by (auto simp: plan_inv_def st gm_has_set)
qed

lemma append_configured_inv:
  "plan_inv r st plan \<Longrightarrow> maps_of r m \<Longrightarrow>
     plan_inv r (append_configured m i actions st) (plan @ configured_plan i actions)"
proof (induction actions arbitrary: i st plan)
  case (Cons a as)
  from Cons.IH [OF append_inv [OF Cons.prems, of True a i] Cons.prems(2), of "i + 1"] show ?case by simp
qed simp

lemma append_observed_inv:
  assumes "plan_inv r st plan" and "maps_of r m"
  shows "plan_inv r (append_observed m a st) (extend_plan a plan)"
proof -
  have "length (fst st) = length plan" "gm_has (snd st) a \<longleftrightarrow> a \<in> fst ` set plan"
    using assms(1) by (auto simp: plan_inv_def)
  with append_inv [OF assms, of False a] assms(1) show ?thesis
    by (auto simp: append_observed_def extend_plan_def)
qed

lemma append_observed_fold:
  "plan_inv r st plan \<Longrightarrow> maps_of r m \<Longrightarrow>
     plan_inv r (fold (append_observed m) names st) (fold extend_plan names plan)"
proof (induction names arbitrary: st plan)
  case (Cons a names)
  from Cons.IH [OF append_observed_inv [OF Cons.prems] Cons.prems(2)] show ?case by simp
qed simp

lemma buildActionReports_plan:
  "buildActionReports r = map (\<lambda>e. add_coverage (action_section r e)) (action_plan r)"
proof -
  define N where "N = splitNodesByAction (re_nodes r)"
  obtain C o1 where C: "fold group_check (re_checks r) ([], []) = (C, o1)" by force
  define o2 where "o2 = fold observe (gm_keys N) o1"
  obtain Q ord where Q: "fold group_plugin (re_plugin_hooks r) ([], o2) = (Q, ord)" by force
  define m where "m = \<lparr>am_checks = C, am_plugins = Q, am_nodes = N\<rparr>"
  have ord: "ord = observed_order r"
    using group_check_fold [OF C] group_plugin_fold [OF Q]
    by (simp add: observed_order_def o2_def N_def)
  have maps: "maps_of r m"
    using group_check_fold [OF C] group_plugin_fold [OF Q]
    by (simp add: maps_of_def m_def N_def splitNodesByAction_spec)
  define st1 where "st1 = (if ''preflight'' \<in> set ord
    then appendAction m ''preflight'' False (-1) ([], []) else ([], []))"
  have nil: "plan_inv r ([], []) []" by (simp add: plan_inv_def gm_has_def)
  have "plan_inv r st1 (if ''preflight'' \<in> set ord then [(''preflight'', False, -1)] else [])"
    using append_inv [OF nil maps, of False "''preflight''" "-1"] nil by (simp add: st1_def)
  from append_observed_fold [OF append_configured_inv [OF this maps] maps]
  have inv: "plan_inv r (fold (append_observed m) ord (append_configured m 0 (po_actions (re_policy r)) st1))
      (action_plan r)"
    by (simp only: action_plan_def ord)
  have "buildActionReports r
      = map add_coverage (fst (fold (append_observed m) ord (append_configured m 0 (po_actions (re_policy r)) st1)))"
    unfolding buildActionReports_def Let_def N_def [symmetric] C prod.case o2_def [symmetric] Q
      m_def [symmetric] st1_def [symmetric]
    by (simp add: case_prod_beta)
  with inv show ?thesis by (simp add: plan_inv_def)
qed

lemma extend_plan_names:
  "fst ` set (fold extend_plan names plan) = fst ` set plan \<union> (set names - {''preflight''})"
  by (induction names arbitrary: plan) (auto simp: extend_plan_def)

lemma configured_plan_names: "fst ` set (configured_plan i as) = set as"
  by (induction as arbitrary: i) auto

text \<open>Every stage that occurs has a section.\<close>

lemma action_plan_names:
  "fst ` set (action_plan r) = set (observed_order r) \<union> set (po_actions (re_policy r))"
  by (auto simp: action_plan_def extend_plan_names image_Un configured_plan_names)

lemma gm_keys_split: "a \<in> set (gm_keys (splitNodesByAction nodes)) \<longleftrightarrow> list_ex (has_stage a) nodes"
proof -
  have ne: "\<forall>k v. gm_get (split_node node m) k = Some v \<longrightarrow> v \<noteq> []"
    if "\<forall>k v. gm_get m k = Some v \<longrightarrow> v \<noteq> []" for node and m :: "node_result list gomap"
  proof -
    have "\<forall>k v. gm_get (fold (\<lambda>a result. gm_set a (gm_or [] result a @ [f a]) result) order m) k = Some v \<longrightarrow> v \<noteq> []"
      for f :: "string \<Rightarrow> node_result" and order
      using that
    proof (induction order arbitrary: m)
      case (Cons a order)
      then have "\<forall>k v. gm_get (gm_set a (gm_or [] m a @ [f a]) m) k = Some v \<longrightarrow> v \<noteq> []" by simp
      then show ?case unfolding fold_simps by (rule Cons.IH)
    qed simp
    then show ?thesis by (simp add: split_node_def Let_def)
  qed
  have all_ne: "\<forall>k v. gm_get (fold split_node nodes m) k = Some v \<longrightarrow> v \<noteq> []"
    if "\<forall>k v. gm_get m k = Some v \<longrightarrow> v \<noteq> []" for nodes and m :: "node_result list gomap"
    using that
  proof (induction nodes arbitrary: m)
    case (Cons node nodes)
    show ?case unfolding fold_simps by (rule Cons.IH) (rule ne [OF Cons.prems])
  qed simp
  have "gm_get (splitNodesByAction nodes) a = Some v \<Longrightarrow> v \<noteq> []" for v
    using all_ne [of "[]" nodes] unfolding splitNodesByAction_def by simp
  then have "a \<in> set (gm_keys (splitNodesByAction nodes)) \<longleftrightarrow> gm_or [] (splitNodesByAction nodes) a \<noteq> []"
    using gm_get_None_keys [of "splitNodesByAction nodes" a]
    by (cases "gm_get (splitNodesByAction nodes) a") (auto simp: gm_or_def)
  then show ?thesis by (simp add: splitNodesByAction_spec filter_empty_conv list_ex_iff)
qed

lemma set_observed_order:
  "set (observed_order r) = (stage_of ` set (re_checks r) \<union> {a. list_ex (has_stage a) (re_nodes r)}
     \<union> hook_stage ` set (re_plugin_hooks r)) - {''''}"
  using gm_keys_split [of _ "re_nodes r"] by (auto simp: observed_order_def set_fold_observe)

section \<open>The verdict\<close>

lemma action_passed_iff:
  "action_passed p a \<longleftrightarrow> p \<and> list_all check_ok (ac_checks a)
     \<and> list_all (\<lambda>h. ph_passed h \<and> ph_determinate h) (ac_plugins a)
     \<and> list_all (\<lambda>n. nr_passed n \<and> nr_determinate n) (ac_nodes a)"
proof -
  have f: "fold (\<lambda>x p. p \<and> P x \<and> Q x) xs p = (p \<and> list_all (\<lambda>x. P x \<and> Q x) xs)"
    for P Q :: "'x \<Rightarrow> bool" and xs p
    by (induction xs arbitrary: p) auto
  show ?thesis unfolding action_passed_def f check_ok_def [abs_def] by blast
qed

lemma finalizeReport_actions [simp]: "re_actions (finalizeReport r) = buildActionReports r"
  by (simp add: finalizeReport_def Let_def)

lemma finalizeReport_same [simp]:
  "re_checks (finalizeReport r) = re_checks r" "re_nodes (finalizeReport r) = re_nodes r"
  "re_plugin_hooks (finalizeReport r) = re_plugin_hooks r" "re_policy (finalizeReport r) = re_policy r"
  "re_request (finalizeReport r) = re_request r" "re_enqueue (finalizeReport r) = re_enqueue r"
  "re_job_valid (finalizeReport r) = re_job_valid r" "re_allocate (finalizeReport r) = re_allocate r"
  "re_diagnosis (finalizeReport r) = re_diagnosis r"
  by (simp_all add: finalizeReport_def Let_def)

lemma buildActionReports_cong:
  "re_checks r = re_checks r' \<Longrightarrow> re_nodes r = re_nodes r' \<Longrightarrow> re_plugin_hooks r = re_plugin_hooks r' \<Longrightarrow>
   re_policy r = re_policy r' \<Longrightarrow> buildActionReports r = buildActionReports r'"
  by (simp add: buildActionReports_def)

lemma finalizeReport_passed_sections:
  "re_passed (finalizeReport r) \<longleftrightarrow> list_all (action_passed True) (buildActionReports r)"
proof -
  have "fold (\<lambda>a p. action_passed p a) as p = (p \<and> list_all (action_passed True) as)" for as p
    by (induction as arbitrary: p) (auto simp: action_passed_iff)
  then show ?thesis by (simp add: finalizeReport_def Let_def)
qed

lemma part_node_ok: "nr_passed (part_node a n) \<and> nr_determinate (part_node a n)
    \<longleftrightarrow> list_all check_ok (filter (\<lambda>c. stage_of c = a) (nr_checks n))"
  by (auto simp: part_node_def Let_def check_ok_def list_all_iff list_ex_iff)

lemma section_passed:
  "action_passed True (add_coverage (action_section r (n, c, i))) \<longleftrightarrow>
     (c \<longrightarrow> nativeActionCoverage n)
     \<and> list_all (\<lambda>x. stage_of x = n \<longrightarrow> check_ok x) (re_checks r)
     \<and> list_all (\<lambda>h. hook_stage h = n \<longrightarrow> ph_passed h \<and> ph_determinate h) (re_plugin_hooks r)
     \<and> list_all (\<lambda>m. list_all (\<lambda>x. stage_of x = n \<longrightarrow> check_ok x) (nr_checks m)) (re_nodes r)"
proof -
  have nodes: "list_all (\<lambda>m. nr_passed m \<and> nr_determinate m) (map (part_node n) (filter (has_stage n) (re_nodes r)))
      \<longleftrightarrow> list_all (\<lambda>m. list_all (\<lambda>x. stage_of x = n \<longrightarrow> check_ok x) (nr_checks m)) (re_nodes r)"
    by (simp add: list_all_iff part_node_ok has_stage_def list_ex_iff) blast
  have cov: "\<not> check_ok (coverage_check n)" by (simp add: check_ok_def coverage_check_def)
  have "list_all check_ok (filter (\<lambda>c. stage_of c = n) (re_checks r))
      \<longleftrightarrow> list_all (\<lambda>x. stage_of x = n \<longrightarrow> check_ok x) (re_checks r)"
    "list_all (\<lambda>h. ph_passed h \<and> ph_determinate h) (filter (\<lambda>p. hook_stage p = n) (re_plugin_hooks r))
      \<longleftrightarrow> list_all (\<lambda>h. hook_stage h = n \<longrightarrow> ph_passed h \<and> ph_determinate h) (re_plugin_hooks r)"
    by (auto simp: list_all_iff)
  with nodes cov show ?thesis
    by (auto simp: action_passed_iff add_coverage_def action_section_def)
qed

text \<open>The report passes exactly when everything that carries a stage does and every configured action is reproduced.\<close>

lemma finalizeReport_passed:
  "re_passed (finalizeReport r) \<longleftrightarrow>
     list_all nativeActionCoverage (po_actions (re_policy r))
     \<and> list_all (\<lambda>c. stage_of c = '''' \<or> check_ok c) (re_checks r)
     \<and> list_all (\<lambda>h. hook_stage h = '''' \<or> ph_passed h \<and> ph_determinate h) (re_plugin_hooks r)
     \<and> list_all (\<lambda>n. list_all (\<lambda>c. stage_of c = '''' \<or> check_ok c) (nr_checks n)) (re_nodes r)"
  if unnamed: "'''' \<notin> set (po_actions (re_policy r))"
proof -
  define OK where "OK n \<longleftrightarrow> list_all (\<lambda>x. stage_of x = n \<longrightarrow> check_ok x) (re_checks r)
     \<and> list_all (\<lambda>h. hook_stage h = n \<longrightarrow> ph_passed h \<and> ph_determinate h) (re_plugin_hooks r)
     \<and> list_all (\<lambda>m. list_all (\<lambda>x. stage_of x = n \<longrightarrow> check_ok x) (nr_checks m)) (re_nodes r)" for n
  have names: "fst ` set (action_plan r) = set (observed_order r) \<union> set (po_actions (re_policy r))"
    by (rule action_plan_names)
  have conf: "(\<forall>(n, c, i) \<in> set (action_plan r). c \<longrightarrow> nativeActionCoverage n)
      \<longleftrightarrow> list_all nativeActionCoverage (po_actions (re_policy r))"
  proof -
    have ext: "(n, True, i) \<in> set (fold extend_plan ns plan) \<longleftrightarrow> (n, True, i) \<in> set plan" for n i ns plan
      by (induction ns arbitrary: plan) (auto simp: extend_plan_def)
    have cp: "(\<exists>i. (n, True, i) \<in> set (configured_plan j as)) \<longleftrightarrow> n \<in> set as" for n j as
      by (induction as arbitrary: j) auto
    have key: "(\<exists>i. (n, True, i) \<in> set (action_plan r)) \<longleftrightarrow> n \<in> set (po_actions (re_policy r))" for n
      unfolding action_plan_def ext by (simp add: cp)
    have "(\<forall>(n, c, i) \<in> set (action_plan r). c \<longrightarrow> nativeActionCoverage n)
        \<longleftrightarrow> (\<forall>n. (\<exists>i. (n, True, i) \<in> set (action_plan r)) \<longrightarrow> nativeActionCoverage n)"
    proof (intro iffI allI impI ballI)
      fix n
      assume all: "\<forall>(n, c, i) \<in> set (action_plan r). c \<longrightarrow> nativeActionCoverage n"
        and "\<exists>i. (n, True, i) \<in> set (action_plan r)"
      then obtain i where "(n, True, i) \<in> set (action_plan r)" by blast
      from bspec [OF all this] show "nativeActionCoverage n" by simp
    next
      fix e
      assume all: "\<forall>n. (\<exists>i. (n, True, i) \<in> set (action_plan r)) \<longrightarrow> nativeActionCoverage n"
        and e: "e \<in> set (action_plan r)"
      obtain n c i where "e = (n, c, i)" by (metis prod_cases3)
      with all e show "case e of (n, c, i) \<Rightarrow> c \<longrightarrow> nativeActionCoverage n" by (cases c) auto
    qed
    then show ?thesis unfolding key list_all_iff by blast
  qed
  have "re_passed (finalizeReport r) \<longleftrightarrow>
      (\<forall>(n, c, i) \<in> set (action_plan r). c \<longrightarrow> nativeActionCoverage n) \<and> (\<forall>n \<in> fst ` set (action_plan r). OK n)"
  proof -
    have sec: "action_passed True (add_coverage (action_section r e))
        \<longleftrightarrow> (case e of (n, c, i) \<Rightarrow> c \<longrightarrow> nativeActionCoverage n) \<and> OK (fst e)" for e
      by (cases e) (simp add: section_passed OK_def)
    show ?thesis
      unfolding finalizeReport_passed_sections buildActionReports_plan
      by (simp add: list_all_iff sec ball_conj_distrib)
  qed
  also have "\<dots> \<longleftrightarrow> list_all nativeActionCoverage (po_actions (re_policy r)) \<and> (\<forall>n. n \<noteq> '''' \<longrightarrow> OK n)"
  proof -
    have "OK n" if n: "n \<notin> set (observed_order r)" "n \<noteq> ''''" for n
    proof -
      have "stage_of c \<noteq> n" if "c \<in> set (re_checks r)" for c
        using n that by (simp add: set_observed_order image_iff) blast
      moreover have "hook_stage h \<noteq> n" if "h \<in> set (re_plugin_hooks r)" for h
        using n that by (simp add: set_observed_order image_iff) blast
      moreover have "stage_of c \<noteq> n" if "m \<in> set (re_nodes r)" "c \<in> set (nr_checks m)" for m c
        using n that by (simp add: set_observed_order list_ex_iff has_stage_def)
      ultimately show ?thesis unfolding OK_def list_all_iff by blast
    qed
    moreover have "'''' \<notin> fst ` set (action_plan r)" using unnamed by (simp add: names set_observed_order)
    ultimately have "(\<forall>n \<in> fst ` set (action_plan r). OK n) \<longleftrightarrow> (\<forall>n. n \<noteq> '''' \<longrightarrow> OK n)"
      unfolding names by (metis UnI1)
    then show ?thesis unfolding conf by simp
  qed
  also have "(\<forall>n. n \<noteq> '''' \<longrightarrow> OK n) \<longleftrightarrow>
     list_all (\<lambda>c. stage_of c = '''' \<or> check_ok c) (re_checks r)
     \<and> list_all (\<lambda>h. hook_stage h = '''' \<or> ph_passed h \<and> ph_determinate h) (re_plugin_hooks r)
     \<and> list_all (\<lambda>n. list_all (\<lambda>c. stage_of c = '''' \<or> check_ok c) (nr_checks n)) (re_nodes r)"
    unfolding OK_def list_all_iff by blast
  finally show ?thesis .
qed

lemma knownFailures_empty:
  "knownFailures r = [] \<longleftrightarrow>
     list_all (\<lambda>c. \<not> (chk_determinate c \<and> \<not> chk_passed c)) (re_checks r)
     \<and> list_all (\<lambda>h. \<not> (ph_determinate h \<and> \<not> ph_passed h)) (re_plugin_hooks r)"
  by (auto simp: knownFailures_def filter_empty_conv list_all_iff)

lemma finalizeReport_bad:
  assumes "c \<in> set (re_checks r)" and "stage_of c \<noteq> ''''" and "\<not> check_ok c"
  shows "\<not> re_passed (finalizeReport r)"
proof -
  have "stage_of c \<in> fst ` set (action_plan r)"
    using assms by (simp add: action_plan_names set_observed_order)
  then obtain p i where "(stage_of c, p, i) \<in> set (action_plan r)" by force
  moreover have "\<not> action_passed True (add_coverage (action_section r (stage_of c, p, i)))"
    using assms unfolding section_passed by (auto simp: list_all_iff)
  ultimately show ?thesis
    unfolding finalizeReport_passed_sections buildActionReports_plan by (force simp: list_all_iff)
qed

lemma finalizeReport_conclusion: "\<not> re_passed (finalizeReport r) \<Longrightarrow> re_conclusion (finalizeReport r) \<noteq> text_all_passed"
proof -
  have "''Found '' @ x \<noteq> text_all_passed" "text_no_failure \<noteq> text_all_passed" for x
    by (simp_all add: text_all_passed_def text_no_failure_def)
  then show "\<not> re_passed (finalizeReport r) \<Longrightarrow> re_conclusion (finalizeReport r) \<noteq> text_all_passed"
    by (auto simp: finalizeReport_def Let_def)
qed

lemma finalizeReport_open:
  assumes "c \<in> set (re_checks r)" and "stage_of c \<noteq> ''''" and "\<not> chk_determinate c"
  shows "\<not> re_passed (finalizeReport r)" and "re_conclusion (finalizeReport r) \<noteq> text_all_passed"
  using finalizeReport_bad [OF assms(1,2)] finalizeReport_conclusion [of r] assms(3)
  by (simp_all add: check_ok_def)

section \<open>Properties\<close>

lemma section_names: "map ac_name (buildActionReports r) = map fst (action_plan r)"
  by (simp add: buildActionReports_plan action_section_def add_coverage_def case_prod_beta if_distrib [of ac_name])

text \<open>C3: the sections of a finished report, computed by the grouping maps, the first-index map and
  the append loop of \<open>buildActionReports\<close>, are one section per entry of \<open>action_plan\<close>: preflight
  first when it was observed, then the configured actions numbered from 0, then each observed
  action that is not yet there. A section holds exactly the checks, plugin hooks and node parts of
  its stage, in their order, and a configured action without a native module gets one more, open,
  coverage check.\<close>

theorem report_sections:
  "re_actions (finalizeReport r) =
     map (\<lambda>(name, configured, order). add_coverage
        \<lparr>ac_name = name, ac_order = order, ac_configured = configured,
         ac_checks = filter (\<lambda>c. stage_of c = name) (re_checks r),
         ac_plugins = filter (\<lambda>p. hook_stage p = name) (re_plugin_hooks r),
         ac_nodes = map (part_node name) (filter (has_stage name) (re_nodes r))\<rparr>) (action_plan r)
   \<and> fst ` set (action_plan r) =
       (stage_of ` set (re_checks r) \<union> {a. list_ex (has_stage a) (re_nodes r)}
         \<union> hook_stage ` set (re_plugin_hooks r)) - {''''} \<union> set (po_actions (re_policy r))"
proof
  show "re_actions (finalizeReport r) =
     map (\<lambda>(name, configured, order). add_coverage
        \<lparr>ac_name = name, ac_order = order, ac_configured = configured,
         ac_checks = filter (\<lambda>c. stage_of c = name) (re_checks r),
         ac_plugins = filter (\<lambda>p. hook_stage p = name) (re_plugin_hooks r),
         ac_nodes = map (part_node name) (filter (has_stage name) (re_nodes r))\<rparr>) (action_plan r)"
    by (simp add: buildActionReports_plan action_section_def case_prod_beta')
qed (simp add: action_plan_names set_observed_order)

text \<open>C30: A report passes exactly when every configured action has a native module and every check,
  plugin hook and node check that belongs to a stage passed and is certain; no empty action name is
  assumed (the configuration parser drops them).\<close>

theorem report_passes_iff:
  "'''' \<notin> set (po_actions (re_policy r)) \<Longrightarrow>
   re_passed (finalizeReport r) \<longleftrightarrow>
     list_all nativeActionCoverage (po_actions (re_policy r))
     \<and> list_all (\<lambda>c. stage_of c = '''' \<or> check_ok c) (re_checks r)
     \<and> list_all (\<lambda>h. hook_stage h = '''' \<or> ph_passed h \<and> ph_determinate h) (re_plugin_hooks r)
     \<and> list_all (\<lambda>n. list_all (\<lambda>c. stage_of c = '''' \<or> check_ok c) (nr_checks n)) (re_nodes r)"
  by (rule finalizeReport_passed)

definition sample_report :: report where
  "sample_report = empty_report
     \<lparr>re_policy := empty_policy\<lparr>po_actions := [''enqueue'', ''allocate'']\<rparr>,
      re_checks := [Known ''pod'' ''validate'' ''Pod exists'' True '''' [],
                    Unknown ''queue'' ''enqueue'' ''Queue capacity'' '''' EvNil []]\<rparr>"

theorem report_passes_iff_witness:
  "'''' \<notin> set (po_actions (re_policy sample_report)) \<and> \<not> re_passed (finalizeReport sample_report)
   \<and> re_passed (finalizeReport (sample_report\<lparr>re_checks := take 1 (re_checks sample_report)\<rparr>))"
proof -
  have a: "po_actions (re_policy sample_report) = [''enqueue'', ''allocate'']" by (simp add: sample_report_def)
  then have "\<not> re_passed (finalizeReport sample_report)"
    by (subst report_passes_iff) (simp_all add: sample_report_def check_ok_def stage_of_def
      normalizedActionStage_def)
  moreover have "re_passed (finalizeReport (sample_report\<lparr>re_checks := take 1 (re_checks sample_report)\<rparr>))"
    using a by (subst report_passes_iff) (simp_all add: sample_report_def check_ok_def stage_of_def
      normalizedActionStage_def nativeActionCoverage_def empty_report_def)
  ultimately show ?thesis using a by simp
qed

text \<open>One check that could not be decided is enough: the report is then never passed, and never
  carries the conclusion that everything passed.\<close>

theorem open_check_never_passes:
  assumes "list_ex (\<lambda>c. stage_of c \<noteq> '''' \<and> \<not> chk_determinate c) (re_checks r)"
  shows "\<not> re_passed (finalizeReport r) \<and> re_conclusion (finalizeReport r) \<noteq> text_all_passed"
  using assms finalizeReport_open by (auto simp: list_ex_iff)

theorem open_check_never_passes_witness:
  "list_ex (\<lambda>c. stage_of c \<noteq> '''' \<and> \<not> chk_determinate c) (re_checks sample_report)
   \<and> \<not> re_passed (finalizeReport sample_report) \<and> re_conclusion (finalizeReport sample_report) \<noteq> text_all_passed"
proof -
  have "list_ex (\<lambda>c. stage_of c \<noteq> '''' \<and> \<not> chk_determinate c) (re_checks sample_report)"
    by (simp add: sample_report_def stage_of_def normalizedActionStage_def)
  with open_check_never_passes [OF this] show ?thesis by simp
qed

text \<open>\<open>finalizeReport\<close>, which the analyzer runs twice around the synchronisation, is
  idempotent.\<close>

theorem finalizeReport_idempotent: "finalizeReport (finalizeReport r) = finalizeReport r"
proof -
  define P where "P x = fold (\<lambda>action p. action_passed p action) (buildActionReports x) True" for x
  define K where "K x = (if knownFailures x \<noteq> [] then
        ''Found '' @ fmt_n (length (knownFailures x)) @ '' deterministic failure(s):'' @
          newline_dash @ join (knownFailures x) newline_dash
      else if P x then text_all_passed else text_no_failure)" for x
  have k: "knownFailures (x\<lparr>re_actions := a, re_passed := p\<rparr>) = knownFailures x" for x a p
    by (simp add: knownFailures_def)
  have F: "finalizeReport x = x\<lparr>re_actions := buildActionReports x, re_passed := P x, re_conclusion := K x\<rparr>" for x
    by (simp only: finalizeReport_def Let_def k K_def P_def report.simps report.select_convs
      report.update_convs cong: if_cong) simp
  have b: "buildActionReports (finalizeReport r) = buildActionReports r"
    by (rule buildActionReports_cong) simp_all
  have f: "knownFailures (finalizeReport r) = knownFailures r" by (simp add: knownFailures_def)
  show ?thesis
    unfolding F [of "finalizeReport r"] b K_def f P_def unfolding F K_def P_def by simp
qed

end
