(* ===== verification/Runtime_Policy.thy ===== *)
theory Runtime_Policy
  imports Model
begin

text \<open>
  File \<open>internal/agent/runtime/policy.go\<close>: the scheduler policy copied from the parsed
  configuration, and the preflight checks about it. The facts: the checks are well formed and of
  stage \<open>preflight\<close>, none of them is a definite failure, the last one is never determinate,
  and the policy is never said to be active in memory.
\<close>

definition schedulerPolicySources :: "string list" where
  "schedulerPolicySources =
     [''pkg/scheduler/util.go:UnmarshalSchedulerConf'', ''pkg/scheduler/scheduler.go:runOnce'',
      ''pkg/scheduler/framework/framework.go:OpenSession'']"

definition sortedKeys :: "any_val gomap \<Rightarrow> string list" where
  "sortedKeys values = sort_strings (gm_keys values)"

fun booleanOptions :: "any_val gomap \<Rightarrow> bool gomap" where
  "booleanOptions [] = []"
| "booleanOptions ((key, value) # values) =
     (case value of
        AnyBool boolean \<Rightarrow> (key, boolean) # booleanOptions values
      | _ \<Rightarrow> booleanOptions values)"

text \<open>The two range loops, with the index Go's \<open>range\<close> counts.\<close>

definition policy_plugin :: "int \<Rightarrow> int \<Rightarrow> scheduler_plugin \<Rightarrow> configured_plugin" where
  "policy_plugin tierIndex pluginIndex configuredPlugin =
     \<lparr>pl_name = sp_name configuredPlugin, pl_tier = tierIndex, pl_order = pluginIndex,
      pl_argument_keys = sortedKeys (sp_arguments configuredPlugin),
      pl_option_keys = sortedKeys (sp_options configuredPlugin),
      pl_arguments = booleanOptions (sp_arguments configuredPlugin),
      pl_options = booleanOptions (sp_options configuredPlugin)\<rparr>"

fun policy_plugins :: "int \<Rightarrow> int \<Rightarrow> scheduler_plugin list \<Rightarrow> configured_plugin list" where
  "policy_plugins tierIndex i [] = []"
| "policy_plugins tierIndex i (p # ps) =
     policy_plugin tierIndex i p # policy_plugins tierIndex (i + 1) ps"

fun policy_tiers :: "int \<Rightarrow> scheduler_tier list \<Rightarrow> plugin_tier list" where
  "policy_tiers i [] = []"
| "policy_tiers i (t # ts) =
     \<lparr>ti_order = i, ti_plugins = policy_plugins i 0 (sti_plugins t)\<rparr> # policy_tiers (i + 1) ts"

definition schedulerPolicy :: "runtime_config \<Rightarrow> scheduler_policy" where
  "schedulerPolicy c =
     \<lparr>po_determinate = rc_determinate c, po_active = False, po_reason = rc_reason c,
      po_namespace = rc_namespace c, po_pod = rc_pod c, po_uid = rc_uid c,
      po_conf_path = rc_conf_path c, po_cm_namespace = rc_cm_namespace c,
      po_cm_name = rc_cm_name c, po_cm_key = rc_cm_key c, po_cm_uid = rc_cm_uid c,
      po_cm_version = rc_cm_version c, po_actions = rc_actions c,
      po_tiers = policy_tiers 0 (rc_tiers c)\<rparr>"

definition text_active_unproved :: string where
  "text_active_unproved =
     ''the ConfigMap informer proves the mounted document version, but volume projection and scheduler fsnotify reload are eventually consistent; scheduler reload logs are required to prove the in-memory Session uses it''"

definition ObservePolicy ::
  "runtime_config \<Rightarrow> go_error option \<Rightarrow> scheduler_policy \<times> check list" where
  "ObservePolicy configuration configurationErr =
     (let policy = schedulerPolicy configuration in
      case configurationErr of
        Some e \<Rightarrow>
          (policy,
           [Unknown ''scheduler.policy.observed'' ''preflight''
              ''Scheduler policy loaded from informer cache'' (err_text e) EvNil
              schedulerPolicySources])
      | None \<Rightarrow>
          if \<not> rc_determinate configuration then
            (policy,
             [Unknown ''scheduler.policy.observed'' ''preflight''
                ''Scheduler policy loaded from informer cache'' (rc_reason configuration)
                (EvPolicy policy) schedulerPolicySources])
          else
            (let observed =
               (Known ''scheduler.policy.observed'' ''preflight''
                  ''Mounted scheduler ConfigMap parsed'' True
                  (''observed '' @ rc_cm_namespace configuration @ ''/'' @
                   rc_cm_name configuration @ '' key='' @ rc_cm_key configuration @ '' uid='' @
                   rc_cm_uid configuration @ '' resourceVersion='' @
                   rc_cm_version configuration @ ''; actions='' @
                   fmt_strs (rc_actions configuration))
                  schedulerPolicySources)\<lparr>chk_evidence := EvPolicy policy\<rparr>;
             active =
               Unknown ''scheduler.policy.active'' ''preflight''
                 ''Observed scheduler policy is active in memory''
                 text_active_unproved
                 (EvStrMap [(''configMapUID'', rc_cm_uid configuration),
                   (''configMapResourceVersion'', rc_cm_version configuration)])
                 schedulerPolicySources
             in (policy, [observed, active])))"

section \<open>Facts\<close>

lemma schedulerPolicy_not_active [simp]: "\<not> po_active (schedulerPolicy c)"
  by (simp add: schedulerPolicy_def)

lemma ObservePolicy_policy [simp]: "fst (ObservePolicy c e) = schedulerPolicy c"
  by (simp add: ObservePolicy_def Let_def split: option.split)

lemma ObservePolicy_nonempty [simp]: "snd (ObservePolicy c e) \<noteq> []"
  by (simp add: ObservePolicy_def Let_def split: option.split)

text \<open>Whatever the cluster answers, the last check of the policy is open.\<close>

lemma ObservePolicy_last_open: "\<not> chk_determinate (last (snd (ObservePolicy c e)))"
  by (simp add: ObservePolicy_def Let_def split: option.split)

lemma ObservePolicy_open: "\<exists>k \<in> set (snd (ObservePolicy c e)). \<not> chk_determinate k"
  using ObservePolicy_last_open last_in_set [OF ObservePolicy_nonempty] by blast

lemma ObservePolicy_no_failure: "k \<in> set (snd (ObservePolicy c e)) \<Longrightarrow> \<not> known_failure k"
  by (cases e; cases "rc_determinate c") (auto simp: ObservePolicy_def Let_def)

lemma ObservePolicy_wf: "k \<in> set (snd (ObservePolicy c e)) \<Longrightarrow> check_wf k"
  by (cases e; cases "rc_determinate c") (auto simp: ObservePolicy_def Let_def)

lemma ObservePolicy_stage: "k \<in> set (snd (ObservePolicy c e)) \<Longrightarrow> chk_stage k = ''preflight''"
  by (cases e; cases "rc_determinate c") (auto simp: ObservePolicy_def Let_def)

interpretation policy: check_emitter "\<lambda>(c, e). snd (ObservePolicy c e)" "{''preflight''}"
  by unfold_locales (auto dest: ObservePolicy_wf ObservePolicy_stage)

lemma length_policy_plugins [simp]: "length (policy_plugins t i ps) = length ps"
  by (induction ps arbitrary: i) auto

lemma nth_policy_plugins:
  "j < length ps \<Longrightarrow> policy_plugins t i ps ! j = policy_plugin t (i + int j) (ps ! j)"
proof (induction ps arbitrary: i j)
  case (Cons p ps)
  then show ?case by (cases j) (simp_all add: algebra_simps)
qed simp

lemma length_policy_tiers [simp]: "length (policy_tiers i ts) = length ts"
  by (induction ts arbitrary: i) auto

lemma nth_policy_tiers:
  "j < length ts \<Longrightarrow> policy_tiers i ts ! j
    = \<lparr>ti_order = i + int j, ti_plugins = policy_plugins (i + int j) 0 (sti_plugins (ts ! j))\<rparr>"
proof (induction ts arbitrary: i j)
  case (Cons t ts)
  then show ?case by (cases j) (simp_all add: algebra_simps)
qed simp

text \<open>Every plugin of the policy carries its own position in the configuration.\<close>

lemma policy_plugin_position:
  assumes "t < length (rc_tiers c)" and "j < length (sti_plugins (rc_tiers c ! t))"
  shows "ti_plugins (po_tiers (schedulerPolicy c) ! t) ! j
    = policy_plugin (int t) (int j) (sti_plugins (rc_tiers c ! t) ! j)"
  using assms by (simp add: schedulerPolicy_def nth_policy_tiers nth_policy_plugins)

lemma keys_booleanOptions: "set (gm_keys (booleanOptions m)) \<subseteq> set (gm_keys m)"
proof (induction m rule: booleanOptions.induct)
  case (2 k v m)
  then show ?case by (cases v) (simp_all add: gm_keys_def subset_insertI2)
qed (simp add: gm_keys_def)

lemma gm_ok_booleanOptions: "gm_ok m \<Longrightarrow> gm_ok (booleanOptions m)"
proof (induction m rule: booleanOptions.induct)
  case (2 k v m)
  with keys_booleanOptions [of m] show ?case by (cases v) (auto simp: gm_ok_Cons)
qed simp

text \<open>The explicit options are exactly the boolean entries.\<close>

lemma gm_get_booleanOptions:
  "gm_ok m \<Longrightarrow> gm_get (booleanOptions m) k
    = (case gm_get m k of Some (AnyBool b) \<Rightarrow> Some b | _ \<Rightarrow> None)"
proof (induction m rule: booleanOptions.induct)
  case (2 k' v m)
  then have "gm_get m k' = None" by (simp add: gm_ok_Cons gm_get_None_keys)
  with 2 show ?case by (cases v) (simp_all add: gm_ok_Cons gm_get_Cons)
qed simp

section \<open>Property\<close>

text \<open>The observed policy is never established as active: whatever the configuration and the
  error of reading it, the policy says so, none of its preflight checks is a definite failure,
  and the last of them stays undetermined.\<close>

theorem policy_never_established:
  "\<not> po_active (fst (ObservePolicy c e))
   \<and> list_all (\<lambda>k. \<not> known_failure k \<and> chk_stage k = ''preflight'') (snd (ObservePolicy c e))
   \<and> \<not> chk_determinate (last (snd (ObservePolicy c e)))"
  using ObservePolicy_no_failure ObservePolicy_stage ObservePolicy_last_open
  by (simp add: list_all_iff)

end
