(* ===== verification/Go_Paths.thy ===== *)
theory Go_Paths
  imports Go_Strings
begin

text \<open>
  What the source uses of Go's \<open>path/filepath\<close> on Unix: \<open>Clean\<close>, \<open>Dir\<close>, \<open>Base\<close>, \<open>IsAbs\<close>, \<open>Join\<close> and
  \<open>Rel\<close>; \<open>ToSlash\<close> and \<open>FromSlash\<close> are the identity there. The facts: a cleaned path has no empty, dot
  or inner dot-dot element, cleaning is idempotent, and for absolute paths the test the program makes on
  the result of \<open>Rel\<close> is exactly that the one path lies below the other.
\<close>

section \<open>Cleaning\<close>

text \<open>\<open>clean_step\<close> keeps the elements already cleaned, last one first.\<close>

definition clean_step :: "bool \<Rightarrow> string list \<Rightarrow> string \<Rightarrow> string list" where
  "clean_step rooted out e =
     (if e = '''' \<or> e = ''.'' then out
      else if e = ''..'' then
        (case out of
           [] \<Rightarrow> if rooted then [] else [''..'']
         | d # ds \<Rightarrow> if d = ''..'' then ''..'' # out else ds)
      else e # out)"

definition is_abs :: "string \<Rightarrow> bool" where
  "is_abs path = has_prefix path ''/''"

definition clean_parts :: "string \<Rightarrow> string list" where
  "clean_parts path = rev (foldl (clean_step (is_abs path)) [] (split_on CHR ''/'' path))"

definition path_clean :: "string \<Rightarrow> string" where
  "path_clean path =
     (if is_abs path then ''/'' @ join (clean_parts path) ''/''
      else if clean_parts path = [] then ''.'' else join (clean_parts path) ''/'')"

definition path_dir :: "string \<Rightarrow> string" where
  "path_dir path = path_clean (take (nat (last_index path ''/'' + 1)) path)"

definition path_base :: "string \<Rightarrow> string" where
  "path_base path =
     (if path = '''' then ''.''
      else (let p = rev (dropWhile (\<lambda>c. c = CHR ''/'') (rev path))
            in if p = '''' then ''/'' else last (split_on CHR ''/'' p)))"

text \<open>\<open>Join\<close> skips leading empty elements.\<close>

definition path_join :: "string list \<Rightarrow> string" where
  "path_join elems =
     (let es = dropWhile (\<lambda>e. e = '''') elems in if es = [] then '''' else path_clean (join es ''/''))"

section \<open>Relative paths\<close>

definition rel_parts :: "string \<Rightarrow> string list" where
  "rel_parts p = (if p = '''' then [] else if p = ''/'' then [''''] else split_on CHR ''/'' p)"

fun strip_common :: "string list \<Rightarrow> string list \<Rightarrow> string list \<times> string list" where
  "strip_common (x # xs) (y # ys) = (if x = y then strip_common xs ys else (x # xs, y # ys))"
| "strip_common xs ys = (xs, ys)"

definition path_rel :: "string \<Rightarrow> string \<Rightarrow> go_error + string" where
  "path_rel basepath targpath =
     (let targ = path_clean targpath; cleaned = path_clean basepath;
          base = (if cleaned = ''.'' then '''' else cleaned);
          failed = errorf (''Rel: can't make '' @ targpath @ '' relative to '' @ basepath)
      in if targ = cleaned then Inr ''.''
         else if is_abs base \<noteq> is_abs targ then Inl failed
         else (let (up, down) = strip_common (rel_parts base) (rel_parts targ)
               in if up \<noteq> [] \<and> hd up = ''..'' then Inl failed
                  else Inr (join (map (\<lambda>_. ''..'') up @ down) ''/'')))"

text \<open>The test the program makes on a relative path: it does not leave the base.\<close>

definition leaves_base :: "string \<Rightarrow> bool" where
  "leaves_base relative \<longleftrightarrow> relative = ''..'' \<or> has_prefix relative ''../''"

section \<open>Facts\<close>

lemma split_on_prefix: "c \<notin> set w \<Longrightarrow> has_prefix s (w @ [c]) \<Longrightarrow> hd (split_on c s) = w"
  by (auto simp: has_prefix_def prefix_def split_on_append_sep)

definition path_element :: "string \<Rightarrow> bool" where
  "path_element e \<longleftrightarrow> e \<noteq> '''' \<and> e \<noteq> ''.'' \<and> CHR ''/'' \<notin> set e"

text \<open>The elements of a cleaned path: dot-dots only in front, and none in an absolute path.\<close>

definition clean_ok :: "bool \<Rightarrow> string list \<Rightarrow> bool" where
  "clean_ok rooted ps \<longleftrightarrow> (\<forall>e \<in> set ps. path_element e)
     \<and> (\<exists>n qs. ps = replicate n ''..'' @ qs \<and> ''..'' \<notin> set qs \<and> (rooted \<longrightarrow> n = 0))"

lemma clean_ok_Nil [simp]: "clean_ok rooted []"
  by (simp add: clean_ok_def)

lemma replicate_snoc_cases:
  assumes "replicate n x @ qs = zs @ [z]" and "x \<notin> set qs"
  shows "(z = x \<and> qs = [] \<and> n = Suc (n - 1) \<and> zs = replicate (n - 1) x)
    \<or> (z \<noteq> x \<and> (\<exists>qs'. qs = qs' @ [z] \<and> zs = replicate n x @ qs'))"
proof (cases qs rule: rev_cases)
  case Nil
  with assms obtain m where n: "n = Suc m" by (cases n) simp_all
  have "replicate m x @ [x] = zs @ [z]" using assms Nil by (simp add: n replicate_append_same)
  then show ?thesis using Nil by (auto simp: n)
next
  case (snoc ys y)
  with assms show ?thesis by auto
qed

lemma clean_step_ok:
  assumes "clean_ok rooted (rev out)" and "CHR ''/'' \<notin> set e"
  shows "clean_ok rooted (rev (clean_step rooted out e))"
proof -
  obtain n qs where q: "rev out = replicate n ''..'' @ qs" "''..'' \<notin> set qs" "rooted \<longrightarrow> n = 0"
    and el: "\<forall>e \<in> set out. path_element e" using assms(1) by (auto simp: clean_ok_def)
  have dd: "path_element ''..''" by (simp add: path_element_def)
  consider "e = '''' \<or> e = ''.''" | "e = ''..''" "out = []" | d ds where "e = ''..''" "out = d # ds"
    | "e \<noteq> ''..''" "e \<noteq> ''''" "e \<noteq> ''.''" by (cases out) auto
  then show ?thesis
  proof cases
    case 1
    with assms(1) show ?thesis by (simp add: clean_step_def)
  next
    case 2
    have "clean_ok False [''..'']" unfolding clean_ok_def
      by (intro conjI exI [of _ 1] exI [of _ "[]"]) (simp_all add: dd)
    with 2 show ?thesis by (simp add: clean_step_def)
  next
    case 3
    have "replicate n ''..'' @ qs = rev ds @ [d]" using q(1) 3(2) by simp
    from replicate_snoc_cases [OF this q(2)] show ?thesis
    proof (elim disjE conjE exE)
      assume "d = ''..''" "qs = []" "n = Suc (n - 1)"
      with 3 q el dd show ?thesis
        unfolding clean_ok_def by (intro conjI exI [of _ "Suc n"] exI [of _ "[]"])
          (auto simp: clean_step_def replicate_append_same)
    next
      fix qs' assume d: "d \<noteq> ''..''" and qs: "qs = qs' @ [d]" and ds: "rev ds = replicate n ''..'' @ qs'"
      have step: "clean_step rooted out e = ds" using 3 d by (simp add: clean_step_def)
      have "\<forall>x \<in> set (rev ds). path_element x" using el 3(2) by simp
      moreover have "''..'' \<notin> set qs'" using q(2) qs by simp
      ultimately show ?thesis unfolding step clean_ok_def using ds q(3) by blast
    qed
  next
    case 4
    then have "path_element e" using assms(2) by (simp add: path_element_def)
    with el have "\<forall>x \<in> set (rev (e # out)). path_element x" by simp
    moreover have "rev (e # out) = replicate n ''..'' @ (qs @ [e])" using q(1) by simp
    moreover have "''..'' \<notin> set (qs @ [e])" using q(2) 4(1) by simp
    moreover have "clean_step rooted out e = e # out" using 4 by (simp add: clean_step_def)
    ultimately show ?thesis unfolding clean_ok_def using q(3) by metis
  qed
qed

lemma clean_fold_ok:
  assumes "clean_ok rooted (rev out)" and "\<forall>e \<in> set es. CHR ''/'' \<notin> set e"
  shows "clean_ok rooted (rev (foldl (clean_step rooted) out es))"
  using assms
proof (induction es arbitrary: out)
  case (Cons e es)
  have "clean_ok rooted (rev (clean_step rooted out e))" using Cons.prems by (intro clean_step_ok) simp_all
  from Cons.IH [OF this] Cons.prems show ?case by simp
qed simp

lemma clean_parts_ok: "clean_ok (is_abs p) (clean_parts p)"
  unfolding clean_parts_def using split_on_no_sep by (intro clean_fold_ok) auto

lemma clean_parts_element: "e \<in> set (clean_parts p) \<Longrightarrow> path_element e"
  using clean_parts_ok [of p] by (simp add: clean_ok_def)

lemma clean_parts_abs: "is_abs p \<Longrightarrow> ''..'' \<notin> set (clean_parts p)"
  using clean_parts_ok [of p] by (auto simp: clean_ok_def)

text \<open>A path that is clean stays as it is.\<close>

lemma clean_step_plain: "path_element e \<Longrightarrow> e \<noteq> ''..'' \<Longrightarrow> clean_step rooted out e = e # out"
  by (simp add: clean_step_def path_element_def)

lemma clean_fold_plain:
  "\<forall>e \<in> set es. path_element e \<and> e \<noteq> ''..'' \<Longrightarrow> foldl (clean_step rooted) out es = rev es @ out"
proof (induction es arbitrary: out)
  case (Cons e es)
  then show ?case by (simp add: clean_step_plain)
qed simp

lemma clean_fold_dots: "foldl (clean_step False) (replicate k ''..'') (replicate n ''..'') = replicate (k + n) ''..''"
proof (induction n arbitrary: k)
  case (Suc n)
  have "clean_step False (replicate k ''..'') ''..'' = replicate (Suc k) ''..''"
    by (cases k) (simp_all add: clean_step_def)
  with Suc.IH [of "Suc k"] show ?case by simp
qed simp

lemma clean_fold_ok_id:
  assumes "clean_ok rooted ps"
  shows "foldl (clean_step rooted) [] ps = rev ps"
proof -
  obtain n qs where q: "ps = replicate n ''..'' @ qs" "''..'' \<notin> set qs" "rooted \<longrightarrow> n = 0"
    using assms by (auto simp: clean_ok_def)
  have p: "\<forall>e \<in> set qs. path_element e \<and> e \<noteq> ''..''" using assms q by (auto simp: clean_ok_def)
  have d: "foldl (clean_step rooted) [] (replicate n ''..'') = replicate n ''..''"
    using clean_fold_dots [of 0 n] q(3) by (cases rooted) simp_all
  show ?thesis by (simp add: q(1) d clean_fold_plain [OF p])
qed

lemma elements_no_slash: "clean_ok r ps \<Longrightarrow> \<forall>w \<in> set ps. CHR ''/'' \<notin> set w"
  by (auto simp: clean_ok_def path_element_def)

lemma join_elements_abs: "clean_ok r ps \<Longrightarrow> \<not> is_abs (join ps ''/'')"
proof (cases ps)
  case (Cons p qs)
  assume "clean_ok r ps"
  then have "path_element p" by (simp add: clean_ok_def Cons)
  then show ?thesis by (cases p; cases qs) (auto simp: Cons is_abs_def has_prefix_def path_element_def)
qed (simp add: is_abs_def has_prefix_def)

lemma is_abs_clean [simp]: "is_abs (path_clean p) = is_abs p"
  using join_elements_abs [OF clean_parts_ok, of p]
  by (simp add: path_clean_def) (simp add: is_abs_def has_prefix_def)

lemma clean_parts_clean [simp]: "clean_parts (path_clean p) = clean_parts p"
proof -
  have ok: "clean_ok (is_abs p) (clean_parts p)" by (rule clean_parts_ok)
  have fold: "foldl (clean_step (is_abs p)) [] (clean_parts p) = rev (clean_parts p)" by (rule clean_fold_ok_id [OF ok])
  have sp: "split_on CHR ''/'' (join (clean_parts p) ''/'') = clean_parts p" if "clean_parts p \<noteq> []"
    using split_on_join [OF that elements_no_slash [OF ok]] .
  show ?thesis
  proof (cases "is_abs p")
    case True
    have "clean_parts (path_clean p) = rev (foldl (clean_step True) [] (split_on CHR ''/'' (join (clean_parts p) ''/'')))"
      unfolding clean_parts_def [of "path_clean p"] is_abs_clean
      by (simp add: path_clean_def True clean_step_def)
    with sp fold True show ?thesis by (cases "clean_parts p = []") (simp_all add: clean_step_def)
  next
    case False
    show ?thesis
    proof (cases "clean_parts p = []")
      case True
      then show ?thesis unfolding clean_parts_def [of "path_clean p"] is_abs_clean
        by (simp add: path_clean_def False clean_step_def)
    next
      case ne: False
      with sp fold False show ?thesis unfolding clean_parts_def [of "path_clean p"] is_abs_clean
        by (simp add: path_clean_def)
    qed
  qed
qed

lemma path_clean_idem [simp]: "path_clean (path_clean p) = path_clean p"
  unfolding path_clean_def [of "path_clean p"] is_abs_clean clean_parts_clean by (rule path_clean_def [symmetric])

lemma path_clean_eq_abs:
  assumes "is_abs p" and "is_abs q"
  shows "path_clean p = path_clean q \<longleftrightarrow> clean_parts p = clean_parts q"
  using clean_parts_clean [of p] clean_parts_clean [of q] assms by (metis path_clean_def)

section \<open>Paths below a base\<close>

lemma rel_parts_abs:
  assumes "is_abs p"
  shows "rel_parts (path_clean p) = '''' # clean_parts p"
proof (cases "clean_parts p")
  case Nil
  then show ?thesis by (simp add: path_clean_def assms rel_parts_def)
next
  case (Cons a as)
  have "split_on CHR ''/'' (join (clean_parts p) ''/'') = clean_parts p"
    using Cons by (intro split_on_join elements_no_slash [OF clean_parts_ok]) simp
  moreover have "join (clean_parts p) ''/'' \<noteq> ''''"
    using clean_parts_element [of a p] by (cases as) (auto simp: Cons path_element_def)
  ultimately show ?thesis by (simp add: path_clean_def assms rel_parts_def)
qed

lemma strip_common_prefix: "strip_common xs (xs @ ys) = ([], ys)"
  by (induction xs) (cases ys, simp_all)

lemma strip_common_spec: "strip_common xs ys = (up, down) \<Longrightarrow> \<exists>zs. xs = zs @ up \<and> ys = zs @ down"
proof (induction xs ys rule: strip_common.induct)
  case (1 x xs y ys)
  show ?case
  proof (cases "x = y")
    case True
    with 1 obtain zs where "xs = zs @ up \<and> ys = zs @ down" by auto
    with True show ?thesis by (intro exI [of _ "x # zs"]) simp
  next
    case False
    with 1 show ?thesis by simp
  qed
qed auto

lemma join_leaves_base:
  assumes "cs \<noteq> []" and "\<forall>w \<in> set cs. CHR ''/'' \<notin> set w"
  shows "leaves_base (join cs ''/'') \<longleftrightarrow> hd cs = ''..''"
proof -
  have s: "split_on CHR ''/'' (join cs ''/'') = cs" by (rule split_on_join [OF assms])
  show ?thesis
  proof
    assume "leaves_base (join cs ''/'')"
    then show "hd cs = ''..''"
      unfolding leaves_base_def
    proof
      assume "join cs ''/'' = ''..''"
      with s have "split_on CHR ''/'' ''..'' = cs" by simp
      then show ?thesis by auto
    next
      assume "has_prefix (join cs ''/'') ''../''"
      then have "has_prefix (join cs ''/'') (''..'' @ ''/'')" by simp
      from split_on_prefix [OF _ this] s show ?thesis by simp
    qed
  next
    assume "hd cs = ''..''"
    with assms(1) obtain rest where "cs = ''..'' # rest" by (cases cs) auto
    then show "leaves_base (join cs ''/'')" by (cases rest) (simp_all add: leaves_base_def has_prefix_def)
  qed
qed

lemma path_rel_abs:
  assumes "is_abs b" and "is_abs t"
  shows "\<exists>r. path_rel b t = Inr r"
    and "path_rel b t = Inr r \<Longrightarrow> \<not> leaves_base r \<longleftrightarrow> (\<exists>rest. clean_parts t = clean_parts b @ rest)"
    and "clean_parts t = clean_parts b @ rest \<Longrightarrow> rest \<noteq> [] \<Longrightarrow> path_rel b t = Inr (join rest ''/'')"
    and "path_rel b t = Inr ''.'' \<longleftrightarrow> clean_parts t = clean_parts b"
proof -
  obtain up down where s: "strip_common (clean_parts b) (clean_parts t) = (up, down)" by force
  then obtain zs where z: "clean_parts b = zs @ up" "clean_parts t = zs @ down"
    using strip_common_spec by blast
  have nodot: "''..'' \<notin> set up" "''..'' \<notin> set down"
    using clean_parts_abs [OF assms(1)] clean_parts_abs [OF assms(2)] z by auto
  have noslash: "\<forall>w \<in> set (map (\<lambda>_. ''..'') up @ down). CHR ''/'' \<notin> set w"
    using elements_no_slash [OF clean_parts_ok [of t]] z by auto
  have dot: "path_clean b \<noteq> ''.''" using assms(1) by (simp add: path_clean_def)
  have rel: "path_rel b t = (if clean_parts t = clean_parts b then Inr ''.''
      else Inr (join (map (\<lambda>_. ''..'') up @ down) ''/''))"
    using nodot assms s dot
    by (cases up) (auto simp: path_rel_def Let_def path_clean_eq_abs rel_parts_abs)
  have below: "up = [] \<longleftrightarrow> (\<exists>rest. clean_parts t = clean_parts b @ rest)"
  proof
    assume "\<exists>rest. clean_parts t = clean_parts b @ rest"
    then show "up = []" using s strip_common_prefix [of "clean_parts b"] by auto
  qed (use z in simp)
  have ne: "map (\<lambda>_. ''..'') up @ down \<noteq> []" if "clean_parts t \<noteq> clean_parts b" using that z by auto
  have hd: "hd (map (\<lambda>_. ''..'') up @ down) = ''..'' \<longleftrightarrow> up \<noteq> []" if "clean_parts t \<noteq> clean_parts b"
    using that z nodot by (cases up; cases down) auto
  have dotneq: "join (map (\<lambda>_. ''..'') up @ down) ''/'' \<noteq> ''.''" if "clean_parts t \<noteq> clean_parts b"
  proof
    assume "join (map (\<lambda>_. ''..'') up @ down) ''/'' = ''.''"
    then have "map (\<lambda>_. ''..'') up @ down = split_on CHR ''/'' ''.''"
      using split_on_join [OF ne [OF that] noslash] by simp
    then have "map (\<lambda>_. ''..'') up @ down = [''.'']" by simp
    then have "''.'' \<in> set (map (\<lambda>_. ''..'') up @ down)" by (simp only: list.set_intros)
    then have "''.'' \<in> set (clean_parts t)" using z by auto
    then show False using clean_parts_element [of "''.''" t] by (simp add: path_element_def)
  qed
  show "\<exists>r. path_rel b t = Inr r" by (simp add: rel)
  show "\<not> leaves_base r \<longleftrightarrow> (\<exists>rest. clean_parts t = clean_parts b @ rest)" if "path_rel b t = Inr r"
  proof (cases "clean_parts t = clean_parts b")
    case True
    with that have "r = ''.''" by (simp add: rel)
    with True show ?thesis by (simp add: leaves_base_def has_prefix_def)
  next
    case False
    with that have "r = join (map (\<lambda>_. ''..'') up @ down) ''/''" by (simp add: rel)
    then show ?thesis using join_leaves_base [OF ne [OF False] noslash] hd [OF False] below by simp
  qed
  show "path_rel b t = Inr (join rest ''/'')" if "clean_parts t = clean_parts b @ rest" "rest \<noteq> []"
    using that s strip_common_prefix [of "clean_parts b" rest] by (auto simp: rel)
  show "path_rel b t = Inr ''.'' \<longleftrightarrow> clean_parts t = clean_parts b" using dotneq by (auto simp: rel)
qed

end
