(* ===== verification/Runtime_Plugins.thy ===== *)
theory Runtime_Plugins
  imports Runtime_Policy Go_Paths
begin

text \<open>
  File \<open>internal/agent/runtime/plugins.go\<close>: the inventory of the plugin hooks an action would run.
  A source file is what the source index found in it (\<open>source.SourceFile\<close>); the branch defaults and
  the error of parsing them are inputs. The facts: the loop with its set of reported plugins is
  the plain product of actions, hooks and plugins (\<open>hook_product\<close>), a report is determinate only
  for a hook that is switched off, and name matching is symmetric.
\<close>

record source_file =
  sf_path :: string
  sf_hooks :: "string list"
  sf_plugin_names :: "string list"
  sf_content :: string

record hookDefinition =
  hd_name :: string
  hd_option :: string

definition hook :: "string \<Rightarrow> string \<Rightarrow> hookDefinition" where
  "hook name option = \<lparr>hd_name = name, hd_option = option\<rparr>"

definition actionHooks :: "hookDefinition list gomap" where
  "actionHooks =
     [(''enqueue'',
       [hook ''AddQueueOrderFn'' ''enableQueueOrder'', hook ''AddJobOrderFn'' ''enableJobOrder'',
        hook ''AddJobEnqueueableFn'' ''enableJobEnqueued'',
        hook ''AddJobEnqueuedFn'' ''enableJobEnqueued'']),
      (''allocate'',
       [hook ''AddJobValidFn'' '''', hook ''AddQueueOrderFn'' ''enableQueueOrder'',
        hook ''AddOverusedFn'' ''enabledOverused'', hook ''AddJobOrderFn'' ''enableJobOrder'',
        hook ''AddTaskOrderFn'' ''enableTaskOrder'', hook ''AddAllocatableFn'' ''enabledAllocatable'',
        hook ''AddPrePredicateFn'' ''enablePredicate'', hook ''AddPredicateFn'' ''enablePredicate'',
        hook ''AddBatchNodeOrderFn'' ''enableNodeOrder'', hook ''AddNodeOrderFn'' ''enableNodeOrder'',
        hook ''AddNodeMapFn'' ''enableNodeOrder'', hook ''AddNodeReduceFn'' ''enableNodeOrder'',
        hook ''AddBestNodeFn'' ''enableBestNode'', hook ''AddJobReadyFn'' ''enableJobReady'',
        hook ''AddJobPipelinedFn'' ''enableJobPipelined'']),
      (''backfill'',
       [hook ''AddJobValidFn'' '''', hook ''AddQueueOrderFn'' ''enableQueueOrder'',
        hook ''AddJobOrderFn'' ''enableJobOrder'', hook ''AddTaskOrderFn'' ''enableTaskOrder'',
        hook ''AddPrePredicateFn'' ''enablePredicate'', hook ''AddPredicateFn'' ''enablePredicate'',
        hook ''AddBatchNodeOrderFn'' ''enableNodeOrder'', hook ''AddNodeOrderFn'' ''enableNodeOrder'',
        hook ''AddNodeMapFn'' ''enableNodeOrder'', hook ''AddNodeReduceFn'' ''enableNodeOrder'',
        hook ''AddBestNodeFn'' ''enableBestNode'']),
      (''reclaim'',
       [hook ''AddJobValidFn'' '''', hook ''AddQueueOrderFn'' ''enableQueueOrder'',
        hook ''AddOverusedFn'' ''enabledOverused'', hook ''AddPreemptiveFn'' ''enablePreemptive'',
        hook ''AddJobOrderFn'' ''enableJobOrder'', hook ''AddTaskOrderFn'' ''enableTaskOrder'',
        hook ''AddAllocatableFn'' ''enabledAllocatable'',
        hook ''AddPrePredicateFn'' ''enablePredicate'', hook ''AddPredicateFn'' ''enablePredicate'',
        hook ''AddReclaimableFn'' ''enableReclaimable'']),
      (''preempt'',
       [hook ''AddJobValidFn'' '''', hook ''AddJobStarvingFns'' ''enableJobStarving'',
        hook ''AddJobOrderFn'' ''enableJobOrder'', hook ''AddTaskOrderFn'' ''enableTaskOrder'',
        hook ''AddPrePredicateFn'' ''enablePredicate'', hook ''AddPredicateFn'' ''enablePredicate'',
        hook ''AddBatchNodeOrderFn'' ''enableNodeOrder'', hook ''AddNodeOrderFn'' ''enableNodeOrder'',
        hook ''AddNodeMapFn'' ''enableNodeOrder'', hook ''AddNodeReduceFn'' ''enableNodeOrder'',
        hook ''AddPreemptableFn'' ''enablePreemptable'',
        hook ''AddAllocatableFn'' ''enabledAllocatable'',
        hook ''AddJobPipelinedFn'' ''enableJobPipelined'',
        hook ''AddVictimTasksFns'' ''enabledVictim''])]"

section \<open>Plugin names\<close>

definition normalizePluginName :: "string \<Rightarrow> string" where
  "normalizePluginName name =
     replace_byte CHR ''.'' '''' (replace_byte CHR ''_'' ''-'' (to_lower (trim_space name)))"

fun unique_names :: "string list \<Rightarrow> string list \<Rightarrow> string list" where
  "unique_names seen [] = []"
| "unique_names seen (candidate # rest) =
     (if candidate = '''' \<or> candidate \<in> set seen then unique_names seen rest
      else candidate # unique_names (candidate # seen) rest)"

definition pluginNameCandidates :: "string \<Rightarrow> string list" where
  "pluginNameCandidates name =
     (let normalized = normalizePluginName name;
          stems = concat (map (\<lambda>separator.
            let index = last_index normalized separator
            in if index > 0 then [take (nat index) normalized] else []) [''_v'', ''-v'']);
          candidates = normalized # stems;
          more = concat (map (\<lambda>candidate.
            (if has_prefix candidate ''volcano-'' then [trim_prefix candidate ''volcano-''] else []) @
            (if has_suffix candidate ''npu'' then [''ascend'', ''huaweinpu''] else [])) candidates)
      in unique_names [] (candidates @ more))"

definition pluginNamesMatch :: "string \<Rightarrow> string \<Rightarrow> bool" where
  "pluginNamesMatch sourceName configuredName =
     (let sourceNames = pluginNameCandidates sourceName;
          configuredNames = pluginNameCandidates configuredName
      in list_ex (\<lambda>left. list_ex (\<lambda>right. left = right) configuredNames) sourceNames)"

definition sourceBelongsToPlugin :: "source_file \<Rightarrow> string \<Rightarrow> bool" where
  "sourceBelongsToPlugin file pluginName =
     (if list_ex (\<lambda>name. pluginNamesMatch name pluginName) (sf_plugin_names file) then True
      else if sf_plugin_names file \<noteq> [] \<or> sf_hooks file = [] then False
      else
        (let relative = trim_prefix (sf_path file) ''pkg/scheduler/plugins/'';
             directory = path_dir relative;
             parts = split_on CHR ''/'' directory
         in if length parts = 1 then pluginNamesMatch (hd parts) pluginName
            else pluginNamesMatch (last parts) pluginName))"

section \<open>Registrations\<close>

record pluginSourceRegistration =
  rg_matched :: bool
  rg_hooks :: "string list gomap"

definition add_hooks :: "source_file \<Rightarrow> string list gomap \<Rightarrow> string list gomap" where
  "add_hooks file hooks =
     fold (\<lambda>h acc. gm_set h (gm_or [] acc h @ [sf_path file]) acc) (sf_hooks file) hooks"

definition pluginRegistration :: "string \<Rightarrow> source_file list \<Rightarrow> pluginSourceRegistration" where
  "pluginRegistration name sources =
     (let registration =
        fold (\<lambda>file reg.
          if \<not> sourceBelongsToPlugin file name then reg
          else \<lparr>rg_matched = True, rg_hooks = add_hooks file (rg_hooks reg)\<rparr>)
          sources \<lparr>rg_matched = False, rg_hooks = []\<rparr>
      in registration\<lparr>rg_hooks := map (\<lambda>(h, paths). (h, sort_strings paths)) (rg_hooks registration)\<rparr>)"

definition configuredPluginKey :: "configured_plugin \<Rightarrow> string" where
  "configuredPluginKey plugin =
     fmt_d (pl_tier plugin) @ ''/'' @ fmt_d (pl_order plugin) @ ''/'' @ pl_name plugin"

definition policy_all_plugins :: "scheduler_policy \<Rightarrow> configured_plugin list" where
  "policy_all_plugins policy = concat (map ti_plugins (po_tiers policy))"

definition configuredPluginRegistrations ::
  "scheduler_policy \<Rightarrow> source_file list \<Rightarrow> pluginSourceRegistration gomap" where
  "configuredPluginRegistrations policy sources =
     fold (\<lambda>plugin result.
       gm_set (configuredPluginKey plugin) (pluginRegistration (pl_name plugin) sources) result)
       (policy_all_plugins policy) []"

section \<open>Hook reports\<close>

definition effectiveHookOption ::
  "configured_plugin \<Rightarrow> hookDefinition \<Rightarrow> bool gomap \<Rightarrow> go_error option \<Rightarrow> bool \<times> bool \<times> string" where
  "effectiveHookOption plugin definition defaults defaultsErr =
     (if hd_option definition = '''' then
        (True, True, ''this hook has no PluginOption enable switch in the Volcano framework'')
      else case gm_get (pl_options plugin) (hd_option definition) of
        Some value \<Rightarrow>
          (value, True, ''ConfigMap explicitly sets '' @ hd_option definition @ ''='' @ fmt_t value)
      | None \<Rightarrow>
          if hd_option definition \<in> set (pl_option_keys plugin) then
            (False, False, ''ConfigMap sets '' @ hd_option definition @
               '' to a non-boolean value; the scheduler parser outcome cannot be inferred safely'')
          else (case defaultsErr of
            Some e \<Rightarrow>
              (False, False, ''ConfigMap omits '' @ hd_option definition @
                 '' and selected-branch defaults could not be parsed: '' @ err_text e)
          | None \<Rightarrow>
              (case gm_get defaults (hd_option definition) of
                 Some value \<Rightarrow>
                   (value, True, ''ConfigMap omits '' @ hd_option definition @
                      ''; selected-branch ApplyPluginConfDefaults sets it to '' @ fmt_t value)
               | None \<Rightarrow>
                   (False, False, ''ConfigMap omits '' @ hd_option definition @
                      '' and the selected branch does not expose a reliably parsed default''))))"

definition text_not_indexed :: string where
  "text_not_indexed = ''the configured plugin is not present in the selected branch hook index; the chosen branch may not match the scheduler image or the plugin may be delivered outside this Volcano source tree''"

definition text_enabled_hook :: string where
  "text_enabled_hook = ''; the hook is registered and enabled, but its result depends on scheduler Session state and plugin logic''"

definition pluginHookReport ::
  "string \<Rightarrow> int \<Rightarrow> configured_plugin \<Rightarrow> hookDefinition \<Rightarrow> string list \<Rightarrow> bool gomap
    \<Rightarrow> go_error option \<Rightarrow> plugin_hook_report" where
  "pluginHookReport action phase plugin definition sourcePaths defaults defaultsErr =
     (let (enabled, enabledDeterminate, enabledReason) =
            effectiveHookOption plugin definition defaults defaultsErr;
          report = \<lparr>ph_action = action, ph_phase = phase, ph_tier = pl_tier plugin,
            ph_order = pl_order plugin, ph_plugin = pl_name plugin, ph_hook = hd_name definition,
            ph_enabled = enabled, ph_enabled_determinate = enabledDeterminate,
            ph_passed = False, ph_determinate = False, ph_reason = enabledReason,
            ph_source = sourcePaths\<rparr>
      in if \<not> enabledDeterminate then
           report\<lparr>ph_reason := ph_reason report @ ''; runtime execution cannot be decided''\<rparr>
         else if \<not> enabled then
           report\<lparr>ph_passed := True, ph_determinate := True,
             ph_reason := ph_reason report @ ''; the hook is skipped''\<rparr>
         else report\<lparr>ph_reason := ph_reason report @ text_enabled_hook\<rparr>)"

definition unmatchedReport :: "string \<Rightarrow> int \<Rightarrow> configured_plugin \<Rightarrow> plugin_hook_report" where
  "unmatchedReport action phase plugin =
     \<lparr>ph_action = action, ph_phase = phase, ph_tier = pl_tier plugin, ph_order = pl_order plugin,
      ph_plugin = pl_name plugin, ph_hook = ''source hook registration'', ph_enabled = False,
      ph_enabled_determinate = False, ph_passed = False, ph_determinate = False,
      ph_reason = text_not_indexed, ph_source = []\<rparr>"

text \<open>
  The body of the innermost loop, on the keys already reported for this action and the reports
  so far; \<open>hook_phases\<close> and \<open>InspectPluginHooks\<close> are the loops around it.
\<close>

definition hook_step ::
  "pluginSourceRegistration gomap \<Rightarrow> bool gomap \<Rightarrow> go_error option \<Rightarrow> string \<Rightarrow> int \<Rightarrow> hookDefinition
    \<Rightarrow> configured_plugin \<Rightarrow> string list \<times> plugin_hook_report list
    \<Rightarrow> string list \<times> plugin_hook_report list" where
  "hook_step registrations defaults defaultsErr action phase definition plugin st =
     (let (unmatchedReported, result) = st;
          key = configuredPluginKey plugin;
          registration = gm_or \<lparr>rg_matched = False, rg_hooks = []\<rparr> registrations key
      in if \<not> rg_matched registration then
           (if key \<in> set unmatchedReported then (unmatchedReported, result)
            else (key # unmatchedReported, result @ [unmatchedReport action phase plugin]))
         else (case gm_get (rg_hooks registration) (hd_name definition) of
             None \<Rightarrow> (unmatchedReported, result)
           | Some sourcePaths \<Rightarrow>
               (unmatchedReported, result @
                 [pluginHookReport action phase plugin definition sourcePaths defaults defaultsErr])))"

fun hook_phases ::
  "pluginSourceRegistration gomap \<Rightarrow> bool gomap \<Rightarrow> go_error option \<Rightarrow> string
    \<Rightarrow> configured_plugin list \<Rightarrow> int \<Rightarrow> hookDefinition list
    \<Rightarrow> string list \<times> plugin_hook_report list \<Rightarrow> string list \<times> plugin_hook_report list" where
  "hook_phases registrations defaults defaultsErr action plugins phase [] st = st"
| "hook_phases registrations defaults defaultsErr action plugins phase (d # ds) st =
     hook_phases registrations defaults defaultsErr action plugins (phase + 1) ds
       (fold (hook_step registrations defaults defaultsErr action phase d) plugins st)"

definition InspectPluginHooks ::
  "scheduler_policy \<Rightarrow> source_file list \<Rightarrow> bool gomap \<Rightarrow> go_error option \<Rightarrow> plugin_hook_report list" where
  "InspectPluginHooks policy sources defaults defaultsErr =
     (if po_actions policy = [] \<or> po_tiers policy = [] then []
      else
        (let registrations = configuredPluginRegistrations policy sources in
         fold (\<lambda>action result.
           case gm_get actionHooks action of
             None \<Rightarrow> result
           | Some definitions \<Rightarrow>
               snd (hook_phases registrations defaults defaultsErr action
                 (policy_all_plugins policy) 0 definitions ([], result)))
           (po_actions policy) []))"

section \<open>Name matching\<close>

lemma set_unique_names: "set (unique_names seen xs) = set xs - set seen - {''''}"
proof (induction xs arbitrary: seen)
  case (Cons x xs)
  then show ?case by (cases "x = '''' \<or> x \<in> set seen") auto
qed simp

lemma distinct_unique_names: "distinct (unique_names seen xs)"
  by (induction xs arbitrary: seen) (simp_all add: set_unique_names)

lemma pluginNamesMatch_iff:
  "pluginNamesMatch a b \<longleftrightarrow> set (pluginNameCandidates a) \<inter> set (pluginNameCandidates b) \<noteq> {}"
  by (auto simp: pluginNamesMatch_def list_ex_iff Let_def)

lemma normalize_in_candidates:
  "normalizePluginName n \<noteq> '''' \<Longrightarrow> normalizePluginName n \<in> set (pluginNameCandidates n)"
  by (simp add: pluginNameCandidates_def Let_def set_unique_names)

lemma candidates_normalized:
  "normalizePluginName a = normalizePluginName b \<Longrightarrow> pluginNameCandidates a = pluginNameCandidates b"
  by (simp add: pluginNameCandidates_def)

lemma replace_byte_absent: "c \<notin> set s \<Longrightarrow> replace_byte c r s = s"
  by (induction s) (auto simp: replace_byte_def)

text \<open>Normalising removes every underscore, so the separator \<open>_v\<close> never splits a name.\<close>

lemma set_replace_byte: "d \<notin> set r \<Longrightarrow> d \<noteq> c \<Longrightarrow> d \<in> set (replace_byte c r s) \<longleftrightarrow> d \<in> set s"
  by (auto simp: replace_byte_def)

lemma replaced_byte_gone: "c \<notin> set r \<Longrightarrow> c \<notin> set (replace_byte c r s)"
  by (auto simp: replace_byte_def split: if_splits)

lemma no_underscore: "CHR ''_'' \<notin> set (normalizePluginName n)"
  unfolding normalizePluginName_def by (subst set_replace_byte) (simp_all add: replaced_byte_gone)

lemma last_index_absent: "sub \<noteq> [] \<Longrightarrow> hd sub \<notin> set s \<Longrightarrow> last_index s sub = -1"
  by (induction s) (auto simp: Let_def prefix_Cons)

lemma underscore_v_dead: "last_index (normalizePluginName n) ''_v'' = -1"
  using no_underscore [of n] by (simp add: last_index_absent)

section \<open>Keys of configured plugins\<close>

lemma fmt_d_no_slash: "0 \<le> n \<Longrightarrow> CHR ''/'' \<notin> set (fmt_d n)"
  using set_dec_str digit_not_slash by (fastforce simp: fmt_d_def)

lemma fmt_d_inj: "0 \<le> m \<Longrightarrow> 0 \<le> n \<Longrightarrow> fmt_d m = fmt_d n \<longleftrightarrow> m = n"
  by (simp add: fmt_d_def dec_str_inj)

lemma configuredPluginKey_inj:
  assumes "configuredPluginKey p = configuredPluginKey q"
    and "0 \<le> pl_tier p" "0 \<le> pl_order p" "0 \<le> pl_tier q" "0 \<le> pl_order q"
  shows "pl_tier p = pl_tier q \<and> pl_order p = pl_order q \<and> pl_name p = pl_name q"
proof -
  from assms have "fmt_d (pl_tier p) = fmt_d (pl_tier q)
      \<and> fmt_d (pl_order p) @ CHR ''/'' # pl_name p = fmt_d (pl_order q) @ CHR ''/'' # pl_name q"
    using fmt_d_no_slash by (intro append_sep_inj) (simp_all add: configuredPluginKey_def)
  moreover from this assms have "fmt_d (pl_order p) = fmt_d (pl_order q) \<and> pl_name p = pl_name q"
    using fmt_d_no_slash by (intro append_sep_inj [where c = "CHR ''/''"]) simp_all
  ultimately show ?thesis using assms by (simp add: fmt_d_inj)
qed

text \<open>The plugins of an observed policy are numbered without repetition.\<close>

lemma policy_plugins_positions:
  "p \<in> set (policy_plugins t i ps) \<Longrightarrow> pl_tier p = t \<and> i \<le> pl_order p"
  by (induction ps arbitrary: i) (force simp: policy_plugin_def)+

lemma distinct_policy_plugins:
  "distinct (map (\<lambda>p. (pl_tier p, pl_order p)) (policy_plugins t i ps))"
proof (induction ps arbitrary: i)
  case (Cons p ps)
  have "(t, i) \<notin> (\<lambda>p. (pl_tier p, pl_order p)) ` set (policy_plugins t (i + 1) ps)"
    using policy_plugins_positions by fastforce
  with Cons show ?case by (simp add: policy_plugin_def)
qed simp

lemma policy_tiers_positions:
  "p \<in> set (concat (map ti_plugins (policy_tiers i ts))) \<Longrightarrow> i \<le> pl_tier p \<and> 0 \<le> pl_order p"
proof (induction ts arbitrary: i)
  case (Cons t ts)
  then show ?case using policy_plugins_positions [of p i 0 "sti_plugins t"] by fastforce
qed simp

lemma distinct_policy_tiers:
  "distinct (map (\<lambda>p. (pl_tier p, pl_order p)) (concat (map ti_plugins (policy_tiers i ts))))"
proof (induction ts arbitrary: i)
  case (Cons t ts)
  have "pl_tier p = i" if "p \<in> set (policy_plugins i 0 (sti_plugins t))" for p
    using policy_plugins_positions [OF that] by simp
  moreover have "i < pl_tier q" if "q \<in> set (concat (map ti_plugins (policy_tiers (i + 1) ts)))" for q
    using policy_tiers_positions [OF that] by simp
  ultimately show ?case using Cons [of "i + 1"] distinct_policy_plugins by fastforce
qed simp

lemma distinct_policy_keys:
  "distinct (map configuredPluginKey (policy_all_plugins (schedulerPolicy c)))"
proof -
  let ?ps = "policy_all_plugins (schedulerPolicy c)"
  have d: "distinct (map (\<lambda>p. (pl_tier p, pl_order p)) ?ps)"
    using distinct_policy_tiers by (simp add: policy_all_plugins_def schedulerPolicy_def)
  have nonneg: "0 \<le> pl_tier p \<and> 0 \<le> pl_order p" if "p \<in> set ?ps" for p
    using policy_tiers_positions [of p 0] that
    by (simp add: policy_all_plugins_def schedulerPolicy_def)
  have "inj_on configuredPluginKey (set ?ps)"
  proof (rule inj_onI)
    fix p q assume pq: "p \<in> set ?ps" "q \<in> set ?ps" "configuredPluginKey p = configuredPluginKey q"
    with configuredPluginKey_inj nonneg have "(pl_tier p, pl_order p) = (pl_tier q, pl_order q)" by auto
    with d pq(1,2) show "p = q" by (auto simp: distinct_map inj_on_def)
  qed
  with d show ?thesis by (auto simp: distinct_map)
qed

lemma gm_get_fold_registrations:
  assumes "distinct (map configuredPluginKey ps)" and "p \<in> set ps"
  shows "gm_get (fold (\<lambda>plugin. gm_set (configuredPluginKey plugin) (f plugin)) ps acc)
    (configuredPluginKey p) = Some (f p)"
  using assms
proof (induction ps arbitrary: acc)
  case (Cons q ps)
  have other: "gm_get (fold (\<lambda>plugin. gm_set (configuredPluginKey plugin) (f plugin)) qs acc) k = gm_get acc k"
    if "k \<notin> configuredPluginKey ` set qs" for qs acc k
    using that by (induction qs arbitrary: acc) auto
  from Cons show ?case by (cases "p = q") (auto simp: other)
qed simp

section \<open>The inventory as a product\<close>

text \<open>
  The reference: for each supported action, each phase and each configured plugin, one report if
  the plugin registers the hook, and for a plugin the index does not know one report at phase 0.
\<close>

definition hook_item ::
  "source_file list \<Rightarrow> bool gomap \<Rightarrow> go_error option \<Rightarrow> string \<Rightarrow> int \<Rightarrow> hookDefinition
    \<Rightarrow> configured_plugin \<Rightarrow> plugin_hook_report list" where
  "hook_item sources defaults defaultsErr action phase d plugin =
     (let registration = pluginRegistration (pl_name plugin) sources in
      if \<not> rg_matched registration then
        (if phase = 0 then [unmatchedReport action 0 plugin] else [])
      else case gm_get (rg_hooks registration) (hd_name d) of
          None \<Rightarrow> []
        | Some paths \<Rightarrow> [pluginHookReport action phase plugin d paths defaults defaultsErr])"

fun phase_product ::
  "source_file list \<Rightarrow> bool gomap \<Rightarrow> go_error option \<Rightarrow> string \<Rightarrow> configured_plugin list \<Rightarrow> int
    \<Rightarrow> hookDefinition list \<Rightarrow> plugin_hook_report list" where
  "phase_product sources defaults defaultsErr action plugins phase [] = []"
| "phase_product sources defaults defaultsErr action plugins phase (d # ds) =
     concat (map (hook_item sources defaults defaultsErr action phase d) plugins) @
     phase_product sources defaults defaultsErr action plugins (phase + 1) ds"

definition hook_product ::
  "scheduler_policy \<Rightarrow> source_file list \<Rightarrow> bool gomap \<Rightarrow> go_error option \<Rightarrow> plugin_hook_report list" where
  "hook_product policy sources defaults defaultsErr =
     concat (map (\<lambda>action.
       phase_product sources defaults defaultsErr action (policy_all_plugins policy) 0
         (gm_or [] actionHooks action)) (po_actions policy))"

lemma hook_fold_first:
  assumes "distinct (map configuredPluginKey ps)" and "set (map configuredPluginKey ps) \<inter> set ks = {}"
    and "\<forall>p \<in> set ps. gm_get regs (configuredPluginKey p) = Some (pluginRegistration (pl_name p) sources)"
  shows "\<exists>ks'. fold (hook_step regs defaults err action 0 d) ps (ks, res)
      = (ks', res @ concat (map (hook_item sources defaults err action 0 d) ps))
    \<and> (\<forall>p \<in> set ps. \<not> rg_matched (pluginRegistration (pl_name p) sources)
          \<longrightarrow> configuredPluginKey p \<in> set ks') \<and> set ks \<subseteq> set ks'"
  using assms
proof (induction ps arbitrary: ks res)
  case (Cons p ps)
  let ?reg = "pluginRegistration (pl_name p) sources"
  let ?ks = "if rg_matched ?reg then ks else configuredPluginKey p # ks"
  let ?res = "res @ hook_item sources defaults err action 0 d p"
  have step: "hook_step regs defaults err action 0 d p (ks, res) = (?ks, ?res)"
    using Cons.prems by (simp add: hook_step_def hook_item_def Let_def gm_or_def split: option.split)
  have dj: "set (map configuredPluginKey ps) \<inter> set ?ks = {}" using Cons.prems by auto
  obtain ks' where ks': "fold (hook_step regs defaults err action 0 d) ps (?ks, ?res)
      = (ks', ?res @ concat (map (hook_item sources defaults err action 0 d) ps))"
    "\<forall>p \<in> set ps. \<not> rg_matched (pluginRegistration (pl_name p) sources)
          \<longrightarrow> configuredPluginKey p \<in> set ks'" "set ?ks \<subseteq> set ks'"
    using Cons.IH [OF _ dj, of ?res] Cons.prems by auto
  have "\<not> rg_matched ?reg \<longrightarrow> configuredPluginKey p \<in> set ks'" "set ks \<subseteq> set ks'"
    using ks'(3) by (auto split: if_splits)
  with ks'(1,2) show ?case by (simp add: step)
qed simp

lemma hook_fold_later:
  assumes "\<forall>p \<in> set ps. \<not> rg_matched (pluginRegistration (pl_name p) sources)
      \<longrightarrow> configuredPluginKey p \<in> set ks"
    and "\<forall>p \<in> set ps. gm_get regs (configuredPluginKey p) = Some (pluginRegistration (pl_name p) sources)"
    and "phase \<noteq> 0"
  shows "fold (hook_step regs defaults err action phase d) ps (ks, res)
      = (ks, res @ concat (map (hook_item sources defaults err action phase d) ps))"
  using assms
proof (induction ps arbitrary: res)
  case (Cons p ps)
  then have "hook_step regs defaults err action phase d p (ks, res)
      = (ks, res @ hook_item sources defaults err action phase d p)"
    by (simp add: hook_step_def hook_item_def Let_def gm_or_def split: option.split)
  with Cons show ?case by simp
qed simp

lemma hook_phases_later:
  assumes "\<forall>p \<in> set ps. \<not> rg_matched (pluginRegistration (pl_name p) sources)
      \<longrightarrow> configuredPluginKey p \<in> set ks"
    and "\<forall>p \<in> set ps. gm_get regs (configuredPluginKey p) = Some (pluginRegistration (pl_name p) sources)"
    and "0 < phase"
  shows "hook_phases regs defaults err action ps phase ds (ks, res)
      = (ks, res @ phase_product sources defaults err action ps phase ds)"
  using assms(3)
proof (induction ds arbitrary: phase res)
  case (Cons d ds)
  then show ?case using hook_fold_later [OF assms(1,2), of phase defaults err action d res] by simp
qed simp

lemma hook_phases_product:
  assumes "distinct (map configuredPluginKey ps)"
    and "\<forall>p \<in> set ps. gm_get regs (configuredPluginKey p) = Some (pluginRegistration (pl_name p) sources)"
  shows "snd (hook_phases regs defaults err action ps 0 ds ([], res))
      = res @ phase_product sources defaults err action ps 0 ds"
proof (cases ds)
  case (Cons d ds')
  obtain ks' where "fold (hook_step regs defaults err action 0 d) ps ([], res)
      = (ks', res @ concat (map (hook_item sources defaults err action 0 d) ps))"
    "\<forall>p \<in> set ps. \<not> rg_matched (pluginRegistration (pl_name p) sources)
          \<longrightarrow> configuredPluginKey p \<in> set ks'"
    using hook_fold_first [of ps "[]" regs sources defaults err action d res] assms by auto
  then show ?thesis
    using hook_phases_later [of ps sources ks' regs 1] assms(2) by (simp add: Cons)
qed simp

lemma InspectPluginHooks_product:
  assumes keys: "distinct (map configuredPluginKey (policy_all_plugins policy))"
  shows "InspectPluginHooks policy sources defaults err = hook_product policy sources defaults err"
proof -
  define regs where "regs = configuredPluginRegistrations policy sources"
  have regs: "\<forall>p \<in> set (policy_all_plugins policy).
      gm_get regs (configuredPluginKey p) = Some (pluginRegistration (pl_name p) sources)"
    unfolding regs_def configuredPluginRegistrations_def
    using gm_get_fold_registrations [OF keys, of _ "\<lambda>p. pluginRegistration (pl_name p) sources"] by blast
  define loop where "loop = (\<lambda>action result. case gm_get actionHooks action of
      None \<Rightarrow> result
    | Some ds \<Rightarrow> snd (hook_phases regs defaults err action (policy_all_plugins policy) 0 ds ([], result)))"
  have step: "loop action res = res @ phase_product sources defaults err action
      (policy_all_plugins policy) 0 (gm_or [] actionHooks action)" for action res
    using hook_phases_product [OF keys regs] by (simp add: loop_def gm_or_def split: option.split)
  have loop: "fold loop actions res = res @ concat (map (\<lambda>action.
      phase_product sources defaults err action (policy_all_plugins policy) 0
        (gm_or [] actionHooks action)) actions)" for actions res
    by (induction actions arbitrary: res) (simp_all add: step)
  have empty: "phase_product sources defaults err action [] phase ds = []" for action phase ds
    by (induction ds arbitrary: phase) simp_all
  have no_plugins: "policy_all_plugins policy = []" if "po_tiers policy = []"
    using that by (simp add: policy_all_plugins_def)
  have "hook_product policy sources defaults err = fold loop (po_actions policy) []"
    by (simp add: hook_product_def loop)
  moreover have "fold loop (po_actions policy) [] = []"
    if "po_actions policy = [] \<or> po_tiers policy = []"
    using that by (auto simp: loop no_plugins empty)
  ultimately show ?thesis by (simp add: InspectPluginHooks_def regs_def [symmetric] loop_def Let_def)
qed

section \<open>What a hook report can say\<close>

text \<open>The reports of the inventory: \<open>open_report\<close> excludes a definite failure.\<close>

definition hook_report_ok :: "plugin_hook_report \<Rightarrow> bool" where
  "hook_report_ok r \<longleftrightarrow> ph_passed r = ph_determinate r
     \<and> (ph_determinate r \<longleftrightarrow> ph_enabled_determinate r \<and> \<not> ph_enabled r)"

lemma pluginHookReport_ok: "hook_report_ok (pluginHookReport action phase plugin d paths defaults err)"
  by (simp add: pluginHookReport_def hook_report_ok_def Let_def split: prod.split)

lemma unmatchedReport_ok: "hook_report_ok (unmatchedReport action phase plugin)"
  by (simp add: unmatchedReport_def hook_report_ok_def)

lemma hook_step_ok:
  "\<forall>r \<in> set (snd st). hook_report_ok r
    \<Longrightarrow> \<forall>r \<in> set (snd (hook_step regs defaults err action phase d p st)). hook_report_ok r"
  by (cases st) (auto simp: hook_step_def Let_def pluginHookReport_ok unmatchedReport_ok split: option.split)

lemma hook_fold_ok:
  "\<forall>r \<in> set (snd st). hook_report_ok r
    \<Longrightarrow> \<forall>r \<in> set (snd (fold (hook_step regs defaults err action phase d) ps st)). hook_report_ok r"
proof (induction ps arbitrary: st)
  case (Cons p ps)
  show ?case unfolding fold_simps by (rule Cons.IH) (rule hook_step_ok [OF Cons.prems])
qed simp

lemma hook_phases_ok:
  "\<forall>r \<in> set (snd st). hook_report_ok r
    \<Longrightarrow> \<forall>r \<in> set (snd (hook_phases regs defaults err action ps phase ds st)). hook_report_ok r"
proof (induction ds arbitrary: phase st)
  case (Cons d ds)
  show ?case unfolding hook_phases.simps by (rule Cons.IH) (rule hook_fold_ok [OF Cons.prems])
qed simp

lemma InspectPluginHooks_ok: "r \<in> set (InspectPluginHooks policy sources defaults err) \<Longrightarrow> hook_report_ok r"
proof -
  define loop where "loop = (\<lambda>action result. case gm_get actionHooks action of
      None \<Rightarrow> result
    | Some ds \<Rightarrow> snd (hook_phases (configuredPluginRegistrations policy sources) defaults err action
        (policy_all_plugins policy) 0 ds ([], result)))"
  have step: "\<forall>r \<in> set (loop action res). hook_report_ok r" if "\<forall>r \<in> set res. hook_report_ok r" for action res
    using that hook_phases_ok [of "([], res)"] by (simp add: loop_def split: option.split)
  have "\<forall>r \<in> set (fold loop actions res). hook_report_ok r" if "\<forall>r \<in> set res. hook_report_ok r" for actions res
    using that
  proof (induction actions arbitrary: res)
    case (Cons a actions)
    show ?case unfolding fold_simps by (rule Cons.IH) (rule step [OF Cons.prems])
  qed simp
  from this [of "[]"] show "r \<in> set (InspectPluginHooks policy sources defaults err) \<Longrightarrow> hook_report_ok r"
    by (simp add: InspectPluginHooks_def Let_def loop_def [symmetric] split: if_splits)
qed

section \<open>Properties\<close>

text \<open>C32: For a policy read from a configuration, the hook inventory is the product of the supported
  actions, their hooks in decision order and the configured plugins: one report per registered
  hook, and one report at the first phase for a plugin the source index does not know.\<close>

theorem hook_inventory_is_product:
  "InspectPluginHooks (schedulerPolicy c) sources defaults err
    = hook_product (schedulerPolicy c) sources defaults err"
  by (rule InspectPluginHooks_product [OF distinct_policy_keys])

text \<open>The inventory never claims a definite failure: a report is determinate exactly when the
  hook is known to be switched off, and then it passes.\<close>

theorem hook_reports_never_fail:
  "list_all (\<lambda>r. ph_passed r = ph_determinate r
      \<and> ph_determinate r = (ph_enabled_determinate r \<and> \<not> ph_enabled r))
    (InspectPluginHooks policy sources defaults err)"
  using InspectPluginHooks_ok by (auto simp: list_all_iff hook_report_ok_def)

text \<open>Plugin names are matched symmetrically, a name matches itself unless nothing is left of it
  after normalising, and the version separator \<open>_v\<close> the code looks for is never found, since
  normalising has already replaced every underscore.\<close>

theorem plugin_names_match:
  "pluginNamesMatch a b = pluginNamesMatch b a
   \<and> pluginNamesMatch a a = (normalizePluginName a \<noteq> '''')
   \<and> last_index (normalizePluginName a) ''_v'' = -1"
proof (intro conjI underscore_v_dead)
  show "pluginNamesMatch a a = (normalizePluginName a \<noteq> '''')"
  proof (cases "normalizePluginName a = ''''")
    case True
    then have "pluginNameCandidates a = []"
      by (simp add: pluginNameCandidates_def Let_def has_prefix_def has_suffix_def)
    with True show ?thesis by (simp add: pluginNamesMatch_iff)
  next
    case False
    with normalize_in_candidates [OF False] show ?thesis by (auto simp: pluginNamesMatch_iff)
  qed
qed (simp add: pluginNamesMatch_iff Int_commute)

text \<open>The effective value of a hook option is decided in the order explicit boolean, explicit
  other value (undetermined), branch default: for a plugin read from the configuration the
  first two are read off its raw options.\<close>

theorem hook_option_precedence:
  assumes "gm_ok (sp_options p)" and "hd_option d \<noteq> ''''"
  shows "(fst (effectiveHookOption (policy_plugin t i p) d defaults err),
      fst (snd (effectiveHookOption (policy_plugin t i p) d defaults err)))
    = (case gm_get (sp_options p) (hd_option d) of
        Some (AnyBool b) \<Rightarrow> (b, True)
      | Some v \<Rightarrow> (False, False)
      | None \<Rightarrow> (case (err, gm_get defaults (hd_option d)) of
          (None, Some b) \<Rightarrow> (b, True)
        | _ \<Rightarrow> (False, False)))"
proof (cases "gm_get (sp_options p) (hd_option d)")
  case None
  then have "hd_option d \<notin> set (sortedKeys (sp_options p))"
    by (simp add: sortedKeys_def gm_get_None_keys)
  with None assms show ?thesis
    by (simp add: effectiveHookOption_def policy_plugin_def gm_get_booleanOptions split: option.split)
next
  case (Some v)
  then have "hd_option d \<in> set (sortedKeys (sp_options p))"
    by (metis gm_get_None_keys option.distinct(1) set_sort_strings sortedKeys_def)
  with Some assms show ?thesis
    by (cases v) (simp_all add: effectiveHookOption_def policy_plugin_def gm_get_booleanOptions)
qed

theorem hook_option_precedence_witness:
  "(fst (effectiveHookOption (policy_plugin 0 0
        \<lparr>sp_name = ''gang'', sp_arguments = [], sp_options = [(''enableJobOrder'', AnyStr ''no'')]\<rparr>)
        (hook ''AddJobOrderFn'' ''enableJobOrder'') [(''enableJobOrder'', True)] None),
    fst (snd (effectiveHookOption (policy_plugin 0 0
        \<lparr>sp_name = ''gang'', sp_arguments = [], sp_options = [(''enableJobOrder'', AnyStr ''no'')]\<rparr>)
        (hook ''AddJobOrderFn'' ''enableJobOrder'') [(''enableJobOrder'', True)] None)))
    = (False, False)"
  by (subst hook_option_precedence) (simp_all add: gm_ok_def hook_def gm_get_def)

end
