(* ===== verification/Llm.thy ===== *)
theory Llm
  imports Texts
begin

text \<open>
  File \<open>internal/agent/llm.go\<close>: the limits of the LLM fallback, one chat request, and the loop of tool
  rounds. JSON, HTTP and the execution of a tool are functions of the model (\<open>chat_transport\<close>,
  \<open>execute\<close>); a request carries the whole history, so a function of the request is as general as a
  server with a state. The machine of the loop is the step relation \<open>llm_step\<close>; the facts are its
  invariant (rounds, calls and result size within their limits, each distinct call executed once),
  that the loop always ends, and that a model that keeps calling tools ends in the round limit error.
  Durations are nanoseconds. Reading the configuration from environment variables is not modelled.
\<close>

section \<open>Limits\<close>

definition llmRoundTimeoutBudget :: int where "llmRoundTimeoutBudget = 120 * 10 ^ 9"
definition maxLLMResponseBytes :: nat where "maxLLMResponseBytes = 4 * 1024 * 1024"
definition defaultMaxToolRounds :: int where "defaultMaxToolRounds = 4"
definition maximumMaxToolRounds :: int where "maximumMaxToolRounds = 16"
definition maxToolResultsTotalSize :: nat where "maxToolResultsTotalSize = 256 * 1024"

record llm_config =
  lc_url :: string
  lc_key :: string
  lc_model :: string
  lc_max_tool_rounds :: int
  lc_timeout :: int

definition maxToolRounds :: "llm_config \<Rightarrow> int" where
  "maxToolRounds c =
     (if lc_max_tool_rounds c \<le> 0 then defaultMaxToolRounds
      else if maximumMaxToolRounds < lc_max_tool_rounds c then maximumMaxToolRounds
      else lc_max_tool_rounds c)"

definition defaultLLMCompletionTimeout :: "int \<Rightarrow> int" where
  "defaultLLMCompletionTimeout rounds =
     (let rounds1 = (if rounds \<le> 0 then defaultMaxToolRounds else rounds);
          rounds2 = (if maximumMaxToolRounds < rounds1 then maximumMaxToolRounds else rounds1)
      in (rounds2 + 1) * llmRoundTimeoutBudget)"

definition completionTimeout :: "llm_config \<Rightarrow> int" where
  "completionTimeout c =
     (if 0 < lc_timeout c then lc_timeout c else defaultLLMCompletionTimeout (maxToolRounds c))"

definition toolRoundLimitError :: "nat \<Rightarrow> nat \<Rightarrow> go_error" where
  "toolRoundLimitError completed maximum =
     \<lparr>err_text = ''LLM tool-call round limit exceeded after '' @ fmt_n completed @
        '' completed rounds (configured maximum '' @ fmt_n maximum @
        ''); inspect the scheduler logs and source for further analysis'',
      err_chain = [ErrLLMToolRoundLimit]\<rparr>"

section \<open>Messages\<close>

record chat_tool_call =
  tc_id :: string
  tc_type :: string
  tc_name :: string
  tc_arguments :: string

record chat_message =
  cm_role :: string
  cm_content :: "string option"
  cm_tool_calls :: "chat_tool_call list"
  cm_tool_call_id :: string

text \<open>
  A tool offered to the model; its JSON schema, an object without further properties, is the list of its
  parameters, required or not, integers with their bounds.
\<close>

datatype parameter_type = IntParam int int | StringParam

record tool_parameter =
  tp_name :: string
  tp_type :: parameter_type
  tp_description :: string
  tp_required :: bool

record chat_tool =
  ct_tool :: string
  ct_description :: string
  ct_parameters :: "tool_parameter list"

record chat_request =
  cq_model :: string
  cq_messages :: "chat_message list"
  cq_temperature :: int
  cq_tools :: "chat_tool list"
  cq_tool_choice :: string

record http_response =
  hr_status_code :: int
  hr_status :: string
  hr_body :: "go_error + string"

record chat_transport =
  tr_marshal :: "chat_request \<Rightarrow> go_error + string"
  tr_new_request :: "string \<Rightarrow> go_error option"
  tr_do :: "string \<Rightarrow> (string \<times> string) list \<Rightarrow> string \<Rightarrow> go_error + http_response"
  tr_choices :: "string \<Rightarrow> go_error + chat_message list"

definition trim_right :: "char \<Rightarrow> string \<Rightarrow> string" where
  "trim_right c s = rev (dropWhile (\<lambda>x. x = c) (rev s))"

definition chatCompletionURL :: "string \<Rightarrow> string" where
  "chatCompletionURL baseURL =
     (let url = trim_right CHR ''/'' baseURL
      in if has_suffix url ''/chat/completions'' then url
         else if has_suffix url ''/v1'' then url @ ''/chat/completions''
         else url @ ''/v1/chat/completions'')"

definition chat :: "chat_transport \<Rightarrow> llm_config \<Rightarrow> chat_tool list \<Rightarrow> chat_message list \<Rightarrow> go_error + chat_message" where
  "chat tr c tools messages =
     (let body = \<lparr>cq_model = lc_model c, cq_messages = messages, cq_temperature = 0, cq_tools = tools,
            cq_tool_choice = (if 0 < length tools then ''auto'' else '''')\<rparr>
      in case tr_marshal tr body of
           Inl e \<Rightarrow> Inl (errorw ''encode LLM request: '' e)
         | Inr payload \<Rightarrow>
       (let url = chatCompletionURL (lc_url c)
        in case tr_new_request tr url of
             Some e \<Rightarrow> Inl (errorw ''create LLM request: '' e)
           | None \<Rightarrow>
       (case tr_do tr url ((''Content-Type'', ''application/json'') #
            (if lc_key c \<noteq> '''' then [(''Authorization'', ''Bearer '' @ lc_key c)] else [])) payload of
          Inl e \<Rightarrow> Inl (errorw ''send LLM request: '' e)
        | Inr response \<Rightarrow>
       (case map_sum id (take (maxLLMResponseBytes + 1)) (hr_body response) of
          Inl e \<Rightarrow> Inl (errorw ''read LLM response: '' e)
        | Inr raw \<Rightarrow>
            if maxLLMResponseBytes < length raw then
              Inl (errorf (''LLM response exceeds '' @ fmt_n maxLLMResponseBytes @ '' bytes''))
            else if hr_status_code response div 100 \<noteq> 2 then
              Inl (errorf (''LLM HTTP '' @ hr_status response @ '': '' @ raw))
            else (case tr_choices tr raw of
                Inl e \<Rightarrow> Inl (errorw ''decode LLM response: '' e)
              | Inr [] \<Rightarrow> Inl (errorf ''empty LLM response'')
              | Inr (message # _) \<Rightarrow> Inr message)))))"

section \<open>The loop of tool rounds\<close>

text \<open>\<open>encodeToolError("tool result budget exceeded")\<close>; character 34 is the double quote.\<close>

definition dq :: string where "dq = [char_of (34 :: nat)]"

definition budget_error :: string where
  "budget_error = ''{'' @ dq @ ''ok'' @ dq @ '':false,'' @ dq @ ''error'' @ dq @ '':'' @ dq @
     ''tool result budget exceeded'' @ dq @ ''}''"

text \<open>
  The executor of tool calls keeps a state of its own, the session; what the cluster answers may depend
  on when it is asked, that is on the messages so far.
\<close>

type_synonym 's tool_runner = "chat_message list \<Rightarrow> chat_tool_call \<Rightarrow> 's \<Rightarrow> string \<times> 's"

record 's llm_state =
  ls_messages :: "chat_message list"
  ls_results :: "string gomap"
  ls_calls :: nat
  ls_size :: nat
  ls_rounds :: nat
  ls_session :: 's

definition call_key :: "chat_tool_call \<Rightarrow> string" where
  "call_key call = tc_name call @ [char_of (0 :: nat)] @ tc_arguments call"

definition tool_message :: "chat_tool_call \<Rightarrow> string \<Rightarrow> chat_message" where
  "tool_message call content =
     \<lparr>cm_role = ''tool'', cm_content = Some content, cm_tool_calls = [], cm_tool_call_id = tc_id call\<rparr>"

definition tool_step ::
  "'s tool_runner \<Rightarrow> chat_tool_call \<Rightarrow> 's llm_state \<Rightarrow> 's llm_state" where
  "tool_step execute call st =
     (let key = call_key call;
          found = gm_get (ls_results st) key;
          answer = (case found of Some r \<Rightarrow> (r, ls_session st) | None \<Rightarrow> execute (ls_messages st) call (ls_session st));
          content = fst answer;
          results = (case found of Some r \<Rightarrow> ls_results st | None \<Rightarrow> gm_set key content (ls_results st));
          content' = (if maxToolResultsTotalSize < ls_size st + length content then budget_error else content)
      in st\<lparr>ls_messages := ls_messages st @ [tool_message call content'], ls_results := results,
           ls_size := ls_size st + length content', ls_session := snd answer\<rparr>)"

definition bad_call :: "chat_tool_call \<Rightarrow> bool" where
  "bad_call call \<longleftrightarrow> tc_id call = '''' \<or> tc_type call \<noteq> ''function'' \<or> tc_name call = ''''"

datatype 's llm_verdict = Finished "go_error + string" | Continue "'s llm_state"

text \<open>One round: the reply either ends the loop or is answered by tool messages.\<close>

definition llm_round ::
  "llm_config \<Rightarrow> (chat_message list \<Rightarrow> go_error + chat_message) \<Rightarrow> chat_tool list
    \<Rightarrow> 's tool_runner option \<Rightarrow> 's llm_state \<Rightarrow> 's llm_verdict" where
  "llm_round c ask tools execute st =
     (case ask (ls_messages st) of
        Inl e \<Rightarrow> Finished (Inl e)
      | Inr message \<Rightarrow>
          if cm_tool_calls message = [] then
            (case cm_content message of
               None \<Rightarrow> Finished (Inl (errorf ''LLM returned neither content nor tool calls''))
             | Some content \<Rightarrow>
                 if trim_space content = '''' then
                   Finished (Inl (errorf ''LLM returned neither content nor tool calls''))
                 else Finished (Inr content))
          else (case execute of
              None \<Rightarrow> Finished (Inl (errorf ''LLM returned tool calls when no tools were enabled''))
            | Some run \<Rightarrow>
                if tools = [] then
                  Finished (Inl (errorf ''LLM returned tool calls when no tools were enabled''))
                else if nat (maxToolRounds c) \<le> ls_rounds st then
                  Finished (Inl (toolRoundLimitError (ls_rounds st) (nat (maxToolRounds c))))
                else if nat (maxToolRounds c) * length tools < ls_calls st + length (cm_tool_calls message) then
                  Finished (Inl (errorf ''LLM tool-call count limit exceeded''))
                else (let message' = (if cm_role message = '''' then message\<lparr>cm_role := ''assistant''\<rparr> else message)
                  in if cm_role message' \<noteq> ''assistant'' then
                       Finished (Inl (errorf (''LLM tool-call message has role '' @ fmt_q (cm_role message'))))
                     else if list_ex bad_call (cm_tool_calls message') then
                       Finished (Inl (errorf ''LLM returned an invalid tool call''))
                     else Continue (fold (tool_step run) (cm_tool_calls message')
                       (st\<lparr>ls_messages := ls_messages st @ [message'], ls_rounds := ls_rounds st + 1,
                          ls_calls := ls_calls st + length (cm_tool_calls message')\<rparr>)))))"


lemma tool_step_simps [simp]:
  "ls_rounds (tool_step run call st) = ls_rounds st" "ls_calls (tool_step run call st) = ls_calls st"
  by (simp_all add: tool_step_def Let_def)

lemma tool_fold_simps [simp]:
  "ls_rounds (fold (tool_step run) calls st) = ls_rounds st" "ls_calls (fold (tool_step run) calls st) = ls_calls st"
  by (induction calls arbitrary: st) simp_all

lemma llm_round_continue:
  assumes "llm_round c ask tools execute st = Continue st'"
  obtains message run where "ask (ls_messages st) = Inr message" and "execute = Some run" and "tools \<noteq> []"
    and "cm_tool_calls message \<noteq> []" and "ls_rounds st < nat (maxToolRounds c)"
    and "ls_calls st + length (cm_tool_calls message) \<le> nat (maxToolRounds c) * length tools"
    and "cm_role message = '''' \<or> cm_role message = ''assistant''"
    and "\<not> list_ex bad_call (cm_tool_calls message)"
    and "st' = fold (tool_step run) (cm_tool_calls message)
        (st\<lparr>ls_messages := ls_messages st @ [message\<lparr>cm_role := ''assistant''\<rparr>], ls_rounds := ls_rounds st + 1,
           ls_calls := ls_calls st + length (cm_tool_calls message)\<rparr>)"
proof (cases "ask (ls_messages st)")
  case (Inl e)
  with assms show ?thesis by (simp add: llm_round_def)
next
  case (Inr m)
  show ?thesis
  proof (cases "cm_tool_calls m = []")
    case True
    with assms Inr show ?thesis by (cases "cm_content m") (simp_all add: llm_round_def split: if_splits)
  next
    case False
    then obtain run where run: "execute = Some run" using assms Inr by (cases execute) (simp_all add: llm_round_def)
    have same: "m\<lparr>cm_role := ''assistant''\<rparr> = m" if "cm_role m = ''assistant''" using that by (cases m) simp
    show ?thesis
    proof (rule that [OF Inr run _ False])
      show "tools \<noteq> []" using assms Inr run False by (auto simp: llm_round_def)
      show "ls_rounds st < nat (maxToolRounds c)"
        using assms Inr run False by (simp add: llm_round_def split: if_splits)
      show "ls_calls st + length (cm_tool_calls m) \<le> nat (maxToolRounds c) * length tools"
        using assms Inr run False by (simp add: llm_round_def split: if_splits)
      show role: "cm_role m = '''' \<or> cm_role m = ''assistant''"
        using assms Inr run False by (simp add: llm_round_def Let_def split: if_splits)
      show "\<not> list_ex bad_call (cm_tool_calls m)"
        using assms Inr run False by (simp add: llm_round_def Let_def split: if_splits)
      show "st' = fold (tool_step run) (cm_tool_calls m)
        (st\<lparr>ls_messages := ls_messages st @ [m\<lparr>cm_role := ''assistant''\<rparr>], ls_rounds := ls_rounds st + 1,
           ls_calls := ls_calls st + length (cm_tool_calls m)\<rparr>)"
      proof (cases "cm_role m = ''assistant''")
        case True
        from assms Inr run False show ?thesis
          unfolding same [OF True] by (simp add: llm_round_def Let_def True split: if_splits)
      next
        case other: False
        with assms Inr run False role show ?thesis by (simp add: llm_round_def Let_def split: if_splits)
      qed
    qed
  qed
qed

function llm_loop ::
  "llm_config \<Rightarrow> (chat_message list \<Rightarrow> go_error + chat_message) \<Rightarrow> chat_tool list
    \<Rightarrow> 's tool_runner option \<Rightarrow> 's llm_state \<Rightarrow> go_error + string" where
  "llm_loop c ask tools execute st =
     (case llm_round c ask tools execute st of
        Finished r \<Rightarrow> r
      | Continue st' \<Rightarrow> llm_loop c ask tools execute st')"
  by pat_completeness auto
termination
proof (relation "measure (\<lambda>(c, ask, tools, execute, st). nat (maxToolRounds c) - ls_rounds st)")
  fix c ask tools execute st st'
  assume "llm_round c ask tools execute st = Continue st'"
  then show "((c, ask, tools, execute, st'), c, ask, tools, execute, st)
      \<in> measure (\<lambda>(c, ask, tools, execute, st). nat (maxToolRounds c) - ls_rounds st)"
    by (rule llm_round_continue) simp
qed simp

declare llm_loop.simps [simp del]

definition llmSystemPrompt :: string where
  "llmSystemPrompt = ''You are a precise Volcano scheduler debugging agent.''"

definition llmToolSystemPrompt :: string where
  "llmToolSystemPrompt = '' Read-only, analysis-scoped tools are available for facts that are not already established by the report. They can inspect the selected Pod and PodGroup, report nodes, the current Volcano scheduler log tail, and dynamically indexed source files from the exact selected branch or tag. Tool results are additional supplied evidence. A failed tool call means that fact is unknown; it is not proof of a scheduling failure. Never request mutation, exec, signals, secrets, or data outside the selected analysis.''"

definition text_message :: "string \<Rightarrow> string \<Rightarrow> chat_message" where
  "text_message role content = \<lparr>cm_role = role, cm_content = Some content, cm_tool_calls = [], cm_tool_call_id = ''''\<rparr>"

definition start_state :: "chat_tool list \<Rightarrow> string \<Rightarrow> 's \<Rightarrow> 's llm_state" where
  "start_state tools prompt session =
     \<lparr>ls_messages = [text_message ''system''
          (if 0 < length tools then llmSystemPrompt @ llmToolSystemPrompt else llmSystemPrompt),
        text_message ''user'' prompt],
      ls_results = [], ls_calls = 0, ls_size = 0, ls_rounds = 0, ls_session = session\<rparr>"

text \<open>The context is never nil here: the caller passes the one of the request.\<close>

definition complete ::
  "chat_transport \<Rightarrow> llm_config \<Rightarrow> string \<Rightarrow> chat_tool list
    \<Rightarrow> 's tool_runner option \<Rightarrow> 's \<Rightarrow> go_error + string" where
  "complete tr c prompt tools execute session =
     (if lc_url c = '''' then Inl (errorf ''LLM_BASE_URL is not configured'')
      else llm_loop c (chat tr c tools) tools execute (start_state tools prompt session))"

definition Complete :: "chat_transport \<Rightarrow> llm_config \<Rightarrow> string \<Rightarrow> go_error + string" where
  "Complete tr c prompt = complete tr c prompt [] None ()"

section \<open>The machine\<close>

inductive llm_step ::
  "llm_config \<Rightarrow> (chat_message list \<Rightarrow> go_error + chat_message) \<Rightarrow> chat_tool list
    \<Rightarrow> 's tool_runner option \<Rightarrow> 's llm_state \<Rightarrow> 's llm_state \<Rightarrow> bool"
  for c ask tools execute where
  answered: "llm_round c ask tools execute st = Continue st' \<Longrightarrow> llm_step c ask tools execute st st'"

inductive_cases llm_stepE: "llm_step c ask tools execute st st'"
inductive_simps llm_step_iff: "llm_step c ask tools execute st st'"

text \<open>The states in which the loop asks the model, from a given prompt.\<close>

inductive asked ::
  "llm_config \<Rightarrow> (chat_message list \<Rightarrow> go_error + chat_message) \<Rightarrow> chat_tool list
    \<Rightarrow> 's tool_runner option \<Rightarrow> string \<Rightarrow> 's \<Rightarrow> 's llm_state \<Rightarrow> bool"
  for c ask tools execute prompt session where
  start: "asked c ask tools execute prompt session (start_state tools prompt session)"
| next_round: "asked c ask tools execute prompt session st \<Longrightarrow> llm_step c ask tools execute st st'
    \<Longrightarrow> asked c ask tools execute prompt session st'"

definition tool_bytes :: "chat_message list \<Rightarrow> nat" where
  "tool_bytes ms = sum_list (map (\<lambda>m. if cm_role m = ''tool''
     then (case cm_content m of None \<Rightarrow> 0 | Some s \<Rightarrow> length s) else 0) ms)"

definition llm_inv :: "llm_config \<Rightarrow> chat_tool list \<Rightarrow> 's llm_state \<Rightarrow> bool" where
  "llm_inv c tools st \<longleftrightarrow>
     ls_rounds st \<le> nat (maxToolRounds c) \<and> ls_rounds st \<le> ls_calls st
     \<and> ls_calls st \<le> nat (maxToolRounds c) * length tools
     \<and> ls_size st = tool_bytes (ls_messages st)
     \<and> ls_size st \<le> maxToolResultsTotalSize + ls_calls st * length budget_error
     \<and> length (ls_messages st) = 2 + ls_rounds st + ls_calls st"

lemma tool_bytes_simps [simp]:
  "tool_bytes [] = 0" "tool_bytes (a @ b) = tool_bytes a + tool_bytes b"
  "tool_bytes [tool_message call s] = length s" "tool_bytes [m\<lparr>cm_role := ''assistant''\<rparr>] = 0"
  by (simp_all add: tool_bytes_def tool_message_def)

lemma tool_step_size:
  assumes "ls_size st = tool_bytes (ls_messages st)"
    and "ls_size st \<le> maxToolResultsTotalSize + n * length budget_error"
  shows "ls_size (tool_step run call st) = tool_bytes (ls_messages (tool_step run call st))
    \<and> ls_size (tool_step run call st) \<le> maxToolResultsTotalSize + (n + 1) * length budget_error
    \<and> length (ls_messages (tool_step run call st)) = length (ls_messages st) + 1"
  using assms by (auto simp: tool_step_def Let_def)

lemma tool_fold_size:
  assumes "ls_size st = tool_bytes (ls_messages st)"
    and "ls_size st \<le> maxToolResultsTotalSize + n * length budget_error"
  shows "ls_size (fold (tool_step run) calls st) = tool_bytes (ls_messages (fold (tool_step run) calls st))
    \<and> ls_size (fold (tool_step run) calls st) \<le> maxToolResultsTotalSize + (n + length calls) * length budget_error
    \<and> length (ls_messages (fold (tool_step run) calls st)) = length (ls_messages st) + length calls"
  using assms
proof (induction calls arbitrary: st n)
  case (Cons call calls)
  note s = tool_step_size [OF Cons.prems, of run call]
  from Cons.IH [of "tool_step run call st" "n + 1"] s show ?case by simp
qed simp

lemma llm_step_inv:
  assumes "llm_step c ask tools execute st st'" and "llm_inv c tools st"
  shows "llm_inv c tools st'"
  using assms(1)
proof (rule llm_stepE)
  assume "llm_round c ask tools execute st = Continue st'"
  then show ?thesis
  proof (rule llm_round_continue)
    fix m :: chat_message and run
    let ?n = "length (cm_tool_calls m)"
    let ?st = "st\<lparr>ls_messages := ls_messages st @ [m\<lparr>cm_role := ''assistant''\<rparr>], ls_rounds := ls_rounds st + 1,
           ls_calls := ls_calls st + ?n\<rparr>"
    assume m: "cm_tool_calls m \<noteq> []" "ls_rounds st < nat (maxToolRounds c)"
      "ls_calls st + ?n \<le> nat (maxToolRounds c) * length tools"
      and st': "st' = fold (tool_step run) (cm_tool_calls m) ?st"
    have "ls_size ?st = tool_bytes (ls_messages ?st)"
      "ls_size ?st \<le> maxToolResultsTotalSize + ls_calls st * length budget_error"
      using assms(2) by (simp_all add: llm_inv_def)
    from tool_fold_size [OF this, of run "cm_tool_calls m"] m assms(2) show ?thesis
      unfolding st' llm_inv_def by (cases "cm_tool_calls m") auto
  qed
qed

lemma asked_inv: "asked c ask tools execute prompt session st \<Longrightarrow> llm_inv c tools st"
proof (induction rule: asked.induct)
  case start
  show ?case by (simp add: llm_inv_def start_state_def tool_bytes_def text_message_def)
next
  case (next_round st st')
  then show ?case by (blast intro: llm_step_inv)
qed


lemma loop_verdict:
  "asked c ask tools execute prompt session st \<Longrightarrow>
   \<exists>st'. asked c ask tools execute prompt session st'
     \<and> llm_round c ask tools execute st' = Finished (llm_loop c ask tools execute st)"
proof (induction c ask tools execute st rule: llm_loop.induct)
  case (1 c ask tools execute st)
  show ?case
  proof (cases "llm_round c ask tools execute st")
    case (Finished r)
    with 1(2) show ?thesis by (auto simp: llm_loop.simps [of c ask tools execute st])
  next
    case (Continue st')
    then have "asked c ask tools execute prompt session st'"
      using 1(2) by (blast intro: asked.next_round llm_step.answered)
    from 1(1) [OF Continue this] Continue show ?thesis
      by (simp add: llm_loop.simps [of c ask tools execute st])
  qed
qed

text \<open>
  The contract of an executor: its session stays within an invariant, and its answers satisfy a bound. In
  every state the loop reaches, the session then satisfies the invariant and the history the bound.
\<close>

locale bounded_runner =
  fixes run :: "'s tool_runner" and ok :: "'s \<Rightarrow> bool" and bounded :: "string \<Rightarrow> bool"
  assumes keeps: "ok s \<Longrightarrow> ok (snd (run ms call s))"
    and answers: "bounded (fst (run ms call s))"
    and budget: "bounded budget_error"
begin

definition fine :: "'s llm_state \<Rightarrow> bool" where
  "fine st \<longleftrightarrow> ok (ls_session st) \<and> (\<forall>key r. gm_get (ls_results st) key = Some r \<longrightarrow> bounded r)
     \<and> (\<forall>m \<in> set (ls_messages st). cm_role m = ''tool'' \<longrightarrow> (\<exists>t. cm_content m = Some t \<and> bounded t))"

lemma fine_step: "fine st \<Longrightarrow> fine (tool_step run call st)"
proof -
  assume f: "fine st"
  define answer where "answer = (case gm_get (ls_results st) (call_key call) of
      Some r \<Rightarrow> (r, ls_session st) | None \<Rightarrow> run (ls_messages st) call (ls_session st))"
  have a: "ok (snd answer)" "bounded (fst answer)"
    using f keeps answers by (auto simp: answer_def fine_def split: option.split)
  then show ?thesis
    using f budget unfolding tool_step_def Let_def answer_def [symmetric]
    by (auto simp: fine_def tool_message_def split: option.split)
qed

lemma fine_fold: "fine st \<Longrightarrow> fine (fold (tool_step run) calls st)"
  by (induction calls arbitrary: st) (simp_all add: fine_step)

lemma fine_asked: "asked c ask tools (Some run) prompt session st \<Longrightarrow> ok session \<Longrightarrow> fine st"
proof (induction rule: asked.induct)
  case start
  then show ?case by (simp add: fine_def start_state_def text_message_def)
next
  case (next_round st st')
  from next_round.hyps(2) have "llm_round c ask tools (Some run) st = Continue st'" by (simp only: llm_step_iff)
  then show ?case
  proof (rule llm_round_continue)
    fix m :: chat_message and run'
    assume r: "Some run = Some run'" and st': "st' = fold (tool_step run') (cm_tool_calls m)
        (st\<lparr>ls_messages := ls_messages st @ [m\<lparr>cm_role := ''assistant''\<rparr>], ls_rounds := ls_rounds st + 1,
           ls_calls := ls_calls st + length (cm_tool_calls m)\<rparr>)"
    have "fine (st\<lparr>ls_messages := ls_messages st @ [m\<lparr>cm_role := ''assistant''\<rparr>], ls_rounds := ls_rounds st + 1,
           ls_calls := ls_calls st + length (cm_tool_calls m)\<rparr>)"
      using next_round.IH [OF next_round.prems] by (auto simp: fine_def)
    moreover have "run' = run" using r by simp
    ultimately show ?thesis unfolding st' by (simp only: fine_fold)
  qed
qed

end

definition answers_with_tools :: "(chat_message list \<Rightarrow> go_error + chat_message) \<Rightarrow> bool" where
  "answers_with_tools ask \<longleftrightarrow> (\<forall>ms. case ask ms of
       Inl e \<Rightarrow> False
     | Inr m \<Rightarrow> (cm_role m = '''' \<or> cm_role m = ''assistant'') \<and> length (cm_tool_calls m) = 1
         \<and> \<not> list_ex bad_call (cm_tool_calls m))"

lemma answers_with_toolsE:
  assumes "answers_with_tools ask"
  obtains m where "ask ms = Inr m" "length (cm_tool_calls m) = 1" "cm_role m = '''' \<or> cm_role m = ''assistant''"
    "\<not> list_ex bad_call (cm_tool_calls m)"
proof -
  have "case ask ms of Inl e \<Rightarrow> False
     | Inr m \<Rightarrow> (cm_role m = '''' \<or> cm_role m = ''assistant'') \<and> length (cm_tool_calls m) = 1
         \<and> \<not> list_ex bad_call (cm_tool_calls m)"
    using assms unfolding answers_with_tools_def by blast
  then show ?thesis using that by (cases "ask ms") simp_all
qed

lemma endless_tools:
  assumes "answers_with_tools ask" and "tools \<noteq> []" and "ls_calls st = ls_rounds st"
    and "ls_rounds st \<le> nat (maxToolRounds c)"
  shows "llm_loop c ask tools (Some run) st
    = Inl (toolRoundLimitError (nat (maxToolRounds c)) (nat (maxToolRounds c)))"
  using assms(3,4)
proof (induction "nat (maxToolRounds c) - ls_rounds st" arbitrary: st)
  case (0 st)
  then have r: "ls_rounds st = nat (maxToolRounds c)" by simp
  obtain m where m: "ask (ls_messages st) = Inr m" "length (cm_tool_calls m) = 1"
    using answers_with_toolsE [OF assms(1)] by blast
  then have "cm_tool_calls m \<noteq> []" by auto
  with m(1) r assms(2) show ?case by (simp add: llm_loop.simps [of c ask tools _ st] llm_round_def)
next
  case (Suc k st)
  obtain m where m: "ask (ls_messages st) = Inr m" "length (cm_tool_calls m) = 1"
    "cm_role m = '''' \<or> cm_role m = ''assistant''" "\<not> list_ex bad_call (cm_tool_calls m)"
    by (rule answers_with_toolsE [OF assms(1), of "ls_messages st"])
  then have ne: "cm_tool_calls m \<noteq> []" by auto
  have lt: "ls_rounds st < nat (maxToolRounds c)" using Suc(2) by simp
  have "nat (maxToolRounds c) * 1 \<le> nat (maxToolRounds c) * length tools"
    using assms(2) by (intro mult_le_mono2) (simp add: Suc_leI)
  with lt Suc(3) m(2) have few: "\<not> nat (maxToolRounds c) * length tools < ls_calls st + length (cm_tool_calls m)"
    by linarith
  have "\<exists>st'. llm_round c ask tools (Some run) st = Continue st' \<and> ls_rounds st' = ls_rounds st + 1
      \<and> ls_calls st' = ls_calls st + 1"
    using m ne lt few assms(2) by (auto simp: llm_round_def Let_def)
  then obtain st' where st': "llm_round c ask tools (Some run) st = Continue st'"
    "ls_rounds st' = ls_rounds st + 1" "ls_calls st' = ls_calls st + 1" by blast
  have "llm_loop c ask tools (Some run) st' = Inl (toolRoundLimitError (nat (maxToolRounds c)) (nat (maxToolRounds c)))"
    using Suc(2,3) st' lt by (intro Suc(1)) simp_all
  then show ?case using st'(1) by (simp add: llm_loop.simps [of c ask tools _ st])
qed

lemma maxToolRounds_bounds: "1 \<le> maxToolRounds c \<and> maxToolRounds c \<le> 16"
  by (simp add: maxToolRounds_def defaultMaxToolRounds_def maximumMaxToolRounds_def)

section \<open>Properties\<close>

text \<open>C12: the loop always ends, and its result is the verdict of a round that was really asked: a
  function of the measure rounds left, whatever the model and the tools answer.\<close>

theorem tool_loop_ends:
  "\<exists>st. asked c ask tools execute prompt session st
     \<and> llm_round c ask tools execute st = Finished (llm_loop c ask tools execute (start_state tools prompt session))"
  by (rule loop_verdict) (rule asked.start)

text \<open>C6: in every state in which the model is asked, at most 16 rounds were made and never more than
  configured, the calls stay within rounds times tools, the history holds exactly the answers to
  these calls, and the tool results in it stay within 256 KiB plus one short error text per call.\<close>

theorem tool_loop_limits:
  assumes "asked c ask tools execute prompt session st"
  shows "int (ls_rounds st) \<le> maxToolRounds c \<and> ls_rounds st \<le> 16
    \<and> ls_calls st \<le> nat (maxToolRounds c) * length tools
    \<and> length (ls_messages st) = 2 + ls_rounds st + ls_calls st
    \<and> tool_bytes (ls_messages st) \<le> 262144 + ls_calls st * 50"
proof -
  have "length budget_error = 50" by (simp add: budget_error_def dq_def)
  with asked_inv [OF assms] maxToolRounds_bounds [of c] show ?thesis
    by (auto simp: llm_inv_def maxToolResultsTotalSize_def)
qed

definition one_call :: chat_message where
  "one_call = \<lparr>cm_role = '''', cm_content = None,
     cm_tool_calls = [\<lparr>tc_id = ''1'', tc_type = ''function'', tc_name = ''k8s_get_node'', tc_arguments = ''{}''\<rparr>],
     cm_tool_call_id = ''''\<rparr>"

definition sample_tool :: chat_tool where
  "sample_tool = \<lparr>ct_tool = ''k8s_get_node'', ct_description = '''', ct_parameters = []\<rparr>"

definition sample_config :: llm_config where
  "sample_config = \<lparr>lc_url = ''http://llm'', lc_key = '''', lc_model = ''m'', lc_max_tool_rounds = 2, lc_timeout = 0\<rparr>"

theorem tool_loop_limits_witness:
  "\<exists>st. asked sample_config (\<lambda>_. Inr one_call) [sample_tool] (Some (\<lambda>_ _ s. (''ok'', s))) ''why'' () st
     \<and> ls_rounds st = 1 \<and> length (ls_messages st) = 3 + ls_calls st
     \<and> tool_bytes (ls_messages st) \<le> 262144 + ls_calls st * 50"
proof -
  let ?run = "Some (\<lambda>_ _ s. (''ok'', s))" and ?s0 = "start_state [sample_tool] ''why'' ()"
  have "nat (maxToolRounds sample_config) = 2"
    by (simp add: maxToolRounds_def sample_config_def maximumMaxToolRounds_def)
  then have "\<exists>st. llm_round sample_config (\<lambda>_. Inr one_call) [sample_tool] ?run ?s0 = Continue st \<and> ls_rounds st = 1"
    by (simp add: llm_round_def one_call_def bad_call_def start_state_def)
  then obtain st where st: "llm_round sample_config (\<lambda>_. Inr one_call) [sample_tool] ?run ?s0 = Continue st"
    "ls_rounds st = 1" by blast
  have a: "asked sample_config (\<lambda>_. Inr one_call) [sample_tool] ?run ''why'' () st"
    by (rule asked.next_round [OF asked.start llm_step.answered [OF st(1)]])
  from tool_loop_limits [OF a] st(2) show ?thesis by (intro exI [of _ st] conjI a) simp_all
qed

text \<open>C28: a model that answers every request with one valid tool call is stopped: after the configured
  number of rounds the loop returns the round limit error, which the fallback recognises.\<close>

theorem endless_tools_stopped:
  assumes "answers_with_tools ask" and "tools \<noteq> []"
  shows "llm_loop c ask tools (Some run) (start_state tools prompt session)
      = Inl (toolRoundLimitError (nat (maxToolRounds c)) (nat (maxToolRounds c)))
    \<and> err_is ErrLLMToolRoundLimit (toolRoundLimitError (nat (maxToolRounds c)) (nat (maxToolRounds c)))"
  using endless_tools [OF assms, of "start_state tools prompt session" c run]
  by (simp add: start_state_def err_is_def toolRoundLimitError_def)

theorem endless_tools_stopped_witness:
  "answers_with_tools (\<lambda>_. Inr one_call)
   \<and> llm_loop sample_config (\<lambda>_. Inr one_call) [sample_tool] (Some (\<lambda>_ _ s. (''ok'', s)))
       (start_state [sample_tool] ''why'' ()) = Inl (toolRoundLimitError 2 2)"
proof -
  have a: "answers_with_tools (\<lambda>_. Inr one_call)" by (simp add: answers_with_tools_def one_call_def bad_call_def)
  have "nat (maxToolRounds sample_config) = 2"
    by (simp add: maxToolRounds_def sample_config_def maximumMaxToolRounds_def)
  with endless_tools_stopped [OF a, of "[sample_tool]" sample_config "\<lambda>_ _ s. (''ok'', s)" "''why''" "()"] a
  show ?thesis by simp
qed

end
