(* ===== verification/Fallback.thy ===== *)
theory Fallback
  imports Diagnosis Report Runtime_Plugins Llm
begin

text \<open>
  The end of an analysis: \<open>finishReport\<close> of \<open>internal/agent/analyzer.go\<close> and the source fallback of
  \<open>fallback.go\<close>. The source manager, the version probe, the JSON encoding of the report and the
  tool-calling LLM are functions of the model. Facts: finishing keeps every collected check in its
  place and never lets an open check pass; the LLM is only asked when no failure is known and
  something is open, and its answer never changes the verdict, the checks or the stages.
\<close>

section \<open>Finishing a report\<close>

definition finishReport :: "gotime \<Rightarrow> report \<Rightarrow> presentation_evidence \<Rightarrow> report" where
  "finishReport now report ev =
     (let r1 = finalizeReport report;
          r2 = buildPresentation now r1 ev;
          r3 = synchronizePresentation r2;
          r4 = finalizeReport r3
      in r4\<lparr>re_diagnosis := diagnoseReport r4\<rparr>)"

section \<open>The prompt\<close>

definition nl :: string where "nl = [char_of (10 :: nat)]"

definition name_list :: "string list \<Rightarrow> string" where
  "name_list names = (if names = [] then ''none'' else join names '','')"

definition index_line :: "source_file \<Rightarrow> string" where
  "index_line file =
     ''- '' @ sf_path file @ '' plugins='' @ name_list (sf_plugin_names file) @ '' hooks='' @
       name_list (sf_hooks file) @ '' content_in_prompt='' @ fmt_t (sf_content file \<noteq> '''') @ nl"

definition content_block :: "source_file \<Rightarrow> string" where
  "content_block file =
     (if sf_content file \<noteq> '''' then nl @ ''FILE '' @ sf_path file @ nl @ sf_content file else '''')"

definition prompt_head :: string where
  "prompt_head = ''You diagnose Volcano Pod Pending. Use only supplied evidence and source. '' @
     ''State root cause, exact function path, and next verification. '' @
     ''Do not invent runtime facts. A passed common rule does not prove a branch-specific plugin passed. '' @
     ''An indexed plugin is only a source candidate; source presence does not prove it is enabled in the runtime scheduler tiers or actions. '' @
     ''JobEnqueueable uses configured tier voting and short-circuiting, not a flat AND. '' @
     ''The source index was discovered from the exact selected worktree; use the source read tool for indexed files whose content is absent or truncated.''"

definition buildPromptFromSources ::
  "(report \<Rightarrow> go_error + string) \<Rightarrow> report \<Rightarrow> source_file list \<Rightarrow> go_error + (string \<times> string list)" where
  "buildPromptFromSources marshal report sources =
     (case marshal report of
        Inl e \<Rightarrow> Inl (errorw ''encode analysis report: '' e)
      | Inr reportJSON \<Rightarrow> Inr
          (prompt_head @ nl @ ''REPORT'' @ nl @ reportJSON @ nl @ ''SOURCE INDEX'' @ nl @
             concat (map index_line sources) @ nl @ ''BOUNDED SOURCE CONTENT'' @ nl @
             concat (map content_block sources),
           map sf_path sources))"

section \<open>The fallback\<close>

text \<open>\<open>time.Duration.String\<close> of a duration that is not negative: hours, minutes and seconds, or one small unit.\<close>

definition fraction :: "int \<Rightarrow> nat \<Rightarrow> string" where
  "fraction v prec =
     (let digits = rev (dropWhile (\<lambda>c. c = CHR ''0'') (rev (pad_left prec (dec_str (v mod 10 ^ prec)))))
      in dec_str (v div 10 ^ prec) @ (if digits = [] then '''' else ''.'' @ digits))"

definition duration_string :: "int \<Rightarrow> string" where
  "duration_string d =
     (if d = 0 then ''0s''
      else if d < 1000 then dec_str d @ ''ns''
      else if d < 1000000 then fraction d 3 @ utf8 [194, 181] @ ''s''
      else if d < 1000000000 then fraction d 6 @ ''ms''
      else (let minutes = d div 60000000000; hours = minutes div 60
            in (if 0 < hours then dec_str hours @ ''h'' else '''') @
               (if 0 < minutes then dec_str (minutes mod 60) @ ''m'' else '''') @
               fraction (d mod 60000000000) 9 @ ''s''))"

definition llmFallbackRecommendation :: "go_error \<Rightarrow> llm_config \<Rightarrow> string option" where
  "llmFallbackRecommendation err config =
     (if err_is ErrLLMToolRoundLimit err then
        Some (''LLM reached the configured maximum of '' @ fmt_d (maxToolRounds config) @
          '' tool rounds without a conclusion; review the selected Volcano source and scheduler logs manually.'')
      else if err_is DeadlineExceeded err then
        Some (''LLM fallback reached a deadline before producing a conclusion (configured total timeout '' @
          duration_string (completionTimeout config) @
          ''); review the selected Volcano source and scheduler logs manually.'')
      else if err_is Canceled err then
        Some ''LLM fallback was canceled before producing a conclusion; review the selected Volcano source and scheduler logs manually.''
      else None)"

record source_api =
  so_prepare_branch :: "string \<Rightarrow> go_error + string"
  so_prepare :: "string \<Rightarrow> go_error + string"
  so_load_sources :: "string \<Rightarrow> go_error + source_file list"
  so_plugin_defaults :: "string \<Rightarrow> bool gomap \<times> go_error option"
  so_predicate_defaults :: "string \<Rightarrow> bool gomap \<times> go_error option"

record tool_scope =
  sc_namespace :: string
  sc_pod :: string
  sc_node_names :: "string list"
  sc_source_root :: string
  sc_source_files :: "string list"

record fallback_env =
  fe_now :: gotime
  fe_source :: "source_api option"
  fe_version :: "scheduler \<Rightarrow> scheduler \<times> go_error option"
  fe_marshal :: "report \<Rightarrow> go_error + string"
  fe_llm :: llm_config
  fe_complete :: "string \<Rightarrow> tool_scope \<Rightarrow> go_error + string"

definition prepareSource ::
  "(scheduler \<Rightarrow> scheduler \<times> go_error option) \<Rightarrow> source_api \<Rightarrow> request \<Rightarrow> scheduler \<Rightarrow> go_error + string" where
  "prepareSource version source request scheduler =
     (if rq_branch request \<noteq> '''' then so_prepare_branch source (rq_branch request)
      else (let (versioned, versionErr) = version scheduler
            in if versionErr = None \<and> sch_version versioned \<noteq> '''' then so_prepare source (sch_version versioned)
               else so_prepare source (sch_tag scheduler)))"

definition with_answer :: "string \<Rightarrow> report \<Rightarrow> report" where
  "with_answer answer report =
     report\<lparr>re_llm := answer, re_conclusion := answer,
       re_diagnosis := diagnosis_of (zh_llm_cause @ answer) [zh_llm_review]\<rparr>"

definition with_recommendation :: "string \<Rightarrow> report \<Rightarrow> report" where
  "with_recommendation message report =
     report\<lparr>re_llm := message, re_conclusion := message,
       re_diagnosis := diagnosis_of zh_llm_no_cause [message, zh_llm_manual]\<rparr>"

text \<open>The part after the report is finished: whether and how the LLM is asked.\<close>

definition ask_llm :: "fallback_env \<Rightarrow> string \<Rightarrow> source_file list \<Rightarrow> report \<Rightarrow> report" where
  "ask_llm env worktree sources report =
     (if 0 < length (knownFailures report) then report
      else if \<not> hasUnknown report then report
      else (case buildPromptFromSources (fe_marshal env) report sources of
          Inl e \<Rightarrow> report\<lparr>re_llm := ''build LLM prompt failed: '' @ err_text e\<rparr>
        | Inr (prompt, sourceFiles) \<Rightarrow>
            (case fe_complete env prompt
                \<lparr>sc_namespace = rq_namespace (re_request report), sc_pod = rq_pod (re_request report),
                 sc_node_names = map nr_name (re_nodes report), sc_source_root = worktree,
                 sc_source_files = sourceFiles\<rparr> of
               Inr answer \<Rightarrow> with_answer answer report
             | Inl e \<Rightarrow>
                 (case llmFallbackRecommendation e (fe_llm env) of
                    Some message \<Rightarrow> with_recommendation message report
                  | None \<Rightarrow> report\<lparr>re_llm := ''LLM fallback failed: '' @ err_text e\<rparr>))))"

definition applySourceFallback ::
  "fallback_env \<Rightarrow> report \<Rightarrow> scheduler \<Rightarrow> presentation_evidence \<Rightarrow> report" where
  "applySourceFallback env report0 scheduler ev =
     (let report = report0\<lparr>re_source_fallback := True\<rparr>
      in case fe_source env of
           None \<Rightarrow> finishReport (fe_now env)
             (report\<lparr>re_llm := ''source preparation failed: source manager is not configured''\<rparr>) ev
         | Some source \<Rightarrow>
       (case prepareSource (fe_version env) source (re_request report) scheduler of
          Inl e \<Rightarrow> finishReport (fe_now env) (report\<lparr>re_llm := ''source preparation failed: '' @ err_text e\<rparr>) ev
        | Inr worktree \<Rightarrow>
       (case so_load_sources source worktree of
          Inl e \<Rightarrow> finishReport (fe_now env)
            (report\<lparr>re_llm := ''index selected Volcano source failed: '' @ err_text e\<rparr>) ev
        | Inr sources \<Rightarrow>
            (let (defaults, defaultsErr) = so_plugin_defaults source worktree;
                 (predicateDefaults, predicateErr) = so_predicate_defaults source worktree;
                 report1 = report\<lparr>re_predicate_defaults := predicateDefaults,
                   re_predicate_defaults_err := (case predicateErr of
                     None \<Rightarrow> re_predicate_defaults_err report | Some e \<Rightarrow> err_text e),
                   re_plugin_hooks := InspectPluginHooks (re_policy report) sources defaults defaultsErr,
                   re_hooks_inspected := True\<rparr>
             in ask_llm env worktree sources (finishReport (fe_now env) report1 ev)))))"


section \<open>Facts about finishing\<close>

lemma finalize_conclusion_shape:
  "re_passed (r\<lparr>re_diagnosis := d\<rparr>) = re_passed r" "re_conclusion (r\<lparr>re_diagnosis := d\<rparr>) = re_conclusion r"
  by simp_all

lemma synchronize_frame [simp]:
  "re_enqueue (synchronizePresentation r) = re_enqueue r" "re_job_valid (synchronizePresentation r) = re_job_valid r"
  "re_allocate (synchronizePresentation r) = re_allocate r" "re_policy (synchronizePresentation r) = re_policy r"
  "re_plugin_hooks (synchronizePresentation r) = re_plugin_hooks r" "re_request (synchronizePresentation r) = re_request r"
  by (simp_all add: synchronizePresentation_def Let_def)

lemma synchronize_checks:
  "set (re_checks (synchronizePresentation r)) \<subseteq>
     insert (nodeAvailabilityCheck (cloneNodeResults (ar_nodes (re_allocate r)))) (set (re_checks r))"
  "{c \<in> set (re_checks r). chk_id c \<noteq> ''allocate.nodes''} \<subseteq> set (re_checks (synchronizePresentation r))"
  by (auto simp: synchronizePresentation_def Let_def)

definition synchronized :: "gotime \<Rightarrow> report \<Rightarrow> presentation_evidence \<Rightarrow> report" where
  "synchronized now r ev = synchronizePresentation (buildPresentation now (finalizeReport r) ev)"

lemma finishReport_eq:
  "finishReport now r ev = (finalizeReport (synchronized now r ev))
     \<lparr>re_diagnosis := diagnoseReport (finalizeReport (synchronized now r ev))\<rparr>"
  by (simp add: finishReport_def synchronized_def Let_def)

lemma diagnoseReport_finalize: "diagnoseReport (finalizeReport r) = diagnoseReport r"
proof -
  have f: "re_checks (finalizeReport r) = re_checks r" "re_enqueue (finalizeReport r) = re_enqueue r"
    "re_job_valid (finalizeReport r) = re_job_valid r" "re_allocate (finalizeReport r) = re_allocate r" by simp_all
  show ?thesis
    unfolding diagnoseReport_def stage_diagnosis_def node_diagnosis_def closing_diagnosis_def
      allSchedulingStagesSkipped_def f ..
qed

lemma synchronized_stages [simp]:
  "re_enqueue (synchronized now r ev) = buildEnqueuePresentation now (finalizeReport r) ev"
  "re_job_valid (synchronized now r ev) = buildJobValidPresentation (finalizeReport r) ev"
  "re_allocate (synchronized now r ev) = buildAllocatePresentation (finalizeReport r) ev"
  "re_policy (synchronized now r ev) = re_policy r" "re_plugin_hooks (synchronized now r ev) = re_plugin_hooks r"
  "re_request (synchronized now r ev) = re_request r"
  by (simp_all add: synchronized_def)

lemma synchronized_checks:
  "{c \<in> set (re_checks r). chk_id c \<noteq> ''allocate.nodes''} \<subseteq> set (re_checks (synchronized now r ev))"
  "set (re_checks (synchronized now r ev)) \<subseteq> set (re_checks r)
     \<union> {nodeAvailabilityCheck (cloneNodeResults (ar_nodes (buildAllocatePresentation (finalizeReport r) ev)))}"
  using synchronize_checks [of "buildPresentation now (finalizeReport r) ev"] by (auto simp: synchronized_def)

lemma finishReport_fields [simp]:
  "re_checks (finishReport now r ev) = re_checks (synchronized now r ev)"
  "re_nodes (finishReport now r ev) = re_nodes (synchronized now r ev)"
  "re_enqueue (finishReport now r ev) = buildEnqueuePresentation now (finalizeReport r) ev"
  "re_job_valid (finishReport now r ev) = buildJobValidPresentation (finalizeReport r) ev"
  "re_allocate (finishReport now r ev) = buildAllocatePresentation (finalizeReport r) ev"
  "re_passed (finishReport now r ev) = re_passed (finalizeReport (synchronized now r ev))"
  "re_conclusion (finishReport now r ev) = re_conclusion (finalizeReport (synchronized now r ev))"
  "re_request (finishReport now r ev) = re_request r" "re_policy (finishReport now r ev) = re_policy r"
  "re_plugin_hooks (finishReport now r ev) = re_plugin_hooks r"
  "re_diagnosis (finishReport now r ev) = diagnoseReport (synchronized now r ev)"
  by (simp_all add: finishReport_eq diagnoseReport_finalize)

lemma finishReport_bad:
  assumes "c \<in> set (re_checks r)" and "chk_id c \<noteq> ''allocate.nodes''" and "stage_of c \<noteq> ''''"
    and "\<not> check_ok c"
  shows "\<not> re_passed (finishReport now r ev)"
proof -
  have "c \<in> set (re_checks (synchronized now r ev))" using assms(1,2) synchronized_checks(1) by blast
  from finalizeReport_bad [OF this assms(3,4)] show ?thesis by simp
qed

lemma ask_llm_frame [simp]:
  "re_passed (ask_llm env w s r) = re_passed r" "re_checks (ask_llm env w s r) = re_checks r"
  "re_nodes (ask_llm env w s r) = re_nodes r" "re_actions (ask_llm env w s r) = re_actions r"
  "re_enqueue (ask_llm env w s r) = re_enqueue r" "re_job_valid (ask_llm env w s r) = re_job_valid r"
  "re_allocate (ask_llm env w s r) = re_allocate r" "re_policy (ask_llm env w s r) = re_policy r"
  "re_plugin_hooks (ask_llm env w s r) = re_plugin_hooks r"
  by (auto simp: ask_llm_def with_answer_def with_recommendation_def split: sum.split option.split)

section \<open>Properties\<close>

text \<open>C17: the LLM never decides: whatever it answers, the verdict, the checks, the nodes, the sections
  and the three stages of the finished report stay as they are; and unless no failure is known and
  something is open, the report is not touched at all.\<close>

theorem llm_never_decides:
  "(let r' = ask_llm env worktree sources r in
     re_passed r' = re_passed r \<and> re_checks r' = re_checks r \<and> re_nodes r' = re_nodes r
     \<and> re_actions r' = re_actions r \<and> re_enqueue r' = re_enqueue r \<and> re_job_valid r' = re_job_valid r
     \<and> re_allocate r' = re_allocate r \<and> re_plugin_hooks r' = re_plugin_hooks r
     \<and> (r' = r \<or> knownFailures r = [] \<and> hasUnknown r))"
  unfolding Let_def by (simp only: ask_llm_frame simp_thms) (simp add: ask_llm_def)

end
