(* ===== verification/Enqueue.thy ===== *)
theory Enqueue
  imports Runtime_Policy
begin

text \<open>
  Package \<open>internal/agent/enqueue\<close>: the queue a job uses, and the three checks of the enqueue
  stage. The facts: the stage always emits its three checks in one order (\<open>Evaluate_ids\<close>), the
  evidence check fails exactly when a determinate policy has the enqueue action and the PodGroup
  is not yet in its queue, and the event loop selects the latest classified event of the
  scheduler.
\<close>

definition enqueueSources :: "string list" where
  "enqueueSources =
     [''pkg/scheduler/actions/enqueue/enqueue.go'',
      ''pkg/scheduler/framework/session_plugins.go:JobEnqueueable'']"

definition queueSources :: "string list" where
  "queueSources =
     [''cmd/scheduler/app/options/options.go'',
      ''pkg/scheduler/cache/event_handlers.go:setPodGroup'',
      ''pkg/scheduler/actions/enqueue/enqueue.go'']"

record enqueue_input =
  ei_scheduler_name :: string
  ei_actions :: "string list"
  ei_actions_determinate :: bool
  ei_active_determinate :: bool
  ei_pod_group :: pod_group
  ei_pod_group_err :: "go_error option"
  ei_queue_name :: string
  ei_queue_name_err :: "go_error option"
  ei_queue :: queue
  ei_queue_err :: "go_error option"
  ei_pod_events :: "event list"
  ei_pod_events_err :: "go_error option"
  ei_group_events :: "event list"
  ei_group_events_err :: "go_error option"

definition ResolveQueueName ::
  "pod_group \<Rightarrow> scheduler \<Rightarrow> go_error option \<Rightarrow> string \<times> go_error option" where
  "ResolveQueueName podGroup scheduler schedulerErr =
     (if pg_queue podGroup \<noteq> '''' then (pg_queue podGroup, None)
      else case schedulerErr of
        Some e \<Rightarrow> ('''', Some (errorw ''resolve scheduler default queue: '' e))
      | None \<Rightarrow>
          if \<not> sch_determinate scheduler then
            ('''', Some (errorf (''resolve scheduler default queue: '' @ sch_reason scheduler)))
          else if sch_default_queue scheduler = '''' then
            ('''', Some (errorf ''resolve scheduler default queue: parsed value is empty''))
          else (sch_default_queue scheduler, None))"

definition containsAction :: "string list \<Rightarrow> string \<Rightarrow> bool" where
  "containsAction actions wanted = list_ex (\<lambda>action. trim_space action = wanted) actions"

definition podGroupInQueue :: "pod_group \<Rightarrow> bool" where
  "podGroupInQueue podGroup =
     (equal_fold (pg_phase podGroup) ''Inqueue'' \<or> equal_fold (pg_phase podGroup) ''Running'')"

section \<open>Events\<close>

datatype enqueueOutcome = enqueueUnknown | enqueueRejected | enqueueSucceeded

definition classifyEnqueueEvent :: "event \<Rightarrow> enqueueOutcome" where
  "classifyEnqueueEvent event =
     (let reason = to_lower (trim_space (ev_reason event));
          message = to_lower (trim_space (ev_message event))
      in if reason = ''enqueued'' \<or> contains message ''job enqueued''
            \<or> contains message ''podgroup enqueued'' then enqueueSucceeded
         else if equal_fold (ev_kind event) ''PodGroup''
            \<and> contains message ''queue resource quota insufficient'' then enqueueRejected
         else if contains reason ''enqueue''
            \<and> (contains reason ''fail'' \<or> contains reason ''reject'') then enqueueRejected
         else enqueueUnknown)"

definition schedulerEvent :: "event \<Rightarrow> string \<Rightarrow> bool" where
  "schedulerEvent event schedulerName =
     (let expected = to_lower (trim_space schedulerName) in
      list_ex (\<lambda>c. let component = to_lower (trim_space c) in
        component \<noteq> '''' \<and>
        (component = expected \<or> contains component ''volcano'' \<or> contains component ''vc-scheduler''))
        [ev_component event, ev_controller event])"

definition eventObservedTime :: "event \<Rightarrow> gotime" where
  "eventObservedTime event =
     (if ev_event_time event \<noteq> 0 then ev_event_time event
      else case ev_series_time event of
        Some t \<Rightarrow>
          if t \<noteq> 0 then t
          else if ev_last_time event \<noteq> 0 then ev_last_time event
          else if ev_first_time event \<noteq> 0 then ev_first_time event
          else ev_created event
      | None \<Rightarrow>
          if ev_last_time event \<noteq> 0 then ev_last_time event
          else if ev_first_time event \<noteq> 0 then ev_first_time event
          else ev_created event)"

definition empty_event :: event where
  "empty_event = \<lparr>ev_type = [], ev_reason = [], ev_message = [], ev_count = 0, ev_action = [], ev_kind = [],
     ev_object_name = [], ev_object_uid = [], ev_component = [],
     ev_controller = [], ev_event_time = 0, ev_series_time = None, ev_last_time = 0,
     ev_first_time = 0, ev_created = 0\<rparr>"

definition evidence_step ::
  "string \<Rightarrow> event \<Rightarrow> event \<times> enqueueOutcome \<times> gotime \<Rightarrow> event \<times> enqueueOutcome \<times> gotime" where
  "evidence_step schedulerName event st =
     (let (selected, selectedOutcome, selectedTime) = st in
      if \<not> schedulerEvent event schedulerName then st
      else (let outcome = classifyEnqueueEvent event in
        if outcome = enqueueUnknown then st
        else (let observed = eventObservedTime event in
          if selectedOutcome = enqueueUnknown \<or> selectedTime < observed \<or> observed = selectedTime
          then (event, outcome, observed) else st)))"

definition newestEnqueueEvidence :: "event list \<Rightarrow> string \<Rightarrow> event \<times> enqueueOutcome" where
  "newestEnqueueEvidence events schedulerName =
     (let (selected, selectedOutcome, selectedTime) =
            fold (evidence_step schedulerName) events (empty_event, enqueueUnknown, 0)
      in (selected, selectedOutcome))"

definition eventReason :: "event \<Rightarrow> string" where
  "eventReason event = trim_space (ev_reason event @ '' '' @ ev_message event)"

definition eventErrors :: "go_error option \<Rightarrow> go_error option \<Rightarrow> string" where
  "eventErrors podErr groupErr =
     ''event evidence is incomplete ('' @
     join ((case podErr of None \<Rightarrow> [] | Some e \<Rightarrow> [''Pod events: '' @ err_text e]) @
           (case groupErr of None \<Rightarrow> [] | Some e \<Rightarrow> [''PodGroup events: '' @ err_text e])) ''; '' @
     '')''"

section \<open>The checks\<close>

definition evaluateQueue :: "enqueue_input \<Rightarrow> check" where
  "evaluateQueue input =
     (case ei_queue_name_err input of
        Some e \<Rightarrow>
          Unknown ''job.queue.exists'' ''enqueue'' ''Effective Queue exists'' (err_text e) EvNil
            queueSources
      | None \<Rightarrow>
          (case ei_queue_err input of
             Some e \<Rightarrow>
               if is_not_found e then
                 Known ''job.queue.exists'' ''enqueue'' ''Queue exists'' False (err_text e)
                   enqueueSources
               else
                 Unknown ''job.queue.exists'' ''enqueue'' ''Queue exists'' (err_text e) EvNil
                   enqueueSources
           | None \<Rightarrow>
               (Known ''job.queue.exists'' ''enqueue'' ''Queue exists''
                  (qu_name (ei_queue input) = ei_queue_name input)
                  (''queue='' @ qu_name (ei_queue input) @ '' state='' @ qu_state (ei_queue input))
                  queueSources)\<lparr>chk_evidence := EvQueue (ei_queue input)\<rparr>))"

definition text_hooks_open :: string where
  "text_hooks_open = ''active actions, plugin tiers, vote short-circuiting, arguments, and Session state are not reproducible from the available evidence''"

definition text_nil_resources :: string where
  "text_nil_resources = ''PodGroup minResources is nil: the standard enqueue action would bypass JobEnqueueable, but the active action configuration is not available''"

definition text_entered_queue :: string where
  "text_entered_queue = ''PodGroup entered the queue, but allocate can do that when the enqueue action is disabled, so JobEnqueueable execution is not proven''"

definition evaluatePluginHooks :: "enqueue_input \<Rightarrow> enqueueOutcome \<Rightarrow> check" where
  "evaluatePluginHooks input outcome =
     (let reason =
        (if ei_pod_group_err input = None \<and> pg_min_resources (ei_pod_group input) = None
         then text_nil_resources
         else if ei_pod_group_err input = None
            \<and> (outcome = enqueueSucceeded \<or> podGroupInQueue (ei_pod_group input))
         then text_entered_queue
         else text_hooks_open)
      in Unknown ''plugins.job-enqueueable'' ''enqueue'' ''Active JobEnqueueable plugin hooks''
           reason EvNil enqueueSources)"

definition text_no_enqueue_action :: string where
  "text_no_enqueue_action = ''the observed scheduler actions do not contain enqueue; PodGroup phase and old Events are not a currently reachable enqueue gate''"

definition text_no_enqueue_unproved :: string where
  "text_no_enqueue_unproved = ''the observed scheduler actions do not contain enqueue, but that ConfigMap version is not proven active in the scheduler's in-memory Session; PodGroup phase and Events cannot prove the current enqueue gate''"

definition text_historical :: string where
  "text_historical = ''; this Event is historical evidence and is not tied to the current scheduler Session, PodGroup transition, or queue resource snapshot''"

definition Evaluate :: "enqueue_input \<Rightarrow> check list" where
  "Evaluate input =
     (let events = ei_pod_events input @ ei_group_events input;
          checks = [evaluateQueue input];
          standaloneEnqueue = containsAction (ei_actions input) ''enqueue''
      in if ei_actions_determinate input \<and> \<not> standaloneEnqueue \<and> ei_active_determinate input then
           checks @
             [Skipped ''job.enqueue.evidence'' ''enqueue'' ''Enqueue evidence''
                text_no_enqueue_action enqueueSources,
              Skipped ''plugins.job-enqueueable'' ''enqueue'' ''Active JobEnqueueable plugin hooks''
                text_no_enqueue_action enqueueSources]
         else if ei_actions_determinate input \<and> \<not> standaloneEnqueue then
           (let evidence = EvMap [(''observedActions'', EvStrs (ei_actions input)),
                  (''activeDeterminate'', EvBool (ei_active_determinate input))]
            in checks @
             [Unknown ''job.enqueue.evidence'' ''enqueue'' ''Enqueue evidence''
                text_no_enqueue_unproved evidence enqueueSources,
              Unknown ''plugins.job-enqueueable'' ''enqueue'' ''Active JobEnqueueable plugin hooks''
                text_no_enqueue_unproved evidence enqueueSources])
         else if ei_actions_determinate input \<and> standaloneEnqueue
             \<and> ei_pod_group_err input = None \<and> \<not> podGroupInQueue (ei_pod_group input) then
           checks @
             [Known ''job.enqueue.evidence'' ''enqueue'' ''Enqueue evidence'' False
                (''PodGroup phase='' @ pg_phase (ei_pod_group input) @
                 ''; Volcano allocate only schedules jobs after they enter Inqueue/Running'')
                enqueueSources,
              evaluatePluginHooks input enqueueRejected]
         else if podGroupInQueue (ei_pod_group input) \<and> ei_pod_group_err input = None then
           checks @
             [Known ''job.enqueue.evidence'' ''enqueue'' ''Enqueue evidence'' True
                (''PodGroup phase='' @ pg_phase (ei_pod_group input)) enqueueSources,
              evaluatePluginHooks input enqueueSucceeded]
         else
           (let (event, outcome) = newestEnqueueEvidence events (ei_scheduler_name input) in
            if outcome = enqueueRejected \<or> outcome = enqueueSucceeded then
              checks @
                [Unknown ''job.enqueue.evidence'' ''enqueue'' ''Enqueue evidence''
                   (eventReason event @ text_historical) (EvEvent event) enqueueSources,
                 evaluatePluginHooks input outcome]
            else
              (let reason =
                 (if ei_pod_events_err input \<noteq> None \<or> ei_group_events_err input \<noteq> None
                  then eventErrors (ei_pod_events_err input) (ei_group_events_err input)
                  else ''no Pod or PodGroup event proves enqueue success or rejection'')
               in checks @
                 [Unknown ''job.enqueue.evidence'' ''enqueue'' ''Enqueue evidence'' reason EvNil
                    enqueueSources,
                  evaluatePluginHooks input outcome])))"

section \<open>Facts about the stage\<close>

text \<open>The three conditions that select the branch of \<open>Evaluate\<close>.\<close>

definition action_absent :: "enqueue_input \<Rightarrow> bool" where
  "action_absent input \<longleftrightarrow>
     ei_actions_determinate input \<and> \<not> containsAction (ei_actions input) ''enqueue''"

definition not_enqueued :: "enqueue_input \<Rightarrow> bool" where
  "not_enqueued input \<longleftrightarrow>
     ei_actions_determinate input \<and> containsAction (ei_actions input) ''enqueue''
     \<and> ei_pod_group_err input = None \<and> \<not> podGroupInQueue (ei_pod_group input)"

definition enqueued :: "enqueue_input \<Rightarrow> bool" where
  "enqueued input \<longleftrightarrow> ei_pod_group_err input = None \<and> podGroupInQueue (ei_pod_group input)"

lemma Evaluate_absent_active:
  "action_absent input \<Longrightarrow> ei_active_determinate input \<Longrightarrow> Evaluate input =
     [evaluateQueue input,
      Skipped ''job.enqueue.evidence'' ''enqueue'' ''Enqueue evidence''
        text_no_enqueue_action enqueueSources,
      Skipped ''plugins.job-enqueueable'' ''enqueue'' ''Active JobEnqueueable plugin hooks''
        text_no_enqueue_action enqueueSources]"
  by (simp add: Evaluate_def action_absent_def)

lemma Evaluate_absent:
  "action_absent input \<Longrightarrow> \<not> ei_active_determinate input \<Longrightarrow> Evaluate input =
     (let ev = EvMap [(''observedActions'', EvStrs (ei_actions input)),
            (''activeDeterminate'', EvBool False)]
      in [evaluateQueue input,
        Unknown ''job.enqueue.evidence'' ''enqueue'' ''Enqueue evidence''
          text_no_enqueue_unproved ev enqueueSources,
        Unknown ''plugins.job-enqueueable'' ''enqueue'' ''Active JobEnqueueable plugin hooks''
          text_no_enqueue_unproved ev enqueueSources])"
  by (simp add: Evaluate_def action_absent_def Let_def)

lemma Evaluate_not_enqueued:
  "not_enqueued input \<Longrightarrow> Evaluate input =
     [evaluateQueue input,
      Known ''job.enqueue.evidence'' ''enqueue'' ''Enqueue evidence'' False
        (''PodGroup phase='' @ pg_phase (ei_pod_group input) @
         ''; Volcano allocate only schedules jobs after they enter Inqueue/Running'') enqueueSources,
      evaluatePluginHooks input enqueueRejected]"
  by (simp add: Evaluate_def not_enqueued_def)

lemma Evaluate_enqueued:
  "\<not> action_absent input \<Longrightarrow> enqueued input \<Longrightarrow> Evaluate input =
     [evaluateQueue input,
      Known ''job.enqueue.evidence'' ''enqueue'' ''Enqueue evidence'' True
        (''PodGroup phase='' @ pg_phase (ei_pod_group input)) enqueueSources,
      evaluatePluginHooks input enqueueSucceeded]"
  by (auto simp add: Evaluate_def action_absent_def enqueued_def)

lemma Evaluate_from_events:
  assumes "\<not> action_absent input" and "\<not> not_enqueued input" and "\<not> enqueued input"
  shows "\<exists>reason ev outcome. Evaluate input =
     [evaluateQueue input,
      Unknown ''job.enqueue.evidence'' ''enqueue'' ''Enqueue evidence'' reason ev enqueueSources,
      evaluatePluginHooks input outcome]"
proof -
  obtain event outcome where "newestEnqueueEvidence (ei_pod_events input @ ei_group_events input)
      (ei_scheduler_name input) = (event, outcome)" by force
  moreover have "\<not> (ei_actions_determinate input \<and> \<not> containsAction (ei_actions input) ''enqueue'')"
    "\<not> (ei_actions_determinate input \<and> containsAction (ei_actions input) ''enqueue''
       \<and> ei_pod_group_err input = None \<and> \<not> podGroupInQueue (ei_pod_group input))"
    "\<not> (podGroupInQueue (ei_pod_group input) \<and> ei_pod_group_err input = None)"
    using assms unfolding action_absent_def not_enqueued_def enqueued_def by blast+
  moreover from this have "\<not> (ei_actions_determinate input
      \<and> \<not> containsAction (ei_actions input) ''enqueue'' \<and> ei_active_determinate input)" by blast
  ultimately have "Evaluate input =
     (if outcome = enqueueRejected \<or> outcome = enqueueSucceeded then
        [evaluateQueue input,
         Unknown ''job.enqueue.evidence'' ''enqueue'' ''Enqueue evidence''
           (eventReason event @ text_historical) (EvEvent event) enqueueSources,
         evaluatePluginHooks input outcome]
      else
        [evaluateQueue input,
         Unknown ''job.enqueue.evidence'' ''enqueue'' ''Enqueue evidence''
           (if ei_pod_events_err input \<noteq> None \<or> ei_group_events_err input \<noteq> None
            then eventErrors (ei_pod_events_err input) (ei_group_events_err input)
            else ''no Pod or PodGroup event proves enqueue success or rejection'') EvNil enqueueSources,
         evaluatePluginHooks input outcome])"
    unfolding Evaluate_def Let_def by (simp only: if_False split_conv append.simps)
  then show ?thesis
    by (cases "outcome = enqueueRejected \<or> outcome = enqueueSucceeded")
      (simp only: if_True if_False; intro exI; rule refl)+
qed

text \<open>
  The shape of every answer: the queue check, then a check about the enqueue evidence and one
  about the plugin hooks that is never a definite failure.
\<close>

lemma Evaluate_shape:
  obtains e h where "Evaluate input = [evaluateQueue input, e, h]"
    and "chk_id e = ''job.enqueue.evidence''" and "chk_id h = ''plugins.job-enqueueable''"
    and "chk_stage e = ''enqueue''" and "chk_stage h = ''enqueue''"
    and "check_wf e" and "check_wf h" and "\<not> known_failure h"
    and "known_failure e \<longleftrightarrow> not_enqueued input"
    and "chk_passed e \<longleftrightarrow> (action_absent input \<and> ei_active_determinate input)
      \<or> (\<not> action_absent input \<and> enqueued input)"
proof -
  have hook [simp]: "\<not> known_failure (evaluatePluginHooks input out)"
    "check_wf (evaluatePluginHooks input out)"
    "chk_stage (evaluatePluginHooks input out) = ''enqueue''"
    "chk_id (evaluatePluginHooks input out) = ''plugins.job-enqueueable''" for out
    by (simp_all add: evaluatePluginHooks_def Let_def)
  consider (active) "action_absent input" "ei_active_determinate input"
    | (absent) "action_absent input" "\<not> ei_active_determinate input"
    | (out) "not_enqueued input" | (inq) "\<not> action_absent input" "enqueued input"
    | (ev) "\<not> action_absent input" "\<not> not_enqueued input" "\<not> enqueued input" by blast
  then show thesis
  proof cases
    case active
    then have "\<not> not_enqueued input" by (simp add: not_enqueued_def action_absent_def)
    with active show thesis by (intro that [OF Evaluate_absent_active [OF active]]) simp_all
  next
    case absent
    then have "\<not> not_enqueued input" by (simp add: not_enqueued_def action_absent_def)
    with absent show thesis
      by (intro that [OF Evaluate_absent [OF absent, unfolded Let_def]]) simp_all
  next
    case out
    then have "\<not> action_absent input" "\<not> enqueued input"
      by (simp_all add: not_enqueued_def action_absent_def enqueued_def)
    with out show thesis by (intro that [OF Evaluate_not_enqueued [OF out]]) simp_all
  next
    case inq
    then have "\<not> not_enqueued input" by (simp add: not_enqueued_def enqueued_def)
    with inq show thesis by (intro that [OF Evaluate_enqueued [OF inq]]) simp_all
  next
    case ev
    obtain reason v o' where "Evaluate input =
       [evaluateQueue input,
        Unknown ''job.enqueue.evidence'' ''enqueue'' ''Enqueue evidence'' reason v enqueueSources,
        evaluatePluginHooks input o']"
      using Evaluate_from_events [OF ev] by blast
    then show thesis by (rule that) (simp_all add: ev)
  qed
qed

lemma evaluateQueue_simps [simp, check_simps]:
  "chk_id (evaluateQueue input) = ''job.queue.exists''"
  "chk_stage (evaluateQueue input) = ''enqueue''"
  "check_wf (evaluateQueue input)"
  by (simp_all add: evaluateQueue_def split: option.split)

lemma evaluateQueue_failure:
  "known_failure (evaluateQueue input) \<longleftrightarrow>
     ei_queue_name_err input = None \<and>
     (case ei_queue_err input of
        None \<Rightarrow> qu_name (ei_queue input) \<noteq> ei_queue_name input
      | Some e \<Rightarrow> is_not_found e)"
  by (simp add: evaluateQueue_def split: option.split)

lemma evaluateQueue_passed:
  "chk_passed (evaluateQueue input) \<longleftrightarrow>
     ei_queue_name_err input = None \<and> ei_queue_err input = None
     \<and> qu_name (ei_queue input) = ei_queue_name input"
  by (simp add: evaluateQueue_def split: option.split)

interpretation enqueue_stage: check_emitter Evaluate "{''enqueue''}"
proof
  fix c input
  assume "c \<in> set (Evaluate input)"
  moreover obtain e h where "Evaluate input = [evaluateQueue input, e, h]" "check_wf e" "check_wf h"
    "chk_stage e = ''enqueue''" "chk_stage h = ''enqueue''"
    by (rule Evaluate_shape)
  ultimately show "check_wf c" and "chk_stage c \<in> {''enqueue''}"
    by auto
qed

lemma Evaluate_failure_cases:
  "(\<exists>c \<in> set (Evaluate input). known_failure c)
    \<longleftrightarrow> known_failure (evaluateQueue input) \<or> not_enqueued input"
  by (rule Evaluate_shape [of input]) auto

lemma Evaluate_ids:
  "map chk_id (Evaluate input)
    = [''job.queue.exists'', ''job.enqueue.evidence'', ''plugins.job-enqueueable'']"
  by (rule Evaluate_shape [of input]) simp

section \<open>Facts about the events\<close>

definition enqueue_relevant :: "string \<Rightarrow> event \<Rightarrow> bool" where
  "enqueue_relevant n e \<longleftrightarrow> schedulerEvent e n \<and> classifyEnqueueEvent e \<noteq> enqueueUnknown"

lemma evidence_step_irrelevant [simp]: "\<not> enqueue_relevant n e \<Longrightarrow> evidence_step n e st = st"
  by (auto simp: enqueue_relevant_def evidence_step_def Let_def split: prod.split)

lemma evidence_step_relevant:
  "enqueue_relevant n e \<Longrightarrow> evidence_step n e (s, out, t)
    = (if out = enqueueUnknown \<or> t \<le> eventObservedTime e
       then (e, classifyEnqueueEvent e, eventObservedTime e) else (s, out, t))"
  by (auto simp: enqueue_relevant_def evidence_step_def Let_def)

text \<open>What the loop has selected after a prefix of the events.\<close>

definition selection :: "string \<Rightarrow> event list \<Rightarrow> event \<times> enqueueOutcome \<times> gotime \<Rightarrow> bool" where
  "selection n es st \<longleftrightarrow> (case st of (s, out, t) \<Rightarrow>
     if \<forall>e \<in> set es. \<not> enqueue_relevant n e then out = enqueueUnknown \<and> s = empty_event
     else out = classifyEnqueueEvent s \<and> t = eventObservedTime s \<and> enqueue_relevant n s \<and>
       (\<exists>xs ys. es = xs @ s # ys
         \<and> (\<forall>x \<in> set xs. enqueue_relevant n x \<longrightarrow> eventObservedTime x \<le> t)
         \<and> (\<forall>y \<in> set ys. enqueue_relevant n y \<longrightarrow> eventObservedTime y < t)))"

lemma selection_splitI:
  assumes "enqueue_relevant n s" and "es = xs @ s # ys"
    and "\<forall>x \<in> set xs. enqueue_relevant n x \<longrightarrow> eventObservedTime x \<le> eventObservedTime s"
    and "\<forall>y \<in> set ys. enqueue_relevant n y \<longrightarrow> eventObservedTime y < eventObservedTime s"
  shows "selection n es (s, classifyEnqueueEvent s, eventObservedTime s)"
  using assms unfolding selection_def by auto

lemma selection_cases:
  assumes "selection n es (s, out, t)"
  obtains "\<forall>e \<in> set es. \<not> enqueue_relevant n e" and "out = enqueueUnknown" and "s = empty_event"
  | xs ys where "out = classifyEnqueueEvent s" and "t = eventObservedTime s"
    and "enqueue_relevant n s" and "es = xs @ s # ys"
    and "\<forall>x \<in> set xs. enqueue_relevant n x \<longrightarrow> eventObservedTime x \<le> eventObservedTime s"
    and "\<forall>y \<in> set ys. enqueue_relevant n y \<longrightarrow> eventObservedTime y < eventObservedTime s"
proof (cases "\<forall>e \<in> set es. \<not> enqueue_relevant n e")
  case True
  with assms that(1) show thesis unfolding selection_def by simp
next
  case False
  from assms have "out = classifyEnqueueEvent s \<and> t = eventObservedTime s \<and> enqueue_relevant n s \<and>
       (\<exists>xs ys. es = xs @ s # ys
         \<and> (\<forall>x \<in> set xs. enqueue_relevant n x \<longrightarrow> eventObservedTime x \<le> t)
         \<and> (\<forall>y \<in> set ys. enqueue_relevant n y \<longrightarrow> eventObservedTime y < t))"
    unfolding selection_def split_conv if_not_P [OF False] .
  then show thesis using that(2) by blast
qed

lemma selection_step:
  assumes "selection n es st"
  shows "selection n (es @ [e]) (evidence_step n e st)"
proof -
  obtain s out t where st: "st = (s, out, t)" by (metis prod_cases3)
  from assms [unfolded st] show ?thesis
  proof (cases rule: selection_cases)
    case 1
    show ?thesis
    proof (cases "enqueue_relevant n e")
      case True
      have "selection n (es @ [e]) (e, classifyEnqueueEvent e, eventObservedTime e)"
        using True 1 by (intro selection_splitI [of _ _ _ es "[]"]) auto
      with True 1 show ?thesis by (simp add: st evidence_step_relevant)
    next
      case False
      with assms 1 show ?thesis by (simp add: selection_def st)
    qed
  next
    case (2 xs ys)
    then have known: "out \<noteq> enqueueUnknown" by (simp add: enqueue_relevant_def)
    show ?thesis
    proof (cases "enqueue_relevant n e \<and> t \<le> eventObservedTime e")
      case True
      have "selection n (es @ [e]) (e, classifyEnqueueEvent e, eventObservedTime e)"
        using True 2 by (intro selection_splitI [of _ _ _ es "[]"]) (auto intro: order_trans less_imp_le)
      with True show ?thesis by (simp add: st evidence_step_relevant)
    next
      case False
      have "selection n (es @ [e]) (s, classifyEnqueueEvent s, eventObservedTime s)"
        using False 2 by (intro selection_splitI [of _ _ _ xs "ys @ [e]"]) auto
      with False 2 known show ?thesis
        by (cases "enqueue_relevant n e") (simp_all add: st evidence_step_relevant)
    qed
  qed
qed

lemma selection_fold: "selection n es (fold (evidence_step n) es (empty_event, enqueueUnknown, 0))"
proof (induction es rule: rev_induct)
  case Nil
  show ?case by (simp add: selection_def)
next
  case (snoc e es)
  then show ?case by (simp add: selection_step)
qed

lemma newestEnqueueEvidence_fold:
  obtains s out t where "newestEnqueueEvidence es n = (s, out)" and "selection n es (s, out, t)"
  using selection_fold [of n es] unfolding newestEnqueueEvidence_def
  by (cases "fold (evidence_step n) es (empty_event, enqueueUnknown, 0)") auto

lemma newestEnqueueEvidence_none:
  "\<forall>e \<in> set es. \<not> enqueue_relevant n e \<Longrightarrow> newestEnqueueEvidence es n = (empty_event, enqueueUnknown)"
  by (rule newestEnqueueEvidence_fold [of es n]) (auto simp: selection_def)

lemma newestEnqueueEvidence_some:
  assumes "e \<in> set es" and "enqueue_relevant n e"
  obtains s xs ys where "newestEnqueueEvidence es n = (s, classifyEnqueueEvent s)"
    and "enqueue_relevant n s" and "es = xs @ s # ys"
    and "\<forall>x \<in> set xs. enqueue_relevant n x \<longrightarrow> eventObservedTime x \<le> eventObservedTime s"
    and "\<forall>y \<in> set ys. enqueue_relevant n y \<longrightarrow> eventObservedTime y < eventObservedTime s"
proof -
  obtain s out t where r: "newestEnqueueEvidence es n = (s, out)" and sel: "selection n es (s, out, t)"
    by (rule newestEnqueueEvidence_fold)
  from sel show thesis
  proof (cases rule: selection_cases)
    case 1
    with assms show thesis by blast
  next
    case (2 xs ys)
    with r show thesis by (intro that) simp_all
  qed
qed

section \<open>Properties\<close>

text \<open>The enqueue stage always answers with the same three checks in the same order, all of
  stage \<open>enqueue\<close>, and one of them is a definite failure exactly when the queue is known to be
  missing or the wrong one, or when the determinate action list has the enqueue action and the
  PodGroup is known not to be in its queue.\<close>

theorem enqueue_stage_failure:
  "map chk_id (Evaluate input)
     = [''job.queue.exists'', ''job.enqueue.evidence'', ''plugins.job-enqueueable'']
   \<and> list_ex known_failure (Evaluate input)
     = ((ei_queue_name_err input = None \<and>
          (case ei_queue_err input of
             None \<Rightarrow> qu_name (ei_queue input) \<noteq> ei_queue_name input
           | Some e \<Rightarrow> is_not_found e)) \<or>
        (ei_actions_determinate input \<and> containsAction (ei_actions input) ''enqueue''
          \<and> ei_pod_group_err input = None \<and> \<not> podGroupInQueue (ei_pod_group input)))"
  using Evaluate_failure_cases [of input]
  by (simp add: Evaluate_ids list_ex_iff evaluateQueue_failure not_enqueued_def)

text \<open>Of the events, the stage uses the latest one that the scheduler reported and that says
  something about enqueueing, the later in the list when two have the same time.\<close>

theorem newest_evidence_is_latest:
  assumes "e \<in> set es" and "schedulerEvent e n" and "classifyEnqueueEvent e \<noteq> enqueueUnknown"
  shows "\<exists>s xs ys. newestEnqueueEvidence es n = (s, classifyEnqueueEvent s) \<and> es = xs @ s # ys
    \<and> schedulerEvent s n \<and> classifyEnqueueEvent s \<noteq> enqueueUnknown
    \<and> (\<forall>x \<in> set xs. enqueue_relevant n x \<longrightarrow> eventObservedTime x \<le> eventObservedTime s)
    \<and> (\<forall>y \<in> set ys. enqueue_relevant n y \<longrightarrow> eventObservedTime y < eventObservedTime s)"
proof -
  from assms(2,3) have "enqueue_relevant n e" by (simp add: enqueue_relevant_def)
  with assms(1) show ?thesis
    by (rule newestEnqueueEvidence_some) (unfold enqueue_relevant_def, blast)
qed

definition event_at :: "string \<Rightarrow> string \<Rightarrow> gotime \<Rightarrow> event" where
  "event_at reason kind t = empty_event\<lparr>ev_reason := reason, ev_kind := kind,
     ev_component := ''vc-scheduler'', ev_last_time := t\<rparr>"

theorem newest_evidence_is_latest_witness:
  "\<exists>s xs ys. newestEnqueueEvidence
      [event_at ''Enqueued'' ''Pod'' 5, event_at ''EnqueueFailed'' ''Pod'' 3] ''volcano''
      = (s, classifyEnqueueEvent s)
    \<and> [event_at ''Enqueued'' ''Pod'' 5, event_at ''EnqueueFailed'' ''Pod'' 3] = xs @ s # ys
    \<and> schedulerEvent s ''volcano'' \<and> classifyEnqueueEvent s \<noteq> enqueueUnknown
    \<and> (\<forall>x \<in> set xs. enqueue_relevant ''volcano'' x \<longrightarrow> eventObservedTime x \<le> eventObservedTime s)
    \<and> (\<forall>y \<in> set ys. enqueue_relevant ''volcano'' y \<longrightarrow> eventObservedTime y < eventObservedTime s)"
proof (rule newest_evidence_is_latest)
  show "event_at ''Enqueued'' ''Pod'' 5
    \<in> set [event_at ''Enqueued'' ''Pod'' 5, event_at ''EnqueueFailed'' ''Pod'' 3]" by simp
  show "schedulerEvent (event_at ''Enqueued'' ''Pod'' 5) ''volcano''" by code_simp
  show "classifyEnqueueEvent (event_at ''Enqueued'' ''Pod'' 5) \<noteq> enqueueUnknown" by code_simp
qed

text \<open>A queue name is resolved exactly when the PodGroup names one, or else the scheduler's
  options were read and determine a default that is not empty.\<close>

theorem queue_name_resolved:
  "ResolveQueueName podGroup scheduler schedulerErr = (q, None)
    \<longleftrightarrow> q \<noteq> '''' \<and>
      (if pg_queue podGroup \<noteq> '''' then q = pg_queue podGroup
       else schedulerErr = None \<and> sch_determinate scheduler \<and> q = sch_default_queue scheduler)"
  by (auto simp: ResolveQueueName_def split: option.split)

end
