(* ===== verification/Validate.thy ===== *)
theory Validate
  imports Model
begin

text \<open>
  Package \<open>internal/agent/validate\<close>: the preflight checks of the Pod and the checks of its PodGroup,
  with the gang counts in \<open>int32\<close> arithmetic. The facts: which inputs make each check a definite
  failure, that the counting loop counts (\<open>count_tasks_valid\<close>, \<open>count_tasks_names\<close>), and that no check
  of the jobValid stage is ever determinate.
\<close>

definition jobValidSources :: "string list" where
  "jobValidSources =
     [''pkg/scheduler/actions/allocate/allocate.go:JobValid'',
      ''pkg/scheduler/framework/session_plugins.go:JobValid'',
      ''pkg/scheduler/framework/session.go:OpenSession'']"

definition schedulerConfigurationSources :: "string list" where
  "schedulerConfigurationSources =
     [''cmd/scheduler/app/options/options.go'',
      ''pkg/scheduler/cache/event_handlers.go:getOrCreateJob'',
      ''pkg/scheduler/api/job_info.go:getJobID'']"

definition gangSources :: "string list" where
  "gangSources = [''pkg/scheduler/plugins/gang/gang.go:validJobFn'']"

definition podGroupName :: "pod \<Rightarrow> string" where
  "podGroupName pod = gm_or '''' (pod_annotations pod) ''scheduling.k8s.io/group-name''"

section \<open>The Pod\<close>

definition evaluateSchedulerName :: "string \<Rightarrow> scheduler \<Rightarrow> go_error option \<Rightarrow> check" where
  "evaluateSchedulerName podSchedulerName scheduler schedulerErr =
     (case schedulerErr of
        Some e \<Rightarrow>
          if err_is ErrVolcanoSchedulerNotReady e then
            Known ''task.scheduler'' ''preflight'' ''Ready Volcano scheduler instance exists'' False
              (err_text e) schedulerConfigurationSources
          else
            Unknown ''task.scheduler'' ''preflight''
              ''Scheduler name is handled by this Volcano instance'' (err_text e) EvNil
              schedulerConfigurationSources
      | None \<Rightarrow>
          if \<not> sch_determinate scheduler then
            Unknown ''task.scheduler'' ''preflight''
              ''Scheduler name is handled by this Volcano instance'' (sch_reason scheduler)
              (EvStrs (sch_names scheduler)) schedulerConfigurationSources
          else
            (Known ''task.scheduler'' ''preflight''
               ''Scheduler name is handled by this Volcano instance''
               (list_ex (\<lambda>name. podSchedulerName = name) (sch_names scheduler))
               (''pod schedulerName='' @ fmt_q podSchedulerName @ '' configured names='' @
                fmt_strs (sch_names scheduler))
               schedulerConfigurationSources)\<lparr>chk_evidence := EvStrs (sch_names scheduler)\<rparr>)"

text \<open>\<open>%v\<close> of a slice of scheduling gates, each a struct with one string field.\<close>

definition fmt_gates :: "string list \<Rightarrow> string" where
  "fmt_gates gates = fmt_strs (map (\<lambda>g. ''{'' @ g @ ''}'') gates)"

definition text_no_association :: string where
  "text_no_association = ''scheduling.k8s.io/group-name is missing; volcano.sh/job-name is a VolcanoJob label, not the scheduler PodGroup association''"

definition text_bound_pod :: string where
  "text_bound_pod = ''; assigned Pending Pods require kubelet, runtime, image, or volume debugging instead of scheduler analysis''"

definition EvaluatePod :: "pod \<Rightarrow> scheduler \<Rightarrow> go_error option \<Rightarrow> check list" where
  "EvaluatePod pod scheduler schedulerErr =
     (let podGroup = podGroupName pod;
          podGroupReason =
            (if podGroup = '''' \<and> gm_or '''' (pod_labels pod) ''volcano.sh/job-name'' \<noteq> ''''
             then text_no_association
             else ''scheduling.k8s.io/group-name='' @ podGroup)
      in [Known ''task.pending'' ''preflight'' ''Pod is Pending'' (pod_phase pod = ''Pending'')
            (pod_phase pod) [],
          evaluateSchedulerName (pod_scheduler_name pod) scheduler schedulerErr,
          Known ''task.unbound'' ''preflight'' ''Pod has not been assigned to a node''
            (pod_node_name pod = '''') (''spec.nodeName='' @ pod_node_name pod @ text_bound_pod) [],
          Known ''task.active'' ''preflight'' ''Pod is not terminating'' (pod_deletion pod = None)
            ''deletionTimestamp must be empty'' [],
          Known ''task.scheduling-gates'' ''preflight'' ''Pod has no scheduling gates''
            (pod_gates pod = []) (''schedulingGates='' @ fmt_gates (pod_gates pod)) [],
          Known ''task.containers'' ''preflight'' ''Has containers'' (pod_containers pod \<noteq> [])
            ''Pod must contain at least one container'' [],
          Known ''job.podgroup'' ''preflight'' ''PodGroup association'' (podGroup \<noteq> '''')
            podGroupReason schedulerConfigurationSources])"

section \<open>The PodGroup\<close>

definition unknownPluginCheck :: check where
  "unknownPluginCheck =
     Unknown ''plugins.job-valid'' ''jobValid'' ''Remaining active JobValid plugin hooks''
       ''branch-specific hooks depend on the scheduler Session and plugin-private state; the common gang rules were evaluated separately''
       EvNil jobValidSources"

text \<open>The \<open>switch\<close> of the counting loop: which tasks are counted.\<close>

definition task_counts :: "pod \<Rightarrow> bool" where
  "task_counts task =
     (if pod_phase task = ''Pending'' \<or> pod_phase task = ''Running'' then pod_deletion task = None
      else pod_phase task = ''Succeeded'')"

definition task_spec :: "pod \<Rightarrow> string" where
  "task_spec task = gm_or '''' (pod_annotations task) ''volcano.sh/task-spec''"

definition count_task :: "pod \<Rightarrow> i32 \<times> i32 gomap \<Rightarrow> i32 \<times> i32 gomap" where
  "count_task task st =
     (let (validTasks, taskCounts) = st in
      if \<not> task_counts task then st
      else (validTasks + 1,
            gm_set (task_spec task) (gm_or 0 taskCounts (task_spec task) + 1) taskCounts))"

definition count_tasks :: "pod list \<Rightarrow> i32 \<times> i32 gomap" where
  "count_tasks tasks = fold count_task tasks (0, [])"

definition minimum_task_check :: "i32 gomap \<Rightarrow> i32 gomap \<Rightarrow> string \<Rightarrow> check" where
  "minimum_task_check taskCounts minTaskMember taskName =
     (let minimum = gm_or 0 minTaskMember taskName;
          wouldPass = sint minimum \<le> sint (gm_or 0 taskCounts taskName)
      in Unknown (''plugins.gang.min-task-member.'' @ taskName) ''jobValid''
           (''Active gang minTaskMember '' @ taskName)
           (''calculated valid tasks='' @ fmt_d (sint (gm_or 0 taskCounts taskName)) @
            '' minimum='' @ fmt_d (sint minimum) @ '' wouldPass='' @ fmt_t wouldPass @
            ''; active gang plugin configuration is unavailable'')
           (EvMap [(''validTasks'', EvInt32 (gm_or 0 taskCounts taskName)),
              (''minimum'', EvInt32 minimum), (''wouldPass'', EvBool wouldPass)])
           gangSources)"

definition evaluateGangTasks :: "pod_group \<Rightarrow> pod list \<Rightarrow> go_error option \<Rightarrow> check list" where
  "evaluateGangTasks podGroup tasks tasksErr =
     (case tasksErr of
        Some e \<Rightarrow>
          [Unknown ''plugins.gang.tasks'' ''jobValid'' ''Gang minimum task counts'' (err_text e) EvNil
             gangSources]
      | None \<Rightarrow>
          (let (validTasks, taskCounts) = count_tasks tasks;
               minimumPassed = (sint (pg_min_member podGroup) \<le> sint validTasks);
               minimumCheck =
                 (Unknown ''plugins.gang.min-member'' ''jobValid'' ''Active gang minMember rule''
                    (''calculated valid tasks='' @ fmt_d (sint validTasks) @ '' minMember='' @
                     fmt_d (sint (pg_min_member podGroup)) @ '' wouldPass='' @ fmt_t minimumPassed @
                     ''; active gang plugin configuration is unavailable'')
                    EvNil gangSources)
                 \<lparr>chk_evidence := EvMap [(''validTasks'', EvInt32 validTasks),
                    (''minMember'', EvInt32 (pg_min_member podGroup)),
                    (''wouldPass'', EvBool minimumPassed), (''taskCounts'', EvCounts taskCounts)]\<rparr>;
               minimumTaskTotal =
                 fold (\<lambda>(taskName, minimum) total. total + minimum) (pg_min_task_member podGroup) 0
           in if sint (pg_min_member podGroup) < sint minimumTaskTotal then [minimumCheck]
              else minimumCheck #
                map (minimum_task_check taskCounts (pg_min_task_member podGroup))
                  (sort_strings (gm_keys (pg_min_task_member podGroup)))))"

definition EvaluatePodGroup ::
  "string \<Rightarrow> pod_group \<Rightarrow> go_error option \<Rightarrow> pod list \<Rightarrow> go_error option \<Rightarrow> check list" where
  "EvaluatePodGroup groupName podGroup podGroupErr tasks tasksErr =
     (case podGroupErr of
        Some e \<Rightarrow>
          (if is_not_found e then
             [Known ''job.podgroup.exists'' ''preflight'' ''PodGroup exists'' False (err_text e)
                jobValidSources]
           else
             [Unknown ''job.podgroup.exists'' ''preflight'' ''PodGroup exists'' (err_text e) EvNil
                jobValidSources]) @ [unknownPluginCheck]
      | None \<Rightarrow>
          (let exists = (pg_name podGroup = groupName \<and> pg_namespace podGroup \<noteq> '''');
               podGroupCheck =
                 (Known ''job.podgroup.exists'' ''preflight'' ''PodGroup exists'' exists
                    (''PodGroup='' @ pg_namespace podGroup @ ''/'' @ pg_name podGroup @ '' phase='' @
                     pg_phase podGroup) jobValidSources)
                 \<lparr>chk_evidence := EvPodGroup podGroup\<rparr>
           in if \<not> exists then [podGroupCheck, unknownPluginCheck]
              else [podGroupCheck] @ evaluateGangTasks podGroup tasks tasksErr @
                [unknownPluginCheck]))"

section \<open>Facts about the Pod checks\<close>

lemma evaluateSchedulerName_simps [simp, check_simps]:
  "chk_id (evaluateSchedulerName n s e) = ''task.scheduler''"
  "chk_stage (evaluateSchedulerName n s e) = ''preflight''"
  "check_wf (evaluateSchedulerName n s e)"
  by (simp_all add: evaluateSchedulerName_def split: option.split)

lemma evaluateSchedulerName_failure:
  "known_failure (evaluateSchedulerName n s e) \<longleftrightarrow>
     (case e of Some x \<Rightarrow> err_is ErrVolcanoSchedulerNotReady x
      | None \<Rightarrow> sch_determinate s \<and> n \<notin> set (sch_names s))"
  by (auto simp: evaluateSchedulerName_def list_ex_iff split: option.split)

text \<open>What the scheduler needs from the Pod itself, apart from the scheduler name.\<close>

definition pod_schedulable :: "pod \<Rightarrow> bool" where
  "pod_schedulable pod \<longleftrightarrow>
     pod_phase pod = ''Pending'' \<and> pod_node_name pod = '''' \<and> pod_deletion pod = None
     \<and> pod_gates pod = [] \<and> pod_containers pod \<noteq> [] \<and> podGroupName pod \<noteq> ''''"

lemma EvaluatePod_ids:
  "map chk_id (EvaluatePod pod s e) =
     [''task.pending'', ''task.scheduler'', ''task.unbound'', ''task.active'',
      ''task.scheduling-gates'', ''task.containers'', ''job.podgroup'']"
  by (simp add: EvaluatePod_def Let_def)

lemma EvaluatePod_failure:
  "list_ex known_failure (EvaluatePod pod s e) \<longleftrightarrow>
     \<not> pod_schedulable pod \<or> known_failure (evaluateSchedulerName (pod_scheduler_name pod) s e)"
  by (simp add: EvaluatePod_def Let_def pod_schedulable_def) blast

interpretation pod_stage: check_emitter "\<lambda>(pod, s, e). EvaluatePod pod s e" "{''preflight''}"
  by unfold_locales (auto simp: EvaluatePod_def Let_def)

section \<open>Facts about the gang counts\<close>

lemma count_tasks_append:
  "fold count_task tasks (v, m) = (v', m') \<Longrightarrow> gm_ok m \<Longrightarrow>
     v' = v + of_nat (length (filter task_counts tasks)) \<and> gm_ok m' \<and>
     gm_or 0 m' k = gm_or 0 m k + of_nat (length (filter (\<lambda>t. task_counts t \<and> task_spec t = k) tasks))"
proof (induction tasks arbitrary: v m)
  case (Cons t tasks)
  show ?case
  proof (cases "task_counts t")
    case False
    with Cons show ?thesis by (simp add: count_task_def)
  next
    case True
    let ?m = "gm_set (task_spec t) (gm_or 0 m (task_spec t) + 1) m"
    have "count_task t (v, m) = (v + 1, ?m)" using True by (simp add: count_task_def)
    with Cons.prems have "fold count_task tasks (v + 1, ?m) = (v', m')" "gm_ok ?m" by simp_all
    from Cons.IH [OF this] True show ?thesis by auto
  qed
qed simp

lemma count_tasks_valid: "fst (count_tasks tasks) = of_nat (length (filter task_counts tasks))"
  using count_tasks_append [of tasks 0 "[]"]
  by (cases "fold count_task tasks (0, [])") (simp add: count_tasks_def)

lemma count_tasks_names:
  "gm_or 0 (snd (count_tasks tasks)) k
    = of_nat (length (filter (\<lambda>t. task_counts t \<and> task_spec t = k) tasks))"
  using count_tasks_append [of tasks 0 "[]" _ _ k]
  by (cases "fold count_task tasks (0, [])") (simp add: count_tasks_def)

lemma sint_of_nat_small: "n < 2 ^ 31 \<Longrightarrow> sint (of_nat n :: i32) = int n"
  by transfer (simp add: signed_take_bit_int_eq_self)

text \<open>The sum of the per-task minimums does not depend on the iteration order of the map.\<close>

lemma fold_total: "fold (\<lambda>(k, v) total. total + v) m (a :: i32) = a + sum_list (map snd m)"
  by (induction m arbitrary: a) (auto simp: algebra_simps)

lemma sum_list_perm: "mset m = mset n \<Longrightarrow> sum_list (map snd m) = (sum_list (map snd n) :: i32)"
  by (metis mset_map sum_mset_sum_list)

lemma gang_checks_open: "c \<in> set (evaluateGangTasks pg tasks e) \<Longrightarrow> \<not> chk_determinate c \<and> check_wf c
    \<and> chk_stage c = ''jobValid''"
  by (cases e; cases "count_tasks tasks")
    (auto simp: evaluateGangTasks_def Let_def minimum_task_check_def check_wf_def split: if_splits)

lemma unknownPluginCheck_simps [simp, check_simps]:
  "\<not> known_failure unknownPluginCheck" "check_wf unknownPluginCheck"
  "chk_stage unknownPluginCheck = ''jobValid''" "\<not> chk_determinate unknownPluginCheck"
  by (simp_all add: unknownPluginCheck_def)

section \<open>Facts about the PodGroup checks\<close>

lemma EvaluatePodGroup_failure:
  "list_ex known_failure (EvaluatePodGroup n pg e tasks te) \<longleftrightarrow>
     (case e of Some x \<Rightarrow> is_not_found x
      | None \<Rightarrow> \<not> (pg_name pg = n \<and> pg_namespace pg \<noteq> ''''))"
proof -
  have "\<not> list_ex known_failure (evaluateGangTasks pg tasks te)"
    using gang_checks_open by (fastforce simp: list_ex_iff known_failure_def)
  then show ?thesis
    by (simp add: EvaluatePodGroup_def Let_def split: option.split)
qed

lemma EvaluatePodGroup_wf:
  "c \<in> set (EvaluatePodGroup n pg e tasks te) \<Longrightarrow> check_wf c"
  by (cases e) (auto simp: EvaluatePodGroup_def Let_def dest: gang_checks_open split: if_splits)

lemma EvaluatePodGroup_stage:
  "c \<in> set (EvaluatePodGroup n pg e tasks te) \<Longrightarrow> chk_stage c \<in> {''preflight'', ''jobValid''}"
  by (cases e) (auto simp: EvaluatePodGroup_def Let_def dest: gang_checks_open split: if_splits)

lemma EvaluatePodGroup_job_valid_open:
  "c \<in> set (EvaluatePodGroup n pg e tasks te) \<Longrightarrow> chk_stage c = ''jobValid'' \<Longrightarrow> \<not> chk_determinate c"
  by (cases e) (auto simp: EvaluatePodGroup_def Let_def dest: gang_checks_open split: if_splits)

interpretation pod_group_stage:
  check_emitter "\<lambda>(n, pg, e, tasks, te). EvaluatePodGroup n pg e tasks te" "{''preflight'', ''jobValid''}"
  by unfold_locales (auto dest: EvaluatePodGroup_wf EvaluatePodGroup_stage)

section \<open>Properties\<close>

text \<open>C33: The preflight of the Pod emits its seven checks in one order, and one of them is a definite
  failure exactly when the Pod is not pending, bound, terminating, gated, without containers or
  without a PodGroup, or when no ready scheduler exists or the options read from it do not name
  the Pod's scheduler.\<close>

theorem pod_preflight_failure:
  "map chk_id (EvaluatePod pod s e) =
     [''task.pending'', ''task.scheduler'', ''task.unbound'', ''task.active'',
      ''task.scheduling-gates'', ''task.containers'', ''job.podgroup'']
   \<and> list_ex known_failure (EvaluatePod pod s e)
     = (\<not> (pod_phase pod = ''Pending'' \<and> pod_node_name pod = '''' \<and> pod_deletion pod = None
          \<and> pod_gates pod = [] \<and> pod_containers pod \<noteq> [] \<and> podGroupName pod \<noteq> '''')
        \<or> (case e of Some x \<Rightarrow> err_is ErrVolcanoSchedulerNotReady x
           | None \<Rightarrow> sch_determinate s \<and> pod_scheduler_name pod \<notin> set (sch_names s)))"
  by (simp add: EvaluatePod_ids EvaluatePod_failure pod_schedulable_def evaluateSchedulerName_failure)

theorem pod_preflight_failure_witness:
  "list_ex known_failure (EvaluatePod empty_pod empty_scheduler None)"
  using pod_preflight_failure [of empty_pod empty_scheduler None] by (simp add: empty_pod_def)

text \<open>C34: The gang evaluation counts the tasks that are pending or running and not terminating, or
  succeeded, in total and per task name, and the counts are the true ones while there are fewer
  than 2 to the 31 tasks.\<close>

theorem gang_counts_exact:
  assumes "length tasks < 2 ^ 31"
  shows "sint (fst (count_tasks tasks)) = int (length (filter task_counts tasks))
    \<and> sint (gm_or 0 (snd (count_tasks tasks)) k)
      = int (length (filter (\<lambda>t. task_counts t \<and> task_spec t = k) tasks))"
proof -
  have "length (filter P tasks) < 2 ^ 31" for P :: "pod \<Rightarrow> bool"
    using assms length_filter_le [of P tasks] by linarith
  then show ?thesis by (simp only: count_tasks_valid count_tasks_names sint_of_nat_small)
qed

theorem gang_counts_exact_witness:
  "sint (fst (count_tasks [empty_pod\<lparr>pod_phase := ''Running''\<rparr>, empty_pod\<lparr>pod_phase := ''Failed''\<rparr>])) = 1
   \<and> sint (gm_or 0 (snd (count_tasks [empty_pod\<lparr>pod_phase := ''Running''\<rparr>,
        empty_pod\<lparr>pod_phase := ''Failed''\<rparr>])) '''') = 1"
  using gang_counts_exact [of "[empty_pod\<lparr>pod_phase := ''Running''\<rparr>, empty_pod\<lparr>pod_phase := ''Failed''\<rparr>]" "''''"]
  by (simp add: task_counts_def task_spec_def empty_pod_def)

text \<open>The checks about the PodGroup hold a definite failure exactly when it is known to be missing
  or to have another name or no namespace; the gang rules never decide, and without an error the
  per-task rules are listed, in name order, exactly when the \<open>int32\<close> sum of the minimums does not
  exceed \<open>minMember\<close>.\<close>

theorem pod_group_checks:
  "list_ex known_failure (EvaluatePodGroup n pg e tasks te)
     = (case e of Some x \<Rightarrow> is_not_found x
        | None \<Rightarrow> \<not> (pg_name pg = n \<and> pg_namespace pg \<noteq> ''''))
   \<and> list_ex chk_determinate (evaluateGangTasks pg tasks te) = False
   \<and> map chk_id (evaluateGangTasks pg tasks None) = ''plugins.gang.min-member'' #
       (if sint (sum_list (map snd (pg_min_task_member pg))) \<le> sint (pg_min_member pg)
        then map (\<lambda>k. ''plugins.gang.min-task-member.'' @ k)
          (sort_strings (gm_keys (pg_min_task_member pg)))
        else [])"
proof (intro conjI EvaluatePodGroup_failure)
  show "list_ex chk_determinate (evaluateGangTasks pg tasks te) = False"
    using gang_checks_open by (auto simp: list_ex_iff)
  show "map chk_id (evaluateGangTasks pg tasks None) = ''plugins.gang.min-member'' #
       (if sint (sum_list (map snd (pg_min_task_member pg))) \<le> sint (pg_min_member pg)
        then map (\<lambda>k. ''plugins.gang.min-task-member.'' @ k)
          (sort_strings (gm_keys (pg_min_task_member pg)))
        else [])"
    by (cases "count_tasks tasks")
      (simp add: evaluateGangTasks_def Let_def fold_total minimum_task_check_def)
qed

text \<open>The sum of the per-task minimums wraps: two minimums of 2 to the 31 minus 1 sum to -2, so
  they do not exceed any \<open>minMember\<close> and the per-task rules are listed.\<close>

theorem minimum_total_wraps:
  "map chk_id (evaluateGangTasks
     (empty_pod_group\<lparr>pg_min_task_member := [(''a'', 2147483647), (''b'', 2147483647)]\<rparr>) tasks None)
   = [''plugins.gang.min-member'', ''plugins.gang.min-task-member.a'',
      ''plugins.gang.min-task-member.b'']"
  by (cases "count_tasks tasks")
    (simp add: evaluateGangTasks_def Let_def empty_pod_group_def minimum_task_check_def
      gm_keys_def sort_strings_def)

end
