(* ===== verification/Filter_Affinity.thy ===== *)
theory Filter_Affinity
  imports Model
begin

text \<open>
  File \<open>internal/agent/filter/affinity.go\<close>: required node affinity. The facts compare the loops with
  early returns to the Kubernetes reading, an OR of terms that are ANDs of requirements, and
  give the complement pairs of the operators.
\<close>

definition stringIn :: "string \<Rightarrow> string list \<Rightarrow> bool" where
  "stringIn value candidates = list_ex (\<lambda>candidate. value = candidate) candidates"

definition nodeSelectorRequirementMatches :: "selector_requirement \<Rightarrow> string \<Rightarrow> bool \<Rightarrow> bool" where
  "nodeSelectorRequirementMatches requirement value found =
     (if sr_operator requirement = ''In'' then found \<and> stringIn value (sr_values requirement)
      else if sr_operator requirement = ''NotIn'' then
        \<not> found \<or> \<not> stringIn value (sr_values requirement)
      else if sr_operator requirement = ''Exists'' then found
      else if sr_operator requirement = ''DoesNotExist'' then \<not> found
      else if sr_operator requirement = ''Gt'' \<or> sr_operator requirement = ''Lt'' then
        (if \<not> found \<or> length (sr_values requirement) \<noteq> 1 then False
         else case (ParseInt 64 value, ParseInt 64 (hd (sr_values requirement))) of
           (Some actual, Some expected) \<Rightarrow>
             if sr_operator requirement = ''Gt'' then expected < actual else actual < expected
         | _ \<Rightarrow> False)
      else False)"

definition nodeField :: "node \<Rightarrow> string \<Rightarrow> string \<times> bool" where
  "nodeField node key = (if key = ''metadata.name'' then (nd_name node, True) else ('''', False))"

definition nodeSelectorTermMatches :: "node_selector_term \<Rightarrow> node \<Rightarrow> bool" where
  "nodeSelectorTermMatches term node =
     (if st_expressions term = [] \<and> st_fields term = [] then False
      else list_all (\<lambda>requirement.
          nodeSelectorRequirementMatches requirement
            (gm_or '''' (nd_labels node) (sr_key requirement))
            (gm_has (nd_labels node) (sr_key requirement)))
          (st_expressions term) \<and>
        list_all (\<lambda>requirement.
          (let (value, found) = nodeField node (sr_key requirement)
           in nodeSelectorRequirementMatches requirement value found))
          (st_fields term))"

definition requiredNodeAffinityMatches :: "pod \<Rightarrow> node \<Rightarrow> bool" where
  "requiredNodeAffinityMatches pod node =
     (case pod_affinity pod of
        None \<Rightarrow> True
      | Some affinity \<Rightarrow>
          (case af_node_required affinity of
             None \<Rightarrow> True
           | Some None \<Rightarrow> True
           | Some (Some terms) \<Rightarrow> list_ex (\<lambda>term. nodeSelectorTermMatches term node) terms))"

section \<open>Facts\<close>

lemma stringIn_iff [simp]: "stringIn v cs \<longleftrightarrow> v \<in> set cs"
  by (auto simp: stringIn_def list_ex_iff)

text \<open>The value of a label that is not there is not looked at.\<close>

lemma requirement_absent:
  "nodeSelectorRequirementMatches r v False = (sr_operator r = ''NotIn'' \<or> sr_operator r = ''DoesNotExist'')"
  by (simp add: nodeSelectorRequirementMatches_def)

lemma requirement_complement:
  "nodeSelectorRequirementMatches (r\<lparr>sr_operator := ''NotIn''\<rparr>) v f
    = (\<not> nodeSelectorRequirementMatches (r\<lparr>sr_operator := ''In''\<rparr>) v f)"
  "nodeSelectorRequirementMatches (r\<lparr>sr_operator := ''DoesNotExist''\<rparr>) v f
    = (\<not> nodeSelectorRequirementMatches (r\<lparr>sr_operator := ''Exists''\<rparr>) v f)"
  by (simp_all add: nodeSelectorRequirementMatches_def)

lemma requirement_order:
  "\<not> (nodeSelectorRequirementMatches (r\<lparr>sr_operator := ''Gt''\<rparr>) v f
    \<and> nodeSelectorRequirementMatches (r\<lparr>sr_operator := ''Lt''\<rparr>) v f)"
  by (auto simp: nodeSelectorRequirementMatches_def split: option.splits)

text \<open>The loops with early returns, as the Kubernetes reading: an OR of non-empty terms, each an AND.\<close>

lemma required_affinity_spec:
  "requiredNodeAffinityMatches pod node \<longleftrightarrow>
     (case Option.bind (pod_affinity pod) (\<lambda>a. Option.bind (af_node_required a) (\<lambda>r. r)) of
        None \<Rightarrow> True
      | Some terms \<Rightarrow> \<exists>t \<in> set terms. (st_expressions t \<noteq> [] \<or> st_fields t \<noteq> []) \<and>
          (\<forall>r \<in> set (st_expressions t). nodeSelectorRequirementMatches r
             (gm_or '''' (nd_labels node) (sr_key r)) (sr_key r \<in> set (gm_keys (nd_labels node)))) \<and>
          (\<forall>r \<in> set (st_fields t). nodeSelectorRequirementMatches r
             (if sr_key r = ''metadata.name'' then nd_name node else '''') (sr_key r = ''metadata.name'')))"
  by (auto simp: requiredNodeAffinityMatches_def nodeSelectorTermMatches_def nodeField_def list_ex_iff
      list_all_iff gm_has_keys split: option.splits)

section \<open>Property\<close>

text \<open>A label requirement is decided as Kubernetes decides it: \<open>NotIn\<close> and \<open>DoesNotExist\<close> are the
  complements of \<open>In\<close> and \<open>Exists\<close>, also on a label that is not there, and on decimal values of 64
  bits \<open>Gt\<close> and \<open>Lt\<close> compare as integers, not as strings.\<close>

theorem affinity_requirement_semantics:
  assumes "in_bits 64 m" and "in_bits 64 n"
  shows "nodeSelectorRequirementMatches \<lparr>sr_key = k, sr_operator = ''Gt'', sr_values = [fmt_d n]\<rparr> (fmt_d m) True
      = (n < m)
    \<and> nodeSelectorRequirementMatches \<lparr>sr_key = k, sr_operator = ''Lt'', sr_values = [fmt_d n]\<rparr> (fmt_d m) True
      = (m < n)
    \<and> nodeSelectorRequirementMatches \<lparr>sr_key = k, sr_operator = ''NotIn'', sr_values = vs\<rparr> v f
      = (\<not> nodeSelectorRequirementMatches \<lparr>sr_key = k, sr_operator = ''In'', sr_values = vs\<rparr> v f)
    \<and> nodeSelectorRequirementMatches \<lparr>sr_key = k, sr_operator = ''DoesNotExist'', sr_values = vs\<rparr> v f
      = (\<not> nodeSelectorRequirementMatches \<lparr>sr_key = k, sr_operator = ''Exists'', sr_values = vs\<rparr> v f)"
  using assms by (simp add: nodeSelectorRequirementMatches_def ParseInt_fmt_d)

theorem affinity_requirement_semantics_witness:
  "nodeSelectorRequirementMatches \<lparr>sr_key = ''gpus'', sr_operator = ''Gt'', sr_values = [fmt_d 9]\<rparr> (fmt_d 10) True"
  using affinity_requirement_semantics [of 10 9 "''gpus''" "[]" "[]" True] by (simp add: in_bits_def)

end
