(* ===== verification/Filter_Node.thy ===== *)
theory Filter_Node
  imports Filter_Resources Filter_Affinity
begin

text \<open>
  File \<open>internal/agent/filter/node.go\<close>: the checks of one node and its verdict. Each check has a lemma
  that says when it is open and when it fails; the verdict lemmas at the end are stated over the
  inputs alone.
\<close>

definition predicates_source :: "string \<Rightarrow> string list" where
  "predicates_source name = [''pkg/scheduler/plugins/predicates/predicates.go:'' @ name]"

definition volcanoBestEffort :: "f64 gomap \<Rightarrow> bool" where
  "volcanoBestEffort requests =
     list_all (\<lambda>(name, request). \<not> (name \<noteq> ''pods'' \<and> f_lt f_zero request)) requests"

definition kubernetesPodsAllocatableOmitted :: "resource_list \<Rightarrow> bool" where
  "kubernetesPodsAllocatableOmitted allocatable =
     (case gm_get allocatable ''pods'' of None \<Rightarrow> True | Some quantity \<Rightarrow> q_is_zero quantity)"

section \<open>Resource pairs\<close>

definition empty_pair :: resource_pair where
  "empty_pair = \<lparr>rp_free = None, rp_total = None, rp_used = None, rp_releasing = None,
     rp_insufficient = False\<rparr>"

definition total_step :: "string \<times> f64 \<Rightarrow> resource_pair gomap \<Rightarrow> resource_pair gomap" where
  "total_step e result =
     (case e of (name, value) \<Rightarrow>
        gm_set name ((gm_or empty_pair result name)\<lparr>rp_total := Some value\<rparr>) result)"

definition free_step :: "string \<times> f64 \<Rightarrow> resource_pair gomap \<Rightarrow> resource_pair gomap" where
  "free_step e result =
     (case e of (name, free) \<Rightarrow>
        gm_set name ((gm_or empty_pair result name)\<lparr>rp_free := Some free\<rparr>) result)"

definition used_step :: "string \<times> f64 \<Rightarrow> resource_pair gomap \<Rightarrow> resource_pair gomap" where
  "used_step e result =
     (case e of (name, used) \<Rightarrow>
        gm_set name ((gm_or empty_pair result name)\<lparr>rp_used := Some used\<rparr>) result)"

definition releasing_step :: "string \<times> f64 \<Rightarrow> resource_pair gomap \<Rightarrow> resource_pair gomap" where
  "releasing_step e result =
     (case e of (name, releasing) \<Rightarrow>
        gm_set name ((gm_or empty_pair result name)\<lparr>rp_releasing := Some releasing\<rparr>) result)"

definition nodeResourcePairs :: "node \<Rightarrow> cache_node \<Rightarrow> bool \<Rightarrow> resource_pair gomap" where
  "nodeResourcePairs node cacheNode cacheFound =
     (let result = fold total_step (resourceListValues (nd_allocatable node)) [] in
      if \<not> cacheFound then result
      else fold releasing_step (cn_releasing cacheNode)
        (fold used_step (cn_used cacheNode)
          (fold free_step (cn_idle cacheNode)
            (fold total_step (cn_allocatable cacheNode) result))))"

definition request_pair_step :: "string \<times> f64 \<Rightarrow> resource_pair gomap \<Rightarrow> resource_pair gomap" where
  "request_pair_step e resources =
     (case e of (name, _) \<Rightarrow>
        if gm_has resources name then resources else gm_set name empty_pair resources)"

definition mark_insufficient :: "string list \<Rightarrow> resource_pair gomap \<Rightarrow> resource_pair gomap" where
  "mark_insufficient names resources =
     fold (\<lambda>name r. gm_set name ((gm_or empty_pair r name)\<lparr>rp_insufficient := True\<rparr>) r) names resources"

section \<open>Checks that need no arithmetic\<close>

definition podUsesHostPorts :: "pod \<Rightarrow> bool" where
  "podUsesHostPorts pod =
     list_ex (\<lambda>container. list_ex (\<lambda>port. cp_host_port port \<noteq> 0) (ct_ports container))
       (pod_init_containers pod @ pod_containers pod)"

definition hasRequiredPodAffinity :: "pod \<Rightarrow> bool" where
  "hasRequiredPodAffinity pod =
     (case pod_affinity pod of
        None \<Rightarrow> False
      | Some affinity \<Rightarrow>
          (case af_pod affinity of None \<Rightarrow> False | Some terms \<Rightarrow> 0 < length (pt_required terms)) \<or>
          (case af_pod_anti affinity of None \<Rightarrow> False | Some terms \<Rightarrow> 0 < length (pt_required terms)))"

definition podUsesVolumesWithNodeLimits :: "pod \<Rightarrow> bool" where
  "podUsesVolumesWithNodeLimits pod =
     list_ex (\<lambda>volume. vo_pvc volume \<noteq> None \<or> vo_csi volume \<or> vo_ephemeral volume) (pod_volumes pod)"

definition podUsesPersistentVolumes :: "pod \<Rightarrow> bool" where
  "podUsesPersistentVolumes pod =
     list_ex (\<lambda>volume. vo_pvc volume \<noteq> None \<or> vo_ephemeral volume) (pod_volumes pod)"

definition hostPortsCheck :: "pod \<Rightarrow> check" where
  "hostPortsCheck pod =
     (if \<not> podUsesHostPorts pod then
        Known ''node.ports'' ''allocate'' ''Host ports'' True ''the Pod requests no host ports''
          (predicates_source ''NodePorts'')
      else
        Unknown ''node.ports'' ''allocate'' ''Host ports''
          ''the Pod requests host ports; occupied ports from the exact predicates NodeInfo snapshot are not present in the cache dump''
          EvNil (predicates_source ''NodePorts''))"

definition podAffinityCheck :: "pod \<Rightarrow> check" where
  "podAffinityCheck pod =
     (if \<not> hasRequiredPodAffinity pod then
        Known ''node.pod-affinity'' ''allocate'' ''Inter-pod affinity'' True
          ''the Pod has no required pod affinity or anti-affinity terms''
          (predicates_source ''InterPodAffinity'')
      else
        Unknown ''node.pod-affinity'' ''allocate'' ''Inter-pod affinity''
          ''required pod affinity is present; exact evaluation needs the predicates PodLister and namespace snapshot from the scheduler Session''
          EvNil (predicates_source ''InterPodAffinity''))"

definition volumeLimitsCheck :: "pod \<Rightarrow> check" where
  "volumeLimitsCheck pod =
     (if \<not> podUsesVolumesWithNodeLimits pod then
        Known ''node.volume-limits'' ''allocate'' ''CSI volume limits'' True
          ''the Pod has no PVC, CSI, or ephemeral volume requiring node attachment limits''
          (predicates_source ''NodeVolumeLimits'')
      else
        Unknown ''node.volume-limits'' ''allocate'' ''CSI volume limits''
          ''volume attachment limits require the scheduler's CSINode and attached-volume snapshot''
          EvNil (predicates_source ''NodeVolumeLimits''))"

definition volumeZoneCheck :: "pod \<Rightarrow> check" where
  "volumeZoneCheck pod =
     (if \<not> podUsesPersistentVolumes pod then
        Known ''node.volume-zone'' ''allocate'' ''PV and volume-zone affinity'' True
          ''the Pod has no PVC-backed volumes'' (predicates_source ''VolumeZone'')
      else
        Unknown ''node.volume-zone'' ''allocate'' ''PV and volume-zone affinity''
          ''PVC/PV topology must be read from the matching scheduler snapshot; it is not emitted by the generic node cache dump''
          EvNil (predicates_source ''VolumeZone''))"

definition topologySpreadCheck :: "pod \<Rightarrow> check" where
  "topologySpreadCheck pod =
     (case find (\<lambda>constraint. tc_when_unsatisfiable constraint = ''DoNotSchedule'') (pod_constraints pod) of
        Some constraint \<Rightarrow>
          Unknown ''node.topology-spread'' ''allocate'' ''Pod topology spread''
            ''a hard topology spread constraint is present; exact domain counts require the predicates PodLister snapshot''
            (EvConstraint constraint) (predicates_source ''PodTopologySpread'')
      | None \<Rightarrow>
          Known ''node.topology-spread'' ''allocate'' ''Pod topology spread'' True
            ''the Pod has no DoNotSchedule topology spread constraint''
            (predicates_source ''PodTopologySpread''))"

definition text_pods_omitted :: string where
  "text_pods_omitted = ''node status.allocatable omits pods or sets it to zero; the target task has an implicit pods=1 request, so the node cannot satisfy Volcano's pod-count/resource dimension''"

definition podCountCheck :: "cache_node \<Rightarrow> bool \<Rightarrow> resource_list \<Rightarrow> check" where
  "podCountCheck cacheNode cacheFound kubernetesAllocatable =
     (case (if cacheFound then gm_get (cn_idle cacheNode) ''pods'' else None) of
        Some free \<Rightarrow>
          Known ''node.pod-count'' ''allocate'' ''Pod count limit'' (f_le f_one free)
            (''cache dump reports idle pods='' @ fmt_f 0 free @
             ''; the target task contributes one implicit pods request'')
            (predicates_source ''NodePodNumberExceeded'')
      | None \<Rightarrow>
          if kubernetesPodsAllocatableOmitted kubernetesAllocatable then
            (Known ''node.pod-count'' ''allocate'' ''Pod count limit'' False text_pods_omitted
               (predicates_source ''NodePodNumberExceeded''))
            \<lparr>chk_evidence := EvMap
               [(''k8sAllocatable'', EvResources (resourceListValues kubernetesAllocatable)),
                (''cacheNode'', EvCacheNode cacheNode)]\<rparr>
          else
            Unknown ''node.pod-count'' ''allocate'' ''Pod count limit''
              ''the cache dump does not contain the pods scalar'' (EvCacheNode cacheNode)
              (predicates_source ''NodePodNumberExceeded''))"

lemma hostPortsCheck_simps [simp, check_simps]:
  "chk_passed (hostPortsCheck pod) = (\<not> podUsesHostPorts pod)"
  "chk_determinate (hostPortsCheck pod) = (\<not> podUsesHostPorts pod)"
  "chk_stage (hostPortsCheck pod) = ''allocate''" "chk_id (hostPortsCheck pod) = ''node.ports''"
  "check_wf (hostPortsCheck pod)"
  by (simp_all add: hostPortsCheck_def)

lemma podAffinityCheck_simps [simp, check_simps]:
  "chk_passed (podAffinityCheck pod) = (\<not> hasRequiredPodAffinity pod)"
  "chk_determinate (podAffinityCheck pod) = (\<not> hasRequiredPodAffinity pod)"
  "chk_stage (podAffinityCheck pod) = ''allocate''"
  "chk_id (podAffinityCheck pod) = ''node.pod-affinity''" "check_wf (podAffinityCheck pod)"
  by (simp_all add: podAffinityCheck_def)

lemma volumeLimitsCheck_simps [simp, check_simps]:
  "chk_passed (volumeLimitsCheck pod) = (\<not> podUsesVolumesWithNodeLimits pod)"
  "chk_determinate (volumeLimitsCheck pod) = (\<not> podUsesVolumesWithNodeLimits pod)"
  "chk_stage (volumeLimitsCheck pod) = ''allocate''"
  "chk_id (volumeLimitsCheck pod) = ''node.volume-limits''" "check_wf (volumeLimitsCheck pod)"
  by (simp_all add: volumeLimitsCheck_def)

lemma volumeZoneCheck_simps [simp, check_simps]:
  "chk_passed (volumeZoneCheck pod) = (\<not> podUsesPersistentVolumes pod)"
  "chk_determinate (volumeZoneCheck pod) = (\<not> podUsesPersistentVolumes pod)"
  "chk_stage (volumeZoneCheck pod) = ''allocate''"
  "chk_id (volumeZoneCheck pod) = ''node.volume-zone''" "check_wf (volumeZoneCheck pod)"
  by (simp_all add: volumeZoneCheck_def)

definition hard_spread :: "pod \<Rightarrow> bool" where
  "hard_spread pod = list_ex (\<lambda>c. tc_when_unsatisfiable c = ''DoNotSchedule'') (pod_constraints pod)"

lemma find_None_list_ex: "find P xs = None \<longleftrightarrow> \<not> list_ex P xs"
  by (induction xs) auto

lemma topologySpreadCheck_simps [simp, check_simps]:
  "chk_passed (topologySpreadCheck pod) = (\<not> hard_spread pod)"
  "chk_determinate (topologySpreadCheck pod) = (\<not> hard_spread pod)"
  "chk_stage (topologySpreadCheck pod) = ''allocate''"
  "chk_id (topologySpreadCheck pod) = ''node.topology-spread''" "check_wf (topologySpreadCheck pod)"
  by (simp_all add: topologySpreadCheck_def hard_spread_def find_None_list_ex [symmetric] split: option.split)

text \<open>What the pod-count check decides on: the pods scalar of the dump, if there.\<close>

definition idle_pods :: "cache_node \<Rightarrow> bool \<Rightarrow> f64 option" where
  "idle_pods cacheNode cacheFound = (if cacheFound then gm_get (cn_idle cacheNode) ''pods'' else None)"

lemma podCountCheck_simps [simp, check_simps]:
  "chk_passed (podCountCheck n f a) = (case idle_pods n f of Some x \<Rightarrow> f_le f_one x | None \<Rightarrow> False)"
  "chk_determinate (podCountCheck n f a) = (idle_pods n f \<noteq> None \<or> kubernetesPodsAllocatableOmitted a)"
  "chk_stage (podCountCheck n f a) = ''allocate''"
  "chk_id (podCountCheck n f a) = ''node.pod-count''" "check_wf (podCountCheck n f a)"
  by (simp_all add: podCountCheck_def idle_pods_def split: option.split)

section \<open>Fit of the requested resources\<close>

definition futureIdleSources :: "string list" where
  "futureIdleSources =
     [''pkg/scheduler/api/node_info.go:FutureIdle'', ''SIGUSR2 Node (...).idle/releasing'']"

text \<open>
  The loop over the requested resources, on the missing dimensions, the texts and the names of the
  insufficient ones. \<open>fit_outcome\<close> is the branch one entry takes.
\<close>

datatype fit = FitSkip | FitMissing string | FitInsufficient string

definition fit_outcome ::
  "cache_node \<Rightarrow> resource_list \<Rightarrow> f64 gomap \<Rightarrow> string \<Rightarrow> f64 \<Rightarrow> fit" where
  "fit_outcome node kubernetesAllocatable upperBound name request =
     (let idleFound = gm_has (cn_idle node) name;
          totalFound = gm_has (cn_allocatable node) name
      in if f_le request f_zero then FitSkip
         else if name = ''pods'' \<and> kubernetesPodsAllocatableOmitted kubernetesAllocatable
            \<and> (\<not> idleFound \<or> f_eq (gm_or f_zero (cn_idle node) name) f_zero)
            \<and> (\<not> totalFound \<or> f_eq (gm_or f_zero (cn_allocatable node) name) f_zero) then
           FitInsufficient (name @ '' request '' @ fmt_f 3 request @ '' > futureIdle '' @
             fmt_f 3 f_zero @ '' because node status.allocatable omits pods'')
         else if \<not> idleFound \<or> \<not> totalFound then
           (if (case gm_get kubernetesAllocatable name of
                  Some quantity \<Rightarrow> \<not> q_is_zero quantity | None \<Rightarrow> False)
            then FitMissing (name @ '' (present only in Kubernetes allocatable)'')
            else FitInsufficient (name @ '' request '' @ fmt_f 3 request @ '' > futureIdle '' @
              fmt_f 3 f_zero @
              '' because the resource is absent from both Volcano cache and Kubernetes allocatable''))
         else if f_lt (gm_or f_zero upperBound name) request then
           FitInsufficient (name @ '' request '' @ fmt_f 3 request @ '' > idle+releasing '' @
             fmt_f 3 (gm_or f_zero upperBound name))
         else FitSkip)"

definition fit_step ::
  "cache_node \<Rightarrow> resource_list \<Rightarrow> f64 gomap \<Rightarrow> string \<times> f64
    \<Rightarrow> string list \<times> string list \<times> string list \<Rightarrow> string list \<times> string list \<times> string list" where
  "fit_step node kubernetesAllocatable upperBound e st =
     (let (name, request) = e; (missing, insufficient, insufficientResources) = st in
      case fit_outcome node kubernetesAllocatable upperBound name request of
        FitSkip \<Rightarrow> st
      | FitMissing t \<Rightarrow> (missing @ [t], insufficient, insufficientResources)
      | FitInsufficient t \<Rightarrow> (missing, insufficient @ [t], insufficientResources @ [name]))"

definition text_upper_bound :: string where
  "text_upper_bound = ''; even the idle+releasing upper bound is insufficient''"

definition text_dump_omits_pipelined :: string where
  "text_dump_omits_pipelined = ''idle+releasing can fit, but the dump omits Pipelined from FutureIdle=Idle+Releasing-Pipelined, so a pass cannot be proven''"

definition resourceFitCheck ::
  "f64 gomap \<Rightarrow> cache_node \<Rightarrow> resource_list \<Rightarrow> check \<times> string list" where
  "resourceFitCheck requests node kubernetesAllocatable =
     (let upperBound = addResources (cn_idle node) (cn_releasing node);
          (missing0, insufficient0, insufficientResources) =
            fold (fit_step node kubernetesAllocatable upperBound) requests ([], [], []);
          missing = sort_strings missing0;
          insufficient = sort_strings insufficient0
      in if insufficient \<noteq> [] then
           ((Known ''node.resources'' ''allocate''
               ''Requested resources fit Volcano FutureIdle upper bound'' False
               (join insufficient ''; '' @ text_upper_bound) futureIdleSources)
            \<lparr>chk_evidence := EvMap [(''request'', EvResources requests),
               (''idle'', EvResources (cn_idle node)),
               (''releasing'', EvResources (cn_releasing node)),
               (''upperBound'', EvResources upperBound),
               (''insufficientResources'', EvStrs insufficientResources)]\<rparr>,
            insufficientResources)
         else if missing \<noteq> [] then
           (Unknown ''node.resources'' ''allocate'' ''Requested resources fit Volcano FutureIdle''
              (''cache dump omits requested resource dimensions: '' @ join missing '', '' @
               ''; plugin-private device state may own those resources'')
              (EvMap [(''request'', EvResources requests), (''idle'', EvResources (cn_idle node)),
                 (''releasing'', EvResources (cn_releasing node)),
                 (''upperBound'', EvResources upperBound),
                 (''k8sAllocatable'', EvResources (resourceListValues kubernetesAllocatable))])
              futureIdleSources, [])
         else
           (Unknown ''node.resources'' ''allocate'' ''Requested resources fit Volcano FutureIdle''
              text_dump_omits_pipelined
              (EvMap [(''request'', EvResources requests), (''idle'', EvResources (cn_idle node)),
                 (''releasing'', EvResources (cn_releasing node)),
                 (''upperBound'', EvResources upperBound)])
              futureIdleSources, []))"

text \<open>The loop collects per outcome, so which lists are empty does not depend on the order.\<close>

definition is_insufficient :: "fit \<Rightarrow> bool" where
  "is_insufficient r = (case r of FitInsufficient _ \<Rightarrow> True | _ \<Rightarrow> False)"

lemma fit_step_eq:
  "fit_step node ka ub (n, v) (m, i, r) =
     (case fit_outcome node ka ub n v of FitSkip \<Rightarrow> (m, i, r) | FitMissing t \<Rightarrow> (m @ [t], i, r)
      | FitInsufficient t \<Rightarrow> (m, i @ [t], r @ [n]))"
  by (simp add: fit_step_def)

lemma fit_fold:
  "fold (fit_step node ka ub) reqs (m, i, r) =
     (m @ List.map_filter (\<lambda>(n, v). case fit_outcome node ka ub n v of FitMissing t \<Rightarrow> Some t | _ \<Rightarrow> None) reqs,
      i @ List.map_filter (\<lambda>(n, v). case fit_outcome node ka ub n v of FitInsufficient t \<Rightarrow> Some t | _ \<Rightarrow> None) reqs,
      r @ map fst (filter (\<lambda>(n, v). is_insufficient (fit_outcome node ka ub n v)) reqs))"
proof (induction reqs arbitrary: m i r)
  case (Cons e reqs)
  obtain n v where e: "e = (n, v)" by force
  show ?case
    by (cases "fit_outcome node ka ub n v")
      (simp_all add: e fit_step_eq is_insufficient_def Cons.IH List.map_filter_simps)
qed (simp add: List.map_filter_simps)

text \<open>Some requested resource is short, even counting what is being released.\<close>

definition resource_short :: "f64 gomap \<Rightarrow> cache_node \<Rightarrow> resource_list \<Rightarrow> bool" where
  "resource_short requests node ka \<longleftrightarrow>
     list_ex (\<lambda>(n, v). is_insufficient
       (fit_outcome node ka (addResources (cn_idle node) (cn_releasing node)) n v)) requests"

lemma insufficient_texts_empty:
  "List.map_filter (\<lambda>(n, v). case f n v of FitInsufficient t \<Rightarrow> Some t | _ \<Rightarrow> None) xs \<noteq> []
    \<longleftrightarrow> list_ex (\<lambda>(n, v). is_insufficient (f n v)) xs"
proof (induction xs)
  case (Cons e xs)
  then show ?case
    by (cases e; cases "f (fst e) (snd e)") (simp_all add: List.map_filter_simps is_insufficient_def)
qed (simp add: List.map_filter_simps)

lemma resourceFitCheck_simps:
  "known_failure (fst (resourceFitCheck requests node ka)) = resource_short requests node ka"
  "\<not> chk_passed (fst (resourceFitCheck requests node ka))"
  "chk_determinate (fst (resourceFitCheck requests node ka)) = resource_short requests node ka"
  "chk_evidence (fst (resourceFitCheck requests node ka)) \<noteq> EvNil"
  "check_wf (fst (resourceFitCheck requests node ka))"
  "chk_stage (fst (resourceFitCheck requests node ka)) = ''allocate''"
  "chk_id (fst (resourceFitCheck requests node ka)) = ''node.resources''"
proof -
  define ub where "ub = addResources (cn_idle node) (cn_releasing node)"
  have short: "List.map_filter (\<lambda>(n, v). case fit_outcome node ka ub n v of FitInsufficient t \<Rightarrow> Some t
      | _ \<Rightarrow> None) requests \<noteq> [] \<longleftrightarrow> resource_short requests node ka"
    unfolding insufficient_texts_empty by (simp add: resource_short_def ub_def)
  note shape = resourceFitCheck_def Let_def ub_def [symmetric] fit_fold
  show "known_failure (fst (resourceFitCheck requests node ka)) = resource_short requests node ka"
    "\<not> chk_passed (fst (resourceFitCheck requests node ka))"
    "chk_determinate (fst (resourceFitCheck requests node ka)) = resource_short requests node ka"
    "chk_evidence (fst (resourceFitCheck requests node ka)) \<noteq> EvNil"
    "check_wf (fst (resourceFitCheck requests node ka))"
    "chk_stage (fst (resourceFitCheck requests node ka)) = ''allocate''"
    "chk_id (fst (resourceFitCheck requests node ka)) = ''node.resources''"
    unfolding short [symmetric] by (simp_all add: shape)
qed

text \<open>Whether a resource is short is a fact about the set of entries.\<close>

lemma resource_short_order: "set r = set r' \<Longrightarrow> resource_short r node ka = resource_short r' node ka"
  by (simp add: resource_short_def list_ex_iff)

section \<open>The node\<close>

definition text_proportional :: string where
  "text_proportional = ''the standard predicates plugin default disables this optional rule; a selected branch that enables it is represented by the dynamic plugin hook column''"

definition text_best_effort :: string where
  "text_best_effort = ''Volcano allocate skips tasks whose Resreq is empty (the pods scalar is ignored); BestEffort tasks are handled by backfill without the allocate FutureIdle resource gate''"

definition text_restartable :: string where
  "text_restartable = ''the Pod has a restartable init container, and Volcano resource-request semantics vary by selected branch; this generic projection is not used as a definitive result''"

definition text_pv_bind :: string where
  "text_pv_bind = ''Volcano performs GetPodVolumes/AllocateVolumes only after choosing a node; this diagnostic table does not claim that post-filter bind step ran''"

definition selectorMatches :: "pod \<Rightarrow> node \<Rightarrow> bool" where
  "selectorMatches pod node =
     fold (\<lambda>(key, value) selectorOK. selectorOK \<and> gm_get (nd_labels node) key = Some value)
       (pod_node_selector pod) True"

text \<open>The checks before the resource check, in order.\<close>

definition predicateChecks ::
  "(toleration \<Rightarrow> taint \<Rightarrow> bool) \<Rightarrow> pod \<Rightarrow> node \<Rightarrow> cache_node \<Rightarrow> bool \<Rightarrow> check list" where
  "predicateChecks tolerates pod node cacheNode cacheFound =
     [Known ''node.selector'' ''allocate'' ''Node selector'' (selectorMatches pod node)
        (''wanted='' @ fmt_map (\<lambda>v. v) (pod_node_selector pod)) [],
      Known ''node.affinity'' ''allocate'' ''Required node affinity''
        (requiredNodeAffinityMatches pod node) ''requiredDuringSchedulingIgnoredDuringExecution''
        (predicates_source ''NodeAffinity''),
      Known ''node.schedulable'' ''allocate'' ''Node schedulable'' (\<not> nd_unschedulable node)
        ''spec.unschedulable'' [],
      Known ''node.ready'' ''allocate'' ''Node Ready'' (nodeReady node) ''Ready condition'' [],
      Known ''node.taints'' ''allocate'' ''Taints tolerated''
        (taintsTolerated tolerates (nd_taints node) (pod_tolerations pod))
        ''NoSchedule/NoExecute taints'' [],
      podCountCheck cacheNode cacheFound (nd_allocatable node),
      hostPortsCheck pod, podAffinityCheck pod, volumeLimitsCheck pod, volumeZoneCheck pod,
      topologySpreadCheck pod,
      Skipped ''node.proportional'' ''allocate'' ''Proportional resource predicate''
        text_proportional (predicates_source ''ProportionalPredicate'')]"

text \<open>The resource check, with the names to mark as insufficient.\<close>

definition nodeResourceCheck :: "pod \<Rightarrow> node \<Rightarrow> cache_node \<Rightarrow> bool \<Rightarrow> check \<times> string list" where
  "nodeResourceCheck pod node cacheNode cacheFound =
     (let requests = podRequests pod in
      if volcanoBestEffort requests then
        ((Skipped ''node.resources'' ''allocate'' ''Requested resources fit Volcano FutureIdle''
            text_best_effort
            [''pkg/scheduler/actions/allocate/allocate.go'',
             ''pkg/scheduler/actions/backfill/backfill.go'',
             ''pkg/scheduler/api/resource_info.go:IsEmpty''])
         \<lparr>chk_evidence := EvResources requests\<rparr>, [])
      else if cacheFound then
        (let (fitCheck, insufficientResources) = resourceFitCheck requests cacheNode (nd_allocatable node);
             resourceCheck =
               (if hasRestartableInitContainer pod then
                  Unknown ''node.resources'' ''allocate''
                    ''Requested resources fit Volcano FutureIdle'' text_restartable
                    (EvMap [(''requestProjection'', EvResources requests),
                       (''cacheNode'', EvCacheNode cacheNode)])
                    [''pkg/scheduler/api/pod_info.go:GetPodResourceRequest'']
                else fitCheck);
             marked = (if chk_determinate resourceCheck \<and> \<not> chk_passed resourceCheck
                       then insufficientResources else [])
         in (if chk_evidence resourceCheck = EvNil
             then resourceCheck\<lparr>chk_evidence := EvCacheNode cacheNode\<rparr> else resourceCheck, marked))
      else
        (let allocatable = resourceListValues (nd_allocatable node);
             (upperBoundOK, reason) = fits requests allocatable
         in (Unknown ''node.resources'' ''allocate'' ''Requested resources fit Volcano idle''
               (''cache entry missing; Kubernetes allocatable upper-bound fit='' @ fmt_t upperBoundOK @
                '': '' @ reason)
               (EvResources allocatable) [''SIGUSR2 Node (...).idle''], [])))"

definition verdict_step :: "check \<Rightarrow> bool \<times> bool \<times> bool \<Rightarrow> bool \<times> bool \<times> bool" where
  "verdict_step check st =
     (let (passed, knownFailure, unknown) = st in
      (passed \<and> chk_passed check \<and> chk_determinate check,
       knownFailure \<or> (chk_determinate check \<and> \<not> chk_passed check),
       unknown \<or> \<not> chk_determinate check))"

definition evaluateNode ::
  "(toleration \<Rightarrow> taint \<Rightarrow> bool) \<Rightarrow> pod \<Rightarrow> node \<Rightarrow> cache_node \<Rightarrow> bool \<Rightarrow> node_result" where
  "evaluateNode tolerates pod node cacheNode cacheFound =
     (let resources = fold request_pair_step (podRequests pod) (nodeResourcePairs node cacheNode cacheFound);
          (resourceCheck, insufficientResources) = nodeResourceCheck pod node cacheNode cacheFound;
          checks = predicateChecks tolerates pod node cacheNode cacheFound @
            [resourceCheck,
             Skipped ''node.pv-bind'' ''allocate'' ''PV binding after node selection'' text_pv_bind
               [''pkg/scheduler/framework/statement.go:Allocate'']];
          (passed, knownFailure, unknown) = fold verdict_step checks (True, False, False)
      in \<lparr>nr_name = nd_name node, nr_passed = passed, nr_determinate = knownFailure \<or> \<not> unknown,
          nr_resources = mark_insufficient insufficientResources resources, nr_checks = checks\<rparr>)"

section \<open>The verdict\<close>

lemma fold_verdict:
  "fold verdict_step checks (p, k, u) =
     (p \<and> list_all (\<lambda>c. chk_passed c \<and> chk_determinate c) checks,
      k \<or> list_ex (\<lambda>c. chk_determinate c \<and> \<not> chk_passed c) checks,
      u \<or> list_ex (\<lambda>c. \<not> chk_determinate c) checks)"
  by (induction checks arbitrary: p k u) (auto simp: verdict_step_def)

lemma selectorMatches_iff:
  "selectorMatches pod node = list_all (\<lambda>(k, v). gm_get (nd_labels node) k = Some v) (pod_node_selector pod)"
proof -
  have "fold (\<lambda>(k, v) ok. ok \<and> gm_get (nd_labels node) k = Some v) m b
      = (b \<and> list_all (\<lambda>(k, v). gm_get (nd_labels node) k = Some v) m)" for m b
    by (induction m arbitrary: b) auto
  then show ?thesis by (simp add: selectorMatches_def)
qed

text \<open>The predicates of the node that hold or fail for certain, and the ones the Pod leaves open.\<close>

definition node_admits :: "(toleration \<Rightarrow> taint \<Rightarrow> bool) \<Rightarrow> pod \<Rightarrow> node \<Rightarrow> bool" where
  "node_admits tolerates pod node \<longleftrightarrow>
     selectorMatches pod node \<and> requiredNodeAffinityMatches pod node \<and> \<not> nd_unschedulable node
     \<and> nodeReady node \<and> taintsTolerated tolerates (nd_taints node) (pod_tolerations pod)"

definition pod_plain :: "pod \<Rightarrow> bool" where
  "pod_plain pod \<longleftrightarrow>
     \<not> podUsesHostPorts pod \<and> \<not> hasRequiredPodAffinity pod \<and> \<not> podUsesVolumesWithNodeLimits pod
     \<and> \<not> podUsesPersistentVolumes pod \<and> \<not> hard_spread pod"

definition pod_slot_free :: "cache_node \<Rightarrow> bool \<Rightarrow> bool" where
  "pod_slot_free cacheNode cacheFound \<longleftrightarrow>
     (case idle_pods cacheNode cacheFound of Some x \<Rightarrow> f_le f_one x | None \<Rightarrow> False)"

definition pod_slot_known :: "node \<Rightarrow> cache_node \<Rightarrow> bool \<Rightarrow> bool" where
  "pod_slot_known node cacheNode cacheFound \<longleftrightarrow>
     idle_pods cacheNode cacheFound \<noteq> None \<or> kubernetesPodsAllocatableOmitted (nd_allocatable node)"

lemma predicateChecks_pass:
  "list_all (\<lambda>c. chk_passed c \<and> chk_determinate c) (predicateChecks t pod node n f)
    \<longleftrightarrow> node_admits t pod node \<and> pod_plain pod \<and> pod_slot_free n f"
  by (auto simp: predicateChecks_def node_admits_def pod_plain_def pod_slot_free_def split: option.splits)

lemma predicateChecks_fail:
  "list_ex (\<lambda>c. chk_determinate c \<and> \<not> chk_passed c) (predicateChecks t pod node n f)
    \<longleftrightarrow> \<not> node_admits t pod node \<or> (pod_slot_known node n f \<and> \<not> pod_slot_free n f)"
  by (auto simp: predicateChecks_def node_admits_def pod_slot_known_def pod_slot_free_def split: option.splits)

lemma nodeResourceCheck_simps:
  "chk_passed (fst (nodeResourceCheck pod node n f)) = volcanoBestEffort (podRequests pod)"
  "chk_determinate (fst (nodeResourceCheck pod node n f)) \<longleftrightarrow>
     volcanoBestEffort (podRequests pod) \<or>
     (f \<and> \<not> hasRestartableInitContainer pod \<and> resource_short (podRequests pod) n (nd_allocatable node))"
  "check_wf (fst (nodeResourceCheck pod node n f))"
  "chk_stage (fst (nodeResourceCheck pod node n f)) = ''allocate''"
  "chk_id (fst (nodeResourceCheck pod node n f)) = ''node.resources''"
proof -
  obtain c i where r: "resourceFitCheck (podRequests pod) n (nd_allocatable node) = (c, i)" by force
  obtain b t where b: "fits (podRequests pod) (resourceListValues (nd_allocatable node)) = (b, t)" by force
  note c = resourceFitCheck_simps [of "podRequests pod" n "nd_allocatable node", unfolded r fst_conv]
  show "chk_passed (fst (nodeResourceCheck pod node n f)) = volcanoBestEffort (podRequests pod)"
    "chk_determinate (fst (nodeResourceCheck pod node n f)) \<longleftrightarrow>
       volcanoBestEffort (podRequests pod) \<or>
       (f \<and> \<not> hasRestartableInitContainer pod \<and> resource_short (podRequests pod) n (nd_allocatable node))"
    "check_wf (fst (nodeResourceCheck pod node n f))"
    "chk_stage (fst (nodeResourceCheck pod node n f)) = ''allocate''"
    "chk_id (fst (nodeResourceCheck pod node n f)) = ''node.resources''"
    using c by (auto simp: nodeResourceCheck_def r b Let_def)
qed

lemma evaluateNode_checks:
  "nr_checks (evaluateNode t pod node n f) = predicateChecks t pod node n f @
     [fst (nodeResourceCheck pod node n f),
      Skipped ''node.pv-bind'' ''allocate'' ''PV binding after node selection'' text_pv_bind
        [''pkg/scheduler/framework/statement.go:Allocate'']]"
  by (cases "nodeResourceCheck pod node n f") (simp add: evaluateNode_def Let_def split: prod.split)

lemma evaluateNode_verdict:
  "nr_passed (evaluateNode t pod node n f)
    = list_all (\<lambda>c. chk_passed c \<and> chk_determinate c) (nr_checks (evaluateNode t pod node n f))"
  "nr_determinate (evaluateNode t pod node n f)
    = (list_ex (\<lambda>c. chk_determinate c \<and> \<not> chk_passed c) (nr_checks (evaluateNode t pod node n f))
       \<or> list_all chk_determinate (nr_checks (evaluateNode t pod node n f)))"
  by (cases "nodeResourceCheck pod node n f",
      simp add: evaluateNode_def Let_def fold_verdict list_ex_iff list_all_iff split: prod.split)+

lemma evaluateNode_name [simp]: "nr_name (evaluateNode t pod node n f) = nd_name node"
  by (simp add: evaluateNode_def Let_def split: prod.split)

lemma evaluateNode_passed:
  "nr_passed (evaluateNode t pod node n f) \<longleftrightarrow>
     node_admits t pod node \<and> pod_plain pod \<and> pod_slot_free n f \<and> volcanoBestEffort (podRequests pod)"
  unfolding evaluateNode_verdict(1) evaluateNode_checks list_all_append predicateChecks_pass
  by (auto simp: nodeResourceCheck_simps)

lemma evaluateNode_failed:
  "list_ex (\<lambda>c. chk_determinate c \<and> \<not> chk_passed c) (nr_checks (evaluateNode t pod node n f)) \<longleftrightarrow>
     \<not> node_admits t pod node \<or> (pod_slot_known node n f \<and> \<not> pod_slot_free n f) \<or>
     (f \<and> \<not> volcanoBestEffort (podRequests pod) \<and> \<not> hasRestartableInitContainer pod
       \<and> resource_short (podRequests pod) n (nd_allocatable node))"
  unfolding evaluateNode_checks list_ex_append predicateChecks_fail
  by (auto simp: nodeResourceCheck_simps)

text \<open>A verdict is determinate when the node passes or has a definite failure, and only then.\<close>

lemma evaluateNode_determinate:
  "nr_determinate (evaluateNode t pod node n f) \<longleftrightarrow>
     nr_passed (evaluateNode t pod node n f) \<or>
     list_ex (\<lambda>c. chk_determinate c \<and> \<not> chk_passed c) (nr_checks (evaluateNode t pod node n f))"
  unfolding evaluateNode_verdict by (auto simp: list_ex_iff list_all_iff)

section \<open>Properties\<close>

text \<open>A node passes the allocate filter exactly when it matches the Pod's selector, affinity and
  tolerations, is ready and schedulable, has a free pod slot in the dump, the Pod uses nothing
  the filter cannot evaluate, and the Pod requests nothing but its pod slot: the resource check
  never proves a pass.\<close>

theorem node_passes_iff:
  "nr_passed (evaluateNode tolerates pod node cacheNode cacheFound) \<longleftrightarrow>
     selectorMatches pod node \<and> requiredNodeAffinityMatches pod node \<and> \<not> nd_unschedulable node
     \<and> nodeReady node \<and> taintsTolerated tolerates (nd_taints node) (pod_tolerations pod)
     \<and> pod_slot_free cacheNode cacheFound
     \<and> \<not> podUsesHostPorts pod \<and> \<not> hasRequiredPodAffinity pod \<and> \<not> podUsesVolumesWithNodeLimits pod
     \<and> \<not> podUsesPersistentVolumes pod \<and> \<not> hard_spread pod
     \<and> volcanoBestEffort (podRequests pod)"
  by (auto simp: evaluateNode_passed node_admits_def pod_plain_def)

text \<open>The verdict of a node is determinate exactly when the node passes or is certain to fail, and
  it is certain to fail exactly when a predicate of the node itself fails, no pod slot is left, or,
  for a Pod without sidecars, a requested resource exceeds what the dump shows idle and being
  released.\<close>

theorem node_determinate_iff:
  "nr_determinate (evaluateNode tolerates pod node cacheNode cacheFound) \<longleftrightarrow>
     nr_passed (evaluateNode tolerates pod node cacheNode cacheFound)
     \<or> \<not> node_admits tolerates pod node
     \<or> (pod_slot_known node cacheNode cacheFound \<and> \<not> pod_slot_free cacheNode cacheFound)
     \<or> (cacheFound \<and> \<not> volcanoBestEffort (podRequests pod) \<and> \<not> hasRestartableInitContainer pod
        \<and> resource_short (podRequests pod) cacheNode (nd_allocatable node))"
  unfolding evaluateNode_determinate evaluateNode_failed by (rule refl)

theorem node_determinate_iff_witness:
  "nr_determinate (evaluateNode (\<lambda>_ _. False) empty_pod empty_node empty_cache_node False)"
  unfolding node_determinate_iff [of "\<lambda>_ _. False" empty_pod empty_node empty_cache_node False]
  by (simp add: node_admits_def nodeReady_def empty_node_def)

text \<open>For whole amounts within 2 to the 53 the fit is exact: a resource the cache reports is short
  exactly when the request is positive and more than what is idle plus what is being released.\<close>

theorem fit_exact:
  assumes "gm_get (cn_idle node) k = Some (Fin (of_int a))" and "gm_has (cn_allocatable node) k"
    and "gm_ok (cn_releasing node)" and "gm_or f_zero (cn_releasing node) k = Fin (of_int b)"
    and "\<bar>a + b\<bar> \<le> 2 ^ 53" and "k \<noteq> ''pods''"
  shows "is_insufficient (fit_outcome node ka (addResources (cn_idle node) (cn_releasing node)) k (Fin (of_int r)))
    = (0 < r \<and> a + b < r)"
proof -
  have "gm_or f_zero (addResources (cn_idle node) (cn_releasing node)) k = Fin (of_int (a + b))"
  proof (cases "gm_get (cn_releasing node) k")
    case None
    with assms have "b = 0" by (simp add: gm_or_def)
    with None assms show ?thesis by (simp add: gm_or_def gm_get_addResources add_at_def)
  next
    case (Some v)
    with assms have "v = Fin (of_int b)" by (simp add: gm_or_def)
    with Some assms show ?thesis
      using f_add_of_int [of a b] by (simp add: gm_or_def gm_get_addResources add_at_def f_or0_def)
  qed
  moreover have "gm_has (cn_idle node) k" using assms(1) by (simp add: gm_has_def)
  ultimately show ?thesis using assms(2,6)
    by (auto simp: fit_outcome_def Let_def is_insufficient_def)
qed

theorem fit_exact_witness:
  "\<not> is_insufficient (fit_outcome
      (empty_cache_node\<lparr>cn_idle := [(''nvidia.com/gpu'', Fin (of_int 3))],
         cn_allocatable := [(''nvidia.com/gpu'', Fin (of_int 8))],
         cn_releasing := [(''nvidia.com/gpu'', Fin (of_int 1))]\<rparr>) []
      (addResources [(''nvidia.com/gpu'', Fin (of_int 3))] [(''nvidia.com/gpu'', Fin (of_int 1))])
      ''nvidia.com/gpu'' (Fin (of_int 4)))"
  using fit_exact [of "empty_cache_node\<lparr>cn_idle := [(''nvidia.com/gpu'', Fin (of_int 3))],
         cn_allocatable := [(''nvidia.com/gpu'', Fin (of_int 8))],
         cn_releasing := [(''nvidia.com/gpu'', Fin (of_int 1))]\<rparr>" "''nvidia.com/gpu''" 3 1 "[]" 4]
  by (simp add: gm_get_def gm_has_def gm_ok_def gm_or_def)

definition millicores :: "int \<Rightarrow> f64" where
  "millicores n = resourceValue ''cpu'' \<lparr>q_value = 0, q_milli = n, q_is_zero = (n = 0)\<rparr>"

definition rounding_node :: cache_node where
  "rounding_node = empty_cache_node\<lparr>cn_idle := [(''cpu'', millicores 700)],
     cn_allocatable := [(''cpu'', millicores 1000)], cn_releasing := [(''cpu'', millicores 100)]\<rparr>"

text \<open>For CPU the fit is not exact: with 700 millicores idle and 100 being released, a request of
  800 millicores is reported as a definite failure, because the sum of the two floats is below 0.8.\<close>

theorem fit_rejects_exact_cpu:
  "known_failure (fst (resourceFitCheck [(''cpu'', millicores 800)] rounding_node []))"
proof -
  have "resource_short [(''cpu'', millicores 800)] rounding_node []" by code_simp
  then show ?thesis by (simp add: resourceFitCheck_simps)
qed

end
