(* ===== verification/Filter_Stage.thy ===== *)
theory Filter_Stage
  imports Filter_Node
begin

text \<open>
  File \<open>internal/agent/filter/filter.go\<close>: the allocate filter over all nodes, its cache evidence and
  its summary check. \<open>sort.Slice\<close> orders the nodes by name; node names are unique in a cluster, so
  the stable sort of the model gives the same list.
\<close>

definition allocateSources :: "string list" where
  "allocateSources =
     [''pkg/scheduler/actions/allocate/allocate.go'',
      ''pkg/scheduler/framework/session_plugins.go:PrePredicateFn'',
      ''pkg/scheduler/framework/session_plugins.go:PredicateFn'']"

record filter_input =
  fi_pod :: pod
  fi_nodes :: "node list"
  fi_nodes_err :: "go_error option"
  fi_dump :: cache_dump
  fi_capture_err :: "go_error option"

record filter_result =
  fr_cache_check :: check
  fr_nodes :: "node_result list"
  fr_allocation_check :: check
  fr_plugin_check :: check

definition eligibleReadyNodeNames :: "node list \<Rightarrow> pod \<Rightarrow> unit gomap" where
  "eligibleReadyNodeNames nodes pod =
     fold (\<lambda>node result.
       if \<not> nodeReady node then result
       else if list_all (\<lambda>(key, value). gm_get (nd_labels node) key = Some value) (pod_node_selector pod)
          \<and> requiredNodeAffinityMatches pod node
       then gm_set (nd_name node) () result else result) nodes []"

definition match_step ::
  "cache_node gomap \<Rightarrow> string \<times> unit \<Rightarrow> cache_node gomap \<times> string list
    \<Rightarrow> cache_node gomap \<times> string list" where
  "match_step cacheNodes e st =
     (let (name, _) = e; (matched, missing) = st in
      case gm_get cacheNodes name of
        None \<Rightarrow> (matched, missing @ [name])
      | Some node \<Rightarrow> (gm_set name node matched, missing))"

definition matchCacheNodes ::
  "cache_node gomap \<Rightarrow> unit gomap \<Rightarrow> cache_node gomap \<times> string list" where
  "matchCacheNodes cacheNodes expected =
     (let (matched, missing) = fold (match_step cacheNodes) expected ([], [])
      in (matched, sort_strings missing))"

text \<open>The evidence \<open>dump.Nodes\<close> is a map that may be nil; it is rendered like an empty one.\<close>

definition dump_nodes :: "cache_dump \<Rightarrow> cache_node gomap" where
  "dump_nodes dump = (case cu_nodes dump of None \<Rightarrow> [] | Some m \<Rightarrow> m)"

definition cacheEvidence ::
  "cache_dump \<Rightarrow> go_error option \<Rightarrow> cache_node gomap \<Rightarrow> string list \<Rightarrow> nat \<Rightarrow> check" where
  "cacheEvidence dump captureErr matched missing expected =
     (case captureErr of
        Some e \<Rightarrow>
          Unknown ''cache.capture'' ''allocate'' ''Volcano scheduler cache captured'' (err_text e)
            (EvCacheNodes (dump_nodes dump)) [''SIGUSR2 Node (...) cache dump'']
      | None \<Rightarrow>
          if missing \<noteq> [] then
            Unknown ''cache.capture'' ''allocate'' ''Volcano scheduler cache captured''
              (''cache dump is missing eligible Ready nodes: '' @ fmt_strs missing)
              (EvCacheNodes matched) [''SIGUSR2 Node (...) cache dump'']
          else
            (Known ''cache.capture'' ''allocate'' ''Volcano scheduler cache captured'' True
               (''captured '' @ fmt_n (length (dump_nodes dump)) @ '' scheduler cache nodes; matched '' @
                fmt_n (length matched) @ ''/'' @ fmt_n expected @ '' eligible Ready nodes from '' @
                sch_namespace (cu_scheduler dump) @ ''/'' @ sch_name (cu_scheduler dump))
               [''SIGUSR2 Node (...) cache dump''])\<lparr>chk_evidence := EvCacheNodes matched\<rparr>)"

definition count_node :: "node_result \<Rightarrow> int \<times> bool \<Rightarrow> int \<times> bool" where
  "count_node node st =
     (let (passed, unknown) = st
      in (if nr_passed node then passed + 1 else passed, unknown \<or> \<not> nr_determinate node))"

definition allocationCheck :: "node_result list \<Rightarrow> go_error option \<Rightarrow> check" where
  "allocationCheck nodes nodesErr =
     (case nodesErr of
        Some e \<Rightarrow>
          Unknown ''allocate.nodes'' ''allocate'' ''At least one node passes common filters''
            (''list Kubernetes nodes from informer cache: '' @ err_text e) EvNil allocateSources
      | None \<Rightarrow>
          (let (passed, unknown) = fold count_node nodes (0, False);
               reason = fmt_d passed @ ''/'' @ fmt_n (length nodes) @ '' nodes passed common filters''
           in if passed = 0 \<and> unknown then
                Unknown ''allocate.nodes'' ''allocate'' ''At least one node passes common filters''
                  (reason @ ''; one or more nodes lack Volcano cache evidence'') EvNil allocateSources
              else
                Known ''allocate.nodes'' ''allocate'' ''At least one node passes common filters''
                  (passed > 0) reason allocateSources))"

definition text_predicates_open :: string where
  "text_predicates_open = ''enabled predicates and plugin-private Session state cannot be reproduced from Kubernetes objects and the node cache dump alone''"

definition filter_nodes :: "(toleration \<Rightarrow> taint \<Rightarrow> bool) \<Rightarrow> filter_input \<Rightarrow> node_result list" where
  "filter_nodes tolerates input =
     (let cacheNodes = dump_nodes (fi_dump input) in
      sort_key nr_name (map (\<lambda>node.
        evaluateNode tolerates (fi_pod input) node
          (gm_or empty_cache_node cacheNodes (nd_name node)) (gm_has cacheNodes (nd_name node)))
        (fi_nodes input)))"

definition Evaluate_filter :: "(toleration \<Rightarrow> taint \<Rightarrow> bool) \<Rightarrow> filter_input \<Rightarrow> filter_result" where
  "Evaluate_filter tolerates input =
     (let cacheNodes = dump_nodes (fi_dump input);
          expected = eligibleReadyNodeNames (fi_nodes input) (fi_pod input);
          (matched, missing) = matchCacheNodes cacheNodes expected;
          nodes = filter_nodes tolerates input
      in \<lparr>fr_cache_check =
            cacheEvidence (fi_dump input) (fi_capture_err input) matched missing (length expected),
          fr_nodes = nodes,
          fr_allocation_check = allocationCheck nodes (fi_nodes_err input),
          fr_plugin_check =
            Unknown ''plugins.predicates'' ''allocate''
              ''Active PrePredicate and Predicate plugin hooks'' text_predicates_open EvNil
              allocateSources\<rparr>)"

section \<open>Cache evidence\<close>

definition node_eligible :: "pod \<Rightarrow> node \<Rightarrow> bool" where
  "node_eligible pod node \<longleftrightarrow>
     nodeReady node \<and> selectorMatches pod node \<and> requiredNodeAffinityMatches pod node"

lemma eligible_keys:
  "set (gm_keys (eligibleReadyNodeNames nodes pod)) = nd_name ` {n \<in> set nodes. node_eligible pod n}"
proof -
  define step where "step = (\<lambda>node result.
       if \<not> nodeReady node then result
       else if list_all (\<lambda>(key, value). gm_get (nd_labels node) key = Some value) (pod_node_selector pod)
          \<and> requiredNodeAffinityMatches pod node
       then gm_set (nd_name node) () result else result)"
  have step: "set (gm_keys (step node acc))
      = (if node_eligible pod node then {nd_name node} else {}) \<union> set (gm_keys acc)" for node acc
    by (auto simp: step_def node_eligible_def selectorMatches_iff gm_keys_set)
  have "set (gm_keys (fold step nodes acc)) = nd_name ` {n \<in> set nodes. node_eligible pod n} \<union> set (gm_keys acc)"
    for acc
    by (induction nodes arbitrary: acc) (auto simp: step)
  from this [of "[]"] show ?thesis by (simp add: eligibleReadyNodeNames_def step_def gm_keys_def)
qed

lemma match_step_eq:
  "match_step cn (name, u) (matched, missing) =
     (case gm_get cn name of None \<Rightarrow> (matched, missing @ [name])
      | Some node \<Rightarrow> (gm_set name node matched, missing))"
  by (simp add: match_step_def)

lemma match_fold:
  "fold (match_step cn) ex (ma, mi) = (ma', mi') \<Longrightarrow>
     set mi' = set mi \<union> {n \<in> set (gm_keys ex). gm_get cn n = None}
     \<and> (\<forall>k. gm_get ma' k = (if k \<in> set (gm_keys ex) \<and> gm_get cn k \<noteq> None then gm_get cn k else gm_get ma k))"
proof (induction ex arbitrary: ma mi)
  case (Cons e ex)
  obtain n where e: "e = (n, ())" by (cases e) simp
  show ?case
  proof (cases "gm_get cn n")
    case None
    with Cons.prems have "fold (match_step cn) ex (ma, mi @ [n]) = (ma', mi')"
      by (simp add: e match_step_eq)
    from Cons.IH [OF this] None show ?thesis by (auto simp: e gm_keys_def)
  next
    case (Some x)
    with Cons.prems have "fold (match_step cn) ex (gm_set n x ma, mi) = (ma', mi')"
      by (simp add: e match_step_eq)
    from Cons.IH [OF this] Some show ?thesis by (auto simp: e gm_keys_def)
  qed
qed (simp add: gm_keys_def)

lemma matchCacheNodes_spec:
  assumes "matchCacheNodes cn ex = (ma, mi)"
  shows "set mi = {n \<in> set (gm_keys ex). gm_get cn n = None}" and "sorted mi"
    and "gm_get ma k = (if k \<in> set (gm_keys ex) then gm_get cn k else None)"
proof -
  obtain ma' mi' where f: "fold (match_step cn) ex ([], []) = (ma', mi')" by force
  with assms have m: "ma = ma'" "mi = sort_strings mi'" by (simp_all add: matchCacheNodes_def)
  with match_fold [OF f] show "set mi = {n \<in> set (gm_keys ex). gm_get cn n = None}" "sorted mi"
    "gm_get ma k = (if k \<in> set (gm_keys ex) then gm_get cn k else None)"
    by auto
qed

lemma cacheEvidence_simps [simp, check_simps]:
  "chk_stage (cacheEvidence d e ma mi n) = ''allocate''"
  "chk_id (cacheEvidence d e ma mi n) = ''cache.capture''"
  "check_wf (cacheEvidence d e ma mi n)"
  "\<not> known_failure (cacheEvidence d e ma mi n)"
  "chk_passed (cacheEvidence d e ma mi n) = (e = None \<and> mi = [])"
  by (simp_all add: cacheEvidence_def split: option.split)

section \<open>The summary\<close>

lemma count_fold:
  "fold count_node nodes (p, u) =
     (p + int (length (filter nr_passed nodes)), u \<or> list_ex (\<lambda>n. \<not> nr_determinate n) nodes)"
  by (induction nodes arbitrary: p u) (auto simp: count_node_def)

lemma allocationCheck_simps [simp, check_simps]:
  "chk_stage (allocationCheck nodes e) = ''allocate''"
  "chk_id (allocationCheck nodes e) = ''allocate.nodes''"
  "check_wf (allocationCheck nodes e)"
  by (simp_all add: allocationCheck_def Let_def check_wf_def count_fold split: option.split)

lemma filter_empty_list_ex: "filter P xs = [] \<longleftrightarrow> \<not> list_ex P xs"
  by (induction xs) auto

lemma allocationCheck_passed:
  "chk_passed (allocationCheck nodes e) = (e = None \<and> list_ex nr_passed nodes)"
  by (auto simp: allocationCheck_def Let_def count_fold filter_empty_list_ex split: option.split)

lemma allocationCheck_failure:
  "known_failure (allocationCheck nodes e)
    = (e = None \<and> list_all (\<lambda>n. \<not> nr_passed n \<and> nr_determinate n) nodes)"
  by (auto simp: allocationCheck_def Let_def count_fold filter_empty_list_ex list_ex_iff list_all_iff
      split: option.split)

lemma allocationCheck_order:
  "mset nodes = mset nodes' \<Longrightarrow> allocationCheck nodes e = allocationCheck nodes' e"
proof -
  assume m: "mset nodes = mset nodes'"
  then have "length (filter nr_passed nodes) = length (filter nr_passed nodes')"
    by (metis mset_filter size_mset)
  moreover from m have "set nodes = set nodes'" by (metis set_mset_mset)
  moreover from m have "length nodes = length nodes'" by (metis size_mset)
  ultimately show ?thesis by (simp add: allocationCheck_def Let_def count_fold list_ex_iff split: option.split)
qed

lemma Evaluate_filter_simps [simp]:
  "fr_nodes (Evaluate_filter t i) = filter_nodes t i"
  "fr_allocation_check (Evaluate_filter t i) = allocationCheck (filter_nodes t i) (fi_nodes_err i)"
  "chk_stage (fr_plugin_check (Evaluate_filter t i)) = ''allocate''"
  "\<not> chk_determinate (fr_plugin_check (Evaluate_filter t i))"
  "check_wf (fr_plugin_check (Evaluate_filter t i))"
  by (simp_all add: Evaluate_filter_def Let_def split: prod.split)

lemma Evaluate_filter_cache:
  obtains ma mi where
    "matchCacheNodes (dump_nodes (fi_dump i)) (eligibleReadyNodeNames (fi_nodes i) (fi_pod i)) = (ma, mi)"
    and "fr_cache_check (Evaluate_filter t i) = cacheEvidence (fi_dump i) (fi_capture_err i) ma mi
      (length (eligibleReadyNodeNames (fi_nodes i) (fi_pod i)))"
  by (cases "matchCacheNodes (dump_nodes (fi_dump i)) (eligibleReadyNodeNames (fi_nodes i) (fi_pod i))")
    (simp add: Evaluate_filter_def Let_def)

definition filter_checks :: "filter_result \<Rightarrow> check list" where
  "filter_checks r = [fr_cache_check r, fr_allocation_check r, fr_plugin_check r]"

interpretation filter_stage: check_emitter "\<lambda>(t, i). filter_checks (Evaluate_filter t i)" "{''allocate''}"
proof
  fix c and x :: "(toleration \<Rightarrow> taint \<Rightarrow> bool) \<times> filter_input"
  obtain t i where x: "x = (t, i)" by force
  assume "c \<in> set (case x of (t, i) \<Rightarrow> filter_checks (Evaluate_filter t i))"
  then show "check_wf c" and "chk_stage c \<in> {''allocate''}"
    by (auto simp: x filter_checks_def intro: Evaluate_filter_cache [of i t])
qed

lemma evaluateNode_stage:
  "c \<in> set (nr_checks (evaluateNode t pod node n f)) \<Longrightarrow> chk_stage c = ''allocate'' \<and> check_wf c"
  using nodeResourceCheck_simps(3,4) [of pod node n f]
  unfolding evaluateNode_checks predicateChecks_def set_append set_simps Un_iff insert_iff
  by (elim disjE) simp_all

interpretation node_stage: check_emitter
  "\<lambda>(t, pod, node, n, f). nr_checks (evaluateNode t pod node n f)" "{''allocate''}"
  by unfold_locales (auto dest: evaluateNode_stage)

section \<open>Properties\<close>

text \<open>C35: The filter fails for certain exactly when the nodes could be listed and each of them is
  certain not to fit; it passes exactly when some node passes; and the order in which the cluster
  lists the nodes does not matter.\<close>

theorem allocate_stage_verdict:
  "known_failure (fr_allocation_check (Evaluate_filter tolerates input))
     = (fi_nodes_err input = None \<and>
        list_all (\<lambda>node. \<not> nr_passed node \<and> nr_determinate node) (filter_nodes tolerates input))
   \<and> chk_passed (fr_allocation_check (Evaluate_filter tolerates input))
     = (fi_nodes_err input = None \<and> list_ex nr_passed (filter_nodes tolerates input))
   \<and> mset (filter_nodes tolerates input)
     = image_mset (\<lambda>node. evaluateNode tolerates (fi_pod input) node
          (gm_or empty_cache_node (dump_nodes (fi_dump input)) (nd_name node))
          (gm_has (dump_nodes (fi_dump input)) (nd_name node))) (mset (fi_nodes input))"
  by (simp add: allocationCheck_failure allocationCheck_passed filter_nodes_def Let_def)

text \<open>C36: A Pod that requests a positive amount of anything but its pod slot never passes: whatever the
  cluster and the dump say, the summary of the filter is a failure or undetermined.\<close>

theorem requesting_pod_never_passes:
  assumes "(k, v) \<in> set (podRequests (fi_pod input))" and "k \<noteq> ''pods''" and "f_lt f_zero v"
  shows "\<not> chk_passed (fr_allocation_check (Evaluate_filter tolerates input))"
proof -
  have "\<not> volcanoBestEffort (podRequests (fi_pod input))"
    using assms unfolding volcanoBestEffort_def list_all_iff by blast
  then have "\<not> list_ex nr_passed (filter_nodes tolerates input)"
    by (auto simp: filter_nodes_def Let_def list_ex_iff evaluateNode_passed)
  then show ?thesis by (simp add: allocationCheck_passed)
qed

definition asking_input :: filter_input where
  "asking_input = \<lparr>fi_pod = empty_pod\<lparr>pod_overhead := [(''memory'', amount 4)]\<rparr>, fi_nodes = [empty_node],
     fi_nodes_err = None, fi_dump = empty_cache_dump, fi_capture_err = None\<rparr>"

theorem requesting_pod_never_passes_witness:
  "\<not> chk_passed (fr_allocation_check (Evaluate_filter (\<lambda>_ _. True) asking_input))"
proof (rule requesting_pod_never_passes)
  show "(''memory'', Fin 4) \<in> set (podRequests (fi_pod asking_input))" by code_simp
qed simp_all

text \<open>The cache evidence passes exactly when the capture had no error and the dump has every node
  that is ready and matches the Pod's selector and affinity; the nodes it lists as missing are the
  eligible ones the dump lacks.\<close>

theorem cache_evidence_complete:
  "chk_passed (fr_cache_check (Evaluate_filter tolerates input))
     = (fi_capture_err input = None \<and>
        list_all (\<lambda>n. \<not> node_eligible (fi_pod input) n \<or> gm_has (dump_nodes (fi_dump input)) (nd_name n))
          (fi_nodes input))"
proof -
  obtain ma mi where m: "matchCacheNodes (dump_nodes (fi_dump input))
      (eligibleReadyNodeNames (fi_nodes input) (fi_pod input)) = (ma, mi)"
    and c: "fr_cache_check (Evaluate_filter tolerates input) = cacheEvidence (fi_dump input)
      (fi_capture_err input) ma mi (length (eligibleReadyNodeNames (fi_nodes input) (fi_pod input)))"
    by (rule Evaluate_filter_cache)
  have "mi = [] \<longleftrightarrow> set mi = {}" by simp
  also have "\<dots> \<longleftrightarrow> list_all (\<lambda>n. \<not> node_eligible (fi_pod input) n
      \<or> gm_has (dump_nodes (fi_dump input)) (nd_name n)) (fi_nodes input)"
    unfolding matchCacheNodes_spec(1) [OF m] eligible_keys by (auto simp: list_all_iff gm_has_def)
  finally show ?thesis by (simp add: c)
qed

theorem cache_evidence_complete_witness:
  "chk_passed (fr_cache_check (Evaluate_filter (\<lambda>_ _. True) asking_input))"
  unfolding cache_evidence_complete [of "\<lambda>_ _. True" asking_input]
  by (simp add: asking_input_def node_eligible_def nodeReady_def empty_node_def)

end
