(* ===== verification/Queue_Snapshot.thy ===== *)
theory Queue_Snapshot
  imports Cluster_Types Amounts
begin

text \<open>
  Files \<open>internal/cluster/queue_snapshot.go\<close> and \<open>proportion_snapshot.go\<close>: the queue attributes
  rebuilt from a cache dump, the queues and the PodGroups. The name of a resource set is a
  constant at every call, so it is a datatype here and the \<open>panic\<close> of an unknown name cannot be
  written down. The facts: each entry of the snapshot is a scalar program over the jobs, on whole
  amounts it is the Volcano formula exactly, and the deserved share lies between its bounds.
\<close>

datatype resource_set =
  SetCapacity | SetDeserved | SetAllocated | SetRequest | SetInqueue | SetElastic

definition newQueueSnapshot :: "string \<Rightarrow> queue_snapshot" where
  "newQueueSnapshot queueName =
     \<lparr>qs_queue = queueName, qs_strategy = '''', qs_source = ''volcano-cache-dump'', qs_resources = []\<rparr>"

definition put_value :: "resource_set \<Rightarrow> f64 \<Rightarrow> queue_snapshot_resource \<Rightarrow> queue_snapshot_resource" where
  "put_value resourceSet value snapshot =
     (case resourceSet of
        SetCapacity \<Rightarrow> snapshot\<lparr>qr_capability := Some value\<rparr>
      | SetDeserved \<Rightarrow> snapshot\<lparr>qr_deserved := Some value\<rparr>
      | SetAllocated \<Rightarrow> snapshot\<lparr>qr_allocated := Some value\<rparr>
      | SetRequest \<Rightarrow> snapshot\<lparr>qr_request := Some value\<rparr>
      | SetInqueue \<Rightarrow> snapshot\<lparr>qr_inqueue := Some value\<rparr>
      | SetElastic \<Rightarrow> snapshot\<lparr>qr_elastic := Some value\<rparr>)"

definition get_value :: "resource_set \<Rightarrow> queue_snapshot_resource \<Rightarrow> f64 option" where
  "get_value resourceSet snapshot =
     (case resourceSet of
        SetCapacity \<Rightarrow> qr_capability snapshot
      | SetDeserved \<Rightarrow> qr_deserved snapshot
      | SetAllocated \<Rightarrow> qr_allocated snapshot
      | SetRequest \<Rightarrow> qr_request snapshot
      | SetInqueue \<Rightarrow> qr_inqueue snapshot
      | SetElastic \<Rightarrow> qr_elastic snapshot)"

text \<open>Methods of \<open>QueueSnapshot\<close>, on its resource map, which is all they touch.\<close>

definition setResourceValue ::
  "string \<Rightarrow> resource_set \<Rightarrow> f64 \<Rightarrow> queue_snapshot_resource gomap \<Rightarrow> queue_snapshot_resource gomap" where
  "setResourceValue resourceName resourceSet value resources =
     gm_set resourceName
       (put_value resourceSet value (gm_or empty_snapshot_resource resources resourceName)) resources"

definition addResourceValue ::
  "string \<Rightarrow> resource_set \<Rightarrow> f64 \<Rightarrow> queue_snapshot_resource gomap \<Rightarrow> queue_snapshot_resource gomap" where
  "addResourceValue resourceName resourceSet value resources =
     (if f_eq value f_zero then resources
      else (let snapshot = gm_or empty_snapshot_resource resources resourceName;
                current = (case get_value resourceSet snapshot of None \<Rightarrow> f_zero | Some v \<Rightarrow> v)
            in gm_set resourceName (put_value resourceSet (f_add current value) snapshot) resources))"

section \<open>Resource maps\<close>

definition canonicalQueueResourceName :: "string \<Rightarrow> string" where
  "canonicalQueueResourceName name =
     (let trimmed = trim_space name; lower = to_lower trimmed
      in if has_prefix lower ''requests.'' then drop (length ''requests.'') trimmed else trimmed)"

definition is_request_name :: "string \<Rightarrow> bool" where
  "is_request_name originalName = has_prefix (to_lower originalName) ''requests.''"

definition queue_quantity :: "string \<Rightarrow> quantity \<Rightarrow> f64" where
  "queue_quantity resourceName quantity =
     (if resourceName = ''cpu'' then f_div_const (f_of_int (q_milli quantity)) 1000
      else if resourceName = ''memory'' then f_of_int (q_value quantity)
      else if resourceName = ''pods'' then f_of_int (q_value quantity)
      else f_div_const (f_of_int (q_milli quantity)) 1000)"

definition queue_value_step ::
  "string \<times> quantity \<Rightarrow> f64 gomap \<times> bool gomap \<Rightarrow> f64 gomap \<times> bool gomap" where
  "queue_value_step e st =
     (let (originalName, quantity) = e; (result, requestBacked) = st;
          resourceName = canonicalQueueResourceName originalName;
          fromRequest = is_request_name originalName
      in if gm_or False requestBacked resourceName \<and> \<not> fromRequest then (result, requestBacked)
         else (gm_set resourceName (queue_quantity resourceName quantity) result,
               gm_set resourceName (fromRequest \<or> gm_or False requestBacked resourceName) requestBacked))"

definition queueListValues :: "resource_list \<Rightarrow> f64 gomap" where
  "queueListValues l = fst (fold queue_value_step l ([], []))"

definition add_value_step :: "string \<times> f64 \<Rightarrow> f64 gomap \<Rightarrow> f64 gomap" where
  "add_value_step e target =
     (case e of (name, value) \<Rightarrow> gm_set name (f_add (gm_or f_zero target name) value) target)"

definition addResourceValues :: "f64 gomap \<Rightarrow> f64 gomap \<Rightarrow> f64 gomap" where
  "addResourceValues target source = fold add_value_step source target"

definition sub_value_step :: "string \<times> f64 \<Rightarrow> f64 gomap \<Rightarrow> f64 gomap" where
  "sub_value_step e target =
     (case e of (name, value) \<Rightarrow> gm_set name (f_sub (gm_or f_zero target name) value) target)"

definition subResourceValues :: "f64 gomap \<Rightarrow> f64 gomap \<Rightarrow> f64 gomap" where
  "subResourceValues target source = fold sub_value_step source target"

definition min_value_step :: "string \<times> f64 \<Rightarrow> f64 gomap \<Rightarrow> f64 gomap" where
  "min_value_step e target =
     (case e of (name, value) \<Rightarrow>
        (case gm_get target name of
           None \<Rightarrow> gm_set name value target
         | Some current \<Rightarrow> if f_lt value current then gm_set name value target else target))"

definition minResourceValues :: "f64 gomap \<Rightarrow> f64 gomap \<Rightarrow> f64 gomap" where
  "minResourceValues target limit = fold min_value_step limit target"

definition diff_step :: "f64 gomap \<Rightarrow> f64 gomap \<Rightarrow> string \<Rightarrow> f64 gomap \<Rightarrow> f64 gomap" where
  "diff_step left right name result =
     (let value = f_sub (gm_or f_zero left name) (gm_or f_zero right name)
      in if f_lt f_zero value then gm_set name value result else result)"

definition positiveResourceDiff :: "f64 gomap \<Rightarrow> f64 gomap \<Rightarrow> f64 gomap" where
  "positiveResourceDiff left right =
     fold (diff_step left right) (sort_strings (remdups (gm_keys left @ gm_keys right))) []"

section \<open>The dump\<close>

definition totalNodeAllocatable :: "cache_node gomap \<Rightarrow> f64 gomap" where
  "totalNodeAllocatable nodes =
     fold (\<lambda>(name, node) result. addResourceValues result (cn_allocatable node)) nodes []"

definition allocatedTaskStatuses :: "string list" where
  "allocatedTaskStatuses = [''Bound'', ''Binding'', ''Running'', ''Allocated'']"

definition task_step ::
  "cache_task \<Rightarrow> f64 gomap \<times> f64 gomap \<times> int \<Rightarrow> f64 gomap \<times> f64 gomap \<times> int" where
  "task_step task st =
     (let (allocated, request, allocatedTasks) = st in
      if tk_status task \<in> set allocatedTaskStatuses then
        (addResourceValues allocated (tk_resreq task), addResourceValues request (tk_resreq task),
         allocatedTasks + 1)
      else if tk_status task = ''Pending'' then
        (allocated, addResourceValues request (tk_resreq task), allocatedTasks)
      else st)"

definition jobTaskResources :: "cache_job \<Rightarrow> f64 gomap \<times> f64 gomap \<times> int" where
  "jobTaskResources job = fold task_step (cj_tasks job) ([], [], 0)"

definition add_all ::
  "resource_set \<Rightarrow> f64 gomap \<Rightarrow> queue_snapshot_resource gomap \<Rightarrow> queue_snapshot_resource gomap" where
  "add_all resourceSet values resources =
     fold (\<lambda>(name, value) result. addResourceValue name resourceSet value result) values resources"

definition min_resources :: "pod_group \<Rightarrow> resource_list" where
  "min_resources podGroup = (case pg_min_resources podGroup of None \<Rightarrow> [] | Some l \<Rightarrow> l)"

text \<open>The body of the loop over the jobs of the dump.\<close>

definition job_step ::
  "pod_group gomap \<Rightarrow> string \<Rightarrow> string \<times> cache_job \<Rightarrow> queue_snapshot_resource gomap
    \<Rightarrow> queue_snapshot_resource gomap" where
  "job_step podGroupByKey queueName e result =
     (let job = snd e in
      if cj_queue job \<noteq> queueName then result
      else
        (let (allocated, request, allocatedTasks) = jobTaskResources job;
             result1 = add_all SetRequest request (add_all SetAllocated allocated result)
         in case gm_get podGroupByKey (cj_namespace job @ ''/'' @ cj_name job) of
              None \<Rightarrow> result1
            | Some podGroup \<Rightarrow>
                (let minResources = queueListValues (min_resources podGroup);
                     result2 =
                       (if to_lower (pg_phase podGroup) = ''inqueue'' then
                          add_all SetInqueue minResources result1
                        else if to_lower (pg_phase podGroup) = ''running'' then
                          (if sint (pg_min_member podGroup) \<le> allocatedTasks then
                             add_all SetInqueue (positiveResourceDiff minResources allocated) result1
                           else result1)
                        else result1)
                 in add_all SetElastic (positiveResourceDiff allocated minResources) result2)))"

definition index_groups :: "pod_group list \<Rightarrow> pod_group gomap" where
  "index_groups podGroups =
     fold (\<lambda>podGroup m. gm_set (pg_namespace podGroup @ ''/'' @ pg_name podGroup) podGroup m) podGroups []"

definition index_queues :: "queue list \<Rightarrow> queue gomap \<times> f64 gomap" where
  "index_queues queues =
     fold (\<lambda>queue (queueByName, totalGuarantee).
       (gm_set (qu_name queue) queue queueByName,
        addResourceValues totalGuarantee (queueListValues (qu_guarantee queue)))) queues ([], [])"

definition realCapability :: "cache_node gomap \<Rightarrow> f64 gomap \<Rightarrow> queue \<Rightarrow> f64 gomap" where
  "realCapability nodes totalGuarantee queue =
     minResourceValues
       (addResourceValues (subResourceValues (totalNodeAllocatable nodes) totalGuarantee)
         (queueListValues (qu_guarantee queue)))
       (queueListValues (qu_capability queue))"

definition buildQueueSnapshot ::
  "cache_dump \<Rightarrow> queue list \<Rightarrow> pod_group list \<Rightarrow> string \<Rightarrow> queue_snapshot \<times> go_error option" where
  "buildQueueSnapshot dump queues podGroups queueName =
     (let result = newQueueSnapshot queueName in
      if queueName = '''' then (result, Some (errorf ''queue name is required''))
      else
        (let (queueByName, totalGuarantee) = index_queues queues in
         case gm_get queueByName queueName of
           None \<Rightarrow>
             (result, Some (errorf (''queue '' @ queueName @ '' is unavailable from informer cache'')))
         | Some queue \<Rightarrow>
             (let nodes = (case cu_nodes dump of None \<Rightarrow> [] | Some m \<Rightarrow> m);
                  jobs = (case cu_jobs dump of None \<Rightarrow> [] | Some m \<Rightarrow> m);
                  capability = realCapability nodes totalGuarantee queue;
                  resources = fold (\<lambda>(name, value) r. setResourceValue name SetCapacity value r) capability []
              in (result\<lparr>qs_resources := fold (job_step (index_groups podGroups) queueName) jobs resources\<rparr>,
                  None))))"

definition deserved_value :: "f64 gomap \<Rightarrow> f64 gomap \<Rightarrow> string \<Rightarrow> queue_snapshot_resource \<Rightarrow> f64" where
  "deserved_value deserved guarantee name resource =
     (let v0 = gm_or f_zero deserved name;
          v1 = (case qr_capability resource of Some c \<Rightarrow> if f_lt c v0 then c else v0 | None \<Rightarrow> v0);
          v2 = (case qr_request resource of Some r \<Rightarrow> if f_lt r v1 then r else v1 | None \<Rightarrow> v1)
      in if f_lt v2 (gm_or f_zero guarantee name) then gm_or f_zero guarantee name else v2)"

definition populateCapacityDeserved ::
  "queue list \<Rightarrow> string \<Rightarrow> queue_snapshot \<Rightarrow> queue_snapshot" where
  "populateCapacityDeserved queues queueName snapshot =
     (case find (\<lambda>queue. qu_name queue = queueName) queues of
        None \<Rightarrow> snapshot
      | Some queue \<Rightarrow>
          (let deserved = queueListValues (qu_deserved queue);
               guarantee = queueListValues (qu_guarantee queue)
           in snapshot\<lparr>qs_resources :=
                fold (\<lambda>(name, resource) r.
                  setResourceValue name SetDeserved (deserved_value deserved guarantee name resource) r)
                  (qs_resources snapshot) (qs_resources snapshot)\<rparr>))"

definition BuildQueueSnapshot ::
  "cache_dump \<Rightarrow> queue list \<Rightarrow> pod_group list \<Rightarrow> string \<Rightarrow> string \<Rightarrow> queue_snapshot \<times> go_error option" where
  "BuildQueueSnapshot dump queues podGroups queueName strategy =
     (let (result, err) = buildQueueSnapshot dump queues podGroups queueName;
          result1 = result\<lparr>qs_strategy := strategy\<rparr>
      in case err of
           Some e \<Rightarrow> (result1, Some e)
         | None \<Rightarrow>
             (if strategy = ''capacity'' then populateCapacityDeserved queues queueName result1
              else result1, None))"

definition BuildProportionQueueSnapshot ::
  "cache_dump \<Rightarrow> queue list \<Rightarrow> pod_group list \<Rightarrow> string \<Rightarrow> queue_snapshot \<times> go_error option" where
  "BuildProportionQueueSnapshot dump queues podGroups queueName =
     BuildQueueSnapshot dump queues podGroups queueName ''proportion''"

section \<open>The loops are pointwise\<close>

interpretation add_value: pointwise_loop add_value_step "\<lambda>k v old. Some (f_add (f_or0 old) v)"
  by unfold_locales (auto simp: add_value_step_def gm_or_def f_or0_def split: option.split)

interpretation sub_value: pointwise_loop sub_value_step "\<lambda>k v old. Some (f_sub (f_or0 old) v)"
  by unfold_locales (auto simp: sub_value_step_def gm_or_def f_or0_def split: option.split)

interpretation min_value: pointwise_loop min_value_step
    "\<lambda>k v old. (case old of None \<Rightarrow> Some v | Some x \<Rightarrow> if f_lt v x then Some v else Some x)"
  by unfold_locales (auto simp: min_value_step_def split: option.split)

lemma gm_get_addResourceValues:
  "gm_ok s \<Longrightarrow> gm_get (addResourceValues d s) k = add_at (gm_get d k) (gm_get s k)"
  unfolding addResourceValues_def by (subst add_value.loop_get) (auto simp: add_at_def split: option.split)

lemma gm_get_subResourceValues:
  "gm_ok s \<Longrightarrow> gm_get (subResourceValues d s) k = sub_at (gm_get d k) (gm_get s k)"
  unfolding subResourceValues_def by (subst sub_value.loop_get) (auto simp: sub_at_def split: option.split)

lemma gm_get_minResourceValues:
  "gm_ok s \<Longrightarrow> gm_get (minResourceValues d s) k = min_at (gm_get d k) (gm_get s k)"
  unfolding minResourceValues_def by (subst min_value.loop_get) (auto simp: min_at_def split: option.split)

lemma gm_ok_loops [simp]:
  "gm_ok d \<Longrightarrow> gm_ok (addResourceValues d s)" "gm_ok d \<Longrightarrow> gm_ok (subResourceValues d s)"
  "gm_ok d \<Longrightarrow> gm_ok (minResourceValues d s)"
  unfolding addResourceValues_def subResourceValues_def minResourceValues_def
  by (rule add_value.loop_ok sub_value.loop_ok min_value.loop_ok, assumption)+

lemma diff_fold:
  "gm_get (fold (diff_step l r) names acc) k =
     (if k \<in> set names \<and> f_lt f_zero (f_sub (gm_or f_zero l k) (gm_or f_zero r k))
      then Some (f_sub (gm_or f_zero l k) (gm_or f_zero r k)) else gm_get acc k)"
  by (induction names arbitrary: acc) (auto simp: diff_step_def Let_def)

lemma diff_fold_ok: "gm_ok acc \<Longrightarrow> gm_ok (fold (diff_step l r) names acc)"
  by (induction names arbitrary: acc) (auto simp: diff_step_def Let_def)

text \<open>The positive part of the difference, also at names that only one side has.\<close>

definition diff_at :: "f64 option \<Rightarrow> f64 option \<Rightarrow> f64 option" where
  "diff_at l r =
     (let v = f_sub (f_or0 l) (f_or0 r) in if f_lt f_zero v then Some v else None)"

lemma f_sub_zero_zero [simp]: "f_sub f_zero f_zero = f_zero"
  by (simp add: f_sub_def)

lemma gm_or_f_or0: "gm_or f_zero m k = f_or0 (gm_get m k)"
  by (simp add: gm_or_def f_or0_def)

lemma gm_get_positiveResourceDiff:
  "gm_get (positiveResourceDiff l r) k = diff_at (gm_get l k) (gm_get r k)"
proof (cases "k \<in> set (gm_keys l @ gm_keys r)")
  case False
  then have "gm_get l k = None" "gm_get r k = None" by (simp_all add: gm_get_None_keys)
  then show ?thesis
    by (simp add: positiveResourceDiff_def diff_fold diff_at_def gm_or_f_or0)
next
  case True
  then show ?thesis by (simp add: positiveResourceDiff_def diff_fold diff_at_def gm_or_f_or0 Let_def)
qed

lemma gm_ok_positiveResourceDiff [simp]: "gm_ok (positiveResourceDiff l r)"
  unfolding positiveResourceDiff_def by (rule diff_fold_ok) simp

section \<open>Quota names\<close>

text \<open>One name of a resource list: the value and whether a \<open>requests.\<close> name has set it.\<close>

definition quota_step :: "string \<Rightarrow> string \<times> quantity \<Rightarrow> f64 option \<times> bool \<Rightarrow> f64 option \<times> bool" where
  "quota_step k e st =
     (let (name, quantity) = e; (value, backed) = st in
      if canonicalQueueResourceName name \<noteq> k \<or> (backed \<and> \<not> is_request_name name) then st
      else (Some (queue_quantity k quantity), is_request_name name \<or> backed))"

lemma quota_step_eq:
  "quota_step k (n, q) (v, b) = (if canonicalQueueResourceName n \<noteq> k \<or> (b \<and> \<not> is_request_name n) then (v, b)
     else (Some (queue_quantity k q), is_request_name n \<or> b))"
  by (simp add: quota_step_def)

lemma queue_value_step_eq:
  "queue_value_step (n, q) (res, rb) =
     (let c = canonicalQueueResourceName n in
      if gm_or False rb c \<and> \<not> is_request_name n then (res, rb)
      else (gm_set c (queue_quantity c q) res, gm_set c (is_request_name n \<or> gm_or False rb c) rb))"
  by (simp add: queue_value_step_def Let_def)

lemma quota_fold:
  "fold queue_value_step l (res, rb) = (res', rb') \<Longrightarrow>
     (gm_get res' k, gm_or False rb' k) = fold (quota_step k) l (gm_get res k, gm_or False rb k)
     \<and> (gm_ok res \<longrightarrow> gm_ok res')"
proof (induction l arbitrary: res rb)
  case (Cons e l)
  obtain n q where e: "e = (n, q)" by force
  obtain res1 rb1 where s: "queue_value_step (n, q) (res, rb) = (res1, rb1)" by force
  with Cons.prems have "fold queue_value_step l (res1, rb1) = (res', rb')" by (simp add: e)
  from Cons.IH [OF this]
  have IH: "(gm_get res' k, gm_or False rb' k) = fold (quota_step k) l (gm_get res1 k, gm_or False rb1 k)"
    "gm_ok res1 \<longrightarrow> gm_ok res'" by auto
  have "(gm_get res1 k, gm_or False rb1 k) = quota_step k (n, q) (gm_get res k, gm_or False rb k)"
    "gm_ok res \<longrightarrow> gm_ok res1"
    using s by (auto simp: queue_value_step_eq quota_step_eq Let_def split: if_splits)
  with IH show ?case by (simp add: e)
qed simp

lemma gm_get_queueListValues:
  "gm_get (queueListValues l) k = fst (fold (quota_step k) l (None, False))"
proof -
  obtain res rb where f: "fold queue_value_step l ([], []) = (res, rb)" by force
  with quota_fold [OF f, of k] show ?thesis by (metis fst_conv gm_get_Nil gm_or_Nil queueListValues_def)
qed

lemma gm_ok_queueListValues [simp]: "gm_ok (queueListValues l)"
proof -
  obtain res rb where f: "fold queue_value_step l ([], []) = (res, rb)" by force
  with quota_fold [OF f] show ?thesis by (simp add: queueListValues_def)
qed

text \<open>The entries of one canonical name; a name spelled both ways gives two.\<close>

definition quota_entries :: "string \<Rightarrow> resource_list \<Rightarrow> resource_list" where
  "quota_entries k l = filter (\<lambda>(n, q). canonicalQueueResourceName n = k) l"

lemma quota_fold_entries: "fold (quota_step k) l st = fold (quota_step k) (quota_entries k l) st"
proof (induction l arbitrary: st)
  case (Cons e l)
  then show ?case
    by (cases e; cases st) (auto simp: quota_entries_def quota_step_eq)
qed (simp add: quota_entries_def)

section \<open>Entries of the snapshot\<close>

lemma get_put [simp]: "get_value s' (put_value s v x) = (if s' = s then Some v else get_value s' x)"
  by (cases s; cases s') (simp_all add: get_value_def put_value_def)

lemma get_empty [simp]: "get_value s empty_snapshot_resource = None"
  by (cases s) (simp_all add: get_value_def empty_snapshot_resource_def)

definition snap_at :: "queue_snapshot_resource gomap \<Rightarrow> resource_set \<Rightarrow> string \<Rightarrow> f64 option" where
  "snap_at r s k = (case gm_get r k of None \<Rightarrow> None | Some x \<Rightarrow> get_value s x)"

definition add_nz :: "f64 option \<Rightarrow> f64 option \<Rightarrow> f64 option" where
  "add_nz d s = (case s of None \<Rightarrow> d | Some v \<Rightarrow> if f_eq v f_zero then d else Some (f_add (f_or0 d) v))"

lemma snap_at_Nil [simp]: "snap_at [] s k = None"
  by (simp add: snap_at_def)

lemma snap_at_set:
  "snap_at (setResourceValue n s v r) s' k = (if n = k \<and> s' = s then Some v else snap_at r s' k)"
  by (auto simp: snap_at_def setResourceValue_def gm_or_def split: option.splits)

lemma snap_at_add:
  "snap_at (addResourceValue n s v r) s' k
    = (if n = k \<and> s' = s then add_nz (snap_at r s k) (Some v) else snap_at r s' k)"
  by (auto simp: snap_at_def addResourceValue_def add_nz_def gm_or_def f_or0_def Let_def split: option.splits)

lemma snap_at_add_all:
  "gm_ok m \<Longrightarrow> snap_at (add_all s m r) s' k
    = (if s' = s then add_nz (snap_at r s k) (gm_get m k) else snap_at r s' k)"
proof (induction m arbitrary: r)
  case Nil
  show ?case by (simp add: add_all_def add_nz_def)
next
  case (Cons e m)
  obtain n v where e: "e = (n, v)" by force
  from Cons.prems e have ok: "gm_ok m" and new: "gm_get m n = None"
    by (simp_all add: gm_ok_Cons gm_get_None_keys)
  have "add_all s (e # m) r = add_all s m (addResourceValue n s v r)" by (simp add: add_all_def e)
  with Cons.IH [OF ok] new show ?case
    by (auto simp: e gm_get_Cons snap_at_add add_nz_def)
qed

section \<open>Jobs\<close>

text \<open>What a job contributes to one entry.\<close>

definition counted :: "cache_task \<Rightarrow> bool" where
  "counted t \<longleftrightarrow> tk_status t \<in> set allocatedTaskStatuses"

definition requested :: "cache_task \<Rightarrow> bool" where
  "requested t \<longleftrightarrow> counted t \<or> tk_status t = ''Pending''"

definition tasks_at :: "(cache_task \<Rightarrow> bool) \<Rightarrow> string \<Rightarrow> cache_task list \<Rightarrow> f64 option" where
  "tasks_at P k ts = fold (\<lambda>t a. add_at a (gm_get (tk_resreq t) k)) (filter P ts) None"

definition job_ok :: "cache_job \<Rightarrow> bool" where
  "job_ok job \<longleftrightarrow> list_all (\<lambda>t. gm_ok (tk_resreq t)) (cj_tasks job)"

lemma task_step_eq:
  "task_step t (a, r, n) =
     (if counted t then (addResourceValues a (tk_resreq t), addResourceValues r (tk_resreq t), n + 1)
      else if requested t then (a, addResourceValues r (tk_resreq t), n) else (a, r, n))"
  by (simp add: task_step_def counted_def requested_def)

lemma task_fold:
  "list_all (\<lambda>t. gm_ok (tk_resreq t)) ts \<Longrightarrow> gm_ok a \<Longrightarrow> gm_ok r \<Longrightarrow>
   fold task_step ts (a, r, n) = (a', r', n') \<Longrightarrow>
     gm_get a' k = fold (\<lambda>t a. add_at a (gm_get (tk_resreq t) k)) (filter counted ts) (gm_get a k)
     \<and> gm_get r' k = fold (\<lambda>t a. add_at a (gm_get (tk_resreq t) k)) (filter requested ts) (gm_get r k)
     \<and> n' = n + int (length (filter counted ts)) \<and> gm_ok a' \<and> gm_ok r'"
proof (induction ts arbitrary: a r n)
  case (Cons t ts)
  have sub: "counted t \<Longrightarrow> requested t" by (simp add: requested_def)
  obtain a1 r1 n1 where s: "task_step t (a, r, n) = (a1, r1, n1)" by (metis prod_cases3)
  from s Cons.prems have ok: "gm_ok a1" "gm_ok r1" by (auto simp: task_step_eq split: if_splits)
  from s Cons.prems(4) have "fold task_step ts (a1, r1, n1) = (a', r', n')" by simp
  from Cons.IH [OF _ ok this] Cons.prems(1) s sub show ?case
    by (auto simp: task_step_eq gm_get_addResourceValues split: if_splits)
qed simp

lemma jobTaskResources_at:
  assumes "job_ok job" and "jobTaskResources job = (a, r, n)"
  shows "gm_get a k = tasks_at counted k (cj_tasks job)" and "gm_get r k = tasks_at requested k (cj_tasks job)"
    and "n = int (length (filter counted (cj_tasks job)))" and "gm_ok a" and "gm_ok r"
  using task_fold [of "cj_tasks job" "[]" "[]" 0 a r n] assms
  by (simp_all add: jobTaskResources_def job_ok_def tasks_at_def)

definition group_of :: "pod_group gomap \<Rightarrow> cache_job \<Rightarrow> pod_group option" where
  "group_of groups job = gm_get groups (cj_namespace job @ ''/'' @ cj_name job)"

definition contribution :: "pod_group gomap \<Rightarrow> cache_job \<Rightarrow> resource_set \<Rightarrow> string \<Rightarrow> f64 option" where
  "contribution groups job s k =
     (let alloc = tasks_at counted k (cj_tasks job);
          minimum = (\<lambda>pg. gm_get (queueListValues (min_resources pg)) k)
      in case s of
           SetAllocated \<Rightarrow> alloc
         | SetRequest \<Rightarrow> tasks_at requested k (cj_tasks job)
         | SetInqueue \<Rightarrow>
             (case group_of groups job of
                None \<Rightarrow> None
              | Some pg \<Rightarrow>
                  if to_lower (pg_phase pg) = ''inqueue'' then minimum pg
                  else if to_lower (pg_phase pg) = ''running''
                    \<and> sint (pg_min_member pg) \<le> int (length (filter counted (cj_tasks job)))
                  then diff_at (minimum pg) alloc else None)
         | SetElastic \<Rightarrow>
             (case group_of groups job of None \<Rightarrow> None | Some pg \<Rightarrow> diff_at alloc (minimum pg))
         | _ \<Rightarrow> None)"

lemma add_nz_None [simp]: "add_nz d None = d"
  by (simp add: add_nz_def)

lemma job_step_at:
  assumes "job_ok job"
  shows "snap_at (job_step groups q (n, job) r) s k =
    (if cj_queue job = q then add_nz (snap_at r s k) (contribution groups job s k) else snap_at r s k)"
proof (cases "cj_queue job = q")
  case True
  obtain a rq m where j: "jobTaskResources job = (a, rq, m)" by (metis prod_cases3)
  note at = jobTaskResources_at [OF assms j]
  define r1 where "r1 = add_all SetRequest rq (add_all SetAllocated a r)"
  have r1: "snap_at r1 s k = (if s = SetAllocated \<or> s = SetRequest
      then add_nz (snap_at r s k) (contribution groups job s k) else snap_at r s k)"
    using at by (cases s) (simp_all add: r1_def snap_at_add_all contribution_def)
  show ?thesis
  proof (cases "group_of groups job")
    case None
    have "job_step groups q (n, job) r = r1"
      using True None by (simp add: job_step_def j r1_def group_of_def)
    with True None r1 show ?thesis
      by (cases s) (simp_all add: contribution_def)
  next
    case (Some pg)
    define mr where "mr = queueListValues (min_resources pg)"
    define inq where "inq = (if to_lower (pg_phase pg) = ''inqueue'' then mr
      else if to_lower (pg_phase pg) = ''running'' \<and> sint (pg_min_member pg) \<le> m
        then positiveResourceDiff mr a else [])"
    have mr: "gm_ok mr" "gm_ok inq" by (simp_all add: mr_def inq_def)
    have nil: "add_all SetInqueue [] r1 = r1" by (simp add: add_all_def)
    have step: "job_step groups q (n, job) r
        = add_all SetElastic (positiveResourceDiff a mr) (add_all SetInqueue inq r1)"
      using True Some
      by (simp add: job_step_def j r1_def [symmetric] group_of_def mr_def [symmetric] inq_def nil)
    have inq_at: "contribution groups job SetInqueue k = gm_get inq k"
      using Some at by (simp add: contribution_def inq_def mr_def gm_get_positiveResourceDiff)
    have el_at: "contribution groups job SetElastic k = gm_get (positiveResourceDiff a mr) k"
      using Some at by (simp add: contribution_def mr_def gm_get_positiveResourceDiff)
    have others: "contribution groups job SetCapacity k = None" "contribution groups job SetDeserved k = None"
      by (simp_all add: contribution_def)
    show ?thesis
      using True r1 mr by (cases s) (simp_all add: step snap_at_add_all inq_at el_at others)
  qed
qed (simp add: job_step_def)

lemma job_fold_at:
  "list_all (\<lambda>(n, job). job_ok job) jobs \<Longrightarrow>
   snap_at (fold (job_step groups q) jobs r) s k
     = fold (\<lambda>(n, job) acc. if cj_queue job = q then add_nz acc (contribution groups job s k) else acc)
         jobs (snap_at r s k)"
proof (induction jobs arbitrary: r)
  case (Cons e jobs)
  obtain n job where e: "e = (n, job)" by force
  with Cons.prems have "job_ok job" by simp
  with Cons.IH [of "job_step groups q e r"] Cons.prems show ?case
    by (simp add: e job_step_at)
qed simp

section \<open>Capability\<close>

lemma index_queues_fold:
  "fold (\<lambda>queue (qbn, tg). (gm_set (qu_name queue) queue qbn,
       addResourceValues tg (queueListValues (qu_guarantee queue)))) queues (m, t) = (m', t') \<Longrightarrow>
   gm_get t' k = fold (\<lambda>queue a. add_at a (gm_get (queueListValues (qu_guarantee queue)) k)) queues (gm_get t k)
   \<and> (gm_get m' n \<noteq> None \<longleftrightarrow> gm_get m n \<noteq> None \<or> n \<in> qu_name ` set queues)
   \<and> (\<forall>queue. gm_get m' n = Some queue \<longrightarrow> gm_get m n = Some queue \<or> (queue \<in> set queues \<and> qu_name queue = n))
   \<and> (gm_ok t \<longrightarrow> gm_ok t')"
proof (induction queues arbitrary: m t)
  case (Cons queue queues)
  then have "fold (\<lambda>queue (qbn, tg). (gm_set (qu_name queue) queue qbn,
       addResourceValues tg (queueListValues (qu_guarantee queue)))) queues
      (gm_set (qu_name queue) queue m, addResourceValues t (queueListValues (qu_guarantee queue))) = (m', t')"
    by simp
  from Cons.IH [OF this] show ?case by (auto simp: gm_get_addResourceValues split: if_splits)
qed simp

definition guarantees_at :: "string \<Rightarrow> queue list \<Rightarrow> f64 option" where
  "guarantees_at k queues =
     fold (\<lambda>queue a. add_at a (gm_get (queueListValues (qu_guarantee queue)) k)) queues None"

lemma index_queues_spec:
  assumes "index_queues queues = (m, t)"
  shows "gm_get t k = guarantees_at k queues" and "gm_ok t"
    and "gm_get m n = None \<longleftrightarrow> n \<notin> qu_name ` set queues"
    and "gm_get m n = Some queue \<Longrightarrow> queue \<in> set queues \<and> qu_name queue = n"
proof -
  note f = index_queues_fold [OF assms [unfolded index_queues_def], of k n]
  show "gm_get t k = guarantees_at k queues" "gm_ok t" using f by (simp_all add: guarantees_at_def)
  have "gm_get m n \<noteq> None \<longleftrightarrow> n \<in> qu_name ` set queues" using f by simp
  then show "gm_get m n = None \<longleftrightarrow> n \<notin> qu_name ` set queues" by blast
  show "gm_get m n = Some queue \<Longrightarrow> queue \<in> set queues \<and> qu_name queue = n" using f by simp
qed

definition nodes_total_at :: "string \<Rightarrow> cache_node gomap \<Rightarrow> f64 option" where
  "nodes_total_at k nodes = fold (\<lambda>(n, node) a. add_at a (gm_get (cn_allocatable node) k)) nodes None"

lemma totalNodeAllocatable_at:
  "list_all (\<lambda>(n, node). gm_ok (cn_allocatable node)) nodes \<Longrightarrow>
     gm_get (totalNodeAllocatable nodes) k = nodes_total_at k nodes \<and> gm_ok (totalNodeAllocatable nodes)"
proof -
  have "gm_get (fold (\<lambda>(n, node) r. addResourceValues r (cn_allocatable node)) nodes acc) k
      = fold (\<lambda>(n, node) a. add_at a (gm_get (cn_allocatable node) k)) nodes (gm_get acc k)
    \<and> (gm_ok acc \<longrightarrow> gm_ok (fold (\<lambda>(n, node) r. addResourceValues r (cn_allocatable node)) nodes acc))"
    if "list_all (\<lambda>(n, node). gm_ok (cn_allocatable node)) nodes" for nodes acc
    using that
  proof (induction nodes arbitrary: acc)
    case (Cons e nodes)
    then show ?case by (cases e) (simp add: gm_get_addResourceValues)
  qed simp
  from this [of nodes "[]"]
  show "list_all (\<lambda>(n, node). gm_ok (cn_allocatable node)) nodes \<Longrightarrow> ?thesis"
    by (simp add: totalNodeAllocatable_def nodes_total_at_def)
qed

definition capability_at :: "string \<Rightarrow> cache_node gomap \<Rightarrow> queue list \<Rightarrow> queue \<Rightarrow> f64 option" where
  "capability_at k nodes queues queue =
     min_at (add_at (sub_at (nodes_total_at k nodes) (guarantees_at k queues))
         (gm_get (queueListValues (qu_guarantee queue)) k))
       (gm_get (queueListValues (qu_capability queue)) k)"

lemma realCapability_at:
  assumes "list_all (\<lambda>(n, node). gm_ok (cn_allocatable node)) nodes" and "index_queues queues = (m, t)"
  shows "gm_get (realCapability nodes t queue) k = capability_at k nodes queues queue"
    and "gm_ok (realCapability nodes t queue)"
  using totalNodeAllocatable_at [OF assms(1)] index_queues_spec(1,2) [OF assms(2)]
  by (simp_all add: realCapability_def capability_at_def gm_get_minResourceValues
      gm_get_addResourceValues gm_get_subResourceValues)

lemma capability_fold_at:
  "gm_ok m \<Longrightarrow> snap_at (fold (\<lambda>(name, value) r. setResourceValue name SetCapacity value r) m r) s k
     = (if s = SetCapacity \<and> gm_get m k \<noteq> None then gm_get m k else snap_at r s k)"
proof (induction m arbitrary: r)
  case (Cons e m)
  obtain n v where e: "e = (n, v)" by force
  with Cons.prems have ok: "gm_ok m" and new: "gm_get m n = None"
    by (simp_all add: gm_ok_Cons gm_get_None_keys)
  from Cons.IH [OF ok, of "setResourceValue n SetCapacity v r"] new show ?case
    by (cases "k = n"; cases "gm_get m k") (simp_all add: e gm_get_Cons snap_at_set)
qed simp

section \<open>The snapshot\<close>

definition nodes_of :: "cache_dump \<Rightarrow> cache_node gomap" where
  "nodes_of dump = (case cu_nodes dump of None \<Rightarrow> [] | Some m \<Rightarrow> m)"

definition jobs_of :: "cache_dump \<Rightarrow> cache_job gomap" where
  "jobs_of dump = (case cu_jobs dump of None \<Rightarrow> [] | Some m \<Rightarrow> m)"

definition dump_ok :: "cache_dump \<Rightarrow> bool" where
  "dump_ok dump \<longleftrightarrow>
     list_all (\<lambda>(n, node). gm_ok (cn_allocatable node)) (nodes_of dump)
     \<and> list_all (\<lambda>(n, job). job_ok job) (jobs_of dump)"

lemma buildQueueSnapshot_error:
  "snd (buildQueueSnapshot dump queues groups q) \<noteq> None \<longleftrightarrow> q = '''' \<or> q \<notin> qu_name ` set queues"
proof -
  obtain m t where i: "index_queues queues = (m, t)" by force
  show ?thesis
    using index_queues_spec(3) [OF i, of q]
    by (auto simp: buildQueueSnapshot_def i Let_def split: option.splits)
qed

lemma buildQueueSnapshot_resources:
  assumes "snd (buildQueueSnapshot dump queues groups q) = None" and ok: "dump_ok dump"
  obtains queue where "queue \<in> set queues" and "qu_name queue = q"
    and "\<And>s k. snap_at (qs_resources (fst (buildQueueSnapshot dump queues groups q))) s k =
      fold (\<lambda>(n, job) acc. if cj_queue job = q
          then add_nz acc (contribution (index_groups groups) job s k) else acc) (jobs_of dump)
        (if s = SetCapacity then capability_at k (nodes_of dump) queues queue else None)"
proof -
  obtain m t where i: "index_queues queues = (m, t)" by force
  from assms(1) have q: "q \<noteq> ''''" "gm_get m q \<noteq> None"
    using buildQueueSnapshot_error [of dump queues groups q] index_queues_spec(3) [OF i, of q] by auto
  then obtain queue where queue: "gm_get m q = Some queue" by blast
  let ?cap = "realCapability (nodes_of dump) t queue"
  have nodes: "list_all (\<lambda>(n, node). gm_ok (cn_allocatable node)) (nodes_of dump)"
    and jobs: "list_all (\<lambda>(n, job). job_ok job) (jobs_of dump)" using ok by (simp_all add: dump_ok_def)
  note cap = realCapability_at [OF nodes i, of queue]
  have r: "qs_resources (fst (buildQueueSnapshot dump queues groups q))
      = fold (job_step (index_groups groups) q) (jobs_of dump)
          (fold (\<lambda>(name, value) r. setResourceValue name SetCapacity value r) ?cap [])"
    using q queue by (simp add: buildQueueSnapshot_def i Let_def nodes_of_def jobs_of_def)
  have "snap_at (fold (\<lambda>(name, value) r. setResourceValue name SetCapacity value r) ?cap []) s k
      = (if s = SetCapacity then capability_at k (nodes_of dump) queues queue else None)" for s k
    using cap by (simp add: capability_fold_at)
  then have "snap_at (qs_resources (fst (buildQueueSnapshot dump queues groups q))) s k =
      fold (\<lambda>(n, job) acc. if cj_queue job = q
          then add_nz acc (contribution (index_groups groups) job s k) else acc) (jobs_of dump)
        (if s = SetCapacity then capability_at k (nodes_of dump) queues queue else None)" for s k
    unfolding r job_fold_at [OF jobs] by simp
  then show thesis using index_queues_spec(4) [OF i queue] by (intro that) blast+
qed

text \<open>Nothing but the capability is set before the jobs, and no job sets it.\<close>

lemma contribution_capacity [simp]: "contribution groups job SetCapacity k = None"
  by (simp add: contribution_def)

lemma fold_jobs_same:
  "fold (\<lambda>(n, job) acc. if cj_queue job = q
     then add_nz acc (contribution groups job SetCapacity k) else acc) jobs a = a"
  by (induction jobs) auto

lemma add_nz_int: "is_int d a \<Longrightarrow> is_int s b \<Longrightarrow> \<bar>a + b\<bar> \<le> 2 ^ 53 \<Longrightarrow> is_int (add_nz d s) (a + b)"
proof (cases s)
  case (Some v)
  assume a: "is_int d a" "is_int s b" "\<bar>a + b\<bar> \<le> 2 ^ 53"
  with Some have v: "v = Fin (of_int b)" by (simp add: is_int_def)
  show ?thesis
  proof (cases "b = 0")
    case True
    with Some v a show ?thesis by (simp add: add_nz_def)
  next
    case False
    with Some v have "add_nz d s = add_at d s" by (simp add: add_nz_def add_at_def)
    with a show ?thesis using add_at_int by simp
  qed
qed (auto simp: is_int_def)

lemma jobs_int:
  assumes "\<forall>(n, job) \<in> set jobs. is_int (f job) (c job) \<and> 0 \<le> c job"
    and "is_int acc a" and "0 \<le> a"
    and "a + sum_list (map (\<lambda>(n, job). if cj_queue job = q then c job else 0) jobs) \<le> 2 ^ 53"
  shows "is_int (fold (\<lambda>(n, job) acc. if cj_queue job = q then add_nz acc (f job) else acc) jobs acc)
    (a + sum_list (map (\<lambda>(n, job). if cj_queue job = q then c job else 0) jobs))"
  using assms
proof (induction jobs arbitrary: acc a)
  case (Cons e jobs)
  obtain n job where e: "e = (n, job)" by force
  let ?rest = "sum_list (map (\<lambda>(n, job). if cj_queue job = q then c job else 0) jobs)"
  have rest: "0 \<le> ?rest" using Cons.prems(1) by (intro sum_list_nonneg) (auto simp: e)
  show ?case
  proof (cases "cj_queue job = q")
    case True
    with Cons.prems e rest have "is_int (add_nz acc (f job)) (a + c job)" by (intro add_nz_int) auto
    from Cons.IH [OF _ this] Cons.prems True e show ?thesis by (simp add: algebra_simps)
  next
    case False
    with Cons.IH [OF _ Cons.prems(2,3)] Cons.prems(1,4) e show ?thesis by simp
  qed
qed simp

lemma tasks_int:
  assumes "\<forall>t \<in> set ts. is_int (gm_get (tk_resreq t) k) (amt t) \<and> 0 \<le> amt t"
    and "is_int acc a" and "0 \<le> a" and "a + sum_list (map amt (filter P ts)) \<le> 2 ^ 53"
  shows "is_int (fold (\<lambda>t a. add_at a (gm_get (tk_resreq t) k)) (filter P ts) acc)
    (a + sum_list (map amt (filter P ts)))"
  using assms
proof (induction ts arbitrary: acc a)
  case (Cons t ts)
  have rest: "0 \<le> sum_list (map amt (filter P ts))" using Cons.prems(1) by (intro sum_list_nonneg) auto
  show ?case
  proof (cases "P t")
    case True
    with Cons.prems rest have "is_int (add_at acc (gm_get (tk_resreq t) k)) (a + amt t)"
      by (intro add_at_int) auto
    from Cons.IH [OF _ this] Cons.prems True show ?thesis by (simp add: algebra_simps)
  next
    case False
    with Cons.IH [OF _ Cons.prems(2,3)] Cons.prems(1,4) show ?thesis by simp
  qed
qed simp

lemma diff_at_int:
  "is_int l a \<Longrightarrow> is_int r b \<Longrightarrow> \<bar>a - b\<bar> \<le> 2 ^ 53 \<Longrightarrow> is_int (diff_at l r) (max 0 (a - b))"
  using f_sub_of_int [of a b] by (auto simp: is_int_def diff_at_def Let_def max_def)

lemma populate_fold_at:
  "gm_ok m \<Longrightarrow> snap_at (fold (\<lambda>(name, x) r. setResourceValue name SetDeserved (f name x) r) m r) s k =
     (if s = SetDeserved \<and> gm_get m k \<noteq> None then map_option (f k) (gm_get m k) else snap_at r s k)"
proof (induction m arbitrary: r)
  case (Cons e m)
  obtain n x where e: "e = (n, x)" by force
  with Cons.prems have ok: "gm_ok m" and new: "gm_get m n = None"
    by (simp_all add: gm_ok_Cons gm_get_None_keys)
  from Cons.IH [OF ok, of "setResourceValue n SetDeserved (f n x) r"] new show ?case
    by (cases "k = n"; cases "gm_get m k") (simp_all add: e gm_get_Cons snap_at_set)
qed simp

lemma gm_ok_addResourceValue: "gm_ok r \<Longrightarrow> gm_ok (addResourceValue n s v r)"
  by (simp add: addResourceValue_def Let_def)

lemma gm_ok_add_all: "gm_ok r \<Longrightarrow> gm_ok (add_all s m r)"
  unfolding add_all_def
proof (induction m arbitrary: r)
  case (Cons e m)
  then show ?case by (cases e) (simp add: gm_ok_addResourceValue)
qed simp

lemma gm_ok_job_step: "gm_ok r \<Longrightarrow> gm_ok (job_step groups q e r)"
  by (cases e; cases "jobTaskResources (snd e)")
    (auto simp: job_step_def Let_def gm_ok_add_all split: option.split)

lemma gm_ok_capability:
  "gm_ok r \<Longrightarrow> gm_ok (fold (\<lambda>(name, value) r. setResourceValue name SetCapacity value r) m r)"
proof (induction m arbitrary: r)
  case (Cons e m)
  then show ?case by (cases e) (simp add: setResourceValue_def)
qed simp

lemma gm_ok_jobs: "gm_ok r \<Longrightarrow> gm_ok (fold (job_step groups q) jobs r)"
  by (induction jobs arbitrary: r) (simp_all add: gm_ok_job_step)

lemma gm_ok_build: "gm_ok (qs_resources (fst (buildQueueSnapshot dump queues groups q)))"
  by (auto simp: buildQueueSnapshot_def newQueueSnapshot_def Let_def gm_ok_jobs gm_ok_capability
      split: prod.split option.split)

lemma BuildQueueSnapshot_snd [simp]:
  "snd (BuildQueueSnapshot dump queues groups q strategy) = snd (buildQueueSnapshot dump queues groups q)"
  by (simp add: BuildQueueSnapshot_def Let_def split: prod.split option.split)

lemma BuildQueueSnapshot_at:
  assumes "s \<noteq> SetDeserved"
  shows "snap_at (qs_resources (fst (BuildQueueSnapshot dump queues groups q strategy))) s k
    = snap_at (qs_resources (fst (buildQueueSnapshot dump queues groups q))) s k"
proof -
  obtain r e where b: "buildQueueSnapshot dump queues groups q = (r, e)" by force
  then have ok: "gm_ok (qs_resources r)" using gm_ok_build [of dump queues groups q] by simp
  have "snap_at (qs_resources (populateCapacityDeserved queues q (r\<lparr>qs_strategy := st\<rparr>))) s k
      = snap_at (qs_resources r) s k" for st
    using assms ok by (simp add: populateCapacityDeserved_def populate_fold_at split: option.split)
  then show ?thesis by (simp add: BuildQueueSnapshot_def b Let_def split: option.split)
qed

section \<open>Properties\<close>

text \<open>A snapshot is an error exactly when no queue name is given or no queue of that name is known,
  whatever the strategy; the strategy is recorded in either case.\<close>

theorem snapshot_error:
  "(snd (BuildQueueSnapshot dump queues groups q strategy) \<noteq> None) = (q = '''' \<or> q \<notin> qu_name ` set queues)
   \<and> qs_strategy (fst (BuildQueueSnapshot dump queues groups q strategy)) = strategy"
  unfolding BuildQueueSnapshot_snd buildQueueSnapshot_error
  by (simp add: BuildQueueSnapshot_def populateCapacityDeserved_def Let_def split: prod.split option.split)

theorem snapshot_error_witness:
  "snd (BuildQueueSnapshot empty_cache_dump [] [] ''default'' ''capacity'') \<noteq> None"
  using snapshot_error [of empty_cache_dump "[]" "[]" "''default''" "''capacity''"] by simp

definition queue_sum :: "(cache_task \<Rightarrow> bool) \<Rightarrow> (cache_task \<Rightarrow> int) \<Rightarrow> string \<Rightarrow> cache_job gomap \<Rightarrow> int" where
  "queue_sum P amt q jobs =
     sum_list (map (\<lambda>(n, job). if cj_queue job = q then sum_list (map amt (filter P (cj_tasks job))) else 0) jobs)"

lemma tasks_at_int:
  assumes "\<forall>t \<in> set ts. is_int (gm_get (tk_resreq t) k) (amt t) \<and> 0 \<le> amt t"
    and "sum_list (map amt ts) \<le> 2 ^ 53"
  shows "is_int (tasks_at P k ts) (sum_list (map amt (filter P ts))) \<and> 0 \<le> sum_list (map amt (filter P ts))"
proof -
  have "sum_list (map amt (filter P ts)) \<le> sum_list (map amt ts)"
    using assms(1) by (induction ts) auto
  moreover have "0 \<le> sum_list (map amt (filter P ts))" using assms(1) by (intro sum_list_nonneg) auto
  ultimately show ?thesis
    using tasks_int [OF assms(1), of None 0 P] assms(2) by (simp add: tasks_at_def is_int_def)
qed

lemma sum_counted_le:
  "\<forall>t \<in> set ts. 0 \<le> amt t \<Longrightarrow>
     sum_list (map amt (filter counted ts)) \<le> (sum_list (map amt (filter requested ts)) :: int)"
  by (induction ts) (auto simp: requested_def)

lemma queue_entry_int:
  assumes ok: "dump_ok dump" and found: "snd (BuildQueueSnapshot dump queues groups q strategy) = None"
    and s: "s \<noteq> SetCapacity" "s \<noteq> SetDeserved"
    and c: "\<forall>(n, job) \<in> set (jobs_of dump). is_int (contribution (index_groups groups) job s k) (c job) \<and> 0 \<le> c job"
    and total: "sum_list (map (\<lambda>(n, job). if cj_queue job = q then c job else 0) (jobs_of dump)) \<le> 2 ^ 53"
  shows "is_int (snap_at (qs_resources (fst (BuildQueueSnapshot dump queues groups q strategy))) s k)
    (sum_list (map (\<lambda>(n, job). if cj_queue job = q then c job else 0) (jobs_of dump)))"
proof -
  have f: "snd (buildQueueSnapshot dump queues groups q) = None" using found by simp
  have "snap_at (qs_resources (fst (BuildQueueSnapshot dump queues groups q strategy))) s k =
      fold (\<lambda>(n, job) acc. if cj_queue job = q
          then add_nz acc (contribution (index_groups groups) job s k) else acc) (jobs_of dump) None"
    by (rule buildQueueSnapshot_resources [OF f ok])
      (simp only: BuildQueueSnapshot_at [OF s(2)] if_not_P [OF s(1)])
  moreover have "is_int None 0" by (simp add: is_int_def)
  ultimately show ?thesis using jobs_int [OF c, of None 0 q] total by (simp only: add_0 order_refl)
qed

text \<open>C37: For whole task requests, the allocated and requested amounts of the queue are exactly the sums
  over its jobs of the requests of their allocated tasks, and of their allocated and pending
  tasks, while the requested sum stays within 2 to the 53.\<close>

theorem queue_sums_exact:
  assumes ok: "dump_ok dump" and found: "snd (BuildQueueSnapshot dump queues groups q strategy) = None"
    and amt: "\<forall>(n, job) \<in> set (jobs_of dump). \<forall>t \<in> set (cj_tasks job).
      is_int (gm_get (tk_resreq t) k) (amt t) \<and> 0 \<le> amt t"
    and bound: "\<forall>(n, job) \<in> set (jobs_of dump). sum_list (map amt (cj_tasks job)) \<le> 2 ^ 53"
    and total: "queue_sum requested amt q (jobs_of dump) \<le> 2 ^ 53"
  shows "is_int (snap_at (qs_resources (fst (BuildQueueSnapshot dump queues groups q strategy))) SetAllocated k)
      (queue_sum counted amt q (jobs_of dump))
    \<and> is_int (snap_at (qs_resources (fst (BuildQueueSnapshot dump queues groups q strategy))) SetRequest k)
      (queue_sum requested amt q (jobs_of dump))"
proof -
  have job: "is_int (tasks_at P k (cj_tasks job)) (sum_list (map amt (filter P (cj_tasks job))))
      \<and> 0 \<le> sum_list (map amt (filter P (cj_tasks job)))" if "(n, job) \<in> set (jobs_of dump)" for n job P
    using tasks_at_int [of "cj_tasks job" k amt P] amt bound that by fastforce
  have le: "queue_sum counted amt q (jobs_of dump) \<le> queue_sum requested amt q (jobs_of dump)"
    unfolding queue_sum_def
  proof (rule sum_list_mono, clarify)
    fix n job
    assume "(n, job) \<in> set (jobs_of dump)"
    with amt have "\<forall>t \<in> set (cj_tasks job). 0 \<le> amt t" by fastforce
    then have "sum_list (map amt (filter counted (cj_tasks job))) \<le> sum_list (map amt (filter requested (cj_tasks job)))"
      by (rule sum_counted_le)
    then show "(if cj_queue job = q then sum_list (map amt (filter counted (cj_tasks job))) else 0)
        \<le> (if cj_queue job = q then sum_list (map amt (filter requested (cj_tasks job))) else 0)" by simp
  qed
  have "is_int (snap_at (qs_resources (fst (BuildQueueSnapshot dump queues groups q strategy))) SetAllocated k)
      (queue_sum counted amt q (jobs_of dump))"
    unfolding queue_sum_def
    by (rule queue_entry_int [OF ok found]) (use job le total in \<open>auto simp: contribution_def queue_sum_def\<close>)
  moreover have "is_int (snap_at (qs_resources (fst (BuildQueueSnapshot dump queues groups q strategy))) SetRequest k)
      (queue_sum requested amt q (jobs_of dump))"
    unfolding queue_sum_def
    by (rule queue_entry_int [OF ok found]) (use job total in \<open>auto simp: contribution_def queue_sum_def\<close>)
  ultimately show ?thesis ..
qed

definition sample_task :: "string \<Rightarrow> int \<Rightarrow> cache_task" where
  "sample_task status n = \<lparr>tk_uid = '''', tk_namespace = ''ns'', tk_name = '''', tk_job = '''',
     tk_status = status, tk_resreq = [(''memory'', Fin (of_int n))]\<rparr>"

definition sample_node :: "string \<Rightarrow> rat \<Rightarrow> cache_node" where
  "sample_node k n = empty_cache_node\<lparr>cn_allocatable := [(k, Fin n)]\<rparr>"

definition sample_dump :: cache_dump where
  "sample_dump = empty_cache_dump\<lparr>cu_nodes := Some [(''n1'', sample_node ''memory'' 16)],
     cu_jobs := Some [(''j1'', \<lparr>cj_uid = '''', cj_namespace = ''ns'', cj_name = ''job'', cj_queue = ''default'',
       cj_min_available = 0, cj_tasks = [sample_task ''Running'' 5, sample_task ''Pending'' 3]\<rparr>)]\<rparr>"

definition sample_amount :: "cache_task \<Rightarrow> int" where
  "sample_amount t = (if t = sample_task ''Running'' 5 then 5 else 3)"

lemmas sample_snapshot_defs = sample_dump_def sample_task_def sample_node_def empty_cache_dump_def
  empty_cache_node_def dump_ok_def nodes_of_def jobs_of_def job_ok_def gm_ok_def gm_get_def is_int_def
  sample_amount_def queue_sum_def counted_def requested_def allocatedTaskStatuses_def

theorem queue_sums_exact_witness:
  "is_int (snap_at (qs_resources (fst (BuildQueueSnapshot sample_dump
      [empty_queue\<lparr>qu_name := ''default''\<rparr>] [] ''default'' ''proportion''))) SetRequest ''memory'') 8"
proof -
  have "queue_sum requested sample_amount ''default'' (jobs_of sample_dump) = 8"
    by (simp add: sample_snapshot_defs)
  moreover have "snd (BuildQueueSnapshot sample_dump [empty_queue\<lparr>qu_name := ''default''\<rparr>] []
      ''default'' ''proportion'') = None"
    using buildQueueSnapshot_error [of sample_dump "[empty_queue\<lparr>qu_name := ''default''\<rparr>]" "[]" "''default''"]
    by simp
  ultimately show ?thesis
    using queue_sums_exact [of sample_dump "[empty_queue\<lparr>qu_name := ''default''\<rparr>]" "[]" "''default''"
        "''proportion''" "''memory''" sample_amount]
    by (simp add: sample_snapshot_defs)
qed

lemma nodes_int:
  assumes "\<forall>(n, node) \<in> set nodes. is_int (gm_get (cn_allocatable node) k) (na node) \<and> 0 \<le> na node"
    and "is_int acc a" and "0 \<le> a" and "a + sum_list (map (\<lambda>e. na (snd e)) nodes) \<le> 2 ^ 53"
  shows "is_int (fold (\<lambda>(n, node) a. add_at a (gm_get (cn_allocatable node) k)) nodes acc)
    (a + sum_list (map (\<lambda>e. na (snd e)) nodes))"
  using assms
proof (induction nodes arbitrary: acc a)
  case (Cons e nodes)
  obtain n node where e: "e = (n, node)" by force
  have "0 \<le> sum_list (map (\<lambda>e. na (snd e)) nodes)" using Cons.prems(1) by (intro sum_list_nonneg) auto
  with Cons.prems e have "is_int (add_at acc (gm_get (cn_allocatable node) k)) (a + na node)"
    by (intro add_at_int) auto
  from Cons.IH [OF _ this] Cons.prems e show ?case by (simp add: algebra_simps)
qed simp

lemma guarantees_int:
  assumes "\<forall>queue \<in> set queues. is_int (gm_get (queueListValues (qu_guarantee queue)) k) (ga queue) \<and> 0 \<le> ga queue"
    and "is_int acc a" and "0 \<le> a" and "a + sum_list (map ga queues) \<le> 2 ^ 53"
  shows "is_int (fold (\<lambda>queue a. add_at a (gm_get (queueListValues (qu_guarantee queue)) k)) queues acc)
    (a + sum_list (map ga queues))"
  using assms
proof (induction queues arbitrary: acc a)
  case (Cons queue queues)
  have "0 \<le> sum_list (map ga queues)" using Cons.prems(1) by (intro sum_list_nonneg) auto
  with Cons.prems have "is_int (add_at acc (gm_get (queueListValues (qu_guarantee queue)) k)) (a + ga queue)"
    by (intro add_at_int) auto
  from Cons.IH [OF _ this] Cons.prems show ?case by (simp add: algebra_simps)
qed simp

lemma nodes_total_present:
  "list_ex (\<lambda>(n, node). gm_has (cn_allocatable node) k) nodes \<or> acc \<noteq> None \<Longrightarrow>
     fold (\<lambda>(n, node) a. add_at a (gm_get (cn_allocatable node) k)) nodes acc \<noteq> None"
  by (induction nodes arbitrary: acc) (auto simp: add_at_def gm_has_def split: option.splits)

text \<open>For whole amounts, the real capability of a queue for a resource that some node has is exactly
  the total of the nodes less the guarantees of all queues plus the queue's own, cut to the
  queue's limit if it has one.\<close>

theorem capability_exact:
  assumes ok: "dump_ok dump" and found: "snd (BuildQueueSnapshot dump queues groups q strategy) = None"
    and queue: "queue \<in> set queues" "qu_name queue = q" "distinct (map qu_name queues)"
    and present: "list_ex (\<lambda>(n, node). gm_has (cn_allocatable node) k) (nodes_of dump)"
    and na: "\<forall>(n, node) \<in> set (nodes_of dump). is_int (gm_get (cn_allocatable node) k) (na node) \<and> 0 \<le> na node"
    and ga: "\<forall>queue \<in> set queues. is_int (gm_get (queueListValues (qu_guarantee queue)) k) (ga queue) \<and> 0 \<le> ga queue"
    and bound: "sum_list (map (\<lambda>e. na (snd e)) (nodes_of dump)) \<le> 2 ^ 53" "sum_list (map ga queues) \<le> 2 ^ 53"
    and limit: "gm_get (queueListValues (qu_capability queue)) k = map_option (\<lambda>l. Fin (of_int l)) lm"
  shows "is_int (snap_at (qs_resources (fst (BuildQueueSnapshot dump queues groups q strategy))) SetCapacity k)
    (let share = sum_list (map (\<lambda>e. na (snd e)) (nodes_of dump)) - sum_list (map ga queues) + ga queue
     in case lm of None \<Rightarrow> share | Some l \<Rightarrow> min share l)"
proof -
  define T where "T = sum_list (map (\<lambda>e. na (snd e)) (nodes_of dump))"
  define G where "G = sum_list (map ga queues)"
  have zero: "is_int None 0" by (simp add: is_int_def)
  have T: "is_int (nodes_total_at k (nodes_of dump)) T" "0 \<le> T"
    using nodes_int [OF na zero] bound na by (fastforce simp: nodes_total_at_def T_def intro!: sum_list_nonneg)+
  have G: "is_int (guarantees_at k queues) G"
    using guarantees_int [OF ga zero] bound by (auto simp: guarantees_at_def G_def)
  have own: "is_int (gm_get (queueListValues (qu_guarantee queue)) k) (ga queue)" "0 \<le> ga queue" "ga queue \<le> G"
    using ga queue(1) member_le_sum_list [of "ga queue" "map ga queues"] by (auto simp: G_def)
  have TG: "is_int (sub_at (nodes_total_at k (nodes_of dump)) (guarantees_at k queues)) (T - G)"
    using T G own bound by (intro sub_at_int) (auto simp: T_def [symmetric] G_def [symmetric])
  let ?share = "add_at (sub_at (nodes_total_at k (nodes_of dump)) (guarantees_at k queues))
    (gm_get (queueListValues (qu_guarantee queue)) k)"
  have share: "is_int ?share (T - G + ga queue)"
    using TG own T bound by (intro add_at_int) (auto simp: T_def [symmetric] G_def [symmetric])
  have "nodes_total_at k (nodes_of dump) \<noteq> None"
    unfolding nodes_total_at_def by (rule nodes_total_present) (use present in simp)
  then have "?share \<noteq> None" by (auto simp: add_at_def sub_at_def split: option.splits)
  then have cap: "is_int (capability_at k (nodes_of dump) queues queue)
      (case lm of None \<Rightarrow> T - G + ga queue | Some l \<Rightarrow> min (T - G + ga queue) l)"
    using share limit min_at_int [OF share, of "Fin (of_int (the lm))" "the lm"]
    by (cases lm) (auto simp: capability_at_def min_at_def is_int_def)
  have f: "snd (buildQueueSnapshot dump queues groups q) = None" using found by simp
  have "snap_at (qs_resources (fst (BuildQueueSnapshot dump queues groups q strategy))) SetCapacity k
      = capability_at k (nodes_of dump) queues queue"
  proof (rule buildQueueSnapshot_resources [OF f ok])
    fix queue'
    assume q': "queue' \<in> set queues" "qu_name queue' = q"
    with queue have "queue' = queue" by (auto simp: distinct_map inj_on_def)
    moreover assume "\<And>s k. snap_at (qs_resources (fst (buildQueueSnapshot dump queues groups q))) s k =
      fold (\<lambda>(n, job) acc. if cj_queue job = q
          then add_nz acc (contribution (index_groups groups) job s k) else acc) (jobs_of dump)
        (if s = SetCapacity then capability_at k (nodes_of dump) queues queue' else None)"
    ultimately show ?thesis by (simp add: BuildQueueSnapshot_at fold_jobs_same)
  qed
  with cap show ?thesis by (simp only: T_def [symmetric] G_def [symmetric] Let_def)
qed

theorem capability_exact_witness:
  "is_int (snap_at (qs_resources (fst (BuildQueueSnapshot sample_dump
      [empty_queue\<lparr>qu_name := ''default''\<rparr>, empty_queue\<lparr>qu_name := ''other''\<rparr>] [] ''default'' ''capacity'')))
     SetCapacity ''memory'') 16"
proof -
  let ?qs = "[empty_queue\<lparr>qu_name := ''default''\<rparr>, empty_queue\<lparr>qu_name := ''other''\<rparr>]"
  have nil: "queueListValues [] = []" by (simp add: queueListValues_def)
  have "snd (BuildQueueSnapshot sample_dump ?qs [] ''default'' ''capacity'') = None"
    using buildQueueSnapshot_error [of sample_dump ?qs "[]" "''default''"] by simp
  then show ?thesis
    using capability_exact [of sample_dump ?qs "[]" "''default''" "''capacity''"
        "empty_queue\<lparr>qu_name := ''default''\<rparr>" "''memory''" "\<lambda>_. 16" "\<lambda>_. 0" None]
    by (simp add: sample_snapshot_defs empty_queue_def nil gm_has_def)
qed

lemma f_min_le:
  "d \<noteq> NaN \<Longrightarrow> c \<noteq> NaN \<Longrightarrow> (if f_lt c d then c else d) \<noteq> NaN
    \<and> f_le (if f_lt c d then c else d) d \<and> f_le (if f_lt c d then c else d) c"
  by (auto simp: f_not_lt) (simp add: f_le_def)

text \<open>The deserved share the snapshot reports is at least the queue's guarantee, and it is either
  the guarantee or within the configured share, the capability and the request.\<close>

theorem deserved_bounds:
  assumes "gm_or f_zero deserved n \<noteq> NaN" and "gm_or f_zero guarantee n \<noteq> NaN"
    and "qr_capability r \<noteq> Some NaN" and "qr_request r \<noteq> Some NaN"
  shows "f_le (gm_or f_zero guarantee n) (deserved_value deserved guarantee n r)
    \<and> (deserved_value deserved guarantee n r = gm_or f_zero guarantee n
       \<or> f_le (deserved_value deserved guarantee n r) (gm_or f_zero deserved n)
         \<and> (case qr_capability r of None \<Rightarrow> True | Some c \<Rightarrow> f_le (deserved_value deserved guarantee n r) c)
         \<and> (case qr_request r of None \<Rightarrow> True | Some q \<Rightarrow> f_le (deserved_value deserved guarantee n r) q))"
proof -
  define d where "d = gm_or f_zero deserved n"
  define g where "g = gm_or f_zero guarantee n"
  define v1 where "v1 = (case qr_capability r of Some c \<Rightarrow> if f_lt c d then c else d | None \<Rightarrow> d)"
  define v2 where "v2 = (case qr_request r of Some q \<Rightarrow> if f_lt q v1 then q else v1 | None \<Rightarrow> v1)"
  have v1: "v1 \<noteq> NaN" "f_le v1 d" "case qr_capability r of None \<Rightarrow> True | Some c \<Rightarrow> f_le v1 c"
    using assms(1,3) f_min_le [of d] by (cases "qr_capability r"; auto simp: v1_def d_def)+
  have v2: "v2 \<noteq> NaN" "f_le v2 v1" "case qr_request r of None \<Rightarrow> True | Some q \<Rightarrow> f_le v2 q"
    using v1(1) assms(4) f_min_le [of v1] by (cases "qr_request r"; auto simp: v2_def)+
  have val: "deserved_value deserved guarantee n r = (if f_lt v2 g then g else v2)"
    unfolding deserved_value_def Let_def d_def [symmetric] g_def [symmetric] v1_def [symmetric]
      v2_def [symmetric] ..
  show ?thesis
  proof (cases "f_lt v2 g")
    case True
    with val assms(2) show ?thesis by (simp add: g_def)
  next
    case False
    with v2(1) assms(2) have "f_le g v2" by (simp add: f_not_lt g_def)
    moreover have "f_le v2 d" using v1 v2 f_le_trans by blast
    moreover have "case qr_capability r of None \<Rightarrow> True | Some c \<Rightarrow> f_le v2 c"
      using v1(3) v2(2) f_le_trans by (auto split: option.splits)
    moreover have v: "deserved_value deserved guarantee n r = v2" using False val by simp
    ultimately show ?thesis using v2(3) unfolding v g_def d_def by blast
  qed
qed

theorem deserved_bounds_witness:
  "f_le (Fin 4) (deserved_value [(''cpu'', Fin 9)] [(''cpu'', Fin 4)] ''cpu''
     (empty_snapshot_resource\<lparr>qr_capability := Some (Fin 6)\<rparr>))"
  using deserved_bounds [of "[(''cpu'', Fin 9)]" "''cpu''" "[(''cpu'', Fin 4)]"
      "empty_snapshot_resource\<lparr>qr_capability := Some (Fin 6)\<rparr>"]
  by (simp add: gm_or_def gm_get_def empty_snapshot_resource_def)

text \<open>A quota given both as a plain name and as a \<open>requests.\<close> name is read from the latter, in
  whichever order the map is iterated.\<close>

theorem quota_prefers_requests:
  assumes "quota_entries k l = [(p, x), (r, y)] \<or> quota_entries k l = [(r, y), (p, x)]"
    and "is_request_name r" and "\<not> is_request_name p"
  shows "gm_get (queueListValues l) k = Some (queue_quantity k y)"
proof -
  have "(p, x) \<in> set (quota_entries k l)" "(r, y) \<in> set (quota_entries k l)" using assms(1) by auto
  then have "canonicalQueueResourceName p = k" "canonicalQueueResourceName r = k"
    by (simp_all add: quota_entries_def)
  with assms show ?thesis
    unfolding gm_get_queueListValues quota_fold_entries [of k l] by (auto simp: quota_step_eq)
qed

theorem quota_prefers_requests_witness:
  "gm_get (queueListValues [(''cpu'', \<lparr>q_value = 2, q_milli = 2000, q_is_zero = False\<rparr>),
      (''requests.cpu'', \<lparr>q_value = 1, q_milli = 1000, q_is_zero = False\<rparr>)]) ''cpu''
    = Some (queue_quantity ''cpu'' \<lparr>q_value = 1, q_milli = 1000, q_is_zero = False\<rparr>)"
proof (rule quota_prefers_requests)
  let ?l = "[(''cpu'', \<lparr>q_value = 2, q_milli = 2000, q_is_zero = False\<rparr>),
      (''requests.cpu'', \<lparr>q_value = 1, q_milli = 1000, q_is_zero = False\<rparr>)]"
  have "canonicalQueueResourceName ''cpu'' = ''cpu''" by code_simp
  moreover have "canonicalQueueResourceName ''requests.cpu'' = ''cpu''" by code_simp
  ultimately show "quota_entries ''cpu'' ?l = [(''cpu'', \<lparr>q_value = 2, q_milli = 2000, q_is_zero = False\<rparr>),
      (''requests.cpu'', \<lparr>q_value = 1, q_milli = 1000, q_is_zero = False\<rparr>)]
    \<or> quota_entries ''cpu'' ?l = [(''requests.cpu'', \<lparr>q_value = 1, q_milli = 1000, q_is_zero = False\<rparr>),
      (''cpu'', \<lparr>q_value = 2, q_milli = 2000, q_is_zero = False\<rparr>)]"
    by (simp add: quota_entries_def)
  show "is_request_name ''requests.cpu''" by code_simp
  show "\<not> is_request_name ''cpu''" by code_simp
qed

definition three_nodes :: "cache_node gomap" where
  "three_nodes = [(''a'', sample_node ''cpu'' (f_val (f_div_const (f_of_int 100) 1000))),
     (''b'', sample_node ''cpu'' (f_val (f_div_const (f_of_int 200) 1000))),
     (''c'', sample_node ''cpu'' (f_val (f_div_const (f_of_int 300) 1000)))]"

text \<open>With fractional CPU amounts the capability depends on the iteration order of the node map: for
  nodes of 100, 200 and 300 millicores, one order and its reverse give different totals.\<close>

theorem capability_depends_on_order:
  "gm_eq three_nodes (rev three_nodes)
   \<and> gm_get (totalNodeAllocatable three_nodes) ''cpu''
     \<noteq> gm_get (totalNodeAllocatable (rev three_nodes)) ''cpu''"
proof
  have "gm_ok three_nodes" by (simp add: three_nodes_def gm_ok_def)
  moreover from this have "gm_ok (rev three_nodes)" by (simp add: gm_ok_def rev_map [symmetric])
  ultimately show "gm_eq three_nodes (rev three_nodes)" by (simp add: gm_eq_set)
  show "gm_get (totalNodeAllocatable three_nodes) ''cpu''
     \<noteq> gm_get (totalNodeAllocatable (rev three_nodes)) ''cpu''" by code_simp
qed

end
