(* ===== verification/Analyzer.thy ===== *)
theory Analyzer
  imports Fallback Enqueue Validate Filter_Stage Queue_Snapshot
begin

text \<open>
  Files \<open>internal/agent/rules.go\<close> and \<open>analyzer.go\<close>: the state shared by the rules, the four rules in
  registration order, the loop that runs them and the end of an analysis. The reads of the cluster
  are a record of functions (\<open>cluster_api\<close>); the cache capture may answer differently each time, so it
  gets the number of captures made before. Every rule keeps the contract of the locale \<open>rule\<close>: checks
  are only added, all well formed. Facts: the order and the short-circuits of the pipeline, that the
  cache is captured at most once unless a capture returned nothing, and that no analysis ever reports
  a Pod as passed.
\<close>

section \<open>The environment\<close>

record cluster_api =
  cl_pod :: "string \<Rightarrow> string \<Rightarrow> go_error + pod"
  cl_scheduler :: "scheduler \<times> go_error option"
  cl_configuration :: "scheduler \<Rightarrow> runtime_config \<times> go_error option"
  cl_pod_group :: "string \<Rightarrow> string \<Rightarrow> pod_group \<times> go_error option"
  cl_group_pods :: "string \<Rightarrow> string \<Rightarrow> pod list \<times> go_error option"
  cl_queue :: "string \<Rightarrow> queue \<times> go_error option"
  cl_pod_events :: "string \<Rightarrow> string \<Rightarrow> event list \<times> go_error option"
  cl_group_events :: "string \<Rightarrow> string \<Rightarrow> string \<Rightarrow> event list \<times> go_error option"
  cl_queue_groups :: "string \<Rightarrow> string \<Rightarrow> pod_group list \<times> go_error option"
  cl_queues :: "queue list \<times> go_error option"
  cl_capture :: "nat \<Rightarrow> cache_dump \<times> go_error option"
  cl_nodes :: "node list \<times> go_error option"
  cl_tolerates :: "toleration \<Rightarrow> taint \<Rightarrow> bool"

record rule_state =
  rs_report :: report
  rs_pod_group_name :: string
  rs_pod_group_err :: "go_error option"
  rs_scheduler :: scheduler
  rs_scheduler_err :: "go_error option"
  rs_dump :: cache_dump
  rs_dump_err :: "go_error option"
  rs_captures :: nat
  rs_finish_without_source :: bool
  rs_stopped :: bool
  rs_evidence :: presentation_evidence

definition newRuleState :: "request \<Rightarrow> rule_state" where
  "newRuleState request =
     \<lparr>rs_report = empty_report\<lparr>re_request := request\<rparr>, rs_pod_group_name = '''', rs_pod_group_err = None,
      rs_scheduler = empty_scheduler, rs_scheduler_err = None, rs_dump = empty_cache_dump,
      rs_dump_err = None, rs_captures = 0, rs_finish_without_source = False, rs_stopped = False,
      rs_evidence = empty_evidence\<rparr>"

definition stopWithoutSource :: "presentation_evidence \<Rightarrow> rule_state \<Rightarrow> rule_state" where
  "stopWithoutSource ev s = s\<lparr>rs_evidence := ev, rs_finish_without_source := True, rs_stopped := True\<rparr>"

definition stopWithSource :: "rule_state \<Rightarrow> rule_state" where
  "stopWithSource s = s\<lparr>rs_stopped := True\<rparr>"

definition add_checks :: "check list \<Rightarrow> rule_state \<Rightarrow> rule_state" where
  "add_checks cs s = s\<lparr>rs_report := (rs_report s)\<lparr>re_checks := re_checks (rs_report s) @ cs\<rparr>\<rparr>"

section \<open>Helpers of the analyzer\<close>

definition stoppedAtPreflight :: "check \<Rightarrow> presentation_evidence" where
  "stoppedAtPreflight check =
     (let p = (if chk_determinate check \<and> \<not> chk_passed check \<and> \<not> chk_skipped check
               then zh_preflight_failed else zh_preflight_incomplete)
      in empty_evidence\<lparr>pe_preflight_stopped := True,
           pe_stop_reason := p @ zh_colon @ chk_name check @ zh_dash @ chk_reason check\<rparr>)"

definition observedEnqueueAction :: "scheduler_policy \<Rightarrow> bool" where
  "observedEnqueueAction policy =
     (if \<not> po_determinate policy \<or> \<not> po_active policy then True
      else list_ex (\<lambda>action. action = ''enqueue'') (po_actions policy))"

definition identity_name :: string where
  "identity_name = ''Policy and cache dump use the same scheduler Pod''"

definition schedulerEvidenceIdentityCheck :: "scheduler_policy \<Rightarrow> scheduler \<Rightarrow> check" where
  "schedulerEvidenceIdentityCheck policy ev =
     (let sources = [''clusterManager.CaptureCacheDump'']
      in if po_uid policy = '''' \<or> sch_uid ev = '''' then
           Unknown ''scheduler.evidence.identity'' ''allocate'' identity_name
             (''policy scheduler='' @ po_namespace policy @ ''/'' @ po_pod policy @ '' uid='' @ fmt_q (po_uid policy) @
              ''; cache scheduler='' @ sch_namespace ev @ ''/'' @ sch_name ev @ '' uid='' @ fmt_q (sch_uid ev))
             EvNil sources
         else if \<not> (po_uid policy = sch_uid ev \<and> po_namespace policy = sch_namespace ev \<and> po_pod policy = sch_name ev) then
           Unknown ''scheduler.evidence.identity'' ''allocate'' identity_name
             (''scheduler leadership changed during analysis: policy='' @ po_namespace policy @ ''/'' @ po_pod policy @
              '' uid='' @ po_uid policy @ '' cache='' @ sch_namespace ev @ ''/'' @ sch_name ev @ '' uid='' @ sch_uid ev)
             EvNil sources
         else Known ''scheduler.evidence.identity'' ''allocate'' identity_name True
             (''scheduler='' @ sch_namespace ev @ ''/'' @ sch_name ev @ '' uid='' @ sch_uid ev) sources)"

definition targetPodLookupCheck :: "request \<Rightarrow> go_error \<Rightarrow> check" where
  "targetPodLookupCheck request err =
     (let name = rq_namespace request @ ''/'' @ rq_pod request
      in if is_not_found err then
           Known ''task.exists'' ''preflight'' ''Target Pod exists'' False (name @ '': '' @ err_text err) []
         else Unknown ''task.load'' ''preflight'' ''Target Pod loaded from informer cache''
           (name @ '': '' @ err_text err) EvNil [])"

definition no_association :: go_error where
  "no_association = errorf ''PodGroup association is unavailable''"

definition collectPodGroup ::
  "cluster_api \<Rightarrow> string \<Rightarrow> string \<Rightarrow> (pod_group \<times> go_error option) \<times> (pod list \<times> go_error option)" where
  "collectPodGroup cl namespace groupName =
     (if groupName = '''' then ((empty_pod_group, Some no_association), ([], Some no_association))
      else (cl_pod_group cl namespace groupName, cl_group_pods cl namespace groupName))"

definition collectQueue ::
  "cluster_api \<Rightarrow> pod_group \<Rightarrow> go_error option \<Rightarrow> scheduler \<Rightarrow> go_error option
    \<Rightarrow> (string \<times> go_error option) \<times> (queue \<times> go_error option)" where
  "collectQueue cl podGroup groupErr scheduler schedulerErr =
     (case groupErr of
        Some e \<Rightarrow> (let err = errorw ''resolve effective Queue: PodGroup is unavailable: '' e
                   in (('''', Some err), (empty_queue, Some err)))
      | None \<Rightarrow>
          (let (queueName, queueNameErr) = ResolveQueueName podGroup scheduler schedulerErr
           in case queueNameErr of
                Some e \<Rightarrow> ((queueName, Some e), (empty_queue, Some e))
              | None \<Rightarrow> ((queueName, None), cl_queue cl queueName)))"

definition collectEnqueueEvents ::
  "cluster_api \<Rightarrow> request \<Rightarrow> string \<Rightarrow> pod_group \<Rightarrow> go_error option
    \<Rightarrow> (event list \<times> go_error option) \<times> (event list \<times> go_error option)" where
  "collectEnqueueEvents cl request groupName podGroup groupErr =
     (let podEvents = cl_pod_events cl (rq_namespace request) (rq_pod request)
      in if groupErr \<noteq> None \<or> groupName = '''' then
           (let groupErr' = (case groupErr of None \<Rightarrow> no_association | Some e \<Rightarrow> e)
            in (podEvents, ([], Some (errorw ''collect PodGroup events: PodGroup is unavailable: '' groupErr'))))
         else (podEvents, cl_group_events cl (rq_namespace request) groupName (pg_uid podGroup)))"

definition captureCacheDump ::
  "cluster_api \<Rightarrow> rule_state \<Rightarrow> (cache_dump \<times> go_error option) \<times> rule_state" where
  "captureCacheDump cl s =
     (if cu_nodes (rs_dump s) \<noteq> None \<or> rs_dump_err s \<noteq> None then ((rs_dump s, rs_dump_err s), s)
      else (let (dump, err) = cl_capture cl (rs_captures s)
            in ((dump, err), s\<lparr>rs_dump := dump, rs_dump_err := err, rs_captures := rs_captures s + 1\<rparr>)))"

section \<open>The rules\<close>

type_synonym rule = "cluster_api \<Rightarrow> rule_state \<Rightarrow> go_error + rule_state"

definition validateRule :: rule where
  "validateRule cl s =
     (let request = re_request (rs_report s)
      in case cl_pod cl (rq_namespace request) (rq_pod request) of
           Inl e \<Rightarrow> (let check = targetPodLookupCheck request e
                     in Inr (stopWithoutSource (stoppedAtPreflight check) (add_checks [check] s)))
         | Inr pod \<Rightarrow>
             (let (scheduler, schedulerErr) = cl_scheduler cl;
                  (configuration, configurationErr) = cl_configuration cl scheduler;
                  (policy, policyChecks) = ObservePolicy configuration configurationErr;
                  groupName = podGroupName pod;
                  ((podGroup, groupErr), (tasks, tasksErr)) = collectPodGroup cl (rq_namespace request) groupName;
                  s1 = s\<lparr>rs_evidence := (rs_evidence s)\<lparr>pe_pod := Some pod, pe_pod_group := podGroup, pe_tasks := tasks\<rparr>,
                    rs_scheduler := scheduler, rs_scheduler_err := schedulerErr,
                    rs_pod_group_name := groupName, rs_pod_group_err := groupErr,
                    rs_report := (rs_report s)\<lparr>re_scheduler := Some scheduler, re_policy := policy\<rparr>\<rparr>;
                  s2 = add_checks (EvaluatePod pod scheduler schedulerErr @ policyChecks @
                    EvaluatePodGroup groupName podGroup groupErr tasks tasksErr) s1
              in case knownStageFailure (re_checks (rs_report s2)) ''preflight'' of
                   Some failed \<Rightarrow> Inr (stopWithoutSource
                     ((stoppedAtPreflight failed)\<lparr>pe_pod := Some pod, pe_tasks := tasks, pe_pod_group := podGroup\<rparr>) s2)
                 | None \<Rightarrow> Inr s2))"

definition load_snapshot :: "cluster_api \<Rightarrow> string \<Rightarrow> rule_state \<Rightarrow> rule_state" where
  "load_snapshot cl queueName s =
     (case cl_queues cl of
        (queues, Some e) \<Rightarrow> s\<lparr>rs_evidence := (rs_evidence s)\<lparr>pe_snapshot_err := Some e\<rparr>\<rparr>
      | (queues, None) \<Rightarrow>
          (case captureCacheDump cl s of
             ((dump, Some e), s1) \<Rightarrow> s1\<lparr>rs_evidence := (rs_evidence s1)\<lparr>pe_snapshot_err := Some e\<rparr>\<rparr>
           | ((dump, None), s1) \<Rightarrow>
               (let (snapshot, err) = BuildQueueSnapshot dump queues (pe_queue_groups (rs_evidence s1)) queueName
                      (queueBaseStrategy (queueStrategy (re_policy (rs_report s1))))
                in s1\<lparr>rs_evidence := (rs_evidence s1)\<lparr>pe_snapshot := snapshot, pe_snapshot_err := err\<rparr>\<rparr>)))"

definition loadQueuePresentationEvidence ::
  "cluster_api \<Rightarrow> string \<Rightarrow> go_error option \<Rightarrow> go_error option \<Rightarrow> rule_state \<Rightarrow> rule_state" where
  "loadQueuePresentationEvidence cl queueName queueNameErr queueErr s =
     (let s1 = (case queueNameErr of
            None \<Rightarrow>
              (let defaultQueueName = (if rs_scheduler_err s = None \<and> sch_determinate (rs_scheduler s)
                     then sch_default_queue (rs_scheduler s) else '''');
                   (podGroups, err) = cl_queue_groups cl queueName defaultQueueName
               in s\<lparr>rs_evidence := (rs_evidence s)\<lparr>pe_queue_groups := podGroups, pe_queue_groups_err := err\<rparr>\<rparr>)
          | Some e \<Rightarrow> s\<lparr>rs_evidence := (rs_evidence s)\<lparr>pe_queue_groups_err := Some e\<rparr>\<rparr>)
      in if rs_scheduler_err s1 \<noteq> None then
           s1\<lparr>rs_evidence := (rs_evidence s1)\<lparr>pe_snapshot_err := rs_scheduler_err s1\<rparr>\<rparr>
         else if queueNameErr \<noteq> None then s1\<lparr>rs_evidence := (rs_evidence s1)\<lparr>pe_snapshot_err := queueNameErr\<rparr>\<rparr>
         else if queueErr \<noteq> None then s1\<lparr>rs_evidence := (rs_evidence s1)\<lparr>pe_snapshot_err := queueErr\<rparr>\<rparr>
         else load_snapshot cl queueName s1)"

definition no_pod_loaded :: go_error where
  "no_pod_loaded = errorf ''validate rule did not load target Pod''"

definition enqueueRule :: rule where
  "enqueueRule cl s =
     (case pe_pod (rs_evidence s) of
        None \<Rightarrow> Inl no_pod_loaded
      | Some pod \<Rightarrow>
          (let report = rs_report s; podGroup = pe_pod_group (rs_evidence s); policy = re_policy report;
               ((queueName, queueNameErr), (queue, queueErr)) =
                 collectQueue cl podGroup (rs_pod_group_err s) (rs_scheduler s) (rs_scheduler_err s);
               ((podEvents, podEventsErr), (groupEvents, groupEventsErr)) =
                 collectEnqueueEvents cl (re_request report) (rs_pod_group_name s) podGroup (rs_pod_group_err s);
               s1 = add_checks (Enqueue.Evaluate
                 \<lparr>ei_scheduler_name = pod_scheduler_name pod, ei_actions = po_actions policy,
                  ei_actions_determinate = po_determinate policy, ei_active_determinate = po_active policy,
                  ei_pod_group = podGroup, ei_pod_group_err = rs_pod_group_err s,
                  ei_queue_name = queueName, ei_queue_name_err = queueNameErr, ei_queue = queue,
                  ei_queue_err = queueErr, ei_pod_events = podEvents, ei_pod_events_err = podEventsErr,
                  ei_group_events = groupEvents, ei_group_events_err = groupEventsErr\<rparr>) s;
               s2 = s1\<lparr>rs_evidence := (rs_evidence s1)\<lparr>pe_queue_name := queueName, pe_queue := queue,
                 pe_queue_err := queueErr\<rparr>\<rparr>;
               s3 = loadQueuePresentationEvidence cl queueName queueNameErr queueErr s2
           in if \<not> observedEnqueueAction (re_policy (rs_report s3)) then Inr s3
              else (case knownStageFailure (re_checks (rs_report s3)) ''enqueue'' of
                  None \<Rightarrow> Inr s3
                | Some failed \<Rightarrow> Inr (stopWithSource (s3\<lparr>rs_evidence := (rs_evidence s3)
                    \<lparr>pe_enqueue_stopped := True, pe_allocate_stopped := True,
                     pe_stop_reason := zh_enqueue_failed @ chk_name failed @ zh_dash @ chk_reason failed\<rparr>\<rparr>)))))"

definition jobValidRule :: rule where
  "jobValidRule cl s =
     (case knownStageFailure (re_checks (rs_report s)) ''jobValid'' of
        None \<Rightarrow> Inr s
      | Some failed \<Rightarrow> Inr (stopWithSource (s\<lparr>rs_evidence := (rs_evidence s)\<lparr>pe_allocate_stopped := True,
          pe_stop_reason := zh_job_valid_failed @ chk_name failed @ zh_dash @ chk_reason failed\<rparr>\<rparr>)))"

definition allocateRule :: rule where
  "allocateRule cl s =
     (case pe_pod (rs_evidence s) of
        None \<Rightarrow> Inl no_pod_loaded
      | Some pod \<Rightarrow>
          (let (nodes, nodesErr) = cl_nodes cl;
               ((dump, cacheErr), s1) = captureCacheDump cl s;
               result = Evaluate_filter (cl_tolerates cl)
                 \<lparr>fi_pod = pod, fi_nodes = nodes, fi_nodes_err = nodesErr, fi_dump = dump, fi_capture_err = cacheErr\<rparr>;
               s2 = add_checks [fr_cache_check result,
                 schedulerEvidenceIdentityCheck (re_policy (rs_report s1)) (cu_scheduler dump),
                 fr_allocation_check result, fr_plugin_check result] s1
           in Inr (s2\<lparr>rs_report := (rs_report s2)\<lparr>re_nodes := fr_nodes result\<rparr>\<rparr>)))"

section \<open>The pipeline\<close>

text \<open>\<open>RegisterRule\<close> panics on a nil rule (\<open>None\<close>) and appends otherwise.\<close>

definition RegisterRule :: "(string \<times> rule) option \<Rightarrow> (string \<times> rule) list \<Rightarrow> (string \<times> rule) list option" where
  "RegisterRule rule rules = (case rule of None \<Rightarrow> None | Some r \<Rightarrow> Some (rules @ [r]))"

definition analysisRules :: "(string \<times> rule) list" where
  "analysisRules = [(''validate'', validateRule), (''enqueue'', enqueueRule), (''jobValid'', jobValidRule),
     (''allocate'', allocateRule)]"

fun run_rules :: "(string \<times> rule) list \<Rightarrow> cluster_api \<Rightarrow> rule_state \<Rightarrow> go_error + rule_state" where
  "run_rules [] cl s = Inr s"
| "run_rules ((name, rule) # rules) cl s =
     (case rule cl s of
        Inl e \<Rightarrow> Inl (errorw (''evaluate rule '' @ name @ '': '') e)
      | Inr s' \<Rightarrow> if rs_stopped s' then Inr s' else run_rules rules cl s')"

definition completeReport ::
  "fallback_env \<Rightarrow> report \<Rightarrow> scheduler \<Rightarrow> presentation_evidence \<Rightarrow> report" where
  "completeReport env report scheduler ev =
     (if sch_name scheduler \<noteq> '''' \<or> rq_branch (re_request report) \<noteq> '''' then
        applySourceFallback env report scheduler ev
      else finishReport (fe_now env) report ev)"

definition Analyze :: "fallback_env \<Rightarrow> cluster_api option \<Rightarrow> request \<Rightarrow> go_error + report" where
  "Analyze env cluster request =
     (if rq_namespace request = '''' \<or> rq_pod request = '''' then Inl (errorf ''namespace and pod are required'')
      else (case cluster of
          None \<Rightarrow> Inl (errorf ''cluster manager is not configured'')
        | Some cl \<Rightarrow>
            (case run_rules analysisRules cl (newRuleState request) of
               Inl e \<Rightarrow> Inl e
             | Inr s \<Rightarrow>
                 if rs_finish_without_source s then Inr (finishReport (fe_now env) (rs_report s) (rs_evidence s))
                 else Inr (completeReport env (rs_report s) (rs_scheduler s) (rs_evidence s)))))"


section \<open>The contract of a rule\<close>

text \<open>
  What the loop and the report rely on: a rule appends well-formed checks, keeps the request, and
  captures the cache only through \<open>captureCacheDump\<close>, so the count of captures does not fall.
\<close>

locale rule =
  fixes evaluate :: "cluster_api \<Rightarrow> rule_state \<Rightarrow> go_error + rule_state"
  assumes grows: "evaluate cl s = Inr s' \<Longrightarrow>
      \<exists>cs. re_checks (rs_report s') = re_checks (rs_report s) @ cs \<and> checks_wf cs"
    and keeps_request: "evaluate cl s = Inr s' \<Longrightarrow> re_request (rs_report s') = re_request (rs_report s)"
begin

lemma keeps_wf: "evaluate cl s = Inr s' \<Longrightarrow> checks_wf (re_checks (rs_report s)) \<Longrightarrow> checks_wf (re_checks (rs_report s'))"
  using grows by fastforce

lemma keeps_checks: "evaluate cl s = Inr s' \<Longrightarrow> set (re_checks (rs_report s)) \<subseteq> set (re_checks (rs_report s'))"
  using grows by fastforce

lemma keeps_first_failure:
  "evaluate cl s = Inr s' \<Longrightarrow> knownStageFailure (re_checks (rs_report s)) stage = Some c
    \<Longrightarrow> knownStageFailure (re_checks (rs_report s')) stage = Some c"
proof -
  have "find P xs = Some c \<Longrightarrow> find P (xs @ ys) = Some c" for P and xs ys :: "check list"
    by (induction xs) auto
  then show "evaluate cl s = Inr s' \<Longrightarrow> knownStageFailure (re_checks (rs_report s)) stage = Some c
    \<Longrightarrow> knownStageFailure (re_checks (rs_report s')) stage = Some c"
    using grows [of cl s s'] by (auto simp: knownStageFailure_def)
qed

end

lemma add_checks_simps [simp]:
  "re_checks (rs_report (add_checks cs s)) = re_checks (rs_report s) @ cs"
  "re_request (rs_report (add_checks cs s)) = re_request (rs_report s)"
  "re_policy (rs_report (add_checks cs s)) = re_policy (rs_report s)"
  "re_nodes (rs_report (add_checks cs s)) = re_nodes (rs_report s)"
  "re_plugin_hooks (rs_report (add_checks cs s)) = re_plugin_hooks (rs_report s)"
  "rs_evidence (add_checks cs s) = rs_evidence s" "rs_stopped (add_checks cs s) = rs_stopped s"
  "rs_captures (add_checks cs s) = rs_captures s" "rs_finish_without_source (add_checks cs s) = rs_finish_without_source s"
  "rs_dump (add_checks cs s) = rs_dump s" "rs_dump_err (add_checks cs s) = rs_dump_err s"
  "rs_scheduler (add_checks cs s) = rs_scheduler s" "rs_scheduler_err (add_checks cs s) = rs_scheduler_err s"
  "rs_pod_group_err (add_checks cs s) = rs_pod_group_err s" "rs_pod_group_name (add_checks cs s) = rs_pod_group_name s"
  by (simp_all add: add_checks_def)

lemma stop_simps [simp]:
  "rs_report (stopWithoutSource ev s) = rs_report s" "rs_stopped (stopWithoutSource ev s)"
  "rs_evidence (stopWithoutSource ev s) = ev" "rs_captures (stopWithoutSource ev s) = rs_captures s"
  "rs_finish_without_source (stopWithoutSource ev s)" "rs_report (stopWithSource s) = rs_report s"
  "rs_stopped (stopWithSource s)" "rs_evidence (stopWithSource s) = rs_evidence s"
  "rs_captures (stopWithSource s) = rs_captures s"
  "rs_finish_without_source (stopWithSource s) = rs_finish_without_source s"
  by (simp_all add: stopWithoutSource_def stopWithSource_def)

text \<open>The queue evidence and the capture leave the report alone.\<close>

lemma captureCacheDump_simps [simp]:
  "rs_report (snd (captureCacheDump cl s)) = rs_report s" "rs_evidence (snd (captureCacheDump cl s)) = rs_evidence s"
  "rs_stopped (snd (captureCacheDump cl s)) = rs_stopped s"
  "rs_finish_without_source (snd (captureCacheDump cl s)) = rs_finish_without_source s"
  "rs_scheduler (snd (captureCacheDump cl s)) = rs_scheduler s"
  by (simp_all add: captureCacheDump_def case_prod_beta Let_def)

lemma load_snapshot_simps [simp]:
  "rs_report (load_snapshot cl q s) = rs_report s" "rs_stopped (load_snapshot cl q s) = rs_stopped s"
  "rs_finish_without_source (load_snapshot cl q s) = rs_finish_without_source s"
  "pe_pod (rs_evidence (load_snapshot cl q s)) = pe_pod (rs_evidence s)"
  "pe_preflight_stopped (rs_evidence (load_snapshot cl q s)) = pe_preflight_stopped (rs_evidence s)"
  "pe_enqueue_stopped (rs_evidence (load_snapshot cl q s)) = pe_enqueue_stopped (rs_evidence s)"
  "pe_job_valid_stopped (rs_evidence (load_snapshot cl q s)) = pe_job_valid_stopped (rs_evidence s)"
  "pe_allocate_stopped (rs_evidence (load_snapshot cl q s)) = pe_allocate_stopped (rs_evidence s)"
proof -
  obtain queues qe where q: "cl_queues cl = (queues, qe)" by force
  obtain dump de s1 where d: "captureCacheDump cl s = ((dump, de), s1)" by (metis prod.collapse)
  then have s1: "rs_report s1 = rs_report s" "rs_evidence s1 = rs_evidence s" "rs_stopped s1 = rs_stopped s"
    "rs_finish_without_source s1 = rs_finish_without_source s"
    using captureCacheDump_simps [of cl s] by simp_all
  show "rs_report (load_snapshot cl q s) = rs_report s" "rs_stopped (load_snapshot cl q s) = rs_stopped s"
  "rs_finish_without_source (load_snapshot cl q s) = rs_finish_without_source s"
  "pe_pod (rs_evidence (load_snapshot cl q s)) = pe_pod (rs_evidence s)"
  "pe_preflight_stopped (rs_evidence (load_snapshot cl q s)) = pe_preflight_stopped (rs_evidence s)"
  "pe_enqueue_stopped (rs_evidence (load_snapshot cl q s)) = pe_enqueue_stopped (rs_evidence s)"
  "pe_job_valid_stopped (rs_evidence (load_snapshot cl q s)) = pe_job_valid_stopped (rs_evidence s)"
  "pe_allocate_stopped (rs_evidence (load_snapshot cl q s)) = pe_allocate_stopped (rs_evidence s)"
    by (cases qe; cases de; simp add: load_snapshot_def q d s1 case_prod_beta)+
qed

lemma loadQueue_simps [simp]:
  "rs_report (loadQueuePresentationEvidence cl q ne qe s) = rs_report s"
  "rs_stopped (loadQueuePresentationEvidence cl q ne qe s) = rs_stopped s"
  "rs_finish_without_source (loadQueuePresentationEvidence cl q ne qe s) = rs_finish_without_source s"
  "pe_pod (rs_evidence (loadQueuePresentationEvidence cl q ne qe s)) = pe_pod (rs_evidence s)"
  "pe_preflight_stopped (rs_evidence (loadQueuePresentationEvidence cl q ne qe s)) = pe_preflight_stopped (rs_evidence s)"
  "pe_enqueue_stopped (rs_evidence (loadQueuePresentationEvidence cl q ne qe s)) = pe_enqueue_stopped (rs_evidence s)"
  "pe_job_valid_stopped (rs_evidence (loadQueuePresentationEvidence cl q ne qe s)) = pe_job_valid_stopped (rs_evidence s)"
  "pe_allocate_stopped (rs_evidence (loadQueuePresentationEvidence cl q ne qe s)) = pe_allocate_stopped (rs_evidence s)"
  by (cases ne; simp add: loadQueuePresentationEvidence_def Let_def case_prod_beta)+


section \<open>What each rule does to the report\<close>

definition preflight_of :: "cluster_api \<Rightarrow> request \<Rightarrow> pod \<Rightarrow> check list" where
  "preflight_of cl request pod =
     EvaluatePod pod (fst (cl_scheduler cl)) (snd (cl_scheduler cl)) @
     snd (ObservePolicy (fst (cl_configuration cl (fst (cl_scheduler cl))))
       (snd (cl_configuration cl (fst (cl_scheduler cl))))) @
     (let ((podGroup, groupErr), (tasks, tasksErr)) =
            collectPodGroup cl (rq_namespace request) (podGroupName pod)
      in EvaluatePodGroup (podGroupName pod) podGroup groupErr tasks tasksErr)"

lemma preflight_wf: "checks_wf (preflight_of cl request pod)"
proof -
  have "\<forall>c \<in> set (preflight_of cl request pod). check_wf c"
    using pod_stage.emit_wf [of _ "(pod, fst (cl_scheduler cl), snd (cl_scheduler cl))"] ObservePolicy_wf EvaluatePodGroup_wf
    by (auto simp: preflight_of_def case_prod_beta Let_def)
  then show ?thesis by (simp add: checks_wf_def list_all_iff)
qed

lemma preflight_open: "\<exists>c \<in> set (preflight_of cl request pod). chk_stage c = ''preflight'' \<and> \<not> chk_determinate c
    \<and> chk_id c \<noteq> ''allocate.nodes''"
proof -
  let ?cs = "snd (ObservePolicy (fst (cl_configuration cl (fst (cl_scheduler cl))))
      (snd (cl_configuration cl (fst (cl_scheduler cl)))))"
  have l: "last ?cs \<in> set ?cs" by (rule last_in_set) simp
  have "chk_id (last (snd (ObservePolicy c e))) \<noteq> ''allocate.nodes''" for c e
    by (simp add: ObservePolicy_def Let_def split: option.split)
  then have "chk_stage (last ?cs) = ''preflight'' \<and> \<not> chk_determinate (last ?cs) \<and> chk_id (last ?cs) \<noteq> ''allocate.nodes''"
    using ObservePolicy_stage [OF l] ObservePolicy_last_open by blast
  with l show ?thesis unfolding preflight_of_def by (intro bexI [of _ "last ?cs"]) simp_all
qed

lemma preflight_stages:
  "c \<in> set (preflight_of cl request pod) \<Longrightarrow> chk_stage c = ''preflight'' \<or> chk_stage c = ''jobValid'' \<and> \<not> chk_determinate c"
  using pod_stage.emit_stage [of c "(pod, fst (cl_scheduler cl), snd (cl_scheduler cl))"] ObservePolicy_stage
    EvaluatePodGroup_stage EvaluatePodGroup_job_valid_open
  by (fastforce simp: preflight_of_def case_prod_beta Let_def)

lemma validateRule_lookup:
  "cl_pod cl (rq_namespace (re_request (rs_report s))) (rq_pod (re_request (rs_report s))) = Inl e \<Longrightarrow>
   validateRule cl s = Inr (stopWithoutSource (stoppedAtPreflight (targetPodLookupCheck (re_request (rs_report s)) e))
     (add_checks [targetPodLookupCheck (re_request (rs_report s)) e] s))"
  by (simp add: validateRule_def Let_def)

lemma validateRule_pod:
  assumes "cl_pod cl (rq_namespace (re_request (rs_report s))) (rq_pod (re_request (rs_report s))) = Inr pod"
  obtains s1 where "validateRule cl s = Inr s1"
    and "re_checks (rs_report s1) = re_checks (rs_report s) @ preflight_of cl (re_request (rs_report s)) pod"
    and "re_request (rs_report s1) = re_request (rs_report s)" and "re_nodes (rs_report s1) = re_nodes (rs_report s)"
    and "re_plugin_hooks (rs_report s1) = re_plugin_hooks (rs_report s)" and "rs_captures s1 = rs_captures s"
    and "\<not> po_active (re_policy (rs_report s1))" and "pe_pod (rs_evidence s1) = Some pod"
    and "rs_dump s1 = rs_dump s" and "rs_dump_err s1 = rs_dump_err s"
    and "case knownStageFailure (re_checks (rs_report s1)) ''preflight'' of
        None \<Rightarrow> rs_stopped s1 = rs_stopped s \<and> rs_finish_without_source s1 = rs_finish_without_source s
          \<and> pe_preflight_stopped (rs_evidence s1) = pe_preflight_stopped (rs_evidence s)
          \<and> pe_enqueue_stopped (rs_evidence s1) = pe_enqueue_stopped (rs_evidence s)
          \<and> pe_job_valid_stopped (rs_evidence s1) = pe_job_valid_stopped (rs_evidence s)
          \<and> pe_allocate_stopped (rs_evidence s1) = pe_allocate_stopped (rs_evidence s)
      | Some f \<Rightarrow> rs_stopped s1 \<and> rs_finish_without_source s1 \<and> pe_preflight_stopped (rs_evidence s1)
          \<and> pe_stop_reason (rs_evidence s1) = pe_stop_reason (stoppedAtPreflight f)
          \<and> \<not> pe_enqueue_stopped (rs_evidence s1) \<and> \<not> pe_job_valid_stopped (rs_evidence s1)
          \<and> \<not> pe_allocate_stopped (rs_evidence s1)"
proof -
  obtain sch se where sch: "cl_scheduler cl = (sch, se)" by force
  obtain cf ce where cf: "cl_configuration cl sch = (cf, ce)" by force
  obtain po pc where po: "ObservePolicy cf ce = (po, pc)" by force
  obtain pg ge ts te where pg: "collectPodGroup cl (rq_namespace (re_request (rs_report s))) (podGroupName pod) = ((pg, ge), (ts, te))"
    by (metis prod.collapse)
  have na: "\<not> po_active po" using ObservePolicy_policy [of cf ce] po by simp
  define s2 where "s2 = add_checks (EvaluatePod pod sch se @ pc @ EvaluatePodGroup (podGroupName pod) pg ge ts te)
    (s\<lparr>rs_evidence := (rs_evidence s)\<lparr>pe_pod := Some pod, pe_pod_group := pg, pe_tasks := ts\<rparr>,
       rs_scheduler := sch, rs_scheduler_err := se, rs_pod_group_name := podGroupName pod, rs_pod_group_err := ge,
       rs_report := (rs_report s)\<lparr>re_scheduler := Some sch, re_policy := po\<rparr>\<rparr>)"
  have v: "validateRule cl s = (case knownStageFailure (re_checks (rs_report s2)) ''preflight'' of
      Some failed \<Rightarrow> Inr (stopWithoutSource
         ((stoppedAtPreflight failed)\<lparr>pe_pod := Some pod, pe_tasks := ts, pe_pod_group := pg\<rparr>) s2)
    | None \<Rightarrow> Inr s2)"
    unfolding validateRule_def Let_def assms sum.case sch prod.case cf po pg s2_def ..
  have c: "re_checks (rs_report s2) = re_checks (rs_report s) @ preflight_of cl (re_request (rs_report s)) pod"
    by (simp add: s2_def preflight_of_def sch cf po pg)
  have s2f: "re_request (rs_report s2) = re_request (rs_report s)" "re_nodes (rs_report s2) = re_nodes (rs_report s)"
    "re_plugin_hooks (rs_report s2) = re_plugin_hooks (rs_report s)" "rs_captures s2 = rs_captures s"
    "\<not> po_active (re_policy (rs_report s2))" "pe_pod (rs_evidence s2) = Some pod"
    "rs_dump s2 = rs_dump s" "rs_dump_err s2 = rs_dump_err s" "rs_stopped s2 = rs_stopped s"
    "rs_finish_without_source s2 = rs_finish_without_source s"
    "pe_preflight_stopped (rs_evidence s2) = pe_preflight_stopped (rs_evidence s)"
    "pe_enqueue_stopped (rs_evidence s2) = pe_enqueue_stopped (rs_evidence s)"
    "pe_job_valid_stopped (rs_evidence s2) = pe_job_valid_stopped (rs_evidence s)"
    "pe_allocate_stopped (rs_evidence s2) = pe_allocate_stopped (rs_evidence s)"
    by (simp_all add: s2_def na)
  show ?thesis
  proof (cases "knownStageFailure (re_checks (rs_report s2)) ''preflight''")
    case None
    show ?thesis by (rule that [of s2]) (simp_all add: v None [unfolded c] c s2f)
  next
    case (Some f)
    let ?s = "stopWithoutSource ((stoppedAtPreflight f)\<lparr>pe_pod := Some pod, pe_tasks := ts, pe_pod_group := pg\<rparr>) s2"
    show ?thesis
      by (rule that [of ?s]) (simp_all add: v Some [unfolded c] c s2f, simp_all add: stoppedAtPreflight_def Let_def
        stopWithoutSource_def s2f empty_evidence_def)
  qed
qed

lemma enqueueRule_pod:
  assumes "pe_pod (rs_evidence s) = Some pod"
  obtains cs s1 where "enqueueRule cl s = Inr s1"
    and "re_checks (rs_report s1) = re_checks (rs_report s) @ cs" and "checks_wf cs"
    and "\<forall>c \<in> set cs. chk_stage c = ''enqueue''"
    and "rs_report s1 = (rs_report s)\<lparr>re_checks := re_checks (rs_report s) @ cs\<rparr>"
    and "pe_pod (rs_evidence s1) = Some pod" and "rs_finish_without_source s1 = rs_finish_without_source s"
    and "pe_preflight_stopped (rs_evidence s1) = pe_preflight_stopped (rs_evidence s)"
    and "pe_job_valid_stopped (rs_evidence s1) = pe_job_valid_stopped (rs_evidence s)"
    and "if observedEnqueueAction (re_policy (rs_report s)) \<and>
          knownStageFailure (re_checks (rs_report s1)) ''enqueue'' \<noteq> None
        then rs_stopped s1 \<and> pe_enqueue_stopped (rs_evidence s1) \<and> pe_allocate_stopped (rs_evidence s1)
        else rs_stopped s1 = rs_stopped s \<and> pe_enqueue_stopped (rs_evidence s1) = pe_enqueue_stopped (rs_evidence s)
          \<and> pe_allocate_stopped (rs_evidence s1) = pe_allocate_stopped (rs_evidence s)"
proof -
  obtain qn qne q qe where q: "collectQueue cl (pe_pod_group (rs_evidence s)) (rs_pod_group_err s) (rs_scheduler s)
      (rs_scheduler_err s) = ((qn, qne), (q, qe))" by (metis prod.collapse)
  obtain a b c d where ev: "collectEnqueueEvents cl (re_request (rs_report s)) (rs_pod_group_name s)
      (pe_pod_group (rs_evidence s)) (rs_pod_group_err s) = ((a, b), (c, d))" by (metis prod.collapse)
  define input where "input = \<lparr>ei_scheduler_name = pod_scheduler_name pod, ei_actions = po_actions (re_policy (rs_report s)),
      ei_actions_determinate = po_determinate (re_policy (rs_report s)),
      ei_active_determinate = po_active (re_policy (rs_report s)),
      ei_pod_group = pe_pod_group (rs_evidence s), ei_pod_group_err = rs_pod_group_err s,
      ei_queue_name = qn, ei_queue_name_err = qne, ei_queue = q,
      ei_queue_err = qe, ei_pod_events = a, ei_pod_events_err = b, ei_group_events = c, ei_group_events_err = d\<rparr>"
  define cs where "cs = Enqueue.Evaluate input"
  define s3 where "s3 = loadQueuePresentationEvidence cl qn qne qe
    ((add_checks cs s)\<lparr>rs_evidence := (rs_evidence (add_checks cs s))\<lparr>pe_queue_name := qn, pe_queue := q, pe_queue_err := qe\<rparr>\<rparr>)"
  have wf: "checks_wf cs" "\<forall>c \<in> set cs. chk_stage c = ''enqueue''"
    using enqueue_stage.emit_wf enqueue_stage.emit_stage by (auto simp: cs_def checks_wf_def list_all_iff)
  have r3: "rs_report s3 = (rs_report s)\<lparr>re_checks := re_checks (rs_report s) @ cs\<rparr>"
    by (simp add: s3_def) (simp add: add_checks_def)
  have e3: "pe_pod (rs_evidence s3) = Some pod" "rs_stopped s3 = rs_stopped s"
    "rs_finish_without_source s3 = rs_finish_without_source s"
    "pe_preflight_stopped (rs_evidence s3) = pe_preflight_stopped (rs_evidence s)"
    "pe_enqueue_stopped (rs_evidence s3) = pe_enqueue_stopped (rs_evidence s)"
    "pe_job_valid_stopped (rs_evidence s3) = pe_job_valid_stopped (rs_evidence s)"
    "pe_allocate_stopped (rs_evidence s3) = pe_allocate_stopped (rs_evidence s)"
    by (simp_all add: s3_def assms)
  have e: "enqueueRule cl s = (if \<not> observedEnqueueAction (re_policy (rs_report s3)) then Inr s3
              else (case knownStageFailure (re_checks (rs_report s3)) ''enqueue'' of
                  None \<Rightarrow> Inr s3
                | Some failed \<Rightarrow> Inr (stopWithSource (s3\<lparr>rs_evidence := (rs_evidence s3)
                    \<lparr>pe_enqueue_stopped := True, pe_allocate_stopped := True,
                     pe_stop_reason := zh_enqueue_failed @ chk_name failed @ zh_dash @ chk_reason failed\<rparr>\<rparr>))))"
    unfolding enqueueRule_def assms option.case Let_def q ev prod.case s3_def cs_def input_def ..
  show ?thesis
  proof (cases "observedEnqueueAction (re_policy (rs_report s)) \<and> knownStageFailure (re_checks (rs_report s3)) ''enqueue'' \<noteq> None")
    case True
    then obtain f where f: "knownStageFailure (re_checks (rs_report s3)) ''enqueue'' = Some f" by blast
    let ?s = "stopWithSource (s3\<lparr>rs_evidence := (rs_evidence s3)
                    \<lparr>pe_enqueue_stopped := True, pe_allocate_stopped := True,
                     pe_stop_reason := zh_enqueue_failed @ chk_name f @ zh_dash @ chk_reason f\<rparr>\<rparr>)"
    have "enqueueRule cl s = Inr ?s" unfolding e f using True by (simp add: r3)
    then show ?thesis
      by (rule that [OF _ _ wf]) (use True f e3 in \<open>simp_all add: r3\<close>)
  next
    case False
    then have "enqueueRule cl s = Inr s3" unfolding e by (auto simp: r3)
    then show ?thesis
      by (rule that [OF _ _ wf]) (use False e3 in \<open>auto simp: r3\<close>)
  qed
qed


lemma identity_check [simp]:
  "check_wf (schedulerEvidenceIdentityCheck p ev)" "chk_stage (schedulerEvidenceIdentityCheck p ev) = ''allocate''"
  "\<not> known_failure (schedulerEvidenceIdentityCheck p ev)"
  by (simp_all add: schedulerEvidenceIdentityCheck_def Let_def)

lemma allocateRule_pod:
  assumes "pe_pod (rs_evidence s) = Some pod"
  obtains cs s1 where "allocateRule cl s = Inr s1"
    and "re_checks (rs_report s1) = re_checks (rs_report s) @ cs" and "checks_wf cs"
    and "\<forall>c \<in> set cs. chk_stage c = ''allocate''"
    and "re_request (rs_report s1) = re_request (rs_report s)"
    and "re_plugin_hooks (rs_report s1) = re_plugin_hooks (rs_report s)"
    and "re_policy (rs_report s1) = re_policy (rs_report s)"
    and "rs_evidence s1 = rs_evidence s" and "rs_stopped s1 = rs_stopped s"
    and "rs_finish_without_source s1 = rs_finish_without_source s"
proof -
  obtain ns ne where ns: "cl_nodes cl = (ns, ne)" by force
  obtain d de s1 where d: "captureCacheDump cl s = ((d, de), s1)" by (metis prod.collapse)
  then have s1: "rs_report s1 = rs_report s" "rs_evidence s1 = rs_evidence s" "rs_stopped s1 = rs_stopped s"
    "rs_finish_without_source s1 = rs_finish_without_source s"
    using captureCacheDump_simps [of cl s] by simp_all
  define i where "i = \<lparr>fi_pod = pod, fi_nodes = ns, fi_nodes_err = ne, fi_dump = d, fi_capture_err = de\<rparr>"
  define res where "res = Evaluate_filter (cl_tolerates cl) i"
  define cs where "cs = [fr_cache_check res, schedulerEvidenceIdentityCheck (re_policy (rs_report s1)) (cu_scheduler d),
    fr_allocation_check res, fr_plugin_check res]"
  define s3 where "s3 = (add_checks cs s1)\<lparr>rs_report := (rs_report (add_checks cs s1))\<lparr>re_nodes := fr_nodes res\<rparr>\<rparr>"
  have a: "allocateRule cl s = Inr s3"
    unfolding allocateRule_def assms option.case Let_def ns prod.case d s3_def cs_def res_def i_def ..
  have "c \<in> set (filter_checks res) \<Longrightarrow> check_wf c \<and> chk_stage c = ''allocate''" for c
    using filter_stage.emit_wf [of c "(cl_tolerates cl, i)"] filter_stage.emit_stage [of c "(cl_tolerates cl, i)"]
    by (simp add: res_def)
  then have cs: "checks_wf cs" "\<forall>c \<in> set cs. chk_stage c = ''allocate''"
    by (auto simp: cs_def filter_checks_def)
  show ?thesis
    by (rule that [OF a _ cs]) (simp_all add: s3_def s1)
qed

interpretation validate_rule: rule validateRule
proof
  fix cl s s'
  assume v: "validateRule cl s = Inr s'"
  show "\<exists>cs. re_checks (rs_report s') = re_checks (rs_report s) @ cs \<and> checks_wf cs"
    and "re_request (rs_report s') = re_request (rs_report s)"
  proof (atomize (full), cases "cl_pod cl (rq_namespace (re_request (rs_report s))) (rq_pod (re_request (rs_report s)))")
    case (Inl e)
    have "check_wf (targetPodLookupCheck rq e)" for rq by (simp add: targetPodLookupCheck_def Let_def)
    with v validateRule_lookup [OF Inl]
    show "(\<exists>cs. re_checks (rs_report s') = re_checks (rs_report s) @ cs \<and> checks_wf cs)
        \<and> re_request (rs_report s') = re_request (rs_report s)" by auto
  next
    case (Inr pod)
    with v preflight_wf show "(\<exists>cs. re_checks (rs_report s') = re_checks (rs_report s) @ cs \<and> checks_wf cs)
        \<and> re_request (rs_report s') = re_request (rs_report s)"
      by (auto elim!: validateRule_pod)
  qed
qed

interpretation enqueue_rule: rule enqueueRule
proof
  fix cl s s'
  assume e: "enqueueRule cl s = Inr s'"
  then obtain pod where pod: "pe_pod (rs_evidence s) = Some pod"
    by (cases "pe_pod (rs_evidence s)") (simp_all add: enqueueRule_def)
  obtain cs s1 where "enqueueRule cl s = Inr s1" "re_checks (rs_report s1) = re_checks (rs_report s) @ cs" "checks_wf cs"
    "rs_report s1 = (rs_report s)\<lparr>re_checks := re_checks (rs_report s) @ cs\<rparr>"
    by (rule enqueueRule_pod [OF pod])
  with e show "\<exists>cs. re_checks (rs_report s') = re_checks (rs_report s) @ cs \<and> checks_wf cs"
    and "re_request (rs_report s') = re_request (rs_report s)" by auto
qed

interpretation job_valid_rule: rule jobValidRule
proof
  fix cl s s'
  assume "jobValidRule cl s = Inr s'"
  then have "rs_report s' = rs_report s" by (auto simp: jobValidRule_def split: option.splits)
  then show "\<exists>cs. re_checks (rs_report s') = re_checks (rs_report s) @ cs \<and> checks_wf cs"
    and "re_request (rs_report s') = re_request (rs_report s)" by (auto intro: exI [of _ "[]"])
qed

interpretation allocate_rule: rule allocateRule
proof
  fix cl s s'
  assume e: "allocateRule cl s = Inr s'"
  then obtain pod where pod: "pe_pod (rs_evidence s) = Some pod"
    by (cases "pe_pod (rs_evidence s)") (simp_all add: allocateRule_def)
  obtain cs s1 where "allocateRule cl s = Inr s1" "re_checks (rs_report s1) = re_checks (rs_report s) @ cs" "checks_wf cs"
    "re_request (rs_report s1) = re_request (rs_report s)"
    by (rule allocateRule_pod [OF pod])
  with e show "\<exists>cs. re_checks (rs_report s') = re_checks (rs_report s) @ cs \<and> checks_wf cs"
    and "re_request (rs_report s') = re_request (rs_report s)" by auto
qed

section \<open>The pipeline\<close>

text \<open>Whatever rules are registered, a run of rules that keep the contract only adds well-formed checks.\<close>

lemma run_rules_grows:
  "list_all (\<lambda>(n, r). rule r) rules \<Longrightarrow> run_rules rules cl s = Inr s' \<Longrightarrow>
    \<exists>cs. re_checks (rs_report s') = re_checks (rs_report s) @ cs \<and> checks_wf cs"
proof (induction rules arbitrary: s)
  case (Cons nr rules)
  obtain n r where nr: "nr = (n, r)" by force
  from Cons.prems nr have c: "rule r" by simp
  from Cons.prems nr obtain s1 where s1: "r cl s = Inr s1" by (cases "r cl s") simp_all
  obtain cs where cs: "re_checks (rs_report s1) = re_checks (rs_report s) @ cs" "checks_wf cs"
    using rule.grows [OF c s1] by blast
  show ?case
  proof (cases "rs_stopped s1")
    case True
    with Cons.prems nr s1 cs show ?thesis by auto
  next
    case False
    with Cons.prems nr s1 have "run_rules rules cl s1 = Inr s'" by simp
    from Cons.IH [OF _ this] Cons.prems cs show ?thesis by fastforce
  qed
qed (auto intro: exI [of _ "[]"])

lemma analysisRules_contract: "list_all (\<lambda>(n, r). rule r) analysisRules"
  by (simp add: analysisRules_def validate_rule.rule_axioms enqueue_rule.rule_axioms job_valid_rule.rule_axioms
      allocate_rule.rule_axioms)

lemma knownStageFailure_None:
  "knownStageFailure cs stage = None \<longleftrightarrow> \<not> list_ex (\<lambda>c. chk_stage c = stage \<and> known_failure c) cs"
  by (auto simp: knownStageFailure_def find_None_iff list_ex_iff known_failure_def)

definition lookup_failed :: "cluster_api \<Rightarrow> request \<Rightarrow> bool" where
  "lookup_failed cl request = (case cl_pod cl (rq_namespace request) (rq_pod request) of Inl _ \<Rightarrow> True | Inr _ \<Rightarrow> False)"

definition gate_failed :: "check list \<Rightarrow> bool" where
  "gate_failed cs = list_ex (\<lambda>c. (chk_stage c = ''preflight'' \<or> chk_stage c = ''enqueue'' \<or> chk_stage c = ''jobValid'')
     \<and> known_failure c) cs"

definition pipeline_ok :: "cluster_api \<Rightarrow> request \<Rightarrow> rule_state \<Rightarrow> bool" where
  "pipeline_ok cl request s \<longleftrightarrow>
     re_request (rs_report s) = request \<and> re_plugin_hooks (rs_report s) = [] \<and> \<not> po_active (re_policy (rs_report s))
     \<and> (rs_stopped s \<longleftrightarrow> lookup_failed cl request \<or> gate_failed (re_checks (rs_report s)))
     \<and> (rs_stopped s \<longrightarrow> re_nodes (rs_report s) = [])
     \<and> (rs_finish_without_source s \<longleftrightarrow> pe_preflight_stopped (rs_evidence s))
     \<and> (pe_preflight_stopped (rs_evidence s) \<longleftrightarrow> lookup_failed cl request
          \<or> list_ex (\<lambda>c. chk_stage c = ''preflight'' \<and> known_failure c) (re_checks (rs_report s)))
     \<and> (pe_enqueue_stopped (rs_evidence s) \<longleftrightarrow>
          list_ex (\<lambda>c. chk_stage c = ''enqueue'' \<and> known_failure c) (re_checks (rs_report s)))
     \<and> (rs_stopped s \<longleftrightarrow> pe_preflight_stopped (rs_evidence s) \<or> pe_enqueue_stopped (rs_evidence s))
     \<and> (pe_allocate_stopped (rs_evidence s) \<longleftrightarrow> pe_enqueue_stopped (rs_evidence s))
     \<and> \<not> pe_job_valid_stopped (rs_evidence s)
     \<and> list_ex (\<lambda>c. chk_stage c = ''preflight'' \<and> chk_id c \<noteq> ''allocate.nodes'' \<and> \<not> check_ok c) (re_checks (rs_report s))"

lemma newRuleState_simps [simp]:
  "re_checks (rs_report (newRuleState rq)) = []" "re_request (rs_report (newRuleState rq)) = rq"
  "re_plugin_hooks (rs_report (newRuleState rq)) = []" "re_nodes (rs_report (newRuleState rq)) = []"
  "\<not> rs_stopped (newRuleState rq)" "\<not> rs_finish_without_source (newRuleState rq)"
  "\<not> po_active (re_policy (rs_report (newRuleState rq)))"
  "rs_evidence (newRuleState rq) = empty_evidence" "rs_captures (newRuleState rq) = 0"
  "rs_dump (newRuleState rq) = empty_cache_dump" "rs_dump_err (newRuleState rq) = None"
  by (simp_all add: newRuleState_def empty_report_def empty_policy_def)

lemma empty_evidence_simps [simp]:
  "\<not> pe_preflight_stopped empty_evidence" "\<not> pe_enqueue_stopped empty_evidence"
  "\<not> pe_job_valid_stopped empty_evidence" "\<not> pe_allocate_stopped empty_evidence"
  by (simp_all add: empty_evidence_def)


lemma list_ex_stage_append:
  "list_ex P (a @ b) \<longleftrightarrow> list_ex P a \<or> list_ex P b"
  by simp

lemma stage_not_elsewhere:
  "\<forall>c \<in> set cs. chk_stage c = t \<Longrightarrow> t \<noteq> stage \<Longrightarrow> \<not> list_ex (\<lambda>c. chk_stage c = stage \<and> P c) cs"
  by (auto simp: list_ex_iff)

lemma gate_split:
  "gate_failed cs \<longleftrightarrow> list_ex (\<lambda>c. chk_stage c = ''preflight'' \<and> known_failure c) cs
     \<or> list_ex (\<lambda>c. chk_stage c = ''enqueue'' \<and> known_failure c) cs
     \<or> list_ex (\<lambda>c. chk_stage c = ''jobValid'' \<and> known_failure c) cs"
  by (auto simp: gate_failed_def list_ex_iff)

lemma preflight_failures:
  "\<not> list_ex (\<lambda>c. chk_stage c = ''enqueue'' \<and> known_failure c) (preflight_of cl request pod)"
  "\<not> list_ex (\<lambda>c. chk_stage c = ''jobValid'' \<and> known_failure c) (preflight_of cl request pod)"
  "list_ex (\<lambda>c. chk_stage c = ''preflight'' \<and> chk_id c \<noteq> ''allocate.nodes'' \<and> \<not> check_ok c) (preflight_of cl request pod)"
proof -
  have "\<not> (chk_stage c = ''enqueue'' \<and> known_failure c) \<and> \<not> (chk_stage c = ''jobValid'' \<and> known_failure c)"
    if "c \<in> set (preflight_of cl request pod)" for c
    using preflight_stages [OF that] by (auto simp: known_failure_def)
  then show "\<not> list_ex (\<lambda>c. chk_stage c = ''enqueue'' \<and> known_failure c) (preflight_of cl request pod)"
    "\<not> list_ex (\<lambda>c. chk_stage c = ''jobValid'' \<and> known_failure c) (preflight_of cl request pod)"
    by (auto simp: list_ex_iff)
  show "list_ex (\<lambda>c. chk_stage c = ''preflight'' \<and> chk_id c \<noteq> ''allocate.nodes'' \<and> \<not> check_ok c) (preflight_of cl request pod)"
    using preflight_open [of cl request pod] by (auto simp: list_ex_iff check_ok_def)
qed

lemma pipeline:
  "\<exists>s. run_rules analysisRules cl (newRuleState request) = Inr s \<and> pipeline_ok cl request s"
proof (cases "cl_pod cl (rq_namespace request) (rq_pod request)")
  case (Inl e)
  let ?c = "targetPodLookupCheck request e"
  let ?s = "stopWithoutSource (stoppedAtPreflight ?c) (add_checks [?c] (newRuleState request))"
  have c: "chk_stage ?c = ''preflight''" "chk_id ?c \<noteq> ''allocate.nodes''" "\<not> check_ok ?c"
    by (simp_all add: targetPodLookupCheck_def Let_def check_ok_def)
  have ev: "pe_preflight_stopped (stoppedAtPreflight k)" "\<not> pe_enqueue_stopped (stoppedAtPreflight k)"
    "\<not> pe_allocate_stopped (stoppedAtPreflight k)" "\<not> pe_job_valid_stopped (stoppedAtPreflight k)" for k
    by (simp_all add: stoppedAtPreflight_def Let_def)
  have "run_rules analysisRules cl (newRuleState request) = Inr ?s"
    using validateRule_lookup [of cl "newRuleState request" e] Inl by (simp add: analysisRules_def)
  moreover have "pipeline_ok cl request ?s"
    using c ev Inl by (simp add: pipeline_ok_def lookup_failed_def)
  ultimately show ?thesis by blast
next
  case (Inr pod)
  then have l: "\<not> lookup_failed cl request" by (simp add: lookup_failed_def)
  note pf = preflight_failures [of cl request pod]
  have Inr': "cl_pod cl (rq_namespace (re_request (rs_report (newRuleState request))))
      (rq_pod (re_request (rs_report (newRuleState request)))) = Inr pod" using Inr by simp
  obtain s1 where s1: "validateRule cl (newRuleState request) = Inr s1"
    "re_checks (rs_report s1) = preflight_of cl request pod" "re_request (rs_report s1) = request"
    "re_nodes (rs_report s1) = []" "re_plugin_hooks (rs_report s1) = []" "\<not> po_active (re_policy (rs_report s1))"
    "pe_pod (rs_evidence s1) = Some pod"
    and v: "case knownStageFailure (re_checks (rs_report s1)) ''preflight'' of
        None \<Rightarrow> \<not> rs_stopped s1 \<and> \<not> rs_finish_without_source s1 \<and> \<not> pe_preflight_stopped (rs_evidence s1)
          \<and> \<not> pe_enqueue_stopped (rs_evidence s1) \<and> \<not> pe_job_valid_stopped (rs_evidence s1)
          \<and> \<not> pe_allocate_stopped (rs_evidence s1)
      | Some f \<Rightarrow> rs_stopped s1 \<and> rs_finish_without_source s1 \<and> pe_preflight_stopped (rs_evidence s1)
          \<and> \<not> pe_enqueue_stopped (rs_evidence s1) \<and> \<not> pe_job_valid_stopped (rs_evidence s1)
          \<and> \<not> pe_allocate_stopped (rs_evidence s1)"
    by (rule validateRule_pod [OF Inr']) (auto split: option.splits)
  show ?thesis
  proof (cases "knownStageFailure (re_checks (rs_report s1)) ''preflight''")
    case (Some f)
    then have "list_ex (\<lambda>c. chk_stage c = ''preflight'' \<and> known_failure c) (preflight_of cl request pod)"
      using knownStageFailure_None [of "re_checks (rs_report s1)" "''preflight''"] s1(2) by simp
    moreover have "run_rules analysisRules cl (newRuleState request) = Inr s1"
      using v s1(1) Some by (simp add: analysisRules_def)
    ultimately show ?thesis using v Some s1 pf l by (auto simp: pipeline_ok_def gate_split)
  next
    case None
    then have p0: "\<not> list_ex (\<lambda>c. chk_stage c = ''preflight'' \<and> known_failure c) (preflight_of cl request pod)"
      using knownStageFailure_None [of "re_checks (rs_report s1)" "''preflight''"] s1(2) by simp
    have obs: "observedEnqueueAction (re_policy (rs_report s1))" using s1(6) by (simp add: observedEnqueueAction_def)
    obtain cs s2 where s2: "enqueueRule cl s1 = Inr s2" "\<forall>c \<in> set cs. chk_stage c = ''enqueue''"
      "rs_report s2 = (rs_report s1)\<lparr>re_checks := preflight_of cl request pod @ cs\<rparr>"
      "pe_pod (rs_evidence s2) = Some pod" "rs_finish_without_source s2 = rs_finish_without_source s1"
      "pe_preflight_stopped (rs_evidence s2) = pe_preflight_stopped (rs_evidence s1)"
      "pe_job_valid_stopped (rs_evidence s2) = pe_job_valid_stopped (rs_evidence s1)"
      and e: "if knownStageFailure (re_checks (rs_report s2)) ''enqueue'' \<noteq> None
        then rs_stopped s2 \<and> pe_enqueue_stopped (rs_evidence s2) \<and> pe_allocate_stopped (rs_evidence s2)
        else rs_stopped s2 = rs_stopped s1 \<and> pe_enqueue_stopped (rs_evidence s2) = pe_enqueue_stopped (rs_evidence s1)
          \<and> pe_allocate_stopped (rs_evidence s2) = pe_allocate_stopped (rs_evidence s1)"
      by (rule enqueueRule_pod [OF s1(7), of cl]) (simp add: s1(2) obs)
    note cs = stage_not_elsewhere [OF s2(2)]
    have checks2: "re_checks (rs_report s2) = preflight_of cl request pod @ cs" by (simp add: s2(3))
    have jv: "\<not> list_ex (\<lambda>c. chk_stage c = ''jobValid'' \<and> known_failure c) (re_checks (rs_report s2))"
      using pf cs by (simp add: checks2)
    have p2: "\<not> list_ex (\<lambda>c. chk_stage c = ''preflight'' \<and> known_failure c) (re_checks (rs_report s2))"
      using p0 cs by (simp add: checks2)
    show ?thesis
    proof (cases "knownStageFailure (re_checks (rs_report s2)) ''enqueue''")
      case (Some f)
      then have "list_ex (\<lambda>c. chk_stage c = ''enqueue'' \<and> known_failure c) (re_checks (rs_report s2))"
        using knownStageFailure_None [of "re_checks (rs_report s2)" "''enqueue''"] by simp
      moreover have "run_rules analysisRules cl (newRuleState request) = Inr s2"
        using v e s1(1) s2(1) None Some by (simp add: analysisRules_def)
      moreover have "list_ex (\<lambda>c. chk_stage c = ''preflight'' \<and> chk_id c \<noteq> ''allocate.nodes'' \<and> \<not> check_ok c)
          (re_checks (rs_report s2))" using pf by (simp add: checks2)
      ultimately show ?thesis
        using v e None Some s1 s2(3,5,6,7) p2 jv l by (auto simp: pipeline_ok_def gate_split)
    next
      case none2: None
      then have e2: "\<not> list_ex (\<lambda>c. chk_stage c = ''enqueue'' \<and> known_failure c) (re_checks (rs_report s2))"
        using knownStageFailure_None [of "re_checks (rs_report s2)" "''enqueue''"] by simp
      have j: "jobValidRule cl s2 = Inr s2"
        using knownStageFailure_None [of "re_checks (rs_report s2)" "''jobValid''"] jv by (simp add: jobValidRule_def)
      obtain ds s3 where s3: "allocateRule cl s2 = Inr s3" "re_checks (rs_report s3) = re_checks (rs_report s2) @ ds"
        "\<forall>c \<in> set ds. chk_stage c = ''allocate''" "re_request (rs_report s3) = re_request (rs_report s2)"
        "re_plugin_hooks (rs_report s3) = re_plugin_hooks (rs_report s2)"
        "re_policy (rs_report s3) = re_policy (rs_report s2)" "rs_evidence s3 = rs_evidence s2"
        "rs_stopped s3 = rs_stopped s2" "rs_finish_without_source s3 = rs_finish_without_source s2"
        by (rule allocateRule_pod [OF s2(4), of cl])
      note ds = stage_not_elsewhere [OF s3(3)]
      have st: "\<not> rs_stopped s1" "\<not> rs_stopped s2" using v e None none2 by simp_all
      have "run_rules analysisRules cl (newRuleState request) = Inr s3"
        using st s1(1) s2(1) j s3(1,8) by (simp add: analysisRules_def)
      moreover have "list_ex (\<lambda>c. chk_stage c = ''preflight'' \<and> chk_id c \<noteq> ''allocate.nodes'' \<and> \<not> check_ok c)
          (re_checks (rs_report s3))" using pf by (simp add: checks2 s3(2))
      moreover have "\<not> gate_failed (re_checks (rs_report s3))"
        "\<not> list_ex (\<lambda>c. chk_stage c = ''preflight'' \<and> known_failure c) (re_checks (rs_report s3))"
        "\<not> list_ex (\<lambda>c. chk_stage c = ''enqueue'' \<and> known_failure c) (re_checks (rs_report s3))"
        using ds p2 e2 jv by (simp_all add: gate_split s3(2))
      ultimately show ?thesis
        using v e None none2 s1 s2(3,5,6,7) s3 st l by (auto simp: pipeline_ok_def)
    qed
  qed
qed


section \<open>The end of an analysis\<close>

text \<open>Whatever way an analysis ends, its report is a finished one, with the collected checks and a sound
  hook inventory, on which at most the LLM was asked.\<close>

lemma completeReport_form:
  assumes "re_plugin_hooks report = []"
  obtains report' where "re_checks report' = re_checks report" and "re_nodes report' = re_nodes report"
    and "re_policy report' = re_policy report" and "re_request report' = re_request report"
    and "hooks_sound (re_plugin_hooks report')"
    and "completeReport env report scheduler ev = finishReport (fe_now env) report' ev
      \<or> (\<exists>w srcs. completeReport env report scheduler ev = ask_llm env w srcs (finishReport (fe_now env) report' ev))"
proof (cases "sch_name scheduler \<noteq> '''' \<or> rq_branch (re_request report) \<noteq> ''''")
  case False
  then show ?thesis by (intro that [of report]) (auto simp: completeReport_def hooks_sound_def assms)
next
  case True
  then have c: "completeReport env report scheduler ev = applySourceFallback env report scheduler ev"
    by (simp add: completeReport_def)
  show ?thesis
  proof (cases "fe_source env")
    case None
    show ?thesis
      by (rule that [of "report\<lparr>re_source_fallback := True,
          re_llm := ''source preparation failed: source manager is not configured''\<rparr>"])
        (simp_all add: c applySourceFallback_def None hooks_sound_def assms)
  next
    case (Some source)
    define r0 where "r0 = report\<lparr>re_source_fallback := True\<rparr>"
    have r0: "re_checks r0 = re_checks report" "re_nodes r0 = re_nodes report" "re_policy r0 = re_policy report"
      "re_request r0 = re_request report" "re_plugin_hooks r0 = []" by (simp_all add: r0_def assms)
    show ?thesis
    proof (cases "prepareSource (fe_version env) source (re_request r0) scheduler")
      case (Inl e)
      have "applySourceFallback env report scheduler ev
          = finishReport (fe_now env) (r0\<lparr>re_llm := ''source preparation failed: '' @ err_text e\<rparr>) ev"
        unfolding applySourceFallback_def Let_def Some option.case r0_def [symmetric] Inl sum.case ..
      then show ?thesis
        by (intro that [of "r0\<lparr>re_llm := ''source preparation failed: '' @ err_text e\<rparr>"])
          (simp_all only: c, simp_all add: r0 hooks_sound_def)
    next
      case w: (Inr w)
      show ?thesis
      proof (cases "so_load_sources source w")
        case (Inl e)
        have "applySourceFallback env report scheduler ev
            = finishReport (fe_now env) (r0\<lparr>re_llm := ''index selected Volcano source failed: '' @ err_text e\<rparr>) ev"
          unfolding applySourceFallback_def Let_def Some option.case r0_def [symmetric] w Inl sum.case ..
        then show ?thesis
          by (intro that [of "r0\<lparr>re_llm := ''index selected Volcano source failed: '' @ err_text e\<rparr>"])
            (simp_all only: c, simp_all add: r0 hooks_sound_def)
      next
        case (Inr srcs)
        obtain d de where d: "so_plugin_defaults source w = (d, de)" by force
        obtain p pe where p: "so_predicate_defaults source w = (p, pe)" by force
        let ?r = "r0\<lparr>re_predicate_defaults := p, re_predicate_defaults_err := (case pe of
              None \<Rightarrow> re_predicate_defaults_err r0 | Some e \<Rightarrow> err_text e),
            re_plugin_hooks := InspectPluginHooks (re_policy r0) srcs d de, re_hooks_inspected := True\<rparr>"
        have h: "hooks_sound (re_plugin_hooks ?r)"
          using InspectPluginHooks_ok by (auto simp: hooks_sound_def list_all_iff hook_report_ok_def)
        have "applySourceFallback env report scheduler ev
            = ask_llm env w srcs (finishReport (fe_now env) ?r ev)"
          unfolding applySourceFallback_def Let_def Some option.case r0_def [symmetric] w sum.case Inr d p prod.case ..
        then show ?thesis by (intro that [of ?r, OF _ _ _ _ h]) (simp_all only: c, (auto simp: r0)[5])
      qed
    qed
  qed
qed

text \<open>The stages of a finished report follow the stops of the run.\<close>

lemma Analyze_cases:
  assumes "Analyze env (Some cl) request = Inr r"
  obtains s report' where "run_rules analysisRules cl (newRuleState request) = Inr s" and "pipeline_ok cl request s"
    and "re_checks report' = re_checks (rs_report s)" and "re_nodes report' = re_nodes (rs_report s)"
    and "re_policy report' = re_policy (rs_report s)" and "hooks_sound (re_plugin_hooks report')"
    and "r = finishReport (fe_now env) report' (rs_evidence s)
      \<or> (\<exists>w srcs. r = ask_llm env w srcs (finishReport (fe_now env) report' (rs_evidence s)))"
proof -
  obtain s where s: "run_rules analysisRules cl (newRuleState request) = Inr s" "pipeline_ok cl request s"
    using pipeline by blast
  have hooks: "re_plugin_hooks (rs_report s) = []" using s(2) by (simp add: pipeline_ok_def)
  from assms have r: "r = (if rs_finish_without_source s then finishReport (fe_now env) (rs_report s) (rs_evidence s)
      else completeReport env (rs_report s) (rs_scheduler s) (rs_evidence s))"
    by (simp add: Analyze_def s(1) split: if_splits)
  show ?thesis
  proof (cases "rs_finish_without_source s")
    case True
    with r show ?thesis by (intro that [OF s, of "rs_report s"]) (simp_all add: hooks_sound_def hooks)
  next
    case False
    obtain report' where "re_checks report' = re_checks (rs_report s)" "re_nodes report' = re_nodes (rs_report s)"
      "re_policy report' = re_policy (rs_report s)" "hooks_sound (re_plugin_hooks report')"
      "completeReport env (rs_report s) (rs_scheduler s) (rs_evidence s) = finishReport (fe_now env) report' (rs_evidence s)
      \<or> (\<exists>w srcs. completeReport env (rs_report s) (rs_scheduler s) (rs_evidence s)
          = ask_llm env w srcs (finishReport (fe_now env) report' (rs_evidence s)))"
      by (rule completeReport_form [OF hooks])
    with False r show ?thesis by (intro that [OF s, of report']) simp_all
  qed
qed

lemma Analyze_shape:
  assumes "Analyze env (Some cl) request = Inr r"
  obtains s report' where "run_rules analysisRules cl (newRuleState request) = Inr s" and "pipeline_ok cl request s"
    and "re_checks report' = re_checks (rs_report s)"
    and "hooks_sound (re_plugin_hooks report')" and "re_policy report' = re_policy (rs_report s)"
    and "re_passed r = re_passed (finishReport (fe_now env) report' (rs_evidence s))"
    and "re_enqueue r = buildEnqueuePresentation (fe_now env) (finalizeReport report') (rs_evidence s)"
    and "re_job_valid r = buildJobValidPresentation (finalizeReport report') (rs_evidence s)"
    and "re_allocate r = buildAllocatePresentation (finalizeReport report') (rs_evidence s)"
proof -
  obtain s report' where *: "run_rules analysisRules cl (newRuleState request) = Inr s" "pipeline_ok cl request s"
    "re_checks report' = re_checks (rs_report s)" "re_policy report' = re_policy (rs_report s)"
    "hooks_sound (re_plugin_hooks report')"
    and r: "r = finishReport (fe_now env) report' (rs_evidence s)
      \<or> (\<exists>w srcs. r = ask_llm env w srcs (finishReport (fe_now env) report' (rs_evidence s)))"
    by (rule Analyze_cases [OF assms])
  have "re_passed r = re_passed (finishReport (fe_now env) report' (rs_evidence s))
    \<and> re_enqueue r = buildEnqueuePresentation (fe_now env) (finalizeReport report') (rs_evidence s)
    \<and> re_job_valid r = buildJobValidPresentation (finalizeReport report') (rs_evidence s)
    \<and> re_allocate r = buildAllocatePresentation (finalizeReport report') (rs_evidence s)"
    using r by (elim disjE exE) simp_all
  then show ?thesis by (intro that [OF *(1-3) *(5) *(4)]) simp_all
qed

section \<open>Properties\<close>

text \<open>C29: an analysis returns an error exactly when the request names no namespace or no Pod, or when there
  is no cluster client; every cluster error becomes a check of the report, and the error branches of
  the enqueue and allocate rules are never reached.\<close>

theorem analyze_errors:
  "(\<exists>e. Analyze env cluster request = Inl e) \<longleftrightarrow> rq_namespace request = '''' \<or> rq_pod request = '''' \<or> cluster = None"
proof (cases cluster)
  case None
  then show ?thesis by (simp add: Analyze_def)
next
  case (Some cl)
  obtain s where "run_rules analysisRules cl (newRuleState request) = Inr s" using pipeline by blast
  then show ?thesis by (auto simp: Analyze_def Some)
qed

text \<open>C1: no analysis ever reports a Pod as passed: the policy observation always leaves one preflight check
  open, or the Pod could not be read at all. So \<open>Passed\<close> is false in every report the program returns,
  and the conclusion that everything passed is never computed.\<close>

theorem no_analysis_passes:
  "case Analyze env cluster request of Inl e \<Rightarrow> True | Inr r \<Rightarrow> \<not> re_passed r"
proof (cases "Analyze env cluster request")
  case (Inr r)
  then obtain cl where cl: "cluster = Some cl" by (cases cluster) (auto simp: Analyze_def split: if_splits)
  from Inr cl have a: "Analyze env (Some cl) request = Inr r" by simp
  obtain s report' where s: "pipeline_ok cl request s" "re_checks report' = re_checks (rs_report s)"
    and p: "re_passed r = re_passed (finishReport (fe_now env) report' (rs_evidence s))"
    by (rule Analyze_shape [OF a])
  from s obtain c where c: "c \<in> set (re_checks report')" "chk_stage c = ''preflight''"
    "chk_id c \<noteq> ''allocate.nodes''" "\<not> check_ok c"
    by (auto simp: pipeline_ok_def list_ex_iff)
  then have "stage_of c \<noteq> ''''" by (simp add: stage_of_def normalizedActionStage_def)
  from finishReport_bad [OF c(1,3) this c(4)] p Inr show ?thesis by simp
qed simp

text \<open>C13: the four rules never return an error, stop exactly when the Pod could not be read or a gate failed for
  certain (a preflight, enqueue or JobValid check), and a run that stops early collects no nodes. The
  stop flags say which gate it was; the JobValid one is never set.\<close>

theorem pipeline_stops:
  "case run_rules analysisRules cl (newRuleState request) of
     Inl e \<Rightarrow> False
   | Inr s \<Rightarrow>
       (let checks = re_checks (rs_report s); ev = rs_evidence s in
         (rs_stopped s \<longleftrightarrow> lookup_failed cl request \<or> gate_failed checks)
         \<and> (pe_preflight_stopped ev \<longleftrightarrow> lookup_failed cl request
             \<or> list_ex (\<lambda>c. chk_stage c = ''preflight'' \<and> known_failure c) checks)
         \<and> (pe_enqueue_stopped ev \<longleftrightarrow> list_ex (\<lambda>c. chk_stage c = ''enqueue'' \<and> known_failure c) checks)
         \<and> \<not> pe_job_valid_stopped ev \<and> (pe_allocate_stopped ev \<longleftrightarrow> pe_enqueue_stopped ev)
         \<and> (if rs_stopped s then re_nodes (rs_report s) = [] else True))"
proof -
  obtain s where "run_rules analysisRules cl (newRuleState request) = Inr s" "pipeline_ok cl request s"
    using pipeline by blast
  then show ?thesis by (auto simp: pipeline_ok_def Let_def)
qed

text \<open>C2: end to end, the stages of the returned report follow the gates: enqueue is skipped exactly when the
  Pod could not be read or preflight failed for certain, and JobValid and allocate are skipped exactly
  when, besides that, an enqueue check failed for certain.\<close>

theorem analysis_stages:
  "case (run_rules analysisRules cl (newRuleState request), Analyze env (Some cl) request) of
     (Inr s, Inr r) \<Rightarrow>
       (let failed = (\<lambda>stage. list_ex (\<lambda>c. chk_stage c = stage \<and> known_failure c) (re_checks (rs_report s)));
            preflight = (lookup_failed cl request \<or> failed ''preflight'') in
         (ss_outcome (er_state (re_enqueue r)) = OutcomeSkipped \<longleftrightarrow> preflight)
         \<and> (ss_outcome (jr_state (re_job_valid r)) = OutcomeSkipped \<longleftrightarrow> preflight \<or> failed ''enqueue'')
         \<and> (ss_outcome (ar_state (re_allocate r)) = OutcomeSkipped \<longleftrightarrow> preflight \<or> failed ''enqueue''))
   | (Inr s, Inl e) \<Rightarrow> rq_namespace request = '''' \<or> rq_pod request = ''''
   | _ \<Rightarrow> False"
proof -
  obtain s0 where s0: "run_rules analysisRules cl (newRuleState request) = Inr s0" using pipeline by blast
  show ?thesis
  proof (cases "Analyze env (Some cl) request")
    case (Inl e)
    then show ?thesis using s0 by (simp add: Analyze_def split: if_splits)
  next
    case (Inr r)
    obtain s report' where s: "run_rules analysisRules cl (newRuleState request) = Inr s" "pipeline_ok cl request s"
      "re_enqueue r = buildEnqueuePresentation (fe_now env) (finalizeReport report') (rs_evidence s)"
      "re_job_valid r = buildJobValidPresentation (finalizeReport report') (rs_evidence s)"
      "re_allocate r = buildAllocatePresentation (finalizeReport report') (rs_evidence s)"
      by (rule Analyze_shape [OF Inr])
    then show ?thesis by (auto simp: Inr stages_skipped pipeline_ok_def Let_def)
  qed
qed

end
