(* ===== verification/Scheduler_Config.thy ===== *)
theory Scheduler_Config
  imports Cluster_Types Go_Paths
begin

text \<open>
  File \<open>internal/cluster/scheduler_config.go\<close>: from the scheduler Pod to the policy it declares. The
  flag \<open>--scheduler-conf\<close> names a file, the volume mounts of the container say which ConfigMap key is
  projected there, and the decoded document gives actions, tiers and configurations. The Pod and
  ConfigMap listers (client-go) and the YAML decoder are parameters. The facts: which mount serves the
  file and that the projected path is the rest of the path below it, when the configuration is
  determinate, and that actions printed with commas are parsed back.
\<close>

section \<open>Documents\<close>

text \<open>The document the YAML decoder fills: a tier is the list of its plugin mappings.\<close>

record config_document =
  dc_actions :: string
  dc_tiers :: "any_val gomap list list"
  dc_configurations :: "any_val gomap list"
  dc_metrics :: "any_val gomap"

record config_map =
  cmp_uid :: string
  cmp_version :: string
  cmp_data :: "string gomap"
  cmp_binary :: "string gomap"

record config_reference =
  rf_namespace :: string
  rf_name :: string
  rf_key :: string

record config_api =
  ca_pod :: "string \<Rightarrow> string \<Rightarrow> go_error + pod"
  ca_config_map :: "string \<Rightarrow> string \<Rightarrow> go_error + config_map"
  ca_yaml :: "string \<Rightarrow> go_error + config_document"

section \<open>Actions and plugins\<close>

fun actions_loop :: "string list \<Rightarrow> string list \<Rightarrow> go_error + string list" where
  "actions_loop [] actions = Inr actions"
| "actions_loop (part # parts) actions =
     (let action = trim_space part
      in if action = '''' then Inl (errorf ''actions contains an empty action name'')
         else actions_loop parts (actions @ [action]))"

definition parseSchedulerActions :: "string \<Rightarrow> go_error + string list" where
  "parseSchedulerActions value = actions_loop (split_on CHR '','' value) []"

definition parseNamedSchedulerOptions ::
  "any_val gomap \<Rightarrow> go_error + (string \<times> any_val gomap \<times> any_val gomap)" where
  "parseNamedSchedulerOptions raw =
     (case gm_get raw ''name'' of
        Some (AnyStr rawName) \<Rightarrow>
          if trim_space rawName = '''' then Inl (errorf ''name must be a non-empty string'')
          else (let name = trim_space rawName;
                    options = filter (\<lambda>(key, value). \<not> (key = ''name'' \<or> key = ''arguments'')) raw
                in case gm_get raw ''arguments'' of
                     None \<Rightarrow> Inr (name, [], options)
                   | Some AnyNil \<Rightarrow> Inr (name, [], options)
                   | Some (AnyMap arguments) \<Rightarrow> Inr (name, arguments, options)
                   | Some _ \<Rightarrow> Inl (errorf (''arguments for '' @ fmt_q name @ '' must be a mapping'')))
      | _ \<Rightarrow> Inl (errorf ''name must be a non-empty string''))"

definition parseSchedulerPlugin :: "any_val gomap \<Rightarrow> go_error + scheduler_plugin" where
  "parseSchedulerPlugin raw =
     (case parseNamedSchedulerOptions raw of
        Inl e \<Rightarrow> Inl e
      | Inr (name, arguments, options) \<Rightarrow> Inr \<lparr>sp_name = name, sp_arguments = arguments, sp_options = options\<rparr>)"

text \<open>The options of a configuration entry are parsed and kept by the code; nothing reads them later.\<close>

definition parseSchedulerPluginConfiguration :: "any_val gomap \<Rightarrow> go_error + plugin_configuration" where
  "parseSchedulerPluginConfiguration raw =
     (case parseNamedSchedulerOptions raw of
        Inl e \<Rightarrow> Inl e
      | Inr (name, arguments, options) \<Rightarrow> Inr \<lparr>pcf_name = name, pcf_arguments = arguments\<rparr>)"

fun plugins_loop ::
  "nat \<Rightarrow> nat \<Rightarrow> any_val gomap list \<Rightarrow> scheduler_plugin list \<Rightarrow> go_error + scheduler_plugin list" where
  "plugins_loop tierIndex pluginIndex [] plugins = Inr plugins"
| "plugins_loop tierIndex pluginIndex (raw # raws) plugins =
     (case parseSchedulerPlugin raw of
        Inl e \<Rightarrow> Inl (errorw (''tiers['' @ fmt_n tierIndex @ ''].plugins['' @ fmt_n pluginIndex @ '']: '') e)
      | Inr plugin \<Rightarrow> plugins_loop tierIndex (Suc pluginIndex) raws (plugins @ [plugin]))"

fun tiers_loop :: "nat \<Rightarrow> any_val gomap list list \<Rightarrow> scheduler_tier list \<Rightarrow> go_error + scheduler_tier list" where
  "tiers_loop tierIndex [] tiers = Inr tiers"
| "tiers_loop tierIndex (document # documents) tiers =
     (case plugins_loop tierIndex 0 document [] of
        Inl e \<Rightarrow> Inl e
      | Inr plugins \<Rightarrow> tiers_loop (Suc tierIndex) documents (tiers @ [\<lparr>sti_plugins = plugins\<rparr>]))"

fun configurations_loop ::
  "nat \<Rightarrow> any_val gomap list \<Rightarrow> plugin_configuration list \<Rightarrow> go_error + plugin_configuration list" where
  "configurations_loop index [] configurations = Inr configurations"
| "configurations_loop index (raw # raws) configurations =
     (case parseSchedulerPluginConfiguration raw of
        Inl e \<Rightarrow> Inl (errorw (''configurations['' @ fmt_n index @ '']: '') e)
      | Inr configuration \<Rightarrow> configurations_loop (Suc index) raws (configurations @ [configuration]))"

definition parseSchedulerConfiguration ::
  "(string \<Rightarrow> go_error + config_document) \<Rightarrow> string
    \<Rightarrow> go_error + (string list \<times> scheduler_tier list \<times> plugin_configuration list \<times> any_val gomap)" where
  "parseSchedulerConfiguration yaml content =
     (case yaml content of
        Inl e \<Rightarrow> Inl e
      | Inr document \<Rightarrow>
     (case parseSchedulerActions (dc_actions document) of
        Inl e \<Rightarrow> Inl e
      | Inr actions \<Rightarrow>
     (case tiers_loop 0 (dc_tiers document) [] of
        Inl e \<Rightarrow> Inl e
      | Inr tiers \<Rightarrow>
     (case configurations_loop 0 (dc_configurations document) [] of
        Inl e \<Rightarrow> Inl e
      | Inr configurations \<Rightarrow> Inr (actions, tiers, configurations, dc_metrics document)))))"

section \<open>The path of the configuration\<close>

definition containerByName :: "pod \<Rightarrow> string \<Rightarrow> container option" where
  "containerByName pod name = find (\<lambda>container. ct_name container = name) (pod_containers pod)"

text \<open>The cut set of \<open>trimShellToken\<close>: the two quotes, the backquote, the semicolon and the backslash.\<close>

definition trimShellToken :: "string \<Rightarrow> string" where
  "trimShellToken value = trim_with (\<lambda>c. (of_char c :: nat) \<in> {34, 39, 96, 59, 92}) value"

definition conf_flag :: string where
  "conf_flag = ''--scheduler-conf''"

text \<open>The checks on one value; \<open>paths\<close> is the set of paths in order of first occurrence.\<close>

definition conf_value :: "string \<Rightarrow> string list \<Rightarrow> go_error + string list" where
  "conf_value value paths =
     (if value = '''' then Inl (errorf ''scheduler flag --scheduler-conf has an empty value'')
      else if contains value ''$('' \<or> contains value ''${'' then
        Inl (errorf ''scheduler flag --scheduler-conf uses runtime variable expansion'')
      else if \<not> is_abs value then
        Inl (errorf (''scheduler flag --scheduler-conf path '' @ fmt_q value @ '' is not absolute''))
      else Inr (if path_clean value \<in> set paths then paths else paths @ [path_clean value]))"

fun conf_loop :: "string list \<Rightarrow> string list \<Rightarrow> go_error + string list" where
  "conf_loop [] paths = Inr paths"
| "conf_loop (f # fs) paths =
     (let field = trimShellToken f
      in if field = conf_flag then
           (case fs of
              [] \<Rightarrow> Inl (errorf ''scheduler flag --scheduler-conf has no value'')
            | v # rest \<Rightarrow>
                (case conf_value (trimShellToken v) paths of
                   Inl e \<Rightarrow> Inl e
                 | Inr paths' \<Rightarrow> conf_loop rest paths'))
         else if has_prefix field (conf_flag @ ''='') then
           (case conf_value (trimShellToken (trim_prefix field (conf_flag @ ''=''))) paths of
              Inl e \<Rightarrow> Inl e
            | Inr paths' \<Rightarrow> conf_loop fs paths')
         else conf_loop fs paths)"

text \<open>\<open>None\<close> is the second result \<open>false\<close>: no flag is given.\<close>

definition schedulerConfigurationPath :: "container \<Rightarrow> go_error + string option" where
  "schedulerConfigurationPath container =
     (case conf_loop (Go_Strings.fields (join (ct_command container @ ct_args container) '' '')) [] of
        Inl e \<Rightarrow> Inl e
      | Inr [] \<Rightarrow> Inr None
      | Inr [path] \<Rightarrow> Inr (Some path)
      | Inr (_ # _ # _) \<Rightarrow> Inl (errorf ''scheduler command contains conflicting --scheduler-conf paths''))"

section \<open>Volume mounts\<close>

text \<open>The relative path of the file below a mounted directory; \<open>None\<close> where the code skips the mount.\<close>

definition below_mount :: "string \<Rightarrow> string \<Rightarrow> string option" where
  "below_mount mountPath configurationPath =
     (case path_rel mountPath (path_clean configurationPath) of
        Inl e \<Rightarrow> None
      | Inr relative \<Rightarrow> if relative = ''.'' \<or> leaves_base relative then None else Some relative)"

definition mount_serves :: "string \<Rightarrow> volume_mount \<Rightarrow> bool" where
  "mount_serves configurationPath mount =
     (let mountPath = path_clean (vm_path mount)
      in if vm_sub_path mount \<noteq> '''' then path_clean configurationPath = mountPath
         else below_mount mountPath configurationPath \<noteq> None)"

definition mount_step :: "string \<Rightarrow> volume_mount \<Rightarrow> volume_mount option \<times> int \<Rightarrow> volume_mount option \<times> int" where
  "mount_step configurationPath mount st =
     (let (selected, selectedLength) = st
      in if \<not> mount_serves configurationPath mount then st
         else if selectedLength < int (length (path_clean (vm_path mount))) then
           (Some mount, int (length (path_clean (vm_path mount))))
         else st)"

definition longestMatchingVolumeMount :: "volume_mount list \<Rightarrow> string \<Rightarrow> volume_mount option" where
  "longestMatchingVolumeMount mounts configurationPath =
     fst (fold (mount_step configurationPath) mounts (None, -1))"

definition podVolumeByName :: "pod \<Rightarrow> string \<Rightarrow> volume option" where
  "podVolumeByName pod name = find (\<lambda>volume. vo_name volume = name) (pod_volumes pod)"

definition projectedConfigurationPath :: "volume_mount \<Rightarrow> string \<Rightarrow> go_error + string" where
  "projectedConfigurationPath mount configurationPath =
     (if vm_sub_path mount \<noteq> '''' then Inr (path_clean (vm_sub_path mount))
      else (case below_mount (path_clean (vm_path mount)) configurationPath of
          None \<Rightarrow> Inl (errorf (''scheduler configuration path '' @ fmt_q configurationPath @
            '' is outside volume mount '' @ fmt_q (vm_path mount)))
        | Some relative \<Rightarrow> Inr relative))"

definition configMapKeyForProjectedPath :: "config_map_source \<Rightarrow> string \<Rightarrow> go_error + string" where
  "configMapKeyForProjectedPath source projectedPath =
     (if cs_items source = [] then Inr projectedPath
      else (let cleanPath = path_clean projectedPath;
                failed = errorf (''scheduler configuration projected path '' @ fmt_q projectedPath @
                  '' is not mapped by the ConfigMap volume items'')
            in case find (\<lambda>(key, path). path_clean path = cleanPath) (cs_items source) of
                 None \<Rightarrow> Inl failed
               | Some (key, path) \<Rightarrow> if key = '''' then Inl failed else Inr key))"

definition schedulerConfigMapForPath :: "pod \<Rightarrow> container \<Rightarrow> string \<Rightarrow> go_error + config_reference" where
  "schedulerConfigMapForPath pod container configurationPath =
     (case longestMatchingVolumeMount (ct_mounts container) configurationPath of
        None \<Rightarrow> Inl (errorf (''scheduler configuration path '' @ fmt_q configurationPath @
          '' is not backed by a container volume mount''))
      | Some mount \<Rightarrow>
     (case podVolumeByName pod (vm_name mount) of
        None \<Rightarrow> Inl (errorf (''scheduler volume mount '' @ fmt_q (vm_name mount) @ '' has no matching Pod volume''))
      | Some volume \<Rightarrow>
     (case vo_config_map volume of
        None \<Rightarrow> Inl (errorf (''scheduler configuration volume '' @ fmt_q (vo_name volume) @
          '' is not backed by a named ConfigMap''))
      | Some source \<Rightarrow>
          if cs_name source = '''' then
            Inl (errorf (''scheduler configuration volume '' @ fmt_q (vo_name volume) @
              '' is not backed by a named ConfigMap''))
          else
     (case projectedConfigurationPath mount configurationPath of
        Inl e \<Rightarrow> Inl e
      | Inr projectedPath \<Rightarrow>
     (case configMapKeyForProjectedPath source projectedPath of
        Inl e \<Rightarrow> Inl e
      | Inr key \<Rightarrow> Inr \<lparr>rf_namespace = pod_namespace pod, rf_name = cs_name source, rf_key = key\<rparr>)))))"

section \<open>The configuration of a scheduler\<close>

definition text_default_conf :: string where
  "text_default_conf = ''scheduler does not set --scheduler-conf; the active configuration comes from the branch-compiled DefaultSchedulerConf''"

definition text_parsed_conf :: string where
  "text_parsed_conf = ''parsed the ConfigMap mounted by the current scheduler leader; ConfigMap projection and scheduler file reload are eventually consistent''"

text \<open>The part that fails with a reason in the result and no error.\<close>

definition read_configuration :: "config_api \<Rightarrow> scheduler \<Rightarrow> runtime_config \<Rightarrow> runtime_config" where
  "read_configuration api scheduler result =
     (case ca_pod api (sch_namespace scheduler) (sch_name scheduler) of
        Inl e \<Rightarrow> result\<lparr>rc_reason := ''read scheduler Pod from informer cache: '' @ err_text e\<rparr>
      | Inr pod \<Rightarrow>
          if sch_uid scheduler \<noteq> '''' \<and> pod_uid pod \<noteq> sch_uid scheduler then
            result\<lparr>rc_reason := ''scheduler Pod UID changed while reading policy: discovered='' @ sch_uid scheduler @
              '' cached='' @ pod_uid pod\<rparr>
          else
     (case containerByName pod (sch_container scheduler) of
        None \<Rightarrow> result\<lparr>rc_reason := ''scheduler container is unavailable in the informer cache''\<rparr>
      | Some container \<Rightarrow>
     (case schedulerConfigurationPath container of
        Inl e \<Rightarrow> result\<lparr>rc_reason := err_text e\<rparr>
      | Inr None \<Rightarrow> result\<lparr>rc_reason := text_default_conf\<rparr>
      | Inr (Some configurationPath) \<Rightarrow>
     (let result1 = result\<lparr>rc_conf_path := configurationPath\<rparr>
      in case schedulerConfigMapForPath pod container configurationPath of
           Inl e \<Rightarrow> result1\<lparr>rc_reason := err_text e\<rparr>
         | Inr reference \<Rightarrow>
     (let result2 = result1\<lparr>rc_cm_namespace := rf_namespace reference, rc_cm_name := rf_name reference,
            rc_cm_key := rf_key reference\<rparr>;
          place = rf_namespace reference @ ''/'' @ rf_name reference
      in case ca_config_map api (rf_namespace reference) (rf_name reference) of
           Inl e \<Rightarrow> result2\<lparr>rc_reason := ''read scheduler ConfigMap '' @ place @ '' from informer cache: '' @ err_text e\<rparr>
         | Inr configMap \<Rightarrow>
     (let result3 = result2\<lparr>rc_cm_uid := cmp_uid configMap, rc_cm_version := cmp_version configMap\<rparr>
      in case (case gm_get (cmp_data configMap) (rf_key reference) of
                 Some content \<Rightarrow> Some content
               | None \<Rightarrow> gm_get (cmp_binary configMap) (rf_key reference)) of
           None \<Rightarrow> result3\<lparr>rc_reason := ''scheduler ConfigMap '' @ place @ '' does not contain key '' @
             fmt_q (rf_key reference)\<rparr>
         | Some content \<Rightarrow>
     (case parseSchedulerConfiguration (ca_yaml api) content of
        Inl e \<Rightarrow> result3\<lparr>rc_reason := ''parse scheduler ConfigMap '' @ place @ '' key '' @
          fmt_q (rf_key reference) @ '': '' @ err_text e\<rparr>
      | Inr (actions, tiers, configurations, metrics) \<Rightarrow>
          result3\<lparr>rc_determinate := True, rc_reason := text_parsed_conf, rc_actions := actions,
            rc_tiers := tiers, rc_configurations := configurations, rc_metrics := metrics\<rparr>)))))))"

text \<open>\<open>cancelled\<close> is \<open>ctx.Err()\<close>.\<close>

definition GetVolcanoSchedulerConfigurationFor ::
  "config_api \<Rightarrow> go_error option \<Rightarrow> scheduler \<Rightarrow> runtime_config \<times> go_error option" where
  "GetVolcanoSchedulerConfigurationFor api cancelled scheduler =
     (case cancelled of
        Some e \<Rightarrow> (empty_runtime_config, Some e)
      | None \<Rightarrow>
          if sch_namespace scheduler = '''' \<or> sch_name scheduler = '''' \<or> sch_container scheduler = '''' then
            (empty_runtime_config, Some (errorf ''scheduler identity is incomplete''))
          else (read_configuration api scheduler
            (empty_runtime_config\<lparr>rc_namespace := sch_namespace scheduler, rc_pod := sch_name scheduler,
              rc_uid := sch_uid scheduler\<rparr>), None))"

section \<open>Actions\<close>

definition action_ok :: "string \<Rightarrow> bool" where
  "action_ok a \<longleftrightarrow> a \<noteq> '''' \<and> trim_space a = a \<and> CHR '','' \<notin> set a"

lemma actions_loop_iff:
  "actions_loop parts acc = Inr actions \<longleftrightarrow>
     list_all (\<lambda>p. trim_space p \<noteq> '''') parts \<and> actions = acc @ map trim_space parts"
  by (induction parts arbitrary: acc) (auto simp: Let_def)

lemma parseSchedulerActions_iff:
  "parseSchedulerActions value = Inr actions \<longleftrightarrow>
     list_all (\<lambda>p. trim_space p \<noteq> '''') (split_on CHR '','' value) \<and> actions = map trim_space (split_on CHR '','' value)"
  by (simp add: parseSchedulerActions_def actions_loop_iff)

lemma parsed_actions_ok:
  assumes "parseSchedulerActions value = Inr actions"
  shows "actions \<noteq> [] \<and> list_all action_ok actions"
proof -
  have a: "actions = map trim_space (split_on CHR '','' value)" "list_all (\<lambda>p. trim_space p \<noteq> '''') (split_on CHR '','' value)"
    using assms by (simp_all add: parseSchedulerActions_iff)
  have "CHR '','' \<notin> set (trim_space p)" if "p \<in> set (split_on CHR '','' value)" for p
    using split_on_no_sep [OF that] set_trim_space [of p] by blast
  with a show ?thesis by (auto simp: action_ok_def list_all_iff)
qed

text \<open>Printing actions with a comma and blanks after it is undone by the parser.\<close>

lemma parse_printed_actions:
  assumes "actions \<noteq> []" and "list_all action_ok actions" and "list_all is_space b"
  shows "parseSchedulerActions (join actions (CHR '','' # b)) = Inr actions"
proof -
  obtain a as where as: "actions = a # as" using assms(1) by (cases actions) auto
  have nb: "CHR '','' \<notin> set b" using assms(3) by (auto simp: list_all_iff is_space_def)
  have ok: "\<forall>x \<in> set (a # as). action_ok x" using assms(2) by (simp add: as list_all_iff)
  then have "\<forall>w \<in> set (a # map (\<lambda>x. b @ x) as). CHR '','' \<notin> set w" using nb by (auto simp: action_ok_def)
  then have sp: "split_on CHR '','' (join actions (CHR '','' # b)) = a # map (\<lambda>x. b @ x) as"
    unfolding as join_blank [of a as b] by (intro split_on_join) simp_all
  have "map trim_space (a # map (\<lambda>x. b @ x) as) = a # as"
    using ok by (auto simp: trim_space_blank [OF assms(3)] action_ok_def intro: map_idI)
  moreover have "list_all (\<lambda>p. trim_space p \<noteq> '''') (a # map (\<lambda>x. b @ x) as)"
    using ok by (auto simp: list_all_iff trim_space_blank [OF assms(3)] action_ok_def)
  ultimately show ?thesis unfolding parseSchedulerActions_iff sp by (simp add: as)
qed

lemma tiers_loop_names:
  "plugins_loop t i raws plugins = Inr result \<Longrightarrow> list_all (\<lambda>p. sp_name p \<noteq> '''') plugins
    \<Longrightarrow> list_all (\<lambda>p. sp_name p \<noteq> '''') result"
  "tiers_loop t documents tiers = Inr result' \<Longrightarrow> list_all (\<lambda>r. list_all (\<lambda>p. sp_name p \<noteq> '''') (sti_plugins r)) tiers
    \<Longrightarrow> list_all (\<lambda>r. list_all (\<lambda>p. sp_name p \<noteq> '''') (sti_plugins r)) result'"
proof -
  have named: "sp_name p \<noteq> ''''" if "parseSchedulerPlugin raw = Inr p" for raw p
    using that by (auto simp: parseSchedulerPlugin_def parseNamedSchedulerOptions_def Let_def
      split: sum.splits option.splits any_val.splits if_splits)
  show plugins: "plugins_loop t i raws plugins = Inr result \<Longrightarrow> list_all (\<lambda>p. sp_name p \<noteq> '''') plugins
    \<Longrightarrow> list_all (\<lambda>p. sp_name p \<noteq> '''') result" for t i raws plugins result
    by (induction raws arbitrary: i plugins) (auto split: sum.splits dest: named)
  show "tiers_loop t documents tiers = Inr result' \<Longrightarrow> list_all (\<lambda>r. list_all (\<lambda>p. sp_name p \<noteq> '''') (sti_plugins r)) tiers
    \<Longrightarrow> list_all (\<lambda>r. list_all (\<lambda>p. sp_name p \<noteq> '''') (sti_plugins r)) result'"
    by (induction documents arbitrary: t tiers) (auto split: sum.splits dest: plugins)
qed

section \<open>Mounts\<close>

lemma below_mount_abs:
  assumes "is_abs m" and "is_abs p"
  shows "below_mount m p = Some r \<longleftrightarrow>
    (\<exists>rest. rest \<noteq> [] \<and> clean_parts p = clean_parts m @ rest \<and> r = join rest ''/'')"
proof -
  have p: "is_abs (path_clean p)" using assms(2) by simp
  obtain q where q: "path_rel m (path_clean p) = Inr q" using path_rel_abs(1) [OF assms(1) p] by blast
  note leave = path_rel_abs(2) [OF assms(1) p q] and dot = path_rel_abs(4) [OF assms(1) p]
    and rest = path_rel_abs(3) [OF assms(1) p]
  show ?thesis
  proof
    assume b: "below_mount m p = Some r"
    then have r: "r = q" "q \<noteq> ''.''" "\<not> leaves_base q" by (auto simp: below_mount_def q split: if_splits)
    then obtain rs where rs: "clean_parts p = clean_parts m @ rs" using leave by auto
    moreover from this r(2) dot q have "rs \<noteq> []" by auto
    ultimately show "\<exists>rest. rest \<noteq> [] \<and> clean_parts p = clean_parts m @ rest \<and> r = join rest ''/''"
      using rest [of rs] q r(1) by auto
  next
    assume "\<exists>rest. rest \<noteq> [] \<and> clean_parts p = clean_parts m @ rest \<and> r = join rest ''/''"
    then obtain rs where rs: "rs \<noteq> []" "clean_parts p = clean_parts m @ rs" "r = join rs ''/''" by blast
    then have "q = r" using rest [of rs] q by simp
    moreover have "q \<noteq> ''.''" using dot q rs by auto
    moreover have "\<not> leaves_base q" using leave rs by auto
    ultimately show "below_mount m p = Some r" by (simp add: below_mount_def q)
  qed
qed

lemma mount_fold:
  fixes p defines "len \<equiv> \<lambda>m. int (length (path_clean (vm_path m)))"
  assumes "fold (mount_step p) mounts (None, -1) = (sel, n)"
  shows "(sel = None \<longrightarrow> n = -1 \<and> filter (mount_serves p) mounts = [])
    \<and> (\<forall>m. sel = Some m \<longrightarrow> n = len m \<and> mount_serves p m \<and> (\<exists>a b. mounts = a @ m # b
          \<and> list_all (\<lambda>k. len k < len m) (filter (mount_serves p) a)
          \<and> list_all (\<lambda>k. len k \<le> len m) (filter (mount_serves p) b)))"
  using assms(2)
proof (induction mounts arbitrary: sel n rule: rev_induct)
  case (snoc m ms)
  obtain s k where sk: "fold (mount_step p) ms (None, -1) = (s, k)" by force
  note IH = snoc.IH [OF sk]
  from snoc.prems sk have step: "mount_step p m (s, k) = (sel, n)" by simp
  show ?case
  proof (cases "mount_serves p m \<and> k < len m")
    case True
    then have eq: "sel = Some m" "n = len m" using step by (auto simp: mount_step_def len_def)
    have "list_all (\<lambda>j. len j < len m) (filter (mount_serves p) ms)"
    proof (cases s)
      case (Some j)
      with IH obtain a b where ab: "k = len j" "ms = a @ j # b"
        "list_all (\<lambda>k. len k < len j) (filter (mount_serves p) a)"
        "list_all (\<lambda>k. len k \<le> len j) (filter (mount_serves p) b)" by blast
      then have "len j < len m" using True by simp
      with ab show ?thesis by (fastforce simp: list_all_iff)
    qed (use IH in simp)
    with True eq show ?thesis by (metis append_Nil2 list.pred_inject(1) filter.simps(1) option.inject option.distinct(1))
  next
    case False
    then have eq: "sel = s" "n = k" using step by (auto simp: mount_step_def len_def split: if_splits)
    show ?thesis
    proof (cases s)
      case None
      with IH have "k = -1" "filter (mount_serves p) ms = []" by auto
      with False None eq show ?thesis by (auto simp: len_def)
    next
      case (Some j)
      with IH obtain a b where ab: "k = len j" "mount_serves p j" "ms = a @ j # b"
        "list_all (\<lambda>k. len k < len j) (filter (mount_serves p) a)"
        "list_all (\<lambda>k. len k \<le> len j) (filter (mount_serves p) b)" by blast
      have "list_all (\<lambda>k. len k \<le> len j) (filter (mount_serves p) (b @ [m]))"
        using ab(1,5) False by (auto simp: list_all_iff)
      moreover have "ms @ [m] = a @ j # (b @ [m])" by (simp add: ab(3))
      ultimately show ?thesis using ab(1,2,4) Some eq by blast
    qed
  qed
qed simp

section \<open>Flags\<close>

text \<open>The values of the flag, as the command line gives them; \<open>None\<close> is a flag without a value.\<close>

fun flag_values :: "string list \<Rightarrow> string option list" where
  "flag_values [] = []"
| "flag_values [f] =
     (if trimShellToken f = conf_flag then [None]
      else if has_prefix (trimShellToken f) (conf_flag @ ''='') then
        [Some (trimShellToken (trim_prefix (trimShellToken f) (conf_flag @ ''='')))]
      else [])"
| "flag_values (f # v # fs) =
     (if trimShellToken f = conf_flag then Some (trimShellToken v) # flag_values fs
      else if has_prefix (trimShellToken f) (conf_flag @ ''='') then
        Some (trimShellToken (trim_prefix (trimShellToken f) (conf_flag @ ''=''))) # flag_values (v # fs)
      else flag_values (v # fs))"

definition usable_path :: "string \<Rightarrow> bool" where
  "usable_path value \<longleftrightarrow> value \<noteq> '''' \<and> \<not> contains value ''$('' \<and> \<not> contains value ''${'' \<and> is_abs value"

definition add_path :: "string \<Rightarrow> string list \<Rightarrow> string list" where
  "add_path value paths = (if path_clean value \<in> set paths then paths else paths @ [path_clean value])"

lemma conf_value_iff: "conf_value value paths = Inr paths' \<longleftrightarrow> usable_path value \<and> paths' = add_path value paths"
  by (auto simp: conf_value_def usable_path_def add_path_def)

lemma conf_value_Inl: "conf_value v paths = Inl e \<Longrightarrow> \<not> usable_path v"
  using conf_value_iff [of v paths] by auto

lemma conf_loop_iff:
  "conf_loop fs paths = Inr result \<longleftrightarrow>
     list_all (\<lambda>v. case v of None \<Rightarrow> False | Some value \<Rightarrow> usable_path value) (flag_values fs)
     \<and> result = fold (\<lambda>v. case v of None \<Rightarrow> (\<lambda>ps. ps) | Some value \<Rightarrow> add_path value) (flag_values fs) paths"
proof (induction fs arbitrary: paths rule: flag_values.induct)
  case 1
  show ?case by auto
next
  case (2 f)
  show ?case by (auto simp: Let_def conf_value_iff split: sum.split dest: conf_value_Inl)
next
  case (3 f v fs)
  note simps = conf_loop.simps(2) [of f "v # fs"] flag_values.simps(3) [of f v fs] Let_def
  note [simp del] = conf_loop.simps flag_values.simps
  show ?case
  proof (cases "trimShellToken f = conf_flag")
    case True
    note IH = "3.IH"(1) [OF True]
    show ?thesis
    proof (cases "conf_value (trimShellToken v) paths")
      case (Inl e)
      then have "\<not> usable_path (trimShellToken v)" by (rule conf_value_Inl)
      with True Inl show ?thesis by (simp add: simps)
    next
      case (Inr ps)
      with conf_value_iff [of "trimShellToken v" paths ps] True IH show ?thesis by (simp add: simps)
    qed
  next
    case False
    let ?w = "trimShellToken (trim_prefix (trimShellToken f) (conf_flag @ ''=''))"
    show ?thesis
    proof (cases "has_prefix (trimShellToken f) (conf_flag @ ''='')")
      case True
      note IH = "3.IH"(2) [OF False True]
      show ?thesis
      proof (cases "conf_value ?w paths")
        case (Inl e)
        then have "\<not> usable_path ?w" by (rule conf_value_Inl)
        with True False Inl show ?thesis by (simp add: simps)
      next
        case (Inr ps)
        with conf_value_iff [of ?w paths ps] True False IH show ?thesis by (simp add: simps)
      qed
    next
      case np: False
      from "3.IH"(3) [OF False np] False np show ?thesis by (simp add: simps)
    qed
  qed
qed

lemma add_paths_set:
  "set (fold (\<lambda>v. case v of None \<Rightarrow> (\<lambda>ps. ps) | Some value \<Rightarrow> add_path value) vs paths)
    = set paths \<union> {path_clean value | value. Some value \<in> set vs}"
  by (induction vs arbitrary: paths) (auto simp: add_path_def split: option.splits)

lemma add_paths_distinct:
  "distinct paths \<Longrightarrow> distinct (fold (\<lambda>v. case v of None \<Rightarrow> (\<lambda>ps. ps) | Some value \<Rightarrow> add_path value) vs paths)"
  by (induction vs arbitrary: paths) (auto simp: add_path_def split: option.splits)

lemma distinct_single: "distinct xs \<Longrightarrow> set xs = {x} \<longleftrightarrow> xs = [x]"
  by (cases xs; cases "tl xs") auto

lemma flag_paths:
  assumes "list_all (\<lambda>v. case v of None \<Rightarrow> False | Some value \<Rightarrow> usable_path value) vs"
  shows "{path_clean value | value. Some value \<in> set vs} = {path} \<longleftrightarrow>
      vs \<noteq> [] \<and> list_all (\<lambda>v. case v of None \<Rightarrow> False | Some value \<Rightarrow> path_clean value = path) vs"
    and "{path_clean value | value. Some value \<in> set vs} = {} \<longleftrightarrow> vs = []"
proof -
  have "\<exists>ws. vs = map Some ws" using assms
    by (intro exI [of _ "map the vs"]) (induction vs, auto split: option.splits)
  then obtain ws where ws: "vs = map Some ws" ..
  have s: "{path_clean value | value. Some value \<in> set vs} = path_clean ` set ws" by (auto simp: ws)
  show "{path_clean value | value. Some value \<in> set vs} = {path} \<longleftrightarrow>
      vs \<noteq> [] \<and> list_all (\<lambda>v. case v of None \<Rightarrow> False | Some value \<Rightarrow> path_clean value = path) vs"
    unfolding s by (cases ws) (auto simp: ws list_all_iff)
  show "{path_clean value | value. Some value \<in> set vs} = {} \<longleftrightarrow> vs = []" unfolding s by (simp add: ws)
qed

lemma path_of_loop:
  "schedulerConfigurationPath container = Inr (Some path) \<longleftrightarrow>
     conf_loop (Go_Strings.fields (join (ct_command container @ ct_args container) '' '')) [] = Inr [path]"
  "schedulerConfigurationPath container = Inr None \<longleftrightarrow>
     conf_loop (Go_Strings.fields (join (ct_command container @ ct_args container) '' '')) [] = Inr []"
  unfolding schedulerConfigurationPath_def by (simp_all split: sum.split list.split)

lemma configurationPath_iff:
  fixes container
  defines "vs \<equiv> flag_values (Go_Strings.fields (join (ct_command container @ ct_args container) '' ''))"
  shows "schedulerConfigurationPath container = Inr (Some path) \<longleftrightarrow>
     vs \<noteq> [] \<and> list_all (\<lambda>v. case v of None \<Rightarrow> False | Some value \<Rightarrow> usable_path value \<and> path_clean value = path) vs"
    and "schedulerConfigurationPath container = Inr None \<longleftrightarrow> vs = []"
proof -
  let ?ps = "fold (\<lambda>v. case v of None \<Rightarrow> (\<lambda>ps. ps) | Some value \<Rightarrow> add_path value) vs []"
  let ?ok = "list_all (\<lambda>v. case v of None \<Rightarrow> False | Some value \<Rightarrow> usable_path value) vs"
  have s: "set ?ps = {path_clean value | value. Some value \<in> set vs}" using add_paths_set [of vs "[]"] by simp
  have one: "?ps = [path] \<longleftrightarrow> set ?ps = {path}" by (rule distinct_single [symmetric, OF add_paths_distinct]) simp
  have both: "?ok \<and> list_all (\<lambda>v. case v of None \<Rightarrow> False | Some value \<Rightarrow> path_clean value = path) vs
      \<longleftrightarrow> list_all (\<lambda>v. case v of None \<Rightarrow> False | Some value \<Rightarrow> usable_path value \<and> path_clean value = path) vs"
    unfolding list_all_iff by (auto split: option.splits)
  show "schedulerConfigurationPath container = Inr (Some path) \<longleftrightarrow>
     vs \<noteq> [] \<and> list_all (\<lambda>v. case v of None \<Rightarrow> False | Some value \<Rightarrow> usable_path value \<and> path_clean value = path) vs"
    unfolding path_of_loop conf_loop_iff vs_def [symmetric] both [symmetric] using one flag_paths(1) [of vs path] s by auto
  show "schedulerConfigurationPath container = Inr None \<longleftrightarrow> vs = []"
    unfolding path_of_loop conf_loop_iff vs_def [symmetric] using flag_paths(2) [of vs] s by auto
qed

section \<open>Properties\<close>

text \<open>Every way \<open>read_configuration\<close> ends: with a reason and nothing parsed, or with a parsed document.\<close>

lemma read_configuration_rule:
  assumes base: "\<not> rc_determinate base" "rc_actions base = []" "rc_tiers base = []"
    and failed: "\<And>r. \<not> rc_determinate r \<Longrightarrow> rc_actions r = [] \<Longrightarrow> rc_tiers r = [] \<Longrightarrow> P r"
    and parsed: "\<And>r content actions tiers configurations metrics.
      parseSchedulerConfiguration (ca_yaml api) content = Inr (actions, tiers, configurations, metrics) \<Longrightarrow>
      rc_determinate r \<Longrightarrow> rc_actions r = actions \<Longrightarrow> rc_tiers r = tiers \<Longrightarrow> P r"
  shows "P (read_configuration api scheduler base)"
  unfolding read_configuration_def Let_def
  by (split sum.split option.split prod.split if_split, intro conjI allI impI | rule failed parsed | simp add: base)+

lemma parsed_configuration_ok:
  assumes "parseSchedulerConfiguration yaml content = Inr (actions, tiers, configurations, metrics)"
  shows "actions \<noteq> [] \<and> list_all action_ok actions
    \<and> list_all (\<lambda>r. list_all (\<lambda>p. sp_name p \<noteq> '''') (sti_plugins r)) tiers"
proof -
  define d where "d = projr (yaml content)"
  have "parseSchedulerActions (dc_actions d) = Inr actions \<and> tiers_loop 0 (dc_tiers d) [] = Inr tiers"
    using assms unfolding parseSchedulerConfiguration_def d_def
    by (cases "yaml content") (auto split: sum.splits)
  then show ?thesis using parsed_actions_ok tiers_loop_names(2) [of 0 "dc_tiers d" "[]" tiers] by auto
qed

text \<open>C40: the configuration the cluster client hands out is either parsed, and then it has at least one action, every
  action is a trimmed name without a comma and every plugin has a name, or it is not determinate and
  holds no action and no tier; so the report never has a configured section without a name.\<close>

theorem configuration_well_formed:
  "(let c = fst (GetVolcanoSchedulerConfigurationFor api cancelled scheduler) in
     if rc_determinate c
     then rc_actions c \<noteq> [] \<and> list_all action_ok (rc_actions c)
       \<and> list_all (\<lambda>tier. list_all (\<lambda>plugin. sp_name plugin \<noteq> '''') (sti_plugins tier)) (rc_tiers c)
     else rc_actions c = [] \<and> rc_tiers c = [])"
proof (cases "cancelled = None \<and> \<not> (sch_namespace scheduler = '''' \<or> sch_name scheduler = '''' \<or> sch_container scheduler = '''')")
  case False
  then show ?thesis
    by (auto simp: GetVolcanoSchedulerConfigurationFor_def empty_runtime_config_def Let_def split: option.split)
next
  case True
  then have c: "fst (GetVolcanoSchedulerConfigurationFor api cancelled scheduler) = read_configuration api scheduler
      (empty_runtime_config\<lparr>rc_namespace := sch_namespace scheduler, rc_pod := sch_name scheduler,
        rc_uid := sch_uid scheduler\<rparr>)"
    by (simp add: GetVolcanoSchedulerConfigurationFor_def)
  show ?thesis unfolding Let_def c
  proof (rule read_configuration_rule [where P = "\<lambda>c. if rc_determinate c then rc_actions c \<noteq> []
      \<and> list_all action_ok (rc_actions c) \<and> list_all (\<lambda>tier. list_all (\<lambda>plugin. sp_name plugin \<noteq> '''') (sti_plugins tier)) (rc_tiers c)
      else rc_actions c = [] \<and> rc_tiers c = []"])
  qed (use parsed_configuration_ok in \<open>auto simp: empty_runtime_config_def\<close>)
qed

text \<open>Actions survive printing: whatever list the parser accepts, written with a comma and any blanks after it,
  is read back as the same list.\<close>

theorem actions_roundtrip:
  "case parseSchedulerActions v of
     Inl e \<Rightarrow> list_ex (\<lambda>part. trim_space part = '''') (split_on CHR '','' v)
   | Inr actions \<Rightarrow> parseSchedulerActions (join actions '','') = Inr actions
       \<and> parseSchedulerActions (join actions '', '') = Inr actions"
proof (cases "parseSchedulerActions v")
  case (Inl e)
  then show ?thesis using parseSchedulerActions_iff [of v] by (auto simp: list_all_iff list_ex_iff)
next
  case (Inr actions)
  have "list_all is_space ''''" "list_all is_space '' ''" by (simp_all add: is_space_def)
  from parse_printed_actions [OF _ _ this(1)] parse_printed_actions [OF _ _ this(2)] parsed_actions_ok [OF Inr]
  show ?thesis by (simp add: Inr)
qed

text \<open>C39: the configuration path is resolved exactly when the flag is given and all its values are usable and mean
  the same file; it is absent exactly when the flag is not given; everything else is an error.\<close>

theorem configuration_path_resolved:
  "(let vs = flag_values (Go_Strings.fields (join (ct_command container @ ct_args container) '' '')) in
     (schedulerConfigurationPath container = Inr (Some path) \<longleftrightarrow>
        vs \<noteq> [] \<and> list_all (\<lambda>v. case v of None \<Rightarrow> False | Some value \<Rightarrow> usable_path value \<and> path_clean value = path) vs)
     \<and> (schedulerConfigurationPath container = Inr None \<longleftrightarrow> vs = []))"
  unfolding Let_def by (intro conjI configurationPath_iff)

text \<open>Among the mounts that serve the file, the first of the longest is selected, and none only when none serves
  it.\<close>

theorem longest_mount_selected:
  "(let len = (\<lambda>m. length (path_clean (vm_path m))); serving = filter (mount_serves path) in
    case longestMatchingVolumeMount mounts path of
      None \<Rightarrow> serving mounts = []
    | Some m \<Rightarrow> mount_serves path m \<and> (\<exists>before behind. mounts = before @ m # behind
        \<and> list_all (\<lambda>k. len k < len m) (serving before) \<and> list_all (\<lambda>k. len k \<le> len m) (serving behind)))"
proof -
  obtain sel n where f: "fold (mount_step path) mounts (None, -1) = (sel, n)" by force
  from mount_fold [OF f] show ?thesis
    by (cases sel) (simp_all add: longestMatchingVolumeMount_def f)
qed

text \<open>For absolute paths a mount without a sub path serves exactly the files properly below its directory, and the
  path looked up in the ConfigMap is the rest of the file's path below it: mount path and projected path
  joined give the file back.\<close>

theorem projected_path_below_mount:
  assumes "is_abs (vm_path mount)" and "is_abs path" and "vm_sub_path mount = ''''"
  shows "(projectedConfigurationPath mount path = Inr relative \<longleftrightarrow>
      (\<exists>rest. rest \<noteq> [] \<and> clean_parts path = clean_parts (vm_path mount) @ rest \<and> relative = join rest ''/''))
    \<and> (mount_serves path mount \<longleftrightarrow> (\<exists>rest. rest \<noteq> [] \<and> clean_parts path = clean_parts (vm_path mount) @ rest))"
proof -
  have m: "is_abs (path_clean (vm_path mount))" using assms(1) by simp
  note below = below_mount_abs [OF m assms(2)]
  show ?thesis
  proof (cases "below_mount (path_clean (vm_path mount)) path")
    case None
    with below show ?thesis by (auto simp: projectedConfigurationPath_def mount_serves_def assms(3))
  next
    case (Some r)
    with below [of r] below [of relative] show ?thesis
      by (auto simp: projectedConfigurationPath_def mount_serves_def assms(3))
  qed
qed

theorem projected_path_below_mount_witness:
  "projectedConfigurationPath \<lparr>vm_name = ''conf'', vm_path = ''/volcano.scheduler/'', vm_sub_path = ''''\<rparr>
     ''/volcano.scheduler/volcano.conf'' = Inr ''volcano.conf''
   \<and> mount_serves ''/volcano.scheduler/volcano.conf''
      \<lparr>vm_name = ''conf'', vm_path = ''/volcano.scheduler/'', vm_sub_path = ''''\<rparr>"
proof -
  let ?m = "\<lparr>vm_name = ''conf'', vm_path = ''/volcano.scheduler/'', vm_sub_path = ''''\<rparr>"
  let ?p = "''/volcano.scheduler/volcano.conf''"
  have "is_abs (vm_path ?m)" "is_abs ?p" "vm_sub_path ?m = ''''" by (simp_all add: is_abs_def has_prefix_def)
  note * = projected_path_below_mount [OF this]
  have "clean_parts ?p = clean_parts (vm_path ?m) @ [''volcano.conf'']" by code_simp
  then show ?thesis using * [of "''volcano.conf''"] by auto
qed

end
