(* ===== verification/Go_Parse.thy ===== *)
theory Go_Parse
  imports Go_Float64
begin

text \<open>
  The readers of the Go standard library that the cluster package uses: \<open>regexp\<close> on the patterns of
  the cache dump (literals, lazy groups and digit groups, leftmost match, earliest end first),
  \<open>strconv.ParseFloat\<close> with all its forms, and the lines of \<open>bufio.Scanner\<close>. The facts evaluate a
  search piece by piece (\<open>find_pat_skip\<close>) and say which decimals are read exactly.
\<close>

section \<open>Regular expressions\<close>

text \<open>
  The constructs of the patterns in the source: \<open>Lit w\<close> is a quoted literal, \<open>Lazy\<close> is \<open>(.*?)\<close>,
  \<open>Skip\<close> is \<open>.*?\<close> outside a group and \<open>Digits\<close> is \<open>([0-9]+)\<close>. The dot does not match a newline.
\<close>

datatype pat = Lit string | Lazy | Skip | Digits

primrec lazy_run :: "(string \<Rightarrow> string list option) \<Rightarrow> string \<Rightarrow> string \<Rightarrow> string list option" where
  "lazy_run k acc [] = map_option ((#) acc) (k [])"
| "lazy_run k acc (c # cs) =
     (case k (c # cs) of
        Some groups \<Rightarrow> Some (acc # groups)
      | None \<Rightarrow> if c = CHR 0x0A then None else lazy_run k (acc @ [c]) cs)"

primrec digits_run :: "(string \<Rightarrow> string list option) \<Rightarrow> string \<Rightarrow> string \<Rightarrow> string list option" where
  "digits_run k acc [] = (if acc = [] then None else map_option ((#) acc) (k []))"
| "digits_run k acc (c # cs) =
     (case (if is_digit c then digits_run k (acc @ [c]) cs else None) of
        Some groups \<Rightarrow> Some groups
      | None \<Rightarrow> if acc = [] then None else map_option ((#) acc) (k (c # cs)))"

primrec match_pat :: "pat list \<Rightarrow> string \<Rightarrow> string list option" where
  "match_pat [] = (\<lambda>s. Some [])"
| "match_pat (p # ps) =
     (case p of
        Lit w \<Rightarrow> (\<lambda>s. if has_prefix s w then match_pat ps (drop (length w) s) else None)
      | Lazy \<Rightarrow> lazy_run (match_pat ps) []
      | Skip \<Rightarrow> (\<lambda>s. map_option tl (lazy_run (match_pat ps) [] s))
      | Digits \<Rightarrow> digits_run (match_pat ps) [])"

primrec find_pat :: "pat list \<Rightarrow> string \<Rightarrow> string list option" where
  "find_pat ps [] = match_pat ps []"
| "find_pat ps (c # cs) =
     (case match_pat ps (c # cs) of Some groups \<Rightarrow> Some groups | None \<Rightarrow> find_pat ps cs)"

section \<open>Floating point numbers\<close>

definition lower_is :: "char \<Rightarrow> char \<Rightarrow> bool" where
  "lower_is c d = (to_lower_char c = d)"

definition is_hex_letter :: "char \<Rightarrow> bool" where
  "is_hex_letter c = (let n = (of_char (to_lower_char c) :: nat) in 97 \<le> n \<and> n \<le> 102)"

definition hex_val :: "char \<Rightarrow> int" where
  "hex_val c = (if is_digit c then digit_val c else int (of_char (to_lower_char c)) - 87)"

definition is_mantissa_digit :: "bool \<Rightarrow> char \<Rightarrow> bool" where
  "is_mantissa_digit hex c = (is_digit c \<or> hex \<and> is_hex_letter c)"

text \<open>The digits of the mantissa: their value, how many stand behind the point, and what follows.\<close>

fun mantissa_run :: "bool \<Rightarrow> bool \<Rightarrow> bool \<Rightarrow> int \<Rightarrow> int \<Rightarrow> string \<Rightarrow> bool \<times> int \<times> int \<times> string" where
  "mantissa_run hex sawdot sawdigits m behind [] = (sawdigits, m, behind, [])"
| "mantissa_run hex sawdot sawdigits m behind (c # cs) =
     (if c = CHR ''_'' then mantissa_run hex sawdot sawdigits m behind cs
      else if c = CHR ''.'' then
        (if sawdot then (sawdigits, m, behind, c # cs) else mantissa_run hex True sawdigits m behind cs)
      else if is_mantissa_digit hex c then
        mantissa_run hex sawdot True ((if hex then 16 else 10) * m + hex_val c)
          (if sawdot then behind + 1 else behind) cs
      else (sawdigits, m, behind, c # cs))"

text \<open>The exponent stops growing once it has five digits.\<close>

fun exponent_run :: "int \<Rightarrow> string \<Rightarrow> int \<times> string" where
  "exponent_run e [] = (e, [])"
| "exponent_run e (c # cs) =
     (if c = CHR ''_'' then exponent_run e cs
      else if is_digit c then exponent_run (if e < 10000 then 10 * e + digit_val c else e) cs
      else (e, c # cs))"

definition split_sign :: "string \<Rightarrow> bool \<times> string" where
  "split_sign s =
     (case s of
        c # cs \<Rightarrow> if c = CHR ''-'' then (True, cs) else if c = CHR ''+'' then (False, cs) else (False, s)
      | [] \<Rightarrow> (False, s))"

definition read_exponent :: "string \<Rightarrow> (int \<times> string) option" where
  "read_exponent s =
     (let (neg, ds) = split_sign s
      in case ds of
           [] \<Rightarrow> None
         | c # cs \<Rightarrow> if is_digit c then (let (e, rest) = exponent_run 0 ds in Some (if neg then - e else e, rest))
                     else None)"

text \<open>Underscores may only separate digits (\<open>underscoreOK\<close>); the state is the last kind of byte seen.\<close>

datatype seen = SawStart | SawDigit | SawUnderscore | SawOther

fun underscore_run :: "bool \<Rightarrow> seen \<Rightarrow> string \<Rightarrow> bool" where
  "underscore_run hex saw [] = (saw \<noteq> SawUnderscore)"
| "underscore_run hex saw (c # cs) =
     (if is_mantissa_digit hex c then underscore_run hex SawDigit cs
      else if c = CHR ''_'' then saw = SawDigit \<and> underscore_run hex SawUnderscore cs
      else saw \<noteq> SawUnderscore \<and> underscore_run hex SawOther cs)"

definition underscoreOK :: "string \<Rightarrow> bool" where
  "underscoreOK s =
     (let t = snd (split_sign s)
      in case t of
           z # x # rest \<Rightarrow>
             if z = CHR ''0'' \<and> (lower_is x CHR ''b'' \<or> lower_is x CHR ''o'' \<or> lower_is x CHR ''x'')
             then underscore_run (lower_is x CHR ''x'') SawDigit rest
             else underscore_run False SawStart t
         | _ \<Rightarrow> underscore_run False SawStart t)"

text \<open>The exact value of a well-formed number; \<open>None\<close> is a syntax error.\<close>

definition read_float :: "string \<Rightarrow> rat option" where
  "read_float s =
     (let (neg, t) = split_sign s;
          hex = (3 \<le> length t \<and> hd t = CHR ''0'' \<and> lower_is (t ! 1) CHR ''x'');
          (sawdigits, m, behind, rest) = mantissa_run hex False False 0 0 (if hex then drop 2 t else t);
          v = (if neg then - (of_int m :: rat) else of_int m)
      in if \<not> sawdigits \<or> \<not> underscoreOK s \<and> List.member s CHR ''_'' then None
         else case rest of
           [] \<Rightarrow> if hex then None else Some (v / 10 ^ nat behind)
         | c # cs \<Rightarrow>
             if lower_is c (if hex then CHR ''p'' else CHR ''e'') then
               (case read_exponent cs of
                  Some (e, []) \<Rightarrow>
                    Some (if hex then v / 16 ^ nat behind * 2 powi e else v / 10 ^ nat behind * 10 powi e)
                | _ \<Rightarrow> None)
             else None)"

definition special_float :: "string \<Rightarrow> f64 option" where
  "special_float s =
     (let (neg, t) = split_sign s
      in if to_lower t = ''inf'' \<or> to_lower t = ''infinity'' then Some (if neg then NInf else PInf)
         else if to_lower s = ''nan'' then Some NaN else None)"

definition num_error :: "string \<Rightarrow> string \<Rightarrow> string \<Rightarrow> go_error" where
  "num_error fn s reason = errorf (''strconv.'' @ fn @ '': parsing '' @ fmt_q s @ '': '' @ reason)"

definition ParseFloat :: "string \<Rightarrow> go_error + f64" where
  "ParseFloat s =
     (case special_float s of
        Some f \<Rightarrow> Inr f
      | None \<Rightarrow>
          (case read_float s of
             None \<Rightarrow> Inl (num_error ''ParseFloat'' s ''invalid syntax'')
           | Some x \<Rightarrow> (let f = rnd x in if is_fin f then Inr f
                         else Inl (num_error ''ParseFloat'' s ''value out of range''))))"

section \<open>Lines\<close>

definition drop_cr :: "string \<Rightarrow> string" where
  "drop_cr w = (if w \<noteq> [] \<and> last w = CHR 0x0D then butlast w else w)"

text \<open>
  The tokens of a scanner whose buffer holds \<open>limit\<close> bytes: the pieces between newlines, a last piece
  only when it is not empty, and the flag that a piece did not fit.
\<close>

fun scan_tokens :: "nat \<Rightarrow> string list \<Rightarrow> string list \<times> bool" where
  "scan_tokens limit [] = ([], False)"
| "scan_tokens limit [w] =
     (if limit \<le> length w then ([], True) else if w = [] then ([], False) else ([drop_cr w], False))"
| "scan_tokens limit (w # v # ws) =
     (if limit \<le> length w then ([], True)
      else (let (lines, long) = scan_tokens limit (v # ws) in (drop_cr w # lines, long)))"

definition scan_lines :: "nat \<Rightarrow> string \<Rightarrow> go_error option \<Rightarrow> string list \<times> go_error option" where
  "scan_lines limit content readErr =
     (let (lines, long) = scan_tokens limit (split_on CHR 0x0A content)
      in (lines, if long then Some (errorf ''bufio.Scanner: token too long'') else readErr))"

section \<open>Searching piece by piece\<close>

text \<open>
  A literal that ends in a byte the text before does not have can only match at that byte; the search
  jumps from one such byte to the next.
\<close>

lemma match_Lit_skip:
  assumes "c \<notin> set a" "c \<notin> set w"
  shows "match_pat (Lit (w @ [c]) # ps) (a @ c # s) = (if a = w then match_pat ps s else None)"
proof -
  have "prefix (w @ [c]) (a @ c # s) \<longleftrightarrow> a = w"
  proof
    assume "prefix (w @ [c]) (a @ c # s)"
    then obtain r where r: "a @ c # s = w @ c # r" by (auto simp: prefix_def)
    have "takeWhile (\<lambda>x. x \<noteq> c) (a @ c # s) = a" "takeWhile (\<lambda>x. x \<noteq> c) (w @ c # r) = w"
      using assms by (auto simp: takeWhile_append)
    with r show "a = w" by simp
  qed (simp add: prefix_def)
  then show ?thesis by (auto simp: has_prefix_def)
qed

lemma find_pat_here:
  "match_pat ps s = Some groups \<Longrightarrow> find_pat ps s = Some groups"
  by (cases s) auto

lemma find_pat_skip:
  assumes "c \<notin> set a" "c \<notin> set w"
  shows "find_pat (Lit (w @ [c]) # ps) (a @ c # s)
    = (case (if suffix w a then match_pat ps s else None) of
         Some groups \<Rightarrow> Some groups | None \<Rightarrow> find_pat (Lit (w @ [c]) # ps) s)"
  using assms(1)
proof (induction a)
  case Nil
  have "match_pat (Lit (w @ [c]) # ps) ([] @ c # s) = (if [] = w then match_pat ps s else None)"
    using Nil assms(2) by (rule match_Lit_skip)
  then show ?case by (simp add: suffix_def del: match_pat.simps split: option.split)
next
  case (Cons x a)
  have m: "match_pat (Lit (w @ [c]) # ps) ((x # a) @ c # s) = (if x # a = w then match_pat ps s else None)"
    using Cons.prems assms(2) by (rule match_Lit_skip)
  have "suffix w (x # a) \<longleftrightarrow> x # a = w \<or> suffix w a" by (auto simp: suffix_Cons)
  moreover have "x # a = w \<Longrightarrow> \<not> suffix w a" by (auto simp: suffix_def)
  ultimately show ?case using Cons.IH Cons.prems m
    by (simp del: match_pat.simps append.append_Cons add: append_Cons [symmetric] split: option.split) (auto simp del: match_pat.simps)
qed

lemma lazy_run_to:
  "c \<notin> set v \<Longrightarrow> CHR 0x0A \<notin> set v \<Longrightarrow> (\<And>t. hd (t @ [c]) \<noteq> c \<Longrightarrow> k (t @ c # s) = None) \<Longrightarrow> k (c # s) = Some groups \<Longrightarrow>
   lazy_run k acc (v @ c # s) = Some ((acc @ v) # groups)"
proof (induction v arbitrary: acc)
  case (Cons x v)
  have "k (x # v @ c # s) = None" using Cons.prems(3) [of "x # v"] Cons.prems(1) by auto
  with Cons show ?case by auto
qed simp

text \<open>A lazy group up to a closing byte is the text before that byte.\<close>

lemma match_lazy_close:
  assumes "c \<notin> set v" "CHR 0x0A \<notin> set v"
  shows "match_pat [Lazy, Lit [c]] (v @ c # s) = Some [v]"
proof -
  have "hd (t @ [c]) \<noteq> c \<Longrightarrow> match_pat [Lit [c]] (t @ c # s) = None" for t
    by (cases t) (simp_all add: has_prefix_def)
  then show ?thesis using lazy_run_to [of c v "match_pat [Lit [c]]" s "[]" "[]"] assms by (simp add: has_prefix_def)
qed

section \<open>Decimals\<close>

lemma dec_str_digits: "0 \<le> n \<Longrightarrow> list_all is_digit (dec_str n)"
  using parse_nat_dec_str [of n] by (simp add: parse_nat_def split: if_splits)

lemma foldl_dec_str: "0 \<le> n \<Longrightarrow> foldl (\<lambda>m c. 10 * m + digit_val c) 0 (dec_str n) = n"
  using parse_nat_dec_str [of n] by (simp add: parse_nat_def split: if_splits)

lemma mantissa_run_digits:
  "list_all is_digit ds \<Longrightarrow> mantissa_run False dot saw m behind (ds @ rest)
     = mantissa_run False dot (saw \<or> ds \<noteq> []) (foldl (\<lambda>n c. 10 * n + digit_val c) m ds)
         (if dot then behind + int (length ds) else behind) rest"
proof (induction ds arbitrary: m saw behind)
  case (Cons d ds)
  from Cons.prems have d: "d \<noteq> CHR ''_''" "d \<noteq> CHR ''.''" "is_digit d"
    by (auto simp: is_digit_def)
  with Cons show ?case by (simp add: is_mantissa_digit_def hex_val_def add.assoc)
qed simp

lemma to_lower_digit: "is_digit c \<Longrightarrow> to_lower_char c = c"
  by (auto simp: to_lower_char_def is_digit_def Let_def)

lemma digit_cases: "is_digit c \<Longrightarrow> c \<noteq> CHR ''_'' \<and> c \<noteq> CHR ''-'' \<and> c \<noteq> CHR ''+'' \<and> c \<noteq> CHR ''x'' \<and> c \<noteq> CHR ''i'' \<and> c \<noteq> CHR ''n''"
  by (auto simp: is_digit_def)

lemma zero_digit: "is_digit CHR ''0''" "hex_val CHR ''0'' = 0"
  by (simp_all add: is_digit_def hex_val_def digit_val_def)

text \<open>A whole number with two decimals, as the scheduler prints amounts, is read as that number.\<close>

lemma ParseFloat_whole:
  assumes "0 \<le> n" "n \<le> 2 ^ 53"
  shows "ParseFloat (dec_str n @ ''.00'') = Inr (Fin (of_int n))"
proof -
  let ?s = "dec_str n @ ''.00''"
  obtain c cs where c: "dec_str n = c # cs" "is_digit c" using dec_str_head [OF assms(1)] by blast
  have ds: "list_all is_digit (dec_str n)" using assms(1) by (rule dec_str_digits)
  have sign: "split_sign ?s = (False, ?s)" using c digit_cases [of c] by (simp add: split_sign_def)
  have special: "special_float ?s = None"
    using c digit_cases [of c] unfolding special_float_def sign by (simp add: to_lower_def to_lower_digit)
  have "(dec_str n @ ''.00'') ! 1 = CHR ''.'' \<or> is_digit ((dec_str n @ ''.00'') ! 1)"
    using ds c by (cases cs) auto
  then have hex: "\<not> lower_is (?s ! 1) CHR ''x''"
    using to_lower_digit digit_cases by (auto simp: lower_is_def to_lower_char_def)
  have under: "\<not> List.member ?s CHR ''_''" using ds digit_cases by (auto simp: List.member_iff list_all_iff)
  have run: "mantissa_run False False False 0 0 ?s = (True, n * 100, 2, [])"
    using mantissa_run_digits [OF ds, of False False 0 0 "''.00''"]
    by (simp add: foldl_dec_str [OF assms(1)] is_mantissa_digit_def zero_digit)
  have "read_float ?s = Some (of_int n)"
    using hex under by (simp add: read_float_def sign run)
  moreover have "rnd (of_int n) = Fin (of_int n)" using rnd_of_int [of n] assms by simp
  ultimately show ?thesis by (simp add: ParseFloat_def special is_fin_def)
qed

end
