(* ===== verification/Cache_Dump.thy ===== *)
theory Cache_Dump
  imports Queue_Snapshot Go_Parse
begin

text \<open>
  File \<open>internal/cluster/cache.go\<close>: reading the dump that the Volcano scheduler writes to its log on
  SIGUSR2. A line gives a node, a job or a task; the scanner is a state machine over the lines of the
  log; the capture runs it in a second thread and sends the signal only after that thread has begun to
  read, which is a step relation over the two threads here. What the log stream may deliver (nothing, when
  it is silent), the signal and the leader discovery are parameters. The facts: what a well-formed node
  line gives, that only the dump begun last counts, that every task belongs to the job line before it,
  when a capture succeeds, and that it returns even when the log stays silent.
\<close>

section \<open>Lines of the dump\<close>

definition node_pattern :: "pat list" where
  "node_pattern = [Lit ''Node ('', Lazy, Lit '')'']"

definition allocatable_pattern :: "pat list" where
  "allocatable_pattern = [Lit ''allocatable<'', Lazy, Lit ''>'']"

definition idle_pattern :: "pat list" where
  "idle_pattern = [Lit ''idle <'', Lazy, Lit ''>'']"

definition used_pattern :: "pat list" where
  "used_pattern = [Lit ''used <'', Lazy, Lit ''>'']"

definition releasing_pattern :: "pat list" where
  "releasing_pattern = [Lit ''releasing <'', Lazy, Lit ''>'']"

definition job_pattern :: "pat list" where
  "job_pattern = [Lit ''Job ('', Lazy, Lit ''): namespace '', Lazy, Lit '' ('', Lazy, Lit ''), name '', Lazy,
     Lit '', minAvailable '', Digits, Lit '','']"

definition task_pattern :: "pat list" where
  "task_pattern = [Lit ''Task ('', Lazy, Lit '':'', Lazy, Lit ''/'', Lazy, Lit ''): job '', Lazy,
     Lit '', status '', Lazy, Lit '', pri '', Skip, Lit '', resreq '', Lazy, Lit '', preemptable'']"

definition capture :: "pat list \<Rightarrow> string \<Rightarrow> string \<Rightarrow> go_error + string" where
  "capture re line field =
     (case find_pat re line of
        Some (v # groups) \<Rightarrow> if v = '''' then Inl (errorf (''cache dump missing '' @ field)) else Inr v
      | _ \<Rightarrow> Inl (errorf (''cache dump missing '' @ field)))"

text \<open>The value of one amount: the switch looks at the name as written, not at the canonical one.\<close>

definition dump_amount :: "string \<Rightarrow> f64 \<Rightarrow> f64" where
  "dump_amount originalName v =
     (if originalName = ''cpu'' then f_div_const v 1000
      else if originalName = ''memory'' then v
      else if originalName = ''pods'' then v
      else f_div_const v 1000)"

fun dump_loop :: "string list \<Rightarrow> f64 gomap \<Rightarrow> bool gomap \<Rightarrow> go_error + f64 gomap" where
  "dump_loop [] result requestBacked = Inr result"
| "dump_loop (part # parts) result requestBacked =
     (case Go_Strings.fields (trim_space part) of
        [originalName, amount] \<Rightarrow>
          (case ParseFloat amount of
             Inl e \<Rightarrow> Inl (errorw (originalName @ ''='' @ fmt_q amount @ '': '') e)
           | Inr v \<Rightarrow>
               (let resourceName = canonicalQueueResourceName originalName;
                    fromRequest = has_prefix (to_lower originalName) ''requests.''
                in if gm_or False requestBacked resourceName \<and> \<not> fromRequest
                   then dump_loop parts result requestBacked
                   else dump_loop parts (gm_set resourceName (dump_amount originalName v) result)
                          (gm_set resourceName (fromRequest \<or> gm_or False requestBacked resourceName) requestBacked)))
      | _ \<Rightarrow> dump_loop parts result requestBacked)"

definition parseDumpResources :: "string \<Rightarrow> go_error + f64 gomap" where
  "parseDumpResources value =
     (if trim_space value = '''' then Inr [] else dump_loop (split_on CHR '','' value) [] [])"

text \<open>A captured group read as resources, its error prefixed with the field.\<close>

definition wrap_field :: "string \<Rightarrow> go_error + 'a \<Rightarrow> go_error + 'a" where
  "wrap_field field r = (case r of Inl e \<Rightarrow> Inl (errorw (field @ '': '') e) | Inr v \<Rightarrow> Inr v)"

definition ParseNodeCache :: "string \<Rightarrow> go_error + cache_node" where
  "ParseNodeCache line =
     (case capture node_pattern line ''node'' of Inl e \<Rightarrow> Inl e | Inr name \<Rightarrow>
     (case capture allocatable_pattern line ''allocatable'' of Inl e \<Rightarrow> Inl e | Inr allocValue \<Rightarrow>
     (case capture idle_pattern line ''idle'' of Inl e \<Rightarrow> Inl e | Inr idleValue \<Rightarrow>
     (case capture used_pattern line ''used'' of Inl e \<Rightarrow> Inl e | Inr usedValue \<Rightarrow>
     (case capture releasing_pattern line ''releasing'' of Inl e \<Rightarrow> Inl e | Inr releasingValue \<Rightarrow>
     (case wrap_field ''allocatable'' (parseDumpResources allocValue) of Inl e \<Rightarrow> Inl e | Inr alloc \<Rightarrow>
     (case wrap_field ''idle'' (parseDumpResources idleValue) of Inl e \<Rightarrow> Inl e | Inr idle \<Rightarrow>
     (case wrap_field ''used'' (parseDumpResources usedValue) of Inl e \<Rightarrow> Inl e | Inr used \<Rightarrow>
     (case wrap_field ''releasing'' (parseDumpResources releasingValue) of Inl e \<Rightarrow> Inl e | Inr releasing \<Rightarrow>
        Inr \<lparr>cn_name = name, cn_allocatable = alloc, cn_idle = idle, cn_used = used,
             cn_releasing = releasing\<rparr>)))))))))"

definition ParseJobCache :: "string \<Rightarrow> go_error + cache_job" where
  "ParseJobCache line =
     (case find_pat job_pattern line of
        Some [uid, namespace, queue, name, minimum] \<Rightarrow>
          (case ParseInt 32 minimum of
             None \<Rightarrow> Inl (errorw (''minAvailable='' @ fmt_q minimum @ '': '')
                            (num_error ''ParseInt'' minimum ''value out of range''))
           | Some minAvailable \<Rightarrow>
               Inr \<lparr>cj_uid = uid, cj_namespace = namespace, cj_name = name, cj_queue = queue,
                    cj_min_available = of_int minAvailable, cj_tasks = []\<rparr>)
      | _ \<Rightarrow> Inl (errorf ''cache dump missing job fields''))"

definition ParseTaskCache :: "string \<Rightarrow> go_error + cache_task" where
  "ParseTaskCache line =
     (case find_pat task_pattern line of
        Some [uid, namespace, name, job, status, resreq] \<Rightarrow>
          (case wrap_field ''resreq'' (parseDumpResources resreq) of
             Inl e \<Rightarrow> Inl e
           | Inr resources \<Rightarrow>
               Inr \<lparr>tk_uid = trim_space uid, tk_namespace = trim_space namespace, tk_name = trim_space name,
                    tk_job = trim_space job, tk_status = trim_space status, tk_resreq = resources\<rparr>)
      | _ \<Rightarrow> Inl (errorf ''cache dump missing task fields''))"

section \<open>The scanner\<close>

record scan_state =
  sc_nodes :: "cache_node gomap"
  sc_jobs :: "cache_job gomap"
  sc_parse_err :: "go_error option"
  sc_node_started :: bool
  sc_job_started :: bool
  sc_current :: string

text \<open>The maps of a result are \<open>None\<close> when nil: the zero result of a capture that timed out.\<close>

record capture_result =
  cc_nodes :: "cache_node gomap option"
  cc_jobs :: "cache_job gomap option"
  cc_parse_err :: "go_error option"
  cc_err :: "go_error option"

definition scan_start :: scan_state where
  "scan_start = \<lparr>sc_nodes = [], sc_jobs = [], sc_parse_err = None, sc_node_started = False,
     sc_job_started = False, sc_current = ''''\<rparr>"

definition nodeDumpStart :: string where "nodeDumpStart = ''Dump of nodes info in scheduler cache''"
definition jobDumpStart :: string where "jobDumpStart = ''Dump of jobs info in scheduler cache''"
definition cacheDumpEnd :: string where "cacheDumpEnd = ''volcano scheduler memory stat:''"
definition NodeCacheDumpPrefix :: string where "NodeCacheDumpPrefix = ''Node (''"

definition empty_cache_job :: cache_job where
  "empty_cache_job = \<lparr>cj_uid = [], cj_namespace = [], cj_name = [], cj_queue = [], cj_min_available = 0,
     cj_tasks = []\<rparr>"

definition scan_result :: "scan_state \<Rightarrow> go_error option \<Rightarrow> capture_result" where
  "scan_result s e = \<lparr>cc_nodes = Some (sc_nodes s), cc_jobs = Some (sc_jobs s), cc_parse_err = sc_parse_err s,
     cc_err = e\<rparr>"

definition scan_node :: "string \<Rightarrow> scan_state \<Rightarrow> scan_state" where
  "scan_node line s =
     (case ParseNodeCache line of
        Inl e \<Rightarrow> s\<lparr>sc_parse_err := Some e\<rparr>
      | Inr node \<Rightarrow> s\<lparr>sc_nodes := gm_set (cn_name node) node (sc_nodes s)\<rparr>)"

definition job_key :: "cache_job \<Rightarrow> string" where
  "job_key job = cj_namespace job @ ''/'' @ cj_name job"

definition scan_job :: "string \<Rightarrow> scan_state \<Rightarrow> scan_state" where
  "scan_job line s =
     (case ParseJobCache line of
        Inl e \<Rightarrow> s\<lparr>sc_parse_err := Some e, sc_current := ''''\<rparr>
      | Inr job \<Rightarrow> s\<lparr>sc_current := job_key job, sc_jobs := gm_set (job_key job) job (sc_jobs s)\<rparr>)"

definition scan_task :: "string \<Rightarrow> scan_state \<Rightarrow> scan_state" where
  "scan_task line s =
     (case ParseTaskCache line of
        Inl e \<Rightarrow> s\<lparr>sc_parse_err := Some e\<rparr>
      | Inr task \<Rightarrow>
          (let job = gm_or empty_cache_job (sc_jobs s) (sc_current s)
           in s\<lparr>sc_jobs := gm_set (sc_current s) (job\<lparr>cj_tasks := cj_tasks job @ [task]\<rparr>) (sc_jobs s)\<rparr>))"

text \<open>One line: \<open>None\<close> when it is the end of the dump.\<close>

definition scan_step :: "string \<Rightarrow> scan_state \<Rightarrow> scan_state option" where
  "scan_step line s =
     (if contains line nodeDumpStart then Some (scan_start\<lparr>sc_node_started := True\<rparr>)
      else if sc_node_started s \<and> contains line jobDumpStart
      then Some (s\<lparr>sc_node_started := False, sc_job_started := True\<rparr>)
      else if sc_job_started s \<and> contains line cacheDumpEnd then None
      else if sc_node_started s \<and> contains line NodeCacheDumpPrefix then Some (scan_node line s)
      else if \<not> sc_job_started s then Some s
      else if contains line ''Job ('' then Some (scan_job line s)
      else if sc_current s = '''' \<or> \<not> contains line ''Task ('' then Some s
      else Some (scan_task line s))"

fun scan_loop :: "go_error option \<Rightarrow> string list \<Rightarrow> scan_state \<Rightarrow> capture_result" where
  "scan_loop scannerErr [] s =
     (case scannerErr of
        Some e \<Rightarrow> scan_result s (Some e)
      | None \<Rightarrow> scan_result s (Some (errorf ''scheduler log stream ended before cache dump completed'')))"
| "scan_loop scannerErr (line # lines) s =
     (case scan_step line s of
        None \<Rightarrow> scan_result s None
      | Some s' \<Rightarrow> scan_loop scannerErr lines s')"

text \<open>The scanner's buffer grows to 4 MiB; the stream gives its bytes and then an error or the end.\<close>

definition scanCacheDump :: "string \<Rightarrow> go_error option \<Rightarrow> capture_result" where
  "scanCacheDump content readErr =
     (let (lines, scannerErr) = scan_lines (4 * 1024 * 1024) content readErr
      in scan_loop scannerErr lines scan_start)"

section \<open>The capture\<close>

definition sameScheduler :: "scheduler \<Rightarrow> scheduler \<Rightarrow> bool" where
  "sameScheduler left right =
     (if sch_namespace left \<noteq> sch_namespace right \<or> sch_name left \<noteq> sch_name right then False
      else sch_uid left = '''' \<or> sch_uid right = '''' \<or> sch_uid left = sch_uid right)"

text \<open>
  The function the capture calls to send the signal: the leader is looked up again (\<open>current\<close>), and
  SIGUSR2 is sent, with the answer \<open>sent\<close>, only when it is still the same.
\<close>

definition signal_answer ::
  "scheduler \<Rightarrow> scheduler \<times> go_error option \<Rightarrow> go_error option \<Rightarrow> go_error option" where
  "signal_answer scheduler recheck sent =
     (case recheck of
        (current, Some leaderErr) \<Rightarrow> Some (errorw ''recheck scheduler leader: '' leaderErr)
      | (current, None) \<Rightarrow>
          if \<not> sameScheduler scheduler current
          then Some (errorf (''scheduler leader changed from '' @ sch_namespace scheduler @ ''/'' @ sch_name scheduler
                 @ '' to '' @ sch_namespace current @ ''/'' @ sch_name current @ '' before cache signal''))
          else sent)"

text \<open>What the capture returns: the two maps and the error.\<close>

type_synonym capture_outcome = "cache_node gomap option \<times> cache_job gomap option \<times> go_error option"

definition start_timeout :: "go_error \<Rightarrow> capture_outcome" where
  "start_timeout ctxErr = (None, None, Some (errorw ''start cache dump parser: '' ctxErr))"

definition early_outcome :: "capture_result \<Rightarrow> capture_outcome" where
  "early_outcome r =
     (cc_nodes r, cc_jobs r,
      case cc_err r of
        Some e \<Rightarrow> Some (errorw ''scheduler log stream ended before cache signal: '' e)
      | None \<Rightarrow> Some (errorf ''scheduler cache dump completed before cache signal''))"

definition map_size :: "'a gomap option \<Rightarrow> nat" where
  "map_size m = (case m of None \<Rightarrow> 0 | Some entries \<Rightarrow> length entries)"

definition final_outcome :: "capture_result \<Rightarrow> capture_outcome" where
  "final_outcome r =
     (cc_nodes r, cc_jobs r,
      case cc_err r of
        Some e \<Rightarrow> Some e
      | None \<Rightarrow>
          (case cc_parse_err r of
             Some e \<Rightarrow> Some (errorw (''cache dump completed with '' @ fmt_n (map_size (cc_nodes r)) @ '' nodes and ''
                         @ fmt_n (map_size (cc_jobs r)) @ '' jobs; last schema error: '') e)
           | None \<Rightarrow> None))"

text \<open>The result that is received before the timer fires, or the zero value.\<close>

definition timeout_outcome :: "go_error \<Rightarrow> capture_result option \<Rightarrow> capture_outcome" where
  "timeout_outcome ctxErr received =
     (case received of
        Some r \<Rightarrow> (cc_nodes r, cc_jobs r, Some (errorw ''cache dump capture: '' ctxErr))
      | None \<Rightarrow> (None, None, Some (errorw ''cache dump capture: '' ctxErr)))"

text \<open>
  The two threads. The reader closes \<open>readStarted\<close> at its first read and leaves its result in a
  buffered channel; the capturing thread is at one of its three \<open>select\<close> statements, in the signal
  function, or done. The context may expire at any time, and a \<open>select\<close> with several ready cases takes
  any of them. The last field counts the signals that were accepted.
\<close>

datatype reader = Unread | Reading | Finished capture_result

datatype capturer = AwaitStart | CheckEarly | Signalling | AwaitResult | Closing | Returned capture_outcome

record capture_state =
  cy_reader :: reader
  cy_main :: capturer
  cy_expired :: bool
  cy_signals :: nat

definition capture_start :: capture_state where
  "capture_start = \<lparr>cy_reader = Unread, cy_main = AwaitStart, cy_expired = False, cy_signals = 0\<rparr>"

text \<open>
  The log is followed, so a read may wait for as long as the scheduler writes nothing: \<open>delivers expired
  content readErr\<close> holds when, before or after the context has expired, the stream may give the parser
  \<open>content\<close> and then end with \<open>readErr\<close>, or give it an end of a dump; a log for which it never holds is
  silent, and its reader never finishes. \<open>answers\<close> holds of what the signal function may return;
  \<open>ctxErr\<close> is the error of the context. The steps that change \<open>cy_main\<close> are those of the capturing
  thread; it closes the stream where it returns and before it waits for the timer.
\<close>

inductive capture_step ::
  "(bool \<Rightarrow> string \<Rightarrow> go_error option \<Rightarrow> bool) \<Rightarrow> (go_error option \<Rightarrow> bool) \<Rightarrow> go_error
    \<Rightarrow> capture_state \<Rightarrow> capture_state \<Rightarrow> bool"
  for delivers :: "bool \<Rightarrow> string \<Rightarrow> go_error option \<Rightarrow> bool" and answers :: "go_error option \<Rightarrow> bool" and ctxErr :: go_error where
  read_begins: "cy_reader s = Unread \<Longrightarrow> capture_step delivers answers ctxErr s (s\<lparr>cy_reader := Reading\<rparr>)"
| read_ends: "cy_reader s = Reading \<Longrightarrow> delivers (cy_expired s) content readErr \<Longrightarrow>
    capture_step delivers answers ctxErr s (s\<lparr>cy_reader := Finished (scanCacheDump content readErr)\<rparr>)"
| expires: "\<not> cy_expired s \<Longrightarrow> capture_step delivers answers ctxErr s (s\<lparr>cy_expired := True\<rparr>)"
| started: "cy_main s = AwaitStart \<Longrightarrow> cy_reader s \<noteq> Unread \<Longrightarrow>
    capture_step delivers answers ctxErr s (s\<lparr>cy_main := CheckEarly\<rparr>)"
| not_started: "cy_main s = AwaitStart \<Longrightarrow> cy_expired s \<Longrightarrow>
    capture_step delivers answers ctxErr s (s\<lparr>cy_main := Returned (start_timeout ctxErr)\<rparr>)"
| early: "cy_main s = CheckEarly \<Longrightarrow> cy_reader s = Finished r \<Longrightarrow>
    capture_step delivers answers ctxErr s (s\<lparr>cy_main := Returned (early_outcome r)\<rparr>)"
| not_early: "cy_main s = CheckEarly \<Longrightarrow> cy_reader s = Reading \<Longrightarrow>
    capture_step delivers answers ctxErr s (s\<lparr>cy_main := Signalling\<rparr>)"
| signal_fails: "cy_main s = Signalling \<Longrightarrow> answers (Some e) \<Longrightarrow>
    capture_step delivers answers ctxErr s (s\<lparr>cy_main := Returned (None, None, Some e)\<rparr>)"
| signal_sent: "cy_main s = Signalling \<Longrightarrow> answers None \<Longrightarrow>
    capture_step delivers answers ctxErr s (s\<lparr>cy_main := AwaitResult, cy_signals := cy_signals s + 1\<rparr>)"
| received: "cy_main s = AwaitResult \<Longrightarrow> cy_reader s = Finished r \<Longrightarrow>
    capture_step delivers answers ctxErr s (s\<lparr>cy_main := Returned (final_outcome r)\<rparr>)"
| timed_out: "cy_main s = AwaitResult \<Longrightarrow> cy_expired s \<Longrightarrow>
    capture_step delivers answers ctxErr s (s\<lparr>cy_main := Closing\<rparr>)"
| received_late: "cy_main s = Closing \<Longrightarrow> cy_reader s = Finished r \<Longrightarrow>
    capture_step delivers answers ctxErr s (s\<lparr>cy_main := Returned (timeout_outcome ctxErr (Some r))\<rparr>)"
| timer_fires: "cy_main s = Closing \<Longrightarrow>
    capture_step delivers answers ctxErr s (s\<lparr>cy_main := Returned (timeout_outcome ctxErr None)\<rparr>)"

definition captureCacheDumpFromStream ::
  "(bool \<Rightarrow> string \<Rightarrow> go_error option \<Rightarrow> bool) \<Rightarrow> (go_error option \<Rightarrow> bool) \<Rightarrow> go_error \<Rightarrow> capture_outcome \<Rightarrow> bool"
  where
  "captureCacheDumpFromStream delivers answers ctxErr out =
     (\<exists>s. (capture_step delivers answers ctxErr)\<^sup>*\<^sup>* capture_start s \<and> cy_main s = Returned out)"

text \<open>
  The whole capture. \<open>leader\<close> is the first leader lookup, \<open>stream\<close> the error of opening the log,
  \<open>out\<close> what the run of the two threads returned.
\<close>

definition CaptureCacheDump ::
  "scheduler \<times> go_error option \<Rightarrow> go_error option \<Rightarrow> capture_outcome \<Rightarrow> cache_dump \<times> go_error option" where
  "CaptureCacheDump leader stream out =
     (let (scheduler, err) = leader;
          dump = \<lparr>cu_scheduler = scheduler, cu_nodes = Some [], cu_jobs = Some []\<rparr>
      in case err of
           Some e \<Rightarrow> (dump, Some e)
         | None \<Rightarrow>
             (case stream of
                Some e \<Rightarrow> (dump, Some e)
              | None \<Rightarrow> (let (nodes, jobs, captureErr) = out
                         in (dump\<lparr>cu_nodes := nodes, cu_jobs := jobs\<rparr>, captureErr))))"

section \<open>The scanner keeps its maps well formed\<close>

text \<open>Nodes and jobs are filed under their own names, and the current job is one of the jobs.\<close>

definition filed :: "('v \<Rightarrow> string) \<Rightarrow> 'v gomap \<Rightarrow> bool" where
  "filed key m \<longleftrightarrow> gm_ok m \<and> list_all (\<lambda>(k, v). key v = k) m"

lemma filed_Nil [simp]: "filed key []"
  by (simp add: filed_def)

lemma filed_iff: "filed key m \<longleftrightarrow> gm_ok m \<and> (\<forall>k v. gm_get m k = Some v \<longrightarrow> key v = k)"
  by (auto simp: filed_def list_all_iff gm_get_iff)

lemma filed_set: "filed key m \<Longrightarrow> key v = k \<Longrightarrow> filed key (gm_set k v m)"
  using filed_iff [of key m] filed_iff [of key "gm_set k v m"] by (auto split: if_splits)

lemma filed_get: "filed key m \<Longrightarrow> gm_get m k = Some v \<Longrightarrow> key v = k"
  by (auto simp: filed_def list_all_iff dest: gm_get_SomeD)

definition scan_ok :: "scan_state \<Rightarrow> bool" where
  "scan_ok s \<longleftrightarrow> filed cn_name (sc_nodes s) \<and> filed job_key (sc_jobs s)
     \<and> (sc_current s = '''' \<or> gm_has (sc_jobs s) (sc_current s)) \<and> \<not> (sc_node_started s \<and> sc_job_started s)"

lemma scan_start_ok [simp]: "scan_ok scan_start" "scan_ok (scan_start\<lparr>sc_node_started := True\<rparr>)"
  by (simp_all add: scan_ok_def scan_start_def)

lemma scan_node_ok: "scan_ok s \<Longrightarrow> scan_ok (scan_node line s)"
  by (auto simp: scan_ok_def scan_node_def filed_set split: sum.split)

lemma scan_job_ok: "scan_ok s \<Longrightarrow> scan_ok (scan_job line s)"
  by (auto simp: scan_ok_def scan_job_def filed_set gm_has_def split: sum.split)

lemma job_key_tasks [simp]: "job_key (job\<lparr>cj_tasks := ts\<rparr>) = job_key job"
  by (simp add: job_key_def)

lemma scan_task_ok: "scan_ok s \<Longrightarrow> sc_current s \<noteq> '''' \<Longrightarrow> scan_ok (scan_task line s)"
  by (auto simp: scan_ok_def scan_task_def filed_set filed_get gm_has_def gm_or_def Let_def split: sum.split option.split)

lemma scan_step_ok: "scan_ok s \<Longrightarrow> scan_step line s = Some s' \<Longrightarrow> scan_ok s'"
  unfolding scan_step_def
  by (auto simp: scan_node_ok scan_job_ok scan_task_ok split: if_splits) (simp_all add: scan_ok_def)

lemma scan_loop_cases:
  assumes "scan_ok s"
  obtains s' e where "scan_ok s'" "scan_loop readErr lines s = scan_result s' e"
proof -
  from assms have "\<exists>s' e. scan_ok s' \<and> scan_loop readErr lines s = scan_result s' e"
  proof (induction lines arbitrary: s)
    case Nil
    then show ?case by (cases readErr) auto
  next
    case (Cons line lines)
    then show ?case by (cases "scan_step line s") (auto dest: scan_step_ok)
  qed
  with that show ?thesis by blast
qed

text \<open>Whatever the log contains, the result of the scan is well formed: both maps are there, every
  node is filed under its own name and every job under its namespace and name, without duplicates.
\<close>
theorem scan_well_formed:
  "case scanCacheDump content readErr of r \<Rightarrow>
     (case cc_nodes r of None \<Rightarrow> False | Some nodes \<Rightarrow> filed cn_name nodes)
     \<and> (case cc_jobs r of None \<Rightarrow> False | Some jobs \<Rightarrow> filed job_key jobs)"
proof -
  obtain lines e where "scan_lines (4 * 1024 * 1024) content readErr = (lines, e)" by force
  then have l: "scanCacheDump content readErr = scan_loop e lines scan_start" by (simp add: scanCacheDump_def)
  obtain s' e' where "scan_ok s'" "scan_loop e lines scan_start = scan_result s' e'"
    using scan_loop_cases [OF scan_start_ok(1)] .
  then show ?thesis by (simp add: l scan_result_def scan_ok_def)
qed

section \<open>A complete dump\<close>

fun scan_run :: "string list \<Rightarrow> scan_state \<Rightarrow> scan_state option" where
  "scan_run [] s = Some s"
| "scan_run (line # lines) s = (case scan_step line s of None \<Rightarrow> None | Some s' \<Rightarrow> scan_run lines s')"

lemma scan_loop_append:
  "scan_loop e (xs @ ys) s = (case scan_run xs s of None \<Rightarrow> scan_loop e xs s | Some s' \<Rightarrow> scan_loop e ys s')"
  by (induction xs arbitrary: s) (auto split: option.split)

lemma scan_run_append:
  "scan_run (xs @ ys) s = (case scan_run xs s of None \<Rightarrow> None | Some s' \<Rightarrow> scan_run ys s')"
  by (induction xs arbitrary: s) (auto split: option.split)

lemma match_pat_Lit: "match_pat (Lit w # ps) s = Some groups \<Longrightarrow> prefix w s"
  by (auto simp: has_prefix_def split: if_splits)

lemma find_pat_Lit: "find_pat (Lit w # ps) s = Some groups \<Longrightarrow> contains s w"
proof (induction s)
  case Nil
  then show ?case using match_pat_Lit [of w ps "[]" groups] by simp
next
  case (Cons c cs)
  then show ?case using match_pat_Lit [of w ps "c # cs"] by (auto simp del: match_pat.simps split: option.splits)
qed

lemma parsed_node_contains: "ParseNodeCache line = Inr node \<Longrightarrow> contains line NodeCacheDumpPrefix"
  using find_pat_Lit [of "''Node (''" "tl node_pattern" line]
  by (auto simp: ParseNodeCache_def capture_def node_pattern_def NodeCacheDumpPrefix_def simp del: match_pat.simps
      split: option.splits sum.splits list.splits)

lemma parsed_job_contains: "ParseJobCache line = Inr job \<Longrightarrow> contains line ''Job (''"
  using find_pat_Lit [of "''Job (''" "tl job_pattern" line]
  by (auto simp: ParseJobCache_def job_pattern_def simp del: match_pat.simps split: option.splits list.splits)

lemma parsed_job_tasks: "ParseJobCache line = Inr job \<Longrightarrow> cj_tasks job = []"
  by (auto simp: ParseJobCache_def split: option.splits list.splits)

lemma parsed_task_contains: "ParseTaskCache line = Inr task \<Longrightarrow> contains line ''Task (''"
  using find_pat_Lit [of "''Task (''" "tl task_pattern" line]
  by (auto simp: ParseTaskCache_def task_pattern_def simp del: match_pat.simps split: option.splits list.splits sum.splits)

text \<open>The lines of the two sections with what they parse to; none is a marker of the dump.\<close>

definition node_entry :: "string \<times> cache_node \<Rightarrow> bool" where
  "node_entry = (\<lambda>(line, node). ParseNodeCache line = Inr node
     \<and> \<not> contains line nodeDumpStart \<and> \<not> contains line jobDumpStart)"

definition task_entry :: "string \<times> cache_task \<Rightarrow> bool" where
  "task_entry = (\<lambda>(line, task). ParseTaskCache line = Inr task
     \<and> \<not> contains line nodeDumpStart \<and> \<not> contains line cacheDumpEnd \<and> \<not> contains line ''Job ('')"

definition job_entry :: "string \<times> cache_job \<times> (string \<times> cache_task) list \<Rightarrow> bool" where
  "job_entry = (\<lambda>(line, job, tasks). ParseJobCache line = Inr job
     \<and> \<not> contains line nodeDumpStart \<and> \<not> contains line cacheDumpEnd \<and> list_all task_entry tasks)"

definition job_lines :: "string \<times> cache_job \<times> (string \<times> cache_task) list \<Rightarrow> string list" where
  "job_lines = (\<lambda>(line, job, tasks). line # map fst tasks)"

definition job_value :: "string \<times> cache_job \<times> (string \<times> cache_task) list \<Rightarrow> string \<times> cache_job" where
  "job_value = (\<lambda>(line, job, tasks). (job_key job, job\<lparr>cj_tasks := map snd tasks\<rparr>))"

lemma gm_set_fresh: "k \<notin> set (gm_keys m) \<Longrightarrow> gm_set k v m = m @ [(k, v)]"
  by (induction m) (auto simp: gm_set_def gm_keys_def)

lemma gm_set_last: "k \<notin> set (gm_keys m) \<Longrightarrow> gm_set k v (m @ [(k, w)]) = m @ [(k, v)]"
  by (induction m) (auto simp: gm_set_def gm_keys_def)

lemma gm_get_last: "k \<notin> set (gm_keys m) \<Longrightarrow> gm_get (m @ [(k, w)]) k = Some w"
  by (induction m) (auto simp: gm_get_def gm_keys_def)

lemma scan_nodes_run:
  "list_all node_entry nodes \<Longrightarrow> distinct (gm_keys (sc_nodes s) @ map (cn_name \<circ> snd) nodes) \<Longrightarrow> sc_node_started s \<Longrightarrow>
   \<not> sc_job_started s \<Longrightarrow>
   scan_run (map fst nodes) s = Some (s\<lparr>sc_nodes := sc_nodes s @ map (\<lambda>(l, n). (cn_name n, n)) nodes\<rparr>)"
proof (induction nodes arbitrary: s)
  case (Cons entry nodes)
  obtain line node where e: "entry = (line, node)" by force
  let ?s = "s\<lparr>sc_nodes := sc_nodes s @ [(cn_name node, node)]\<rparr>"
  have "scan_step line s = Some ?s"
    using Cons.prems by (simp add: e node_entry_def scan_step_def scan_node_def parsed_node_contains gm_set_fresh)
  moreover have "scan_run (map fst nodes) ?s = Some (?s\<lparr>sc_nodes := sc_nodes ?s @ map (\<lambda>(l, n). (cn_name n, n)) nodes\<rparr>)"
    by (rule Cons.IH) (use Cons.prems in \<open>auto simp: e gm_keys_def\<close>)
  ultimately show ?case by (simp add: e)
qed simp

lemma scan_tasks_run:
  "list_all task_entry tasks \<Longrightarrow> sc_job_started s \<Longrightarrow> \<not> sc_node_started s \<Longrightarrow> sc_current s = k \<Longrightarrow> k \<noteq> '''' \<Longrightarrow>
   sc_jobs s = jobs @ [(k, job)] \<Longrightarrow> k \<notin> set (gm_keys jobs) \<Longrightarrow>
   scan_run (map fst tasks) s
     = Some (s\<lparr>sc_jobs := jobs @ [(k, job\<lparr>cj_tasks := cj_tasks job @ map snd tasks\<rparr>)]\<rparr>)"
proof (induction tasks arbitrary: s job)
  case (Cons entry tasks)
  obtain line task where e: "entry = (line, task)" by force
  let ?job = "job\<lparr>cj_tasks := cj_tasks job @ [task]\<rparr>"
  let ?s = "s\<lparr>sc_jobs := jobs @ [(k, ?job)]\<rparr>"
  have "scan_step line s = Some ?s"
    using Cons.prems by (simp add: e task_entry_def scan_step_def scan_task_def parsed_task_contains gm_or_def
        gm_get_last gm_set_last)
  moreover have "scan_run (map fst tasks) ?s
      = Some (?s\<lparr>sc_jobs := jobs @ [(k, ?job\<lparr>cj_tasks := cj_tasks ?job @ map snd tasks\<rparr>)]\<rparr>)"
    by (rule Cons.IH) (use Cons.prems in \<open>simp_all add: e\<close>)
  ultimately show ?case by (simp add: e)
qed simp

lemma scan_jobs_run:
  "list_all job_entry blocks \<Longrightarrow> distinct (gm_keys (sc_jobs s) @ map (fst \<circ> job_value) blocks) \<Longrightarrow>
   sc_job_started s \<Longrightarrow> \<not> sc_node_started s \<Longrightarrow>
   \<exists>k. scan_run (concat (map job_lines blocks)) s
     = Some (s\<lparr>sc_jobs := sc_jobs s @ map job_value blocks, sc_current := k\<rparr>)"
proof (induction blocks arbitrary: s)
  case Nil
  show ?case by (intro exI [of _ "sc_current s"]) simp
next
  case (Cons block blocks)
  obtain line job tasks where e: "block = (line, job, tasks)" by (metis prod_cases3)
  let ?k = "job_key job"
  let ?s = "s\<lparr>sc_current := ?k, sc_jobs := sc_jobs s @ [(?k, job)]\<rparr>"
  let ?t = "s\<lparr>sc_current := ?k, sc_jobs := sc_jobs s @ [(?k, job\<lparr>cj_tasks := map snd tasks\<rparr>)]\<rparr>"
  have new: "?k \<notin> set (gm_keys (sc_jobs s))" using Cons.prems(2) by (simp add: e job_value_def)
  have "scan_step line s = Some ?s"
    using Cons.prems new by (simp add: e job_entry_def scan_step_def scan_job_def parsed_job_contains gm_set_fresh)
  moreover have "scan_run (map fst tasks) ?s = Some (?s\<lparr>sc_jobs := sc_jobs s @ [(?k, job\<lparr>cj_tasks := cj_tasks job @ map snd tasks\<rparr>)]\<rparr>)"
    by (rule scan_tasks_run [where k = ?k and jobs = "sc_jobs s"])
      (use Cons.prems new in \<open>simp_all add: e job_entry_def job_key_def\<close>)
  moreover have "cj_tasks job = []" using Cons.prems(1) by (auto simp: e job_entry_def parsed_job_tasks)
  ultimately have "scan_run (job_lines block) s = Some ?t" by (simp add: e job_lines_def)
  moreover obtain k where "scan_run (concat (map job_lines blocks)) ?t
      = Some (?t\<lparr>sc_jobs := sc_jobs ?t @ map job_value blocks, sc_current := k\<rparr>)"
    using Cons.IH [of ?t] Cons.prems by (auto simp: e gm_keys_def job_value_def)
  ultimately show ?case by (intro exI [of _ k]) (simp add: scan_run_append e job_value_def)
qed

text \<open>C19: A complete dump is read completely, and nothing else: whatever earlier and broken dumps the
  log holds before its first line and whatever follows its last, the result has exactly the nodes of
  its node lines and, for every job line, the job with the tasks of the lines below it, in order, and no
  error.
\<close>
theorem complete_dump_read:
  assumes "scan_run noise scan_start \<noteq> None" and "contains begins nodeDumpStart"
    and "list_all node_entry nodes" and "distinct (map (cn_name \<circ> snd) nodes)"
    and "contains middle jobDumpStart" and "\<not> contains middle nodeDumpStart"
    and "list_all job_entry blocks" and "distinct (map (fst \<circ> job_value) blocks)"
    and "contains ends cacheDumpEnd" and "\<not> contains ends nodeDumpStart"
  shows "scan_loop readErr (noise @ begins # map fst nodes @ middle # concat (map job_lines blocks) @ ends # rest) scan_start
    = \<lparr>cc_nodes = Some (map (\<lambda>(line, node). (cn_name node, node)) nodes), cc_jobs = Some (map job_value blocks),
       cc_parse_err = None, cc_err = None\<rparr>"
proof -
  let ?s = "scan_start\<lparr>sc_node_started := True\<rparr>"
  let ?t = "scan_start\<lparr>sc_nodes := map (\<lambda>(line, node). (cn_name node, node)) nodes, sc_job_started := True\<rparr>"
  have nodes: "scan_run (map fst nodes) ?s = Some (?s\<lparr>sc_nodes := map (\<lambda>(line, node). (cn_name node, node)) nodes\<rparr>)"
    using scan_nodes_run [of nodes ?s] assms(3,4) by (simp add: scan_start_def gm_keys_def)
  obtain k where jobs: "scan_run (concat (map job_lines blocks)) ?t
      = Some (?t\<lparr>sc_jobs := map job_value blocks, sc_current := k\<rparr>)"
    using scan_jobs_run [of blocks ?t] assms(7,8) by (auto simp: scan_start_def gm_keys_def)
  have mid: "scan_step middle (?s\<lparr>sc_nodes := map (\<lambda>(line, node). (cn_name node, node)) nodes\<rparr>) = Some ?t"
    using assms(5,6) by (simp add: scan_step_def scan_start_def)
  obtain s0 where "scan_run noise scan_start = Some s0" using assms(1) by blast
  moreover have "scan_step begins s0 = Some ?s" using assms(2) by (simp add: scan_step_def)
  moreover have "scan_step ends (?t\<lparr>sc_jobs := map job_value blocks, sc_current := k\<rparr>) = None"
    using assms(9,10) by (simp add: scan_step_def scan_start_def)
  ultimately show ?thesis
    by (simp add: scan_loop_append nodes jobs mid) (simp add: scan_start_def scan_result_def)
qed

section \<open>Runs of the capture\<close>

inductive_cases capture_step_cases: "capture_step delivers answers ctxErr s t"

definition reading :: "capturer \<Rightarrow> bool" where
  "reading m = (case m of AwaitStart \<Rightarrow> False | Returned out \<Rightarrow> False | _ \<Rightarrow> True)"

definition signalled :: "capturer \<Rightarrow> bool" where
  "signalled m = (case m of AwaitResult \<Rightarrow> True | Closing \<Rightarrow> True | _ \<Rightarrow> False)"

definition scanned :: "(bool \<Rightarrow> string \<Rightarrow> go_error option \<Rightarrow> bool) \<Rightarrow> capture_result \<Rightarrow> bool" where
  "scanned delivers r = (\<exists>expired content readErr. delivers expired content readErr \<and> r = scanCacheDump content readErr)"

definition good_return ::
  "(bool \<Rightarrow> string \<Rightarrow> go_error option \<Rightarrow> bool) \<Rightarrow> (go_error option \<Rightarrow> bool) \<Rightarrow> capture_outcome \<Rightarrow> nat \<Rightarrow> bool" where
  "good_return delivers answers out n =
     (case out of (nodes, jobs, err) \<Rightarrow> err = None \<longrightarrow>
        answers None \<and> n = 1
        \<and> scanned delivers \<lparr>cc_nodes = nodes, cc_jobs = jobs, cc_parse_err = None, cc_err = None\<rparr>)"

definition capture_inv ::
  "(bool \<Rightarrow> string \<Rightarrow> go_error option \<Rightarrow> bool) \<Rightarrow> (go_error option \<Rightarrow> bool) \<Rightarrow> capture_state \<Rightarrow> bool" where
  "capture_inv delivers answers s \<longleftrightarrow>
     (reading (cy_main s) \<longrightarrow> cy_reader s \<noteq> Unread)
     \<and> (cy_main s = Closing \<longrightarrow> cy_expired s)
     \<and> (case cy_reader s of Finished r \<Rightarrow> scanned delivers r | _ \<Rightarrow> True)
     \<and> (case cy_main s of
          Returned out \<Rightarrow> cy_signals s \<le> 1 \<and> good_return delivers answers out (cy_signals s)
        | m \<Rightarrow> if signalled m then cy_signals s = 1 \<and> answers None else cy_signals s = 0)"

lemma good_return_error [simp]:
  "good_return delivers answers (start_timeout e) n" "good_return delivers answers (early_outcome r) n"
  "good_return delivers answers (nodes, jobs, Some e) n" "good_return delivers answers (timeout_outcome e w) n"
  by (auto simp: good_return_def start_timeout_def early_outcome_def timeout_outcome_def split: option.split)

lemma good_return_final: "scanned delivers r \<Longrightarrow> answers None \<Longrightarrow> good_return delivers answers (final_outcome r) (Suc 0)"
  by (cases r) (auto simp: good_return_def final_outcome_def split: option.split)

lemma capture_inv_start [simp]: "capture_inv delivers answers capture_start"
  by (simp add: capture_inv_def capture_start_def reading_def signalled_def)

lemma scanned_scan [simp]: "delivers expired content readErr \<Longrightarrow> scanned delivers (scanCacheDump content readErr)"
  by (auto simp: scanned_def)

lemma capture_inv_step: "capture_step delivers answers ctxErr s t \<Longrightarrow> capture_inv delivers answers s \<Longrightarrow> capture_inv delivers answers t"
  by (induction rule: capture_step.induct)
    (auto simp: capture_inv_def reading_def signalled_def good_return_final split: capturer.splits)

lemma capture_inv_reachable:
  "(capture_step delivers answers ctxErr)\<^sup>*\<^sup>* capture_start s \<Longrightarrow> capture_inv delivers answers s"
  by (induction rule: rtranclp_induct) (auto intro: capture_inv_step)

text \<open>The signal is sent at most once, and only after the parser has begun to read the log, so the
  answer of the scheduler cannot be missed.
\<close>
theorem signal_after_read:
  assumes "(capture_step delivers answers ctxErr)\<^sup>*\<^sup>* capture_start s" and "capture_step delivers answers ctxErr s t"
    and "cy_signals t \<noteq> cy_signals s"
  shows "cy_reader s \<noteq> Unread \<and> cy_signals s = 0 \<and> cy_signals t = 1"
  using assms(2,3) capture_inv_reachable [OF assms(1)]
  by cases (simp_all add: capture_inv_def reading_def signalled_def)

lemma signalling_reachable:
  "(capture_step delivers (\<lambda>a. a = None) ctxErr)\<^sup>*\<^sup>* capture_start
     \<lparr>cy_reader = Reading, cy_main = Signalling, cy_expired = False, cy_signals = 0\<rparr>"
proof -
  let ?s2 = "\<lparr>cy_reader = Reading, cy_main = Signalling, cy_expired = False, cy_signals = 0\<rparr>"
  let ?step = "capture_step delivers (\<lambda>a. a = None) ctxErr"
  let ?s0 = "capture_start\<lparr>cy_reader := Reading\<rparr>" and ?s1 = "capture_start\<lparr>cy_reader := Reading, cy_main := CheckEarly\<rparr>"
  have "?step capture_start ?s0" by (rule capture_step.read_begins) (simp add: capture_start_def)
  moreover have "?step ?s0 ?s1" using capture_step.started [of ?s0] by (simp add: capture_start_def)
  moreover have "?step ?s1 ?s2" using capture_step.not_early [of ?s1] by (simp add: capture_start_def)
  ultimately show ?thesis by (meson rtranclp.rtrancl_into_rtrancl rtranclp.rtrancl_refl)
qed

lemma signal_after_read_witness:
  "cy_reader \<lparr>cy_reader = Reading, cy_main = Signalling, cy_expired = False, cy_signals = 0\<rparr> \<noteq> Unread"
  using signal_after_read [OF signalling_reachable capture_step.signal_sent] by simp

text \<open>C10: When the capture succeeds: the leader was found and the log opened, the leader found again just
  before the signal is the same Pod, the signal was accepted, and the maps returned are the maps of a scan
  of what the log delivered, which met the end of a dump and no line it could not read.
\<close>
theorem capture_success:
  assumes "captureCacheDumpFromStream delivers (\<lambda>a. a = signal_answer (fst leader) recheck sent) ctxErr out"
    and "CaptureCacheDump leader stream out = (dump, None)"
  shows "snd leader = None \<and> stream = None \<and> snd recheck = None \<and> sameScheduler (fst leader) (fst recheck) \<and> sent = None
    \<and> cu_scheduler dump = fst leader
    \<and> (\<exists>expired content readErr. delivers expired content readErr \<and> scanCacheDump content readErr
         = \<lparr>cc_nodes = cu_nodes dump, cc_jobs = cu_jobs dump, cc_parse_err = None, cc_err = None\<rparr>)"
proof -
  obtain scheduler where l: "leader = (scheduler, None)" and st: "stream = None"
    using assms(2) by (cases leader) (auto simp: CaptureCacheDump_def Let_def split: option.splits prod.splits)
  obtain nodes jobs where out: "out = (nodes, jobs, None)"
      and dump: "dump = \<lparr>cu_scheduler = scheduler, cu_nodes = nodes, cu_jobs = jobs\<rparr>"
    using assms(2) by (cases out) (auto simp: CaptureCacheDump_def l st)
  obtain s where "(capture_step delivers (\<lambda>a. a = signal_answer scheduler recheck sent) ctxErr)\<^sup>*\<^sup>* capture_start s"
      and "cy_main s = Returned out"
    using assms(1) by (auto simp: captureCacheDumpFromStream_def l)
  then have "good_return delivers (\<lambda>a. a = signal_answer scheduler recheck sent) out (cy_signals s)"
    using capture_inv_reachable by (fastforce simp: capture_inv_def)
  then have "signal_answer scheduler recheck sent = None"
      and "scanned delivers \<lparr>cc_nodes = nodes, cc_jobs = jobs, cc_parse_err = None, cc_err = None\<rparr>"
    by (simp_all add: good_return_def out)
  then show ?thesis
    by (auto simp: signal_answer_def scanned_def l st dump split: prod.splits option.splits if_splits intro: sym)
qed

fun reader_rank :: "reader \<Rightarrow> nat" where
  "reader_rank Unread = 2"
| "reader_rank Reading = 1"
| "reader_rank (Finished r) = 0"

fun main_rank :: "capturer \<Rightarrow> nat" where
  "main_rank AwaitStart = 5"
| "main_rank CheckEarly = 4"
| "main_rank Signalling = 3"
| "main_rank AwaitResult = 2"
| "main_rank Closing = 1"
| "main_rank (Returned out) = 0"

definition capture_rank :: "capture_state \<Rightarrow> nat" where
  "capture_rank s = reader_rank (cy_reader s) + main_rank (cy_main s) + (if cy_expired s then 0 else 1)"

lemma capture_step_rank: "capture_step delivers answers ctxErr s t \<Longrightarrow> capture_rank t < capture_rank s"
  by (induction rule: capture_step.induct) (simp_all add: capture_rank_def)

text \<open>
  The capturing thread waits only before the context has expired, for the parser to begin or for its
  result. Everywhere else it can take a step of its own, whatever the parser does.
\<close>

definition capture_waits :: "capture_state \<Rightarrow> bool" where
  "capture_waits s \<longleftrightarrow> \<not> cy_expired s
     \<and> (cy_main s = AwaitStart \<and> cy_reader s = Unread \<or> cy_main s = AwaitResult \<and> cy_reader s = Reading)"

lemma main_waits:
  "capture_step delivers answers ctxErr s t \<Longrightarrow> capture_waits s \<Longrightarrow> cy_main t = cy_main s"
  by (induction rule: capture_step.induct) (auto simp: capture_waits_def)

lemma main_returned:
  "capture_step delivers answers ctxErr s t \<Longrightarrow> cy_main s = Returned out \<Longrightarrow> cy_main t = Returned out"
  by (induction rule: capture_step.induct) auto

lemma main_moves:
  assumes inv: "capture_inv delivers answers s" and ans: "answers a"
    and busy: "\<not> capture_waits s" "\<nexists>out. cy_main s = Returned out"
  shows "\<exists>t. capture_step delivers answers ctxErr s t \<and> cy_main t \<noteq> cy_main s"
proof -
  have move: ?thesis if "capture_step delivers answers ctxErr s (s\<lparr>cy_main := m\<rparr>)" "m \<noteq> cy_main s" for m
    using that by (intro exI [of _ "s\<lparr>cy_main := m\<rparr>"]) simp
  show ?thesis
  proof (cases "cy_main s")
    case AwaitStart
    then show ?thesis using busy(1) move [OF capture_step.started] move [OF capture_step.not_started]
      by (cases "cy_reader s = Unread") (auto simp: capture_waits_def)
  next
    case CheckEarly
    then show ?thesis using inv move [OF capture_step.not_early] move [OF capture_step.early]
      by (cases "cy_reader s") (auto simp: capture_inv_def reading_def)
  next
    case Signalling
    show ?thesis
    proof (cases a)
      case None
      then show ?thesis using capture_step.signal_sent [OF Signalling] ans Signalling
        by (intro exI [of _ "s\<lparr>cy_main := AwaitResult, cy_signals := cy_signals s + 1\<rparr>"]) simp
    next
      case (Some e)
      then show ?thesis using move [OF capture_step.signal_fails [OF Signalling]] ans Signalling by auto
    qed
  next
    case AwaitResult
    then show ?thesis using inv busy(1) move [OF capture_step.received] move [OF capture_step.timed_out]
      by (cases "cy_reader s") (auto simp: capture_waits_def capture_inv_def reading_def)
  next
    case Closing
    then show ?thesis using move [OF capture_step.timer_fires] by auto
  next
    case (Returned out)
    with busy(2) show ?thesis by blast
  qed
qed

lemma capture_bound: "(capture_step delivers answers ctxErr ^^ n) capture_start s \<Longrightarrow> n + capture_rank s \<le> 8"
proof (induction n arbitrary: s)
  case 0
  then show ?case by (auto simp: capture_start_def capture_rank_def)
next
  case (Suc n)
  then obtain t where "(capture_step delivers answers ctxErr ^^ n) capture_start t"
      "capture_step delivers answers ctxErr t s" by auto
  with Suc.IH [of t] capture_step_rank [of delivers answers ctxErr t s] show ?case by simp
qed

text \<open>A silent log: the reader never finishes, and these are the three ways the capture returns.\<close>

definition silent :: "bool \<Rightarrow> string \<Rightarrow> go_error option \<Rightarrow> bool" where
  "silent expired content readErr = False"

definition silent_return :: "(go_error option \<Rightarrow> bool) \<Rightarrow> go_error \<Rightarrow> capture_outcome \<Rightarrow> bool" where
  "silent_return answers ctxErr out \<longleftrightarrow>
     out = start_timeout ctxErr
     \<or> (\<exists>e. answers (Some e) \<and> out = (None, None, Some e))
     \<or> answers None \<and> out = timeout_outcome ctxErr None"

lemma silent_step:
  "capture_step silent answers ctxErr s t \<Longrightarrow>
    (\<nexists>r. cy_reader s = Finished r) \<and> (signalled (cy_main s) \<longrightarrow> answers None)
      \<and> (\<forall>out. cy_main s = Returned out \<longrightarrow> silent_return answers ctxErr out) \<Longrightarrow>
    (\<nexists>r. cy_reader t = Finished r) \<and> (signalled (cy_main t) \<longrightarrow> answers None)
      \<and> (\<forall>out. cy_main t = Returned out \<longrightarrow> silent_return answers ctxErr out)"
  by (induction rule: capture_step.induct) (auto simp: silent_def silent_return_def signalled_def)

lemma silent_capture: "captureCacheDumpFromStream silent answers ctxErr out \<Longrightarrow> silent_return answers ctxErr out"
proof -
  have "(\<nexists>r. cy_reader s = Finished r) \<and> (signalled (cy_main s) \<longrightarrow> answers None)
      \<and> (\<forall>out. cy_main s = Returned out \<longrightarrow> silent_return answers ctxErr out)"
    if "(capture_step silent answers ctxErr)\<^sup>*\<^sup>* capture_start s" for s
    using that
  proof (induction rule: rtranclp_induct)
    case base
    show ?case by (simp add: capture_start_def signalled_def)
  next
    case (step s t)
    from silent_step [OF step.hyps(2) step.IH] show ?case .
  qed
  then show "captureCacheDumpFromStream silent answers ctxErr out \<Longrightarrow> silent_return answers ctxErr out"
    unfolding captureCacheDumpFromStream_def by blast
qed

lemma silent_returns:
  assumes "silent_return answers ctxErr out"
  shows "captureCacheDumpFromStream silent answers ctxErr out"
proof -
  let ?step = "capture_step silent answers ctxErr"
  let ?st = "\<lambda>r m e n. \<lparr>cy_reader = r, cy_main = m, cy_expired = e, cy_signals = n\<rparr>"
  have start: "capture_start = ?st Unread AwaitStart False 0" by (simp add: capture_start_def)
  have s1: "?step capture_start (?st Reading AwaitStart False 0)"
    using capture_step.read_begins [of capture_start] by (simp add: start)
  have s2: "?step (?st Reading AwaitStart False 0) (?st Reading CheckEarly False 0)"
    using capture_step.started [of "?st Reading AwaitStart False 0"] by simp
  have s3: "?step (?st Reading CheckEarly False 0) (?st Reading Signalling False 0)"
    using capture_step.not_early [of "?st Reading CheckEarly False 0"] by simp
  have signalling: "?step\<^sup>*\<^sup>* capture_start (?st Reading Signalling False 0)"
    using s1 s2 s3 by (meson rtranclp.rtrancl_into_rtrancl rtranclp.rtrancl_refl)
  have returned: ?thesis if "?step\<^sup>*\<^sup>* capture_start s" "cy_main s = Returned out" for s
    using that unfolding captureCacheDumpFromStream_def by blast
  from assms consider "out = start_timeout ctxErr" | e where "answers (Some e)" "out = (None, None, Some e)"
    | "answers None" "out = timeout_outcome ctxErr None" unfolding silent_return_def by blast
  then show ?thesis
  proof cases
    case 1
    have e1: "?step capture_start (?st Unread AwaitStart True 0)"
      using capture_step.expires [of capture_start] by (simp add: start)
    have e2: "?step (?st Unread AwaitStart True 0) (?st Unread (Returned out) True 0)"
      using capture_step.not_started [of "?st Unread AwaitStart True 0"] 1 by simp
    have "?step\<^sup>*\<^sup>* capture_start (?st Unread (Returned out) True 0)"
      using e1 e2 by (meson rtranclp.rtrancl_into_rtrancl rtranclp.rtrancl_refl)
    then show ?thesis by (rule returned) simp
  next
    case 2
    have "?step (?st Reading Signalling False 0) (?st Reading (Returned out) False 0)"
      using capture_step.signal_fails [of "?st Reading Signalling False 0"] 2 by simp
    with signalling have "?step\<^sup>*\<^sup>* capture_start (?st Reading (Returned out) False 0)"
      by (rule rtranclp.rtrancl_into_rtrancl)
    then show ?thesis by (rule returned) simp
  next
    case 3
    have e1: "?step (?st Reading Signalling False 0) (?st Reading AwaitResult False 1)"
      using capture_step.signal_sent [of "?st Reading Signalling False 0"] 3 by simp
    have e2: "?step (?st Reading AwaitResult False 1) (?st Reading AwaitResult True 1)"
      using capture_step.expires [of "?st Reading AwaitResult False 1"] by simp
    have e3: "?step (?st Reading AwaitResult True 1) (?st Reading Closing True 1)"
      using capture_step.timed_out [of "?st Reading AwaitResult True 1"] by simp
    have e4: "?step (?st Reading Closing True 1) (?st Reading (Returned out) True 1)"
      using capture_step.timer_fires [of "?st Reading Closing True 1"] 3 by simp
    have "?step\<^sup>*\<^sup>* capture_start (?st Reading (Returned out) True 1)"
      using signalling e1 e2 e3 e4 by (meson rtranclp.rtrancl_into_rtrancl)
    then show ?thesis by (rule returned) simp
  qed
qed

text \<open>C20: The capture does not depend on the log to return. In every state it reaches, whatever the log
  delivers, the capturing thread can take a step of its own unless it has returned or waits, before the
  context has expired, for the parser to begin or for its result; every run of the two threads has at
  most eight steps, and where no step is left the capture has returned. With a silent log it returns in
  exactly three ways: the context expires before the parser begins, the signal function fails, or the
  signal is accepted and the context expires and the timer fires. The signal function is taken to answer.
\<close>
theorem capture_returns:
  assumes "(capture_step delivers answers ctxErr)\<^sup>*\<^sup>* capture_start s" and "answers a"
  shows "((\<exists>t. capture_step delivers answers ctxErr s t \<and> cy_main t \<noteq> cy_main s)
      \<longleftrightarrow> \<not> capture_waits s \<and> \<not> (\<exists>out. cy_main s = Returned out))
    \<and> ((\<exists>t. capture_step delivers answers ctxErr s t) \<or> (\<exists>out. cy_main s = Returned out))
    \<and> (if (capture_step delivers answers ctxErr ^^ n) capture_start s then n \<le> 8 else True)
    \<and> (captureCacheDumpFromStream silent answers ctxErr out \<longleftrightarrow> silent_return answers ctxErr out)"
proof -
  note inv = capture_inv_reachable [OF assms(1)]
  have moves: "(\<exists>t. capture_step delivers answers ctxErr s t \<and> cy_main t \<noteq> cy_main s)
      \<longleftrightarrow> \<not> capture_waits s \<and> \<not> (\<exists>out. cy_main s = Returned out)"
    using main_moves [of delivers answers s a ctxErr] inv assms(2) by (auto dest: main_waits main_returned)
  moreover have "(\<exists>t. capture_step delivers answers ctxErr s t) \<or> (\<exists>out. cy_main s = Returned out)"
  proof (cases "capture_waits s")
    case True
    then show ?thesis using capture_step.expires [of s] by (auto simp: capture_waits_def)
  qed (use moves in blast)
  moreover have "n \<le> 8" if "(capture_step delivers answers ctxErr ^^ n) capture_start s"
    using capture_bound [OF that] by simp
  moreover note silent_capture [of answers ctxErr out] silent_returns [of answers ctxErr out]
  ultimately show ?thesis by auto
qed

text \<open>In the signal function, with a silent log: the capturing thread does not wait and moves on.\<close>

lemma capture_returns_witness:
  "capture_waits \<lparr>cy_reader = Reading, cy_main = Signalling, cy_expired = False, cy_signals = 0\<rparr> = False
   \<and> (\<exists>t. capture_step silent (\<lambda>a. a = None) (errorf []) 
        \<lparr>cy_reader = Reading, cy_main = Signalling, cy_expired = False, cy_signals = 0\<rparr> t
      \<and> cy_main t \<noteq> Signalling)"
  using capture_returns [OF signalling_reachable [of silent "errorf []"], of None] by (simp add: capture_waits_def)

section \<open>Printed lines are read back\<close>

text \<open>The lines as Volcano prints them: whole amounts with two decimals, behind a log prefix.\<close>

definition printed_amount :: "string \<times> int \<Rightarrow> string" where
  "printed_amount = (\<lambda>(k, n). k @ CHR '' '' # dec_str n @ ''.00'')"

definition printed_amounts :: "(string \<times> int) list \<Rightarrow> string" where
  "printed_amounts xs = join (map printed_amount xs) '', ''"

definition printable_amount :: "string \<times> int \<Rightarrow> bool" where
  "printable_amount = (\<lambda>(k, n). k \<noteq> '''' \<and> list_all (\<lambda>c. \<not> is_space c \<and> c \<notin> set '',<>'') k
     \<and> \<not> has_prefix (to_lower k) ''requests.'' \<and> 0 \<le> n \<and> n \<le> 2 ^ 53)"

definition read_amounts :: "(string \<times> int) list \<Rightarrow> f64 gomap" where
  "read_amounts xs = map (\<lambda>(k, n). (k, dump_amount k (Fin (of_int n)))) xs"

definition printable_amounts :: "(string \<times> int) list \<Rightarrow> bool" where
  "printable_amounts xs \<longleftrightarrow> xs \<noteq> [] \<and> list_all printable_amount xs \<and> distinct (map fst xs)"

definition printed_node ::
  "string \<Rightarrow> string \<Rightarrow> (string \<times> int) list \<Rightarrow> (string \<times> int) list \<Rightarrow> (string \<times> int) list \<Rightarrow> (string \<times> int) list
    \<Rightarrow> string \<Rightarrow> string" where
  "printed_node pre name a i u r post =
     pre @ ''Node ('' @ name @ ''): allocatable<'' @ printed_amounts a @ ''> idle <'' @ printed_amounts i @ ''>, used <''
       @ printed_amounts u @ ''>, releasing <'' @ printed_amounts r @ ''>'' @ post"

lemma digit_plain: "is_digit c \<Longrightarrow> \<not> is_space c \<and> c \<notin> set '',<>''"
  by (auto simp: is_digit_def is_space_def Let_def)

lemma point_plain: "\<not> is_space CHR ''.''" "\<not> is_space CHR ''0''"
  by (simp_all add: is_space_def)

lemma printed_number_plain: "0 \<le> n \<Longrightarrow> list_all (\<lambda>c. \<not> is_space c \<and> c \<notin> set '',<>'') (dec_str n @ ''.00'')"
  using dec_str_digits [of n] digit_plain by (auto simp: list_all_iff point_plain)

lemma printed_amount_plain: "printable_amount x \<Longrightarrow> c \<in> set (printed_amount x) \<Longrightarrow> c = CHR '' '' \<or> \<not> is_space c \<and> c \<notin> set '',<>''"
  using printed_number_plain [of "snd x"]
  by (cases x) (auto simp: printable_amount_def printed_amount_def list_all_iff)

lemma space_facts: "is_space CHR '' ''" "is_space CHR 0x0A" "CHR '' '' \<noteq> CHR 0x0A"
  by (simp_all add: is_space_def)

lemma set_join: "set (join ws sep) \<subseteq> (\<Union>w \<in> set ws. set w) \<union> set sep"
  by (induction ws sep rule: join.induct) auto

lemma printed_amounts_plain:
  assumes "list_all printable_amount xs"
  shows "CHR ''<'' \<notin> set (printed_amounts xs)" "CHR ''>'' \<notin> set (printed_amounts xs)" "CHR 0x0A \<notin> set (printed_amounts xs)"
proof -
  have "c \<in> {CHR '' '', CHR '',''} \<or> \<not> is_space c \<and> c \<notin> set '',<>''" if "c \<in> set (printed_amounts xs)" for c
  proof -
    from that set_join [of "map printed_amount xs" "'', ''"] obtain x
      where "x \<in> set xs \<and> c \<in> set (printed_amount x) \<or> c \<in> set '', ''" unfolding printed_amounts_def by fastforce
    then show ?thesis using assms printed_amount_plain [of x c] by (auto simp: list_all_iff)
  qed
  from this [of "CHR ''<''"] this [of "CHR ''>''"] this [of "CHR 0x0A"] space_facts
  show "CHR ''<'' \<notin> set (printed_amounts xs)" "CHR ''>'' \<notin> set (printed_amounts xs)" "CHR 0x0A \<notin> set (printed_amounts xs)"
    by auto
qed

lemma printed_amount_fields:
  assumes "printable_amount (k, n)" and blank: "list_all is_space b"
  shows "Go_Strings.fields (trim_space (b @ printed_amount (k, n))) = [k, dec_str n @ ''.00'']"
proof -
  have k: "k \<noteq> []" "list_all (\<lambda>c. \<not> is_space c) k" "0 \<le> n" using assms by (auto simp: printable_amount_def list_all_iff)
  have w: "list_all (\<lambda>c. \<not> is_space c) (dec_str n @ ''.00'')" using printed_number_plain [OF k(3)] by (auto simp: list_all_iff)
  have "trim_space (printed_amount (k, n)) = printed_amount (k, n)"
    by (rule trim_space_id) (use k w in \<open>auto simp: printed_amount_def list_all_iff\<close>)
  then have "trim_space (b @ printed_amount (k, n)) = k @ CHR '' '' # (dec_str n @ ''.00'')"
    using blank by (simp add: trim_space_blank) (simp add: printed_amount_def)
  then show ?thesis using fields_pair [of k "dec_str n @ ''.00''"] k w by simp
qed

lemma canonical_plain:
  assumes "printable_amount (k, n)"
  shows "canonicalQueueResourceName k = k"
proof -
  have "trim_space k = k" by (rule trim_space_id) (use assms in \<open>auto simp: printable_amount_def list_all_iff\<close>)
  then show ?thesis using assms by (simp add: canonicalQueueResourceName_def printable_amount_def Let_def)
qed

lemma dump_loop_printed:
  assumes "list_all is_space b"
  shows "list_all printable_amount xs \<Longrightarrow> distinct (gm_keys result @ map fst xs) \<Longrightarrow> (\<And>k. \<not> gm_or False backed k) \<Longrightarrow>
    dump_loop (map (\<lambda>x. b @ printed_amount x) xs) result backed = Inr (result @ read_amounts xs)"
proof (induction xs arbitrary: result backed)
  case Nil
  then show ?case by (simp add: read_amounts_def)
next
  case (Cons x xs)
  obtain k n where x: "x = (k, n)" by force
  have ok: "printable_amount (k, n)" using Cons.prems(1) by (simp add: x)
  then have n: "0 \<le> n" "n \<le> 2 ^ 53" and k: "\<not> has_prefix (to_lower k) ''requests.''" by (auto simp: printable_amount_def)
  have "dump_loop (map (\<lambda>x. b @ printed_amount x) xs) (result @ [(k, dump_amount k (Fin (of_int n)))]) (gm_set k False backed)
      = Inr ((result @ [(k, dump_amount k (Fin (of_int n)))]) @ read_amounts xs)"
    by (rule Cons.IH) (use Cons.prems in \<open>auto simp: x gm_keys_def\<close>)
  moreover have "k \<notin> set (gm_keys result)" using Cons.prems(2) by (simp add: x)
  ultimately show ?case
    using Cons.prems(3) printed_amount_fields [OF ok assms] ParseFloat_whole [OF n] k
    by (simp add: x canonical_plain [OF ok] gm_set_fresh read_amounts_def)
qed

lemma trim_space_blank_iff: "trim_space s = '''' \<longleftrightarrow> list_all is_space s"
proof
  assume "trim_space s = ''''"
  then have "\<forall>c \<in> set (dropWhile is_space s). is_space c" by (simp add: trim_space_def trim_with_def dropWhile_eq_Nil_conv)
  then have "dropWhile is_space s = []" using hd_dropWhile [of is_space s] hd_in_set by (metis (full_types))
  then show "list_all is_space s" by (simp add: dropWhile_eq_Nil_conv list_all_iff)
qed (use trim_space_blank [of s "[]"] in \<open>simp add: trim_space_def trim_with_def\<close>)

lemma parse_printed_amounts:
  assumes "printable_amounts xs"
  shows "parseDumpResources (printed_amounts xs) = Inr (read_amounts xs)" and "printed_amounts xs \<noteq> ''''"
proof -
  obtain x ys where xs: "xs = x # ys" using assms by (cases xs) (auto simp: printable_amounts_def)
  obtain k n where x: "x = (k, n)" by force
  have ok: "list_all printable_amount xs" using assms by (simp add: printable_amounts_def)
  have k: "printable_amount (k, n)" using ok by (simp add: xs x)
  show ne: "printed_amounts xs \<noteq> ''''"
    using k by (cases ys) (auto simp: printed_amounts_def printed_amount_def xs x printable_amount_def)
  have c: "CHR '','' \<notin> set (printed_amount y)" if "y \<in> set xs" for y
    using that ok printed_amount_plain [of y "CHR '',''"] by (auto simp: list_all_iff)
  have "printed_amounts xs = join (printed_amount x # map (\<lambda>w. '' '' @ w) (map printed_amount ys)) '',''"
    unfolding printed_amounts_def xs list.map(2) by (rule join_blank)
  then have split: "split_on CHR '','' (printed_amounts xs) = printed_amount x # map (\<lambda>y. '' '' @ printed_amount y) ys"
    using split_on_join [of "printed_amount x # map (\<lambda>w. '' '' @ w) (map printed_amount ys)" "CHR '',''"] c by (auto simp: xs)
  have "k \<noteq> []" "\<not> is_space (hd k)" using k by (auto simp: printable_amount_def list_all_iff)
  then have "hd k \<in> set (printed_amounts xs)" "\<not> is_space (hd k)"
    by (cases ys; simp add: printed_amounts_def printed_amount_def xs x)+
  then have blank: "trim_space (printed_amounts xs) \<noteq> ''''"
    using trim_space_blank_iff [of "printed_amounts xs"] by (auto simp: list_all_iff)
  have d: "distinct (map fst xs)" using assms by (simp add: printable_amounts_def)
  have "dump_loop (map (\<lambda>y. '' '' @ printed_amount y) ys) [(k, dump_amount k (Fin (of_int n)))] [(k, False)]
      = Inr ([(k, dump_amount k (Fin (of_int n)))] @ read_amounts ys)"
    by (rule dump_loop_printed) (use ok d in \<open>auto simp: xs x gm_keys_def is_space_def gm_or_def gm_get_def\<close>)
  then have "dump_loop (printed_amount x # map (\<lambda>y. '' '' @ printed_amount y) ys) [] [] = Inr (read_amounts xs)"
    using printed_amount_fields [OF k, of "[]"] k ParseFloat_whole [of n]
    by (simp add: x canonical_plain [OF k] printable_amount_def xs read_amounts_def gm_set_def gm_or_def gm_get_def)
  then show "parseDumpResources (printed_amounts xs) = Inr (read_amounts xs)"
    using blank by (simp add: parseDumpResources_def split)
qed

text \<open>A field of a line: found behind the first \<open><\<close> that its name precedes.\<close>

lemma field_here:
  assumes "c \<notin> set a" "c \<notin> set w" "suffix w a" "d \<notin> set v" "CHR 0x0A \<notin> set v"
  shows "find_pat [Lit (w @ [c]), Lazy, Lit [d]] (a @ c # v @ d # s) = Some [v]"
  using find_pat_skip [OF assms(1,2), of "[Lazy, Lit [d]]" "v @ d # s"] match_lazy_close [OF assms(4,5), of s] assms(3)
  by (simp del: match_pat.simps)

lemma field_later:
  assumes "c \<notin> set a" "c \<notin> set w" "\<not> suffix w a"
  shows "find_pat [Lit (w @ [c]), Lazy, Lit [d]] (a @ c # s) = find_pat [Lit (w @ [c]), Lazy, Lit [d]] s"
  using find_pat_skip [OF assms(1,2), of "[Lazy, Lit [d]]" s] assms(3) by (simp del: match_pat.simps)

lemma node_fields:
  fixes post :: string
  assumes "CHR ''('' \<notin> set pre" "CHR ''<'' \<notin> set pre" "CHR ''<'' \<notin> set name" "CHR '')'' \<notin> set name" "CHR 0x0A \<notin> set name"
    and a: "CHR ''<'' \<notin> set a" "CHR ''>'' \<notin> set a" "CHR 0x0A \<notin> set a"
    and i: "CHR ''<'' \<notin> set i" "CHR ''>'' \<notin> set i" "CHR 0x0A \<notin> set i"
    and u: "CHR ''<'' \<notin> set u" "CHR ''>'' \<notin> set u" "CHR 0x0A \<notin> set u"
    and r: "CHR ''<'' \<notin> set r" "CHR ''>'' \<notin> set r" "CHR 0x0A \<notin> set r"
  defines "line \<equiv> pre @ ''Node ('' @ name @ ''): allocatable<'' @ a @ ''> idle <'' @ i @ ''>, used <'' @ u
    @ ''>, releasing <'' @ r @ ''>'' @ post"
  shows "find_pat node_pattern line = Some [name]" and "find_pat allocatable_pattern line = Some [a]"
    and "find_pat idle_pattern line = Some [i]" and "find_pat used_pattern line = Some [u]"
    and "find_pat releasing_pattern line = Some [r]"
proof -
  let ?s0 = "(pre @ ''Node ('' @ name) @ ''): allocatable''" and ?s1 = "a @ ''> idle ''"
    and ?s2 = "i @ ''>, used ''" and ?s3 = "u @ ''>, releasing ''"
  have line: "line = ?s0 @ CHR ''<'' # ?s1 @ CHR ''<'' # ?s2 @ CHR ''<'' # ?s3 @ CHR ''<'' # r @ CHR ''>'' # post"
    by (simp add: line_def)
  have lt: "CHR ''<'' \<notin> set ?s0" "CHR ''<'' \<notin> set ?s1" "CHR ''<'' \<notin> set ?s2" "CHR ''<'' \<notin> set ?s3"
    using assms by auto
  show "find_pat node_pattern line = Some [name]"
    using field_here [of "CHR ''(''" "pre @ ''Node ''" "''Node ''" "CHR '')''" name
        "'': allocatable<'' @ a @ ''> idle <'' @ i @ ''>, used <'' @ u @ ''>, releasing <'' @ r @ ''>'' @ post"] assms
    by (simp add: node_pattern_def line_def suffix_def)
  show "find_pat allocatable_pattern line = Some [a]"
    using field_here [OF lt(1), of "''allocatable''" "CHR ''>''" a] a
    by (simp add: allocatable_pattern_def line suffix_to_prefix)
  show "find_pat idle_pattern line = Some [i]"
    using field_later [OF lt(1), of "''idle ''" "CHR ''>''"] field_here [OF lt(2), of "''idle ''" "CHR ''>''" i] i
    by (simp add: idle_pattern_def line suffix_to_prefix)
  show "find_pat used_pattern line = Some [u]"
    using field_later [OF lt(1), of "''used ''" "CHR ''>''"] field_later [OF lt(2), of "''used ''" "CHR ''>''"]
      field_here [OF lt(3), of "''used ''" "CHR ''>''" u] u
    by (simp add: used_pattern_def line suffix_to_prefix)
  show "find_pat releasing_pattern line = Some [r]"
    using field_later [OF lt(1), of "''releasing ''" "CHR ''>''"] field_later [OF lt(2), of "''releasing ''" "CHR ''>''"]
      field_later [OF lt(3), of "''releasing ''" "CHR ''>''"] field_here [OF lt(4), of "''releasing ''" "CHR ''>''" r] r
    by (simp add: releasing_pattern_def line suffix_to_prefix)
qed

text \<open>A node line that Volcano prints is read back: the name, and for each of the four resource lists
  exactly the printed names with their amounts, CPU and extended resources divided by 1000, memory and
  Pods as they are, whatever stands before and after on the line.
\<close>
theorem node_line_roundtrip:
  assumes "CHR ''('' \<notin> set pre" "CHR ''<'' \<notin> set pre"
    and "name \<noteq> ''''" "CHR ''<'' \<notin> set name" "CHR '')'' \<notin> set name" "CHR 0x0A \<notin> set name"
    and "list_all printable_amounts [allocatable, idle, used, releasing]"
  shows "ParseNodeCache (printed_node pre name allocatable idle used releasing post)
    = Inr \<lparr>cn_name = name, cn_allocatable = read_amounts allocatable, cn_idle = read_amounts idle,
           cn_used = read_amounts used, cn_releasing = read_amounts releasing\<rparr>"
proof -
  have ok: "printable_amounts allocatable" "printable_amounts idle" "printable_amounts used" "printable_amounts releasing"
    using assms(7) by simp_all
  then have "list_all printable_amount allocatable" "list_all printable_amount idle" "list_all printable_amount used"
      "list_all printable_amount releasing" by (simp_all add: printable_amounts_def)
  note plain = this [THEN printed_amounts_plain(1)] this [THEN printed_amounts_plain(2)] this [THEN printed_amounts_plain(3)]
  note found = node_fields [of pre name "printed_amounts allocatable" "printed_amounts idle" "printed_amounts used"
      "printed_amounts releasing" post, folded printed_node_def, OF assms(1,2,4-6) plain(1,5,9,2,6,10,3,7,11,4,8,12)]
  show ?thesis using assms(3)
    by (simp add: ParseNodeCache_def capture_def found ok [THEN parse_printed_amounts(1)] ok [THEN parse_printed_amounts(2)]
        wrap_field_def)
qed

lemma node_line_roundtrip_witness:
  "case ParseNodeCache (printed_node ''I0731 cache.go:1] '' ''node-a'' [(''cpu'', 8000), (''memory'', 1024)]
       [(''cpu'', 500)] [(''cpu'', 500)] [(''cpu'', 0)] '', state <phase Ready>'') of
     Inl e \<Rightarrow> False | Inr node \<Rightarrow> cn_name node = ''node-a'' \<and> cn_allocatable node = [(''cpu'', Fin 8), (''memory'', Fin 1024)]"
proof -
  have "f_div_const (Fin 8000) 1000 = Fin 8" using rnd_of_int [of 8] by simp
  then show ?thesis
    by (subst node_line_roundtrip) (simp_all add: printable_amounts_def printable_amount_def is_space_def has_prefix_def
        to_lower_def to_lower_char_def read_amounts_def dump_amount_def)
qed

text \<open>A lazy group before a literal: the text before the first byte of the literal, if it does not occur there.\<close>

lemma match_lazy_literal:
  assumes "c \<notin> set v" "CHR 0x0A \<notin> set v" "match_pat ps s = Some groups"
  shows "match_pat (Lazy # Lit (c # w) # ps) (v @ c # w @ s) = Some (v # groups)"
proof -
  have "hd (t @ [c]) \<noteq> c \<Longrightarrow> match_pat (Lit (c # w) # ps) (t @ c # w @ s) = None" for t
    by (cases t) (simp_all add: has_prefix_def)
  then show ?thesis using lazy_run_to [of c v "match_pat (Lit (c # w) # ps)" "w @ s" groups "[]"] assms
    by (simp add: has_prefix_def)
qed

lemma match_digits_close:
  "list_all is_digit ds \<Longrightarrow> \<not> is_digit c \<Longrightarrow> acc @ ds \<noteq> [] \<Longrightarrow> digits_run (match_pat [Lit [c]]) acc (ds @ c # s) = Some [acc @ ds]"
  by (induction ds arbitrary: acc) (auto simp: has_prefix_def)

definition printed_job :: "string \<Rightarrow> cache_job \<Rightarrow> string \<Rightarrow> string" where
  "printed_job pre job post =
     pre @ ''Job ('' @ cj_uid job @ ''): namespace '' @ cj_namespace job @ '' ('' @ cj_queue job @ ''), name '' @ cj_name job
       @ '', minAvailable '' @ dec_str (sint (cj_min_available job)) @ '','' @ post"

text \<open>C38: A job line that Volcano prints is read back as the job it shows, with no tasks yet, when its
  fields do not contain the punctuation that ends them and the minimum is not negative.
\<close>
theorem job_line_roundtrip:
  assumes "CHR ''('' \<notin> set pre" "CHR '')'' \<notin> set (cj_uid job)" "CHR '' '' \<notin> set (cj_namespace job)"
    "CHR '')'' \<notin> set (cj_queue job)" "CHR '','' \<notin> set (cj_name job)"
    and "CHR 0x0A \<notin> set (cj_uid job @ cj_namespace job @ cj_queue job @ cj_name job)"
    and "0 \<le> sint (cj_min_available job)"
  shows "ParseJobCache (printed_job pre job post) = Inr (job\<lparr>cj_tasks := []\<rparr>)"
proof -
  let ?n = "sint (cj_min_available job)"
  have bits: "in_bits 32 ?n" using sint_lt [of "cj_min_available job"] sint_ge [of "cj_min_available job"]
    by (simp add: in_bits_def)
  have digits: "match_pat [Digits, Lit '',''] (dec_str ?n @ '','' @ post) = Some [dec_str ?n]"
    using match_digits_close [OF dec_str_digits [OF assms(7)], of "CHR '',''" "[]" post] by (simp add: is_digit_def)
  let ?s5 = "dec_str ?n @ '','' @ post"
  let ?s4 = "cj_name job @ '', minAvailable '' @ ?s5"
  let ?s3 = "cj_queue job @ ''), name '' @ ?s4"
  let ?s2 = "cj_namespace job @ '' ('' @ ?s3"
  let ?p4 = "[Lazy, Lit '', minAvailable '', Digits, Lit '','']"
  let ?p3 = "[Lazy, Lit ''), name ''] @ ?p4"
  let ?p2 = "[Lazy, Lit '' (''] @ ?p3"
  have g4: "match_pat ?p4 ?s4 = Some [cj_name job, dec_str ?n]"
    using match_lazy_literal [of "CHR '',''" "cj_name job" "[Digits, Lit '','']" ?s5 _ "'' minAvailable ''"] digits assms
    by (simp del: match_pat.simps)
  have g3: "match_pat ?p3 ?s3 = Some [cj_queue job, cj_name job, dec_str ?n]"
    using match_lazy_literal [of "CHR '')''" "cj_queue job" ?p4 ?s4 _ "'', name ''"] g4 assms
    by (simp del: match_pat.simps)
  have g2: "match_pat ?p2 ?s2 = Some [cj_namespace job, cj_queue job, cj_name job, dec_str ?n]"
    using match_lazy_literal [of "CHR '' ''" "cj_namespace job" ?p3 ?s3 _ "''(''"] g3 assms
    by (simp del: match_pat.simps)
  have groups: "match_pat (tl job_pattern) (cj_uid job @ ''): namespace '' @ ?s2)
    = Some [cj_uid job, cj_namespace job, cj_queue job, cj_name job, dec_str ?n]"
    using match_lazy_literal [of "CHR '')''" "cj_uid job" ?p2 ?s2 _ "'': namespace ''"] g2 assms
    by (simp add: job_pattern_def del: match_pat.simps)
  have "find_pat job_pattern (printed_job pre job post)
    = Some [cj_uid job, cj_namespace job, cj_queue job, cj_name job, dec_str ?n]"
    using find_pat_skip [of "CHR ''(''" "pre @ ''Job ''" "''Job ''" "tl job_pattern"] assms(1) groups
    by (simp add: job_pattern_def printed_job_def suffix_def del: match_pat.simps)
  moreover have "ParseInt 32 (dec_str ?n) = Some ?n" using ParseInt_fmt_d [OF bits] assms(7) by (simp add: fmt_d_def)
  ultimately show ?thesis by (simp add: ParseJobCache_def)
qed

lemma job_line_roundtrip_witness:
  "ParseJobCache (printed_job ''1] '' (empty_cache_job\<lparr>cj_uid := ''ns/j-1'', cj_namespace := ''ns'', cj_queue := ''q'',
       cj_name := ''j-1'', cj_min_available := 3\<rparr>) '' podGroup <nil>'')
   = Inr (empty_cache_job\<lparr>cj_uid := ''ns/j-1'', cj_namespace := ''ns'', cj_queue := ''q'', cj_name := ''j-1'', cj_min_available := 3\<rparr>)"
  by (subst job_line_roundtrip) (simp_all add: empty_cache_job_def)

section \<open>A small dump\<close>

definition small_node_line :: string where
  "small_node_line = ''Node (a): allocatable<cpu 2000.00> idle <cpu 0.00>, used <cpu 0.00>, releasing <cpu 0.00>''"

definition small_node :: cache_node where
  "small_node = \<lparr>cn_name = ''a'', cn_allocatable = [(''cpu'', Fin 2)], cn_idle = [(''cpu'', Fin 0)],
     cn_used = [(''cpu'', Fin 0)], cn_releasing = [(''cpu'', Fin 0)]\<rparr>"

definition small_job_line :: string where
  "small_job_line = ''Job (u): namespace n (q), name j, minAvailable 2, podGroup''"

definition small_job :: cache_job where
  "small_job = \<lparr>cj_uid = ''u'', cj_namespace = ''n'', cj_name = ''j'', cj_queue = ''q'', cj_min_available = 2, cj_tasks = []\<rparr>"

definition small_task_line :: string where
  "small_task_line = ''0: Task (t:n/p): job n/j, status Running, pri 1, resreq cpu 1000.00, preemptable false''"

definition small_task :: cache_task where
  "small_task = \<lparr>tk_uid = ''t'', tk_namespace = ''n'', tk_name = ''p'', tk_job = ''n/j'', tk_status = ''Running'',
     tk_resreq = [(''cpu'', Fin 1)]\<rparr>"

lemma small_parsed:
  "ParseNodeCache small_node_line = Inr small_node"
  "ParseJobCache small_job_line = Inr small_job"
  "ParseTaskCache small_task_line = Inr small_task"
  by code_simp+

lemma small_unmarked:
  "node_entry (small_node_line, small_node)" "job_entry (small_job_line, small_job, [(small_task_line, small_task)])"
  by (simp_all add: node_entry_def job_entry_def task_entry_def small_parsed) code_simp+

lemma small_markers:
  "scan_run [''I0101 noise''] scan_start = Some scan_start" "contains nodeDumpStart nodeDumpStart"
  "contains jobDumpStart jobDumpStart" "\<not> contains jobDumpStart nodeDumpStart"
  "contains cacheDumpEnd cacheDumpEnd" "\<not> contains cacheDumpEnd nodeDumpStart" "\<not> contains cacheDumpEnd jobDumpStart"
  by code_simp+

lemma complete_dump_read_witness:
  "cc_jobs (scan_loop None ([''I0101 noise''] @ nodeDumpStart # map fst [(small_node_line, small_node)] @ jobDumpStart
      # concat (map job_lines [(small_job_line, small_job, [(small_task_line, small_task)])]) @ cacheDumpEnd # []) scan_start)
   = Some [(''n/j'', small_job\<lparr>cj_tasks := [small_task]\<rparr>)]"
  by (subst complete_dump_read) (simp_all only: small_unmarked small_markers list.pred_inject, simp_all add: job_value_def small_job_def job_key_def)

text \<open>A capture of an empty dump that succeeds.\<close>

definition empty_dump_log :: string where
  "empty_dump_log = nodeDumpStart @ CHR 0x0A # jobDumpStart @ CHR 0x0A # cacheDumpEnd @ [CHR 0x0A]"

definition empty_dump_result :: capture_result where
  "empty_dump_result = \<lparr>cc_nodes = Some [], cc_jobs = Some [], cc_parse_err = None, cc_err = None\<rparr>"

lemma empty_dump_scanned: "scanCacheDump empty_dump_log None = empty_dump_result"
proof -
  have "split_on CHR 0x0A empty_dump_log = [nodeDumpStart, jobDumpStart, cacheDumpEnd, []]" by code_simp
  moreover have "length nodeDumpStart < 100" "length jobDumpStart < 100" "length cacheDumpEnd < 100"
      "drop_cr nodeDumpStart = nodeDumpStart" "drop_cr jobDumpStart = jobDumpStart" "drop_cr cacheDumpEnd = cacheDumpEnd"
    by code_simp+
  ultimately have "scan_lines (4 * 1024 * 1024) empty_dump_log None = ([nodeDumpStart, jobDumpStart, cacheDumpEnd], None)"
    by (simp add: scan_lines_def)
  then show ?thesis
    by (simp add: scanCacheDump_def scan_step_def small_markers scan_start_def empty_dump_result_def scan_result_def)
qed

definition one_dump :: "bool \<Rightarrow> string \<Rightarrow> go_error option \<Rightarrow> bool" where
  "one_dump expired content readErr \<longleftrightarrow> content = empty_dump_log \<and> readErr = None"

lemma empty_capture: "captureCacheDumpFromStream one_dump (\<lambda>a. a = None) ctxErr (Some [], Some [], None)"
proof -
  let ?step = "capture_step one_dump (\<lambda>a. a = None) ctxErr"
  let ?s2 = "\<lparr>cy_reader = Reading, cy_main = Signalling, cy_expired = False, cy_signals = 0\<rparr>"
  let ?s3 = "\<lparr>cy_reader = Reading, cy_main = AwaitResult, cy_expired = False, cy_signals = 1\<rparr>"
  let ?s4 = "\<lparr>cy_reader = Finished empty_dump_result, cy_main = AwaitResult, cy_expired = False, cy_signals = 1\<rparr>"
  let ?s5 = "\<lparr>cy_reader = Finished empty_dump_result, cy_main = Returned (Some [], Some [], None), cy_expired = False,
     cy_signals = 1\<rparr>"
  have "?step ?s2 ?s3" using capture_step.signal_sent [of ?s2 "\<lambda>a. a = None"] by simp
  moreover have "?step ?s3 ?s4" using capture_step.read_ends [of ?s3 _ empty_dump_log None] by (simp add: empty_dump_scanned one_dump_def)
  moreover have "?step ?s4 ?s5" using capture_step.received [of ?s4 empty_dump_result]
    by (simp add: final_outcome_def empty_dump_result_def)
  ultimately have "?step\<^sup>*\<^sup>* capture_start ?s5"
    using signalling_reachable [of _ ctxErr] by (meson rtranclp.rtrancl_into_rtrancl)
  then show ?thesis unfolding captureCacheDumpFromStream_def by (intro exI [of _ ?s5]) simp
qed

lemma capture_success_witness:
  "sameScheduler (empty_scheduler\<lparr>sch_name := ''volcano''\<rparr>) (empty_scheduler\<lparr>sch_name := ''volcano'', sch_uid := ''u''\<rparr>)"
proof -
  let ?l = "empty_scheduler\<lparr>sch_name := ''volcano''\<rparr>" and ?r = "empty_scheduler\<lparr>sch_name := ''volcano'', sch_uid := ''u''\<rparr>"
  have "signal_answer ?l (?r, None) None = None"
    by (simp add: signal_answer_def sameScheduler_def empty_scheduler_def)
  then have "captureCacheDumpFromStream one_dump (\<lambda>a. a = signal_answer (fst (?l, None)) (?r, None) None) (errorf []) (Some [], Some [], None)"
    using empty_capture [of "errorf []"] by simp
  from capture_success [OF this, of None] show ?thesis by (simp add: CaptureCacheDump_def)
qed

end
