(* ===== verification/Scheduler_Client.thy ===== *)
theory Scheduler_Client
  imports Cluster_Types Go_Paths
begin

text \<open>
  File \<open>internal/cluster/client.go\<close>: what the client makes of the informer caches. Scheduler Pods are
  recognised by exact names, the leader among several is the holder of a leader Lease, the runtime
  flags of its container give the scheduler names and the default queue, and \<open>--version\<close> is run in it.
  The stores, the Events, Leases, logs and exec of client-go are a record of functions. The facts: the
  leader is ready and the only Pod a Lease names, the two spellings of a flag mean the same, and the
  events and logs read stay within the selected object and the size limits.
\<close>

section \<open>The cluster\<close>

text \<open>A Lease is its holder; a selector is its list of terms, as \<open>fields.AndSelectors\<close> gets it.\<close>

record client_api =
  ka_ctx_err :: "go_error option"
  ka_pods :: "pod list"
  ka_index_err :: "go_error option"
  ka_pod :: "string \<Rightarrow> string \<Rightarrow> go_error + pod"
  ka_nodes :: "go_error + node list"
  ka_node :: "string \<Rightarrow> go_error + node"
  ka_events :: "string \<Rightarrow> (string \<times> string) list \<Rightarrow> go_error + event list"
  ka_lease :: "string \<Rightarrow> string \<Rightarrow> go_error + string option"
  ka_exec :: "string \<Rightarrow> string \<Rightarrow> string \<Rightarrow> string list \<Rightarrow> string \<times> go_error option"
  ka_logs :: "string \<Rightarrow> string \<Rightarrow> string \<Rightarrow> int \<Rightarrow> go_error + string \<times> go_error option"

record pending_pod =
  pp_namespace :: string
  pp_name :: string
  pp_scheduler :: string

text \<open>An indexer returns the objects whose index keys contain the value.\<close>

definition by_index :: "client_api \<Rightarrow> (pod \<Rightarrow> string list) \<Rightarrow> string \<Rightarrow> go_error + pod list" where
  "by_index api keys value =
     (case ka_index_err api of
        Some e \<Rightarrow> Inl e
      | None \<Rightarrow> Inr (filter (\<lambda>pod. List.member (keys pod) value) (ka_pods api)))"

definition pod_key :: "pod \<Rightarrow> string" where
  "pod_key pod = pod_namespace pod @ ''/'' @ pod_name pod"

definition ListPendingPods :: "client_api \<Rightarrow> go_error + pending_pod list" where
  "ListPendingPods api =
     (case ka_ctx_err api of
        Some e \<Rightarrow> Inl e
      | None \<Rightarrow>
          (case by_index api (\<lambda>pod. [pod_phase pod]) ''Pending'' of
             Inl e \<Rightarrow> Inl (errorw ''list Pending pods from informer cache: '' e)
           | Inr objects \<Rightarrow>
               Inr (sort_key (\<lambda>p. pp_namespace p @ ''/'' @ pp_name p)
                      (map (\<lambda>pod. \<lparr>pp_namespace = pod_namespace pod, pp_name = pod_name pod,
                                    pp_scheduler = pod_scheduler_name pod\<rparr>) objects))))"

definition GetPod :: "client_api \<Rightarrow> string \<Rightarrow> string \<Rightarrow> go_error + pod" where
  "GetPod api namespace name =
     (case ka_ctx_err api of
        Some e \<Rightarrow> Inl e
      | None \<Rightarrow>
          (case ka_pod api namespace name of
             Inl e \<Rightarrow> Inl (errorw (''get pod '' @ namespace @ ''/'' @ name @ '' from informer cache: '') e)
           | Inr pod \<Rightarrow> Inr pod))"

definition ListNodes :: "client_api \<Rightarrow> go_error + node list" where
  "ListNodes api =
     (case ka_ctx_err api of
        Some e \<Rightarrow> Inl e
      | None \<Rightarrow>
          (case ka_nodes api of
             Inl e \<Rightarrow> Inl (errorw ''list nodes from informer cache: '' e)
           | Inr nodes \<Rightarrow> Inr nodes))"

definition GetNode :: "client_api \<Rightarrow> string \<Rightarrow> go_error + node" where
  "GetNode api name =
     (case ka_ctx_err api of
        Some e \<Rightarrow> Inl e
      | None \<Rightarrow>
          (case ka_node api name of
             Inl e \<Rightarrow> Inl (errorw (''get node '' @ name @ '' from informer cache: '') e)
           | Inr node \<Rightarrow> Inr node))"

section \<open>Events\<close>

definition ListPodEvents :: "client_api \<Rightarrow> string \<Rightarrow> string \<Rightarrow> go_error + event list" where
  "ListPodEvents api namespace podName =
     (case GetPod api namespace podName of
        Inl e \<Rightarrow> Inl e
      | Inr pod \<Rightarrow>
     (let selectors = [(''involvedObject.kind'', ''Pod''), (''involvedObject.name'', podName)]
            @ (if pod_uid pod \<noteq> '''' then [(''involvedObject.uid'', pod_uid pod)] else [])
      in case ka_events api namespace selectors of
           Inl e \<Rightarrow> Inl (errorw (''list events for pod '' @ namespace @ ''/'' @ podName @ '': '') e)
         | Inr events \<Rightarrow>
             Inr (filter (\<lambda>event. ev_kind event = ''Pod'' \<and> ev_object_name event = podName
                            \<and> (pod_uid pod = '''' \<or> ev_object_uid event = pod_uid pod)) events)))"

text \<open>Without a PodGroup there are no events and no error.\<close>

definition ListPodGroupEvents :: "client_api \<Rightarrow> string \<Rightarrow> string \<Rightarrow> string \<Rightarrow> go_error + event list" where
  "ListPodGroupEvents api namespace podGroupName podGroupUID =
     (if podGroupName = '''' then Inr []
      else if podGroupUID = '''' then
        Inl (errorf (''PodGroup '' @ namespace @ ''/'' @ podGroupName @ '' UID is required for Event lookup''))
      else
     (case ka_events api namespace [(''involvedObject.kind'', ''PodGroup''), (''involvedObject.name'', podGroupName),
             (''involvedObject.uid'', podGroupUID)] of
        Inl e \<Rightarrow> Inl (errorw (''list events for PodGroup '' @ namespace @ ''/'' @ podGroupName @ '': '') e)
      | Inr events \<Rightarrow>
          Inr (filter (\<lambda>event. ev_kind event = ''PodGroup'' \<and> ev_object_name event = podGroupName
                         \<and> ev_object_uid event = podGroupUID) events)))"

section \<open>Which Pods are schedulers\<close>

definition exactSchedulerIdentity :: "string \<Rightarrow> bool" where
  "exactSchedulerIdentity value =
     (let v = to_lower (trim_space value) in v = ''volcano-scheduler'' \<or> v = ''vc-scheduler'')"

text \<open>\<open>strings.Cut\<close> at a byte: before, after, and whether the byte was found.\<close>

definition cut_at :: "char \<Rightarrow> string \<Rightarrow> string \<times> string \<times> bool" where
  "cut_at c s = (takeWhile (\<lambda>x. x \<noteq> c) s, drop 1 (dropWhile (\<lambda>x. x \<noteq> c) s), List.member s c)"

definition imageRepositoryName :: "string \<Rightarrow> string" where
  "imageRepositoryName img =
     (let (withoutDigest, _, _) = cut_at CHR ''@'' img;
          base = path_base withoutDigest;
          (name, _, _) = cut_at CHR '':'' base
      in name)"

definition commandRunsScheduler :: "string list \<Rightarrow> bool" where
  "commandRunsScheduler command = list_ex (\<lambda>token. exactSchedulerIdentity (path_base token)) command"

definition container_runs_scheduler :: "container \<Rightarrow> bool" where
  "container_runs_scheduler container =
     (exactSchedulerIdentity (ct_name container) \<or> exactSchedulerIdentity (imageRepositoryName (ct_image container))
      \<or> commandRunsScheduler (ct_command container))"

definition isVolcanoSchedulerPod :: "pod \<Rightarrow> bool" where
  "isVolcanoSchedulerPod pod =
     (list_ex exactSchedulerIdentity
        [gm_or '''' (pod_labels pod) ''app'', gm_or '''' (pod_labels pod) ''app.kubernetes.io/name'',
         gm_or '''' (pod_labels pod) ''component'']
      \<or> list_ex container_runs_scheduler (pod_containers pod))"

definition schedulerPodIndexKeys :: "pod \<Rightarrow> string list" where
  "schedulerPodIndexKeys pod = (if isVolcanoSchedulerPod pod then [''true''] else [])"

definition isPodReady :: "pod \<Rightarrow> bool" where
  "isPodReady pod =
     (case find (\<lambda>condition. cd_type condition = ''Ready'') (pod_conditions pod) of
        Some condition \<Rightarrow> cd_status condition = ''True''
      | None \<Rightarrow> False)"

definition readySchedulerPods :: "pod list \<Rightarrow> pod list" where
  "readySchedulerPods pods =
     filter (\<lambda>pod. \<not> (pod_deletion pod \<noteq> None \<or> pod_phase pod \<noteq> ''Running'' \<or> \<not> isPodReady pod)) pods"

definition schedulerContainer :: "pod \<Rightarrow> container option" where
  "schedulerContainer pod =
     (case find container_runs_scheduler (pod_containers pod) of
        Some container \<Rightarrow> Some container
      | None \<Rightarrow> (case pod_containers pod of [container] \<Rightarrow> Some container | _ \<Rightarrow> None))"

definition schedulerBinary :: "container \<Rightarrow> string" where
  "schedulerBinary container =
     (case find (\<lambda>token. exactSchedulerIdentity (path_base token)) (ct_command container @ ct_args container) of
        Some token \<Rightarrow> token
      | None \<Rightarrow> ''vc-scheduler'')"

definition imageTag :: "string \<Rightarrow> string" where
  "imageTag img =
     (let base = takeWhile (\<lambda>x. x \<noteq> CHR ''@'') img; slash = last_index base ''/''; colon = last_index base '':''
      in if slash < colon then drop (nat colon + 1) base else ''latest'')"

section \<open>Runtime flags\<close>

record runtime_options =
  ro_names :: "string list"
  ro_queue :: string
  ro_leader :: bool
  ro_lock :: string
  ro_determinate :: bool
  ro_reason :: string

definition empty_options :: runtime_options where
  "empty_options = \<lparr>ro_names = [], ro_queue = '''', ro_leader = False, ro_lock = '''', ro_determinate = False,
     ro_reason = ''''\<rparr>"

definition default_options :: runtime_options where
  "default_options = \<lparr>ro_names = [''volcano''], ro_queue = ''default'', ro_leader = True, ro_lock = ''volcano-system'',
     ro_determinate = False, ro_reason = ''''\<rparr>"

definition shellWrapped :: "string list \<Rightarrow> string list \<Rightarrow> bool" where
  "shellWrapped command arguments =
     (case command of
        [] \<Rightarrow> False
      | c # cs \<Rightarrow>
          (let name = to_lower (path_base c)
           in if name \<noteq> ''sh'' \<and> name \<noteq> ''ash'' \<and> name \<noteq> ''bash'' \<and> name \<noteq> ''zsh'' then False
              else list_ex (\<lambda>argument. has_prefix argument ''-'' \<and> \<not> has_prefix argument ''--''
                              \<and> contains (trim_prefix argument ''-'') ''c'') (cs @ arguments)))"

definition flag_names :: "string list" where
  "flag_names = [''scheduler-name'', ''default-queue'', ''lock-object-namespace'', ''leader-elect'']"

text \<open>
  The flag at a token, \<open>rest\<close> being the tokens behind it: no match, or the name, the value and
  whether the next token was consumed.
\<close>

definition no_value :: "string list \<Rightarrow> bool" where
  "no_value rest = (case rest of [] \<Rightarrow> True | t # ts \<Rightarrow> has_prefix t ''--'')"

fun flag_loop :: "string list \<Rightarrow> string \<Rightarrow> string list \<Rightarrow> go_error + (string \<times> string \<times> bool) option" where
  "flag_loop [] token rest = Inr None"
| "flag_loop (name # names) token rest =
     (let flag = ''--'' @ name
      in if token = flag then
           (if name = ''leader-elect'' \<and> no_value rest then Inr (Some (name, ''true'', False))
            else if no_value rest then Inl (errorf (''scheduler flag '' @ flag @ '' has no value''))
            else Inr (Some (name, hd rest, True)))
         else if has_prefix token (flag @ ''='') then
           (let v = trim_prefix token (flag @ ''='')
            in if v = '''' then Inl (errorf (''scheduler flag '' @ flag @ '' has an empty value''))
               else Inr (Some (name, v, False)))
         else flag_loop names token rest)"

definition schedulerFlag :: "string \<Rightarrow> string list \<Rightarrow> go_error + (string \<times> string \<times> bool) option" where
  "schedulerFlag token rest = flag_loop flag_names token rest"

definition ParseBool :: "string \<Rightarrow> bool option" where
  "ParseBool s =
     (if List.member [''1'', ''t'', ''T'', ''TRUE'', ''true'', ''True''] s then Some True
      else if List.member [''0'', ''f'', ''F'', ''FALSE'', ''false'', ''False''] s then Some False
      else None)"

text \<open>The switch over the flag; the first explicit scheduler name replaces the default one.\<close>

definition set_option :: "string \<Rightarrow> string \<Rightarrow> bool \<Rightarrow> runtime_options \<Rightarrow> string + (bool \<times> runtime_options)" where
  "set_option name v explicit options =
     (if name = ''scheduler-name'' then
        (let names = (if explicit then ro_names options else [])
         in Inr (True, options\<lparr>ro_names := if List.member names v then names else names @ [v]\<rparr>))
      else if name = ''default-queue'' then Inr (explicit, options\<lparr>ro_queue := v\<rparr>)
      else if name = ''lock-object-namespace'' then Inr (explicit, options\<lparr>ro_lock := v\<rparr>)
      else if name = ''leader-elect'' then
        (case ParseBool v of
           None \<Rightarrow> Inl (''scheduler flag --leader-elect has invalid value '' @ fmt_q v)
         | Some enabled \<Rightarrow> Inr (explicit, options\<lparr>ro_leader := enabled\<rparr>))
      else Inr (explicit, options))"

definition expands :: "string \<Rightarrow> bool" where
  "expands v = (contains v ''$('' \<or> contains v ''${'')"

text \<open>\<open>Inl\<close> is an early return with a reason, \<open>Inr\<close> the options at the end of the loop.\<close>

function options_loop :: "string list \<Rightarrow> bool \<Rightarrow> runtime_options \<Rightarrow> runtime_options + runtime_options" where
  "options_loop [] explicit options = Inr options"
| "options_loop (token # rest) explicit options =
     (if token = ''--'' then Inr options
      else case schedulerFlag token rest of
        Inl e \<Rightarrow> Inl (options\<lparr>ro_reason := err_text e\<rparr>)
      | Inr None \<Rightarrow> options_loop rest explicit options
      | Inr (Some (name, v, consumed)) \<Rightarrow>
          if expands v then
            Inl (options\<lparr>ro_reason := ''scheduler flag --'' @ name @ '' uses runtime variable expansion''\<rparr>)
          else
          (case set_option name v explicit options of
             Inl reason \<Rightarrow> Inl (options\<lparr>ro_reason := reason\<rparr>)
           | Inr (explicit', options') \<Rightarrow> options_loop (if consumed then drop 1 rest else rest) explicit' options'))"
  by pat_completeness auto
termination
  by (relation "measure (\<lambda>(tokens, _, _). length tokens)") auto

definition text_empty_runtime :: string where
  "text_empty_runtime = ''scheduler runtime configuration contains an empty scheduler name, default queue, or leader lock namespace''"

definition text_shell_wrapper :: string where
  "text_shell_wrapper = ''scheduler command uses a shell wrapper, so runtime flags cannot be parsed safely''"

definition finish_options :: "runtime_options \<Rightarrow> runtime_options" where
  "finish_options options =
     (if ro_names options = [] \<or> ro_queue options = '''' \<or> ro_leader options \<and> ro_lock options = ''''
      then options\<lparr>ro_reason := text_empty_runtime\<rparr>
      else options\<lparr>ro_determinate := True,
             ro_reason := ''used standard Volcano defaults with tokenized explicit flag overrides''\<rparr>)"

definition parseSchedulerRuntimeOptions :: "container \<Rightarrow> runtime_options" where
  "parseSchedulerRuntimeOptions container =
     (if shellWrapped (ct_command container) (ct_args container)
      then empty_options\<lparr>ro_reason := text_shell_wrapper\<rparr>
      else case options_loop (ct_command container @ ct_args container) False default_options of
             Inl options \<Rightarrow> options
           | Inr options \<Rightarrow> finish_options options)"

section \<open>The leader\<close>

definition schedulerComponentName :: "string list \<Rightarrow> string" where
  "schedulerComponentName names = (case names of [name] \<Rightarrow> name | _ \<Rightarrow> ''volcano'')"

text \<open>The Leases the identified Pods elect their leader with, and whether some do and some do not.\<close>

record lease_keys =
  lk_enabled :: bool
  lk_disabled :: bool
  lk_keys :: "(string \<times> string) list"

fun lease_keys_loop :: "pod list \<Rightarrow> lease_keys \<Rightarrow> go_error + lease_keys" where
  "lease_keys_loop [] acc = Inr acc"
| "lease_keys_loop (pod # pods) acc =
     (case schedulerContainer pod of
        None \<Rightarrow> Inl (errorf (''identify scheduler container in pod '' @ pod_key pod @ '' before leader selection''))
      | Some container \<Rightarrow>
          (let options = parseSchedulerRuntimeOptions container
           in if \<not> ro_determinate options then
                Inl (errorf (''resolve leader Lease for scheduler pod '' @ pod_key pod @ '': '' @ ro_reason options))
              else if \<not> ro_leader options then lease_keys_loop pods (acc\<lparr>lk_disabled := True\<rparr>)
              else (let key = (ro_lock options, schedulerComponentName (ro_names options))
                    in lease_keys_loop pods (acc\<lparr>lk_enabled := True,
                         lk_keys := if List.member (lk_keys acc) key then lk_keys acc else lk_keys acc @ [key]\<rparr>))))"

text \<open>The Leases of the keys; one that does not exist is skipped.\<close>

fun leases_loop :: "client_api \<Rightarrow> (string \<times> string) list \<Rightarrow> string option list \<Rightarrow> go_error + string option list" where
  "leases_loop api [] leases = Inr leases"
| "leases_loop api ((namespace, name) # keys) leases =
     (case ka_lease api namespace name of
        Inl e \<Rightarrow>
          if is_not_found e then leases_loop api keys leases
          else Inl (errorw (''get scheduler leader Lease '' @ namespace @ ''/'' @ name @ '': '') e)
      | Inr lease \<Rightarrow> leases_loop api keys (leases @ [lease]))"

definition holds :: "string option \<Rightarrow> pod \<Rightarrow> bool" where
  "holds lease pod =
     (case lease of
        None \<Rightarrow> False
      | Some holder \<Rightarrow> holder \<noteq> '''' \<and> (holder = pod_name pod \<or> has_prefix holder (pod_name pod @ ''_'')))"

definition lease_matches :: "pod list \<Rightarrow> string option list \<Rightarrow> pod gomap" where
  "lease_matches candidates leases =
     fold (\<lambda>lease. fold (\<lambda>pod matches. if holds lease pod then gm_set (pod_key pod) pod matches else matches) candidates)
       leases []"

definition schedulerLeaderFromLeases :: "pod list \<Rightarrow> string option list \<Rightarrow> go_error + pod" where
  "schedulerLeaderFromLeases candidates leases =
     (let matches = lease_matches candidates leases
      in case matches of
           [(key, pod)] \<Rightarrow> Inr pod
         | [] \<Rightarrow> Inl (errorf ''no scheduler leader Lease holder matches an identified scheduler pod'')
         | _ \<Rightarrow> Inl (errorf (''scheduler leader is ambiguous across Lease holders: ''
                  @ join (sort_strings (gm_keys matches)) '', '')))"

definition ErrNotReady :: go_error where
  "ErrNotReady = \<lparr>err_text = ''ready Volcano scheduler pod not found'', err_chain = [ErrVolcanoSchedulerNotReady]\<rparr>"

definition ErrNotDiscovered :: go_error where
  "ErrNotDiscovered = \<lparr>err_text = ''Volcano scheduler pod could not be discovered'',
     err_chain = [ErrVolcanoSchedulerNotDiscovered]\<rparr>"

text \<open>Two different keys never print the same for namespaces without a slash, so the order is determined.\<close>

definition selectSchedulerLeader :: "client_api \<Rightarrow> pod list \<Rightarrow> pod list \<Rightarrow> go_error + pod" where
  "selectSchedulerLeader api identified ready =
     (case lease_keys_loop identified \<lparr>lk_enabled = False, lk_disabled = False, lk_keys = []\<rparr> of
        Inl e \<Rightarrow> Inl e
      | Inr keys \<Rightarrow>
          if lk_enabled keys \<and> lk_disabled keys then
            Inl (errorf ''identified scheduler pods disagree on --leader-elect'')
          else if \<not> lk_enabled keys then
            (case ready of
               [pod] \<Rightarrow> Inr pod
             | _ \<Rightarrow> Inl (errorf ''multiple ready scheduler pods have leader election disabled''))
          else
     (case leases_loop api (sort_key (\<lambda>(namespace, name). namespace @ ''/'' @ name) (lk_keys keys)) [] of
        Inl e \<Rightarrow> Inl e
      | Inr leases \<Rightarrow>
     (case schedulerLeaderFromLeases identified leases of
        Inl e \<Rightarrow> Inl e
      | Inr leader \<Rightarrow>
          if list_ex (\<lambda>pod. pod_namespace pod = pod_namespace leader \<and> pod_name pod = pod_name leader
                        \<and> pod_uid pod = pod_uid leader) ready
          then Inr leader
          else Inl \<lparr>err_text = err_text ErrNotReady @ '': current Lease holder is '' @ pod_key leader,
                    err_chain = err_chain ErrNotReady\<rparr>)))"

definition scheduler_of :: "pod \<Rightarrow> container \<Rightarrow> scheduler" where
  "scheduler_of chosen container =
     (let options = parseSchedulerRuntimeOptions container
      in empty_scheduler\<lparr>sch_namespace := pod_namespace chosen, sch_name := pod_name chosen, sch_uid := pod_uid chosen,
           sch_container := ct_name container, sch_binary := schedulerBinary container, sch_image := ct_image container,
           sch_tag := imageTag (ct_image container), sch_names := ro_names options, sch_default_queue := ro_queue options,
           sch_determinate := ro_determinate options, sch_reason := ro_reason options\<rparr>)"

definition GetVolcanoScheduler :: "client_api \<Rightarrow> scheduler \<times> go_error option" where
  "GetVolcanoScheduler api =
     (case ka_ctx_err api of
        Some e \<Rightarrow> (empty_scheduler, Some e)
      | None \<Rightarrow>
     (case by_index api schedulerPodIndexKeys ''true'' of
        Inl e \<Rightarrow> (empty_scheduler, Some (errorw ''list Volcano scheduler pods from informer index: '' e))
      | Inr objects \<Rightarrow>
     (let identified = sort_key pod_key objects;
          candidates = readySchedulerPods identified
      in case candidates of
           [] \<Rightarrow> (empty_scheduler, Some (if identified = [] then ErrNotDiscovered else ErrNotReady))
         | first # _ \<Rightarrow>
     (case (if 1 < length identified then selectSchedulerLeader api identified candidates else Inr first) of
        Inl e \<Rightarrow> (empty_scheduler, Some e)
      | Inr chosen \<Rightarrow>
     (case schedulerContainer chosen of
        None \<Rightarrow> (empty_scheduler, Some (errorf (''scheduler pod '' @ pod_key chosen @ '' has no containers'')))
      | Some container \<Rightarrow> (scheduler_of chosen container, None))))))"

section \<open>Logs and version\<close>

definition boundedSchedulerLogTail :: "int \<Rightarrow> int" where
  "boundedSchedulerLogTail tailLines = (if tailLines \<le> 0 then 200 else if 1000 < tailLines then 1000 else tailLines)"

definition maximumSchedulerLogResponse :: nat where
  "maximumSchedulerLogResponse = 256 * 1024"

text \<open>A stream is its bytes and the error that ends it; the reader stops one byte behind the limit.\<close>

definition GetVolcanoSchedulerLogs :: "client_api \<Rightarrow> int \<Rightarrow> string \<times> go_error option" where
  "GetVolcanoSchedulerLogs api tailLines =
     (case GetVolcanoScheduler api of
        (_, Some e) \<Rightarrow> ('''', Some e)
      | (scheduler, None) \<Rightarrow>
     (case ka_logs api (sch_namespace scheduler) (sch_name scheduler) (sch_container scheduler)
             (boundedSchedulerLogTail tailLines) of
        Inl e \<Rightarrow> ('''', Some (errorw (''read logs from scheduler '' @ sch_namespace scheduler @ ''/'' @ sch_name scheduler
                   @ '' container '' @ sch_container scheduler @ '': '') e))
      | Inr (content, readErr) \<Rightarrow>
          if maximumSchedulerLogResponse < length content then
            ('''', Some (errorf (''scheduler log result exceeds '' @ fmt_n maximumSchedulerLogResponse @ '' bytes'')))
          else (case readErr of
                  Some e \<Rightarrow> ('''', Some (errorw ''read scheduler log stream: '' e))
                | None \<Rightarrow> (content, None))))"

definition schedulerVersionCommands :: "string \<Rightarrow> string list" where
  "schedulerVersionCommands binary =
     (let candidates = (if trim_space binary \<noteq> '''' then [trim_space binary] else [])
            @ [''vc-scheduler'', ''./vc-scheduler'', ''/vc-scheduler'']
      in fold (\<lambda>candidate result. if candidate = '''' \<or> List.member result candidate then result
                 else result @ [candidate]) candidates [])"

definition version_line :: "string \<Rightarrow> scheduler \<Rightarrow> scheduler" where
  "version_line line scheduler =
     (let (key, rest, found) = cut_at CHR '':'' (trim_space line); v = trim_space rest; k = trim_space key
      in if \<not> found then scheduler
         else if k = ''Version'' then scheduler\<lparr>sch_version := v\<rparr>
         else if k = ''Git SHA'' then scheduler\<lparr>sch_git_sha := v\<rparr>
         else if k = ''Built At'' then scheduler\<lparr>sch_built_at := v\<rparr>
         else if k = ''Go Version'' then scheduler\<lparr>sch_go_version := v\<rparr>
         else if k = ''Go OS/Arch'' then scheduler\<lparr>sch_go_os_arch := v\<rparr>
         else scheduler)"

definition parseSchedulerVersionOutput :: "string \<Rightarrow> go_error + scheduler" where
  "parseSchedulerVersionOutput output =
     (let scheduler = fold version_line (split_on CHR 0x0A output) empty_scheduler
      in if sch_version scheduler = '''' then Inl (errorf ''scheduler version output did not contain a Version line'')
         else Inr scheduler)"

definition version_of :: "scheduler \<Rightarrow> string \<Rightarrow> scheduler \<Rightarrow> scheduler" where
  "version_of scheduler command version =
     version\<lparr>sch_namespace := sch_namespace scheduler, sch_name := sch_name scheduler, sch_uid := sch_uid scheduler,
       sch_container := sch_container scheduler, sch_binary := command, sch_image := sch_image scheduler,
       sch_tag := sch_tag scheduler, sch_names := sch_names scheduler, sch_default_queue := sch_default_queue scheduler,
       sch_determinate := sch_determinate scheduler, sch_reason := sch_reason scheduler\<rparr>"

fun version_loop :: "client_api \<Rightarrow> scheduler \<Rightarrow> string list \<Rightarrow> go_error option \<Rightarrow> scheduler \<times> go_error option" where
  "version_loop api scheduler [] lastErr =
     (let e = (case lastErr of None \<Rightarrow> errorf ''no scheduler binary candidates were available'' | Some e \<Rightarrow> e)
      in (scheduler\<lparr>sch_version_reason := err_text e\<rparr>, Some e))"
| "version_loop api scheduler (command # commands) lastErr =
     (case ka_exec api (sch_namespace scheduler) (sch_name scheduler) (sch_container scheduler) [command, ''--version''] of
        (output, Some e) \<Rightarrow>
          version_loop api scheduler commands
            (Some \<lparr>err_text = command @ '' --version: '' @ err_text e @ '': '' @ trim_space output, err_chain = err_chain e\<rparr>)
      | (output, None) \<Rightarrow>
          (case parseSchedulerVersionOutput output of
             Inl e \<Rightarrow> version_loop api scheduler commands (Some (errorw (command @ '' --version: '') e))
           | Inr version \<Rightarrow> (version_of scheduler command version, None)))"

definition GetVolcanoSchedulerVersionFor :: "client_api \<Rightarrow> scheduler \<Rightarrow> scheduler \<times> go_error option" where
  "GetVolcanoSchedulerVersionFor api scheduler =
     version_loop api scheduler (schedulerVersionCommands (sch_binary scheduler)) None"

definition GetVolcanoSchedulerVersion :: "client_api \<Rightarrow> scheduler \<times> go_error option" where
  "GetVolcanoSchedulerVersion api =
     (case GetVolcanoScheduler api of
        (_, Some e) \<Rightarrow> (empty_scheduler, Some e)
      | (scheduler, None) \<Rightarrow> GetVolcanoSchedulerVersionFor api scheduler)"

text \<open>Sending the signal of a cache capture.\<close>

definition signalCacheDump :: "client_api \<Rightarrow> scheduler \<Rightarrow> go_error option" where
  "signalCacheDump api scheduler =
     (case ka_exec api (sch_namespace scheduler) (sch_name scheduler) (sch_container scheduler)
             [''kill'', ''-s'', ''USR2'', ''1''] of
        (output, Some e) \<Rightarrow>
          Some \<lparr>err_text = ''signal scheduler cache dump: '' @ err_text e @ '': '' @ trim_space output, err_chain = err_chain e\<rparr>
      | (output, None) \<Rightarrow> None)"

section \<open>The leader among several\<close>

text \<open>A match is a candidate that holds a Lease, filed under its own key; none is missing.\<close>

definition matched :: "pod list \<Rightarrow> (pod \<Rightarrow> bool) \<Rightarrow> pod gomap \<Rightarrow> bool" where
  "matched candidates held m \<longleftrightarrow>
     gm_ok m \<and> (\<forall>k p. gm_get m k = Some p \<longrightarrow> k = pod_key p \<and> p \<in> set candidates \<and> held p)"

lemma matched_set: "matched cs held m \<Longrightarrow> p \<in> set cs \<Longrightarrow> held p \<Longrightarrow> matched cs held (gm_set (pod_key p) p m)"
  by (auto simp: matched_def split: if_splits)

lemma lease_matches_matched:
  "matched candidates (\<lambda>p. \<exists>l \<in> set leases. holds l p) (lease_matches candidates leases)"
proof -
  let ?held = "\<lambda>p. \<exists>l \<in> set leases. holds l p"
  have inner: "set pods \<subseteq> set candidates \<Longrightarrow> l \<in> set leases \<Longrightarrow> matched candidates ?held m \<Longrightarrow>
      matched candidates ?held (fold (\<lambda>pod m. if holds l pod then gm_set (pod_key pod) pod m else m) pods m)" for pods l m
    by (induction pods arbitrary: m) (auto intro!: matched_set)
  have "set ls \<subseteq> set leases \<Longrightarrow> matched candidates ?held m \<Longrightarrow> matched candidates ?held
      (fold (\<lambda>lease. fold (\<lambda>pod m. if holds lease pod then gm_set (pod_key pod) pod m else m) candidates) ls m)" for ls m
    by (induction ls arbitrary: m) (auto intro: inner)
  from this [of leases "[]"] show ?thesis by (simp add: lease_matches_def matched_def)
qed

lemma fold_keeps_key:
  "gm_has m k \<Longrightarrow> gm_has (fold (\<lambda>pod m. if P pod then gm_set (pod_key pod) pod m else m) pods m) k"
  by (induction pods arbitrary: m) (auto simp: gm_has_def)

lemma fold_adds_key:
  "p \<in> set pods \<Longrightarrow> P p \<Longrightarrow> gm_has (fold (\<lambda>pod m. if P pod then gm_set (pod_key pod) pod m else m) pods m) (pod_key p)"
proof (induction pods arbitrary: m)
  case (Cons q qs)
  have "gm_has (gm_set (pod_key p) p m) (pod_key p)" by (simp add: gm_has_def)
  with Cons show ?case by (cases "q = p") (auto intro!: fold_keeps_key)
qed simp

lemma lease_matches_complete:
  assumes "p \<in> set candidates" "l \<in> set leases" "holds l p"
  shows "gm_has (lease_matches candidates leases) (pod_key p)"
proof -
  let ?f = "\<lambda>lease. fold (\<lambda>pod m. if holds lease pod then gm_set (pod_key pod) pod m else m) candidates"
  have keep: "gm_has m k \<Longrightarrow> gm_has (fold ?f ls m) k" for ls m k
    by (induction ls arbitrary: m) (auto intro: fold_keeps_key)
  obtain before behind where "leases = before @ l # behind" using assms(2) split_list by fast
  then show ?thesis using assms(1,3) by (auto simp: lease_matches_def intro!: keep fold_adds_key)
qed

lemma distinct_singleton_set: "distinct xs \<Longrightarrow> xs = [x] \<longleftrightarrow> set xs = {x}"
  by (cases xs; cases "tl xs") auto

text \<open>C22: Among Pods with different names the leader found is the only candidate that holds a leader
  Lease, and when exactly one candidate holds one it is found: no Lease, and Leases held by different Pods,
  are errors.
\<close>
theorem leader_is_unique_holder:
  assumes "distinct (map pod_key candidates)"
  shows "schedulerLeaderFromLeases candidates leases = Inr leader \<longleftrightarrow>
     filter (\<lambda>pod. list_ex (\<lambda>lease. holds lease pod) leases) candidates = [leader]"
proof -
  let ?m = "lease_matches candidates leases" and ?held = "\<lambda>p. list_ex (\<lambda>l. holds l p) leases"
  have m: "matched candidates ?held ?m" using lease_matches_matched [of candidates leases] by (simp add: list_ex_iff)
  have "gm_ok ?m" using m by (simp add: matched_def)
  then have entry: "(k, p) \<in> set ?m \<Longrightarrow> k = pod_key p \<and> p \<in> set candidates \<and> ?held p" for k p
    using m by (auto simp: matched_def gm_get_iff)
  have "map fst ?m = map pod_key (map snd ?m)" using entry by (auto intro!: map_cong)
  then have d: "distinct (map snd ?m)" using \<open>gm_ok ?m\<close> by (metis gm_ok_def distinct_map)
  have s: "set (map snd ?m) = set (filter ?held candidates)"
  proof (intro equalityI subsetI)
    fix p assume "p \<in> set (filter ?held candidates)"
    then have p: "p \<in> set candidates" and h: "?held p" by simp_all
    then obtain q where q: "gm_get ?m (pod_key p) = Some q"
      using lease_matches_complete [of p candidates] by (auto simp: list_ex_iff gm_has_def)
    then have "(pod_key p, q) \<in> set ?m" by (rule gm_get_SomeD)
    then have "pod_key q = pod_key p" "q \<in> set candidates" using entry by auto
    then have "q = p" using assms p by (auto simp: distinct_map dest: inj_onD)
    with \<open>(pod_key p, q) \<in> set ?m\<close> show "p \<in> set (map snd ?m)" by force
  qed (use entry in auto)
  have "distinct (filter ?held candidates)" using assms by (simp add: distinct_map)
  then have "map snd ?m = [leader] \<longleftrightarrow> filter ?held candidates = [leader]"
    using d s distinct_singleton_set by metis
  moreover have "schedulerLeaderFromLeases candidates leases = Inr leader \<longleftrightarrow> map snd ?m = [leader]"
    by (auto simp: schedulerLeaderFromLeases_def Let_def split: list.split)
  ultimately show ?thesis by simp
qed

lemma leader_is_unique_holder_witness:
  "schedulerLeaderFromLeases [empty_pod\<lparr>pod_name := ''a''\<rparr>, empty_pod\<lparr>pod_name := ''b''\<rparr>] [None, Some ''b_17'', Some ''c_4'']
     = Inr (empty_pod\<lparr>pod_name := ''b''\<rparr>)
   \<and> \<not> isl (schedulerLeaderFromLeases [empty_pod\<lparr>pod_name := ''a''\<rparr>, empty_pod\<lparr>pod_name := ''b''\<rparr>] [Some ''b'']) "
proof
  let ?cs = "[empty_pod\<lparr>pod_name := ''a''\<rparr>, empty_pod\<lparr>pod_name := ''b''\<rparr>]"
  have d: "distinct (map pod_key ?cs)" by code_simp
  have f: "filter (\<lambda>pod. list_ex (\<lambda>lease. holds lease pod) [None, Some ''b_17'', Some ''c_4'']) ?cs = [empty_pod\<lparr>pod_name := ''b''\<rparr>]"
    "filter (\<lambda>pod. list_ex (\<lambda>lease. holds lease pod) [Some ''b'']) ?cs = [empty_pod\<lparr>pod_name := ''b''\<rparr>]"
    by (simp_all add: holds_def has_prefix_def empty_pod_def)
  show "schedulerLeaderFromLeases ?cs [None, Some ''b_17'', Some ''c_4''] = Inr (empty_pod\<lparr>pod_name := ''b''\<rparr>)"
    unfolding leader_is_unique_holder [OF d] by (rule f(1))
  have "schedulerLeaderFromLeases ?cs [Some ''b''] = Inr (empty_pod\<lparr>pod_name := ''b''\<rparr>)"
    unfolding leader_is_unique_holder [OF d] by (rule f(2))
  then show "\<not> isl (schedulerLeaderFromLeases ?cs [Some ''b''])" by simp
qed

section \<open>Spellings of a flag\<close>

lemma flag_loop_rest:
  "no_value rest = no_value rest' \<Longrightarrow> (no_value rest \<or> hd rest = hd rest') \<Longrightarrow>
   flag_loop names token rest = flag_loop names token rest'"
  by (induction names) (auto simp: Let_def)

lemma flag_names_cases:
  "n \<in> set flag_names \<Longrightarrow> (n = ''scheduler-name'' \<Longrightarrow> P) \<Longrightarrow> (n = ''default-queue'' \<Longrightarrow> P) \<Longrightarrow>
   (n = ''lock-object-namespace'' \<Longrightarrow> P) \<Longrightarrow> (n = ''leader-elect'' \<Longrightarrow> P) \<Longrightarrow> P"
  unfolding flag_names_def by (simp only: list.set insert_iff empty_iff) (elim disjE; iprover)

lemma flag_prefix: "has_prefix (''--'' @ n @ CHR ''='' # v) (''--'' @ m @ ''='') \<longleftrightarrow> prefix (m @ ''='') (n @ CHR ''='' # v)"
  by (simp add: has_prefix_def)

text \<open>The two spellings of one flag give the same match, but for the token consumed.\<close>

lemma schedulerFlag_spelled:
  assumes "n \<in> set flag_names" "v \<noteq> ''''" "\<not> has_prefix v ''--''"
  shows "schedulerFlag (''--'' @ n) (v # ys) = Inr (Some (n, v, True))"
    and "schedulerFlag (''--'' @ n @ CHR ''='' # v) ys = Inr (Some (n, v, False))"
  using assms
  by (auto elim!: flag_names_cases simp: schedulerFlag_def flag_names_def no_value_def has_prefix_def trim_prefix_def)

lemma schedulerFlag_consumed: "schedulerFlag token rest = Inr (Some (n, v, True)) \<Longrightarrow> \<not> no_value rest"
proof -
  have "flag_loop names token rest = Inr (Some (n, v, True)) \<Longrightarrow> \<not> no_value rest" for names
    by (induction names) (auto simp: Let_def split: if_splits)
  then show "schedulerFlag token rest = Inr (Some (n, v, True)) \<Longrightarrow> \<not> no_value rest" by (simp add: schedulerFlag_def)
qed

lemma flag_no_dash: "n \<in> set flag_names \<Longrightarrow> ''--'' @ n @ w \<noteq> ''--''"
  by (auto elim!: flag_names_cases)

text \<open>C23: The two spellings of a flag, \<open>--name value\<close> and \<open>--name=value\<close>, give the same runtime
  options at any place of a command line, errors and their reasons included, for values that are not
  empty and do not begin with two dashes.
\<close>
theorem flag_spellings_agree:
  assumes "n \<in> set flag_names" and "v \<noteq> ''''" and "\<not> has_prefix v ''--''"
  shows "options_loop (xs @ (''--'' @ n) # v # ys) explicit options
       = options_loop (xs @ (''--'' @ n @ CHR ''='' # v) # ys) explicit options"
proof (induction "length xs" arbitrary: xs explicit options rule: less_induct)
  case less
  let ?l = "\<lambda>xs. xs @ (''--'' @ n) # v # ys" and ?r = "\<lambda>xs. xs @ (''--'' @ n @ CHR ''='' # v) # ys"
  show ?case
  proof (cases xs)
    case Nil
    have "''--'' @ n \<noteq> ''--''" "''--'' @ n @ CHR ''='' # v \<noteq> ''--''"
      using flag_no_dash [OF assms(1), of "[]"] by auto
    then show ?thesis
      using schedulerFlag_spelled [OF assms, of ys] by (simp add: Nil split: sum.split prod.split)
  next
    case (Cons t ts)
    have same: "no_value (?l ts) = no_value (?r ts)" "no_value (?l ts) \<or> hd (?l ts) = hd (?r ts)"
      by (cases ts; simp add: no_value_def has_prefix_def)+
    then have flag: "schedulerFlag t (?l ts) = schedulerFlag t (?r ts)"
      unfolding schedulerFlag_def by (rule flag_loop_rest)
    have step: "options_loop (?l ts) ex o' = options_loop (?r ts) ex o'" for ex o' by (rule less) (simp add: Cons)
    have drop_step: "options_loop (drop 1 (?l ts)) ex o' = options_loop (drop 1 (?r ts)) ex o'" if "\<not> no_value (?l ts)" for ex o'
    proof (cases ts)
      case Nil
      with that show ?thesis by (simp add: no_value_def has_prefix_def)
    next
      case (Cons u us)
      then show ?thesis using less [of us ex o'] \<open>xs = t # ts\<close> by simp
    qed
    show ?thesis
    proof (cases "schedulerFlag t (?l ts)")
      case (Inl e)
      then have "schedulerFlag t (?r ts) = Inl e" using flag by simp
      then show ?thesis using Inl by (simp add: Cons)
    next
      case (Inr m)
      then have r: "schedulerFlag t (?r ts) = Inr m" using flag by simp
      show ?thesis
      proof (cases m)
        case None
        then show ?thesis using Inr r step by (simp add: Cons)
      next
        case (Some m')
        obtain name w consumed where m': "m' = (name, w, consumed)" by (metis prod_cases3)
        have f: "schedulerFlag t (?l ts) = Inr (Some (name, w, consumed))" using Inr Some m' by simp
        then have "consumed \<Longrightarrow> \<not> no_value (?l ts)" by (auto dest: schedulerFlag_consumed)
        then have rest: "options_loop (if consumed then drop 1 (?l ts) else ?l ts) ex o'
            = options_loop (if consumed then drop 1 (?r ts) else ?r ts) ex o'" for ex o'
          using step drop_step by simp
        have f': "schedulerFlag t (?r ts) = Inr (Some (name, w, consumed))" using f flag by simp
        show ?thesis unfolding Cons
          by (simp only: append_Cons [of t ts] options_loop.simps(2) f f' rest sum.case option.case prod.case
              cong: sum.case_cong prod.case_cong)
      qed
    qed
  qed
qed

lemma flag_spellings_agree_witness:
  "options_loop ([''-v'', ''3''] @ (''--'' @ ''default-queue'') # ''gpu'' # [''--leader-elect'']) False default_options
   = options_loop ([''-v'', ''3''] @ (''--'' @ ''default-queue'' @ CHR ''='' # ''gpu'') # [''--leader-elect'']) False default_options"
  by (rule flag_spellings_agree) (simp_all add: flag_names_def has_prefix_def)

section \<open>Options of a command line\<close>

definition options_ok :: "bool \<Rightarrow> runtime_options \<Rightarrow> bool" where
  "options_ok explicit r \<longleftrightarrow> ro_names r \<noteq> [] \<and> distinct (ro_names r) \<and> \<not> ro_determinate r
     \<and> (\<not> explicit \<longrightarrow> ro_names r = [''volcano''])"

lemma set_option_ok: "options_ok explicit r \<Longrightarrow> set_option name v explicit r = Inr (explicit', r') \<Longrightarrow> options_ok explicit' r'"
  by (auto simp: set_option_def options_ok_def Let_def split: if_splits option.splits)

lemma flag_error_reason: "schedulerFlag token rest = Inl e \<Longrightarrow> err_text e \<noteq> ''''"
proof -
  have "flag_loop names token rest = Inl e \<Longrightarrow> err_text e \<noteq> ''''" for names
    by (induction names) (auto simp: Let_def split: if_splits)
  then show "schedulerFlag token rest = Inl e \<Longrightarrow> err_text e \<noteq> ''''" by (simp add: schedulerFlag_def)
qed

lemma set_option_reason: "set_option name v explicit r = Inl reason \<Longrightarrow> reason \<noteq> ''''"
  by (auto simp: set_option_def Let_def split: if_splits option.splits)

definition loop_ok :: "runtime_options + runtime_options \<Rightarrow> bool" where
  "loop_ok result = (case result of
     Inl r \<Rightarrow> \<not> ro_determinate r \<and> ro_reason r \<noteq> '''' | Inr r \<Rightarrow> \<exists>explicit. options_ok explicit r)"

lemma loop_okI: "options_ok explicit r \<Longrightarrow> loop_ok (Inr r)" "options_ok explicit r \<Longrightarrow> reason \<noteq> '''' \<Longrightarrow> loop_ok (Inl (r\<lparr>ro_reason := reason\<rparr>))"
  by (auto simp: loop_ok_def options_ok_def)

lemma options_loop_ok: "options_ok explicit r \<Longrightarrow> loop_ok (options_loop tokens explicit r)"
proof (induction "length tokens" arbitrary: tokens explicit r rule: less_induct)
  case less
  show ?case
  proof (cases tokens)
    case Nil
    then show ?thesis using less.prems by (auto intro: loop_okI)
  next
    case (Cons token rest)
    have IH: "length ts < length tokens \<Longrightarrow> options_ok ex o' \<Longrightarrow> loop_ok (options_loop ts ex o')" for ts ex o'
      using less.hyps by blast
    have "loop_ok (case set_option name v explicit r of
        Inl reason \<Rightarrow> Inl (r\<lparr>ro_reason := reason\<rparr>)
      | Inr (explicit', r') \<Rightarrow> options_loop (if consumed then drop 1 rest else rest) explicit' r')" for name v consumed
      using set_option_ok [OF less.prems, of name v] set_option_reason [of name v explicit r]
      by (auto simp: Cons intro: IH loop_okI(2) [OF less.prems] split: sum.split)
    then show ?thesis unfolding Cons options_loop.simps(2)
      by (auto simp: Cons intro: IH [OF _ less.prems] loop_okI(1) [OF less.prems] loop_okI(2) [OF less.prems]
          dest: flag_error_reason split: sum.split option.split)
  qed
qed

text \<open>
  Options that are reported as determinate have scheduler names, all different, a default queue
  and, when leader election is on, a namespace for its Lease; options that are not carry a reason.
\<close>
theorem determinate_options_usable:
  "(let r = parseSchedulerRuntimeOptions container in
     if ro_determinate r
     then ro_names r \<noteq> [] \<and> distinct (ro_names r) \<and> ro_queue r \<noteq> '''' \<and> (if ro_leader r then ro_lock r \<noteq> '''' else True)
     else ro_reason r \<noteq> '''')"
proof -
  have "options_ok False default_options" by (simp add: options_ok_def default_options_def)
  from options_loop_ok [OF this, of "ct_command container @ ct_args container"] show ?thesis
    by (auto simp: parseSchedulerRuntimeOptions_def finish_options_def loop_ok_def options_ok_def Let_def text_shell_wrapper_def
        text_empty_runtime_def empty_options_def split: sum.splits)
qed

text \<open>
  An empty scheduler name given as a token of its own passes the check that is meant to reject it:
  the options are determinate with the empty name as the only one.
\<close>
theorem empty_scheduler_name_accepted:
  "(let r = parseSchedulerRuntimeOptions (empty_container\<lparr>ct_args := [''--scheduler-name'', '''']\<rparr>) in
     ro_determinate r \<and> ro_names r = [''''])"
  by code_simp

section \<open>What is read of the cluster\<close>

lemma set_sort_key' [simp]: "set (sort_key f xs) = set xs"
  by simp

lemma leader_ready:
  assumes "selectSchedulerLeader api identified ready = Inr leader"
  shows "list_ex (\<lambda>pod. pod_namespace pod = pod_namespace leader \<and> pod_name pod = pod_name leader
    \<and> pod_uid pod = pod_uid leader) ready"
proof -
  have "lease_keys_loop identified \<lparr>lk_enabled = False, lk_disabled = False, lk_keys = []\<rparr> = Inr keys \<Longrightarrow> ?thesis" for keys
    using assms unfolding selectSchedulerLeader_def by (auto split: if_splits list.splits sum.splits)
  then show ?thesis using assms by (cases "lease_keys_loop identified \<lparr>lk_enabled = False, lk_disabled = False, lk_keys = []\<rparr>")
    (auto simp: selectSchedulerLeader_def)
qed

text \<open>
  The scheduler that is reported is a Pod of the cluster that is recognised as a Volcano scheduler,
  is running, ready and not being deleted; otherwise there is an error and no scheduler at all.
\<close>
theorem scheduler_found_is_ready:
  "case GetVolcanoScheduler api of
     (scheduler, Some e) \<Rightarrow> scheduler = empty_scheduler
   | (scheduler, None) \<Rightarrow> list_ex (\<lambda>pod. isVolcanoSchedulerPod pod \<and> pod_deletion pod = None \<and> pod_phase pod = ''Running''
        \<and> isPodReady pod \<and> pod_namespace pod = sch_namespace scheduler \<and> pod_name pod = sch_name scheduler
        \<and> pod_uid pod = sch_uid scheduler) (ka_pods api)"
proof -
  let ?pods = "filter isVolcanoSchedulerPod (ka_pods api)"
  let ?c = "readySchedulerPods (sort_key pod_key ?pods)"
  have idx: "by_index api schedulerPodIndexKeys ''true'' = (case ka_index_err api of Some e \<Rightarrow> Inl e | None \<Rightarrow> Inr ?pods)"
    by (auto simp: by_index_def schedulerPodIndexKeys_def split: option.split intro!: filter_cong)
  have same: "list_ex (\<lambda>pod. isVolcanoSchedulerPod pod \<and> pod_deletion pod = None \<and> pod_phase pod = ''Running''
        \<and> isPodReady pod \<and> pod_namespace pod = pod_namespace q \<and> pod_name pod = pod_name q
        \<and> pod_uid pod = pod_uid q) (ka_pods api)"
    if "list_ex (\<lambda>pod. pod_namespace pod = pod_namespace q \<and> pod_name pod = pod_name q \<and> pod_uid pod = pod_uid q) ?c" for q
    using that by (auto simp: list_ex_iff readySchedulerPods_def)
  have of: "sch_namespace (scheduler_of q k) = pod_namespace q" "sch_name (scheduler_of q k) = pod_name q"
      "sch_uid (scheduler_of q k) = pod_uid q" for q k
    by (simp_all add: scheduler_of_def Let_def)
  have chosen: "list_ex (\<lambda>pod. pod_namespace pod = pod_namespace q \<and> pod_name pod = pod_name q \<and> pod_uid pod = pod_uid q) ?c"
    if "?c = first # others" "(if b then selectSchedulerLeader api (sort_key pod_key ?pods) ?c else Inr first) = Inr q" for first others b q
    using that leader_ready [of api _ ?c q] by (auto split: if_splits)
  show ?thesis
  proof (cases "ka_ctx_err api = None \<and> ka_index_err api = None")
    case False
    then show ?thesis by (auto simp: GetVolcanoScheduler_def idx split: option.split)
  next
    case True
    show ?thesis
    proof (cases ?c)
      case Nil
      then show ?thesis using True by (simp add: GetVolcanoScheduler_def idx)
    next
      case (Cons first others)
      define choice where "choice = (if 1 < length (sort_key pod_key ?pods)
        then selectSchedulerLeader api (sort_key pod_key ?pods) ?c else Inr first)"
      have eq: "GetVolcanoScheduler api = (case choice of Inl e \<Rightarrow> (empty_scheduler, Some e)
        | Inr q \<Rightarrow> (case schedulerContainer q of
            None \<Rightarrow> (empty_scheduler, Some (errorf (''scheduler pod '' @ pod_key q @ '' has no containers'')))
          | Some k \<Rightarrow> (scheduler_of q k, None)))"
        using True Cons by (simp add: GetVolcanoScheduler_def idx choice_def)
      show ?thesis
      proof (cases choice)
        case (Inl e)
        then show ?thesis by (simp add: eq)
      next
        case (Inr q)
        from same [OF chosen [OF Cons Inr [unfolded choice_def]]] show ?thesis
          by (simp add: eq Inr of split: option.split)
      qed
    qed
  qed
qed

text \<open>
  Reading the version never changes which scheduler it is: namespace, name, UID, container, image
  and names are those of the scheduler given; without an error there is a version, and with one the scheduler
  is unchanged but for the reason, which is the text of the error.
\<close>
theorem version_keeps_identity:
  "case GetVolcanoSchedulerVersionFor api scheduler of (found, err) \<Rightarrow>
     [sch_namespace found, sch_name found, sch_uid found, sch_container found, sch_image found, sch_tag found]
       = [sch_namespace scheduler, sch_name scheduler, sch_uid scheduler, sch_container scheduler, sch_image scheduler,
          sch_tag scheduler]
     \<and> sch_names found = sch_names scheduler
     \<and> (case err of
          None \<Rightarrow> sch_version found \<noteq> '''' \<and> sch_binary found \<in> set (schedulerVersionCommands (sch_binary scheduler))
        | Some e \<Rightarrow> found = scheduler\<lparr>sch_version_reason := err_text e\<rparr>)"
proof -
  have parsed: "parseSchedulerVersionOutput out = Inr v \<Longrightarrow> sch_version v \<noteq> ''''" for out v
    by (auto simp: parseSchedulerVersionOutput_def Let_def split: if_splits)
  have "case version_loop api scheduler commands lastErr of (found, err) \<Rightarrow>
     [sch_namespace found, sch_name found, sch_uid found, sch_container found, sch_image found, sch_tag found]
       = [sch_namespace scheduler, sch_name scheduler, sch_uid scheduler, sch_container scheduler, sch_image scheduler,
          sch_tag scheduler]
     \<and> sch_names found = sch_names scheduler
     \<and> (case err of None \<Rightarrow> sch_version found \<noteq> '''' \<and> sch_binary found \<in> set commands
        | Some e \<Rightarrow> found = scheduler\<lparr>sch_version_reason := err_text e\<rparr>)" for commands lastErr
  proof (induction commands arbitrary: lastErr)
    case Nil
    then show ?case by (simp add: Let_def)
  next
    case (Cons command commands)
    obtain out err where o: "ka_exec api (sch_namespace scheduler) (sch_name scheduler) (sch_container scheduler)
        [command, ''--version''] = (out, err)" by force
    show ?case
    proof (cases err)
      case (Some e)
      show ?thesis using Cons.IH [of "Some \<lparr>err_text = command @ '' --version: '' @ err_text e @ '': '' @ trim_space out,
          err_chain = err_chain e\<rparr>"] by (auto simp: o Some split: option.splits prod.splits)
    next
      case None
      show ?thesis
      proof (cases "parseSchedulerVersionOutput out")
        case (Inl e)
        show ?thesis using Cons.IH [of "Some (errorw (command @ '' --version: '') e)"]
          by (auto simp: o None Inl split: option.splits prod.splits)
      next
        case (Inr v)
        then show ?thesis using parsed by (simp add: o None version_of_def)
      qed
    qed
  qed
  then show ?thesis by (simp add: GetVolcanoSchedulerVersionFor_def)
qed

text \<open>
  The events read for a Pod name that Pod, and its UID when it has one; the log text is never longer
  than the limit, and the number of lines asked for is between 1 and 1000 whatever is requested.
\<close>
theorem reads_are_bounded:
  "(case ListPodEvents api namespace name of
      Inl e \<Rightarrow> True
    | Inr events \<Rightarrow>
        (case ka_pod api namespace name of
           Inl e \<Rightarrow> False
         | Inr pod \<Rightarrow> list_all (\<lambda>event. ev_kind event = ''Pod'' \<and> ev_object_name event = name
             \<and> (pod_uid pod = '''' \<or> ev_object_uid event = pod_uid pod)) events))
   \<and> length (fst (GetVolcanoSchedulerLogs api tailLines)) \<le> maximumSchedulerLogResponse
   \<and> 1 \<le> boundedSchedulerLogTail tailLines \<and> boundedSchedulerLogTail tailLines \<le> 1000"
proof (intro conjI)
  show "case ListPodEvents api namespace name of
      Inl e \<Rightarrow> True
    | Inr events \<Rightarrow>
        (case ka_pod api namespace name of
           Inl e \<Rightarrow> False
         | Inr pod \<Rightarrow> list_all (\<lambda>event. ev_kind event = ''Pod'' \<and> ev_object_name event = name
             \<and> (pod_uid pod = '''' \<or> ev_object_uid event = pod_uid pod)) events)"
    by (auto simp: ListPodEvents_def GetPod_def Let_def list_all_iff split: sum.split option.split)
  obtain scheduler err where g: "GetVolcanoScheduler api = (scheduler, err)" by force
  show "length (fst (GetVolcanoSchedulerLogs api tailLines)) \<le> maximumSchedulerLogResponse"
    unfolding GetVolcanoSchedulerLogs_def g prod.case by (simp split: option.split sum.split prod.split)
qed (simp_all add: boundedSchedulerLogTail_def)

end
