(* ===== verification/Agent_Views.thy ===== *)
theory Agent_Views
  imports Scheduler_Client Enqueue Presentation_Resources Filter_Node
begin

text \<open>
  The second half of \<open>internal/agent/skills.go\<close>: what the tools show the model of a Pod, of its events and
  of a node. Labels and annotations are filtered, texts are cut, events are sorted and counted. The facts:
  exactly the labels a Pod's placement can depend on are shown (\<open>node_labels_shown\<close>), and the events are the
  newest ones in order (\<open>newest_events\<close>).
\<close>

section \<open>Views\<close>

record container_view =
  cv_name :: string
  cv_requests :: resource_list
  cv_limits :: resource_list
  cv_ports :: "container_port list"

record claim_view =
  pv_volume :: string
  pv_claim :: string
  pv_read_only :: bool

record condition_view =
  dv_type :: string
  dv_status :: string
  dv_reason :: string
  dv_message :: string
  dv_time :: string

record status_view =
  sv_name :: string
  sv_ready :: bool
  sv_restarts :: i32
  sv_state :: string
  sv_reason :: string
  sv_message :: string

record pod_view =
  pw_namespace :: string
  pw_name :: string
  pw_uid :: string
  pw_labels :: "string gomap"
  pw_annotations :: "string gomap"
  pw_phase :: string
  pw_scheduler :: string
  pw_node :: string
  pw_nominated :: string
  pw_priority :: "i32 option"
  pw_priority_class :: string
  pw_preemption :: "string option"
  pw_runtime_class :: "string option"
  pw_host_network :: bool
  pw_node_selector :: "string gomap"
  pw_affinity :: "affinity option"
  pw_tolerations :: "toleration list"
  pw_constraints :: "topology_constraint list"
  pw_gates :: "string list"
  pw_overhead :: resource_list
  pw_containers :: "container_view list"
  pw_init_containers :: "container_view list"
  pw_claims :: "claim_view list"
  pw_conditions :: "condition_view list"
  pw_statuses :: "status_view list"

record event_view =
  ew_type :: string
  ew_reason :: string
  ew_message :: string
  ew_count :: i32
  ew_action :: string
  ew_component :: string
  ew_controller :: string
  ew_time :: string

record node_condition_view =
  nv_type :: string
  nv_status :: string
  nv_reason :: string
  nv_time :: string

record node_view =
  nw_name :: string
  nw_unschedulable :: bool
  nw_labels :: "string gomap"
  nw_taints :: "taint list"
  nw_capacity :: resource_list
  nw_allocatable :: resource_list
  nw_conditions :: "node_condition_view list"

section \<open>Texts\<close>

definition limitToolText :: "string \<Rightarrow> nat \<Rightarrow> string" where
  "limitToolText value maximum =
     (if length value \<le> maximum then value else take maximum value @ ''...'')"

text \<open>\<open>time.RFC3339Nano\<close>: the nanoseconds without trailing zeros, and nothing when there are none.\<close>

definition formatTime :: "gotime \<Rightarrow> string" where
  "formatTime t =
     (if t = 0 then ''''
      else (let digits = rev (dropWhile (\<lambda>c. c = CHR ''0'') (rev (pad_left 9 (dec_str (t mod 1000000000)))))
            in butlast (rfc3339 t) @ (if digits = [] then '''' else ''.'' @ digits) @ ''Z''))"

text \<open>A nil map is the empty map: neither is shown.\<close>

definition schedulingMetadata :: "string gomap \<Rightarrow> string gomap" where
  "schedulingMetadata values =
     filter (\<lambda>(key, value). let lower = to_lower key in contains lower ''volcano'' \<or> contains lower ''scheduling'') values"

section \<open>The Pod\<close>

definition summarizeContainers :: "container list \<Rightarrow> container_view list" where
  "summarizeContainers containers =
     map (\<lambda>container.
       \<lparr>cv_name = ct_name container, cv_requests = ct_requests container, cv_limits = ct_limits container,
        cv_ports = filter (\<lambda>port. cp_host_port port \<noteq> 0) (ct_ports container)\<rparr>) containers"

fun summarizeContainerState :: "container_state \<Rightarrow> string \<times> string \<times> string" where
  "summarizeContainerState (StateWaiting reason message) = (''waiting'', reason, message)"
| "summarizeContainerState StateRunning = (''running'', '''', '''')"
| "summarizeContainerState (StateTerminated reason message) = (''terminated'', reason, message)"
| "summarizeContainerState StateNone = ('''', '''', '''')"

definition summarizePod :: "pod \<Rightarrow> pod_view" where
  "summarizePod pod =
     \<lparr>pw_namespace = pod_namespace pod, pw_name = pod_name pod, pw_uid = pod_uid pod,
      pw_labels = schedulingMetadata (pod_labels pod), pw_annotations = schedulingMetadata (pod_annotations pod),
      pw_phase = pod_phase pod, pw_scheduler = pod_scheduler_name pod, pw_node = pod_node_name pod,
      pw_nominated = pod_nominated pod, pw_priority = pod_priority pod,
      pw_priority_class = pod_priority_class pod, pw_preemption = pod_preemption pod,
      pw_runtime_class = pod_runtime_class pod, pw_host_network = pod_host_network pod,
      pw_node_selector = pod_node_selector pod, pw_affinity = pod_affinity pod,
      pw_tolerations = pod_tolerations pod, pw_constraints = pod_constraints pod, pw_gates = pod_gates pod,
      pw_overhead = pod_overhead pod, pw_containers = summarizeContainers (pod_containers pod),
      pw_init_containers = summarizeContainers (pod_init_containers pod),
      pw_claims = concat (map (\<lambda>volume.
        case vo_pvc volume of
          None \<Rightarrow> []
        | Some (claim, read_only) \<Rightarrow>
            [\<lparr>pv_volume = vo_name volume, pv_claim = claim, pv_read_only = read_only\<rparr>]) (pod_volumes pod)),
      pw_conditions = map (\<lambda>condition.
        \<lparr>dv_type = cd_type condition, dv_status = cd_status condition, dv_reason = cd_reason condition,
         dv_message = limitToolText (cd_message condition) 2048, dv_time = formatTime (cd_time condition)\<rparr>)
        (pod_conditions pod),
      pw_statuses = map (\<lambda>status.
        let (state, reason, message) = summarizeContainerState (st_state status) in
        \<lparr>sv_name = st_name status, sv_ready = st_ready status, sv_restarts = st_restarts status,
         sv_state = state, sv_reason = reason, sv_message = limitToolText message 2048\<rparr>) (pod_statuses pod)\<rparr>"

section \<open>Events\<close>

definition eventTime :: "event \<Rightarrow> gotime" where
  "eventTime event =
     (if ev_event_time event \<noteq> 0 then ev_event_time event
      else case ev_series_time event of
        Some t \<Rightarrow>
          if t \<noteq> 0 then t
          else if ev_last_time event \<noteq> 0 then ev_last_time event
          else if ev_first_time event \<noteq> 0 then ev_first_time event
          else ev_created event
      | None \<Rightarrow>
          if ev_last_time event \<noteq> 0 then ev_last_time event
          else if ev_first_time event \<noteq> 0 then ev_first_time event
          else ev_created event)"

definition event_row :: "event \<Rightarrow> event_view" where
  "event_row event =
     \<lparr>ew_type = ev_type event, ew_reason = ev_reason event, ew_message = limitToolText (ev_message event) 4096,
      ew_count = ev_count event, ew_action = ev_action event, ew_component = ev_component event,
      ew_controller = ev_controller event, ew_time = formatTime (eventTime event)\<rparr>"

text \<open>\<open>sort.SliceStable\<close> by descending time; the callers' limit is at least 1.\<close>

definition summarizeEvents :: "event list \<Rightarrow> int \<Rightarrow> event_view list" where
  "summarizeEvents events limit =
     (let items = sort_key (\<lambda>event. - eventTime event) events;
          items' = (if limit < int (length items) then take (nat limit) items else items)
      in map event_row items')"

section \<open>The node\<close>

definition podAffinityTerms :: "pod_terms option \<Rightarrow> string list" where
  "podAffinityTerms affinity = (case affinity of None \<Rightarrow> [] | Some a \<Rightarrow> pt_required a @ pt_preferred a)"

definition podAntiAffinityTerms :: "pod_terms option \<Rightarrow> string list" where
  "podAntiAffinityTerms affinity = (case affinity of None \<Rightarrow> [] | Some a \<Rightarrow> pt_required a @ pt_preferred a)"

definition term_keys :: "node_selector_term list \<Rightarrow> string list" where
  "term_keys terms = concat (map (\<lambda>t. map sr_key (st_expressions t)) terms)"

text \<open>The label keys the placement of a Pod depends on.\<close>

definition label_keys :: "pod \<Rightarrow> string list" where
  "label_keys pod =
     gm_keys (pod_node_selector pod) @
     (case pod_affinity pod of
        None \<Rightarrow> []
      | Some affinity \<Rightarrow>
          (case af_node_required affinity of Some (Some terms) \<Rightarrow> term_keys terms | _ \<Rightarrow> []) @
          term_keys (af_node_preferred affinity) @
          podAffinityTerms (af_pod affinity) @ podAntiAffinityTerms (af_pod_anti affinity)) @
     map tc_key (pod_constraints pod)"

definition schedulingNodeLabels :: "string gomap \<Rightarrow> pod \<Rightarrow> string gomap" where
  "schedulingNodeLabels labels pod =
     filter (\<lambda>(key, value).
       let selected = List.member (label_keys pod) key;
           standard = has_prefix key ''kubernetes.io/'' \<or> has_prefix key ''node.kubernetes.io/''
             \<or> has_prefix key ''topology.kubernetes.io/''
       in selected \<or> standard) labels"

definition summarizeNodeConditions :: "condition list \<Rightarrow> node_condition_view list" where
  "summarizeNodeConditions conditions =
     map (\<lambda>condition. \<lparr>nv_type = cd_type condition, nv_status = cd_status condition,
       nv_reason = cd_reason condition, nv_time = formatTime (cd_time condition)\<rparr>) conditions"

definition summarizeNode :: "node \<Rightarrow> pod \<Rightarrow> node_view" where
  "summarizeNode node pod =
     \<lparr>nw_name = nd_name node, nw_unschedulable = nd_unschedulable node,
      nw_labels = schedulingNodeLabels (nd_labels node) pod, nw_taints = nd_taints node,
      nw_capacity = nd_capacity node, nw_allocatable = nd_allocatable node,
      nw_conditions = summarizeNodeConditions (nd_conditions node)\<rparr>"

section \<open>What is shown is enough\<close>

text \<open>The label keys the local filter looks at when it decides the node selector and the required affinity.\<close>

lemma gm_get_filter: "gm_get (filter (\<lambda>(k, v). P k) m) k = (if P k then gm_get m k else None)"
  by (induction m) (auto simp: gm_get_Cons)

lemma gm_get_metadata:
  "gm_get (schedulingMetadata m) k =
     (if contains (to_lower k) ''volcano'' \<or> contains (to_lower k) ''scheduling'' then gm_get m k else None)"
  unfolding schedulingMetadata_def Let_def by (rule gm_get_filter)

lemma gm_get_shown:
  "gm_get (schedulingNodeLabels labels pod) k =
     (if k \<in> set (label_keys pod) \<or> has_prefix k ''kubernetes.io/'' \<or> has_prefix k ''node.kubernetes.io/''
        \<or> has_prefix k ''topology.kubernetes.io/'' then gm_get labels k else None)"
  unfolding schedulingNodeLabels_def Let_def by (simp add: gm_get_filter)

lemma term_keysI: "t \<in> set terms \<Longrightarrow> r \<in> set (st_expressions t) \<Longrightarrow> sr_key r \<in> set (term_keys terms)"
  by (auto simp: term_keys_def)

lemma label_keysI:
  "k \<in> set (gm_keys (pod_node_selector pod)) \<Longrightarrow> k \<in> set (label_keys pod)"
  "pod_affinity pod = Some affinity \<Longrightarrow> af_node_required affinity = Some (Some terms) \<Longrightarrow> k \<in> set (term_keys terms)
    \<Longrightarrow> k \<in> set (label_keys pod)"
  by (auto simp: label_keys_def)

text \<open>A term reads only the labels of its own keys.\<close>

lemma term_matches_cong:
  assumes "\<And>r. r \<in> set (st_expressions t) \<Longrightarrow> gm_get (nd_labels n) (sr_key r) = gm_get (nd_labels m) (sr_key r)"
    and "nd_name n = nd_name m"
  shows "nodeSelectorTermMatches t n = nodeSelectorTermMatches t m"
  using assms by (auto simp: nodeSelectorTermMatches_def nodeField_def gm_or_def gm_has_def list_all_iff)

text \<open>The view of a node shows every label the placement rules read: with the labels shown in place of
  the node's own, the node selector and the required node affinity of the Pod come out the same; and
  nothing else is shown but the labels of the three standard prefixes.\<close>

theorem node_view_sufficient:
  "let shown = node\<lparr>nd_labels := nw_labels (summarizeNode node pod)\<rparr> in
     selectorMatches pod shown = selectorMatches pod node
     \<and> requiredNodeAffinityMatches pod shown = requiredNodeAffinityMatches pod node
     \<and> set (gm_keys (nd_labels shown)) = {k \<in> set (gm_keys (nd_labels node)). k \<in> set (label_keys pod)
         \<or> has_prefix k ''kubernetes.io/'' \<or> has_prefix k ''node.kubernetes.io/''
         \<or> has_prefix k ''topology.kubernetes.io/''}"
proof -
  define shown where "shown = node\<lparr>nd_labels := nw_labels (summarizeNode node pod)\<rparr>"
  have get: "gm_get (nd_labels shown) k = gm_get (nd_labels node) k" if "k \<in> set (label_keys pod)" for k
    using that by (simp add: shown_def summarizeNode_def gm_get_shown)
  have "gm_get (nd_labels shown) k = gm_get (nd_labels node) k" if "(k, v) \<in> set (pod_node_selector pod)" for k v
    using that by (intro get label_keysI) (force simp: gm_keys_def)
  then have sel: "selectorMatches pod shown = selectorMatches pod node"
    unfolding selectorMatches_iff by (intro list.pred_cong) (auto split: prod.split)
  have aff: "requiredNodeAffinityMatches pod shown = requiredNodeAffinityMatches pod node"
  proof -
    have "nodeSelectorTermMatches t shown = nodeSelectorTermMatches t node"
      if "pod_affinity pod = Some a" "af_node_required a = Some (Some terms)" "t \<in> set terms" for a terms t
      using that by (intro term_matches_cong get label_keysI(2) [OF that(1,2)] term_keysI) (simp_all add: shown_def)
    then have "list_ex (\<lambda>t. nodeSelectorTermMatches t shown) terms = list_ex (\<lambda>t. nodeSelectorTermMatches t node) terms"
      if "pod_affinity pod = Some a" "af_node_required a = Some (Some terms)" for a terms
      using that by (simp add: list_ex_iff)
    then show ?thesis unfolding requiredNodeAffinityMatches_def by (auto split: option.split)
  qed
  have keys: "set (gm_keys (nd_labels shown)) = {k \<in> set (gm_keys (nd_labels node)). k \<in> set (label_keys pod)
         \<or> has_prefix k ''kubernetes.io/'' \<or> has_prefix k ''node.kubernetes.io/'' \<or> has_prefix k ''topology.kubernetes.io/''}"
    by (auto simp: shown_def summarizeNode_def schedulingNodeLabels_def gm_keys_def Let_def)
  show ?thesis using sel aff keys by (simp add: Let_def shown_def)
qed

section \<open>Which events are shown\<close>

lemma sorted_sort_key: "sorted_wrt (\<lambda>a b. f a \<le> f b) (sort_key f xs)" for f :: "'a \<Rightarrow> int"
  using sorted_sort_key [of f xs] by (simp only: sorted_map)

text \<open>The events shown are the newest ones, in order: the events split into those shown and those
  left out, no event shown is older than one left out, and none is left out before the limit is reached.\<close>

theorem newest_events:
  assumes "0 \<le> limit"
  shows "\<exists>shown omitted. mset shown + mset omitted = mset events
     \<and> summarizeEvents events limit = map event_row shown
     \<and> length shown = min (nat limit) (length events)
     \<and> sorted_wrt (\<lambda>a b. eventTime b \<le> eventTime a) shown
     \<and> (\<forall>a \<in> set shown. \<forall>b \<in> set omitted. eventTime b \<le> eventTime a)"
proof -
  let ?s = "sort_key (\<lambda>event. - eventTime event) events" let ?n = "nat limit"
  have sorted: "sorted_wrt (\<lambda>a b. eventTime b \<le> eventTime a) ?s"
    using sorted_sort_key [of "\<lambda>event. - eventTime event" events] by simp
  then have "sorted_wrt (\<lambda>a b. eventTime b \<le> eventTime a) (take ?n ?s @ drop ?n ?s)"
    by (simp only: append_take_drop_id)
  then have "sorted_wrt (\<lambda>a b. eventTime b \<le> eventTime a) (take ?n ?s)"
    "\<forall>a \<in> set (take ?n ?s). \<forall>b \<in> set (drop ?n ?s). eventTime b \<le> eventTime a"
    unfolding sorted_wrt_append by blast+
  moreover have "mset (take ?n ?s) + mset (drop ?n ?s) = mset events"
    by (simp only: mset_append [symmetric] append_take_drop_id mset_sort)
  moreover have "summarizeEvents events limit = map event_row (take ?n ?s)"
    using assms by (auto simp: summarizeEvents_def Let_def)
  moreover have "length (take ?n ?s) = min ?n (length events)" by (simp add: min.commute)
  ultimately show ?thesis by blast
qed

lemma newest_events_witness:
  "\<exists>shown omitted. mset shown + mset omitted = mset [empty_event\<lparr>ev_reason := ''old''\<rparr>, empty_event\<lparr>ev_created := 5\<rparr>]
     \<and> summarizeEvents [empty_event\<lparr>ev_reason := ''old''\<rparr>, empty_event\<lparr>ev_created := 5\<rparr>] 1 = map event_row shown
     \<and> length shown = 1"
  using newest_events [of 1 "[empty_event\<lparr>ev_reason := ''old''\<rparr>, empty_event\<lparr>ev_created := 5\<rparr>]"] by auto

end
