(* ===== verification/Volcano_Resources.thy ===== *)
theory Volcano_Resources
  imports Scheduler_Client Go_Parse
begin

text \<open>
  File \<open>internal/cluster/volcano_resources.go\<close>: PodGroups and Queues decoded from the untyped objects
  of the dynamic informers. Nested field lookup (\<open>unstructured\<close>) and quantity parsing (\<open>resource\<close>) are
  third-party and parameters. The facts: an \<open>int32\<close> is decoded exactly or not at all, encoding and
  decoding a PodGroup is the identity, and which PodGroups belong to a queue.
\<close>

section \<open>Untyped values\<close>

text \<open>
  The dynamic types the code distinguishes; integers carry the name of their Go type, a
  \<open>json.Number\<close> is its text, and any other type is its name.
\<close>

datatype raw =
    RNil
  | RBool bool
  | RInt string int
  | RUint string int
  | RFloat32 f64
  | RFloat64 f64
  | RNumber string
  | RString string
  | RList "raw list"
  | RMap "(string \<times> raw) list"
  | ROther string

fun go_type :: "raw \<Rightarrow> string" where
  "go_type RNil = ''<nil>''"
| "go_type (RBool b) = ''bool''"
| "go_type (RInt t n) = t"
| "go_type (RUint t n) = t"
| "go_type (RFloat32 f) = ''float32''"
| "go_type (RFloat64 f) = ''float64''"
| "go_type (RNumber s) = ''json.Number''"
| "go_type (RString s) = ''string''"
| "go_type (RList vs) = ''[]interface {}''"
| "go_type (RMap m) = ''map[string]interface {}''"
| "go_type (ROther t) = t"

text \<open>The third-party functions: \<open>NestedFieldNoCopy\<close> and \<open>ParseQuantity\<close>.\<close>

record raw_api =
  ra_nested :: "raw gomap \<Rightarrow> string list \<Rightarrow> go_error + raw option"
  ra_quantity :: "string \<Rightarrow> go_error + quantity"

definition fieldPath :: "string list \<Rightarrow> string" where
  "fieldPath path = fold (\<lambda>field result. (if result \<noteq> '''' then result @ ''.'' else result) @ field) path ''''"

section \<open>Numbers\<close>

definition text_overflow :: "string \<Rightarrow> go_error" where
  "text_overflow shown = errorf (''value '' @ shown @ '' overflows int64'')"

text \<open>\<open>strconv.ParseInt\<close> with its error.\<close>

definition ParseInt_err :: "nat \<Rightarrow> string \<Rightarrow> go_error + int" where
  "ParseInt_err w s =
     (case ParseInt w s of
        Some n \<Rightarrow> Inr n
      | None \<Rightarrow> Inl (num_error ''ParseInt'' s
          (if parse_nat (snd (split_sign s)) = None then ''invalid syntax'' else ''value out of range'')))"

text \<open>
  The conversion of a float to \<open>int64\<close>; outside the range, where the language leaves the result
  open, the value of amd64. Either value is no \<open>int32\<close>.
\<close>

definition int64_of_float :: "f64 \<Rightarrow> int" where
  "int64_of_float f =
     (case f of Fin x \<Rightarrow> if in_bits 64 \<lfloor>x\<rfloor> then \<lfloor>x\<rfloor> else - (2 ^ 63) | _ \<Rightarrow> - (2 ^ 63))"

text \<open>\<open>math.Trunc(f) == f\<close>: true of the infinities, false of NaN.\<close>

definition is_integral :: "f64 \<Rightarrow> bool" where
  "is_integral f = (case f of Fin x \<Rightarrow> of_int \<lfloor>x\<rfloor> = x | NaN \<Rightarrow> False | _ \<Rightarrow> True)"

text \<open>The shortest decimal that reads back as the same \<open>float32\<close>.\<close>

definition rnd_rat32 :: "rat \<Rightarrow> rat" where
  "rnd_rat32 x =
     (if x = 0 then 0
      else let u = 2 powi (max (ilog2 \<bar>x\<bar> - 23) (- 149)) in of_int (round_even (x / u)) * u)"

definition fmt_v32 :: "f64 \<Rightarrow> string" where
  "fmt_v32 a =
     (case a of
        Fin x \<Rightarrow>
          (if x = 0 then ''0''
           else let n = (case find (\<lambda>n. let (m, t) = decimal_at n \<bar>x\<bar> in rnd_rat32 (of_int m * 10 powi (t + 1 - n)) = \<bar>x\<bar>)
                          [1..9] of Some n \<Rightarrow> n | None \<Rightarrow> 9);
                    (m, t) = decimal_at n \<bar>x\<bar>; ds = dec_str m
                in (if x < 0 then ''-'' else []) @ (if t < - 4 \<or> 6 \<le> t then fmt_exp ds t else fmt_fixed ds t))
      | _ \<Rightarrow> fmt_special a)"

text \<open>The 64-bit value of a number, the type switch of \<open>valueAsInt32\<close>.\<close>

definition value_as_int64 :: "raw \<Rightarrow> go_error + int" where
  "value_as_int64 value =
     (case value of
        RInt t n \<Rightarrow> Inr n
      | RUint t n \<Rightarrow> if 2 ^ 63 \<le> n then Inl (text_overflow (fmt_d n)) else Inr n
      | RFloat32 f \<Rightarrow> if \<not> is_integral f then Inl (errorf (''value '' @ fmt_v32 f @ '' is not an integer'')) else Inr (int64_of_float f)
      | RFloat64 f \<Rightarrow> if \<not> is_integral f then Inl (errorf (''value '' @ fmt_v f @ '' is not an integer'')) else Inr (int64_of_float f)
      | RNumber s \<Rightarrow> ParseInt_err 64 s
      | RString s \<Rightarrow> ParseInt_err 64 s
      | _ \<Rightarrow> Inl (errorf (''value has type '' @ go_type value @ '', want integer'')))"

definition valueAsInt32 :: "raw \<Rightarrow> go_error + i32" where
  "valueAsInt32 value =
     (case value_as_int64 value of
        Inl e \<Rightarrow> Inl e
      | Inr parsed \<Rightarrow>
          if parsed < - (2 ^ 31) \<or> 2 ^ 31 - 1 < parsed then Inl (errorf (''value '' @ fmt_d parsed @ '' overflows int32''))
          else Inr (of_int parsed))"

definition scalarText :: "raw \<Rightarrow> go_error + string" where
  "scalarText value =
     (case value of
        RString s \<Rightarrow> Inr s
      | RNumber s \<Rightarrow> Inr s
      | RInt t n \<Rightarrow> Inr (fmt_d n)
      | RUint t n \<Rightarrow> Inr (fmt_d n)
      | RFloat32 f \<Rightarrow> Inr (fmt_v32 f)
      | RFloat64 f \<Rightarrow> Inr (fmt_v f)
      | _ \<Rightarrow> Inl (errorf (''value has type '' @ go_type value @ '', want string or number'')))"

section \<open>Fields\<close>

text \<open>The lookup that every reader begins with; \<open>absent\<close> is the zero value.\<close>

definition field_at :: "raw_api \<Rightarrow> raw gomap \<Rightarrow> string list \<Rightarrow> 'a \<Rightarrow> (raw \<Rightarrow> go_error + 'a) \<Rightarrow> go_error + 'a" where
  "field_at api object path absent decode =
     (case ra_nested api object path of
        Inl e \<Rightarrow> Inl (errorw (''read '' @ fieldPath path @ '': '') e)
      | Inr None \<Rightarrow> Inr absent
      | Inr (Some value) \<Rightarrow> decode value)"

definition wrong_type :: "string list \<Rightarrow> raw \<Rightarrow> string \<Rightarrow> go_error" where
  "wrong_type path value want = errorf (fieldPath path @ '' has type '' @ go_type value @ '', want '' @ want)"

definition stringAt :: "raw_api \<Rightarrow> raw gomap \<Rightarrow> string list \<Rightarrow> go_error + string" where
  "stringAt api object path = field_at api object path ''''
     (\<lambda>value. case value of RString s \<Rightarrow> Inr s | _ \<Rightarrow> Inl (wrong_type path value ''string''))"

definition boolAt :: "raw_api \<Rightarrow> raw gomap \<Rightarrow> string list \<Rightarrow> go_error + bool" where
  "boolAt api object path = field_at api object path False
     (\<lambda>value. case value of RBool b \<Rightarrow> Inr b | _ \<Rightarrow> Inl (wrong_type path value ''bool''))"

definition parse_wrap :: "string \<Rightarrow> go_error + 'a \<Rightarrow> go_error + 'a" where
  "parse_wrap place r = (case r of Inl e \<Rightarrow> Inl (errorw (''parse '' @ place @ '': '') e) | Inr v \<Rightarrow> Inr v)"

definition int32At :: "raw_api \<Rightarrow> raw gomap \<Rightarrow> string list \<Rightarrow> go_error + i32" where
  "int32At api object path = field_at api object path 0 (\<lambda>value. parse_wrap (fieldPath path) (valueAsInt32 value))"

definition optionalInt32At :: "raw_api \<Rightarrow> raw gomap \<Rightarrow> string list \<Rightarrow> go_error + i32 option" where
  "optionalInt32At api object path = field_at api object path None
     (\<lambda>value. case parse_wrap (fieldPath path) (valueAsInt32 value) of Inl e \<Rightarrow> Inl e | Inr n \<Rightarrow> Inr (Some n))"

text \<open>A loop over the entries of an object, in the iteration order of the map, that stops at an error.\<close>

fun entries_loop :: "(string \<Rightarrow> raw \<Rightarrow> go_error + 'a) \<Rightarrow> raw gomap \<Rightarrow> 'a gomap \<Rightarrow> go_error + 'a gomap" where
  "entries_loop decode [] result = Inr result"
| "entries_loop decode ((name, value) # entries) result =
     (case decode name value of
        Inl e \<Rightarrow> Inl e
      | Inr v \<Rightarrow> entries_loop decode entries (gm_set name v result))"

definition int32MapAt :: "raw_api \<Rightarrow> raw gomap \<Rightarrow> string list \<Rightarrow> go_error + i32 gomap" where
  "int32MapAt api object path = field_at api object path []
     (\<lambda>value. case value of
        RMap source \<Rightarrow> entries_loop (\<lambda>name v. parse_wrap (fieldPath path @ ''.'' @ name) (valueAsInt32 v)) source []
      | _ \<Rightarrow> Inl (wrong_type path value ''object''))"

definition quantity_entry :: "raw_api \<Rightarrow> string list \<Rightarrow> string \<Rightarrow> raw \<Rightarrow> go_error + quantity" where
  "quantity_entry api path name v =
     (case parse_wrap (fieldPath path @ ''.'' @ name) (scalarText v) of
        Inl e \<Rightarrow> Inl e
      | Inr quantityText \<Rightarrow>
          (case ra_quantity api quantityText of
             Inl e \<Rightarrow> Inl (errorw (''parse '' @ fieldPath path @ ''.'' @ name @ '' quantity '' @ fmt_q quantityText @ '': '') e)
           | Inr quantity \<Rightarrow> Inr quantity))"

text \<open>\<open>None\<close> is the nil list of an absent field.\<close>

definition resourceListAt :: "raw_api \<Rightarrow> raw gomap \<Rightarrow> string list \<Rightarrow> go_error + resource_list option" where
  "resourceListAt api object path = field_at api object path None
     (\<lambda>value. case value of
        RMap source \<Rightarrow> (case entries_loop (quantity_entry api path) source [] of Inl e \<Rightarrow> Inl e | Inr rs \<Rightarrow> Inr (Some rs))
      | _ \<Rightarrow> Inl (wrong_type path value ''object''))"

section \<open>PodGroups and Queues\<close>

definition and_then :: "go_error + 'a \<Rightarrow> ('a \<Rightarrow> go_error + 'b) \<Rightarrow> go_error + 'b" where
  "and_then r f = (case r of Inl e \<Rightarrow> Inl e | Inr v \<Rightarrow> f v)"

lemma and_then_simps [simp]: "and_then (Inl e) f = Inl e" "and_then (Inr v) f = f v"
  by (simp_all add: and_then_def)

definition podGroupConditionFromMap :: "raw_api \<Rightarrow> raw gomap \<Rightarrow> go_error + pod_group_condition" where
  "podGroupConditionFromMap api condition =
     and_then (stringAt api condition [''type'']) (\<lambda>conditionType.
     and_then (stringAt api condition [''status'']) (\<lambda>status.
     and_then (stringAt api condition [''transitionID'']) (\<lambda>transitionID.
     and_then (stringAt api condition [''reason'']) (\<lambda>reason.
     and_then (stringAt api condition [''message'']) (\<lambda>message.
     and_then (stringAt api condition [''lastTransitionTime'']) (\<lambda>lastTransitionTime.
       Inr \<lparr>pc_type = conditionType, pc_status = status, pc_transition_id = transitionID, pc_reason = reason,
            pc_message = message, pc_last_transition = lastTransitionTime\<rparr>))))))"

fun conditions_loop ::
  "raw_api \<Rightarrow> string \<Rightarrow> nat \<Rightarrow> raw list \<Rightarrow> pod_group_condition list \<Rightarrow> go_error + pod_group_condition list" where
  "conditions_loop api place index [] result = Inr result"
| "conditions_loop api place index (value # values) result =
     (case value of
        RMap condition \<Rightarrow>
          (case podGroupConditionFromMap api condition of
             Inl e \<Rightarrow> Inl (errorw (''parse '' @ place @ ''['' @ fmt_n index @ '']: '') e)
           | Inr parsed \<Rightarrow> conditions_loop api place (Suc index) values (result @ [parsed]))
      | _ \<Rightarrow> Inl (errorf (place @ ''['' @ fmt_n index @ ''] has type '' @ go_type value @ '', want object'')))"

definition podGroupConditionsAt :: "raw_api \<Rightarrow> raw gomap \<Rightarrow> string list \<Rightarrow> go_error + pod_group_condition list" where
  "podGroupConditionsAt api object path = field_at api object path []
     (\<lambda>value. case value of
        RList source \<Rightarrow> conditions_loop api (fieldPath path) 0 source []
      | _ \<Rightarrow> Inl (wrong_type path value ''array''))"

text \<open>An object of the dynamic informer: its content and the metadata its accessors return.\<close>

record unstructured =
  uo_object :: "raw gomap"
  uo_namespace :: string
  uo_name :: string
  uo_uid :: string
  uo_version :: string
  uo_created :: gotime

definition podGroupFromUnstructured :: "raw_api \<Rightarrow> unstructured \<Rightarrow> go_error + pod_group" where
  "podGroupFromUnstructured api object =
     (let obj = uo_object object in
     and_then (int32At api obj [''spec'', ''minMember'']) (\<lambda>minMember.
     and_then (int32MapAt api obj [''spec'', ''minTaskMember'']) (\<lambda>minTaskMember.
     and_then (resourceListAt api obj [''spec'', ''minResources'']) (\<lambda>minResources.
     and_then (stringAt api obj [''spec'', ''queue'']) (\<lambda>queue.
     and_then (stringAt api obj [''spec'', ''priorityClassName'']) (\<lambda>priorityClassName.
     and_then (optionalInt32At api obj [''spec'', ''priority'']) (\<lambda>priority.
     and_then (stringAt api obj [''status'', ''phase'']) (\<lambda>phase.
     and_then (podGroupConditionsAt api obj [''status'', ''conditions'']) (\<lambda>conditions.
     and_then (int32At api obj [''status'', ''running'']) (\<lambda>running.
     and_then (int32At api obj [''status'', ''succeeded'']) (\<lambda>succeeded.
     and_then (int32At api obj [''status'', ''failed'']) (\<lambda>failed.
       Inr \<lparr>pg_namespace = uo_namespace object, pg_name = uo_name object, pg_uid = uo_uid object,
            pg_version = uo_version object, pg_created = uo_created object, pg_queue = queue,
            pg_priority_class = priorityClassName, pg_priority = priority, pg_min_member = minMember,
            pg_min_task_member = minTaskMember, pg_min_resources = minResources, pg_phase = phase,
            pg_conditions = conditions, pg_running = running, pg_succeeded = succeeded, pg_failed = failed\<rparr>))))))))))))"

definition or_nil :: "resource_list option \<Rightarrow> resource_list" where
  "or_nil r = (case r of None \<Rightarrow> [] | Some rs \<Rightarrow> rs)"

definition queueFromUnstructured :: "raw_api \<Rightarrow> unstructured \<Rightarrow> go_error + queue" where
  "queueFromUnstructured api object =
     (let obj = uo_object object in
     and_then (stringAt api obj [''status'', ''state'']) (\<lambda>state.
     and_then (stringAt api obj [''spec'', ''type'']) (\<lambda>queueType.
     and_then (stringAt api obj [''spec'', ''parent'']) (\<lambda>parent.
     and_then (int32At api obj [''spec'', ''weight'']) (\<lambda>weight.
     and_then (boolAt api obj [''spec'', ''reclaimable'']) (\<lambda>reclaimable.
     and_then (resourceListAt api obj [''spec'', ''guarantee'', ''resource'']) (\<lambda>guarantee.
     and_then (resourceListAt api obj [''spec'', ''capability'']) (\<lambda>capability.
     and_then (resourceListAt api obj [''spec'', ''deserved'']) (\<lambda>deserved.
     and_then (resourceListAt api obj [''status'', ''allocated'']) (\<lambda>allocated.
     and_then (int32At api obj [''status'', ''pending'']) (\<lambda>pending.
     and_then (int32At api obj [''status'', ''inqueue'']) (\<lambda>inqueue.
     and_then (int32At api obj [''status'', ''running'']) (\<lambda>running.
     and_then (int32At api obj [''status'', ''completed'']) (\<lambda>completed.
     and_then (int32At api obj [''status'', ''unknown'']) (\<lambda>unknown.
       Inr \<lparr>qu_name = uo_name object, qu_uid = uo_uid object, qu_version = uo_version object, qu_state = state,
            qu_type = queueType, qu_parent = parent, qu_weight = weight, qu_reclaimable = reclaimable,
            qu_guarantee = or_nil guarantee, qu_capability = or_nil capability, qu_deserved = or_nil deserved,
            qu_allocated = or_nil allocated, qu_pending = pending, qu_inqueue = inqueue, qu_running = running,
            qu_completed = completed, qu_unknown = unknown\<rparr>)))))))))))))))"

section \<open>The caches\<close>

text \<open>
  The listers of the dynamic informers; \<open>vr_available\<close> is false when the client was built without
  them. A lister returns an error, an object of another Go type (its name) or an untyped object. A
  priority class is its value and whether it is the global default.
\<close>

record volcano_api =
  vr_raw :: raw_api
  vr_ctx_err :: "go_error option"
  vr_available :: bool
  vr_pod_group :: "string \<Rightarrow> string \<Rightarrow> go_error + string + unstructured"
  vr_queue :: "string \<Rightarrow> go_error + string + unstructured"
  vr_queues :: "go_error + (string + unstructured) list"
  vr_pod_groups :: "(string + unstructured) list"
  vr_index_err :: "go_error option"
  vr_priorities :: bool
  vr_priority :: "string \<Rightarrow> go_error + i32"
  vr_priority_list :: "go_error + (i32 \<times> bool) list"

definition ErrCacheUnavailable :: go_error where
  "ErrCacheUnavailable = \<lparr>err_text = ''Volcano resource informer cache unavailable'',
     err_chain = [ErrVolcanoResourceCacheUnavailable]\<rparr>"

definition resolvePodGroupPriority :: "volcano_api \<Rightarrow> pod_group \<Rightarrow> pod_group" where
  "resolvePodGroupPriority api podGroup =
     (if pg_priority podGroup \<noteq> None \<or> \<not> vr_priorities api then podGroup
      else if pg_priority_class podGroup \<noteq> '''' then
        (case vr_priority api (pg_priority_class podGroup) of
           Inl e \<Rightarrow> podGroup
         | Inr priority \<Rightarrow> podGroup\<lparr>pg_priority := Some priority\<rparr>)
      else
        (case vr_priority_list api of
           Inl e \<Rightarrow> podGroup
         | Inr priorityClasses \<Rightarrow>
             podGroup\<lparr>pg_priority := Some (case find snd priorityClasses of Some c \<Rightarrow> fst c | None \<Rightarrow> 0)\<rparr>))"

definition GetPodGroup :: "volcano_api \<Rightarrow> string \<Rightarrow> string \<Rightarrow> pod_group \<times> go_error option" where
  "GetPodGroup api namespace name =
     (let place = namespace @ ''/'' @ name in
     case vr_ctx_err api of Some e \<Rightarrow> (empty_pod_group, Some e) | None \<Rightarrow>
     if \<not> vr_available api then (empty_pod_group, Some (errorw (''get PodGroup '' @ place @ '': '') ErrCacheUnavailable))
     else (case vr_pod_group api namespace name of
        Inl e \<Rightarrow> (empty_pod_group, Some (errorw (''get PodGroup '' @ place @ '' from informer cache: '') e))
      | Inr (Inl other) \<Rightarrow> (empty_pod_group, Some (errorf (''PodGroup informer cache returned '' @ other)))
      | Inr (Inr object) \<Rightarrow>
          (case podGroupFromUnstructured (vr_raw api) object of
             Inl e \<Rightarrow> (empty_pod_group, Some (errorw (''decode PodGroup '' @ place @ '' from informer cache: '') e))
           | Inr result \<Rightarrow> (resolvePodGroupPriority api result, None))))"

definition GetQueue :: "volcano_api \<Rightarrow> string \<Rightarrow> queue \<times> go_error option" where
  "GetQueue api name =
     (case vr_ctx_err api of Some e \<Rightarrow> (empty_queue, Some e) | None \<Rightarrow>
     if \<not> vr_available api then (empty_queue, Some (errorw (''get Queue '' @ name @ '': '') ErrCacheUnavailable))
     else (case vr_queue api name of
        Inl e \<Rightarrow> (empty_queue, Some (errorw (''get Queue '' @ name @ '' from informer cache: '') e))
      | Inr (Inl other) \<Rightarrow> (empty_queue, Some (errorf (''Queue informer cache returned '' @ other)))
      | Inr (Inr object) \<Rightarrow>
          (case queueFromUnstructured (vr_raw api) object of
             Inl e \<Rightarrow> (empty_queue, Some (errorw (''decode Queue '' @ name @ '' from informer cache: '') e))
           | Inr result \<Rightarrow> (result, None))))"

fun queues_loop :: "raw_api \<Rightarrow> (string + unstructured) list \<Rightarrow> queue list \<Rightarrow> go_error + queue list" where
  "queues_loop api [] result = Inr result"
| "queues_loop api (Inl other # objects) result = queues_loop api objects result"
| "queues_loop api (Inr object # objects) result =
     (case queueFromUnstructured api object of
        Inl e \<Rightarrow> Inl (errorw (''decode Queue '' @ uo_name object @ '' from informer cache: '') e)
      | Inr queue \<Rightarrow> queues_loop api objects (result @ [queue]))"

definition ListQueues :: "volcano_api \<Rightarrow> go_error + queue list" where
  "ListQueues api =
     (case vr_ctx_err api of Some e \<Rightarrow> Inl e | None \<Rightarrow>
     if \<not> vr_available api then Inl (errorw ''list Queues: '' ErrCacheUnavailable)
     else (case vr_queues api of
        Inl e \<Rightarrow> Inl (errorw ''list Queues from informer cache: '' e)
      | Inr objects \<Rightarrow>
          (case queues_loop (vr_raw api) objects [] of
             Inl e \<Rightarrow> Inl e
           | Inr result \<Rightarrow> Inr (sort_key qu_name result))))"

definition podGroupUnspecifiedQueue :: string where
  "podGroupUnspecifiedQueue = ''__volens_unspecified_queue__''"

definition podGroupQueueIndexKeys :: "raw_api \<Rightarrow> string + unstructured \<Rightarrow> go_error + string list" where
  "podGroupQueueIndexKeys api object =
     (case object of
        Inl other \<Rightarrow> Inl (errorf (''PodGroup queue index received '' @ other))
      | Inr podGroup \<Rightarrow>
          (case stringAt api (uo_object podGroup) [''spec'', ''queue''] of
             Inl e \<Rightarrow> Inl e
           | Inr queueName \<Rightarrow> Inr (if queueName = '''' then [podGroupUnspecifiedQueue] else [queueName])))"

text \<open>
  \<open>ByIndex\<close>: the objects whose keys contain the value. The index of client-go cannot hold an object
  whose keys are an error (it panics when one is added), so such an object is never found.
\<close>

definition pod_groups_by_queue :: "volcano_api \<Rightarrow> string \<Rightarrow> go_error + (string + unstructured) list" where
  "pod_groups_by_queue api indexValue =
     (case vr_index_err api of
        Some e \<Rightarrow> Inl e
      | None \<Rightarrow> Inr (filter (\<lambda>object. case podGroupQueueIndexKeys (vr_raw api) object of
            Inl e \<Rightarrow> False | Inr keys \<Rightarrow> List.member keys indexValue) (vr_pod_groups api)))"

text \<open>On an error the PodGroups decoded so far are returned with it.\<close>

fun pod_groups_loop ::
  "volcano_api \<Rightarrow> (string + unstructured) list \<Rightarrow> pod_group list \<Rightarrow> pod_group list \<times> go_error option" where
  "pod_groups_loop api [] result = (result, None)"
| "pod_groups_loop api (Inl other # objects) result = pod_groups_loop api objects result"
| "pod_groups_loop api (Inr object # objects) result =
     (case podGroupFromUnstructured (vr_raw api) object of
        Inl e \<Rightarrow> (result, Some (errorw (''decode PodGroup '' @ uo_namespace object @ ''/'' @ uo_name object
                   @ '' from informer cache: '') e))
      | Inr decoded \<Rightarrow> pod_groups_loop api objects (result @ [resolvePodGroupPriority api decoded]))"

fun index_values_loop ::
  "volcano_api \<Rightarrow> string \<Rightarrow> string list \<Rightarrow> pod_group list \<Rightarrow> pod_group list \<times> go_error option" where
  "index_values_loop api queueName [] result = (result, None)"
| "index_values_loop api queueName (indexValue # values) result =
     (case pod_groups_by_queue api indexValue of
        Inl e \<Rightarrow> (result, Some (errorw (''list PodGroups for Queue '' @ queueName @ '' from informer cache: '') e))
      | Inr objects \<Rightarrow>
          (case pod_groups_loop api objects result of
             (result', Some e) \<Rightarrow> (result', Some e)
           | (result', None) \<Rightarrow> index_values_loop api queueName values result'))"

definition pod_group_key :: "pod_group \<Rightarrow> string" where
  "pod_group_key podGroup = pg_namespace podGroup @ ''/'' @ pg_name podGroup"

definition ListPodGroupsForQueue :: "volcano_api \<Rightarrow> string \<Rightarrow> string \<Rightarrow> pod_group list \<times> go_error option" where
  "ListPodGroupsForQueue api queueName defaultQueueName =
     (case vr_ctx_err api of Some e \<Rightarrow> ([], Some e) | None \<Rightarrow>
     if \<not> vr_available api then
       ([], Some (errorw (''list PodGroups for Queue '' @ queueName @ '': '') ErrCacheUnavailable))
     else
       (let indexValues = [queueName] @
              (if queueName \<noteq> '''' \<and> queueName = defaultQueueName then [podGroupUnspecifiedQueue] else [])
        in case index_values_loop api queueName indexValues [] of
             (result, Some e) \<Rightarrow> (result, Some e)
           | (result, None) \<Rightarrow> (sort_key pod_group_key result, None)))"

definition podGroupIndexKeys :: "pod \<Rightarrow> string list" where
  "podGroupIndexKeys pod =
     (let name = gm_or '''' (pod_annotations pod) ''scheduling.k8s.io/group-name''
      in if name = '''' then [] else [pod_namespace pod @ ''/'' @ name])"

definition ListPodsForPodGroup :: "client_api \<Rightarrow> string \<Rightarrow> string \<Rightarrow> go_error + pod list" where
  "ListPodsForPodGroup api namespace podGroupName =
     (case ka_ctx_err api of
        Some e \<Rightarrow> Inl e
      | None \<Rightarrow>
          (case by_index api podGroupIndexKeys (namespace @ ''/'' @ podGroupName) of
             Inl e \<Rightarrow> Inl (errorw (''list Pods for PodGroup '' @ namespace @ ''/'' @ podGroupName @ '' from informer cache: '') e)
           | Inr objects \<Rightarrow> Inr (sort_key pod_name objects)))"

section \<open>Numbers are decoded exactly\<close>

definition float_int :: "f64 \<Rightarrow> int option" where
  "float_int f = (case f of Fin x \<Rightarrow> if of_int \<lfloor>x\<rfloor> = x then Some \<lfloor>x\<rfloor> else None | _ \<Rightarrow> None)"

text \<open>The integer a value stands for, without any bound.\<close>

definition int_value :: "raw \<Rightarrow> int option" where
  "int_value v =
     (case v of
        RInt t n \<Rightarrow> Some n
      | RUint t n \<Rightarrow> Some n
      | RFloat32 f \<Rightarrow> float_int f
      | RFloat64 f \<Rightarrow> float_int f
      | RNumber s \<Rightarrow> ParseInt 64 s
      | RString s \<Rightarrow> ParseInt 64 s
      | _ \<Rightarrow> None)"

lemma int32_range: "\<not> (n < - (2 ^ 31) \<or> 2 ^ 31 - 1 < n) \<longleftrightarrow> in_bits 32 n" for n :: int
  by (auto simp: in_bits_def)

lemma float_int32:
  "case float_int f of
     Some n \<Rightarrow> is_integral f \<and> (in_bits 32 n \<longrightarrow> int64_of_float f = n) \<and> (\<not> in_bits 32 n \<longrightarrow> \<not> in_bits 32 (int64_of_float f))
   | None \<Rightarrow> \<not> is_integral f \<or> \<not> in_bits 32 (int64_of_float f)"
  by (cases f) (auto simp: float_int_def is_integral_def int64_of_float_def in_bits_def)

lemma valueAsInt32_of:
  assumes "value_as_int64 v = Inr m"
  shows "valueAsInt32 v = (if in_bits 32 m then Inr (of_int m) else Inl (errorf (''value '' @ fmt_d m @ '' overflows int32'')))"
  unfolding valueAsInt32_def assms sum.case by (cases "in_bits 32 m") (auto simp: int32_range [symmetric])

text \<open>
  A value of any dynamic type is decoded to an \<open>int32\<close> exactly when it stands for an integer that
  fits, and then to that integer: nothing is truncated, rounded or wrapped around, and everything else is an
  error.
\<close>
theorem int32_decoded_exactly:
  "valueAsInt32 v = Inr w \<longleftrightarrow> (case int_value v of None \<Rightarrow> False | Some n \<Rightarrow> in_bits 32 n \<and> w = of_int n)"
proof -
  have fl: "(case (if \<not> is_integral f then Inl e else Inr (int64_of_float f)) of
        Inl e \<Rightarrow> Inl e
      | Inr m \<Rightarrow> if in_bits 32 m then Inr (of_int m) else Inl (g m)) = Inr w
      \<longleftrightarrow> (case float_int f of None \<Rightarrow> False | Some n \<Rightarrow> in_bits 32 n \<and> w = of_int n)"
    for f and e :: go_error and g :: "int \<Rightarrow> go_error"
    using float_int32 [of f] by (auto split: option.splits)
  have val: "valueAsInt32 v = (case value_as_int64 v of Inl e \<Rightarrow> Inl e
      | Inr m \<Rightarrow> if in_bits 32 m then Inr (of_int m) else Inl (errorf (''value '' @ fmt_d m @ '' overflows int32'')))"
    by (cases "value_as_int64 v") (auto simp: valueAsInt32_of, simp add: valueAsInt32_def)
  have str: "(case ParseInt_err 64 s of Inl e \<Rightarrow> Inl e | Inr m \<Rightarrow> if in_bits 32 m then Inr (of_int m) else Inl (g m)) = Inr w
      \<longleftrightarrow> (case ParseInt 64 s of None \<Rightarrow> False | Some n \<Rightarrow> in_bits 32 n \<and> w = of_int n)"
    for s and g :: "int \<Rightarrow> go_error"
    by (auto simp: ParseInt_err_def split: option.splits)
  have int: "(if in_bits 32 m then Inr (of_int m) else Inl (g m)) = Inr w \<longleftrightarrow> in_bits 32 m \<and> w = of_int m"
    for m and g :: "int \<Rightarrow> go_error" by auto
  have big: "2 ^ 63 \<le> m \<Longrightarrow> \<not> in_bits 32 m" for m :: int by (simp add: in_bits_def)
  show ?thesis unfolding val
    by (cases v) (auto simp: value_as_int64_def int_value_def fl str int big)
qed

section \<open>Encoding and decoding\<close>

text \<open>
  What the lookup of nested fields promises: a path of one field is a map lookup, a longer one goes on in
  the object found, and a missing field is no error. Quantities are read from their own text.
\<close>

definition nested_ok :: "raw_api \<Rightarrow> bool" where
  "nested_ok api \<longleftrightarrow>
     (\<forall>m k. ra_nested api m [k] = Inr (gm_get m k))
     \<and> (\<forall>m k m' k' ks. gm_get m k = Some (RMap m') \<longrightarrow> ra_nested api m (k # k' # ks) = ra_nested api m' (k' # ks))"

definition quantities_readable :: "raw_api \<Rightarrow> (quantity \<Rightarrow> string) \<Rightarrow> resource_list option \<Rightarrow> bool" where
  "quantities_readable api show_quantity resources =
     (case resources of
        None \<Rightarrow> True
      | Some rs \<Rightarrow> gm_ok rs \<and> list_all (\<lambda>(k, q). ra_quantity api (show_quantity q) = Inr q) rs)"

definition raw_int :: "i32 \<Rightarrow> raw" where
  "raw_int w = RInt ''int64'' (sint w)"

definition raw_condition :: "pod_group_condition \<Rightarrow> raw" where
  "raw_condition c = RMap [(''type'', RString (pc_type c)), (''status'', RString (pc_status c)),
     (''transitionID'', RString (pc_transition_id c)), (''reason'', RString (pc_reason c)),
     (''message'', RString (pc_message c)), (''lastTransitionTime'', RString (pc_last_transition c))]"

definition raw_quantities :: "(quantity \<Rightarrow> string) \<Rightarrow> resource_list \<Rightarrow> raw" where
  "raw_quantities show_quantity rs = RMap (map (\<lambda>(k, q). (k, RString (show_quantity q))) rs)"

definition encode_pod_group :: "(quantity \<Rightarrow> string) \<Rightarrow> pod_group \<Rightarrow> unstructured" where
  "encode_pod_group show_quantity pg =
     \<lparr>uo_object =
        [(''spec'', RMap ([(''minMember'', raw_int (pg_min_member pg)),
            (''minTaskMember'', RMap (map (\<lambda>(k, n). (k, raw_int n)) (pg_min_task_member pg))),
            (''queue'', RString (pg_queue pg)), (''priorityClassName'', RString (pg_priority_class pg))]
           @ (case pg_min_resources pg of None \<Rightarrow> [] | Some rs \<Rightarrow> [(''minResources'', raw_quantities show_quantity rs)])
           @ (case pg_priority pg of None \<Rightarrow> [] | Some n \<Rightarrow> [(''priority'', raw_int n)]))),
         (''status'', RMap [(''phase'', RString (pg_phase pg)),
            (''conditions'', RList (map raw_condition (pg_conditions pg))), (''running'', raw_int (pg_running pg)),
            (''succeeded'', raw_int (pg_succeeded pg)), (''failed'', raw_int (pg_failed pg))])],
      uo_namespace = pg_namespace pg, uo_name = pg_name pg, uo_uid = pg_uid pg, uo_version = pg_version pg,
      uo_created = pg_created pg\<rparr>"

lemma parse_wrap_Inr [simp]: "parse_wrap place (Inr v) = Inr v"
  by (simp add: parse_wrap_def)

lemma valueAsInt32_raw [simp]: "valueAsInt32 (raw_int w) = Inr w"
proof -
  have "in_bits 32 (sint w)" using sint_lt [of w] sint_ge [of w] by (simp add: in_bits_def)
  then show ?thesis using valueAsInt32_of [of "raw_int w" "sint w"] by (simp add: raw_int_def value_as_int64_def)
qed

lemma entries_loop_encoded:
  assumes "\<And>k v. (k, v) \<in> set m \<Longrightarrow> decode k (f v) = Inr v"
  shows "distinct (gm_keys acc @ gm_keys m) \<Longrightarrow> entries_loop decode (map (\<lambda>(k, v). (k, f v)) m) acc = Inr (acc @ m)"
  using assms
proof (induction m arbitrary: acc)
  case (Cons e m)
  obtain k v where e: "e = (k, v)" by force
  have "k \<notin> set (gm_keys acc)" using Cons.prems(1) by (simp add: e gm_keys_def)
  then have "gm_set k v acc = acc @ [(k, v)]"
    by (induction acc) (auto simp: gm_set_def gm_keys_def)
  moreover have "entries_loop decode (map (\<lambda>(k, v). (k, f v)) m) (acc @ [(k, v)]) = Inr ((acc @ [(k, v)]) @ m)"
    by (rule Cons.IH) (use Cons.prems in \<open>auto simp: e gm_keys_def\<close>)
  ultimately show ?case using Cons.prems(2) by (simp add: e)
qed simp

lemma conditions_loop_encoded:
  assumes "nested_ok api"
  shows "conditions_loop api place i (map raw_condition cs) acc = Inr (acc @ cs)"
proof (induction cs arbitrary: i acc)
  case (Cons c cs)
  have n: "ra_nested api m [k] = Inr (gm_get m k)" for m k using assms by (simp add: nested_ok_def)
  have "podGroupConditionFromMap api [(''type'', RString (pc_type c)), (''status'', RString (pc_status c)),
     (''transitionID'', RString (pc_transition_id c)), (''reason'', RString (pc_reason c)),
     (''message'', RString (pc_message c)), (''lastTransitionTime'', RString (pc_last_transition c))] = Inr c"
    by (simp add: podGroupConditionFromMap_def stringAt_def field_at_def n gm_get_Cons)
  then show ?case using Cons by (simp add: raw_condition_def)
qed simp

text \<open>C21: Decoding undoes encoding: a PodGroup written as the untyped object of the informer, with its
  numbers, quantities and conditions, is read back unchanged, absent priorities and resources included.
\<close>
theorem pod_group_roundtrip:
  assumes "nested_ok api" and "quantities_readable api show_quantity (pg_min_resources pg)"
    and "gm_ok (pg_min_task_member pg)"
  shows "podGroupFromUnstructured api (encode_pod_group show_quantity pg) = Inr pg"
proof -
  have n: "ra_nested api m [k] = Inr (gm_get m k)" for m k using assms(1) by (simp add: nested_ok_def)
  have nn: "gm_get m k = Some (RMap m') \<Longrightarrow> ra_nested api m [k, k'] = Inr (gm_get m' k')" for m k m' k'
    using assms(1) by (simp add: nested_ok_def)
  have tasks: "entries_loop (\<lambda>name v. parse_wrap (place name) (valueAsInt32 v))
      (map (\<lambda>(k, n). (k, raw_int n)) (pg_min_task_member pg)) [] = Inr (pg_min_task_member pg)" for place
    using entries_loop_encoded [of "pg_min_task_member pg" "\<lambda>name v. parse_wrap (place name) (valueAsInt32 v)" raw_int "[]"] assms(3)
    by (simp add: parse_wrap_def gm_ok_def gm_keys_def)
  have quantities: "entries_loop (quantity_entry api path) (map (\<lambda>(k, q). (k, RString (show_quantity q))) rs) [] = Inr rs"
    if "pg_min_resources pg = Some rs" for path rs
    using entries_loop_encoded [of rs "quantity_entry api path" "\<lambda>q. RString (show_quantity q)" "[]"] that assms(2)
    by (force simp: quantity_entry_def scalarText_def quantities_readable_def gm_ok_def gm_keys_def list_all_iff)
  show ?thesis
    by (cases "pg_min_resources pg"; cases "pg_priority pg")
      (simp_all add: podGroupFromUnstructured_def encode_pod_group_def int32At_def int32MapAt_def resourceListAt_def stringAt_def
        optionalInt32At_def podGroupConditionsAt_def field_at_def nn gm_get_Cons tasks quantities raw_quantities_def
        conditions_loop_encoded [OF assms(1)])
qed

text \<open>The documented lookup and a quantity text, to show that such functions exist.\<close>

fun lookup_path :: "raw gomap \<Rightarrow> string list \<Rightarrow> go_error + raw option" where
  "lookup_path m [] = Inr (Some (RMap m))"
| "lookup_path m [k] = Inr (gm_get m k)"
| "lookup_path m (k # k' # ks) =
     (case gm_get m k of
        None \<Rightarrow> Inr None
      | Some RNil \<Rightarrow> Inr None
      | Some (RMap m') \<Rightarrow> lookup_path m' (k' # ks)
      | Some v \<Rightarrow> Inl (errorf ''accessor error''))"

definition sample_api :: raw_api where
  "sample_api = \<lparr>ra_nested = lookup_path, ra_quantity = (\<lambda>text. if text = ''4''
     then Inr \<lparr>q_value = 4, q_milli = 4000, q_is_zero = False\<rparr> else Inl (errorf ''quantities must match the regular expression''))\<rparr>"

definition sample_pod_group :: pod_group where
  "sample_pod_group = empty_pod_group\<lparr>pg_name := ''j'', pg_queue := ''q'', pg_min_member := - 1, pg_priority := Some 7,
     pg_min_task_member := [(''ps'', 1), (''worker'', 3)],
     pg_min_resources := Some [(''cpu'', \<lparr>q_value = 4, q_milli = 4000, q_is_zero = False\<rparr>)]\<rparr>"

lemma pod_group_roundtrip_witness:
  "podGroupFromUnstructured sample_api (encode_pod_group (\<lambda>q. ''4'') sample_pod_group) = Inr sample_pod_group"
  by (rule pod_group_roundtrip)
    (simp_all add: nested_ok_def sample_api_def quantities_readable_def sample_pod_group_def empty_pod_group_def gm_ok_def)

section \<open>The PodGroups of a queue\<close>

text \<open>The queue a stored PodGroup names; \<open>None\<close> when its field is no string.\<close>

definition stored_queue :: "raw_api \<Rightarrow> unstructured \<Rightarrow> string option" where
  "stored_queue api object =
     (case stringAt api (uo_object object) [''spec'', ''queue''] of Inl e \<Rightarrow> None | Inr name \<Rightarrow> Some name)"

definition of_queue :: "raw_api \<Rightarrow> string \<Rightarrow> string \<Rightarrow> unstructured \<Rightarrow> bool" where
  "of_queue api queueName defaultQueueName object \<longleftrightarrow> queueName \<noteq> '''' \<and>
     (stored_queue api object = Some queueName
      \<or> stored_queue api object \<in> {Some '''', Some podGroupUnspecifiedQueue} \<and> queueName = defaultQueueName)"

definition decoded :: "volcano_api \<Rightarrow> unstructured \<Rightarrow> pod_group" where
  "decoded api object = resolvePodGroupPriority api (projr (podGroupFromUnstructured (vr_raw api) object))"

definition stored_objects :: "volcano_api \<Rightarrow> unstructured list" where
  "stored_objects api = concat (map (\<lambda>x. case x of Inl other \<Rightarrow> [] | Inr object \<Rightarrow> [object]) (vr_pod_groups api))"

definition keys_are :: "raw_api \<Rightarrow> string \<Rightarrow> unstructured \<Rightarrow> bool" where
  "keys_are api value object = (case stringAt api (uo_object object) [''spec'', ''queue''] of
     Inl e \<Rightarrow> False | Inr name \<Rightarrow> (if name = '''' then podGroupUnspecifiedQueue else name) = value)"

lemma pod_groups_loop_ok:
  "pod_groups_loop api (filter p xs) acc = (result, None) \<Longrightarrow> (\<And>other. \<not> p (Inl other)) \<Longrightarrow> (\<And>ob. p (Inr ob) = q ob) \<Longrightarrow>
   result = acc @ map (decoded api) (filter q (concat (map (\<lambda>x. case x of Inl other \<Rightarrow> [] | Inr object \<Rightarrow> [object]) xs)))"
proof (induction xs arbitrary: acc)
  case (Cons x xs)
  show ?case
  proof (cases x)
    case (Inl other)
    then show ?thesis using Cons by (auto split: if_splits)
  next
    case (Inr ob)
    then show ?thesis using Cons.prems Cons.IH [of acc] Cons.IH [of "acc @ [decoded api ob]"]
      by (auto simp: decoded_def split: if_splits sum.splits)
  qed
qed simp

lemma by_queue_loop:
  assumes "pod_groups_by_queue api value = Inr objects" "pod_groups_loop api objects acc = (result, None)"
  shows "result = acc @ map (decoded api) (filter (keys_are (vr_raw api) value) (stored_objects api))"
proof -
  have "objects = filter (\<lambda>object. case podGroupQueueIndexKeys (vr_raw api) object of
      Inl e \<Rightarrow> False | Inr keys \<Rightarrow> List.member keys value) (vr_pod_groups api)"
    using assms(1) by (auto simp: pod_groups_by_queue_def split: option.splits)
  then show ?thesis unfolding stored_objects_def
    by (intro pod_groups_loop_ok [where p = "\<lambda>object. case podGroupQueueIndexKeys (vr_raw api) object of
      Inl e \<Rightarrow> False | Inr keys \<Rightarrow> List.member keys value"])
      (use assms(2) in \<open>auto simp: podGroupQueueIndexKeys_def keys_are_def List.member_iff split: sum.split\<close>)
qed

lemma mset_filter_split:
  "(\<And>x. \<not> (p x \<and> q x)) \<Longrightarrow> mset (filter p xs @ filter q xs) = mset (filter (\<lambda>x. p x \<or> q x) xs)"
  by (induction xs) auto

text \<open>
  The PodGroups listed for a queue are, each exactly once and sorted by namespace and name, the
  stored ones that name the queue, and for the default queue also those that name none (or the reserved name
  that stands for none); a queue without a name has none.
\<close>
theorem pod_groups_of_queue:
  assumes "queueName \<noteq> podGroupUnspecifiedQueue" and "ListPodGroupsForQueue api queueName defaultQueueName = (result, None)"
  shows "sorted (map pod_group_key result)
    \<and> mset result = mset (map (decoded api) (filter (of_queue (vr_raw api) queueName defaultQueueName) (stored_objects api)))"
proof -
  let ?at = "\<lambda>v. map (decoded api) (filter (keys_are (vr_raw api) v) (stored_objects api))"
  let ?b = "queueName \<noteq> '''' \<and> queueName = defaultQueueName"
  obtain r where r: "index_values_loop api queueName ([queueName] @ (if ?b then [podGroupUnspecifiedQueue] else [])) [] = (r, None)"
      and res: "result = sort_key pod_group_key r"
    using assms(2) by (auto simp: ListPodGroupsForQueue_def Let_def split: option.splits if_splits prod.splits)
  have r': "r = ?at queueName @ (if ?b then ?at podGroupUnspecifiedQueue else [])"
  proof (cases ?b)
    case False
    then show ?thesis using r
      by (auto dest!: by_queue_loop split: sum.splits prod.splits option.splits)
  next
    case True
    then show ?thesis using r
      by (auto dest!: by_queue_loop split: sum.splits prod.splits option.splits)
  qed
  have u: "podGroupUnspecifiedQueue \<noteq> ''''" by (simp add: podGroupUnspecifiedQueue_def)
  have first: "keys_are (vr_raw api) queueName ob \<longleftrightarrow> queueName \<noteq> '''' \<and> stored_queue (vr_raw api) ob = Some queueName" for ob
    using assms(1) by (auto simp: keys_are_def stored_queue_def split: sum.split)
  have "mset r = mset (map (decoded api) (filter (of_queue (vr_raw api) queueName defaultQueueName) (stored_objects api)))"
  proof (cases ?b)
    case False
    then have "of_queue (vr_raw api) queueName defaultQueueName = keys_are (vr_raw api) queueName"
      by (auto simp: fun_eq_iff of_queue_def first)
    moreover have "r = ?at queueName" using False r' by (simp only: if_False append_Nil2)
    ultimately show ?thesis by simp
  next
    case True
    have key: "keys_are (vr_raw api) podGroupUnspecifiedQueue ob
        \<longleftrightarrow> stored_queue (vr_raw api) ob \<in> {Some '''', Some podGroupUnspecifiedQueue}" for ob
      using u by (auto simp: keys_are_def stored_queue_def split: sum.split)
    have "r = map (decoded api) (filter (keys_are (vr_raw api) queueName) (stored_objects api)
        @ filter (keys_are (vr_raw api) podGroupUnspecifiedQueue) (stored_objects api))"
      using r' unfolding if_P [OF True] by simp
    moreover have "mset (filter (keys_are (vr_raw api) queueName) (stored_objects api)
        @ filter (keys_are (vr_raw api) podGroupUnspecifiedQueue) (stored_objects api))
      = mset (filter (of_queue (vr_raw api) queueName defaultQueueName) (stored_objects api))"
    proof -
      have "(\<lambda>ob. keys_are (vr_raw api) queueName ob \<or> keys_are (vr_raw api) podGroupUnspecifiedQueue ob)
          = of_queue (vr_raw api) queueName defaultQueueName"
        unfolding fun_eq_iff of_queue_def first key using True by blast
      moreover have "\<not> (keys_are (vr_raw api) queueName ob \<and> keys_are (vr_raw api) podGroupUnspecifiedQueue ob)" for ob
        unfolding first key using True assms(1) by auto
      ultimately show ?thesis using mset_filter_split [of "keys_are (vr_raw api) queueName"] by metis
    qed
    ultimately show ?thesis by (metis mset_map)
  qed
  then show ?thesis by (simp add: res)
qed

definition sample_volcano :: volcano_api where
  "sample_volcano = \<lparr>vr_raw = sample_api, vr_ctx_err = None, vr_available = True, vr_pod_group = (\<lambda>ns name. Inl (errorf [])),
     vr_queue = (\<lambda>name. Inl (errorf [])), vr_queues = Inr [],
     vr_pod_groups = [Inr (encode_pod_group (\<lambda>q. ''4'') (sample_pod_group\<lparr>pg_queue := ''''\<rparr>)), Inl ''*v1.Pod'',
       Inr (encode_pod_group (\<lambda>q. ''4'') (sample_pod_group\<lparr>pg_name := ''i'', pg_queue := ''default''\<rparr>))],
     vr_index_err = None, vr_priorities = False, vr_priority = (\<lambda>name. Inl (errorf [])), vr_priority_list = Inr []\<rparr>"

lemma pod_groups_of_queue_witness:
  "length (fst (ListPodGroupsForQueue sample_volcano ''default'' ''default'')) = 2"
proof -
  have e: "snd (ListPodGroupsForQueue sample_volcano ''default'' ''default'') = None"
    "length (filter (of_queue sample_api ''default'' ''default'') (stored_objects sample_volcano)) = 2"
    by code_simp+
  have raw: "vr_raw sample_volcano = sample_api" by (simp add: sample_volcano_def)
  obtain result where r: "ListPodGroupsForQueue sample_volcano ''default'' ''default'' = (result, None)"
    using e(1) by (metis prod.collapse)
  have "''default'' \<noteq> podGroupUnspecifiedQueue" by (simp add: podGroupUnspecifiedQueue_def)
  from pod_groups_of_queue [OF this r] have "mset result
      = mset (map (decoded sample_volcano) (filter (of_queue sample_api ''default'' ''default'') (stored_objects sample_volcano)))"
    by (simp add: raw)
  then have "length result = 2" using e(2) by (metis length_map size_mset)
  then show ?thesis by (simp add: r)
qed

text \<open>
  The priority of a PodGroup: its own when it has one; else that of its priority class, and if that
  class cannot be read none; without a class that of the first global default, or 0. Nothing else of the
  PodGroup changes.
\<close>
theorem priority_resolved:
  "(let resolved = resolvePodGroupPriority api podGroup in
     resolved = podGroup\<lparr>pg_priority := pg_priority resolved\<rparr>
     \<and> pg_priority resolved =
         (case pg_priority podGroup of
            Some n \<Rightarrow> Some n
          | None \<Rightarrow>
              if \<not> vr_priorities api then None
              else if pg_priority_class podGroup \<noteq> '''' then
                (case vr_priority api (pg_priority_class podGroup) of Inl e \<Rightarrow> None | Inr n \<Rightarrow> Some n)
              else (case vr_priority_list api of
                Inl e \<Rightarrow> None
              | Inr cs \<Rightarrow> Some (case filter snd cs of [] \<Rightarrow> 0 | c # _ \<Rightarrow> fst c))))"
proof -
  have f: "find snd cs = (case filter snd cs of [] \<Rightarrow> None | c # _ \<Rightarrow> Some c)" for cs :: "(i32 \<times> bool) list"
    by (induction cs) auto
  show ?thesis
    by (auto simp: resolvePodGroupPriority_def f split: option.split sum.split list.split)
qed

end
