(* ===== verification/Go_Json.thy ===== *)
theory Go_Json
  imports Go_Parse
begin

text \<open>
  Reading JSON as \<open>encoding/json\<close> does: the grammar of values, strings with escapes and surrogate pairs,
  bytes that are not UTF-8 replaced, field names matched without regard to case. Parsing stops behind
  the first value, as a \<open>Decoder\<close> does. The recursion has fuel; more than the length of the text is always
  enough (\<open>parse_value_enough\<close>).
\<close>

section \<open>Strings\<close>

definition is_ws :: "char \<Rightarrow> bool" where
  "is_ws c = ((of_char c :: nat) \<in> {9, 10, 13, 32})"

definition skip_ws :: "string \<Rightarrow> string" where
  "skip_ws s = dropWhile is_ws s"

definition byte_in :: "string \<Rightarrow> nat \<Rightarrow> nat \<Rightarrow> nat \<Rightarrow> bool" where
  "byte_in s i lo hi = (i < length s \<and> (let b = (of_char (s ! i) :: nat) in lo \<le> b \<and> b \<le> hi))"

text \<open>The length of the UTF-8 sequence a string begins with; 0 when it is not valid.\<close>

definition utf8_len :: "string \<Rightarrow> nat" where
  "utf8_len s =
     (if byte_in s 0 0 127 then 1
      else if byte_in s 0 194 223 \<and> byte_in s 1 128 191 then 2
      else if (byte_in s 0 224 224 \<and> byte_in s 1 160 191 \<or> (byte_in s 0 225 236 \<or> byte_in s 0 238 239) \<and> byte_in s 1 128 191
               \<or> byte_in s 0 237 237 \<and> byte_in s 1 128 159) \<and> byte_in s 2 128 191 then 3
      else if (byte_in s 0 240 240 \<and> byte_in s 1 144 191 \<or> byte_in s 0 241 243 \<and> byte_in s 1 128 191
               \<or> byte_in s 0 244 244 \<and> byte_in s 1 128 143) \<and> byte_in s 2 128 191 \<and> byte_in s 3 128 191 then 4
      else 0)"

definition utf8_encode :: "nat \<Rightarrow> string" where
  "utf8_encode r =
     (if r < 128 then [char_of r]
      else if r < 2048 then [char_of (192 + r div 64), char_of (128 + r mod 64)]
      else if r < 65536 then [char_of (224 + r div 4096), char_of (128 + r div 64 mod 64), char_of (128 + r mod 64)]
      else [char_of (240 + r div 262144), char_of (128 + r div 4096 mod 64), char_of (128 + r div 64 mod 64),
            char_of (128 + r mod 64)])"

definition replacement :: string where
  "replacement = utf8_encode 65533"

definition hex4 :: "string \<Rightarrow> (nat \<times> string) option" where
  "hex4 s =
     (if 4 \<le> length s \<and> list_all (\<lambda>c. is_mantissa_digit True c) (take 4 s)
      then Some (nat (foldl (\<lambda>n c. 16 * n + hex_val c) 0 (take 4 s)), drop 4 s) else None)"

text \<open>The second half of a surrogate pair.\<close>

definition low_half :: "string \<Rightarrow> (nat \<times> string) option" where
  "low_half s =
     (case s of
        b # u # rest \<Rightarrow>
          if b = CHR 0x5C \<and> u = CHR ''u'' then
            (case hex4 rest of
               Some (r, rest') \<Rightarrow> if 56320 \<le> r \<and> r < 57344 then Some (r, rest') else None
             | None \<Rightarrow> None)
          else None
      | _ \<Rightarrow> None)"

lemma hex4_length: "hex4 s = Some (r, t) \<Longrightarrow> length t < length s"
  by (auto simp: hex4_def split: if_splits)

lemma low_half_length: "low_half s = Some (r, t) \<Longrightarrow> length t < length s"
  using hex4_length [of "drop 2 s"] by (auto simp: low_half_def split: list.splits option.splits if_splits)

definition escape_char :: "char \<Rightarrow> char option" where
  "escape_char c =
     (if c \<in> {CHR 0x22, CHR 0x5C, CHR ''/''} then Some c
      else if c = CHR ''b'' then Some (CHR 0x08) else if c = CHR ''f'' then Some (CHR 0x0C)
      else if c = CHR ''n'' then Some (CHR 0x0A) else if c = CHR ''r'' then Some (CHR 0x0D)
      else if c = CHR ''t'' then Some (CHR 0x09) else None)"

definition prepend :: "string \<Rightarrow> (string \<times> string) option \<Rightarrow> (string \<times> string) option" where
  "prepend w r = map_option (\<lambda>(t, rest). (w @ t, rest)) r"

text \<open>The string behind an opening quote, unquoted, and what follows the closing one.\<close>

function str_body :: "string \<Rightarrow> (string \<times> string) option" where
  "str_body [] = None"
| "str_body (c # cs) =
     (if c = CHR 0x22 then Some ([], cs)
      else if c = CHR 0x5C then
        (case cs of
           [] \<Rightarrow> None
         | e # ds \<Rightarrow>
             if e = CHR ''u'' then
               (case hex4 ds of
                  None \<Rightarrow> None
                | Some (r, es) \<Rightarrow>
                    if 55296 \<le> r \<and> r < 57344 then
                      (case (if r < 56320 then low_half es else None) of
                         Some (r2, fs) \<Rightarrow> prepend (utf8_encode (65536 + (r - 55296) * 1024 + (r2 - 56320))) (str_body fs)
                       | None \<Rightarrow> prepend replacement (str_body es))
                    else prepend (utf8_encode r) (str_body es))
             else (case escape_char e of None \<Rightarrow> None | Some x \<Rightarrow> prepend [x] (str_body ds)))
      else if (of_char c :: nat) < 32 then None
      else (let n = utf8_len (c # cs)
            in if n = 0 then prepend replacement (str_body cs)
               else prepend (take n (c # cs)) (str_body (drop n (c # cs)))))"
  by pat_completeness auto
termination
  by (relation "measure length") (auto dest!: hex4_length low_half_length split: if_splits)

section \<open>Values\<close>

datatype json =
    JNull
  | JBool bool
  | JNum string
  | JStr string
  | JArr "json list"
  | JObj "(string \<times> json) list"

definition digits1 :: "string \<Rightarrow> (string \<times> string) option" where
  "digits1 s = (let ds = takeWhile is_digit s in if ds = [] then None else Some (ds, dropWhile is_digit s))"

definition num_int :: "string \<Rightarrow> (string \<times> string) option" where
  "num_int s =
     (case s of
        [] \<Rightarrow> None
      | c # cs \<Rightarrow> if c = CHR ''0'' then Some ([c], cs) else digits1 s)"

text \<open>An optional part that begins with one of the given bytes.\<close>

definition num_part :: "char list \<Rightarrow> bool \<Rightarrow> string \<Rightarrow> (string \<times> string) option" where
  "num_part marks signed s =
     (case s of
        [] \<Rightarrow> Some ([], s)
      | c # cs \<Rightarrow>
          if \<not> List.member marks c then Some ([], s)
          else (let sign = (if signed then takeWhile (\<lambda>x. x = CHR ''+'' \<or> x = CHR ''-'') (take 1 cs) else [])
                in map_option (\<lambda>(ds, rest). (c # sign @ ds, rest)) (digits1 (drop (length sign) cs))))"

definition num_lit :: "string \<Rightarrow> (string \<times> string) option" where
  "num_lit s =
     (let sign = takeWhile (\<lambda>x. x = CHR ''-'') (take 1 s)
      in case num_int (drop (length sign) s) of
           None \<Rightarrow> None
         | Some (i, s1) \<Rightarrow>
        (case num_part [CHR ''.''] False s1 of
           None \<Rightarrow> None
         | Some (f, s2) \<Rightarrow>
        (case num_part [CHR ''e'', CHR ''E''] True s2 of
           None \<Rightarrow> None
         | Some (e, s3) \<Rightarrow> Some (sign @ i @ f @ e, s3))))"

definition next_is :: "char \<Rightarrow> string \<Rightarrow> string option" where
  "next_is c s = (case skip_ws s of x # xs \<Rightarrow> if x = c then Some xs else None | [] \<Rightarrow> None)"

definition scalar :: "string \<Rightarrow> (json \<times> string) option" where
  "scalar s =
     (case next_is CHR 0x22 s of
        Some cs \<Rightarrow> map_option (\<lambda>(t, rest). (JStr t, rest)) (str_body cs)
      | None \<Rightarrow>
          (let t = skip_ws s
           in if has_prefix t ''null'' then Some (JNull, drop 4 t)
              else if has_prefix t ''true'' then Some (JBool True, drop 4 t)
              else if has_prefix t ''false'' then Some (JBool False, drop 5 t)
              else map_option (\<lambda>(n, rest). (JNum n, rest)) (num_lit t)))"

fun parse_value :: "nat \<Rightarrow> string \<Rightarrow> (json \<times> string) option"
  and parse_elems :: "nat \<Rightarrow> string \<Rightarrow> (json list \<times> string) option"
  and parse_members :: "nat \<Rightarrow> string \<Rightarrow> ((string \<times> json) list \<times> string) option" where
  "parse_value 0 s = None"
| "parse_value (Suc n) s =
     (case next_is CHR ''{'' s of
        Some cs \<Rightarrow>
          (case next_is CHR ''}'' cs of
             Some rest \<Rightarrow> Some (JObj [], rest)
           | None \<Rightarrow> map_option (\<lambda>(ms, rest). (JObj ms, rest)) (parse_members n cs))
      | None \<Rightarrow>
     (case next_is CHR ''['' s of
        Some cs \<Rightarrow>
          (case next_is CHR '']'' cs of
             Some rest \<Rightarrow> Some (JArr [], rest)
           | None \<Rightarrow> map_option (\<lambda>(es, rest). (JArr es, rest)) (parse_elems n cs))
      | None \<Rightarrow> scalar s))"
| "parse_elems 0 s = None"
| "parse_elems (Suc n) s =
     (case parse_value n s of
        None \<Rightarrow> None
      | Some (v, r) \<Rightarrow>
          (case next_is CHR '']'' r of
             Some rest \<Rightarrow> Some ([v], rest)
           | None \<Rightarrow>
               (case next_is CHR '','' r of
                  None \<Rightarrow> None
                | Some r' \<Rightarrow> map_option (\<lambda>(es, rest). (v # es, rest)) (parse_elems n r'))))"
| "parse_members 0 s = None"
| "parse_members (Suc n) s =
     (case next_is CHR 0x22 s of
        None \<Rightarrow> None
      | Some cs \<Rightarrow>
     (case str_body cs of
        None \<Rightarrow> None
      | Some (k, r) \<Rightarrow>
     (case next_is CHR '':'' r of
        None \<Rightarrow> None
      | Some r1 \<Rightarrow>
     (case parse_value n r1 of
        None \<Rightarrow> None
      | Some (v, r2) \<Rightarrow>
          (case next_is CHR ''}'' r2 of
             Some rest \<Rightarrow> Some ([(k, v)], rest)
           | None \<Rightarrow>
               (case next_is CHR '','' r2 of
                  None \<Rightarrow> None
                | Some r3 \<Rightarrow> map_option (\<lambda>(ms, rest). ((k, v) # ms, rest)) (parse_members n r3)))))))"

definition json_value :: "string \<Rightarrow> (json \<times> string) option" where
  "json_value s = parse_value (Suc (Suc (2 * length s))) s"

text \<open>
  Names are compared with case folding, in which two letters outside ASCII fold to ASCII ones:
  the long s (U+017F) and the Kelvin sign (U+212A).
\<close>

fun fold_name :: "string \<Rightarrow> string" where
  "fold_name (a # b # c # s) =
     (if [a, b, c] = utf8 [226, 132, 170] then CHR ''k'' # fold_name s
      else if [a, b] = utf8 [197, 191] then CHR ''s'' # fold_name (c # s)
      else to_lower_char a # fold_name (b # c # s))"
| "fold_name [a, b] = (if [a, b] = utf8 [197, 191] then ''s'' else [to_lower_char a, to_lower_char b])"
| "fold_name [a] = [to_lower_char a]"
| "fold_name [] = []"

section \<open>Enough fuel\<close>

lemma next_is_length: "next_is c s = Some t \<Longrightarrow> length t < length s"
  using length_dropWhile_le [of is_ws s] by (auto simp: next_is_def skip_ws_def split: list.splits if_splits)

definition shorter :: "string \<Rightarrow> ('a \<times> string) option \<Rightarrow> bool" where
  "shorter s r = (case r of None \<Rightarrow> True | Some (x, t) \<Rightarrow> length t < length s)"

lemma shorter_simps [simp]: "shorter s None" "shorter s (Some (x, t)) = (length t < length s)"
  by (simp_all add: shorter_def)

lemma shorter_prepend [simp]: "shorter s (prepend w r) = shorter s r"
  by (cases r) (auto simp: prepend_def)

lemma shorter_map [simp]: "shorter s (map_option (\<lambda>(x, t). (f x, t)) r) = shorter s r"
  by (cases r) auto

lemma shorter_mono: "shorter t r \<Longrightarrow> length t \<le> length s \<Longrightarrow> shorter s r"
  by (auto simp: shorter_def split: option.splits)

lemma shorterD: "shorter s r \<Longrightarrow> r = Some (x, t) \<Longrightarrow> length t < length s"
  by simp

lemma shorter_str_body: "shorter s (str_body s)"
proof (induction "length s" arbitrary: s rule: less_induct)
  case less
  show ?case
  proof (cases s)
    case Nil
    then show ?thesis by simp
  next
    case (Cons c cs)
    have IH: "shorter s (str_body t)" if "length t < length s" for t
      using less [OF that] that by (auto intro: shorter_mono)
    have dr: "shorter s (str_body (drop n (c # cs)))" if "n \<noteq> 0" for n
      using that by (intro IH) (simp add: Cons)
    have es: "shorter s (str_body t)" if "hex4 ds = Some (r, t)" "cs = e # ds" for r t e ds
      using hex4_length [OF that(1)] that(2) by (intro IH) (simp add: Cons)
    have fs: "shorter s (str_body t)" if "low_half es = Some (r, t)" "hex4 ds = Some (q, es)" "cs = e # ds" for r t es q e ds
      using low_half_length [OF that(1)] hex4_length [OF that(2)] that(3) by (intro IH) (simp add: Cons)
    have tl: "shorter s (str_body cs)" "cs = e # ds \<Longrightarrow> shorter s (str_body ds)" for e ds
      by (intro IH; simp add: Cons)+
    consider (quote) "c = CHR 0x22" | (esc) "c \<noteq> CHR 0x22" "c = CHR 0x5C" | (other) "c \<noteq> CHR 0x22" "c \<noteq> CHR 0x5C" by blast
    then show ?thesis
    proof cases
      case quote
      then show ?thesis by (simp add: Cons)
    next
      case esc
      have "shorter s (str_body (c # cs))"
        unfolding str_body.simps(2) if_not_P [OF esc(1)] if_P [OF esc(2)]
        by (auto split: list.split option.split intro: es fs tl)
      then show ?thesis by (simp only: Cons)
    next
      case other
      have "shorter s (str_body (c # cs))"
        unfolding str_body.simps(2) if_not_P [OF other(1)] if_not_P [OF other(2)] Let_def
        by (auto intro: tl dr)
      then show ?thesis by (simp only: Cons)
    qed
  qed
qed

lemma str_body_length: "str_body s = Some (w, t) \<Longrightarrow> length t < length s"
  by (rule shorterD [OF shorter_str_body])

lemma digits1_length: "digits1 s = Some (ds, t) \<Longrightarrow> length t < length s"
proof -
  assume d: "digits1 s = Some (ds, t)"
  then have t: "t = dropWhile is_digit s" and ne: "takeWhile is_digit s \<noteq> []"
    by (auto simp: digits1_def Let_def split: if_splits)
  have "length s = length (takeWhile is_digit s) + length t"
    unfolding t by (simp only: length_append [symmetric] takeWhile_dropWhile_id)
  moreover have "0 < length (takeWhile is_digit s)" using ne by blast
  ultimately show ?thesis by linarith
qed

lemma num_part_length: "num_part marks signed s = Some (w, t) \<Longrightarrow> length t \<le> length s"
  by (auto simp: num_part_def Let_def split: list.splits if_splits dest!: digits1_length)

lemma num_int_length: "num_int s = Some (w, t) \<Longrightarrow> length t < length s"
  by (auto simp: num_int_def split: list.splits if_splits dest: digits1_length)

lemma num_int_drop: "num_int (drop k s) = Some (w, t) \<Longrightarrow> length t < length s"
  using num_int_length [of "drop k s" w t] by simp

lemma num_lit_length: "num_lit s = Some (w, t) \<Longrightarrow> length t < length s"
  unfolding num_lit_def Let_def
  by (auto split: option.splits dest!: num_int_drop num_part_length)

lemma scalar_length: "scalar s = Some (v, t) \<Longrightarrow> length t < length s"
proof -
  assume sc: "scalar s = Some (v, t)"
  have le: "length (skip_ws s) \<le> length s" by (simp add: skip_ws_def length_dropWhile_le)
  have ne: "has_prefix [] (x # w) \<Longrightarrow> False" for x :: char and w by (simp add: has_prefix_def)
  show ?thesis
  proof (cases "skip_ws s")
    case Nil
    then show ?thesis
      using sc by (auto simp: scalar_def Let_def next_is_def num_lit_def num_int_def split: option.splits if_splits dest: ne)
  next
    case (Cons x xs)
    then have "Suc (length xs) \<le> length s" using le by simp
    then have "0 < length s" "length xs < length s" by (cases s; simp)+
    then show ?thesis
      using sc le by (auto simp: scalar_def Let_def Cons split: option.splits if_splits
          dest!: next_is_length str_body_length num_lit_length)
  qed
qed

text \<open>What is left behind a value is shorter, and fuel beyond twice the length changes nothing.\<close>

lemma parse_length:
  "shorter s (parse_value n s)" "shorter s (parse_elems n s)" "shorter s (parse_members n s)"
proof (induction n arbitrary: s)
  case (Suc n)
  note IH = shorterD [OF Suc(1)] shorterD [OF Suc(2)] shorterD [OF Suc(3)]
  {
    case 1
    show ?case
      by (auto simp: shorter_def split: option.splits dest!: next_is_length scalar_length IH)
  next
    case 2
    show ?case
      by (auto simp: shorter_def split: option.splits dest!: next_is_length IH)
  next
    case 3
    show ?case
      by (auto simp: shorter_def split: option.splits dest!: next_is_length str_body_length IH)
  }
qed simp_all

lemma parse_fuel:
  "2 * length s < n \<Longrightarrow> n \<le> m \<Longrightarrow> parse_value m s = parse_value n s"
  "2 * length s + 1 < n \<Longrightarrow> n \<le> m \<Longrightarrow> parse_elems m s = parse_elems n s"
  "2 * length s + 1 < n \<Longrightarrow> n \<le> m \<Longrightarrow> parse_members m s = parse_members n s"
proof (induction n arbitrary: s m)
  case (Suc n)
  {
    case 1
    then obtain k where m: "m = Suc k" "n \<le> k" by (cases m) auto
    have e: "next_is c s = Some cs \<Longrightarrow> parse_elems k cs = parse_elems n cs" for c cs
      using 1 m next_is_length [of c s cs] by (intro Suc(2)) auto
    have o: "next_is c s = Some cs \<Longrightarrow> parse_members k cs = parse_members n cs" for c cs
      using 1 m next_is_length [of c s cs] by (intro Suc(3)) auto
    show ?case unfolding m by (simp add: e o cong: option.case_cong)
  next
    case 2
    then obtain k where m: "m = Suc k" "n \<le> k" by (cases m) auto
    have v: "parse_value k s = parse_value n s" using 2 m by (intro Suc(1)) auto
    have e: "parse_elems k t = parse_elems n t"
      if "parse_value n s = Some (x, r)" "next_is c r = Some t" for x r c t
      using 2 m next_is_length [OF that(2)] shorterD [OF parse_length(1) that(1)] by (intro Suc(2)) auto
    show ?case unfolding m by (simp add: v e cong: option.case_cong prod.case_cong)
  next
    case 3
    then obtain k where m: "m = Suc k" "n \<le> k" by (cases m) auto
    have l: "length r1 < length s"
      if "next_is a s = Some cs" "str_body cs = Some (w, r)" "next_is b r = Some r1" for a b cs w r r1
      using next_is_length [OF that(1)] str_body_length [OF that(2)] next_is_length [OF that(3)] by simp
    have v: "parse_value k r1 = parse_value n r1"
      if "next_is a s = Some cs" "str_body cs = Some (w, r)" "next_is b r = Some r1" for a b cs w r r1
      using 3 m l [OF that] by (intro Suc(1)) auto
    have e: "parse_members k t = parse_members n t"
      if "next_is a s = Some cs" "str_body cs = Some (w, r)" "next_is b r = Some r1"
        "parse_value n r1 = Some (x, r2)" "next_is d r2 = Some t" for a b cs w r r1 x r2 d t
      using 3 m l [OF that(1-3)] shorterD [OF parse_length(1) that(4)] next_is_length [OF that(5)]
      by (intro Suc(3)) auto
    show ?case unfolding m by (simp add: v e cong: option.case_cong prod.case_cong)
  }
qed simp_all

lemma parse_value_enough: "2 * length s < n \<Longrightarrow> parse_value n s = json_value s"
proof -
  assume n: "2 * length s < n"
  have "parse_value m s = parse_value (Suc (2 * length s)) s" if "2 * length s < m" for m
    using that by (intro parse_fuel(1)) auto
  from this [OF n] this [of "Suc (Suc (2 * length s))"] show ?thesis by (simp add: json_value_def)
qed

lemma json_value_length: "json_value s = Some (v, t) \<Longrightarrow> length t < length s"
  unfolding json_value_def by (rule shorterD [OF parse_length(1)])

end
