(* ===== verification/Go_Json_Write.thy ===== *)
theory Go_Json_Write
  imports Go_Json
begin

text \<open>
  Writing JSON as \<open>json.Marshal\<close> does it for strings: quotes, backslashes and control bytes are escaped,
  and so are the bytes of HTML markup and the two line separators of JavaScript; bytes that are not UTF-8
  become the replacement character. The facts: what was written is read back (\<open>str_body_quote\<close>), and a
  string grows to at most six times its length (\<open>length_json_body\<close>).
\<close>

definition json_escape :: "char \<Rightarrow> string" where
  "json_escape c =
     (let n = (of_char c :: nat) in
      if n = 34 \<or> n = 92 then [CHR 0x5C, c]
      else if n = 8 then [CHR 0x5C, CHR ''b''] else if n = 12 then [CHR 0x5C, CHR ''f'']
      else if n = 10 then [CHR 0x5C, CHR ''n''] else if n = 13 then [CHR 0x5C, CHR ''r'']
      else if n = 9 then [CHR 0x5C, CHR ''t'']
      else if n < 32 \<or> c \<in> {CHR ''<'', CHR ''>'', CHR ''&''} then
        CHR 0x5C # ''u00'' @ [hex_digit (n div 16), hex_digit (n mod 16)]
      else [c])"

definition json_rune :: "string \<Rightarrow> string" where
  "json_rune w =
     (if w = utf8 [226, 128, 168] then CHR 0x5C # ''u2028'' else if w = utf8 [226, 128, 169] then CHR 0x5C # ''u2029''
      else w)"

function json_body :: "string \<Rightarrow> string" where
  "json_body s =
     (if s = [] then []
      else (let n = utf8_len s in
        if n = 0 then CHR 0x5C # ''ufffd'' @ json_body (drop 1 s)
        else (if n = 1 then json_escape (hd s) else json_rune (take n s)) @ json_body (drop n s)))"
  by pat_completeness auto
termination
  by (relation "measure length") auto

declare json_body.simps [simp del]

definition json_quote :: "string \<Rightarrow> string" where
  "json_quote s = CHR 0x22 # json_body s @ [CHR 0x22]"

text \<open>The text with the bytes that are not UTF-8 replaced.\<close>

function utf8_valid :: "string \<Rightarrow> string" where
  "utf8_valid s =
     (if s = [] then []
      else (let n = utf8_len s in
        if n = 0 then replacement @ utf8_valid (drop 1 s) else take n s @ utf8_valid (drop n s)))"
  by pat_completeness auto
termination
  by (relation "measure length") auto

declare utf8_valid.simps [simp del]

section \<open>Facts\<close>

lemma utf8_len_range: "utf8_len s \<in> {0, 1, 2, 3, 4}"
  by (simp add: utf8_len_def)

lemma utf8_len_length: "utf8_len s \<le> length s"
proof -
  have b: "byte_in s i lo hi \<Longrightarrow> Suc i \<le> length s" for i lo hi by (simp add: byte_in_def)
  show ?thesis
    unfolding utf8_len_def by (auto dest!: b)
qed

lemma utf8_len_same:
  assumes "\<And>i lo hi. i < utf8_len s \<Longrightarrow> byte_in t i lo hi = byte_in s i lo hi" and "utf8_len s \<noteq> 0"
  shows "utf8_len t = utf8_len s"
proof -
  note b = assms(1)
  consider "utf8_len s = 1" | "utf8_len s = 2" | "utf8_len s = 3" | "utf8_len s = 4"
    using assms(2) utf8_len_range [of s] by auto
  then show ?thesis
  proof cases
    case 1
    then have "byte_in t 0 lo hi = byte_in s 0 lo hi" for lo hi using b by simp
    with 1 show ?thesis unfolding utf8_len_def by (simp split: if_splits)
  next
    case 2
    then have "byte_in t 0 lo hi = byte_in s 0 lo hi" "byte_in t 1 lo hi = byte_in s 1 lo hi" for lo hi
      using b by simp_all
    with 2 show ?thesis unfolding utf8_len_def by (simp split: if_splits)
  next
    case 3
    then have "byte_in t 0 lo hi = byte_in s 0 lo hi" "byte_in t 1 lo hi = byte_in s 1 lo hi"
      "byte_in t 2 lo hi = byte_in s 2 lo hi" for lo hi
      using b by simp_all
    with 3 show ?thesis unfolding utf8_len_def by (simp split: if_splits) blast
  next
    case 4
    then have "byte_in t 0 lo hi = byte_in s 0 lo hi" "byte_in t 1 lo hi = byte_in s 1 lo hi"
      "byte_in t 2 lo hi = byte_in s 2 lo hi" "byte_in t 3 lo hi = byte_in s 3 lo hi" for lo hi
      using b by simp_all
    then show ?thesis by (simp only: utf8_len_def)
  qed
qed

lemma utf8_len_append: "utf8_len s \<noteq> 0 \<Longrightarrow> utf8_len (take (utf8_len s) s @ x) = utf8_len s"
  using utf8_len_length [of s] by (intro utf8_len_same) (simp_all add: byte_in_def nth_append)

lemma utf8_len_1: "utf8_len (c # cs) = 1 \<longleftrightarrow> (of_char c :: nat) < 128"
  by (auto simp: utf8_len_def byte_in_def)

lemma utf8_len_high: "1 < utf8_len (c # cs) \<Longrightarrow> 128 \<le> (of_char c :: nat)"
  by (auto simp: utf8_len_def byte_in_def split: if_splits)

lemma hex_digit_read:
  "d < 16 \<Longrightarrow> is_mantissa_digit True (hex_digit d)" "d < 16 \<Longrightarrow> hex_val (hex_digit d) = int d"
proof -
  have "d < 16 \<Longrightarrow> d = 0 \<or> d = 1 \<or> d = 2 \<or> d = 3 \<or> d = 4 \<or> d = 5 \<or> d = 6 \<or> d = 7 \<or> d = 8 \<or> d = 9 \<or> d = 10
      \<or> d = 11 \<or> d = 12 \<or> d = 13 \<or> d = 14 \<or> d = 15" by presburger
  then show "d < 16 \<Longrightarrow> is_mantissa_digit True (hex_digit d)" "d < 16 \<Longrightarrow> hex_val (hex_digit d) = int d"
    by (auto simp: is_mantissa_digit_def is_hex_letter_def hex_val_def hex_digit_def is_digit_def digit_val_def
        to_lower_char_def Let_def)
qed

lemma hex4_zeros:
  assumes "n < 256"
  shows "hex4 (CHR ''0'' # CHR ''0'' # hex_digit (n div 16) # hex_digit (n mod 16) # x) = Some (n, x)"
proof -
  have d: "n div 16 < 16" "n mod 16 < 16" using assms by auto
  have z: "hex_val CHR ''0'' = 0" "is_mantissa_digit True CHR ''0''"
    by (simp_all add: hex_val_def is_digit_def digit_val_def is_mantissa_digit_def)
  have "int (16 * (n div 16) + n mod 16) = int n" by (simp only: mult_div_mod_eq)
  then have "nat (16 * int (n div 16) + int (n mod 16)) = n" by (simp only: of_nat_add of_nat_mult of_nat_numeral nat_int)
  then show ?thesis using d by (simp add: hex4_def hex_digit_read z)
qed

lemma str_body_unicode:
  "hex4 ds = Some (r, es) \<Longrightarrow> \<not> (55296 \<le> r \<and> r < 57344) \<Longrightarrow>
   str_body (CHR 0x5C # CHR ''u'' # ds) = prepend (utf8_encode r) (str_body es)"
  by auto

lemma str_body_plain:
  assumes "n = utf8_len (c # cs)" "n \<noteq> 0" "c \<noteq> CHR 0x22" "c \<noteq> CHR 0x5C" "32 \<le> (of_char c :: nat)"
  shows "str_body (c # cs) = prepend (take n (c # cs)) (str_body (drop n (c # cs)))"
  using assms by (simp only: str_body.simps(2) Let_def if_False not_less [symmetric] if_not_P)

lemma str_body_escape:
  assumes "(of_char c :: nat) < 128"
  shows "str_body (json_escape c @ x) = prepend [c] (str_body x)"
proof -
  have c: "c = char_of (of_char c :: nat)" by simp
  consider "of_char c \<in> {34, 92, 8, 12, 10, 13, 9 :: nat}" | (hex) "of_char c \<notin> {34, 92, 8, 12, 10, 13, 9 :: nat}"
      "(of_char c :: nat) < 32 \<or> c \<in> {CHR ''<'', CHR ''>'', CHR ''&''}"
    | (plain) "of_char c \<notin> {34, 92, 8, 12, 10, 13, 9 :: nat}" "\<not> (of_char c :: nat) < 32" "c \<notin> {CHR ''<'', CHR ''>'', CHR ''&''}"
    by blast
  then show ?thesis
  proof cases
    case 1
    then have "\<exists>n \<in> {34, 92, 8, 12, 10, 13, 9 :: nat}. c = char_of n" using c by blast
    moreover have "char_of (34 :: nat) = CHR 0x22" "char_of (92 :: nat) = CHR 0x5C" "char_of (8 :: nat) = CHR 0x08"
      "char_of (12 :: nat) = CHR 0x0C" "char_of (10 :: nat) = CHR 0x0A" "char_of (13 :: nat) = CHR 0x0D"
      "char_of (9 :: nat) = CHR 0x09" by code_simp+
    ultimately have "c \<in> {CHR 0x22, CHR 0x5C, CHR 0x08, CHR 0x0C, CHR 0x0A, CHR 0x0D, CHR 0x09}" by auto
    then show ?thesis by (auto simp: json_escape_def escape_char_def)
  next
    case hex
    let ?n = "of_char c :: nat"
    have e: "json_escape c = CHR 0x5C # CHR ''u'' # CHR ''0'' # CHR ''0'' # [hex_digit (?n div 16), hex_digit (?n mod 16)]"
      using hex by (auto simp: json_escape_def Let_def)
    have "hex4 (CHR ''0'' # CHR ''0'' # hex_digit (?n div 16) # hex_digit (?n mod 16) # x) = Some (?n, x)"
      by (rule hex4_zeros) simp
    from str_body_unicode [OF this] assms show ?thesis by (simp add: e utf8_encode_def)
  next
    case plain
    then have e: "json_escape c = [c]" by (simp add: json_escape_def Let_def)
    have "utf8_len (c # x) = 1" using assms utf8_len_1 by blast
    then show ?thesis using plain str_body_plain [of 1 c x] by (auto simp: e)
  qed
qed

lemma str_body_rune:
  assumes "1 < utf8_len s"
  shows "str_body (json_rune (take (utf8_len s) s) @ x) = prepend (take (utf8_len s) s) (str_body x)"
proof -
  obtain c cs where s: "s = c # cs" using assms by (cases s) (auto simp: utf8_len_def byte_in_def)
  let ?w = "take (utf8_len s) s"
  have h: "128 \<le> (of_char c :: nat)" using assms s utf8_len_high by blast
  obtain k where k: "utf8_len s = Suc k" using assms by (cases "utf8_len s") auto
  have w: "?w = c # take k cs" by (simp add: k) (simp add: s)
  have len: "length ?w = utf8_len s" using utf8_len_length [of s] by simp
  show ?thesis
  proof (cases "?w = utf8 [226, 128, 168] \<or> ?w = utf8 [226, 128, 169]")
    case True
    have z: "hex4 (CHR ''2'' # CHR ''0'' # CHR ''2'' # CHR ''8'' # x) = Some (8232, x)"
      "hex4 (CHR ''2'' # CHR ''0'' # CHR ''2'' # CHR ''9'' # x) = Some (8233, x)"
      by (simp_all add: hex4_def hex_val_def is_digit_def digit_val_def is_mantissa_digit_def)
    from True str_body_unicode [OF z(1)] str_body_unicode [OF z(2)] show ?thesis
      by (auto simp: json_rune_def utf8_def utf8_encode_def)
  next
    case False
    then have e: "json_rune ?w = ?w" by (simp add: json_rune_def)
    have l: "utf8_len (c # take k cs @ x) = utf8_len s" using utf8_len_append [of s x] assms w by simp
    have ne: "c \<noteq> CHR 0x22" "c \<noteq> CHR 0x5C" using h by auto
    have "str_body (c # take k cs @ x)
        = prepend (take (utf8_len s) (c # take k cs @ x)) (str_body (drop (utf8_len s) (c # take k cs @ x)))"
      using assms h ne l by (intro str_body_plain) auto
    moreover have "take (utf8_len s) (?w @ x) = ?w" "drop (utf8_len s) (?w @ x) = x" using len by simp_all
    ultimately show ?thesis unfolding e by (simp only: w append_Cons)
  qed
qed

lemma str_body_replaced: "str_body (CHR 0x5C # ''ufffd'' @ x) = prepend replacement (str_body x)"
proof -
  have "hex4 (''fffd'' @ x) = Some (65533, x)"
    by (simp add: hex4_def hex_val_def is_digit_def digit_val_def is_mantissa_digit_def is_hex_letter_def to_lower_char_def)
  from str_body_unicode [OF this] show ?thesis by (simp add: replacement_def)
qed

lemma prepend_prepend [simp]: "prepend a (prepend b r) = prepend (a @ b) r"
  by (cases r) (auto simp: prepend_def)

text \<open>A string that was written is read back, with what is not UTF-8 replaced.\<close>

lemma str_body_json: "str_body (json_body s @ x) = prepend (utf8_valid s) (str_body x)"
proof (induction "length s" arbitrary: s rule: less_induct)
  case less
  show ?case
  proof (cases s)
    case Nil
    then show ?thesis by (cases "str_body x") (auto simp: json_body.simps [of "[]"] utf8_valid.simps [of "[]"] prepend_def)
  next
    case (Cons c cs)
    let ?n = "utf8_len s"
    have IH: "str_body (json_body (drop k s) @ x) = prepend (utf8_valid (drop k s)) (str_body x)" if "k \<noteq> 0" for k
      using that by (intro less) (simp add: Cons)
    consider "?n = 0" | "?n = 1" | "1 < ?n" by linarith
    then show ?thesis
    proof cases
      case 1
      then have "json_body s = CHR 0x5C # ''ufffd'' @ json_body (drop 1 s)" "utf8_valid s = replacement @ utf8_valid (drop 1 s)"
        using Cons by (simp_all add: json_body.simps [of "c # cs"] utf8_valid.simps [of "c # cs"] Let_def)
      then show ?thesis using IH [of 1] str_body_replaced [of "json_body (drop 1 s) @ x"] by simp
    next
      case 2
      then have j: "json_body s = json_escape c @ json_body (drop 1 s)" "utf8_valid s = [c] @ utf8_valid (drop 1 s)"
        using Cons by (simp_all add: json_body.simps [of "c # cs"] utf8_valid.simps [of "c # cs"] Let_def)
      have "(of_char c :: nat) < 128" using 2 Cons utf8_len_1 by blast
      then show ?thesis using IH [of 1] by (simp only: j append_assoc str_body_escape prepend_prepend)
    next
      case 3
      then have j: "json_body s = json_rune (take ?n s) @ json_body (drop ?n s)" "utf8_valid s = take ?n s @ utf8_valid (drop ?n s)"
        using Cons by (simp_all add: json_body.simps [of "c # cs"] utf8_valid.simps [of "c # cs"] Let_def)
      show ?thesis using IH [of ?n] 3 by (simp only: j append_assoc str_body_rune prepend_prepend)
    qed
  qed
qed

lemma str_body_quote: "str_body (json_body s @ CHR 0x22 # x) = Some (utf8_valid s, x)"
  by (simp add: str_body_json prepend_def)

lemma length_json_body: "length (json_body s) \<le> 6 * length s"
proof (induction "length s" arbitrary: s rule: less_induct)
  case less
  show ?case
  proof (cases "s = []")
    case True
    then show ?thesis by (simp add: json_body.simps [of "[]"])
  next
    case False
    let ?n = "utf8_len s"
    have pos: "0 < length s" using False by simp
    have IH: "length (json_body (drop k s)) \<le> 6 * (length s - k)" if "k \<noteq> 0" for k
      using less [of "drop k s"] that pos by simp
    have e: "length (json_escape c) \<le> 6" for c by (simp add: json_escape_def Let_def)
    have n: "?n \<le> length s" by (rule utf8_len_length)
    consider "?n = 0" | "?n = 1" | "1 < ?n" by linarith
    then show ?thesis
    proof cases
      case 1
      then have "length (json_body s) = 6 + length (json_body (drop 1 s))" using False by (simp add: json_body.simps [of s])
      then show ?thesis using IH [of 1] pos by linarith
    next
      case 2
      then have "length (json_body s) = length (json_escape (hd s)) + length (json_body (drop 1 s))"
        using False by (simp add: json_body.simps [of s])
      then show ?thesis using IH [of 1] e [of "hd s"] pos by linarith
    next
      case 3
      have "length (json_rune (take ?n s)) \<le> 6 * ?n" using 3 n by (simp add: json_rune_def)
      moreover have "length (json_body s) = length (json_rune (take ?n s)) + length (json_body (drop ?n s))"
        using 3 False by (simp add: json_body.simps [of s] Let_def)
      ultimately show ?thesis using IH [of ?n] 3 n by linarith
    qed
  qed
qed

section \<open>Small texts\<close>

lemma next_is_head [simp]: "\<not> is_ws x \<Longrightarrow> next_is c (x # xs) = (if x = c then Some xs else None)"
  by (simp add: next_is_def skip_ws_def)

lemma skip_ws_head [simp]: "\<not> is_ws x \<Longrightarrow> skip_ws (x # xs) = x # xs"
  by (simp add: skip_ws_def)

lemma is_ws_marks [simp]:
  "\<not> is_ws CHR ''{''" "\<not> is_ws CHR ''}''" "\<not> is_ws CHR 0x22" "\<not> is_ws CHR '':''" "\<not> is_ws CHR '',''"
  "\<not> is_ws CHR ''f''" "\<not> is_ws CHR ''t''" "\<not> is_ws CHR ''n''" "\<not> is_ws CHR ''-''"
  by (simp_all add: is_ws_def)

lemma is_ws_digit [simp]: "is_digit c \<Longrightarrow> \<not> is_ws c"
  by (auto simp: is_ws_def is_digit_def Let_def)

text \<open>One member, with enough fuel for its value.\<close>

lemma parse_member:
  assumes "str_body (kt @ CHR 0x22 # CHR '':'' # r) = Some (k, CHR '':'' # r)"
    and "parse_value n r = Some (v, c # t)" and "c = CHR ''}'' \<or> c = CHR '',''"
  shows "parse_members (Suc n) (CHR 0x22 # kt @ CHR 0x22 # CHR '':'' # r)
    = (if c = CHR ''}'' then Some ([(k, v)], t) else map_option (\<lambda>(ms, rest). ((k, v) # ms, rest)) (parse_members n t))"
  using assms by auto

lemma parse_object:
  "parse_value (Suc n) (CHR ''{'' # CHR 0x22 # r) = map_option (\<lambda>(ms, rest). (JObj ms, rest)) (parse_members n (CHR 0x22 # r))"
  by simp

lemma parse_string: "parse_value (Suc n) (json_quote s @ t) = Some (JStr (utf8_valid s), t)"
  by (simp add: json_quote_def scalar_def str_body_quote)

lemma parse_false: "parse_value (Suc n) (''false'' @ t) = Some (JBool False, t)"
  by (simp add: scalar_def has_prefix_def)

text \<open>A decimal number is read up to a byte that cannot continue it.\<close>

lemma digits1_span: "list_all is_digit ds \<Longrightarrow> ds \<noteq> [] \<Longrightarrow> \<not> is_digit c \<Longrightarrow> digits1 (ds @ c # t) = Some (ds, c # t)"
  by (simp add: digits1_def takeWhile_append2 dropWhile_append2 list_all_iff)

lemma utf8_valid_ascii: "list_all (\<lambda>c. (of_char c :: nat) < 128) s \<Longrightarrow> utf8_valid s = s"
proof (induction s)
  case Nil
  show ?case by (simp add: utf8_valid.simps [of "[]"])
next
  case (Cons c cs)
  then have "utf8_len (c # cs) = 1" using utf8_len_1 by simp
  with Cons show ?case by (simp add: utf8_valid.simps [of "c # cs"])
qed

lemma is_digit_num_int:
  assumes "list_all is_digit ds" "ds \<noteq> []" "hd ds \<noteq> CHR ''0'' \<or> ds = ''0''" "\<not> is_digit c"
  shows "num_int (ds @ c # t) = Some (ds, c # t)"
  using assms digits1_span [OF assms(1,2,4), of t] by (cases ds) (auto simp: num_int_def)

lemma dec_str_no_zero: "0 \<le> n \<Longrightarrow> hd (dec_str n) \<noteq> CHR ''0'' \<or> dec_str n = ''0''"
proof (induction n rule: dec_str.induct)
  case (1 n)
  show ?case
  proof (cases "n < 10")
    case True
    then have "n = 0 \<or> n = 1 \<or> n = 2 \<or> n = 3 \<or> n = 4 \<or> n = 5 \<or> n = 6 \<or> n = 7 \<or> n = 8 \<or> n = 9" using 1(2) by presburger
    then show ?thesis by (auto simp: dec_str.simps [of n] digit_def)
  next
    case False
    have ne: "dec_str (n div 10) \<noteq> []" by simp
    have "digit 0 = CHR ''0''" by code_simp
    then have "dec_str 0 = ''0''" by (simp add: dec_str.simps [of 0])
    moreover have "0 \<le> n div 10" "n div 10 \<noteq> 0" using False by linarith+
    ultimately have "dec_str (n div 10) \<noteq> ''0''" using dec_str_inj [of "n div 10" 0] by simp
    with 1 False ne show ?thesis by (simp add: dec_str.simps [of n] hd_append)
  qed
qed

lemma list_all_dec_str: "0 \<le> n \<Longrightarrow> list_all is_digit (dec_str n)"
  using parse_nat_dec_str [of n] by (auto simp: parse_nat_def split: if_splits)

lemma num_lit_fmt_d: "num_lit (fmt_d n @ CHR ''}'' # t) = Some (fmt_d n, CHR ''}'' # t)"
proof -
  have c: "\<not> is_digit CHR ''}''" by (simp add: is_digit_def)
  have i: "num_int (dec_str m @ CHR ''}'' # t) = Some (dec_str m, CHR ''}'' # t)" if "0 \<le> m" for m
    using that dec_str_no_zero [of m] by (intro is_digit_num_int c list_all_dec_str) simp_all
  show ?thesis
  proof (cases "n < 0")
    case True
    then show ?thesis using i [of "- n"] by (simp add: fmt_d_def num_lit_def num_part_def)
  next
    case False
    then obtain x xs where x: "dec_str n = x # xs" "is_digit x" using dec_str_head [of n] by auto
    then have "x \<noteq> CHR ''-''" by (auto simp: is_digit_def)
    then show ?thesis using False i [of n] x by (simp add: fmt_d_def num_lit_def num_part_def)
  qed
qed

lemma parse_number: "parse_value (Suc k) (fmt_d n @ CHR ''}'' # t) = Some (JNum (fmt_d n), CHR ''}'' # t)"
proof -
  obtain x xs where x: "fmt_d n = x # xs" "x = CHR ''-'' \<or> is_digit x"
    using dec_str_head [of n] dec_str_head [of "- n"] by (cases "n < 0") (auto simp: fmt_d_def)
  then have ws: "\<not> is_ws x" by auto
  have ne: "x \<notin> {CHR ''{'', CHR ''['', CHR 0x22, CHR ''n'', CHR ''t'', CHR ''f''}" using x(2) by (auto simp: is_digit_def)
  have "scalar (fmt_d n @ CHR ''}'' # t) = map_option (\<lambda>(n, rest). (JNum n, rest)) (num_lit (fmt_d n @ CHR ''}'' # t))"
    using ws ne by (auto simp: scalar_def x(1) has_prefix_def)
  then show ?thesis using ws ne by (simp add: x(1) num_lit_fmt_d [of n t, unfolded x(1) append_Cons])
qed

text \<open>An object with one member.\<close>

lemma json_object1:
  assumes "\<And>n. parse_value (Suc n) (v @ ''}'') = Some (x, ''}'')"
  shows "json_value (''{'' @ json_quote k @ '':'' @ v @ ''}'') = Some (JObj [(utf8_valid k, x)], '''')"
proof -
  let ?r = "v @ ''}''"
  let ?raw = "CHR ''{'' # CHR 0x22 # json_body k @ CHR 0x22 # CHR '':'' # ?r"
  obtain n where n: "2 * length ?raw = Suc n" by simp
  have "parse_members (Suc (Suc n)) (CHR 0x22 # json_body k @ CHR 0x22 # CHR '':'' # ?r) = Some ([(utf8_valid k, x)], '''')"
    using parse_member [OF str_body_quote [of k "CHR '':'' # ?r"] assms [of n]] by (simp only: simp_thms if_True refl)
  then have "parse_value (Suc (Suc (2 * length ?raw))) ?raw = Some (JObj [(utf8_valid k, x)], '''')"
    unfolding n parse_object by simp
  then show ?thesis by (simp add: json_value_def json_quote_def)
qed

lemma json_object2:
  assumes "\<And>n. parse_value (Suc n) (v @ '','' @ json_quote k' @ '':'' @ v' @ ''}'') = Some (x, '','' @ json_quote k' @ '':'' @ v' @ ''}'')"
    and "\<And>n. parse_value (Suc n) (v' @ ''}'') = Some (x', ''}'')"
  shows "json_value (''{'' @ json_quote k @ '':'' @ v @ '','' @ json_quote k' @ '':'' @ v' @ ''}'')
    = Some (JObj [(utf8_valid k, x), (utf8_valid k', x')], '''')"
proof -
  let ?r' = "v' @ ''}''"
  let ?m = "CHR 0x22 # json_body k' @ CHR 0x22 # CHR '':'' # ?r'"
  let ?r = "v @ CHR '','' # ?m"
  let ?raw = "CHR ''{'' # CHR 0x22 # json_body k @ CHR 0x22 # CHR '':'' # ?r"
  obtain n where n: "2 * length ?raw = Suc (Suc n)" by simp
  have q: "'','' @ json_quote k' @ '':'' @ v' @ ''}'' = CHR '','' # ?m" by (simp add: json_quote_def)
  have second: "parse_members (Suc (Suc n)) ?m = Some ([(utf8_valid k', x')], '''')"
    using parse_member [OF str_body_quote [of k' "CHR '':'' # ?r'"] assms(2) [of n]] by (simp only: simp_thms if_True refl)
  have "parse_members (Suc (Suc (Suc n))) (CHR 0x22 # json_body k @ CHR 0x22 # CHR '':'' # ?r)
      = Some ([(utf8_valid k, x), (utf8_valid k', x')], '''')"
    using parse_member [OF str_body_quote [of k "CHR '':'' # ?r"] assms(1) [unfolded q, of "Suc n"]]
    by (simp only: second simp_thms if_False option.map prod.case) simp
  then have "parse_value (Suc (Suc (2 * length ?raw))) ?raw = Some (JObj [(utf8_valid k, x), (utf8_valid k', x')], '''')"
    unfolding n parse_object by simp
  then show ?thesis by (simp add: json_value_def json_quote_def)
qed

end
