(* ===== verification/Agent_Tools.thy ===== *)
theory Agent_Tools
  imports Agent_Views Fallback Volcano_Resources Go_Json_Write Validate
begin

text \<open>
  The first half of \<open>internal/agent/skills.go\<close>: the tools a model may call while it looks at a report. A
  session fixes the namespace, the Pod, the nodes and the source files; \<open>execute\<close> checks and decodes the
  arguments of one call, reads the cluster or the source index and encodes the answer. The cluster, the
  file system and the encoder of the Kubernetes types are functions of the environment \<open>tool_api\<close>. The
  facts: an answer depends on nothing outside the scope (\<open>tools_confined\<close>), the Pod is read once
  (\<open>target_pod_fixed\<close>), source reads stay inside the worktree and the index, and every answer is bounded.
\<close>

definition getTargetPodToolName :: string where "getTargetPodToolName = ''k8s_get_target_pod''"
definition listTargetEventsToolName :: string where "listTargetEventsToolName = ''k8s_list_target_pod_events''"
definition listPodGroupEventsToolName :: string where "listPodGroupEventsToolName = ''k8s_list_target_podgroup_events''"
definition getNodeToolName :: string where "getNodeToolName = ''k8s_get_node''"
definition getSchedulerLogsToolName :: string where "getSchedulerLogsToolName = ''k8s_get_volcano_scheduler_logs''"
definition readVolcanoSourceToolName :: string where "readVolcanoSourceToolName = ''source_read_volcano_scheduler_file''"

lemmas tool_names = getTargetPodToolName_def listTargetEventsToolName_def listPodGroupEventsToolName_def
  getNodeToolName_def getSchedulerLogsToolName_def readVolcanoSourceToolName_def

definition defaultEventLimit :: int where "defaultEventLimit = 20"
definition maximumEventLimit :: int where "maximumEventLimit = 50"
definition defaultSchedulerLogLines :: int where "defaultSchedulerLogLines = 200"
definition maximumSchedulerLogLines :: int where "maximumSchedulerLogLines = 1000"
definition maximumToolLogText :: nat where "maximumToolLogText = 48 * 1024"
definition maximumToolSourceText :: nat where "maximumToolSourceText = 48 * 1024"
definition maxToolArguments :: nat where "maxToolArguments = 8 * 1024"
definition maxToolResultSize :: nat where "maxToolResultSize = 64 * 1024"

text \<open>The tools as they are described to the model.\<close>

definition limit_parameter :: tool_parameter where
  "limit_parameter = \<lparr>tp_name = ''limit'', tp_type = IntParam 1 maximumEventLimit,
     tp_description = ''Maximum number of newest events to return.'', tp_required = False\<rparr>"

definition readOnlyKubernetesTools :: "chat_tool list" where
  "readOnlyKubernetesTools =
     [\<lparr>ct_tool = getTargetPodToolName,
       ct_description = ''Return scheduling-relevant, sanitized details for the selected Pending Pod. The target is fixed by the analysis; this tool cannot read another Pod.'',
       ct_parameters = []\<rparr>,
      \<lparr>ct_tool = listPodGroupEventsToolName,
       ct_description = ''List recent Kubernetes Events attached to the selected Pod's PodGroup. The PodGroup is derived from the fixed target Pod and cannot be selected arbitrarily.'',
       ct_parameters = [limit_parameter]\<rparr>,
      \<lparr>ct_tool = listTargetEventsToolName,
       ct_description = ''List recent Kubernetes Events for the selected Pod only. An empty or failed result is uncertainty, not proof of schedulability.'',
       ct_parameters = [limit_parameter]\<rparr>,
      \<lparr>ct_tool = getNodeToolName,
       ct_description = ''Return scheduling-relevant, sanitized details for one node already included in this analysis.'',
       ct_parameters = [\<lparr>tp_name = ''name'', tp_type = StringParam,
         tp_description = ''Exact node name from the analyzed node results.'', tp_required = True\<rparr>]\<rparr>,
      \<lparr>ct_tool = getSchedulerLogsToolName,
       ct_description = ''Return a bounded log tail from the current Volcano scheduler leader. Use it only when report and event evidence do not establish the plugin outcome.'',
       ct_parameters = [\<lparr>tp_name = ''tailLines'', tp_type = IntParam 1 maximumSchedulerLogLines,
         tp_description = ''Number of scheduler log lines to request.'', tp_required = False\<rparr>]\<rparr>,
      \<lparr>ct_tool = readVolcanoSourceToolName,
       ct_description = ''Read one dynamically discovered Volcano scheduler hook source file from the exact selected branch or tag worktree. Only files listed in the source index are allowed.'',
       ct_parameters = [\<lparr>tp_name = ''path'', tp_type = StringParam,
         tp_description = ''Repository-relative .go path from the supplied source index.'', tp_required = True\<rparr>]\<rparr>]"

section \<open>Answers\<close>

text \<open>What a tool answers with; how a map or a Kubernetes object is encoded is up to the encoder.\<close>

datatype tool_data =
    PodData pod_view
  | EventsData "event_view list"
  | NodeData node_view
  | LogsData int string
  | SourceData string string

record tool_api =
  ta_cluster :: client_api
  ta_volcano :: volcano_api
  ta_eval_links :: "string \<Rightarrow> go_error + string"
  ta_open :: "string \<Rightarrow> go_error + (go_error + string)"
  ta_marshal :: "tool_data \<Rightarrow> go_error + string"
  ta_json_error :: "string \<Rightarrow> string \<Rightarrow> string"

text \<open>\<open>json.Marshal(toolResponse{OK: false, Error: message})\<close>, which omits an empty message and never fails.\<close>

definition encodeToolError :: "string \<Rightarrow> string" where
  "encodeToolError message =
     (let message' = (if 2048 < length message then take 2048 message else message)
      in ''{'' @ json_quote ''ok'' @ '':false'' @
         (if message' = '''' then '''' else '','' @ json_quote ''error'' @ '':'' @ json_quote message') @ ''}'')"

definition encodeToolSuccess :: "tool_api \<Rightarrow> tool_data \<Rightarrow> string" where
  "encodeToolSuccess api data =
     (case ta_marshal api data of
        Inl e \<Rightarrow> encodeToolError (''encode tool result: '' @ err_text e)
      | Inr encoded \<Rightarrow>
          if maxToolResultSize < length encoded then encodeToolError ''tool result exceeds the size limit''
          else encoded)"

section \<open>Arguments\<close>

text \<open>
  The destination of a decoding: a struct with at most one field, of type \<open>int\<close> or \<open>int64\<close> (both of 64 bits)
  or \<open>string\<close>, with its value before.
\<close>

datatype argument = NoField | IntField string int | StrField string string

text \<open>One member of the object; \<open>None\<close> when it is unknown or of the wrong type. A null changes nothing.\<close>

definition set_field :: "argument \<Rightarrow> string \<times> json \<Rightarrow> argument option" where
  "set_field dest member =
     (case member of (key, v) \<Rightarrow>
        (case dest of
           NoField \<Rightarrow> None
         | IntField name old \<Rightarrow>
             if fold_name key \<noteq> fold_name name then None
             else (case v of
                 JNull \<Rightarrow> Some dest
               | JNum n \<Rightarrow> map_option (IntField name) (ParseInt 64 n)
               | _ \<Rightarrow> None)
         | StrField name old \<Rightarrow>
             if fold_name key \<noteq> fold_name name then None
             else (case v of
                 JNull \<Rightarrow> Some dest
               | JStr s \<Rightarrow> Some (StrField name s)
               | _ \<Rightarrow> None)))"

fun set_fields :: "argument \<Rightarrow> (string \<times> json) list \<Rightarrow> argument option" where
  "set_fields dest [] = Some dest"
| "set_fields dest (m # ms) = (case set_field dest m of None \<Rightarrow> None | Some dest' \<Rightarrow> set_fields dest' ms)"

definition text_one_object :: string where
  "text_one_object = ''invalid tool arguments: expected one JSON object''"

text \<open>A number decoded into an \<open>any\<close> must be in the range of a \<open>float64\<close>.\<close>

fun numbers_ok :: "json \<Rightarrow> bool" where
  "numbers_ok (JNum n) = (case ParseFloat n of Inl e \<Rightarrow> False | Inr x \<Rightarrow> True)"
| "numbers_ok (JArr es) = list_all numbers_ok es"
| "numbers_ok (JObj ms) = list_all (\<lambda>m. numbers_ok (snd m)) ms"
| "numbers_ok _ = True"

text \<open>
  The text of a syntax or type error is the decoder's; the first argument of \<open>json_error\<close> is the text
  decoded, the second what is left of it when the error occurs behind the first value.
\<close>

definition decodeToolArguments :: "(string \<Rightarrow> string \<Rightarrow> string) \<Rightarrow> string \<Rightarrow> argument \<Rightarrow> go_error + argument" where
  "decodeToolArguments json_error raw0 dest =
     (let raw = (if trim_space raw0 = '''' then ''{}'' else raw0);
          invalid = (\<lambda>rest. Inl (errorf (''invalid tool arguments: '' @ json_error raw rest)))
      in case json_value raw of
           None \<Rightarrow> invalid raw
         | Some (v, rest) \<Rightarrow>
             (case (case v of JNull \<Rightarrow> Some dest | JObj ms \<Rightarrow> set_fields dest ms | _ \<Rightarrow> None) of
                None \<Rightarrow> invalid raw
              | Some dest' \<Rightarrow>
                  if skip_ws rest = [] then Inr dest'
                  else (case json_value rest of
                      None \<Rightarrow> invalid rest
                    | Some (extra, _) \<Rightarrow> if numbers_ok extra then Inl (errorf text_one_object) else invalid rest)))"

section \<open>Source files\<close>

definition quoted_path :: "string \<Rightarrow> string" where
  "quoted_path requested = ''source path '' @ fmt_q requested"

definition readScopedSourceFile :: "tool_api \<Rightarrow> string \<Rightarrow> string \<Rightarrow> string list \<Rightarrow> go_error + string" where
  "readScopedSourceFile api base requested allowed =
     (let clean = path_clean requested
      in if base = '''' \<or> clean = ''.'' \<or> is_abs requested \<or> has_prefix clean ''../'' then
           Inl (errorf (quoted_path requested @ '' is outside the selected worktree''))
         else if \<not> List.member allowed clean then
           Inl (errorf (quoted_path requested @ '' is not in the selected hook index''))
         else
     (case ta_eval_links api base of
        Inl e \<Rightarrow> Inl (errorw ''resolve selected worktree: '' e)
      | Inr resolvedRoot \<Rightarrow>
     (case ta_eval_links api (path_join [resolvedRoot, clean]) of
        Inl e \<Rightarrow> Inl (errorw (''resolve '' @ quoted_path requested @ '': '') e)
      | Inr resolvedPath \<Rightarrow>
     (case path_rel resolvedRoot resolvedPath of
        Inl e \<Rightarrow> Inl (errorf (quoted_path requested @ '' escapes the selected worktree''))
      | Inr relative \<Rightarrow>
          if leaves_base relative then Inl (errorf (quoted_path requested @ '' escapes the selected worktree''))
          else
     (case ta_open api resolvedPath of
        Inl e \<Rightarrow> Inl (errorw (''open '' @ quoted_path requested @ '': '') e)
      | Inr file \<Rightarrow>
     (case map_sum id (take (maximumToolSourceText + 1)) file of
        Inl e \<Rightarrow> Inl (errorw (''read '' @ quoted_path requested @ '': '') e)
      | Inr content \<Rightarrow>
          if maximumToolSourceText < length content then Inr (take maximumToolSourceText content @ ''...'')
          else Inr content))))))"

section \<open>The session\<close>

text \<open>\<open>ts_pod\<close> is \<open>None\<close> until the Pod was read; then it is what the read returned, error or Pod.\<close>

record tool_session =
  ts_scope :: tool_scope
  ts_nodes :: "string list"
  ts_sources :: "string list"
  ts_pod :: "(go_error + pod) option"

text \<open>The cluster client of the caller may be nil.\<close>

definition newKubernetesToolSession :: "bool \<Rightarrow> tool_scope \<Rightarrow> go_error + tool_session" where
  "newKubernetesToolSession managed scope =
     (if \<not> managed then Inl (errorf ''Kubernetes cluster manager is nil'')
      else if sc_namespace scope = '''' \<or> sc_pod scope = '''' then
        Inl (errorf ''Kubernetes tool scope requires namespace and pod'')
      else Inr \<lparr>ts_scope = scope, ts_nodes = filter (\<lambda>name. name \<noteq> '''') (sc_node_names scope),
         ts_sources = concat (map (\<lambda>path.
           let clean = path_clean path
           in if clean \<noteq> ''.'' \<and> \<not> is_abs path \<and> \<not> has_prefix clean ''../'' then [clean] else [])
           (sc_source_files scope)),
         ts_pod = None\<rparr>)"

definition getTargetPod :: "tool_api \<Rightarrow> tool_session \<Rightarrow> (go_error + pod) \<times> tool_session" where
  "getTargetPod api s =
     (case ts_pod s of
        Some r \<Rightarrow> (r, s)
      | None \<Rightarrow>
          (let r = GetPod (ta_cluster api) (sc_namespace (ts_scope s)) (sc_pod (ts_scope s))
           in (r, s\<lparr>ts_pod := Some r\<rparr>)))"

section \<open>One call\<close>

definition tool_error :: "string \<Rightarrow> tool_session \<Rightarrow> string \<times> tool_session" where
  "tool_error message s = (encodeToolError message, s)"

definition with_arguments ::
  "tool_api \<Rightarrow> chat_tool_call \<Rightarrow> argument \<Rightarrow> tool_session \<Rightarrow> (argument \<Rightarrow> string \<times> tool_session)
    \<Rightarrow> string \<times> tool_session" where
  "with_arguments api call dest s k =
     (case decodeToolArguments (ta_json_error api) (tc_arguments call) dest of
        Inl e \<Rightarrow> tool_error (err_text e) s
      | Inr arguments \<Rightarrow> k arguments)"

definition with_pod ::
  "tool_api \<Rightarrow> tool_session \<Rightarrow> (pod \<Rightarrow> tool_session \<Rightarrow> string \<times> tool_session) \<Rightarrow> string \<times> tool_session" where
  "with_pod api s k =
     (case getTargetPod api s of
        (Inl e, s') \<Rightarrow> tool_error (err_text e) s'
      | (Inr pod, s') \<Rightarrow> k pod s')"

fun int_argument :: "argument \<Rightarrow> int" where
  "int_argument (IntField name n) = n"
| "int_argument _ = 0"

fun str_argument :: "argument \<Rightarrow> string" where
  "str_argument (StrField name t) = t"
| "str_argument _ = ''''"

definition limit_error :: string where
  "limit_error = ''limit must be between 1 and '' @ fmt_d maximumEventLimit"

definition tail_error :: string where
  "tail_error = ''tailLines must be between 1 and '' @ fmt_d maximumSchedulerLogLines"

definition run_target_events :: "tool_api \<Rightarrow> int \<Rightarrow> tool_session \<Rightarrow> string \<times> tool_session" where
  "run_target_events api limit s =
     (if limit < 1 \<or> maximumEventLimit < limit then tool_error limit_error s
      else (case ListPodEvents (ta_cluster api) (sc_namespace (ts_scope s)) (sc_pod (ts_scope s)) of
          Inl e \<Rightarrow> tool_error (err_text e) s
        | Inr events \<Rightarrow> (encodeToolSuccess api (EventsData (summarizeEvents events limit)), s)))"

definition run_group_events :: "tool_api \<Rightarrow> int \<Rightarrow> tool_session \<Rightarrow> string \<times> tool_session" where
  "run_group_events api limit s0 =
     (if limit < 1 \<or> maximumEventLimit < limit then tool_error limit_error s0
      else with_pod api s0 (\<lambda>pod s.
        let podGroup = podGroupName pod; namespace = sc_namespace (ts_scope s) in
        if podGroup = '''' then tool_error ''target Pod has no PodGroup association'' s
        else (case GetPodGroup (ta_volcano api) namespace podGroup of
            (found, Some e) \<Rightarrow> tool_error (err_text e) s
          | (found, None) \<Rightarrow>
              (case ListPodGroupEvents (ta_cluster api) namespace podGroup (pg_uid found) of
                 Inl e \<Rightarrow> tool_error (err_text e) s
               | Inr events \<Rightarrow> (encodeToolSuccess api (EventsData (summarizeEvents events limit)), s)))))"

definition run_node :: "tool_api \<Rightarrow> string \<Rightarrow> tool_session \<Rightarrow> string \<times> tool_session" where
  "run_node api name s0 =
     (if \<not> List.member (ts_nodes s0) name then tool_error (''node '' @ fmt_q name @ '' is outside this analysis'') s0
      else (case GetNode (ta_cluster api) name of
          Inl e \<Rightarrow> tool_error (err_text e) s0
        | Inr node \<Rightarrow> with_pod api s0 (\<lambda>pod s. (encodeToolSuccess api (NodeData (summarizeNode node pod)), s))))"

definition run_logs :: "tool_api \<Rightarrow> int \<Rightarrow> tool_session \<Rightarrow> string \<times> tool_session" where
  "run_logs api tailLines s =
     (if tailLines < 1 \<or> maximumSchedulerLogLines < tailLines then tool_error tail_error s
      else (case GetVolcanoSchedulerLogs (ta_cluster api) tailLines of
          (logs, Some e) \<Rightarrow> tool_error (err_text e) s
        | (logs, None) \<Rightarrow> (encodeToolSuccess api (LogsData tailLines (limitToolText logs maximumToolLogText)), s)))"

definition run_source :: "tool_api \<Rightarrow> string \<Rightarrow> tool_session \<Rightarrow> string \<times> tool_session" where
  "run_source api path s =
     (case readScopedSourceFile api (sc_source_root (ts_scope s)) path (ts_sources s) of
        Inl e \<Rightarrow> tool_error (err_text e) s
      | Inr content \<Rightarrow> (encodeToolSuccess api (SourceData path (limitToolText content maximumToolSourceText)), s))"

definition execute_tool :: "tool_api \<Rightarrow> chat_tool_call \<Rightarrow> tool_session \<Rightarrow> string \<times> tool_session" where
  "execute_tool api call s =
     (if maxToolArguments < length (tc_arguments call) then tool_error ''tool arguments exceed the size limit'' s
      else if tc_name call = getTargetPodToolName then
        with_arguments api call NoField s (\<lambda>_. with_pod api s (\<lambda>pod s.
          (encodeToolSuccess api (PodData (summarizePod pod)), s)))
      else if tc_name call = listTargetEventsToolName then
        with_arguments api call (IntField ''limit'' defaultEventLimit) s
          (\<lambda>a. run_target_events api (int_argument a) s)
      else if tc_name call = listPodGroupEventsToolName then
        with_arguments api call (IntField ''limit'' defaultEventLimit) s
          (\<lambda>a. run_group_events api (int_argument a) s)
      else if tc_name call = getNodeToolName then
        with_arguments api call (StrField ''name'' '''') s (\<lambda>a. run_node api (str_argument a) s)
      else if tc_name call = getSchedulerLogsToolName then
        with_arguments api call (IntField ''tailLines'' defaultSchedulerLogLines) s
          (\<lambda>a. run_logs api (int_argument a) s)
      else if tc_name call = readVolcanoSourceToolName then
        with_arguments api call (StrField ''path'' '''') s (\<lambda>a. run_source api (str_argument a) s)
      else tool_error (''tool '' @ fmt_q (tc_name call) @ '' is not allowed'') s)"

text \<open>What the cluster and the file system answer may change between two calls, so it depends on the messages.\<close>

definition CompleteWithTools ::
  "chat_transport \<Rightarrow> llm_config \<Rightarrow> string \<Rightarrow> bool \<Rightarrow> (chat_message list \<Rightarrow> tool_api) \<Rightarrow> tool_scope
    \<Rightarrow> go_error + string" where
  "CompleteWithTools tr c prompt managed world scope =
     (case newKubernetesToolSession managed scope of
        Inl e \<Rightarrow> Inl e
      | Inr session \<Rightarrow>
          complete tr c prompt readOnlyKubernetesTools (Some (\<lambda>messages call s. execute_tool (world messages) call s)) session)"

section \<open>Answers are bounded\<close>

definition small :: "string \<times> tool_session \<Rightarrow> bool" where
  "small r \<longleftrightarrow> length (fst r) \<le> maxToolResultSize"

lemma length_tool_error: "length (encodeToolError message) \<le> 12400"
proof -
  have q: "length (json_quote t) \<le> 6 * length t + 2" for t using length_json_body [of t] by (simp add: json_quote_def)
  define cut where "cut = (if 2048 < length message then take 2048 message else message)"
  have "length cut \<le> 2048" by (simp add: cut_def)
  then have "length (json_quote cut) \<le> 12290" using q [of cut] by simp
  then show ?thesis
    using q [of "''ok''"] q [of "''error''"] by (simp add: encodeToolError_def cut_def [symmetric] Let_def)
qed

lemma small_error: "small (tool_error message s)"
  using length_tool_error [of message] by (simp add: small_def tool_error_def maxToolResultSize_def)

lemma small_success: "small (encodeToolSuccess api data, s)"
proof -
  have "length (encodeToolError m) \<le> maxToolResultSize" for m
    using length_tool_error [of m] by (simp add: maxToolResultSize_def)
  then show ?thesis by (simp add: small_def encodeToolSuccess_def split: sum.split)
qed

lemma small_arguments: "(\<And>a. small (k a)) \<Longrightarrow> small (with_arguments api call dest s k)"
  by (simp add: with_arguments_def small_error split: sum.split)

lemma small_pod: "(\<And>pod s'. small (k pod s')) \<Longrightarrow> small (with_pod api s k)"
  by (simp add: with_pod_def small_error split: sum.split prod.split)

lemmas small_intros = small_error small_success small_arguments small_pod

lemma small_runs:
  "small (run_target_events api n s)" "small (run_group_events api n s)" "small (run_node api name s)"
  "small (run_logs api n s)" "small (run_source api path s)"
  by (auto simp: run_target_events_def run_group_events_def run_node_def run_logs_def run_source_def Let_def
      intro!: small_intros split: sum.split option.split prod.split)

lemma small_execute: "small (execute_tool api call s)"
  unfolding execute_tool_def by (auto intro!: small_intros small_runs)

text \<open>Whatever the cluster, the file system and the encoder return, and whatever the model asks for, the
  answer of a tool is at most 64 KiB; an error is at most 12,400 bytes, although each byte of a message
  may be written as six.\<close>

theorem tool_answers_bounded:
  "length (fst (execute_tool api call s)) \<le> 65536 \<and> length (encodeToolError message) \<le> 12400"
  using small_execute [of api call s] length_tool_error by (simp add: small_def maxToolResultSize_def)

section \<open>The session\<close>

text \<open>What no call changes, and the Pod, which is read when a call first needs it.\<close>

definition session_of :: "tool_session \<Rightarrow> tool_session \<Rightarrow> bool" where
  "session_of s s' \<longleftrightarrow> ts_scope s' = ts_scope s \<and> ts_nodes s' = ts_nodes s \<and> ts_sources s' = ts_sources s
     \<and> (ts_pod s \<noteq> None \<longrightarrow> ts_pod s' = ts_pod s)"

definition kept :: "tool_api \<Rightarrow> tool_session \<Rightarrow> string \<times> tool_session \<Rightarrow> bool" where
  "kept api s r \<longleftrightarrow> snd r = s \<or> snd r = snd (getTargetPod api s)"

lemma kept_same: "kept api s (tool_error message s)" "kept api s (answer, s)"
  by (simp_all add: kept_def tool_error_def)

lemma kept_arguments: "(\<And>a. kept api s (k a)) \<Longrightarrow> kept api s (with_arguments api call dest s k)"
  by (simp add: with_arguments_def kept_same split: sum.split)

lemma getTargetPod_again [simp]: "getTargetPod api' (snd (getTargetPod api s)) = getTargetPod api s"
  by (cases "ts_pod s") (simp_all add: getTargetPod_def Let_def)

lemma kept_pod:
  assumes "\<And>pod s'. s' = snd (getTargetPod api s) \<Longrightarrow> snd (k pod s') = s'"
  shows "kept api s (with_pod api s k)"
proof (cases "getTargetPod api s")
  case (Pair r s')
  then have "snd (with_pod api s k) = s'"
    using assms [of s'] by (simp add: with_pod_def tool_error_def split: sum.split)
  then show ?thesis by (simp add: kept_def Pair)
qed

lemma kept_execute: "kept api s (execute_tool api call s)"
proof -
  have runs: "kept api s (run_target_events api n s)" "kept api s (run_logs api n s)" "kept api s (run_source api p s)" for n p
    by (auto simp: run_target_events_def run_logs_def run_source_def intro: kept_same split: sum.split option.split prod.split)
  have group: "kept api s (run_group_events api n s)" for n
    unfolding run_group_events_def
    by (auto intro!: kept_same kept_pod simp: Let_def tool_error_def split: sum.split option.split prod.split)
  have node: "kept api s (run_node api name s)" for name
    unfolding run_node_def by (auto intro!: kept_same kept_pod split: sum.split)
  show ?thesis
    unfolding execute_tool_def by (auto intro!: kept_same kept_arguments kept_pod runs group node)
qed

text \<open>A sequence of calls, each with the environment it is made in.\<close>

definition run_calls :: "(tool_api \<times> chat_tool_call) list \<Rightarrow> tool_session \<Rightarrow> tool_session" where
  "run_calls steps s = fold (\<lambda>(api, call) s. snd (execute_tool api call s)) steps s"

lemma run_calls_snoc: "run_calls (steps @ [(api, call)]) s = snd (execute_tool api call (run_calls steps s))"
  by (simp add: run_calls_def)

lemma kept_session: "kept api s r \<Longrightarrow> session_of s (snd r)"
  by (auto simp: kept_def session_of_def getTargetPod_def Let_def split: option.split)

lemma session_of_trans: "session_of s t \<Longrightarrow> session_of t u \<Longrightarrow> session_of s u"
  by (auto simp: session_of_def)

lemma run_session_of: "session_of s (run_calls steps s)"
proof (induction steps rule: rev_induct)
  case Nil
  show ?case by (simp add: session_of_def run_calls_def)
next
  case (snoc step steps)
  obtain api call where "step = (api, call)" by force
  with session_of_trans [OF snoc kept_session [OF kept_execute]] show ?case by (simp add: run_calls_snoc)
qed

lemma run_reads_pod:
  assumes "ts_pod s = None"
  shows "ts_pod (run_calls steps s) = None
    \<or> (\<exists>(api, call) \<in> set steps.
         ts_pod (run_calls steps s) = Some (GetPod (ta_cluster api) (sc_namespace (ts_scope s)) (sc_pod (ts_scope s))))"
proof (induction steps rule: rev_induct)
  case Nil
  show ?case using assms by (simp add: run_calls_def)
next
  case (snoc step steps)
  obtain api call where step: "step = (api, call)" by force
  let ?t = "run_calls steps s"
  have scope: "ts_scope ?t = ts_scope s" using run_session_of [of s steps] by (simp add: session_of_def)
  consider "snd (execute_tool api call ?t) = ?t"
    | "snd (execute_tool api call ?t) = snd (getTargetPod api ?t)"
    using kept_execute [of api ?t call] by (auto simp: kept_def)
  then show ?case
  proof cases
    case 1
    then show ?thesis using snoc by (auto simp: step run_calls_snoc)
  next
    case 2
    then show ?thesis
      using snoc by (cases "ts_pod ?t") (auto simp: step run_calls_snoc getTargetPod_def Let_def scope)
  qed
qed

text \<open>Over any sequence of calls, with a cluster that changes between them: scope, nodes and index stay
  as they are, the Pod read once is the Pod of all later calls, and it is what a read of the selected Pod
  returned at one of the calls.\<close>

theorem target_pod_fixed:
  "let s' = run_calls steps s in
     ts_scope s' = ts_scope s \<and> ts_nodes s' = ts_nodes s \<and> ts_sources s' = ts_sources s
     \<and> (case ts_pod s of
          Some r \<Rightarrow> ts_pod s' = Some r
        | None \<Rightarrow> ts_pod s' = None
            \<or> (\<exists>(api, call) \<in> set steps.
                 ts_pod s' = Some (GetPod (ta_cluster api) (sc_namespace (ts_scope s)) (sc_pod (ts_scope s)))))"
  using run_session_of [of s steps] run_reads_pod [of s steps]
  by (simp add: session_of_def Let_def split: option.split)

section \<open>Source reads\<close>

lemma read_source_cases:
  assumes "readScopedSourceFile api base requested allowed = Inr content"
  obtains resolvedRoot resolvedPath relative body
  where "base \<noteq> ''''" "\<not> is_abs requested" "path_clean requested \<in> set allowed"
    and "ta_eval_links api base = Inr resolvedRoot"
    and "ta_eval_links api (path_join [resolvedRoot, path_clean requested]) = Inr resolvedPath"
    and "path_rel resolvedRoot resolvedPath = Inr relative" "\<not> leaves_base relative"
    and "ta_open api resolvedPath = Inr (Inr body)" "content = limitToolText body maximumToolSourceText"
proof -
  have long: "\<exists>body. x = Inr body \<and> take n c @ ''...'' = limitToolText body n"
    if "map_sum id (take (Suc n)) x = (Inr c :: go_error + string)" "n < length c" for x n c
    using that by (cases x) (auto simp: limitToolText_def)
  have short: "\<exists>body. x = Inr body \<and> c = limitToolText body n"
    if "map_sum id (take (Suc n)) x = (Inr c :: go_error + string)" "\<not> n < length c" for x n c
    using that by (cases x) (auto simp: limitToolText_def min_def split: if_splits)
  show ?thesis
    using assms that
    by (auto simp: readScopedSourceFile_def Let_def List.member_iff split: if_splits sum.splits dest: long short)
qed

text \<open>The documented behaviour of \<open>filepath.EvalSymlinks\<close> the program relies on: an absolute path stays absolute.\<close>

definition links_absolute :: "tool_api \<Rightarrow> bool" where
  "links_absolute api \<longleftrightarrow> (\<forall>p q. ta_eval_links api p = Inr q \<longrightarrow> is_abs p \<longrightarrow> is_abs q)"

text \<open>A source file is only returned when the index lists it and, with all links resolved, it lies below
  the worktree: its path is that of the resolved worktree and more elements. What is returned is the file,
  or its first 48 KiB and three dots.\<close>

theorem source_read_confined:
  assumes "readScopedSourceFile api base requested allowed = Inr content"
    and "is_abs base" and "links_absolute api"
  shows "path_clean requested \<in> set allowed
    \<and> (\<exists>top path rest body. ta_eval_links api base = Inr top
         \<and> ta_eval_links api (path_join [top, path_clean requested]) = Inr path
         \<and> clean_parts path = clean_parts top @ rest
         \<and> ta_open api path = Inr (Inr body)
         \<and> content = (if length body \<le> 49152 then body else take 49152 body @ ''...''))"
  using assms(1)
proof (rule read_source_cases)
  fix top path relative body
  assume r: "path_clean requested \<in> set allowed" "ta_eval_links api base = Inr top"
    "ta_eval_links api (path_join [top, path_clean requested]) = Inr path"
    "path_rel top path = Inr relative" "\<not> leaves_base relative" "ta_open api path = Inr (Inr body)"
    "content = limitToolText body maximumToolSourceText"
  have abs: "ta_eval_links api p = Inr q \<Longrightarrow> is_abs p \<Longrightarrow> is_abs q" for p q
    using assms(3) unfolding links_absolute_def by blast
  have top: "is_abs top" by (rule abs [OF r(2) assms(2)])
  then have ne: "top \<noteq> ''''" by (auto simp: is_abs_def has_prefix_def)
  then have "path_join [top, path_clean requested] = path_clean (join [top, path_clean requested] ''/'')"
    by (simp add: path_join_def)
  moreover have "is_abs (join [top, path_clean requested] ''/'')"
    using top by (auto simp: is_abs_def has_prefix_def prefix_def)
  ultimately have "is_abs path" using abs [OF r(3)] by simp
  then obtain rest where "clean_parts path = clean_parts top @ rest"
    using path_rel_abs(2) [OF top _ r(4)] r(5) by blast
  moreover have "limitToolText body maximumToolSourceText
      = (if length body \<le> 49152 then body else take 49152 body @ ''...'')"
    by (simp add: limitToolText_def maximumToolSourceText_def)
  ultimately show ?thesis using r by auto
qed

definition sample_client :: client_api where
  "sample_client = \<lparr>ka_ctx_err = None, ka_pods = [], ka_index_err = None, ka_pod = (\<lambda>ns name. Inr empty_pod),
     ka_nodes = Inr [empty_node], ka_node = (\<lambda>name. Inr (empty_node\<lparr>nd_name := name\<rparr>)),
     ka_events = (\<lambda>ns selectors. Inr []), ka_lease = (\<lambda>ns name. Inr None), ka_exec = (\<lambda>ns p c cmd. ('''', None)),
     ka_logs = (\<lambda>ns p c n. Inr ('''', None))\<rparr>"

text \<open>A file system with one worktree behind a link.\<close>

definition sample_links :: "string \<Rightarrow> go_error + string" where
  "sample_links p =
     (if p = ''/work'' then Inr ''/data/tree'' else if p = ''/data/tree/pkg/a.go'' then Inr ''/data/tree/pkg/b.go''
      else Inl (errorf ''no such file''))"

definition sample_tools :: "client_api \<Rightarrow> volcano_api \<Rightarrow> tool_api" where
  "sample_tools cl vo = \<lparr>ta_cluster = cl, ta_volcano = vo, ta_eval_links = sample_links,
     ta_open = (\<lambda>p. if p = ''/data/tree/pkg/b.go'' then Inr (Inr ''package pkg'') else Inl (errorf ''no such file'')),
     ta_marshal = (\<lambda>d. Inr ''data''), ta_json_error = (\<lambda>a b. ''bad'')\<rparr>"

lemma sample_reads:
  "readScopedSourceFile (sample_tools cl vo) ''/work'' ''pkg//x/../a.go'' [''pkg/a.go''] = Inr ''package pkg''"
proof -
  have c: "path_clean ''pkg//x/../a.go'' = ''pkg/a.go''" "\<not> is_abs ''pkg//x/../a.go''" by code_simp+
  have j: "path_join [''/data/tree'', ''pkg/a.go''] = ''/data/tree/pkg/a.go''" by code_simp
  have rel: "path_rel ''/data/tree'' ''/data/tree/pkg/b.go'' = Inr ''pkg/b.go''" by code_simp
  show ?thesis
    by (simp add: readScopedSourceFile_def sample_tools_def sample_links_def c j rel leaves_base_def has_prefix_def
        List.member_iff maximumToolSourceText_def)
qed

lemma source_read_confined_witness:
  "\<exists>rest. clean_parts ''/data/tree/pkg/b.go'' = clean_parts ''/data/tree'' @ rest
     \<and> readScopedSourceFile (sample_tools sample_client sample_volcano) ''/work'' ''pkg//x/../a.go'' [''pkg/a.go''] = Inr ''package pkg''"
proof -
  let ?api = "sample_tools sample_client sample_volcano"
  have abs: "links_absolute ?api"
    by (auto simp: links_absolute_def sample_tools_def sample_links_def is_abs_def has_prefix_def split: if_splits)
  have w: "is_abs ''/work''" by (simp add: is_abs_def has_prefix_def)
  have j: "path_join [''/data/tree'', ''pkg/a.go''] = ''/data/tree/pkg/a.go''" "path_clean ''pkg//x/../a.go'' = ''pkg/a.go''"
    by code_simp+
  obtain top path rest where t: "ta_eval_links ?api ''/work'' = Inr top"
    "ta_eval_links ?api (path_join [top, path_clean ''pkg//x/../a.go'']) = Inr path"
    "clean_parts path = clean_parts top @ rest"
    using source_read_confined [OF sample_reads [of sample_client sample_volcano] w abs] by blast
  then have "top = ''/data/tree''" "path = ''/data/tree/pkg/b.go''"
    by (auto simp: sample_tools_def sample_links_def j)
  with t(3) sample_reads show ?thesis by blast
qed

section \<open>Nothing outside the scope\<close>

text \<open>
  Two environments that look the same from within a session: the selected Pod and its events, the PodGroup
  that Pod names and its events, the nodes of the analysis, the scheduler's logs, and the files below the
  worktree whose paths are indexed.
\<close>

definition same_cluster :: "tool_session \<Rightarrow> tool_api \<Rightarrow> tool_api \<Rightarrow> bool" where
  "same_cluster s api api' \<longleftrightarrow>
     (let namespace = sc_namespace (ts_scope s); name = sc_pod (ts_scope s) in
        GetPod (ta_cluster api) namespace name = GetPod (ta_cluster api') namespace name
        \<and> ListPodEvents (ta_cluster api) namespace name = ListPodEvents (ta_cluster api') namespace name
        \<and> (\<forall>n \<in> set (ts_nodes s). GetNode (ta_cluster api) n = GetNode (ta_cluster api') n)
        \<and> (\<forall>n. GetVolcanoSchedulerLogs (ta_cluster api) n = GetVolcanoSchedulerLogs (ta_cluster api') n)
        \<and> (\<forall>pod. fst (getTargetPod api s) = Inr pod \<longrightarrow>
             GetPodGroup (ta_volcano api) namespace (podGroupName pod) = GetPodGroup (ta_volcano api') namespace (podGroupName pod)
             \<and> (\<forall>uid. ListPodGroupEvents (ta_cluster api) namespace (podGroupName pod) uid
                  = ListPodGroupEvents (ta_cluster api') namespace (podGroupName pod) uid)))"

definition same_files :: "tool_session \<Rightarrow> tool_api \<Rightarrow> tool_api \<Rightarrow> bool" where
  "same_files s api api' \<longleftrightarrow>
     (let base = sc_source_root (ts_scope s) in
        ta_eval_links api base = ta_eval_links api' base
        \<and> (\<forall>top. ta_eval_links api base = Inr top \<longrightarrow>
             (\<forall>f \<in> set (ts_sources s). ta_eval_links api (path_join [top, f]) = ta_eval_links api' (path_join [top, f]))
             \<and> (\<forall>p rel. path_rel top p = Inr rel \<longrightarrow> \<not> leaves_base rel \<longrightarrow> ta_open api p = ta_open api' p)))"

definition same_encoding :: "tool_api \<Rightarrow> tool_api \<Rightarrow> bool" where
  "same_encoding api api' \<longleftrightarrow> ta_marshal api = ta_marshal api' \<and> ta_json_error api = ta_json_error api'"

lemma same_target: "same_cluster s api api' \<Longrightarrow> getTargetPod api s = getTargetPod api' s"
  by (simp add: same_cluster_def getTargetPod_def Let_def split: option.split)

lemma same_encode: "same_encoding api api' \<Longrightarrow> encodeToolSuccess api d = encodeToolSuccess api' d"
  by (simp add: same_encoding_def encodeToolSuccess_def)

lemma same_with_pod:
  assumes "same_cluster s api api'"
    and "\<And>pod. fst (getTargetPod api s) = Inr pod \<Longrightarrow> k pod (snd (getTargetPod api s)) = k' pod (snd (getTargetPod api s))"
  shows "with_pod api s k = with_pod api' s k'"
  using assms(2) unfolding with_pod_def same_target [OF assms(1)]
  by (cases "getTargetPod api' s") (auto simp: same_target [OF assms(1)] split: sum.split)

lemma same_with_arguments:
  "same_encoding api api' \<Longrightarrow> (\<And>a. k a = k' a) \<Longrightarrow> with_arguments api call dest s k = with_arguments api' call dest s k'"
  by (simp add: same_encoding_def with_arguments_def split: sum.split)

lemma target_scope [simp]: "ts_scope (snd (getTargetPod api s)) = ts_scope s"
  by (simp add: getTargetPod_def Let_def split: option.split)

lemma same_group_events:
  assumes c: "same_cluster s api api'" and e: "same_encoding api api'"
  shows "run_group_events api n s = run_group_events api' n s"
proof -
  have "with_pod api s k = with_pod api' s k'"
    if k: "k = (\<lambda>pod s. let podGroup = podGroupName pod; namespace = sc_namespace (ts_scope s) in
        if podGroup = '''' then tool_error ''target Pod has no PodGroup association'' s
        else (case GetPodGroup (ta_volcano api) namespace podGroup of
            (found, Some e) \<Rightarrow> tool_error (err_text e) s
          | (found, None) \<Rightarrow>
              (case ListPodGroupEvents (ta_cluster api) namespace podGroup (pg_uid found) of
                 Inl e \<Rightarrow> tool_error (err_text e) s
               | Inr events \<Rightarrow> (encodeToolSuccess api (EventsData (summarizeEvents events n)), s))))"
      and k': "k' = (\<lambda>pod s. let podGroup = podGroupName pod; namespace = sc_namespace (ts_scope s) in
        if podGroup = '''' then tool_error ''target Pod has no PodGroup association'' s
        else (case GetPodGroup (ta_volcano api') namespace podGroup of
            (found, Some e) \<Rightarrow> tool_error (err_text e) s
          | (found, None) \<Rightarrow>
              (case ListPodGroupEvents (ta_cluster api') namespace podGroup (pg_uid found) of
                 Inl e \<Rightarrow> tool_error (err_text e) s
               | Inr events \<Rightarrow> (encodeToolSuccess api' (EventsData (summarizeEvents events n)), s))))" for k k'
  proof (rule same_with_pod [OF c])
    fix pod
    assume "fst (getTargetPod api s) = Inr pod"
    then have g: "GetPodGroup (ta_volcano api) (sc_namespace (ts_scope s)) (podGroupName pod)
        = GetPodGroup (ta_volcano api') (sc_namespace (ts_scope s)) (podGroupName pod)"
      "ListPodGroupEvents (ta_cluster api) (sc_namespace (ts_scope s)) (podGroupName pod) uid
        = ListPodGroupEvents (ta_cluster api') (sc_namespace (ts_scope s)) (podGroupName pod) uid" for uid
      using c unfolding same_cluster_def Let_def by blast+
    show "k pod (snd (getTargetPod api s)) = k' pod (snd (getTargetPod api s))"
      by (simp only: k k' Let_def target_scope g same_encode [OF e])
  qed
  then show ?thesis unfolding run_group_events_def by (simp only:)
qed

lemma same_node:
  assumes c: "same_cluster s api api'" and e: "same_encoding api api'"
  shows "run_node api name s = run_node api' name s"
proof (cases "name \<in> set (ts_nodes s)")
  case True
  then have g: "GetNode (ta_cluster api) name = GetNode (ta_cluster api') name"
    using c unfolding same_cluster_def Let_def by blast
  have "with_pod api s (\<lambda>pod s. (encodeToolSuccess api (NodeData (summarizeNode node pod)), s))
      = with_pod api' s (\<lambda>pod s. (encodeToolSuccess api' (NodeData (summarizeNode node pod)), s))" for node
    by (rule same_with_pod [OF c]) (simp add: same_encode [OF e])
  then show ?thesis unfolding run_node_def g by (simp only:)
next
  case False
  then show ?thesis by (simp add: run_node_def List.member_iff)
qed

lemma same_source:
  assumes f: "same_files s api api'" and e: "same_encoding api api'"
  shows "run_source api path s = run_source api' path s"
proof -
  let ?base = "sc_source_root (ts_scope s)" and ?c = "path_clean path"
  have base: "ta_eval_links api ?base = ta_eval_links api' ?base" using f unfolding same_files_def Let_def by blast
  have "readScopedSourceFile api ?base path (ts_sources s) = readScopedSourceFile api' ?base path (ts_sources s)"
  proof (cases "?c \<in> set (ts_sources s)")
    case True
    show ?thesis
    proof (cases "ta_eval_links api ?base")
      case (Inl x)
      with base have "ta_eval_links api' ?base = Inl x" by simp
      with Inl show ?thesis unfolding readScopedSourceFile_def Let_def by (simp only: sum.case)
    next
      case (Inr top)
      with base have top: "ta_eval_links api' ?base = Inr top" by simp
      have j: "ta_eval_links api (path_join [top, ?c]) = ta_eval_links api' (path_join [top, ?c])"
        using f True Inr unfolding same_files_def Let_def by blast
      have o: "path_rel top p = Inr rel \<Longrightarrow> \<not> leaves_base rel \<Longrightarrow> ta_open api p = ta_open api' p" for p rel
        using f Inr unfolding same_files_def Let_def by blast
      show ?thesis
        unfolding readScopedSourceFile_def Let_def Inr top sum.case j
        by (intro if_cong refl sum.case_cong) (simp add: o)
    qed
  next
    case False
    then show ?thesis by (simp add: readScopedSourceFile_def Let_def List.member_iff)
  qed
  then show ?thesis unfolding run_source_def by (simp only: same_encode [OF e])
qed

text \<open>C18: No tool can see anything else: if two environments agree on the selected Pod, its PodGroup, their
  events, the analysed nodes, the scheduler's logs and the indexed files below the worktree, then every call
  has the same answer and leaves the same session in both, whatever the rest of the cluster and of the file
  system are, and whatever the model asks for.\<close>

theorem tools_confined:
  assumes "same_cluster s api api'" and "same_files s api api'" and "same_encoding api api'"
  shows "execute_tool api call s = execute_tool api' call s"
proof -
  note reads = assms(1) [unfolded same_cluster_def Let_def]
  have "ListPodEvents (ta_cluster api) (sc_namespace (ts_scope s)) (sc_pod (ts_scope s))
      = ListPodEvents (ta_cluster api') (sc_namespace (ts_scope s)) (sc_pod (ts_scope s))"
    using reads by blast
  then have events: "run_target_events api n s = run_target_events api' n s" for n
    unfolding run_target_events_def by (simp only: same_encode [OF assms(3)])
  have "GetVolcanoSchedulerLogs (ta_cluster api) n = GetVolcanoSchedulerLogs (ta_cluster api') n" for n
    using reads by blast
  then have logs: "run_logs api n s = run_logs api' n s" for n
    unfolding run_logs_def by (simp only: same_encode [OF assms(3)])
  have pod: "with_pod api s (\<lambda>pod s. (encodeToolSuccess api (PodData (summarizePod pod)), s))
      = with_pod api' s (\<lambda>pod s. (encodeToolSuccess api' (PodData (summarizePod pod)), s))"
    by (rule same_with_pod [OF assms(1)]) (simp add: same_encode [OF assms(3)])
  have a: "with_arguments api call dest s k = with_arguments api' call dest s k'" if "\<And>a. k a = k' a" for dest k k'
    by (rule same_with_arguments [OF assms(3) that])
  show ?thesis
    unfolding execute_tool_def
    by (intro if_cong refl a events logs pod same_group_events [OF assms(1,3)] same_node [OF assms(1,3)]
        same_source [OF assms(2,3)])
qed

definition sample_scope :: tool_scope where
  "sample_scope = \<lparr>sc_namespace = ''team'', sc_pod = ''train'', sc_node_names = [''node-1''], sc_source_root = ''/work'',
     sc_source_files = [''pkg/a.go'']\<rparr>"

definition sample_session :: tool_session where
  "sample_session = \<lparr>ts_scope = sample_scope, ts_nodes = [''node-1''], ts_sources = [''pkg/a.go''], ts_pod = None\<rparr>"

definition sample_call :: chat_tool_call where
  "sample_call = \<lparr>tc_id = ''1'', tc_type = ''function'', tc_name = ''k8s_get_node'', tc_arguments = ''{}''\<rparr>"

text \<open>The same cluster with another Pod, another node and other files on the disk.\<close>

definition other_tools :: tool_api where
  "other_tools = (sample_tools (sample_client\<lparr>
       ka_pod := (\<lambda>ns name. if name = ''train'' then Inr empty_pod else Inl (errorf ''gone'')),
       ka_node := (\<lambda>name. if name = ''node-1'' then Inr (empty_node\<lparr>nd_name := name\<rparr>) else Inl (errorf ''gone''))\<rparr>) sample_volcano)
     \<lparr>ta_open := (\<lambda>p. if p = ''/etc/passwd'' then Inr (Inr ''root'') else ta_open (sample_tools sample_client sample_volcano) p)\<rparr>"

lemma tools_confined_witness:
  "execute_tool (sample_tools sample_client sample_volcano) sample_call sample_session = execute_tool other_tools sample_call sample_session
   \<and> GetNode (ta_cluster (sample_tools sample_client sample_volcano)) ''node-2'' \<noteq> GetNode (ta_cluster other_tools) ''node-2''"
proof -
  let ?api = "sample_tools sample_client sample_volcano"
  have logs: "GetVolcanoSchedulerLogs (ta_cluster ?api) n = GetVolcanoSchedulerLogs (ta_cluster other_tools) n" for n
    by (simp add: GetVolcanoSchedulerLogs_def GetVolcanoScheduler_def by_index_def sample_tools_def other_tools_def
        sample_client_def readySchedulerPods_def)
  have c: "same_cluster sample_session ?api other_tools"
    by (simp add: same_cluster_def Let_def logs)
       (simp add: sample_session_def sample_scope_def sample_tools_def other_tools_def sample_client_def GetPod_def
        ListPodEvents_def GetNode_def ListPodGroupEvents_def)
  have "\<not> leaves_base rel \<Longrightarrow> path_rel ''/data/tree'' ''/etc/passwd'' = Inr rel \<Longrightarrow> False" for rel
  proof -
    have "path_rel ''/data/tree'' ''/etc/passwd'' = Inr ''../../etc/passwd''" by code_simp
    then show "\<not> leaves_base rel \<Longrightarrow> path_rel ''/data/tree'' ''/etc/passwd'' = Inr rel \<Longrightarrow> False"
      by (auto simp: leaves_base_def has_prefix_def)
  qed
  then have f: "same_files sample_session ?api other_tools"
    by (auto simp: same_files_def sample_session_def sample_scope_def sample_tools_def other_tools_def sample_links_def)
  have e: "same_encoding ?api other_tools" by (simp add: same_encoding_def sample_tools_def other_tools_def)
  from tools_confined [OF c f e] show ?thesis
    by (simp add: GetNode_def sample_tools_def other_tools_def sample_client_def)
qed

section \<open>Texts that go out and come in\<close>

lemma quoted_names: "utf8_valid ''ok'' = ''ok''" "utf8_valid ''error'' = ''error''"
  by (rule utf8_valid_ascii; simp)+

text \<open>What the model gets as an error is one JSON object: \<open>ok\<close> false, and the message up to its
  2,048th byte with what is not UTF-8 there, a rune cut in two for instance, replaced.\<close>

theorem tool_error_readable:
  "json_value (encodeToolError message) = Some (JObj ((''ok'', JBool False) #
     (if message = '''' then [] else [(''error'', JStr (utf8_valid (take 2048 message)))])), '''')"
proof -
  define cut where "cut = (if 2048 < length message then take 2048 message else message)"
  have cut: "cut = take 2048 message" by (simp add: cut_def)
  have e: "encodeToolError message = ''{'' @ json_quote ''ok'' @ '':'' @ ''false'' @
      (if cut = '''' then '''' else '','' @ json_quote ''error'' @ '':'' @ json_quote cut) @ ''}''"
    by (simp add: encodeToolError_def cut_def [symmetric] Let_def)
  show ?thesis
  proof (cases "message = ''''")
    case True
    then have "cut = ''''" by (simp add: cut)
    then show ?thesis
      unfolding e using json_object1 [of "''false''" "JBool False" "''ok''", OF parse_false] True
      by (simp add: quoted_names)
  next
    case False
    then have "cut \<noteq> ''''" by (simp add: cut)
    then show ?thesis
      using json_object2 [of "''false''" "''error''" "json_quote cut" "JBool False" "JStr (utf8_valid cut)" "''ok''",
          OF parse_false parse_string] False
      by (simp add: e quoted_names cut)
  qed
qed

text \<open>The error text of the tool loop is the one \<open>encodeToolError\<close> gives.\<close>

lemma budget_error_encoded: "budget_error = encodeToolError ''tool result budget exceeded''"
  by code_simp

lemma object_not_blank: "trim_space (''{'' @ s) \<noteq> ''''"
proof -
  have c: "\<not> is_space CHR ''{''" by (simp add: is_space_def Let_def)
  then have "dropWhile is_space (rev s @ ''{'') \<noteq> []" by (simp add: dropWhile_eq_Nil_conv)
  then show ?thesis using c by (simp add: trim_space_def trim_with_def)
qed

definition int_request :: "string \<Rightarrow> int \<Rightarrow> string" where
  "int_request name n = ''{'' @ json_quote name @ '':'' @ fmt_d n @ ''}''"

definition str_request :: "string \<Rightarrow> string \<Rightarrow> string" where
  "str_request name t = ''{'' @ json_quote name @ '':'' @ json_quote t @ ''}''"

lemma json_int_request: "json_value (int_request name n) = Some (JObj [(utf8_valid name, JNum (fmt_d n))], '''')"
  unfolding int_request_def by (rule json_object1) (rule parse_number [where t = "[]"])

lemma json_str_request: "json_value (str_request name t) = Some (JObj [(utf8_valid name, JStr (utf8_valid t))], '''')"
  unfolding str_request_def by (rule json_object1) (rule parse_string)

lemma decode_one:
  assumes "json_value (''{'' @ r) = Some (JObj [(key, v)], '''')" and "set_field dest (key, v) = Some dest'"
  shows "decodeToolArguments je (''{'' @ r) dest = Inr dest'"
  using assms object_not_blank [of r] by (simp add: decodeToolArguments_def Let_def skip_ws_def)

text \<open>A model's arguments are read as it wrote them: a number in the range of 64 bits comes out as that
  number and a text as that text, whatever the field held before; without arguments, or with an empty
  object or null, the field keeps its default; a name the tool does not know, a text where a number
  belongs and a number where a text belongs are errors.\<close>

theorem arguments_read_back:
  assumes "in_bits 64 n" and "list_all (\<lambda>c. (of_char c :: nat) < 128) name"
  shows "decodeToolArguments je (int_request name n) (IntField name d) = Inr (IntField name n)
    \<and> decodeToolArguments je (str_request name t) (StrField name u) = Inr (StrField name (utf8_valid t))
    \<and> (\<forall>raw \<in> {'''', ''  '', ''{}'', ''null''}. decodeToolArguments je raw dest = Inr dest)
    \<and> (\<exists>e. decodeToolArguments je (int_request name n) (StrField name u) = Inl e)
    \<and> (\<exists>e. decodeToolArguments je (str_request name t) (IntField name d) = Inl e)
    \<and> (\<exists>e. decodeToolArguments je (int_request name n) NoField = Inl e)"
proof -
  have nm: "utf8_valid name = name" by (rule utf8_valid_ascii [OF assms(2)])
  have i: "json_value (int_request name n) = Some (JObj [(name, JNum (fmt_d n))], '''')"
    and s: "json_value (str_request name t) = Some (JObj [(name, JStr (utf8_valid t))], '''')"
    by (simp_all only: json_int_request json_str_request nm)
  have ib: "trim_space (int_request name n) \<noteq> ''''" and sb: "trim_space (str_request name t) \<noteq> ''''"
    unfolding int_request_def str_request_def by (rule object_not_blank)+
  have e: "json_value ''{}'' = Some (JObj [], '''')" "json_value ''null'' = Some (JNull, '''')" by code_simp+
  have b: "trim_space '''' = ''''" "trim_space ''  '' = ''''" "trim_space ''{}'' \<noteq> ''''" "trim_space ''null'' \<noteq> ''''"
    by code_simp+
  have "decodeToolArguments je raw dest = Inr dest" if "raw \<in> {'''', ''  '', ''{}'', ''null''}" for raw
    using that by (elim insertE emptyE) (simp_all add: decodeToolArguments_def b e skip_ws_def Let_def)
  then show ?thesis
    using assms(1) by (simp add: decodeToolArguments_def Let_def i s ib sb set_field_def ParseInt_fmt_d skip_ws_def)
qed

lemma arguments_read_back_witness:
  "decodeToolArguments (\<lambda>a b. ''bad'') (int_request ''limit'' 50) (IntField ''limit'' 20) = Inr (IntField ''limit'' 50)"
  using arguments_read_back [of 50 "''limit''" "\<lambda>a b. ''bad''" 20] by (simp add: in_bits_def)

section \<open>What the model is told and what is accepted\<close>

text \<open>A call outside the declared tools, or with too long or unreadable arguments, is refused before anything
  is read: the answer is an error, the same in every cluster, and the session stays as it was.\<close>

definition destination :: "string \<Rightarrow> argument option" where
  "destination name =
     (if name = getTargetPodToolName then Some NoField
      else if name = listTargetEventsToolName \<or> name = listPodGroupEventsToolName then Some (IntField ''limit'' defaultEventLimit)
      else if name = getNodeToolName then Some (StrField ''name'' '''')
      else if name = getSchedulerLogsToolName then Some (IntField ''tailLines'' defaultSchedulerLogLines)
      else if name = readVolcanoSourceToolName then Some (StrField ''path'' '''')
      else None)"

lemma destination_declared: "destination name = None \<longleftrightarrow> name \<notin> set (map ct_tool readOnlyKubernetesTools)"
  by (auto simp: destination_def readOnlyKubernetesTools_def)

lemma execute_decoded:
  assumes "length (tc_arguments call) \<le> maxToolArguments" and "destination (tc_name call) = Some dest"
    and "decodeToolArguments (ta_json_error api) (tc_arguments call) dest = Inl e"
  shows "execute_tool api call s = tool_error (err_text e) s"
  using assms by (auto simp: execute_tool_def destination_def with_arguments_def split: if_splits)

theorem refused_calls:
  assumes "maxToolArguments < length (tc_arguments call)
    \<or> tc_name call \<notin> set (map ct_tool readOnlyKubernetesTools)
    \<or> (\<exists>dest e. destination (tc_name call) = Some dest
        \<and> decodeToolArguments (ta_json_error api) (tc_arguments call) dest = Inl e)"
  shows "\<exists>message. execute_tool api call s = (encodeToolError message, s)
    \<and> (\<forall>api'. ta_json_error api' = ta_json_error api \<longrightarrow> execute_tool api' call s = execute_tool api call s)"
proof (cases "maxToolArguments < length (tc_arguments call)")
  case True
  then show ?thesis by (auto simp: execute_tool_def tool_error_def)
next
  case short: False
  show ?thesis
  proof (cases "destination (tc_name call)")
    case None
    then have "execute_tool api' call s = tool_error (''tool '' @ fmt_q (tc_name call) @ '' is not allowed'') s" for api'
      using short by (auto simp: execute_tool_def destination_def split: if_splits)
    then show ?thesis by (auto simp: tool_error_def)
  next
    case (Some dest)
    with assms short obtain e where "decodeToolArguments (ta_json_error api) (tc_arguments call) dest = Inl e"
      using destination_declared [of "tc_name call"] by auto
    then have "execute_tool api' call s = tool_error (err_text e) s" if "ta_json_error api' = ta_json_error api" for api'
      using execute_decoded [of call dest api' e s] Some short that by simp
    then show ?thesis by (auto simp: tool_error_def)
  qed
qed

lemma refused_calls_witness:
  "\<exists>message. execute_tool (sample_tools sample_client sample_volcano) (sample_call\<lparr>tc_name := ''k8s_delete_node''\<rparr>) sample_session
     = (encodeToolError message, sample_session)"
proof -
  have "tc_name (sample_call\<lparr>tc_name := ''k8s_delete_node''\<rparr>) \<notin> set (map ct_tool readOnlyKubernetesTools)"
    by (simp add: readOnlyKubernetesTools_def tool_names sample_call_def)
  then show ?thesis using refused_calls [of "sample_call\<lparr>tc_name := ''k8s_delete_node''\<rparr>"] by blast
qed

section \<open>The tools in the loop\<close>

lemma session_of_execute: "session_of s0 s \<Longrightarrow> session_of s0 (snd (execute_tool api call s))"
  by (rule session_of_trans [OF _ kept_session [OF kept_execute]])

interpretation tools: bounded_runner "\<lambda>messages call s. execute_tool (world messages) call s" "session_of s0"
  "\<lambda>t. length t \<le> maxToolResultSize" for world s0
proof
  show "length budget_error \<le> maxToolResultSize" by (simp add: budget_error_def dq_def maxToolResultSize_def)
qed (simp_all add: session_of_execute small_execute [unfolded small_def])

text \<open>C5: Over a whole completion, with any model and a cluster that changes all the time: the session in which
  the loop asks the model is that of the analysis, only the Pod may have been read, nothing but analysed
  nodes and relative cleaned source paths is accessible, and every tool message of the history is at most
  64 KiB.\<close>

theorem completion_in_scope:
  assumes "newKubernetesToolSession managed scope = Inr session"
    and "asked c ask readOnlyKubernetesTools (Some (\<lambda>messages call s. execute_tool (world messages) call s)) prompt session st"
  shows "ts_scope (ls_session st) = scope
    \<and> set (ts_nodes (ls_session st)) = set (sc_node_names scope) - {''''}
    \<and> set (ts_sources (ls_session st)) = {path_clean p |p. p \<in> set (sc_source_files scope) \<and> path_clean p \<noteq> ''.''
         \<and> \<not> is_abs p \<and> \<not> has_prefix (path_clean p) ''../''}
    \<and> (\<forall>m \<in> set (ls_messages st). cm_role m = ''tool'' \<longrightarrow>
         (\<exists>answer. cm_content m = Some answer \<and> length answer \<le> 65536))"
proof -
  have "session_of session session" by (simp add: session_of_def)
  then have fine: "tools.fine session st" by (rule tools.fine_asked [OF assms(2)])
  from assms(1) have s: "ts_scope session = scope" "set (ts_nodes session) = set (sc_node_names scope) - {''''}"
    "set (ts_sources session) = {path_clean p |p. p \<in> set (sc_source_files scope) \<and> path_clean p \<noteq> ''.''
         \<and> \<not> is_abs p \<and> \<not> has_prefix (path_clean p) ''../''}"
    by (auto simp: newKubernetesToolSession_def Let_def split: if_splits)
  have "maxToolResultSize = 65536" by (simp add: maxToolResultSize_def)
  with fine s show ?thesis unfolding tools.fine_def session_of_def by auto
qed

definition sample_question :: chat_message where
  "sample_question = \<lparr>cm_role = '''', cm_content = None, cm_tool_calls = [sample_call], cm_tool_call_id = ''''\<rparr>"

lemma completion_in_scope_witness:
  "\<exists>st. asked sample_config (\<lambda>_. Inr sample_question) readOnlyKubernetesTools
       (Some (\<lambda>messages call s. execute_tool (sample_tools sample_client sample_volcano) call s)) ''why'' sample_session st
     \<and> ls_rounds st = 1 \<and> ts_scope (ls_session st) = sample_scope"
proof -
  let ?run = "Some (\<lambda>messages :: chat_message list. execute_tool (sample_tools sample_client sample_volcano))"
  have new: "newKubernetesToolSession True sample_scope = Inr sample_session"
  proof -
    have "path_clean ''pkg/a.go'' = ''pkg/a.go''" by code_simp
    then show ?thesis
      by (simp add: newKubernetesToolSession_def sample_scope_def sample_session_def is_abs_def has_prefix_def)
  qed
  let ?s0 = "start_state readOnlyKubernetesTools ''why'' sample_session"
  have "nat (maxToolRounds sample_config) = 2"
    by (simp add: maxToolRounds_def sample_config_def maximumMaxToolRounds_def)
  then have "\<exists>st. llm_round sample_config (\<lambda>_. Inr sample_question) readOnlyKubernetesTools ?run ?s0 = Continue st \<and> ls_rounds st = 1"
    by (simp add: llm_round_def sample_question_def sample_call_def bad_call_def start_state_def readOnlyKubernetesTools_def)
  then obtain st where st: "llm_round sample_config (\<lambda>_. Inr sample_question) readOnlyKubernetesTools ?run ?s0 = Continue st"
    "ls_rounds st = 1" by blast
  have a: "asked sample_config (\<lambda>_. Inr sample_question) readOnlyKubernetesTools ?run ''why'' sample_session st"
    by (rule asked.next_round [OF asked.start llm_step.answered [OF st(1)]])
  from completion_in_scope [OF new a] a st(2) show ?thesis by blast
qed

end
