(* ===== verification/Source_Manager.thy ===== *)
theory Source_Manager
  imports Go_Paths
begin

text \<open>
  File \<open>internal/source/manager.go\<close>: the local clone of the Volcano repository and its worktrees. Git, the
  file system and the hash are functions of an environment over a state \<open>'w\<close> of the disk, which every
  command may change; the steps thread it. The facts: a branch is checked out exactly at the commit its
  remote reference names (\<open>branch_checked_out\<close>), into one directory below the worktrees whatever the branch
  is called (\<open>worktree_confined\<close>), and the recommended branch is the first candidate that exists.
\<close>

section \<open>The environment\<close>

text \<open>A finished command: what it printed, and its error with the exit code, if it has one.\<close>

record git_result =
  gr_output :: string
  gr_error :: "(go_error \<times> int option) option"

datatype stat_result = StatFound | StatMissing go_error | StatFailed go_error

record 'w source_env =
  se_git :: "string \<Rightarrow> string list \<Rightarrow> 'w \<Rightarrow> git_result \<times> 'w"
  se_stat :: "string \<Rightarrow> 'w \<Rightarrow> stat_result"
  se_mkdir :: "string \<Rightarrow> 'w \<Rightarrow> go_error option \<times> 'w"
  se_ctx_err :: "'w \<Rightarrow> go_error option"
  se_getenv :: "string \<Rightarrow> string"
  se_sha256 :: "string \<Rightarrow> nat list"

record manager =
  mg_dir :: string
  mg_remote :: string

text \<open>A step over the disk that may fail.\<close>

type_synonym ('w, 'a) step = "'w \<Rightarrow> (go_error + 'a) \<times> 'w"

definition step_bind :: "('w, 'a) step \<Rightarrow> ('a \<Rightarrow> ('w, 'b) step) \<Rightarrow> ('w, 'b) step" where
  "step_bind m f = (\<lambda>w. case m w of (Inl e, w') \<Rightarrow> (Inl e, w') | (Inr a, w') \<Rightarrow> f a w')"

definition step_wrap :: "string \<Rightarrow> ('w, 'a) step \<Rightarrow> ('w, 'a) step" where
  "step_wrap place m = (\<lambda>w. case m w of (Inl e, w') \<Rightarrow> (Inl (errorw place e), w') | (Inr a, w') \<Rightarrow> (Inr a, w'))"

definition step_return :: "'a \<Rightarrow> ('w, 'a) step" where
  "step_return a = (\<lambda>w. (Inr a, w))"

definition step_fail :: "go_error \<Rightarrow> ('w, 'a) step" where
  "step_fail e = (\<lambda>w. (Inl e, w))"

section \<open>Git\<close>

definition gitOutput :: "'w source_env \<Rightarrow> string \<Rightarrow> string list \<Rightarrow> ('w, string) step" where
  "gitOutput env dir args w =
     (case se_git env dir args w of (r, w') \<Rightarrow>
        (case gr_error r of
           Some (err, _) \<Rightarrow>
             (let operation = (if 0 < length args then args ! 0 else ''command'')
              in (Inl \<lparr>err_text = ''git '' @ operation @ '': '' @ err_text err @ '': '' @ trim_space (gr_output r),
                       err_chain = err_chain err\<rparr>, w'))
         | None \<Rightarrow> (Inr (trim_space (gr_output r)), w')))"

definition runGit :: "'w source_env \<Rightarrow> string \<Rightarrow> string list \<Rightarrow> ('w, unit) step" where
  "runGit env dir args = step_bind (gitOutput env dir args) (\<lambda>_. step_return ())"

definition refExists :: "'w source_env \<Rightarrow> string \<Rightarrow> string \<Rightarrow> ('w, bool) step" where
  "refExists env dir ref w =
     (case se_git env dir [''rev-parse'', ''--verify'', ''--quiet'', ref] w of (r, w') \<Rightarrow>
        (case gr_error r of
           None \<Rightarrow> (Inr True, w')
         | Some (err, code) \<Rightarrow>
             (case se_ctx_err env w' of
                Some e \<Rightarrow> (Inl e, w')
              | None \<Rightarrow>
                  if code = Some 1 then (Inr False, w')
                  else (Inl (errorw ''verify git ref: '' err), w'))))"

section \<open>References\<close>

definition ref_candidates :: "string \<Rightarrow> string list" where
  "ref_candidates tag0 =
     (let tag = trim_space tag0
      in if tag = '''' then []
         else (let versionTag = ''v'' @ trim_prefix tag ''v''
           in [''refs/tags/'' @ tag] @
              (if versionTag \<noteq> tag then [''refs/tags/'' @ versionTag] else []) @
              [''refs/remotes/origin/'' @ tag, ''refs/remotes/origin/release-'' @ trim_prefix tag ''v'']))"

fun first_existing :: "'w source_env \<Rightarrow> string \<Rightarrow> string list \<Rightarrow> 'w \<Rightarrow> string \<times> 'w" where
  "first_existing env dir [] w = (''refs/remotes/origin/master'', w)"
| "first_existing env dir (ref # refs) w =
     (case refExists env dir (ref @ ''^{commit}'') w of
        (Inr True, w') \<Rightarrow> (ref, w')
      | (_, w') \<Rightarrow> first_existing env dir refs w')"

definition resolveRef :: "'w source_env \<Rightarrow> string \<Rightarrow> string \<Rightarrow> 'w \<Rightarrow> string \<times> 'w" where
  "resolveRef env dir tag w = first_existing env dir (ref_candidates tag) w"

section \<open>Worktrees\<close>

definition safe_char :: "char \<Rightarrow> bool" where
  "safe_char c =
     (let n = (of_char c :: nat) in 97 \<le> n \<and> n \<le> 122 \<or> 65 \<le> n \<and> n \<le> 90 \<or> is_digit c \<or> c \<in> {CHR ''_'', CHR ''.'', CHR ''-''})"

text \<open>Every maximal run of other bytes becomes one underscore; the flag says that one is running.\<close>

fun replace_unsafe :: "bool \<Rightarrow> string \<Rightarrow> string" where
  "replace_unsafe running [] = []"
| "replace_unsafe running (c # cs) =
     (if safe_char c then c # replace_unsafe False cs
      else (if running then [] else ''_'') @ replace_unsafe True cs)"

definition hex_bytes :: "nat list \<Rightarrow> string" where
  "hex_bytes bs = concat (map (\<lambda>b. [hex_digit (b div 16), hex_digit (b mod 16)]) bs)"

definition branchWorktreeName :: "(string \<Rightarrow> nat list) \<Rightarrow> string \<Rightarrow> string \<Rightarrow> string" where
  "branchWorktreeName sha256 branch commit =
     (let safe = replace_unsafe False branch;
          safe' = (if 80 < length safe then take 80 safe else safe);
          sum = sha256 branch;
          shortCommit = (if 12 < length commit then take 12 commit else commit)
      in ''branch-'' @ safe' @ ''-'' @ hex_bytes (take 6 sum) @ ''-'' @ shortCommit)"

definition worktree_path :: "'w source_env \<Rightarrow> manager \<Rightarrow> string \<Rightarrow> string \<Rightarrow> string" where
  "worktree_path env m branch commit =
     path_join [path_dir (mg_dir m), ''worktrees'', branchWorktreeName (se_sha256 env) branch commit]"

definition prepareWorktree :: "'w source_env \<Rightarrow> string \<Rightarrow> string \<Rightarrow> string \<Rightarrow> ('w, string) step" where
  "prepareWorktree env repository work ref w =
     (case se_mkdir env (path_dir work) w of
        (Some e, w') \<Rightarrow> (Inl (errorw ''create worktree parent: '' e), w')
      | (None, w') \<Rightarrow>
          (case se_stat env work w' of
             StatMissing e \<Rightarrow>
               step_bind (runGit env repository [''worktree'', ''add'', ''--detach'', work, ref]) (\<lambda>_. step_return work) w'
           | StatFailed e \<Rightarrow> (Inl (errorw (''inspect worktree '' @ work @ '': '') e), w')
           | StatFound \<Rightarrow>
               step_bind (runGit env work [''checkout'', ''--detach'', ''--force'', ref]) (\<lambda>_. step_return work) w'))"

section \<open>The repository\<close>

definition configureOrigin :: "'w source_env \<Rightarrow> string \<Rightarrow> string \<Rightarrow> ('w, unit) step" where
  "configureOrigin env dir remote =
     step_bind (step_wrap ''configure origin URL: ''
         (runGit env dir [''config'', ''--local'', ''--replace-all'', ''remote.origin.url'', remote]))
       (\<lambda>_. step_wrap ''configure origin fetch refspec: ''
         (runGit env dir [''config'', ''--local'', ''--replace-all'', ''remote.origin.fetch'',
            ''+refs/heads/*:refs/remotes/origin/*'']))"

definition fetch_args :: "string list" where
  "fetch_args = [''fetch'', ''--prune'', ''--prune-tags'', ''origin'',
     ''+refs/heads/*:refs/remotes/origin/*'', ''+refs/tags/*:refs/tags/*'']"

definition prepareRepository :: "'w source_env \<Rightarrow> manager \<Rightarrow> ('w, unit) step" where
  "prepareRepository env m w =
     (let missing = (\<lambda>e. Inl (errorw (''volcano source missing at '' @ mg_dir m @
            '' (image entrypoint must clone it): '') e))
      in case se_stat env (path_join [mg_dir m, ''.git'']) w of
           StatMissing e \<Rightarrow> (missing e, w)
         | StatFailed e \<Rightarrow> (missing e, w)
         | StatFound \<Rightarrow>
             if trim_space (mg_remote m) = '''' then (Inl (errorf ''volcano remote URL is empty''), w)
             else step_bind (configureOrigin env (mg_dir m) (mg_remote m))
               (\<lambda>_. if se_getenv env ''VOLCANO_GIT_UPDATE'' = ''false'' then step_return ()
                    else runGit env (mg_dir m) fetch_args) w)"

text \<open>\<open>Prepare\<close>: the commit a version tag stands for, with fallbacks.\<close>

definition Prepare :: "'w source_env \<Rightarrow> manager \<Rightarrow> string \<Rightarrow> ('w, string) step" where
  "Prepare env m tag =
     step_bind (prepareRepository env m) (\<lambda>_ w.
       case resolveRef env (mg_dir m) tag w of (ref, w') \<Rightarrow>
         step_bind (step_wrap (''resolve Volcano source ref '' @ fmt_q ref @ '': '')
             (gitOutput env (mg_dir m) [''rev-parse'', ''--verify'', ref @ ''^{commit}'']))
           (\<lambda>commit. prepareWorktree env (mg_dir m) (worktree_path env m (''auto-'' @ ref) commit) commit) w')"

section \<open>Branches\<close>

definition branchPriority :: "string \<Rightarrow> nat" where
  "branchPriority branch = (if branch = ''master'' then 0 else if branch = ''main'' then 1 else 2)"

text \<open>Sorted by priority, then by name: two stable sorts; equal branches are the same text.\<close>

definition listed_branches :: "string \<Rightarrow> string list" where
  "listed_branches out =
     sort_key branchPriority (sort_strings (filter (\<lambda>branch. branch \<noteq> '''' \<and> branch \<noteq> ''HEAD'')
       (map trim_space (split_on (char_of (10 :: nat)) out))))"

definition ListBranches :: "'w source_env \<Rightarrow> manager \<Rightarrow> ('w, string list) step" where
  "ListBranches env m =
     step_bind (prepareRepository env m) (\<lambda>_.
       step_bind (gitOutput env (mg_dir m) [''for-each-ref'', ''--sort=refname'', ''--format=%(refname:strip=3)'',
           ''refs/remotes/origin''])
         (\<lambda>out. step_return (listed_branches out)))"

definition validateBranch :: "'w source_env \<Rightarrow> string \<Rightarrow> ('w, unit) step" where
  "validateBranch env branch =
     (if branch = '''' \<or> branch \<noteq> trim_space branch then
        step_fail (errorf ''volcano branch is empty or contains surrounding whitespace'')
      else if branch = ''HEAD'' then
        step_fail (errorf (''volcano branch '' @ fmt_q ''HEAD'' @ '' is not an explicit remote branch''))
      else step_wrap (''invalid volcano branch '' @ fmt_q branch @ '': '')
        (runGit env '''' [''check-ref-format'', ''--branch'', branch]))"

definition remote_ref :: "string \<Rightarrow> string" where
  "remote_ref branch = ''refs/remotes/origin/'' @ branch"

definition PrepareBranch :: "'w source_env \<Rightarrow> manager \<Rightarrow> string \<Rightarrow> ('w, string) step" where
  "PrepareBranch env m branch =
     step_bind (validateBranch env branch) (\<lambda>_.
       step_bind (prepareRepository env m) (\<lambda>_.
         (let ref = remote_ref branch
          in step_bind (refExists env (mg_dir m) ref) (\<lambda>found.
               if \<not> found then step_fail (errorf (''remote branch '' @ fmt_q branch @ '' does not exist''))
               else step_bind (step_wrap (''resolve remote branch '' @ fmt_q branch @ '': '')
                   (gitOutput env (mg_dir m) [''rev-parse'', ''--verify'', ref @ ''^{commit}'']))
                 (\<lambda>commit. prepareWorktree env (mg_dir m) (worktree_path env m branch commit) commit)))))"

definition firstDefaultBranch :: "string list \<Rightarrow> string" where
  "firstDefaultBranch branches =
     (case find (\<lambda>wanted. List.member branches wanted) [''master'', ''main''] of
        Some wanted \<Rightarrow> wanted
      | None \<Rightarrow> if 0 < length branches then branches ! 0 else '''')"

definition branch_candidates :: "string \<Rightarrow> string list" where
  "branch_candidates version =
     (let parts = split_on CHR ''.'' version
      in [''release-'' @ version, ''v'' @ version, version] @
         (if 2 \<le> length parts then
            (let majorMinor = parts ! 0 @ ''.'' @ parts ! 1
             in [''release-'' @ majorMinor, ''v'' @ majorMinor, majorMinor])
          else []))"

definition RecommendBranch :: "string \<Rightarrow> string list \<Rightarrow> string" where
  "RecommendBranch version0 branches =
     (let version = trim_prefix (trim_space version0) ''v''
      in if version = '''' then firstDefaultBranch branches
         else (case find (\<lambda>candidate. List.member branches candidate) (branch_candidates version) of
             Some branch \<Rightarrow> branch
           | None \<Rightarrow> firstDefaultBranch branches))"

section \<open>Facts\<close>

lemma step_bind_Inr: "step_bind m f w = (Inr b, w') \<longleftrightarrow> (\<exists>a w1. m w = (Inr a, w1) \<and> f a w1 = (Inr b, w'))"
  by (auto simp: step_bind_def split: prod.splits sum.splits)

lemma step_wrap_Inr [simp]: "step_wrap place m w = (Inr a, w') \<longleftrightarrow> m w = (Inr a, w')"
  by (auto simp: step_wrap_def split: prod.splits sum.splits)

lemma step_return_Inr [simp]: "step_return a w = (Inr b, w') \<longleftrightarrow> b = a \<and> w' = w"
  by (auto simp: step_return_def)

lemma step_fail_Inr [simp]: "step_fail e w \<noteq> (Inr b, w')"
  by (simp add: step_fail_def)

lemma runGit_Inr: "runGit env dir args w = (Inr u, w') \<longleftrightarrow> (\<exists>out. gitOutput env dir args w = (Inr out, w'))"
  by (auto simp: runGit_def step_bind_Inr)

lemma prepareWorktree_Inr:
  assumes "prepareWorktree env repository work ref w = (Inr p, w')"
  shows "p = work \<and> (\<exists>w1 out. gitOutput env repository [''worktree'', ''add'', ''--detach'', work, ref] w1 = (Inr out, w')
    \<or> gitOutput env work [''checkout'', ''--detach'', ''--force'', ref] w1 = (Inr out, w'))"
  using assms
  by (auto simp: prepareWorktree_def step_bind_Inr runGit_Inr split: prod.splits option.splits stat_result.splits)

text \<open>A branch is prepared exactly as asked: it is no empty, padded or symbolic name, its remote reference
  exists, and the last command that ran put the returned worktree at the commit Git named for that reference,
  without any fallback to another one.\<close>

theorem branch_checked_out:
  assumes "PrepareBranch env m branch w = (Inr work, w')"
  shows "branch \<noteq> '''' \<and> branch \<noteq> ''HEAD'' \<and> trim_space branch = branch
    \<and> (\<exists>commit w1 w2 w3 w4 out.
         refExists env (mg_dir m) (remote_ref branch) w1 = (Inr True, w2)
         \<and> gitOutput env (mg_dir m) [''rev-parse'', ''--verify'', remote_ref branch @ ''^{commit}''] w2 = (Inr commit, w3)
         \<and> work = worktree_path env m branch commit
         \<and> (gitOutput env (mg_dir m) [''worktree'', ''add'', ''--detach'', work, commit] w4 = (Inr out, w')
            \<or> gitOutput env work [''checkout'', ''--detach'', ''--force'', commit] w4 = (Inr out, w')))"
proof -
  from assms obtain u v w0 w1 found w2 commit w3 where s: "validateBranch env branch w = (Inr u, w0)"
    "prepareRepository env m w0 = (Inr v, w1)"
    "refExists env (mg_dir m) (remote_ref branch) w1 = (Inr found, w2)" "found"
    "gitOutput env (mg_dir m) [''rev-parse'', ''--verify'', remote_ref branch @ ''^{commit}''] w2 = (Inr commit, w3)"
    "prepareWorktree env (mg_dir m) (worktree_path env m branch commit) commit w3 = (Inr work, w')"
    unfolding PrepareBranch_def Let_def by (auto simp: step_bind_Inr split: if_splits)
  have "branch \<noteq> '''' \<and> branch \<noteq> ''HEAD'' \<and> trim_space branch = branch"
    using s(1) by (auto simp: validateBranch_def split: if_splits)
  moreover have "refExists env (mg_dir m) (remote_ref branch) w1 = (Inr True, w2)" using s(3,4) by simp
  moreover obtain w4 out where "work = worktree_path env m branch commit"
    "gitOutput env (mg_dir m) [''worktree'', ''add'', ''--detach'', work, commit] w4 = (Inr out, w')
      \<or> gitOutput env work [''checkout'', ''--detach'', ''--force'', commit] w4 = (Inr out, w')"
    using prepareWorktree_Inr [OF s(6)] by blast
  ultimately show ?thesis using s(5) by blast
qed

definition sample_git :: "nat source_env" where
  "sample_git = \<lparr>se_git = (\<lambda>dir args n. (\<lparr>gr_output = ''abc'', gr_error = None\<rparr>, n + 1)),
     se_stat = (\<lambda>p n. if p = ''/data/volcano/.git'' then StatFound else StatMissing (errorf ''no such file'')),
     se_mkdir = (\<lambda>p n. (None, n)), se_ctx_err = (\<lambda>n. None), se_getenv = (\<lambda>k. ''''), se_sha256 = (\<lambda>s. [1, 2, 3, 4, 5, 6, 7])\<rparr>"

definition sample_manager :: manager where
  "sample_manager = \<lparr>mg_dir = ''/data/volcano'', mg_remote = ''https://git''\<rparr>"

lemma branch_checked_out_witness:
  "\<exists>commit. worktree_path sample_git sample_manager ''release-1.9'' commit
     = ''/data/worktrees/branch-release-1.9-010203040506-abc'' \<and> commit = ''abc''"
proof -
  have p: "PrepareBranch sample_git sample_manager ''release-1.9'' 0
      = (Inr ''/data/worktrees/branch-release-1.9-010203040506-abc'', 7)" by code_simp
  from branch_checked_out [OF p] obtain commit w2 w3 where c:
    "gitOutput sample_git (mg_dir sample_manager) [''rev-parse'', ''--verify'', remote_ref ''release-1.9'' @ ''^{commit}''] w2 = (Inr commit, w3)"
    "''/data/worktrees/branch-release-1.9-010203040506-abc'' = worktree_path sample_git sample_manager ''release-1.9'' commit"
    by blast
  have "trim_space ''abc'' = ''abc''" by code_simp
  with c(1) have "commit = ''abc''" by (simp add: gitOutput_def sample_git_def)
  with c(2) show ?thesis by auto
qed

section \<open>Names of worktrees\<close>

lemma replace_unsafe_safe: "c \<in> set (replace_unsafe running s) \<Longrightarrow> safe_char c"
proof (induction running s rule: replace_unsafe.induct)
  case (2 running x xs)
  have "safe_char CHR ''_''" by (simp add: safe_char_def)
  with 2 show ?case by (auto split: if_splits)
qed simp

lemma safe_no_slash: "safe_char c \<Longrightarrow> c \<noteq> CHR ''/''"
  by (auto simp: safe_char_def is_digit_def)

lemma hex_bytes_safe: "\<forall>b \<in> set bs. b < 256 \<Longrightarrow> c \<in> set (hex_bytes bs) \<Longrightarrow> c \<noteq> CHR ''/''"
proof -
  have h: "hex_digit d \<noteq> CHR ''/''" if "d < 16" for d
  proof -
    have "(of_char (hex_digit d) :: nat) \<noteq> of_char CHR ''/''" using that by (simp add: hex_digit_def)
    then show ?thesis by metis
  qed
  assume b: "\<forall>b \<in> set bs. b < 256" and "c \<in> set (hex_bytes bs)"
  then obtain x where x: "x < 256" "c = hex_digit (x div 16) \<or> c = hex_digit (x mod 16)"
    by (auto simp: hex_bytes_def)
  from x(1) have "x div 16 < 16" "x mod 16 < 16" by auto
  with x(2) h [of "x div 16"] h [of "x mod 16"] show ?thesis by auto
qed

lemma worktree_name_element:
  assumes "\<forall>b \<in> set (sha branch). b < 256" and "CHR ''/'' \<notin> set commit"
  shows "path_element (branchWorktreeName sha branch commit) \<and> branchWorktreeName sha branch commit \<noteq> ''..''"
proof -
  have "CHR ''/'' \<notin> set (replace_unsafe False branch)" using replace_unsafe_safe safe_no_slash by blast
  then have "CHR ''/'' \<notin> set (take 80 (replace_unsafe False branch))" by (meson in_set_takeD)
  moreover have "CHR ''/'' \<notin> set (hex_bytes (take 6 (sha branch)))"
    using hex_bytes_safe [of "take 6 (sha branch)" "CHR ''/''"] assms(1) by (auto dest: in_set_takeD)
  moreover have "CHR ''/'' \<notin> set (take 12 commit)" using assms(2) by (meson in_set_takeD)
  ultimately show ?thesis
    using assms(2) \<open>CHR ''/'' \<notin> set (replace_unsafe False branch)\<close>
    by (simp add: branchWorktreeName_def path_element_def Let_def)
qed

lemma split_on_append: "split_on c (d @ c # e) = split_on c d @ split_on c e"
proof (induction d)
  case (Cons x d)
  then show ?case by (cases "split_on c d") auto
qed simp

lemma clean_parts_snoc:
  assumes "is_abs d" and "path_element e" and "e \<noteq> ''..''"
  shows "clean_parts (d @ ''/'' @ e) = clean_parts d @ [e] \<and> is_abs (d @ ''/'' @ e)"
proof -
  have abs: "is_abs (d @ ''/'' @ e)" using assms(1) by (auto simp: is_abs_def has_prefix_def prefix_def)
  have "split_on CHR ''/'' (d @ ''/'' @ e) = split_on CHR ''/'' d @ split_on CHR ''/'' e"
    by (simp add: split_on_append)
  moreover have "split_on CHR ''/'' e = [e]" using assms(2) by (simp add: path_element_def split_on_plain)
  ultimately show ?thesis
    using abs assms by (simp add: clean_parts_def clean_step_plain)
qed

text \<open>C26: Whatever a branch is called, its worktree is one directory right below \<open>worktrees\<close>, beside the clone:
  slashes and dot-dots of the name cannot lead elsewhere. Git prints a commit without slashes, and a hash is
  a list of bytes.\<close>

theorem worktree_confined:
  assumes "is_abs (mg_dir m)" and "CHR ''/'' \<notin> set commit" and "\<forall>b \<in> set (se_sha256 env branch). b < 256"
  shows "clean_parts (worktree_path env m branch commit)
      = clean_parts (path_dir (mg_dir m)) @ [''worktrees'', branchWorktreeName (se_sha256 env) branch commit]
    \<and> length (branchWorktreeName (se_sha256 env) branch commit) \<le> 113"
proof -
  let ?d = "path_dir (mg_dir m)" and ?n = "branchWorktreeName (se_sha256 env) branch commit"
  have d: "is_abs ?d"
  proof -
    obtain rest where m: "mg_dir m = CHR ''/'' # rest" using assms(1) by (auto simp: is_abs_def has_prefix_def prefix_def)
    have "0 \<le> last_index (mg_dir m) ''/''" by (simp add: m Let_def)
    then have "0 < nat (last_index (mg_dir m) ''/'' + 1)" by simp
    then show ?thesis
      unfolding path_dir_def is_abs_clean
      by (cases "nat (last_index (mg_dir m) ''/'' + 1)") (simp_all add: m is_abs_def has_prefix_def)
  qed
  then have ne: "?d \<noteq> ''''" by (auto simp: is_abs_def has_prefix_def)
  have "path_element ''worktrees''" by (simp add: path_element_def)
  from clean_parts_snoc [OF d this]
  have a: "clean_parts (?d @ ''/worktrees'') = clean_parts ?d @ [''worktrees'']" "is_abs (?d @ ''/worktrees'')" by simp_all
  have "clean_parts ((?d @ ''/worktrees'') @ ''/'' @ ?n) = clean_parts ?d @ [''worktrees'', ?n]"
    using clean_parts_snoc [OF a(2), of ?n] worktree_name_element [of "se_sha256 env" branch commit, OF assms(3,2)] a(1) by simp
  then have "clean_parts (worktree_path env m branch commit) = clean_parts ?d @ [''worktrees'', ?n]"
    using ne by (simp add: worktree_path_def path_join_def)
  moreover have "length ?n \<le> 113"
  proof -
    have "length (hex_bytes bs) = 2 * length bs" for bs by (induction bs) (simp_all add: hex_bytes_def)
    moreover have "2 * min (length (se_sha256 env branch)) 6 \<le> 12" by simp
    ultimately show ?thesis by (auto simp: branchWorktreeName_def Let_def)
  qed
  ultimately show ?thesis by blast
qed

lemma worktree_confined_witness:
  "clean_parts (worktree_path sample_git sample_manager ''../../etc/x'' ''abc'')
     = [''data'', ''worktrees'', ''branch-.._.._etc_x-010203040506-abc'']"
proof -
  have "is_abs (mg_dir sample_manager)" by code_simp
  moreover have "\<forall>b \<in> set (se_sha256 sample_git ''../../etc/x''). b < 256" by (simp add: sample_git_def)
  moreover have "branchWorktreeName (se_sha256 sample_git) ''../../etc/x'' ''abc'' = ''branch-.._.._etc_x-010203040506-abc''"
    by code_simp
  moreover have "clean_parts (path_dir (mg_dir sample_manager)) = [''data'']" by code_simp
  ultimately show ?thesis using worktree_confined [of sample_manager "''abc''" sample_git "''../../etc/x''"] by simp
qed

lemma hex_digit_inj: "a < 16 \<Longrightarrow> b < 16 \<Longrightarrow> hex_digit a = hex_digit b \<Longrightarrow> a = b"
proof -
  assume ab: "a < 16" "b < 16" "hex_digit a = hex_digit b"
  have "(of_char (hex_digit a) :: nat) = of_char (hex_digit b)" using ab(3) by simp
  with ab(1,2) show ?thesis by (simp add: hex_digit_def split: if_splits)
qed

lemma hex_bytes_inj:
  "\<forall>b \<in> set xs. b < 256 \<Longrightarrow> \<forall>b \<in> set ys. b < 256 \<Longrightarrow> hex_bytes xs = hex_bytes ys \<Longrightarrow> xs = ys"
proof (induction xs arbitrary: ys)
  case Nil
  then show ?case by (cases ys) (simp_all add: hex_bytes_def)
next
  case (Cons x xs)
  then obtain y zs where ys: "ys = y # zs" by (cases ys) (simp_all add: hex_bytes_def)
  with Cons.prems have e: "hex_digit (x div 16) = hex_digit (y div 16)" "hex_digit (x mod 16) = hex_digit (y mod 16)"
    "hex_bytes xs = hex_bytes zs" by (simp_all add: hex_bytes_def)
  have xy: "x < 256" "y < 256" using Cons.prems(1,2) by (simp_all add: ys)
  have "x div 16 = y div 16" by (rule hex_digit_inj [OF _ _ e(1)]) (use xy in simp_all)
  moreover have "x mod 16 = y mod 16" by (rule hex_digit_inj [OF _ _ e(2)]) simp_all
  ultimately have "x = y" by (metis div_mult_mod_eq)
  moreover have "xs = zs" by (rule Cons.IH [OF _ _ e(3)]) (use Cons.prems(1,2) in \<open>simp_all add: ys\<close>)
  ultimately show ?case by (simp only: ys)
qed

lemma length_hex_bytes: "length (hex_bytes bs) = 2 * length bs"
  by (induction bs) (simp_all add: hex_bytes_def)

definition name_head :: "string \<Rightarrow> string" where
  "name_head branch = ''branch-'' @ (let safe = replace_unsafe False branch in if 80 < length safe then take 80 safe else safe) @ ''-''"

lemma worktree_name_parts:
  "branchWorktreeName sha branch commit
    = name_head branch @ hex_bytes (take 6 (sha branch)) @ ''-'' @ take 12 commit"
proof -
  have cut: "(if 12 < length commit then take 12 commit else commit) = take 12 commit" by simp
  show ?thesis unfolding branchWorktreeName_def name_head_def Let_def cut by (simp only: append_assoc)
qed

lemma same_tail:
  assumes "p @ h @ d # c = p' @ h' @ d # c'" and "length h = length h'" and "length c = length c'"
  shows "h = h' \<and> c = c'"
proof -
  have "length (h @ d # c) = length (h' @ d # c')" using assms(2,3) by simp
  from conjunct2 [OF iffD1 [OF append_eq_append_conv [OF disjI2 [OF this]] assms(1)]]
  have "h @ d # c = h' @ d # c'" .
  from iffD1 [OF append_eq_append_conv [OF disjI1 [OF assms(2)]] this] show ?thesis by simp
qed

text \<open>Two preparations share a directory only when the first six bytes of the branches' hashes and the first
  twelve characters of the commits agree: the cut and cleaned names cannot make two branches collide.\<close>

theorem worktree_names_differ:
  assumes "branchWorktreeName sha branch commit = branchWorktreeName sha branch' commit'"
    and "length (sha branch) = 32 \<and> length (sha branch') = 32 \<and> (\<forall>b \<in> set (sha branch) \<union> set (sha branch'). b < 256)"
    and "length commit = length commit'"
  shows "take 6 (sha branch) = take 6 (sha branch') \<and> take 12 commit = take 12 commit'"
proof -
  let ?h = "hex_bytes (take 6 (sha branch))" and ?h' = "hex_bytes (take 6 (sha branch'))"
  have len: "length ?h = length ?h'" unfolding length_hex_bytes length_take using assms(2) by simp
  have lc: "length (take 12 commit) = length (take 12 commit')" unfolding length_take assms(3) ..
  have whole: "name_head branch @ ?h @ CHR ''-'' # take 12 commit = name_head branch' @ ?h' @ CHR ''-'' # take 12 commit'"
    using assms(1) unfolding worktree_name_parts append_Cons append_Nil .
  note parts = same_tail [OF whole len lc]
  have "take 6 (sha branch) = take 6 (sha branch')"
  proof (rule hex_bytes_inj [OF _ _ conjunct1 [OF parts]])
    show "\<forall>b \<in> set (take 6 (sha branch)). b < 256" "\<forall>b \<in> set (take 6 (sha branch')). b < 256"
      using assms(2) by (meson Un_iff in_set_takeD)+
  qed
  with parts show ?thesis by blast
qed

definition sample_sha :: "string \<Rightarrow> nat list" where
  "sample_sha s = replicate 32 (length s mod 256)"

lemma worktree_names_differ_witness:
  "branchWorktreeName sample_sha ''a/b'' ''abc'' = branchWorktreeName sample_sha ''a b'' ''abc''
   \<and> take 6 (sample_sha ''a/b'') = take 6 (sample_sha ''a b'')"
proof -
  have n: "branchWorktreeName sample_sha ''a/b'' ''abc'' = branchWorktreeName sample_sha ''a b'' ''abc''" by code_simp
  from worktree_names_differ [OF n] n show ?thesis by (simp add: sample_sha_def)
qed

section \<open>Which branches are offered\<close>

text \<open>The branches offered are the lines Git printed, without blank ones and the symbolic HEAD: \<open>master\<close>
  first, then \<open>main\<close>, then the others by name.\<close>

theorem branches_offered:
  "set (listed_branches out) = {trim_space l |l. l \<in> set (split_on (char_of (10 :: nat)) out)} - {'''', ''HEAD''}
   \<and> sorted_wrt (\<lambda>a b. branchPriority a < branchPriority b \<or> branchPriority a = branchPriority b \<and> a \<le> b) (listed_branches out)"
proof -
  have stable: "sorted_wrt (\<lambda>a b. f a < f b \<or> f a = f b \<and> a \<le> b) (sort_key f xs)" if "sorted xs" for f :: "string \<Rightarrow> nat" and xs
    using that
  proof (induction xs)
    case Nil
    then show ?case by simp
  next
    case (Cons x xs)
    have ins: "sorted_wrt (\<lambda>a b. f a < f b \<or> f a = f b \<and> a \<le> b) (insort_key f x ys)"
      if "sorted_wrt (\<lambda>a b. f a < f b \<or> f a = f b \<and> a \<le> b) ys" "\<forall>y \<in> set ys. x \<le> y" for ys
      using that by (induction ys) (auto simp: set_insort_key)
    from Cons ins [of "sort_key f xs"] show ?case by simp
  qed
  have "sorted (sort_strings xs)" for xs by (simp add: sort_strings_def)
  with stable show ?thesis by (auto simp: listed_branches_def sort_strings_def)
qed

lemma recommended_first:
  "let v = trim_prefix (trim_space version) ''v''; r = RecommendBranch version branches;
       names = (if v = '''' then [] else branch_candidates v) @ [''master'', ''main''] @ branches
   in (branches = [] \<longrightarrow> r = '''')
      \<and> (branches \<noteq> [] \<longrightarrow> (\<exists>before after. names = before @ r # after \<and> r \<in> set branches \<and> set before \<inter> set branches = {}))"
proof -
  have first: "\<exists>before after. xs = before @ x # after \<and> P x \<and> (\<forall>y \<in> set before. \<not> P y)" if "find P xs = Some x" for P :: "string \<Rightarrow> bool" and xs x
    using that
  proof (induction xs)
    case (Cons y ys)
    show ?case
    proof (cases "P y")
      case True
      with Cons.prems show ?thesis by (intro exI [of _ "[]"] exI [of _ ys]) simp
    next
      case False
      with Cons obtain before after where "ys = before @ x # after" "P x" "\<forall>y \<in> set before. \<not> P y" by auto
      with False show ?thesis by (intro exI [of _ "y # before"] exI [of _ after]) simp
    qed
  qed simp
  have default: "\<exists>before after. [''master'', ''main''] @ branches = before @ firstDefaultBranch branches # after
      \<and> firstDefaultBranch branches \<in> set branches \<and> set before \<inter> set branches = {}" if ne: "branches \<noteq> []"
  proof (cases "find (\<lambda>w. List.member branches w) [''master'', ''main'']")
    case None
    have "\<not> (\<exists>w. w \<in> set [''master'', ''main''] \<and> List.member branches w)" by (rule iffD1 [OF find_None_iff None])
    then have "set [''master'', ''main''] \<inter> set branches = {}" by (auto simp: List.member_iff)
    moreover obtain b bs where bs: "branches = b # bs" using ne by (cases branches) auto
    moreover have "firstDefaultBranch branches = b"
      unfolding firstDefaultBranch_def None option.case by (simp add: bs)
    ultimately have "[''master'', ''main''] @ branches = [''master'', ''main''] @ firstDefaultBranch branches # bs
        \<and> firstDefaultBranch branches \<in> set branches \<and> set [''master'', ''main''] \<inter> set branches = {}" by simp
    then show ?thesis by blast
  next
    case (Some w)
    from first [OF this] obtain before after where "[''master'', ''main''] = before @ w # after" "w \<in> set branches"
      "set before \<inter> set branches = {}" by (auto simp: List.member_iff)
    then show ?thesis
      using Some by (intro exI [of _ before] exI [of _ "after @ branches"]) (simp add: firstDefaultBranch_def)
  qed
  have none: "RecommendBranch version [] = ''''"
    by (auto simp: RecommendBranch_def firstDefaultBranch_def Let_def List.member_iff find_None_iff split: option.split
        dest!: first)
  let ?v = "trim_prefix (trim_space version) ''v''"
  have some: "\<exists>before after. (if ?v = '''' then [] else branch_candidates ?v) @ [''master'', ''main''] @ branches
        = before @ RecommendBranch version branches # after
      \<and> RecommendBranch version branches \<in> set branches \<and> set before \<inter> set branches = {}" if ne: "branches \<noteq> []"
  proof (cases "?v = ''''")
    case True
    with default [OF ne] show ?thesis by (simp add: RecommendBranch_def)
  next
    case v: False
    show ?thesis
    proof (cases "find (\<lambda>c. List.member branches c) (branch_candidates ?v)")
      case None
      have "\<not> (\<exists>c. c \<in> set (branch_candidates ?v) \<and> List.member branches c)" by (rule iffD1 [OF find_None_iff None])
      then have out: "set (branch_candidates ?v) \<inter> set branches = {}" by (auto simp: List.member_iff)
      have r: "RecommendBranch version branches = firstDefaultBranch branches"
        unfolding RecommendBranch_def Let_def if_not_P [OF v] None option.case ..
      from default [OF ne] obtain before after where d: "[''master'', ''main''] @ branches = before @ firstDefaultBranch branches # after"
        "firstDefaultBranch branches \<in> set branches" "set before \<inter> set branches = {}" by blast
      then have "(if ?v = '''' then [] else branch_candidates ?v) @ [''master'', ''main''] @ branches
          = (branch_candidates ?v @ before) @ RecommendBranch version branches # after
        \<and> RecommendBranch version branches \<in> set branches \<and> set (branch_candidates ?v @ before) \<inter> set branches = {}"
        using out by (auto simp: v r)
      then show ?thesis by blast
    next
      case (Some w)
      from first [OF this] obtain before after where w: "branch_candidates ?v = before @ w # after" "w \<in> set branches"
        "set before \<inter> set branches = {}" by (auto simp: List.member_iff)
      have "RecommendBranch version branches = w"
        unfolding RecommendBranch_def Let_def if_not_P [OF v] Some option.case ..
      with w v have "(if ?v = '''' then [] else branch_candidates ?v) @ [''master'', ''main''] @ branches
          = before @ RecommendBranch version branches # (after @ [''master'', ''main''] @ branches)
        \<and> RecommendBranch version branches \<in> set branches \<and> set before \<inter> set branches = {}" by simp
      then show ?thesis by blast
    qed
  qed
  from none some show ?thesis by (simp add: Let_def)
qed

text \<open>The recommended branch is one of those offered, and none is only recommended when none is offered:
  the first of the version's names that exists, exact release branch before \<open>v\<close> and bare version, the full
  version before major and minor; otherwise master, main or the first branch.\<close>

theorem branch_recommended:
  "let v = trim_prefix (trim_space version) ''v''; r = RecommendBranch version branches;
       names = (if v = '''' then [] else branch_candidates v) @ [''master'', ''main''] @ branches
   in (branches = [] \<longrightarrow> r = '''')
      \<and> (branches \<noteq> [] \<longrightarrow> (\<exists>before after. names = before @ r # after \<and> r \<in> set branches \<and> set before \<inter> set branches = {}))"
  by (rule recommended_first)

end
