(* ===== verification/Go_Duration.thy ===== *)
theory Go_Duration
  imports Go_Float64
begin

text \<open>
  \<open>time.ParseDuration\<close>: signed numbers with units, summed in unsigned 64-bit nanoseconds, fractions in
  floating point. The facts: the result is in the range of a \<open>Duration\<close>, and a whole number with a unit
  is that many of it.
\<close>

definition unit_nanos :: "string \<Rightarrow> int option" where
  "unit_nanos u =
     map_of [(''ns'', 1), (''us'', 1000), (utf8 [194, 181] @ ''s'', 1000), (utf8 [206, 188] @ ''s'', 1000),
       (''ms'', 1000000), (''s'', 1000000000), (''m'', 60000000000), (''h'', 3600000000000)] u"

text \<open>The digits in front, unless they exceed \<open>2\<^sup>6\<^sup>3\<close>.\<close>

fun leading_int :: "int \<Rightarrow> string \<Rightarrow> (int \<times> string) option" where
  "leading_int x [] = Some (x, [])"
| "leading_int x (c # cs) =
     (if \<not> is_digit c then Some (x, c # cs)
      else if 2 ^ 63 div 10 < x then None
      else (let y = x * 10 + digit_val c in if 2 ^ 63 < y then None else leading_int y cs))"

text \<open>The digits behind a point, as many as fit: their value and how many counted.\<close>

fun leading_fraction :: "bool \<Rightarrow> int \<Rightarrow> nat \<Rightarrow> string \<Rightarrow> int \<times> nat \<times> string" where
  "leading_fraction overflow x k [] = (x, k, [])"
| "leading_fraction overflow x k (c # cs) =
     (if \<not> is_digit c then (x, k, c # cs)
      else if overflow \<or> (2 ^ 63 - 1) div 10 < x then leading_fraction True x k cs
      else (let y = x * 10 + digit_val c
            in if 2 ^ 63 < y then leading_fraction True x k cs else leading_fraction False y (k + 1) cs))"

definition fraction_nanos :: "int \<Rightarrow> nat \<Rightarrow> int \<Rightarrow> int" where
  "fraction_nanos f k nanos =
     \<lfloor>f_val (rnd (f_val (f_of_int f) * f_val (rnd (of_int nanos / 10 ^ k))))\<rfloor>"

text \<open>The number in front: its whole part, its fraction and the rest.\<close>

definition unit_char :: "char \<Rightarrow> bool" where
  "unit_char c = (\<not> (c = CHR ''.'' \<or> is_digit c))"

definition duration_number :: "string \<Rightarrow> (int \<times> int \<times> nat \<times> string) option" where
  "duration_number s =
     (if s = [] \<or> unit_char (hd s) then None
      else (case leading_int 0 s of
          None \<Rightarrow> None
        | Some (v, s1) \<Rightarrow>
            (let pre = (length s1 \<noteq> length s);
                 (post, f, k, s2) = (case s1 of
                     c # cs \<Rightarrow>
                       if c = CHR ''.'' then (case leading_fraction False 0 0 cs of (f, k, r) \<Rightarrow> (length r \<noteq> length cs, f, k, r))
                       else (False, 0, 0, s1)
                   | [] \<Rightarrow> (False, 0, 0, s1))
             in if \<not> pre \<and> \<not> post then None else Some (v, f, k, s2))))"

text \<open>One number with its unit: the nanoseconds and the rest.\<close>

definition duration_part :: "string \<Rightarrow> (int \<times> string) option" where
  "duration_part s =
     (case duration_number s of
        None \<Rightarrow> None
      | Some (v, f, k, s2) \<Rightarrow>
          (let u = takeWhile unit_char s2; rest = dropWhile unit_char s2
           in if u = [] then None
              else (case unit_nanos u of
                  None \<Rightarrow> None
                | Some nanos \<Rightarrow>
                    if 2 ^ 63 div nanos < v then None
                    else (let w = v * nanos + (if 0 < f then fraction_nanos f k nanos else 0)
                          in if 2 ^ 63 < w then None else Some (w, rest)))))"

lemma leading_int_length: "leading_int x s = Some (v, t) \<Longrightarrow> length t \<le> length s"
  by (induction x s rule: leading_int.induct) (auto simp: Let_def split: if_splits)

lemma leading_fraction_length: "leading_fraction b x k s = (f, k', t) \<Longrightarrow> length t \<le> length s"
  by (induction b x k s rule: leading_fraction.induct) (auto simp: Let_def split: if_splits)

lemma duration_number_length: "duration_number s = Some (v, f, k, t) \<Longrightarrow> length t \<le> length s"
  by (auto simp: duration_number_def Let_def split: if_splits option.splits list.splits prod.splits
      dest!: leading_int_length leading_fraction_length)

lemma split_while: "takeWhile P s \<noteq> [] \<Longrightarrow> length (dropWhile P s) < length s"
  by (cases s) (auto simp: less_Suc_eq_le length_dropWhile_le split: if_splits)

lemma duration_part_length:
  assumes "duration_part s = Some (w, t)"
  shows "length t < length s"
proof -
  obtain v f k s2 where n: "duration_number s = Some (v, f, k, s2)" "takeWhile unit_char s2 \<noteq> []" "t = dropWhile unit_char s2"
    using assms by (auto simp: duration_part_def Let_def split: option.splits if_splits)
  show ?thesis using split_while [OF n(2)] duration_number_length [OF n(1)] by (simp add: n(3))
qed

text \<open>The parts are added modulo \<open>2\<^sup>6\<^sup>4\<close>, each sum checked to be at most \<open>2\<^sup>6\<^sup>3\<close>.\<close>

function duration_sum :: "int \<Rightarrow> string \<Rightarrow> int option" where
  "duration_sum d s =
     (if s = [] then Some d
      else (case duration_part s of
          None \<Rightarrow> None
        | Some (v, rest) \<Rightarrow>
            (let d' = (d + v) mod 2 ^ 64 in if 2 ^ 63 < d' then None else duration_sum d' rest)))"
  by pat_completeness auto
termination
  by (relation "measure (\<lambda>(d, s). length s)") (auto dest: duration_part_length)

declare duration_sum.simps [simp del]

definition ParseDuration :: "string \<Rightarrow> int option" where
  "ParseDuration s0 =
     (let neg = (s0 \<noteq> [] \<and> hd s0 = CHR ''-'');
          s = (if s0 \<noteq> [] \<and> (hd s0 = CHR ''-'' \<or> hd s0 = CHR ''+'') then tl s0 else s0)
      in if s = ''0'' then Some 0
         else if s = '''' then None
         else (case duration_sum 0 s of
             None \<Rightarrow> None
           | Some d \<Rightarrow> if neg then Some (- d) else if 2 ^ 63 - 1 < d then None else Some d))"

section \<open>Facts\<close>

lemma duration_sum_range: "duration_sum d s = Some e \<Longrightarrow> 0 \<le> d \<Longrightarrow> d \<le> 2 ^ 63 \<Longrightarrow> 0 \<le> e \<and> e \<le> 2 ^ 63"
proof (induction d s rule: duration_sum.induct)
  case (1 d s)
  show ?case
  proof (cases "s = []")
    case True
    with 1 show ?thesis by (simp add: duration_sum.simps [of d "[]"])
  next
    case False
    with 1(2) obtain v rest where p: "duration_part s = Some (v, rest)" "\<not> 2 ^ 63 < (d + v) mod 2 ^ 64"
      "duration_sum ((d + v) mod 2 ^ 64) rest = Some e"
      by (auto simp: duration_sum.simps [of d s] Let_def split: option.splits if_splits)
    show ?thesis by (rule 1(1) [OF False p(1) refl refl p(2) p(3)]) (use p(2) in simp_all)
  qed
qed

lemma ParseDuration_range: "ParseDuration s = Some d \<Longrightarrow> - (2 ^ 63) \<le> d \<and> d < 2 ^ 63"
  by (auto simp: ParseDuration_def Let_def split: if_splits option.splits dest!: duration_sum_range)

lemma leading_int_digits:
  assumes "list_all is_digit ds" and "0 \<le> x" and "foldl (\<lambda>n c. 10 * n + digit_val c) x ds < 2 ^ 63" and "t = [] \<or> \<not> is_digit (hd t)"
  shows "leading_int x (ds @ t) = Some (foldl (\<lambda>n c. 10 * n + digit_val c) x ds, t)"
  using assms
proof (induction ds arbitrary: x)
  case Nil
  then show ?case by (cases t) auto
next
  case (Cons c cs)
  have mono: "n \<le> foldl (\<lambda>n c. 10 * n + digit_val c) n ds" if "0 \<le> n" "list_all is_digit ds" for n ds
    using that
  proof (induction ds arbitrary: n)
    case (Cons d ds)
    then have "0 \<le> digit_val d" by (simp add: is_digit_def digit_val_def Let_def)
    with Cons have "n \<le> 10 * n + digit_val d" "0 \<le> 10 * n + digit_val d" by simp_all
    with Cons.IH [of "10 * n + digit_val d"] Cons.prems show ?case by simp
  qed simp
  have dv: "0 \<le> digit_val c" using Cons.prems(1) by (simp add: is_digit_def digit_val_def Let_def)
  have n: "0 \<le> 10 * x + digit_val c" using dv Cons.prems(2) by simp
  then have lt: "10 * x + digit_val c < 2 ^ 63" using mono [of "10 * x + digit_val c" cs] Cons.prems by simp
  then have "\<not> 2 ^ 63 div 10 < x" using dv by simp
  moreover have "x * 10 + digit_val c = 10 * x + digit_val c" by simp
  ultimately show ?case using Cons.IH [OF _ n] Cons.prems lt by (simp add: Let_def mult.commute)
qed

text \<open>A whole number of a unit.\<close>

lemma ParseDuration_whole:
  assumes "unit_nanos u = Some nanos" and "0 \<le> n" and "n * nanos < 2 ^ 63"
    and "u \<noteq> []" and "list_all unit_char u" and "0 < nanos"
  shows "ParseDuration (fmt_d n @ u) = Some (n * nanos)"
proof -
  let ?s = "dec_str n @ u"
  obtain c cs where c: "dec_str n = c # cs" "is_digit c" using dec_str_head [OF assms(2)] by blast
  have sign: "c \<noteq> CHR ''-''" "c \<noteq> CHR ''+''" using c(2) by (auto simp: is_digit_def)
  have nn: "n \<le> n * nanos" using assms(2,6) by (simp add: mult_le_cancel_left1)
  obtain x xs where x: "u = x # xs" "x \<noteq> CHR ''.''" "\<not> is_digit x"
    using assms(4,5) by (cases u) (auto simp: unit_char_def)
  have val: "foldl (\<lambda>n c. 10 * n + digit_val c) 0 (dec_str n) = n" "list_all is_digit (dec_str n)"
    using parse_nat_dec_str [OF assms(2)] by (auto simp: parse_nat_def split: if_splits)
  have "leading_int 0 ?s = Some (n, u)"
    using leading_int_digits [OF val(2), of 0 u] val(1) nn assms(3) x by simp
  then have num: "duration_number ?s = Some (n, 0, 0, u)"
    using c by (simp add: duration_number_def Let_def unit_char_def x(1,2))
  have w: "takeWhile unit_char u = u" "dropWhile unit_char u = []"
    using assms(5) by (auto simp: list_all_iff takeWhile_eq_all_conv dropWhile_eq_Nil_conv)
  have "n * nanos div nanos \<le> 2 ^ 63 div nanos" using assms(3,6) by (intro zdiv_mono1) simp_all
  then have "\<not> 2 ^ 63 div nanos < n" using assms(6) by simp
  then have p: "duration_part ?s = Some (n * nanos, [])"
    using assms(1,3,4) by (simp add: duration_part_def num w Let_def)
  have "0 \<le> n * nanos" using nn assms(2) by simp
  then have "duration_sum 0 ?s = Some (n * nanos)"
    unfolding duration_sum.simps [of 0 ?s] p using assms(3,4) by (simp add: duration_sum.simps [of _ "[]"] Let_def)
  moreover have "?s \<noteq> ''0''" using c x(1) by auto
  ultimately show ?thesis using assms(2,3,4) c sign by (simp add: ParseDuration_def fmt_d_def Let_def)
qed

end
