(* ===== verification/Llm_Config.thy ===== *)
theory Llm_Config
  imports Llm Go_Duration
begin

text \<open>
  The part of \<open>internal/agent/llm.go\<close> that reads the configuration of the model from the environment,
  given as a function. The fact: whatever the variables hold, the rounds and the time are usable.
\<close>

definition env_value :: "(string \<Rightarrow> string) \<Rightarrow> string \<Rightarrow> string \<Rightarrow> string" where
  "env_value getenv key fallback = (if getenv key \<noteq> '''' then getenv key else fallback)"

definition boundedPositiveIntEnv :: "(string \<Rightarrow> string) \<Rightarrow> string \<Rightarrow> int \<Rightarrow> int \<Rightarrow> int" where
  "boundedPositiveIntEnv getenv key fallback maximum =
     (let value = trim_space (getenv key)
      in if value = '''' then fallback
         else (case ParseInt 64 value of
             None \<Rightarrow> fallback
           | Some parsed \<Rightarrow> if parsed \<le> 0 then fallback else if maximum < parsed then maximum else parsed))"

definition positiveDurationEnv :: "(string \<Rightarrow> string) \<Rightarrow> string \<Rightarrow> int \<Rightarrow> int" where
  "positiveDurationEnv getenv key fallback =
     (let value = trim_space (getenv key)
      in if value = '''' then fallback
         else (case ParseDuration value of
             None \<Rightarrow> fallback
           | Some parsed \<Rightarrow> if parsed \<le> 0 then fallback else parsed))"

definition LLMConfigFromEnv :: "(string \<Rightarrow> string) \<Rightarrow> llm_config" where
  "LLMConfigFromEnv getenv =
     (let rounds = boundedPositiveIntEnv getenv ''LLM_MAX_TOOL_ROUNDS'' defaultMaxToolRounds maximumMaxToolRounds
      in \<lparr>lc_url = env_value getenv ''LLM_BASE_URL'' '''', lc_key = getenv ''LLM_API_KEY'',
          lc_model = env_value getenv ''LLM_MODEL'' ''gpt-4.1-mini'', lc_max_tool_rounds = rounds,
          lc_timeout = positiveDurationEnv getenv ''LLM_TIMEOUT'' (defaultLLMCompletionTimeout rounds)\<rparr>)"

lemma bounded_int_env: "0 < fallback \<Longrightarrow> fallback \<le> maximum \<Longrightarrow>
   0 < boundedPositiveIntEnv getenv key fallback maximum \<and> boundedPositiveIntEnv getenv key fallback maximum \<le> maximum"
  by (auto simp: boundedPositiveIntEnv_def Let_def split: option.split)

lemma positive_duration_env: "0 < fallback \<Longrightarrow> 0 < positiveDurationEnv getenv key fallback"
  by (auto simp: positiveDurationEnv_def Let_def split: option.split)

lemma trim_space_fmt_d_s: "0 \<le> n \<Longrightarrow> trim_space (fmt_d n @ ''s'') = fmt_d n @ ''s''"
proof -
  assume n: "0 \<le> n"
  then obtain c cs where c: "dec_str n = c # cs" "is_digit c" using dec_str_head by blast
  then have "\<not> is_space c" by (auto simp: is_digit_def is_space_def Let_def)
  moreover have "\<not> is_space CHR ''s''" by (simp add: is_space_def)
  ultimately show ?thesis using n c by (simp add: fmt_d_def trim_space_def trim_with_def)
qed

text \<open>Whatever the environment holds, the rounds are at least 1 and at most 16, the clamping done when they
  are used changes nothing any more, and the time is positive, so that it is the time of a completion; a
  whole number of seconds in \<open>LLM_TIMEOUT\<close> is that time.\<close>

theorem llm_config_usable:
  "let c = LLMConfigFromEnv getenv in
     1 \<le> lc_max_tool_rounds c \<and> lc_max_tool_rounds c \<le> 16 \<and> maxToolRounds c = lc_max_tool_rounds c
     \<and> 0 < lc_timeout c \<and> completionTimeout c = lc_timeout c
     \<and> (\<forall>n. 0 < n \<and> n < 9000000000 \<and> getenv ''LLM_TIMEOUT'' = fmt_d n @ ''s'' \<longrightarrow> lc_timeout c = n * 1000000000)"
proof -
  let ?r = "boundedPositiveIntEnv getenv ''LLM_MAX_TOOL_ROUNDS'' defaultMaxToolRounds maximumMaxToolRounds"
  have r: "0 < ?r" "?r \<le> 16"
    using bounded_int_env [of defaultMaxToolRounds maximumMaxToolRounds getenv "''LLM_MAX_TOOL_ROUNDS''"]
    by (simp_all add: defaultMaxToolRounds_def maximumMaxToolRounds_def)
  then have "0 < defaultLLMCompletionTimeout ?r"
    by (simp add: defaultLLMCompletionTimeout_def llmRoundTimeoutBudget_def maximumMaxToolRounds_def)
  then have t: "0 < positiveDurationEnv getenv ''LLM_TIMEOUT'' (defaultLLMCompletionTimeout ?r)"
    by (rule positive_duration_env)
  have s: "positiveDurationEnv getenv ''LLM_TIMEOUT'' d = n * 1000000000"
    if "0 < n" "n < 9000000000" "getenv ''LLM_TIMEOUT'' = fmt_d n @ ''s''" for n d
  proof -
    have "unit_nanos ''s'' = Some 1000000000" by (simp add: unit_nanos_def utf8_def)
    moreover have "list_all unit_char ''s''" by (simp add: unit_char_def is_digit_def)
    ultimately have "ParseDuration (fmt_d n @ ''s'') = Some (n * 1000000000)"
      using that(1,2) by (intro ParseDuration_whole) simp_all
    then show ?thesis using that trim_space_fmt_d_s [of n] by (simp add: positiveDurationEnv_def Let_def)
  qed
  have m: "maxToolRounds (LLMConfigFromEnv getenv) = ?r"
    using r by (simp add: LLMConfigFromEnv_def Let_def maxToolRounds_def maximumMaxToolRounds_def)
  show ?thesis
    unfolding Let_def m using r t s by (simp add: LLMConfigFromEnv_def completionTimeout_def Let_def)
qed

lemma llm_config_usable_witness:
  "lc_timeout (LLMConfigFromEnv (\<lambda>k. if k = ''LLM_TIMEOUT'' then fmt_d 90 @ ''s'' else '''')) = 90000000000"
proof -
  let ?g = "\<lambda>k. if k = ''LLM_TIMEOUT'' then fmt_d 90 @ ''s'' else ''''"
  have "\<forall>n. 0 < n \<and> n < 9000000000 \<and> ?g ''LLM_TIMEOUT'' = fmt_d n @ ''s'' \<longrightarrow> lc_timeout (LLMConfigFromEnv ?g) = n * 1000000000"
    using llm_config_usable [of ?g] unfolding Let_def by blast
  from spec [OF this, of 90] show ?thesis by simp
qed

end
