(* ===== verification/Web_Server.thy ===== *)
theory Web_Server
  imports Source_Manager Analyzer Scheduler_Client Llm_Config Go_Json
begin

text \<open>
  File \<open>cmd/volens/main.go\<close>: the HTTP service. A handler is a function from what it reads to a status and a
  body; gin, the router, and the encoder of the bodies are not modelled. The one slot for analyses is a
  machine whose steps are those of the running handlers, in any interleaving. The facts: never two
  analyses at once and the slot is always given back (\<open>one_analysis\<close>), a request is analysed exactly when it
  is one readable object with a Pod and a namespace (\<open>analyze_admission\<close>), and the branch recommended is
  one of those offered.
\<close>

definition maxAnalyzeBodyBytes :: nat where "maxAnalyzeBodyBytes = 1048576"
definition defaultAnalyzeTimeout :: int where "defaultAnalyzeTimeout = 15 * 60 * 10 ^ 9"

definition analyzeTimeoutFromEnv :: "(string \<Rightarrow> string) \<Rightarrow> int" where
  "analyzeTimeoutFromEnv getenv =
     (let value = trim_space (getenv ''VOLENS_ANALYZE_TIMEOUT'')
      in if value = '''' then defaultAnalyzeTimeout
         else (case ParseDuration value of
             None \<Rightarrow> defaultAnalyzeTimeout
           | Some timeout \<Rightarrow> if timeout \<le> 0 then defaultAnalyzeTimeout else timeout))"

section \<open>The request\<close>

text \<open>The struct's fields: a name as it is or with case folded, a text or null; unknown names are skipped.\<close>

definition set_request :: "request \<Rightarrow> string \<times> json \<Rightarrow> request option" where
  "set_request r member =
     (case member of (key, v) \<Rightarrow>
        let set = (\<lambda>f. case v of JNull \<Rightarrow> Some r | JStr s \<Rightarrow> Some (f s) | _ \<Rightarrow> None)
        in if fold_name key = ''namespace'' then set (\<lambda>s. r\<lparr>rq_namespace := s\<rparr>)
           else if fold_name key = ''pod'' then set (\<lambda>s. r\<lparr>rq_pod := s\<rparr>)
           else if fold_name key = ''branch'' then set (\<lambda>s. r\<lparr>rq_branch := s\<rparr>)
           else Some r)"

fun set_requests :: "request \<Rightarrow> (string \<times> json) list \<Rightarrow> request option" where
  "set_requests r [] = Some r"
| "set_requests r (m # ms) = (case set_request r m of None \<Rightarrow> None | Some r' \<Rightarrow> set_requests r' ms)"

definition empty_request :: request where
  "empty_request = \<lparr>rq_namespace = '''', rq_pod = '''', rq_branch = ''''\<rparr>"

text \<open>
  An error of the decoder or of the limited body: its text, and whether it is the one of the limit. The
  decoder's own errors come from the environment, by the text read so far and what is left of it. A body
  beyond the limit is cut, and reading on fails with the limit's error.
\<close>

type_synonym decode_error = "string \<times> bool"

definition limit_error :: decode_error where
  "limit_error = (''http: request body too large'', True)"

definition decodeAnalyzeRequest :: "(string \<Rightarrow> string \<Rightarrow> decode_error) \<Rightarrow> string \<Rightarrow> decode_error + request" where
  "decodeAnalyzeRequest json_error body =
     (let raw = take maxAnalyzeBodyBytes body; cut = (maxAnalyzeBodyBytes < length body)
      in case json_value raw of
           None \<Rightarrow> Inl (json_error body raw)
         | Some (v, rest) \<Rightarrow>
             (case (case v of JNull \<Rightarrow> Some empty_request | JObj ms \<Rightarrow> set_requests empty_request ms | _ \<Rightarrow> None) of
                None \<Rightarrow> Inl (json_error body raw)
              | Some r \<Rightarrow>
                  if skip_ws rest = [] then (if cut then Inl limit_error else Inr r)
                  else (case json_value rest of
                      None \<Rightarrow> Inl (json_error body rest)
                    | Some _ \<Rightarrow> Inl (''request body must contain one JSON object'', False))))"

section \<open>Responses\<close>

datatype body =
    ErrorBody string
  | PodsBody "pending_pod list"
  | ReportBody report
  | BranchesBody "string list" "(scheduler option \<times> string option \<times> string) option"
  | TextBody string
  | StaticFile string

type_synonym response = "int \<times> body"

definition writeError :: "int \<Rightarrow> string \<Rightarrow> response" where
  "writeError status err = (status, ErrorBody err)"

definition get_pods :: "client_api \<Rightarrow> response" where
  "get_pods api =
     (case ListPendingPods api of
        Inl e \<Rightarrow> writeError 500 (err_text e)
      | Inr pods \<Rightarrow> (200, PodsBody pods))"

text \<open>The version found at startup; not ready while the detection runs.\<close>

record version_cache =
  vc_ready :: bool
  vc_scheduler :: scheduler
  vc_err :: "go_error option"

definition store_version :: "scheduler \<times> go_error option \<Rightarrow> version_cache \<Rightarrow> version_cache" where
  "store_version found cache = \<lparr>vc_ready = True, vc_scheduler = fst found, vc_err = snd found\<rparr>"

definition snapshot_version :: "version_cache \<Rightarrow> scheduler \<times> go_error option \<times> bool" where
  "snapshot_version cache = (vc_scheduler cache, vc_err cache, vc_ready cache)"

text \<open>Without a cluster client the cache is ready at once, with an error; else the detection fills it later.\<close>

definition newSchedulerVersionCache :: "bool \<Rightarrow> version_cache" where
  "newSchedulerVersionCache managed =
     (let cache = \<lparr>vc_ready = False, vc_scheduler = empty_scheduler, vc_err = None\<rparr>
      in if \<not> managed then store_version (empty_scheduler, Some (errorf ''cluster manager is not configured'')) cache
         else cache)"

text \<open>The scheduler, the error about its version and the recommended branch, when there is a cache.\<close>

definition version_part :: "version_cache option \<Rightarrow> string list \<Rightarrow> (scheduler option \<times> string option \<times> string) option" where
  "version_part cache branches =
     (case cache of
        None \<Rightarrow> None
      | Some c \<Rightarrow>
          (let (scheduler, versionErr, ready) = snapshot_version c
           in if ready then
                (case versionErr of
                   None \<Rightarrow> Some (Some scheduler, None, RecommendBranch (sch_version scheduler) branches)
                 | Some e \<Rightarrow> Some (None, Some (err_text e), RecommendBranch '''' branches))
              else Some (None, Some ''scheduler version detection is still running'', RecommendBranch '''' branches)))"

definition get_branches :: "'w source_env \<Rightarrow> manager \<Rightarrow> version_cache option \<Rightarrow> 'w \<Rightarrow> response \<times> 'w" where
  "get_branches env m cache w =
     (case ListBranches env m w of
        (Inl e, w') \<Rightarrow> (writeError 500 (err_text e), w')
      | (Inr branches, w') \<Rightarrow> ((200, BranchesBody branches (version_part cache branches)), w'))"

text \<open>Paths without a handler: the API answers 404, everything else is a static file for a reader.\<close>

definition no_route :: "string \<Rightarrow> string \<Rightarrow> response" where
  "no_route verb path =
     (if path = ''/api'' \<or> has_prefix path ''/api/'' then writeError 404 ''not found''
      else if verb \<noteq> ''GET'' \<and> verb \<noteq> ''HEAD'' then writeError 404 ''not found''
      else (200, StaticFile path))"

section \<open>Analyses\<close>

text \<open>What a handler does up to the slot: it answers, or it has a request to analyse.\<close>

definition admit :: "(string \<Rightarrow> string \<Rightarrow> decode_error) \<Rightarrow> string \<Rightarrow> response + request" where
  "admit json_error body =
     (case decodeAnalyzeRequest json_error body of
        Inl (message, too_large) \<Rightarrow> Inl (writeError (if too_large then 413 else 400) message)
      | Inr request \<Rightarrow>
          if rq_namespace request = '''' \<or> rq_pod request = '''' then
            Inl (writeError 400 ''namespace and pod are required'')
          else Inr request)"

text \<open>What an analysis ends with; a panic is caught by the recovery and answered with status 500.\<close>

datatype ending = Returned "go_error + report" | Panicked

definition conclude :: "ending \<Rightarrow> response" where
  "conclude r =
     (case r of
        Returned (Inl e) \<Rightarrow> writeError 500 (err_text e)
      | Returned (Inr report) \<Rightarrow> (200, ReportBody report)
      | Panicked \<Rightarrow> writeError 500 ''internal server error'')"

text \<open>A handler has its body, or is in the analysis, or has answered. The slot is a channel of one place.\<close>

datatype handler = Arrived string | Analyzing request | Answered response

record server =
  sv_handlers :: "handler list"
  sv_slot :: nat

definition busy :: response where
  "busy = writeError 429 ''another analysis is already running''"

text \<open>One handler goes on: it takes the slot without waiting, or is told that it is taken.\<close>

definition enter :: "(string \<Rightarrow> string \<Rightarrow> decode_error) \<Rightarrow> nat \<Rightarrow> server \<Rightarrow> server" where
  "enter json_error i s =
     (case sv_handlers s ! i of
        Arrived body \<Rightarrow>
          (case admit json_error body of
             Inl r \<Rightarrow> s\<lparr>sv_handlers := (sv_handlers s)[i := Answered r]\<rparr>
           | Inr request \<Rightarrow>
               if sv_slot s < 1 then s\<lparr>sv_handlers := (sv_handlers s)[i := Analyzing request], sv_slot := sv_slot s + 1\<rparr>
               else s\<lparr>sv_handlers := (sv_handlers s)[i := Answered busy]\<rparr>)
      | _ \<Rightarrow> s)"

text \<open>An analysis ends in any way: the deferred receive gives the slot back.\<close>

definition leave :: "ending \<Rightarrow> nat \<Rightarrow> server \<Rightarrow> server" where
  "leave r i s =
     (case sv_handlers s ! i of
        Analyzing request \<Rightarrow> s\<lparr>sv_handlers := (sv_handlers s)[i := Answered (conclude r)], sv_slot := sv_slot s - 1\<rparr>
      | _ \<Rightarrow> s)"

inductive server_step :: "(string \<Rightarrow> string \<Rightarrow> decode_error) \<Rightarrow> server \<Rightarrow> server \<Rightarrow> bool" for json_error where
  arrives: "server_step json_error s (s\<lparr>sv_handlers := sv_handlers s @ [Arrived body]\<rparr>)"
| enters: "i < length (sv_handlers s) \<Longrightarrow> server_step json_error s (enter json_error i s)"
| leaves: "i < length (sv_handlers s) \<Longrightarrow> server_step json_error s (leave r i s)"

definition started :: server where
  "started = \<lparr>sv_handlers = [], sv_slot = 0\<rparr>"

definition reachable :: "(string \<Rightarrow> string \<Rightarrow> decode_error) \<Rightarrow> server \<Rightarrow> bool" where
  "reachable json_error s \<longleftrightarrow> (server_step json_error)\<^sup>*\<^sup>* started s"

section \<open>Serving\<close>

text \<open>
  \<open>serve\<close> waits for the server to end or the context to be cancelled. The first argument is the server's
  error when it ended first; else the shutdown's error and then the server's, where \<open>ErrServerClosed\<close> is
  the flag of an orderly end.
\<close>

datatype serve_event = ServerEnded "go_error option" bool | ContextDone "go_error option" "go_error option" bool

definition serve :: "serve_event \<Rightarrow> go_error option" where
  "serve e =
     (case e of
        ServerEnded err orderly \<Rightarrow> if orderly then None else err
      | ContextDone shutdownErr serveErr orderly \<Rightarrow>
          if serveErr \<noteq> None \<and> \<not> orderly then serveErr else shutdownErr)"

text \<open>
  \<open>run\<close>: the settings read from the environment, and the first error of creating the cluster client, of
  starting it and of serving.
\<close>

definition service_manager :: "(string \<Rightarrow> string) \<Rightarrow> manager" where
  "service_manager getenv =
     \<lparr>mg_dir = env_value getenv ''VOLENS_SOURCE_DIR'' ''/var/lib/volens/volcano'',
      mg_remote = env_value getenv ''VOLCANO_REPO_URL'' ''https://github.com/volcano-sh/volcano.git''\<rparr>"

definition run_service :: "go_error option \<Rightarrow> go_error option \<Rightarrow> serve_event \<Rightarrow> go_error option" where
  "run_service clientErr startErr e =
     (if clientErr \<noteq> None then clientErr else if startErr \<noteq> None then startErr else serve e)"

section \<open>Which requests are analysed\<close>

text \<open>The request a JSON value stands for.\<close>

definition request_of :: "json \<Rightarrow> request option" where
  "request_of v = (case v of JNull \<Rightarrow> Some empty_request | JObj ms \<Rightarrow> set_requests empty_request ms | _ \<Rightarrow> None)"

lemma decode_request_Inr:
  "decodeAnalyzeRequest je body = Inr request \<longleftrightarrow>
     length body \<le> maxAnalyzeBodyBytes
     \<and> (\<exists>v rest. json_value body = Some (v, rest) \<and> skip_ws rest = [] \<and> request_of v = Some request)"
proof (cases "length body \<le> maxAnalyzeBodyBytes")
  case True
  then have t: "take maxAnalyzeBodyBytes body = body" by simp
  show ?thesis
    using True unfolding decodeAnalyzeRequest_def Let_def t request_of_def [symmetric]
    by (auto split: option.splits if_splits)
next
  case False
  then show ?thesis
    unfolding decodeAnalyzeRequest_def Let_def by (auto split: option.splits if_splits)
qed

text \<open>A body gets as far as an analysis exactly when it is at most 1 MiB, one JSON value and nothing but
  blanks behind it, a request with a namespace and a Pod; else it is answered with status 400 or 413 and no
  analysis is tried.\<close>

theorem analyze_admission:
  "(admit je body = Inr request \<longleftrightarrow>
      length body \<le> 1048576 \<and> rq_namespace request \<noteq> '''' \<and> rq_pod request \<noteq> ''''
      \<and> (\<exists>v rest. json_value body = Some (v, rest) \<and> skip_ws rest = [] \<and> request_of v = Some request))
   \<and> ((\<exists>r. admit je body = Inr r) \<or> (\<exists>status message. admit je body = Inl (status, ErrorBody message) \<and> status \<in> {400, 413}))"
proof -
  have "admit je body = Inr request \<longleftrightarrow>
      decodeAnalyzeRequest je body = Inr request \<and> rq_namespace request \<noteq> '''' \<and> rq_pod request \<noteq> ''''"
    by (auto simp: admit_def writeError_def split: sum.splits prod.splits if_splits)
  moreover have "(\<exists>r. admit je body = Inr r) \<or> (\<exists>status message. admit je body = Inl (status, ErrorBody message) \<and> status \<in> {400, 413})"
    by (auto simp: admit_def writeError_def split: sum.splits prod.splits if_splits)
  ultimately show ?thesis by (auto simp: decode_request_Inr maxAnalyzeBodyBytes_def)
qed

section \<open>The slot\<close>

fun analyzing :: "handler \<Rightarrow> bool" where
  "analyzing (Analyzing request) = True"
| "analyzing _ = False"

definition running :: "server \<Rightarrow> nat" where
  "running s = length (filter analyzing (sv_handlers s))"

definition slot_ok :: "server \<Rightarrow> bool" where
  "slot_ok s \<longleftrightarrow> sv_slot s = running s \<and> running s \<le> 1"

lemma filter_update:
  "i < length hs \<Longrightarrow> length (filter P (hs[i := h])) + (if P (hs ! i) then 1 else 0)
    = length (filter P hs) + (if P h then 1 else 0)"
proof (induction hs arbitrary: i)
  case (Cons x xs)
  then show ?case by (cases i) auto
qed simp

lemma enter_ok:
  assumes "slot_ok s" and "i < length (sv_handlers s)"
  shows "slot_ok (enter je i s)"
proof (cases "sv_handlers s ! i")
  case (Arrived body)
  note u = filter_update [OF assms(2), of analyzing]
  show ?thesis
    using assms(1) u [of "Answered busy"] u [of "Answered (projl (admit je body))"] u [of "Analyzing (projr (admit je body))"]
    by (auto simp: enter_def Arrived slot_ok_def running_def split: sum.split)
qed (use assms in \<open>simp_all add: enter_def\<close>)

lemma leave_ok:
  assumes "slot_ok s" and "i < length (sv_handlers s)"
  shows "slot_ok (leave r i s)"
proof (cases "sv_handlers s ! i")
  case (Analyzing request)
  have "sv_handlers (leave r i s) = (sv_handlers s)[i := Answered (conclude r)]" "sv_slot (leave r i s) = sv_slot s - 1"
    by (simp_all add: leave_def Analyzing)
  moreover have "length (filter analyzing ((sv_handlers s)[i := Answered (conclude r)])) + 1 = length (filter analyzing (sv_handlers s))"
    using filter_update [OF assms(2), of analyzing "Answered (conclude r)"] by (simp add: Analyzing)
  ultimately have "running (leave r i s) + 1 = running s" "sv_slot (leave r i s) = sv_slot s - 1"
    unfolding running_def by (simp_all only:)
  then show ?thesis using assms(1) unfolding slot_ok_def by linarith
qed (use assms in \<open>simp_all add: leave_def\<close>)

lemma reachable_ok: "reachable je s \<Longrightarrow> slot_ok s"
proof -
  have step: "server_step je s s' \<Longrightarrow> slot_ok s \<Longrightarrow> slot_ok s'" for s s'
  proof (induction rule: server_step.induct)
    case (arrives s body)
    then show ?case by (simp add: slot_ok_def running_def)
  qed (auto intro: enter_ok leave_ok)
  assume "reachable je s"
  then have "(server_step je)\<^sup>*\<^sup>* started s" by (simp add: reachable_def)
  then show ?thesis
  proof (induction rule: rtranclp_induct)
    case base
    show ?case by (simp add: started_def slot_ok_def running_def)
  next
    case (step s s')
    then show ?case using \<open>\<And>s s'. server_step je s s' \<Longrightarrow> slot_ok s \<Longrightarrow> slot_ok s'\<close> by blast
  qed
qed

lemma one_analyzing: "running s \<le> 1 \<Longrightarrow> i < length (sv_handlers s) \<Longrightarrow> j < length (sv_handlers s)
    \<Longrightarrow> analyzing (sv_handlers s ! i) \<Longrightarrow> analyzing (sv_handlers s ! j) \<Longrightarrow> i = j"
proof (rule ccontr)
  assume r: "running s \<le> 1" "i < length (sv_handlers s)" "j < length (sv_handlers s)"
    "analyzing (sv_handlers s ! i)" "analyzing (sv_handlers s ! j)" "i \<noteq> j"
  have "{i, j} \<subseteq> {k. k < length (sv_handlers s) \<and> analyzing (sv_handlers s ! k)}" using r by auto
  then have "card {i, j} \<le> card {k. k < length (sv_handlers s) \<and> analyzing (sv_handlers s ! k)}"
    by (intro card_mono) auto
  with r show False by (simp add: running_def length_filter_conv_card)
qed

text \<open>C7: However the handlers interleave, no two analyses run at the same time, and the slot is taken exactly
  while one runs.\<close>

theorem one_analysis:
  assumes "reachable json_error s"
  shows "sv_slot s = running s \<and> running s \<le> 1
    \<and> (\<forall>i j. i < length (sv_handlers s) \<and> j < length (sv_handlers s)
         \<and> analyzing (sv_handlers s ! i) \<and> analyzing (sv_handlers s ! j) \<longrightarrow> i = j)"
  using reachable_ok [OF assms] one_analyzing [of s] by (auto simp: slot_ok_def)

text \<open>C27: A request that comes during an analysis is turned away with status 429 at once; when the analysis
  ends, with a report, an error or a panic, its handler answers and the same request gets the slot.\<close>

theorem slot_given_back:
  assumes "reachable json_error s" and "i < length (sv_handlers s)" and "j < length (sv_handlers s)"
    and "sv_handlers s ! i = Analyzing other" and "sv_handlers s ! j = Arrived body" and "admit json_error body = Inr request"
  shows "sv_handlers (enter json_error j s) ! j = Answered busy
    \<and> sv_handlers (leave r i s) ! i = Answered (conclude r) \<and> fst (conclude r) \<in> {200, 500}
    \<and> sv_slot (leave r i s) = 0
    \<and> sv_handlers (enter json_error j (leave r i s)) ! j = Analyzing request"
proof -
  have ok: "sv_slot s = running s" "running s \<le> 1" using reachable_ok [OF assms(1)] by (simp_all add: slot_ok_def)
  have "0 < running s"
    using filter_update [OF assms(2), of analyzing "Answered busy"] assms(4)
    by (cases "filter analyzing (sv_handlers s)") (auto simp: running_def)
  with ok have one: "sv_slot s = 1" by simp
  have ij: "i \<noteq> j" using assms(4,5) by auto
  have "fst (conclude r) \<in> {200, 500}" by (simp add: conclude_def writeError_def split: ending.split sum.split)
  then show ?thesis
    using assms one ij by (simp add: enter_def leave_def)
qed

definition sample_body :: string where
  "sample_body = ''{'' @ dq @ ''namespace'' @ dq @ '':'' @ dq @ ''team'' @ dq @ '', '' @ dq @ ''Pod'' @ dq @ '':'' @
     dq @ ''train'' @ dq @ ''}''"

definition sample_request :: request where
  "sample_request = \<lparr>rq_namespace = ''team'', rq_pod = ''train'', rq_branch = ''''\<rparr>"

lemma sample_admitted: "admit (\<lambda>a b. (''bad'', False)) sample_body = Inr sample_request"
proof -
  have "length sample_body \<le> maxAnalyzeBodyBytes" by (simp add: sample_body_def dq_def maxAnalyzeBodyBytes_def)
  moreover have "json_value sample_body
      = Some (JObj [(''namespace'', JStr ''team''), (''Pod'', JStr ''train'')], '''')" by code_simp
  moreover have "request_of (JObj [(''namespace'', JStr ''team''), (''Pod'', JStr ''train'')]) = Some sample_request" by code_simp
  ultimately have "decodeAnalyzeRequest (\<lambda>a b. (''bad'', False)) sample_body = Inr sample_request"
    by (simp add: decode_request_Inr skip_ws_def)
  then show ?thesis by (simp add: admit_def) (simp add: sample_request_def)
qed

definition two_requests :: server where
  "two_requests = \<lparr>sv_handlers = [Analyzing sample_request, Arrived sample_body], sv_slot = 1\<rparr>"

lemma two_requests_reachable: "reachable (\<lambda>a b. (''bad'', False)) two_requests"
proof -
  let ?step = "server_step (\<lambda>a b. (''bad'', False))"
  let ?a = "\<lparr>sv_handlers = [Arrived sample_body], sv_slot = 0\<rparr>"
    and ?b = "\<lparr>sv_handlers = [Analyzing sample_request], sv_slot = 1\<rparr>"
  have 1: "?step started ?a" using server_step.arrives [of _ started sample_body] by (simp add: started_def)
  have "?step ?a (enter (\<lambda>a b. (''bad'', False)) 0 ?a)" by (rule server_step.enters) simp
  then have 2: "?step ?a ?b" by (simp add: enter_def sample_admitted)
  have 3: "?step ?b two_requests" using server_step.arrives [of _ ?b sample_body] by (simp add: two_requests_def)
  have "?step\<^sup>*\<^sup>* started ?a" by (rule r_into_rtranclp) (rule 1)
  then have "?step\<^sup>*\<^sup>* started ?b" by (rule rtranclp.rtrancl_into_rtrancl) (rule 2)
  then have "?step\<^sup>*\<^sup>* started two_requests" by (rule rtranclp.rtrancl_into_rtrancl) (rule 3)
  then show ?thesis by (simp add: reachable_def)
qed

lemma one_analysis_witness: "sv_slot two_requests = 1 \<and> running two_requests = 1"
  using one_analysis [OF two_requests_reachable] by (simp add: two_requests_def)

lemma slot_given_back_witness:
  "sv_handlers (enter (\<lambda>a b. (''bad'', False)) 1 two_requests) ! 1 = Answered busy
   \<and> sv_handlers (enter (\<lambda>a b. (''bad'', False)) 1 (leave Panicked 0 two_requests)) ! 1 = Analyzing sample_request"
  using slot_given_back [OF two_requests_reachable, of 0 1 sample_request sample_body sample_request Panicked] sample_admitted
  by (simp add: two_requests_def)

section \<open>The branches\<close>

text \<open>The branch the page recommends is one of the branches it offers, whether the scheduler's version is
  known, still looked for or could not be found; only an empty list comes with no recommendation.\<close>

theorem recommended_is_offered:
  assumes "get_branches env m cache w = ((200, BranchesBody branches (Some (found, err, recommended))), w')"
  shows "(branches \<noteq> [] \<longrightarrow> recommended \<in> set branches) \<and> (branches = [] \<longrightarrow> recommended = '''')
    \<and> (found = None \<longleftrightarrow> err \<noteq> None)"
proof -
  have r: "(bs \<noteq> [] \<longrightarrow> RecommendBranch v bs \<in> set bs) \<and> (bs = [] \<longrightarrow> RecommendBranch v bs = '''')" for v bs
    using recommended_first [of v bs] unfolding Let_def by blast
  from assms have "version_part cache branches = Some (found, err, recommended)"
    by (auto simp: get_branches_def writeError_def split: prod.splits sum.splits)
  then show ?thesis
    using r by (auto simp: version_part_def Let_def snapshot_version_def split: option.splits if_splits)
qed

lemma recommended_is_offered_witness:
  "\<exists>recommended. recommended = ''abc'' \<and> fst (get_branches sample_git sample_manager (Some (newSchedulerVersionCache True)) 0)
     = (200, BranchesBody [''abc''] (Some (None, Some ''scheduler version detection is still running'', recommended)))"
proof -
  have l: "ListBranches sample_git sample_manager 0 = (Inr [''abc''], 4)" by code_simp
  obtain recommended where g: "get_branches sample_git sample_manager (Some (newSchedulerVersionCache True)) 0
      = ((200, BranchesBody [''abc''] (Some (None, Some ''scheduler version detection is still running'', recommended))), 4)"
    by (simp add: get_branches_def l version_part_def snapshot_version_def newSchedulerVersionCache_def)
  from recommended_is_offered [OF g] g show ?thesis by simp
qed

end
