(* ===== verification/Go_Ast.thy ===== *)
theory Go_Ast
  imports Go_Json_Write
begin

text \<open>
  What the source reads of Go source text: the syntax trees of \<open>go/ast\<close>, with the nodes it looks at as
  constructors and all others as a node with its children; the parser itself is a parameter where it is
  used. Further \<open>strconv.Unquote\<close> of string literals and the tags of struct fields.
\<close>

section \<open>Syntax trees\<close>

text \<open>A position is a number; a call and a composite literal carry the ones that are compared.\<close>

datatype expr =
    Ident string
  | SelectorExpr expr string
  | CallExpr nat expr "expr list"
  | StarExpr expr
  | UnaryExpr string expr
  | BinaryExpr string expr expr
  | BasicLit string string
  | CompositeLit "expr option" "expr list" nat
  | KeyValueExpr expr expr
  | StructType "field list"
  | OtherExpr "expr list" "stmt list"
and field = Field "string list" expr "string option"
and stmt =
    AssignStmt string "expr list" "expr list"
  | ExprStmt expr
  | IfStmt "stmt option" expr "stmt list" "stmt option"
  | OtherStmt "expr list" "stmt list"

datatype spec =
    TypeSpec string expr
  | ValueSpec "string list" "expr list" "expr list"
  | OtherSpec

text \<open>A function has its parameters, the expressions of its other types, and its body.\<close>

datatype decl =
    GenDecl string "spec list"
  | FuncDecl string "field list option" "expr list" "stmt list option"
  | OtherDecl

type_synonym ast_file = "decl list"

text \<open>\<open>ast.Inspect\<close> with a callback that looks at calls and always goes on: all calls of a tree.\<close>

type_synonym call = "nat \<times> expr \<times> expr list"

fun calls_expr :: "expr \<Rightarrow> call list"
  and calls_field :: "field \<Rightarrow> call list"
  and calls_stmt :: "stmt \<Rightarrow> call list" where
  "calls_expr (Ident x) = []"
| "calls_expr (SelectorExpr e x) = calls_expr e"
| "calls_expr (CallExpr p f as) = (p, f, as) # calls_expr f @ concat (map calls_expr as)"
| "calls_expr (StarExpr e) = calls_expr e"
| "calls_expr (UnaryExpr x e) = calls_expr e"
| "calls_expr (BinaryExpr x e e') = calls_expr e @ calls_expr e'"
| "calls_expr (BasicLit k v) = []"
| "calls_expr (CompositeLit t es p) = (case t of None \<Rightarrow> [] | Some e \<Rightarrow> calls_expr e) @ concat (map calls_expr es)"
| "calls_expr (KeyValueExpr e e') = calls_expr e @ calls_expr e'"
| "calls_expr (StructType fs) = concat (map calls_field fs)"
| "calls_expr (OtherExpr es ss) = concat (map calls_expr es) @ concat (map calls_stmt ss)"
| "calls_field (Field xs e t) = calls_expr e"
| "calls_stmt (AssignStmt x ls rs) = concat (map calls_expr ls) @ concat (map calls_expr rs)"
| "calls_stmt (ExprStmt e) = calls_expr e"
| "calls_stmt (IfStmt i c b els) =
     (case i of None \<Rightarrow> [] | Some s \<Rightarrow> calls_stmt s) @ calls_expr c @ concat (map calls_stmt b) @
     (case els of None \<Rightarrow> [] | Some s \<Rightarrow> calls_stmt s)"
| "calls_stmt (OtherStmt es ss) = concat (map calls_expr es) @ concat (map calls_stmt ss)"

definition calls_spec :: "spec \<Rightarrow> call list" where
  "calls_spec s =
     (case s of
        TypeSpec x e \<Rightarrow> calls_expr e
      | ValueSpec xs ts vs \<Rightarrow> concat (map calls_expr ts) @ concat (map calls_expr vs)
      | OtherSpec \<Rightarrow> [])"

definition calls_file :: "ast_file \<Rightarrow> call list" where
  "calls_file f = concat (map (\<lambda>d. case d of
       GenDecl tok specs \<Rightarrow> concat (map calls_spec specs)
     | FuncDecl x params types body \<Rightarrow>
         (case params of None \<Rightarrow> [] | Some fs \<Rightarrow> concat (map calls_field fs)) @ concat (map calls_expr types) @
         (case body of None \<Rightarrow> [] | Some ss \<Rightarrow> concat (map calls_stmt ss))
     | OtherDecl \<Rightarrow> []) f)"

section \<open>String literals\<close>

text \<open>The value of \<open>n\<close> digits of a base, and what follows; an octal escape has three, the others are hexadecimal.\<close>

definition digits_value :: "nat \<Rightarrow> int \<Rightarrow> (char \<Rightarrow> bool) \<Rightarrow> string \<Rightarrow> (nat \<times> string) option" where
  "digits_value n base ok s =
     (if n \<le> length s \<and> list_all ok (take n s)
      then Some (nat (foldl (\<lambda>v c. base * v + hex_val c) 0 (take n s)), drop n s) else None)"

definition simple_escape :: "char \<Rightarrow> char option" where
  "simple_escape c =
     map_of [(CHR ''a'', CHR 0x07), (CHR ''b'', CHR 0x08), (CHR ''f'', CHR 0x0C), (CHR ''n'', CHR 0x0A),
       (CHR ''r'', CHR 0x0D), (CHR ''t'', CHR 0x09), (CHR ''v'', CHR 0x0B), (CHR 0x5C, CHR 0x5C), (CHR 0x22, CHR 0x22)] c"

definition rune_ok :: "nat \<Rightarrow> bool" where
  "rune_ok r = (r < 1114112 \<and> \<not> (55296 \<le> r \<and> r < 57344))"

text \<open>One escape behind its backslash: the bytes it stands for and the rest.\<close>

definition go_escape :: "string \<Rightarrow> (string \<times> string) option" where
  "go_escape s =
     (case s of
        [] \<Rightarrow> None
      | e # ds \<Rightarrow>
          (case simple_escape e of
             Some x \<Rightarrow> Some ([x], ds)
           | None \<Rightarrow>
               if e = CHR ''x'' then map_option (\<lambda>(r, t). ([char_of r], t)) (digits_value 2 16 (is_mantissa_digit True) ds)
               else if e = CHR ''u'' \<or> e = CHR ''U'' then
                 (case digits_value (if e = CHR ''u'' then 4 else 8) 16 (is_mantissa_digit True) ds of
                    Some (r, t) \<Rightarrow> if rune_ok r then Some (utf8_encode r, t) else None
                  | None \<Rightarrow> None)
               else (case digits_value 3 8 (\<lambda>c. is_digit c \<and> digit_val c < 8) s of
                    Some (r, t) \<Rightarrow> if r < 256 then Some ([char_of r], t) else None
                  | None \<Rightarrow> None)))"

lemma digits_value_length: "digits_value n b ok s = Some (r, t) \<Longrightarrow> length t \<le> length s"
  by (auto simp: digits_value_def split: if_splits)

lemma go_escape_length: "go_escape s = Some (w, t) \<Longrightarrow> length t \<le> length s"
  by (auto simp: go_escape_def split: list.splits option.splits if_splits dest!: digits_value_length)

text \<open>The inside of an interpreted string up to its closing quote, which must be the last byte.\<close>

function unquote_body :: "string \<Rightarrow> string option" where
  "unquote_body [] = None"
| "unquote_body (c # cs) =
     (if c = CHR 0x22 then (if cs = [] then Some [] else None)
      else if c = CHR 0x0A then None
      else if c = CHR 0x5C then
        (case go_escape cs of None \<Rightarrow> None | Some (w, t) \<Rightarrow> map_option (\<lambda>r. w @ r) (unquote_body t))
      else map_option (\<lambda>r. c # r) (unquote_body cs))"
  by pat_completeness auto
termination
  by (relation "measure length") (auto dest: go_escape_length)

text \<open>\<open>strconv.Unquote\<close> of a literal of kind STRING, interpreted or raw; the bytes between are UTF-8.\<close>

definition Unquote :: "string \<Rightarrow> string option" where
  "Unquote s =
     (case s of
        [] \<Rightarrow> None
      | q # cs \<Rightarrow>
          if q = CHR 0x22 then unquote_body cs
          else if q = CHR 0x60 then
            (if cs \<noteq> [] \<and> last cs = CHR 0x60 \<and> CHR 0x60 \<notin> set (butlast cs)
             then Some (filter (\<lambda>c. c \<noteq> CHR 0x0D) (butlast cs)) else None)
          else None)"

section \<open>Struct tags\<close>

definition tag_name_char :: "char \<Rightarrow> bool" where
  "tag_name_char c = (let n = (of_char c :: nat) in 32 < n \<and> c \<noteq> CHR '':'' \<and> c \<noteq> CHR 0x22 \<and> n \<noteq> 127)"

text \<open>The quoted value in front, with its quotes, and the rest: an escaped byte does not end it.\<close>

fun tag_value :: "string \<Rightarrow> (string \<times> string) option" where
  "tag_value [] = None"
| "tag_value (c # cs) =
     (if c = CHR 0x22 then Some ([c], cs)
      else if c = CHR 0x5C then
        (case cs of [] \<Rightarrow> None | d # ds \<Rightarrow> map_option (\<lambda>(v, r). (c # d # v, r)) (tag_value ds))
      else map_option (\<lambda>(v, r). (c # v, r)) (tag_value cs))"

lemma tag_value_length: "tag_value s = Some (v, r) \<Longrightarrow> length r < length s"
  by (induction s arbitrary: v rule: tag_value.induct) (force split: if_splits list.splits)+

lemma tag_rest_length:
  assumes "dropWhile tag_name_char (dropWhile (\<lambda>c. c = CHR '' '') tag) = c # q # cs" and "tag_value cs = Some (v, r)"
  shows "length r < length tag"
proof -
  have "length (dropWhile tag_name_char (dropWhile (\<lambda>c. c = CHR '' '') tag)) \<le> length tag"
    by (meson length_dropWhile_le order_trans)
  then show ?thesis using tag_value_length [OF assms(2)] assms(1) by simp
qed

text \<open>\<open>reflect.StructTag.Get\<close>: the value of the first pair with the key; nothing behind a malformed pair.\<close>

function tag_get :: "string \<Rightarrow> string \<Rightarrow> string" where
  "tag_get key tag =
     (let s = dropWhile (\<lambda>c. c = CHR '' '') tag; name = takeWhile tag_name_char s; t = dropWhile tag_name_char s
      in case t of
           c # q # cs \<Rightarrow>
             if name \<noteq> [] \<and> c = CHR '':'' \<and> q = CHR 0x22 then
               (case tag_value cs of
                  None \<Rightarrow> []
                | Some (v, r) \<Rightarrow>
                    if name = key then (case Unquote (q # v) of None \<Rightarrow> [] | Some x \<Rightarrow> x) else tag_get key r)
             else []
         | _ \<Rightarrow> [])"
  by pat_completeness auto
termination
  by (relation "measure (\<lambda>(key, tag). length tag)") (auto intro: tag_rest_length [OF sym])

declare tag_get.simps [simp del]

end
