(* ===== verification/Source_Files.thy ===== *)
theory Source_Files
  imports Go_Ast Source_Manager Runtime_Plugins
begin

text \<open>
  File \<open>internal/source/scheduler_sources.go\<close>: which files of a worktree belong to the scheduler, what hooks
  and plugins they register, and how much of them is returned. The file system and the Go parser are
  functions of an environment. The facts: a file is only read when it is a regular file below the worktree
  with no link on the way (\<open>source_file_confined\<close>), and what is returned is sorted, without duplicates and
  within both budgets (\<open>sources_within_budget\<close>).
\<close>

definition schedulerActionsDirectory :: string where "schedulerActionsDirectory = ''pkg/scheduler/actions''"
definition schedulerPluginsDirectory :: string where "schedulerPluginsDirectory = ''pkg/scheduler/plugins''"
definition maximumSchedulerSourceFiles :: nat where "maximumSchedulerSourceFiles = 4096"
definition maximumSchedulerSourceFile :: nat where "maximumSchedulerSourceFile = 2 * 1048576"
definition maximumSchedulerSourceScan :: nat where "maximumSchedulerSourceScan = 64 * 1048576"

definition schedulerFrameworkFiles :: "string list" where
  "schedulerFrameworkFiles =
     [''cmd/scheduler/app/options/options.go'', ''pkg/scheduler/actions/factory.go'',
      ''pkg/scheduler/actions/allocate/allocate.go'', ''pkg/scheduler/actions/enqueue/enqueue.go'',
      ''pkg/scheduler/conf/scheduler_conf.go'', ''pkg/scheduler/api/job_info.go'',
      ''pkg/scheduler/cache/event_handlers.go'', ''pkg/scheduler/framework/session.go'',
      ''pkg/scheduler/framework/session_plugins.go'', ''pkg/scheduler/plugins/defaults.go'',
      ''pkg/scheduler/plugins/factory.go'', ''pkg/scheduler/plugins/util/util.go'',
      ''pkg/scheduler/util/priority_queue.go'']"

definition schedulerHookNames :: "string list" where
  "schedulerHookNames =
     [''AddJobOrderFn'', ''AddQueueOrderFn'', ''AddTaskOrderFn'', ''AddPreemptableFn'', ''AddReclaimableFn'',
      ''AddJobReadyFn'', ''AddJobPipelinedFn'', ''AddJobValidFn'', ''AddJobEnqueueableFn'', ''AddJobEnqueuedFn'',
      ''AddPrePredicateFn'', ''AddPredicateFn'', ''AddBestNodeFn'', ''AddNodeOrderFn'', ''AddBatchNodeOrderFn'',
      ''AddNodeMapFn'', ''AddNodeReduceFn'', ''AddOverusedFn'', ''AddPreemptiveFn'', ''AddAllocatableFn'',
      ''AddTargetJobFn'', ''AddReservedNodesFn'', ''AddVictimTasksFns'', ''AddJobStarvingFns'']"

section \<open>The environment\<close>

datatype file_kind = Symlink | Directory | Regular | OtherKind

datatype lstat_result = NoFile go_error | LstatFailed go_error | FileInfo file_kind int

text \<open>What a walk visits, in its order: path, kind and the error of reading it.\<close>

record walk_entry =
  we_path :: string
  we_kind :: file_kind
  we_err :: "go_error option"

record source_fs =
  fs_lstat :: "string \<Rightarrow> lstat_result"
  fs_abs :: "string \<Rightarrow> go_error + string"
  fs_eval :: "string \<Rightarrow> go_error + string"
  fs_open :: "string \<Rightarrow> go_error + (go_error + string)"
  fs_walk :: "string \<Rightarrow> walk_entry list"
  fs_parse :: "string \<Rightarrow> string \<Rightarrow> go_error + ast_file"

record candidate =
  ca_path :: string
  ca_hooks :: "string list"
  ca_names :: "string list"
  ca_content :: string

section \<open>One file\<close>

definition schedulerSourceRoot :: "source_fs \<Rightarrow> string \<Rightarrow> go_error + string" where
  "schedulerSourceRoot fs worktree =
     (if trim_space worktree = '''' then Inl (errorf ''Volcano worktree is empty'')
      else (case fs_lstat fs worktree of
          NoFile e \<Rightarrow> Inl (errorw ''inspect Volcano worktree: '' e)
        | LstatFailed e \<Rightarrow> Inl (errorw ''inspect Volcano worktree: '' e)
        | FileInfo kind bytes \<Rightarrow>
            if kind = Symlink then Inl (errorf ''Volcano worktree must not be a symbolic link'')
            else if kind \<noteq> Directory then Inl (errorf ''Volcano worktree is not a directory'')
            else (case fs_abs fs worktree of
                Inl e \<Rightarrow> Inl (errorw ''resolve Volcano worktree path: '' e)
              | Inr absolute \<Rightarrow>
                  (case fs_eval fs absolute of
                     Inl e \<Rightarrow> Inl (errorw ''resolve Volcano worktree links: '' e)
                   | Inr resolved \<Rightarrow> Inr (path_clean resolved)))))"

definition pathInsideRoot :: "string \<Rightarrow> string \<Rightarrow> go_error + bool" where
  "pathInsideRoot base path =
     (case path_rel base path of
        Inl e \<Rightarrow> Inl (errorw ''compare scheduler source with worktree: '' e)
      | Inr relative \<Rightarrow> Inr (\<not> leaves_base relative))"

definition exceeds_text :: "string \<Rightarrow> string" where
  "exceeds_text repositoryPath = ''scheduler source '' @ repositoryPath @ '' exceeds '' @ fmt_n maximumSchedulerSourceFile @ '' bytes''"

text \<open>\<open>None\<close> when there is no such file.\<close>

definition loadSchedulerSource :: "source_fs \<Rightarrow> string \<Rightarrow> string \<Rightarrow> go_error + candidate option" where
  "loadSchedulerSource fs base repositoryPath =
     (let cleanPath = path_clean repositoryPath; path = path_join [base, cleanPath];
          place = ''scheduler source '' @ repositoryPath in
      if is_abs cleanPath \<or> leaves_base cleanPath then
        Inl (errorf (''scheduler source path '' @ fmt_q repositoryPath @ '' escapes the Volcano worktree''))
      else
     (case fs_lstat fs path of
        NoFile e \<Rightarrow> Inr None
      | LstatFailed e \<Rightarrow> Inl (errorw (''inspect '' @ place @ '': '') e)
      | FileInfo kind bytes \<Rightarrow>
          if kind = Symlink then Inl (errorf (place @ '' is a symbolic link''))
          else if kind \<noteq> Regular then Inl (errorf (place @ '' is not a regular file''))
          else
     (case fs_eval fs path of
        Inl e \<Rightarrow> Inl (errorw (''resolve '' @ place @ '': '') e)
      | Inr resolved \<Rightarrow>
     (case pathInsideRoot base resolved of
        Inl e \<Rightarrow> Inl e
      | Inr inside \<Rightarrow>
          if \<not> inside \<or> path_clean resolved \<noteq> path_clean path then
            Inl (errorf (place @ '' resolves outside its worktree or through a symbolic link''))
          else if int maximumSchedulerSourceFile < bytes then Inl (errorf (exceeds_text repositoryPath))
          else
     (case fs_open fs resolved of
        Inl e \<Rightarrow> Inl (errorw (''open '' @ place @ '': '') e)
      | Inr body \<Rightarrow>
     (case map_sum id (take (maximumSchedulerSourceFile + 1)) body of
        Inl e \<Rightarrow> Inl (errorw (''read '' @ place @ '': '') e)
      | Inr content \<Rightarrow>
          if maximumSchedulerSourceFile < length content then Inl (errorf (exceeds_text repositoryPath))
          else Inr (Some \<lparr>ca_path = cleanPath, ca_hooks = [], ca_names = [], ca_content = content\<rparr>)))))))"

section \<open>Hooks and plugin names\<close>

definition calledFunctionName :: "expr \<Rightarrow> string" where
  "calledFunctionName f = (case f of Ident x \<Rightarrow> x | SelectorExpr e x \<Rightarrow> x | _ \<Rightarrow> '''')"

definition schedulerHookRegistration :: "string \<Rightarrow> bool" where
  "schedulerHookRegistration name \<longleftrightarrow> has_prefix name ''Add'' \<and> (has_suffix name ''Fn'' \<or> has_suffix name ''Fns'')"

definition sortedStringSet :: "string list \<Rightarrow> string list" where
  "sortedStringSet values = sort_strings (remdups values)"

text \<open>The value of a string literal that is not blank.\<close>

definition literal_name :: "expr \<Rightarrow> string list" where
  "literal_name e =
     (case e of
        BasicLit kind v \<Rightarrow>
          if kind = ''STRING'' then
            (case Unquote v of Some x \<Rightarrow> if trim_space x \<noteq> '''' then [x] else [] | None \<Rightarrow> [])
          else []
      | _ \<Rightarrow> [])"

text \<open>The names of the calls, and the first argument of a registration when it is a literal.\<close>

definition registered_hooks :: "ast_file \<Rightarrow> string list" where
  "registered_hooks file =
     filter schedulerHookRegistration (map (\<lambda>(pos, f, args). calledFunctionName f) (calls_file file))"

definition registered_names :: "ast_file \<Rightarrow> string list" where
  "registered_names file =
     concat (map (\<lambda>(pos, f, args).
       if schedulerHookRegistration (calledFunctionName f) \<and> 0 < length args then literal_name (args ! 0) else [])
       (calls_file file))"

text \<open>The constants and variables called \<open>PluginName\<close>.\<close>

definition constant_names :: "ast_file \<Rightarrow> string list" where
  "constant_names file =
     concat (map (\<lambda>d. case d of
       GenDecl tok specs \<Rightarrow>
         if tok \<noteq> ''const'' \<and> tok \<noteq> ''var'' then []
         else concat (map (\<lambda>s. case s of
             ValueSpec names types values \<Rightarrow>
               concat (map (\<lambda>(name, v). if name \<noteq> ''PluginName'' then [] else literal_name v) (zip names values))
           | _ \<Rightarrow> []) specs)
     | _ \<Rightarrow> []) file)"

definition schedulerPluginMetadata :: "source_fs \<Rightarrow> string \<Rightarrow> string \<Rightarrow> go_error + string list \<times> string list" where
  "schedulerPluginMetadata fs content path =
     (case fs_parse fs path content of
        Inl e \<Rightarrow> Inl (errorw (''parse scheduler plugin source '' @ path @ '': '') e)
      | Inr file \<Rightarrow>
          (let registered = registered_hooks file;
               known = filter (\<lambda>hook. List.member registered hook) schedulerHookNames;
               unknown = filter (\<lambda>hook. \<not> List.member schedulerHookNames hook) registered
           in Inr (known @ sortedStringSet unknown, sortedStringSet (registered_names file @ constant_names file))))"

section \<open>Directories\<close>

text \<open>Whether the directory of the actions or the plugins is there; it must be a plain one.\<close>

definition checked_directory :: "source_fs \<Rightarrow> string \<Rightarrow> string \<Rightarrow> go_error + bool" where
  "checked_directory fs what dir =
     (case fs_lstat fs dir of
        NoFile e \<Rightarrow> Inr False
      | LstatFailed e \<Rightarrow> Inl (errorw (''inspect Volcano scheduler '' @ what @ '': '') e)
      | FileInfo kind bytes \<Rightarrow>
          if kind = Symlink then Inl (errorf (''Volcano scheduler '' @ what @ '' directory must not be a symbolic link''))
          else if kind \<noteq> Directory then Inl (errorf (''Volcano scheduler '' @ what @ '' path is not a directory''))
          else (case fs_eval fs dir of
              Inl e \<Rightarrow> Inl (errorw (''resolve Volcano scheduler '' @ what @ '' path: '') e)
            | Inr resolved \<Rightarrow>
                if path_clean resolved \<noteq> path_clean dir then
                  Inl (errorf (''Volcano scheduler '' @ what @ '' path contains a symbolic link''))
                else Inr True))"

text \<open>One entry of a walk: skipped, an error, or a file that was read. \<open>kind\<close> is action or plugin.\<close>

definition visit_entry :: "source_fs \<Rightarrow> string \<Rightarrow> string \<Rightarrow> nat \<Rightarrow> walk_entry \<Rightarrow> go_error + candidate option" where
  "visit_entry fs kind base n entry =
     (case we_err entry of
        Some e \<Rightarrow> Inl e
      | None \<Rightarrow>
          (let name = path_base (we_path entry) in
           if we_kind entry = Symlink then
             Inl (errorf (''scheduler '' @ kind @ '' source path '' @ we_path entry @ '' is a symbolic link''))
           else if we_kind entry = Directory then Inr None
           else if \<not> has_suffix name ''.go'' \<or> has_suffix name ''_test.go'' then Inr None
           else if maximumSchedulerSourceFiles \<le> n then
             Inl (errorf (''scheduler '' @ kind @ '' source count exceeds '' @ fmt_n maximumSchedulerSourceFiles))
           else (case path_rel base (we_path entry) of
               Inl e \<Rightarrow> Inl (errorw (''resolve scheduler '' @ kind @ '' source path: '') e)
             | Inr relative \<Rightarrow> loadSchedulerSource fs base relative)))"

definition scan_limit :: "string \<Rightarrow> go_error" where
  "scan_limit kind = errorf (''scheduler '' @ kind @ '' source exceeds '' @ fmt_n maximumSchedulerSourceScan @ '' total bytes'')"

fun walk_actions :: "source_fs \<Rightarrow> string \<Rightarrow> walk_entry list \<Rightarrow> candidate list \<Rightarrow> nat \<Rightarrow> go_error + candidate list" where
  "walk_actions fs base [] candidates used = Inr candidates"
| "walk_actions fs base (entry # entries) candidates used =
     (case visit_entry fs ''action'' base (length candidates) entry of
        Inl e \<Rightarrow> Inl e
      | Inr None \<Rightarrow> walk_actions fs base entries candidates used
      | Inr (Some candidate) \<Rightarrow>
          (let used' = used + length (ca_content candidate)
           in if maximumSchedulerSourceScan < used' then Inl (scan_limit ''action'')
              else walk_actions fs base entries (candidates @ [candidate]) used'))"

definition discoverSchedulerActionSources :: "source_fs \<Rightarrow> string \<Rightarrow> go_error + candidate list" where
  "discoverSchedulerActionSources fs base =
     (let dir = path_join [base, schedulerActionsDirectory]
      in case checked_directory fs ''actions'' dir of
           Inl e \<Rightarrow> Inl e
         | Inr False \<Rightarrow> Inr []
         | Inr True \<Rightarrow>
             (case walk_actions fs base (fs_walk fs dir) [] 0 of
                Inl e \<Rightarrow> Inl (errorw ''scan Volcano scheduler actions: '' e)
              | Inr candidates \<Rightarrow> Inr candidates))"

definition pluginPackage :: "string \<Rightarrow> string" where
  "pluginPackage repositoryPath = path_dir repositoryPath"

text \<open>The files by path, the packages that register hooks, and the plugin names of each package.\<close>

record plugin_scan =
  ps_files :: "candidate gomap"
  ps_units :: "string list"
  ps_names :: "string list gomap"
  ps_total :: nat

definition scan_plugin :: "source_fs \<Rightarrow> string \<Rightarrow> walk_entry \<Rightarrow> plugin_scan \<Rightarrow> go_error + plugin_scan" where
  "scan_plugin fs base entry st =
     (case visit_entry fs ''plugin'' base (length (ps_files st)) entry of
        Inl e \<Rightarrow> Inl e
      | Inr None \<Rightarrow> Inr st
      | Inr (Some candidate) \<Rightarrow>
          (let used = ps_total st + length (ca_content candidate)
           in if maximumSchedulerSourceScan < used then Inl (scan_limit ''plugin'')
              else (case schedulerPluginMetadata fs (ca_content candidate) (ca_path candidate) of
                  Inl e \<Rightarrow> Inl e
                | Inr (hooks, names) \<Rightarrow>
                    (let package = pluginPackage (ca_path candidate)
                     in Inr \<lparr>ps_files = gm_set (ca_path candidate) (candidate\<lparr>ca_hooks := hooks, ca_names := names\<rparr>) (ps_files st),
                          ps_units = (if 0 < length hooks then package # ps_units st else ps_units st),
                          ps_names = gm_set package (gm_or [] (ps_names st) package @ names) (ps_names st),
                          ps_total = used\<rparr>))))"

fun walk_plugins :: "source_fs \<Rightarrow> string \<Rightarrow> walk_entry list \<Rightarrow> plugin_scan \<Rightarrow> go_error + plugin_scan" where
  "walk_plugins fs base [] st = Inr st"
| "walk_plugins fs base (entry # entries) st =
     (case scan_plugin fs base entry st of Inl e \<Rightarrow> Inl e | Inr st' \<Rightarrow> walk_plugins fs base entries st')"

section \<open>The package a file belongs to\<close>

abbreviation weight :: "string list \<Rightarrow> nat" where
  "weight ws \<equiv> sum_list (map (\<lambda>w. length w + 1) ws)"

lemma length_join_weight: "ws \<noteq> [] \<Longrightarrow> length (join ws ''/'') + 1 = weight ws"
  by (induction ws "''/''" rule: join.induct) simp_all

lemma weight_split: "weight (split_on CHR ''/'' s) = length s + 1"
  using length_join_weight [of "split_on CHR ''/'' s"] by simp

lemma weight_step: "weight (clean_step rooted out e) \<le> weight out + length e + 1"
  by (auto simp: clean_step_def split: list.splits)

lemma weight_fold: "weight (foldl (clean_step rooted) out ws) \<le> weight out + weight ws"
proof (induction ws arbitrary: out)
  case (Cons w ws)
  show ?case using Cons [of "clean_step rooted out w"] weight_step [of rooted out w] by simp
qed simp

lemma length_clean: "\<not> is_abs q \<Longrightarrow> q \<noteq> [] \<Longrightarrow> length (path_clean q) \<le> length q"
proof -
  assume q: "\<not> is_abs q" "q \<noteq> []"
  have "weight (clean_parts q) \<le> length q + 1"
    using weight_fold [of "is_abs q" "[]" "split_on CHR ''/'' q"] weight_split [of q]
    by (simp add: clean_parts_def rev_map [symmetric] sum_list_rev)
  with q show ?thesis
    using length_join_weight [of "clean_parts q"] by (auto simp: path_clean_def Suc_le_eq)
qed

lemma clean_slash: "\<not> is_abs q \<Longrightarrow> q \<noteq> [] \<Longrightarrow> path_clean (q @ ''/'') = path_clean q"
proof -
  assume q: "\<not> is_abs q" "q \<noteq> []"
  then have a: "\<not> is_abs (q @ ''/'')" by (cases q) (simp_all add: is_abs_def has_prefix_def)
  have "split_on CHR ''/'' (q @ ''/'') = split_on CHR ''/'' q @ [[]]"
    using split_on_append [of "CHR ''/''" q "[]"] by simp
  then have "clean_parts (q @ ''/'') = clean_parts q" by (simp add: clean_parts_def a q clean_step_def)
  then show ?thesis by (simp add: path_clean_def a q)
qed

lemma last_index_take:
  "CHR ''/'' \<in> set u \<Longrightarrow> 0 \<le> last_index u ''/'' \<and> nat (last_index u ''/'') < length u
     \<and> take (nat (last_index u ''/'' + 1)) u = take (nat (last_index u ''/'')) u @ ''/''"
proof (induction u)
  case (Cons c cs)
  show ?case
  proof (cases "CHR ''/'' \<in> set cs")
    case True
    with Cons.IH show ?thesis by (auto simp: Let_def nat_add_distrib)
  next
    case False
    have "\<not> 0 \<le> last_index cs ''/''"
      using False by (induction cs) (auto simp: Let_def)
    with False Cons.prems show ?thesis by (auto simp: Let_def)
  qed
qed simp

lemma path_dir_shorter: "\<not> is_abs u \<Longrightarrow> CHR ''/'' \<in> set u \<Longrightarrow> length (path_dir u) < length u"
proof -
  assume u: "\<not> is_abs u" "CHR ''/'' \<in> set u"
  let ?q = "take (nat (last_index u ''/'')) u"
  note l = last_index_take [OF u(2)]
  have q: "path_dir u = path_clean (?q @ ''/'')" using l by (simp add: path_dir_def)
  have "?q \<noteq> []"
  proof
    assume "?q = []"
    with l have "take 1 u = ''/''" by (auto simp: nat_add_distrib)
    with u(1) show False by (cases u) (simp_all add: is_abs_def has_prefix_def)
  qed
  moreover have "\<not> is_abs ?q" using u(1) \<open>?q \<noteq> []\<close> by (cases u; cases ?q) (auto simp: is_abs_def has_prefix_def take_Cons split: nat.splits)
  ultimately have "length (path_dir u) \<le> length ?q" unfolding q by (simp only: clean_slash length_clean not_False_eq_True)
  with l show ?thesis by simp
qed

lemma plugins_below: "has_prefix u (schedulerPluginsDirectory @ ''/'') \<Longrightarrow> \<not> is_abs u \<and> CHR ''/'' \<in> set u"
  by (auto simp: has_prefix_def is_abs_def schedulerPluginsDirectory_def prefix_def)

text \<open>The nearest directory upwards, the file's own first, that registers a hook.\<close>

function nearest_unit :: "string list \<Rightarrow> string \<Rightarrow> string option" where
  "nearest_unit registeredUnits u =
     (if u = schedulerPluginsDirectory \<or> has_prefix u (schedulerPluginsDirectory @ ''/'') then
        (if List.member registeredUnits u then Some u
         else if u = schedulerPluginsDirectory then None
         else if path_dir u = u then None
         else nearest_unit registeredUnits (path_dir u))
      else None)"
  by pat_completeness auto
termination
  by (relation "measure (\<lambda>(units, u). length u)") (auto dest!: plugins_below intro: path_dir_shorter)

declare nearest_unit.simps [simp del]

definition nearestRegisteredPluginUnit :: "string \<Rightarrow> string list \<Rightarrow> string option" where
  "nearestRegisteredPluginUnit repositoryPath registeredUnits = nearest_unit registeredUnits (pluginPackage repositoryPath)"

text \<open>Every file of a registering package or below it, with the names of that package.\<close>

definition owned_candidates :: "plugin_scan \<Rightarrow> candidate list" where
  "owned_candidates st =
     concat (map (\<lambda>(path, candidate).
       case nearestRegisteredPluginUnit (ca_path candidate) (ps_units st) of
         None \<Rightarrow> []
       | Some owner \<Rightarrow> [candidate\<lparr>ca_names := sortedStringSet (gm_or [] (ps_names st) owner)\<rparr>]) (ps_files st))"

definition discoverPluginSources :: "source_fs \<Rightarrow> string \<Rightarrow> go_error + candidate list" where
  "discoverPluginSources fs base =
     (let dir = path_join [base, schedulerPluginsDirectory]
      in case checked_directory fs ''plugins'' dir of
           Inl e \<Rightarrow> Inl e
         | Inr False \<Rightarrow> Inr []
         | Inr True \<Rightarrow>
             (case walk_plugins fs base (fs_walk fs dir) \<lparr>ps_files = [], ps_units = [], ps_names = [], ps_total = 0\<rparr> of
                Inl e \<Rightarrow> Inl (errorw ''scan Volcano scheduler plugins: '' e)
              | Inr st \<Rightarrow> Inr (owned_candidates st)))"

section \<open>All sources\<close>

fun load_framework :: "source_fs \<Rightarrow> string \<Rightarrow> string list \<Rightarrow> candidate gomap \<Rightarrow> go_error + candidate gomap" where
  "load_framework fs base [] candidates = Inr candidates"
| "load_framework fs base (path # paths) candidates =
     (case loadSchedulerSource fs base path of
        Inl e \<Rightarrow> Inl e
      | Inr None \<Rightarrow> load_framework fs base paths candidates
      | Inr (Some candidate) \<Rightarrow> load_framework fs base paths (gm_set path candidate candidates))"

definition put_candidates :: "candidate list \<Rightarrow> candidate gomap \<Rightarrow> candidate gomap" where
  "put_candidates cs candidates = fold (\<lambda>c m. gm_set (ca_path c) c m) cs candidates"

text \<open>The contents are cut in the order of the paths, each at its own limit and at what is left.\<close>

fun cut_sources :: "int \<Rightarrow> int \<Rightarrow> candidate list \<Rightarrow> source_file list" where
  "cut_sources perFileLimit remaining [] = []"
| "cut_sources perFileLimit remaining (c # cs) =
     (let contentLimit = min perFileLimit (min remaining (int (length (ca_content c))))
      in \<lparr>sf_path = ca_path c, sf_hooks = ca_hooks c, sf_plugin_names = ca_names c,
          sf_content = take (nat contentLimit) (ca_content c)\<rparr>
         # cut_sources perFileLimit (remaining - contentLimit) cs)"

definition LoadSchedulerSources :: "source_fs \<Rightarrow> string \<Rightarrow> int \<Rightarrow> int \<Rightarrow> go_error + source_file list" where
  "LoadSchedulerSources fs worktree perFileLimit totalLimit =
     (if perFileLimit \<le> 0 then Inl (errorf ''scheduler source per-file limit must be positive'')
      else if totalLimit \<le> 0 then Inl (errorf ''scheduler source total limit must be positive'')
      else
     (case schedulerSourceRoot fs worktree of
        Inl e \<Rightarrow> Inl e
      | Inr base \<Rightarrow>
     (case load_framework fs base schedulerFrameworkFiles [] of
        Inl e \<Rightarrow> Inl e
      | Inr framework \<Rightarrow>
     (case discoverSchedulerActionSources fs base of
        Inl e \<Rightarrow> Inl e
      | Inr actions \<Rightarrow>
     (case discoverPluginSources fs base of
        Inl e \<Rightarrow> Inl e
      | Inr plugins \<Rightarrow>
          (let candidates = put_candidates plugins (put_candidates actions framework);
               paths = sort_strings (gm_keys candidates)
           in Inr (cut_sources perFileLimit totalLimit
                (map (\<lambda>path. the (gm_get candidates path)) paths))))))))"

section \<open>Facts\<close>

text \<open>The body of a regular file below the worktree, reached through no link and read whole.\<close>

definition loaded_from :: "source_fs \<Rightarrow> string \<Rightarrow> candidate \<Rightarrow> bool" where
  "loaded_from fs base c \<longleftrightarrow>
     (\<exists>bytes resolved. fs_lstat fs (path_join [base, ca_path c]) = FileInfo Regular bytes
        \<and> fs_eval fs (path_join [base, ca_path c]) = Inr resolved
        \<and> path_clean resolved = path_clean (path_join [base, ca_path c])
        \<and> pathInsideRoot base resolved = Inr True
        \<and> fs_open fs resolved = Inr (Inr (ca_content c))
        \<and> length (ca_content c) \<le> maximumSchedulerSourceFile)"

lemma load_ok:
  assumes "loadSchedulerSource fs base p = Inr (Some c)"
  shows "ca_path c = path_clean p" and "loaded_from fs base c" and "ca_hooks c = []" and "ca_names c = []"
proof -
  have c: "b = Inr x" if "map_sum id (take (maximumSchedulerSourceFile + 1)) b = Inr x" "length x \<le> maximumSchedulerSourceFile"
    for b :: "go_error + string" and x
    using that by (cases b) (auto simp: min_def split: if_splits)
  show "ca_path c = path_clean p" "ca_hooks c = []" "ca_names c = []"
    using assms unfolding loadSchedulerSource_def Let_def by (auto split: if_splits sum.splits lstat_result.splits)
  show "loaded_from fs base c"
    using assms unfolding loadSchedulerSource_def Let_def loaded_from_def
    by (auto simp del: One_nat_def simp: not_less dest: c split: if_splits sum.splits lstat_result.splits)
qed


text \<open>Every candidate is loaded, with its own path as its key.\<close>

definition keyed :: "(candidate \<Rightarrow> bool) \<Rightarrow> candidate gomap \<Rightarrow> bool" where
  "keyed ok m \<longleftrightarrow> gm_ok m \<and> (\<forall>k c. gm_get m k = Some c \<longrightarrow> ca_path c = k \<and> ok c)"

lemma keyed_Nil: "keyed ok []"
  by (simp add: keyed_def gm_get_def)

lemma keyed_set: "keyed ok m \<Longrightarrow> ok c \<Longrightarrow> keyed ok (gm_set (ca_path c) c m)"
  by (simp add: keyed_def)

lemma loaded_from_meta [simp]: "loaded_from fs base (c\<lparr>ca_hooks := h, ca_names := n\<rparr>) = loaded_from fs base c"
  "loaded_from fs base (c\<lparr>ca_names := n\<rparr>) = loaded_from fs base c"
  "loaded_from fs base (c\<lparr>ca_hooks := h\<rparr>) = loaded_from fs base c"
  by (simp_all add: loaded_from_def)

lemma framework_clean: "p \<in> set schedulerFrameworkFiles \<Longrightarrow> path_clean p = p"
proof -
  have "list_all (\<lambda>p. path_clean p = p) schedulerFrameworkFiles" by code_simp
  then show "p \<in> set schedulerFrameworkFiles \<Longrightarrow> path_clean p = p" by (simp add: list_all_iff)
qed

lemma load_framework_keyed:
  "load_framework fs base ps m = Inr m' \<Longrightarrow> \<forall>p \<in> set ps. path_clean p = p \<Longrightarrow> keyed (loaded_from fs base) m
   \<Longrightarrow> keyed (loaded_from fs base) m'"
proof (induction ps arbitrary: m)
  case (Cons p ps)
  show ?case
  proof (cases "loadSchedulerSource fs base p")
    case (Inr oc)
    show ?thesis
    proof (cases oc)
      case None
      with Cons Inr show ?thesis by simp
    next
      case (Some c)
      with Inr have l: "loadSchedulerSource fs base p = Inr (Some c)" by simp
      from load_ok [OF l] Cons.prems(2) have "ca_path c = p" "loaded_from fs base c" by simp_all
      with Cons l keyed_set [of "loaded_from fs base" m c] show ?thesis by simp
    qed
  qed (use Cons in simp)
qed simp

lemma visit_loaded: "visit_entry fs kind base n entry = Inr (Some c) \<Longrightarrow> loaded_from fs base c"
  by (auto simp: visit_entry_def Let_def split: option.splits if_splits sum.splits intro: load_ok)

lemma walk_actions_loaded:
  "walk_actions fs base es cs used = Inr cs' \<Longrightarrow> \<forall>c \<in> set cs. loaded_from fs base c \<Longrightarrow> \<forall>c \<in> set cs'. loaded_from fs base c"
  by (induction es arbitrary: cs used) (fastforce simp: Let_def split: sum.splits option.splits if_splits dest: visit_loaded)+

lemma scan_plugin_keyed:
  "scan_plugin fs base e st = Inr st' \<Longrightarrow> keyed (loaded_from fs base) (ps_files st) \<Longrightarrow> keyed (loaded_from fs base) (ps_files st')"
proof -
  assume s: "scan_plugin fs base e st = Inr st'" and k: "keyed (loaded_from fs base) (ps_files st)"
  show ?thesis
  proof (cases "visit_entry fs ''plugin'' base (length (ps_files st)) e")
    case (Inr oc)
    show ?thesis
    proof (cases oc)
      case None
      with s k Inr show ?thesis by (simp add: scan_plugin_def)
    next
      case (Some c)
      with Inr visit_loaded have l: "loaded_from fs base c" by simp
      have "keyed (loaded_from fs base) (gm_set (ca_path c) (c\<lparr>ca_hooks := h, ca_names := n\<rparr>) (ps_files st))" for h n
        using keyed_set [OF k, of "c\<lparr>ca_hooks := h, ca_names := n\<rparr>"] l by simp
      with s Inr Some show ?thesis
        by (auto simp: scan_plugin_def Let_def split: if_splits sum.splits)
    qed
  qed (use s in \<open>simp add: scan_plugin_def\<close>)
qed

lemma walk_plugins_keyed:
  "walk_plugins fs base es st = Inr st' \<Longrightarrow> keyed (loaded_from fs base) (ps_files st) \<Longrightarrow> keyed (loaded_from fs base) (ps_files st')"
  by (induction es arbitrary: st) (auto split: sum.splits dest: scan_plugin_keyed)

lemma owned_loaded: "keyed (loaded_from fs base) (ps_files st) \<Longrightarrow> c \<in> set (owned_candidates st) \<Longrightarrow> loaded_from fs base c"
  by (auto simp: owned_candidates_def keyed_def gm_get_iff split: option.splits)

lemma put_keyed: "keyed ok m \<Longrightarrow> \<forall>c \<in> set cs. ok c \<Longrightarrow> keyed ok (put_candidates cs m)"
  unfolding put_candidates_def by (induction cs arbitrary: m) (simp_all add: keyed_set)

lemma actions_loaded: "discoverSchedulerActionSources fs base = Inr cs \<Longrightarrow> c \<in> set cs \<Longrightarrow> loaded_from fs base c"
  by (auto simp: discoverSchedulerActionSources_def Let_def split: sum.splits bool.splits dest: walk_actions_loaded)

lemma plugins_loaded: "discoverPluginSources fs base = Inr cs \<Longrightarrow> c \<in> set cs \<Longrightarrow> loaded_from fs base c"
  by (auto simp: discoverPluginSources_def Let_def keyed_Nil split: sum.splits bool.splits
      dest!: walk_plugins_keyed intro: owned_loaded)


lemma length_cut_sources:
  "0 \<le> perFile \<Longrightarrow> 0 \<le> left \<Longrightarrow>
     int (sum_list (map (\<lambda>s. length (sf_content s)) (cut_sources perFile left cs)))
       = min left (sum_list (map (\<lambda>c. min perFile (int (length (ca_content c)))) cs))"
proof (induction cs arbitrary: left)
  case (Cons c cs)
  let ?l = "min perFile (min left (int (length (ca_content c))))"
  have "0 \<le> sum_list (map (\<lambda>c. min perFile (int (length (ca_content c)))) cs)"
    using Cons.prems(1) by (intro sum_list_nonneg) auto
  with Cons.IH [of "left - ?l"] Cons.prems show ?case by (auto simp: Let_def min_def)
qed simp

lemma cut_sources_paths [simp]: "map sf_path (cut_sources perFile left cs) = map ca_path cs"
  by (induction cs arbitrary: left) (simp_all add: Let_def)

lemma cut_sources_prefix:
  "s \<in> set (cut_sources perFile left cs) \<Longrightarrow>
     \<exists>c \<in> set cs. sf_path s = ca_path c \<and> prefix (sf_content s) (ca_content c) \<and> length (sf_content s) \<le> nat perFile"
  by (induction cs arbitrary: left) (auto simp: Let_def take_is_prefix)

lemma sources_ok:
  assumes "LoadSchedulerSources fs worktree perFile allowed = Inr files"
  shows "\<exists>base cs. schedulerSourceRoot fs worktree = Inr base \<and> files = cut_sources perFile allowed cs
    \<and> 0 < perFile \<and> 0 < allowed \<and> (\<forall>c \<in> set cs. loaded_from fs base c)
    \<and> sorted (map ca_path cs) \<and> distinct (map ca_path cs)"
proof -
  from assms obtain base framework actions plugins where r: "schedulerSourceRoot fs worktree = Inr base"
    and f: "load_framework fs base schedulerFrameworkFiles [] = Inr framework"
    and a: "discoverSchedulerActionSources fs base = Inr actions" and p: "discoverPluginSources fs base = Inr plugins"
    and pos: "0 < perFile" "0 < allowed"
    and files: "files = cut_sources perFile allowed
       (let candidates = put_candidates plugins (put_candidates actions framework)
        in map (\<lambda>path. the (gm_get candidates path)) (sort_strings (gm_keys candidates)))"
    by (auto simp: LoadSchedulerSources_def Let_def split: if_splits sum.splits)
  let ?m = "put_candidates plugins (put_candidates actions framework)"
  let ?cs = "map (\<lambda>path. the (gm_get ?m path)) (sort_strings (gm_keys ?m))"
  have "keyed (loaded_from fs base) framework"
    by (rule load_framework_keyed [OF f]) (simp_all add: framework_clean keyed_Nil)
  then have k: "keyed (loaded_from fs base) ?m"
    using actions_loaded [OF a] plugins_loaded [OF p] by (simp add: put_keyed)
  have at: "\<exists>c. gm_get ?m key = Some c \<and> ca_path c = key \<and> loaded_from fs base c" if "key \<in> set (gm_keys ?m)" for key
    using that k gm_get_None_keys [of ?m key] by (cases "gm_get ?m key") (auto simp: keyed_def)
  have paths: "map ca_path ?cs = sort_strings (gm_keys ?m)"
    using at by (fastforce simp: comp_def intro: map_idI)
  have "\<forall>c \<in> set ?cs. loaded_from fs base c" using at by fastforce
  moreover have "distinct (sort_strings (gm_keys ?m))"
    using k by (simp add: keyed_def gm_ok_def gm_keys_def sort_strings_def)
  ultimately show ?thesis using r files pos paths by (intro exI [of _ base] exI [of _ ?cs]) (simp add: Let_def)
qed

text \<open>C25: The files come sorted by path and once each, and their contents keep to both limits.\<close>

theorem sources_within_budget:
  assumes "LoadSchedulerSources fs worktree perFile allowed = Inr files"
  shows "sorted (map sf_path files) \<and> distinct (map sf_path files)
    \<and> list_all (\<lambda>s. int (length (sf_content s)) \<le> perFile) files
    \<and> int (sum_list (map (\<lambda>s. length (sf_content s)) files)) \<le> allowed"
proof -
  from sources_ok [OF assms] obtain base cs where files: "files = cut_sources perFile allowed cs"
    and pos: "0 < perFile" "0 < allowed" and s: "sorted (map ca_path cs)" "distinct (map ca_path cs)" by blast
  from length_cut_sources [of perFile allowed cs] pos
  have "int (sum_list (map (\<lambda>s. length (sf_content s)) files)) \<le> allowed" by (simp add: files)
  moreover have "list_all (\<lambda>s. int (length (sf_content s)) \<le> perFile) files"
    using cut_sources_prefix [of _ perFile allowed cs] pos by (fastforce simp: files list_all_iff)
  ultimately show ?thesis using s by (simp add: files)
qed

text \<open>C9: Nothing is read through a link or outside the worktree: what is returned of a file begins the body of a
  regular file at that path, which resolves to itself and lies below the resolved worktree.\<close>

theorem source_file_confined:
  assumes "LoadSchedulerSources fs worktree perFile allowed = Inr files" and "s \<in> set files"
    and "schedulerSourceRoot fs worktree = Inr base" and "is_abs base"
  shows "\<exists>bytes resolved body rest. fs_lstat fs (path_join [base, sf_path s]) = FileInfo Regular bytes
    \<and> fs_eval fs (path_join [base, sf_path s]) = Inr resolved \<and> path_clean resolved = path_join [base, sf_path s]
    \<and> clean_parts resolved = clean_parts base @ rest
    \<and> fs_open fs resolved = Inr (Inr body) \<and> prefix (sf_content s) body \<and> length body \<le> 2097152"
proof -
  from sources_ok [OF assms(1)] assms(3) obtain cs where files: "files = cut_sources perFile allowed cs"
    and l: "\<forall>c \<in> set cs. loaded_from fs base c" by auto
  from cut_sources_prefix [of s perFile allowed cs] assms(2) files obtain c
    where c: "c \<in> set cs" "sf_path s = ca_path c" "prefix (sf_content s) (ca_content c)" by auto
  let ?p = "path_join [base, ca_path c]"
  have j: "path_clean ?p = ?p" and abs: "is_abs ?p"
  proof -
    from assms(4) have ne: "base \<noteq> ''''" and a: "is_abs (join [base, ca_path c] ''/'')"
      by (auto simp: is_abs_def has_prefix_def prefix_def)
    then have "?p = path_clean (join [base, ca_path c] ''/'')" by (simp add: path_join_def Let_def)
    then show "path_clean ?p = ?p" "is_abs ?p" using a by (simp_all only: path_clean_idem is_abs_clean)
  qed
  from l c(1) have "loaded_from fs base c" by blast
  then obtain bytes resolved where w: "fs_lstat fs ?p = FileInfo Regular bytes" "fs_eval fs ?p = Inr resolved"
    "path_clean resolved = ?p" "pathInsideRoot base resolved = Inr True" "fs_open fs resolved = Inr (Inr (ca_content c))"
    "length (ca_content c) \<le> maximumSchedulerSourceFile"
    unfolding loaded_from_def j by (elim exE conjE)
  have "is_abs resolved" using abs w(3) is_abs_clean [of resolved] by simp
  then obtain rest where rest: "clean_parts resolved = clean_parts base @ rest"
    using w(4) path_rel_abs(1,2) [OF assms(4), of resolved] by (auto simp: pathInsideRoot_def split: sum.splits)
  have lim: "length (ca_content c) \<le> 2097152" using w(6) by (simp add: maximumSchedulerSourceFile_def)
  show ?thesis unfolding c(2)
    by (intro exI conjI, rule w(1), rule w(2), rule w(3), rule rest, rule w(5), rule c(3), rule lim)
qed


text \<open>The registrations of a plugin file are its hooks: each once, the known ones in their fixed order first,
  then the others sorted.\<close>

lemma filter_subseq: "subseq (filter P xs) xs"
  by (induction xs) auto

lemma literal_name_nonempty [simp]: "[] \<notin> set (literal_name e)"
proof -
  have t: "trim_space [] = []" by (simp add: trim_space_def trim_with_def)
  show ?thesis
  proof (cases e)
    case (BasicLit kind v)
    have "literal_name e = (if kind = ''STRING'' then
        (case Unquote v of Some x \<Rightarrow> if trim_space x \<noteq> [] then [x] else [] | None \<Rightarrow> []) else [])"
      by (simp only: BasicLit literal_name_def expr.case)
    then show ?thesis using t by (cases "Unquote v"; cases "kind = ''STRING''") (simp_all only: option.case if_True if_False split: if_split, auto)
  qed (simp_all add: literal_name_def)
qed

theorem plugin_hooks_complete:
  assumes "fs_parse fs path content = Inr file" and "schedulerPluginMetadata fs content path = Inr (hooks, names)"
  shows "set hooks = set (registered_hooks file) \<and> distinct hooks
    \<and> (\<exists>known unknown. hooks = known @ unknown \<and> subseq known schedulerHookNames
         \<and> set unknown \<inter> set schedulerHookNames = {} \<and> sorted unknown)
    \<and> sorted names \<and> distinct names \<and> '''' \<notin> set names"
proof -
  let ?r = "registered_hooks file"
  let ?k = "filter (\<lambda>hook. List.member ?r hook) schedulerHookNames"
  let ?u = "sortedStringSet (filter (\<lambda>hook. \<not> List.member schedulerHookNames hook) ?r)"
  have member: "List.member xs = (\<lambda>x. x \<in> set xs)" for xs :: "string list" by (simp add: fun_eq_iff)
  from assms have h: "hooks = ?k @ ?u" and n: "names = sortedStringSet (registered_names file @ constant_names file)"
    by (auto simp: schedulerPluginMetadata_def Let_def member)
  have s: "distinct (sortedStringSet xs)" "sorted (sortedStringSet xs)" "set (sortedStringSet xs) = set xs" for xs
    by (simp_all add: sortedStringSet_def sort_strings_def)
  have dn: "distinct schedulerHookNames" by code_simp
  show ?thesis
  proof (intro conjI exI)
    show "set hooks = set ?r" by (auto simp: h s member)
    show "distinct hooks" using dn by (auto simp: h s member)
    show "hooks = ?k @ ?u" by (rule h)
    show "subseq ?k schedulerHookNames" by (rule filter_subseq)
    show "set ?u \<inter> set schedulerHookNames = {}" by (auto simp: s member)
    show "sorted ?u" by (rule s)
    have "[] \<notin> set (registered_names file)" by (simp add: registered_names_def)
    moreover have "[] \<notin> set (constant_names file)" by (auto simp: constant_names_def split: decl.splits spec.splits if_splits)
    ultimately show "'''' \<notin> set names" by (simp add: n s)
  qed (simp_all only: n s)
qed


section \<open>A worktree\<close>

text \<open>Two of the framework files, six bytes each, and no actions or plugins.\<close>

definition sample_paths :: "string list" where
  "sample_paths = [''cmd/scheduler/app/options/options.go'', ''pkg/scheduler/util/priority_queue.go'']"

definition gang_file :: ast_file where
  "gang_file =
     [GenDecl ''const'' [ValueSpec [''PluginName''] [] [BasicLit ''STRING'' (CHR 0x22 # ''gang'' @ [CHR 0x22])]],
      FuncDecl ''OnSessionOpen'' (Some []) [] (Some
        [ExprStmt (CallExpr 1 (SelectorExpr (Ident ''ssn'') ''AddZFn'') []),
         ExprStmt (CallExpr 2 (SelectorExpr (Ident ''ssn'') ''AddJobValidFn'') [Ident ''x'']),
         ExprStmt (CallExpr 3 (SelectorExpr (Ident ''ssn'') ''AddJobOrderFn'') [])])]"

definition sample_worktree :: source_fs where
  "sample_worktree =
     \<lparr>fs_lstat = (\<lambda>p. if p = ''/vo'' then FileInfo Directory 0
          else if List.member (map (\<lambda>q. ''/vo/'' @ q) sample_paths) p then FileInfo Regular 6
          else NoFile (errorf ''no such file'')),
      fs_abs = Inr, fs_eval = Inr, fs_open = (\<lambda>p. Inr (Inr ''abcdef'')), fs_walk = (\<lambda>p. []),
      fs_parse = (\<lambda>p c. Inr gang_file)\<rparr>"

lemma plugin_hooks_complete_witness:
  "schedulerPluginMetadata sample_worktree ''x'' ''gang.go'' = Inr ([''AddJobOrderFn'', ''AddJobValidFn'', ''AddZFn''], [''gang''])
   \<and> sorted [''gang'']"
proof -
  have e: "schedulerPluginMetadata sample_worktree ''x'' ''gang.go'' = Inr ([''AddJobOrderFn'', ''AddJobValidFn'', ''AddZFn''], [''gang''])"
    by code_simp
  have "fs_parse sample_worktree ''gang.go'' ''x'' = Inr gang_file" by (simp add: sample_worktree_def)
  from plugin_hooks_complete [OF this e] e show ?thesis by blast
qed

lemma load_missing:
  "\<not> is_abs (path_clean p) \<Longrightarrow> \<not> leaves_base (path_clean p) \<Longrightarrow> fs_lstat fs (path_join [base, path_clean p]) = NoFile e
   \<Longrightarrow> loadSchedulerSource fs base p = Inr None"
  by (simp add: loadSchedulerSource_def Let_def)

definition absent_source :: "source_fs \<Rightarrow> string \<Rightarrow> string \<Rightarrow> bool" where
  "absent_source fs base p \<longleftrightarrow> \<not> is_abs (path_clean p) \<and> \<not> leaves_base (path_clean p)
     \<and> (case fs_lstat fs (path_join [base, path_clean p]) of NoFile e \<Rightarrow> True | _ \<Rightarrow> False)"

lemma load_framework_absent: "list_all (absent_source fs base) ps \<Longrightarrow> load_framework fs base (ps @ qs) m = load_framework fs base qs m"
  by (induction ps) (auto simp: absent_source_def load_missing split: lstat_result.splits)

text \<open>A plain file that is not too large is loaded whole.\<close>

lemma load_found:
  assumes "path_clean p = p" and "\<not> is_abs p" and "\<not> leaves_base p" and "path_join [base, p] = q" and "path_clean q = q"
    and "pathInsideRoot base q = Inr True" and "fs_lstat fs q = FileInfo Regular bytes" and "bytes \<le> 2097152"
    and "fs_eval fs q = Inr q" and "fs_open fs q = Inr (Inr body)" and "length body \<le> 2097152"
  shows "loadSchedulerSource fs base p = Inr (Some \<lparr>ca_path = p, ca_hooks = [], ca_names = [], ca_content = body\<rparr>)"
proof -
  have t: "take (maximumSchedulerSourceFile + 1) body = body" "\<not> maximumSchedulerSourceFile < length body"
    "\<not> int maximumSchedulerSourceFile < bytes" using assms(8,11) by (simp_all add: maximumSchedulerSourceFile_def)
  show ?thesis
    unfolding loadSchedulerSource_def Let_def assms(1,4,7) lstat_result.case assms(9) sum.case assms(5,6,10) map_sum.simps t(1)
    using assms(2,3) t(2,3) by simp
qed

definition plain_path :: "string \<Rightarrow> string \<Rightarrow> bool" where
  "plain_path base p \<longleftrightarrow> path_clean p = p \<and> \<not> is_abs p \<and> \<not> leaves_base p \<and> path_join [base, p] = base @ ''/'' @ p
     \<and> path_clean (base @ ''/'' @ p) = base @ ''/'' @ p \<and> pathInsideRoot base (base @ ''/'' @ p) = Inr True"

lemma sample_loaded:
  assumes "p \<in> set sample_paths"
  shows "loadSchedulerSource sample_worktree ''/vo'' p
    = Inr (Some \<lparr>ca_path = p, ca_hooks = [], ca_names = [], ca_content = ''abcdef''\<rparr>)"
proof -
  have "list_all (plain_path ''/vo'') sample_paths" by code_simp
  with assms have c: "plain_path ''/vo'' p" by (simp only: list_all_iff Ball_def)
  have m: "fs_lstat sample_worktree (''/vo'' @ ''/'' @ p) = FileInfo Regular 6"
    using assms by (simp add: sample_worktree_def List.member_iff)
  show ?thesis
    by (rule load_found [OF _ _ _ _ _ _ m]) (use c in \<open>simp_all add: plain_path_def sample_worktree_def\<close>)
qed

definition sample_cut :: "source_file list" where
  "sample_cut =
     [\<lparr>sf_path = ''cmd/scheduler/app/options/options.go'', sf_hooks = [], sf_plugin_names = [], sf_content = ''abcd''\<rparr>,
      \<lparr>sf_path = ''pkg/scheduler/util/priority_queue.go'', sf_hooks = [], sf_plugin_names = [], sf_content = ''ab''\<rparr>]"

lemma sample_sources: "LoadSchedulerSources sample_worktree ''/vo'' 4 6 = Inr sample_cut"
proof -
  have r: "schedulerSourceRoot sample_worktree ''/vo'' = Inr ''/vo''" by code_simp
  have a: "discoverSchedulerActionSources sample_worktree ''/vo'' = Inr []" "discoverPluginSources sample_worktree ''/vo'' = Inr []"
    by code_simp+
  have split: "schedulerFrameworkFiles = [sample_paths ! 0] @ butlast (tl schedulerFrameworkFiles) @ [sample_paths ! 1]" by code_simp
  have "list_all (absent_source sample_worktree ''/vo'') (butlast (tl schedulerFrameworkFiles))" by code_simp
  then have f: "load_framework sample_worktree ''/vo'' schedulerFrameworkFiles []
      = Inr [(p, \<lparr>ca_path = p, ca_hooks = [], ca_names = [], ca_content = ''abcdef''\<rparr>). p \<leftarrow> sample_paths]"
    by (subst split) (simp add: load_framework_absent sample_loaded sample_paths_def gm_set_def)
  show ?thesis unfolding LoadSchedulerSources_def r f a sum.case by code_simp
qed

lemma sources_within_budget_witness:
  "LoadSchedulerSources sample_worktree ''/vo'' 4 6 = Inr sample_cut \<and> int (sum_list (map (\<lambda>s. length (sf_content s)) sample_cut)) \<le> 6"
  using sources_within_budget [OF sample_sources] sample_sources by blast

lemma source_file_confined_witness:
  "\<exists>resolved body. fs_open sample_worktree resolved = Inr (Inr body) \<and> prefix ''ab'' body"
proof -
  have i: "sample_cut ! 1 \<in> set sample_cut" and c: "sf_content (sample_cut ! 1) = ''ab''" by (simp_all add: sample_cut_def)
  have r: "schedulerSourceRoot sample_worktree ''/vo'' = Inr ''/vo''" and b: "is_abs ''/vo''" by code_simp+
  from source_file_confined [OF sample_sources i r b, unfolded c] show ?thesis by blast
qed

end
