(* ===== verification/Plugin_Defaults.thy ===== *)
theory Plugin_Defaults
  imports Source_Files
begin

text \<open>
  File \<open>internal/source/plugin_defaults.go\<close>: the default value of each boolean switch of a plugin, read from
  the syntax of the branch's own \<open>PluginOption\<close> and \<open>ApplyPluginConfDefaults\<close>. The facts: the switches are
  exactly the \<open>*bool\<close> fields with their YAML names, none shared (\<open>option_switches\<close>), and a default is
  returned exactly for the fields with a nil guard, with the literal assigned last to the variable whose
  address the guard assigns (\<open>defaults_explicit\<close>).
\<close>

definition schedulerPluginOptionsPath :: string where
  "schedulerPluginOptionsPath = ''pkg/scheduler/conf/scheduler_conf.go''"

definition schedulerPluginDefaultsPath :: string where
  "schedulerPluginDefaultsPath = ''pkg/scheduler/plugins/defaults.go''"

section \<open>The switches\<close>

text \<open>The one struct declared as \<open>PluginOption\<close>.\<close>

fun option_struct :: "spec list \<Rightarrow> field list option \<Rightarrow> go_error + field list option" where
  "option_struct [] found = Inr found"
| "option_struct (TypeSpec name ty # specs) found =
     (if name \<noteq> ''PluginOption'' then option_struct specs found
      else (case ty of
          StructType fs \<Rightarrow>
            if found \<noteq> None then Inl (errorf (''multiple PluginOption declarations in '' @ schedulerPluginOptionsPath))
            else option_struct specs (Some fs)
        | _ \<Rightarrow> Inl (errorf (''PluginOption in '' @ schedulerPluginOptionsPath @ '' is not a struct''))))"
| "option_struct (sp # specs) found = option_struct specs found"

definition type_specs :: "ast_file \<Rightarrow> spec list" where
  "type_specs file = concat (map (\<lambda>d. case d of GenDecl tok specs \<Rightarrow> if tok \<noteq> ''type'' then [] else specs | _ \<Rightarrow> []) file)"

definition isBooleanPointer :: "expr \<Rightarrow> bool" where
  "isBooleanPointer e = (case e of StarExpr x \<Rightarrow> (case x of Ident name \<Rightarrow> name = ''bool'' | _ \<Rightarrow> False) | _ \<Rightarrow> False)"

definition schedulerPluginOptionYAMLName :: "field \<Rightarrow> go_error + string" where
  "schedulerPluginOptionYAMLName f =
     (case f of Field names ty tag_literal \<Rightarrow>
        (case tag_literal of
           None \<Rightarrow> Inl (errorf ''*bool field has no YAML tag'')
         | Some literal \<Rightarrow>
             (case Unquote literal of
                None \<Rightarrow> Inl (errorw ''decode struct tag: '' (errorf ''invalid syntax''))
              | Some tag \<Rightarrow>
                  (let yamlName = trim_space (hd (split_on CHR '','' (tag_get ''yaml'' tag)))
                   in if yamlName = '''' \<or> yamlName = ''-'' then Inl (errorf ''*bool field has no usable YAML tag'')
                      else Inr yamlName))))"

definition field_type :: "field \<Rightarrow> expr" where "field_type f = (case f of Field names ty tag \<Rightarrow> ty)"
definition field_names :: "field \<Rightarrow> string list" where "field_names f = (case f of Field names ty tag \<Rightarrow> names)"

fun option_fields :: "field list \<Rightarrow> string gomap \<Rightarrow> string gomap \<Rightarrow> go_error + string gomap" where
  "option_fields [] fs yamlFields = Inr fs"
| "option_fields (f # rest) fs yamlFields =
     (if \<not> isBooleanPointer (field_type f) then option_fields rest fs yamlFields
      else (case field_names f of
          [fieldName] \<Rightarrow>
            (case schedulerPluginOptionYAMLName f of
               Inl e \<Rightarrow> Inl (errorw (''PluginOption.'' @ fieldName @ '': '') e)
             | Inr yamlName \<Rightarrow>
                 (case gm_get yamlFields yamlName of
                    Some previous \<Rightarrow>
                      Inl (errorf (''PluginOption fields '' @ previous @ '' and '' @ fieldName @ '' share YAML switch '' @ fmt_q yamlName))
                  | None \<Rightarrow> option_fields rest (gm_set fieldName yamlName fs) (gm_set yamlName fieldName yamlFields)))
        | _ \<Rightarrow> Inl (errorf (''PluginOption boolean field in '' @ schedulerPluginOptionsPath @ '' must have exactly one name''))))"

definition loadSchedulerPluginOptionFields :: "source_fs \<Rightarrow> string \<Rightarrow> go_error + string gomap" where
  "loadSchedulerPluginOptionFields fs base =
     (case loadSchedulerSource fs base schedulerPluginOptionsPath of
        Inl e \<Rightarrow> Inl e
      | Inr None \<Rightarrow> Inl (errorf (''Volcano scheduler plugin options source '' @ schedulerPluginOptionsPath @ '' is missing''))
      | Inr (Some candidate) \<Rightarrow>
     (case fs_parse fs schedulerPluginOptionsPath (ca_content candidate) of
        Inl e \<Rightarrow> Inl (errorw (''parse scheduler plugin options '' @ schedulerPluginOptionsPath @ '': '') e)
      | Inr file \<Rightarrow>
     (case option_struct (type_specs file) None of
        Inl e \<Rightarrow> Inl e
      | Inr None \<Rightarrow> Inl (errorf (''PluginOption declaration is missing from '' @ schedulerPluginOptionsPath))
      | Inr (Some structure) \<Rightarrow>
     (case option_fields structure [] [] of
        Inl e \<Rightarrow> Inl e
      | Inr found \<Rightarrow>
          if found = [] then Inl (errorf (''PluginOption in '' @ schedulerPluginOptionsPath @ '' has no *bool YAML switches''))
          else Inr found))))"

section \<open>The defaults\<close>

definition isPluginOptionPointer :: "expr \<Rightarrow> bool" where
  "isPluginOptionPointer e =
     (case e of
        StarExpr x \<Rightarrow> (case x of Ident name \<Rightarrow> name = ''PluginOption'' | SelectorExpr y name \<Rightarrow> name = ''PluginOption'' | _ \<Rightarrow> False)
      | _ \<Rightarrow> False)"

text \<open>The declarations of the function: its parameters and its body.\<close>

definition declared_functions :: "string \<Rightarrow> ast_file \<Rightarrow> (field list option \<times> stmt list option) list" where
  "declared_functions name file =
     concat (map (\<lambda>d. case d of FuncDecl f params types body \<Rightarrow> if f \<noteq> name then [] else [(params, body)] | _ \<Rightarrow> []) file)"

definition schedulerPluginDefaultsFunction :: "ast_file \<Rightarrow> go_error + stmt list \<times> string" where
  "schedulerPluginDefaultsFunction file =
     (case declared_functions ''ApplyPluginConfDefaults'' file of
        f # g # rest \<Rightarrow> Inl (errorf (''multiple ApplyPluginConfDefaults declarations in '' @ schedulerPluginDefaultsPath))
      | [(params, Some body)] \<Rightarrow>
          (case params of
             Some [parameter] \<Rightarrow>
               (case field_names parameter of
                  [optionName] \<Rightarrow>
                    if isPluginOptionPointer (field_type parameter) then Inr (body, optionName)
                    else Inl (errorf ''ApplyPluginConfDefaults must have one named *PluginOption parameter'')
                | _ \<Rightarrow> Inl (errorf ''ApplyPluginConfDefaults must have one named *PluginOption parameter''))
           | _ \<Rightarrow> Inl (errorf ''ApplyPluginConfDefaults must have one *PluginOption parameter''))
      | _ \<Rightarrow> Inl (errorf (''ApplyPluginConfDefaults declaration is missing from '' @ schedulerPluginDefaultsPath)))"

definition booleanLiteral :: "expr \<Rightarrow> bool option" where
  "booleanLiteral e =
     (case e of Ident name \<Rightarrow> if name = ''true'' then Some True else if name = ''false'' then Some False else None | _ \<Rightarrow> None)"

definition recordBooleanAssignment :: "string \<Rightarrow> expr list \<Rightarrow> expr list \<Rightarrow> bool gomap \<Rightarrow> go_error + bool gomap" where
  "recordBooleanAssignment tok lhs rhs values =
     (case (lhs, rhs) of
        ([l], [r]) \<Rightarrow>
          (case l of
             Ident name \<Rightarrow>
               (case booleanLiteral r of
                  None \<Rightarrow> Inr values
                | Some v \<Rightarrow>
                    if tok \<noteq> '':='' \<and> tok \<noteq> ''='' then
                      Inl (errorf (''unsupported boolean assignment to '' @ name @ '' in ApplyPluginConfDefaults''))
                    else Inr (gm_set name v values))
           | _ \<Rightarrow> Inr values)
      | _ \<Rightarrow> Inr values)"

definition isNilIdentifier :: "expr \<Rightarrow> bool" where
  "isNilIdentifier e = (case e of Ident name \<Rightarrow> name = ''nil'' | _ \<Rightarrow> False)"

definition selectedPluginOptionField :: "expr \<Rightarrow> string \<Rightarrow> string option" where
  "selectedPluginOptionField e optionName =
     (case e of
        SelectorExpr x sel \<Rightarrow> (case x of Ident name \<Rightarrow> if name \<noteq> optionName then None else Some sel | _ \<Rightarrow> None)
      | _ \<Rightarrow> None)"

definition nilPluginOptionField :: "expr \<Rightarrow> string \<Rightarrow> string option" where
  "nilPluginOptionField e optionName =
     (case e of
        BinaryExpr op x y \<Rightarrow>
          if op \<noteq> ''=='' then None
          else if isNilIdentifier y then selectedPluginOptionField x optionName
          else if isNilIdentifier x then selectedPluginOptionField y optionName
          else None
      | _ \<Rightarrow> None)"

definition unsupported :: "string \<Rightarrow> string \<Rightarrow> go_error" where
  "unsupported fieldName why = errorf (''unsupported default syntax for PluginOption.'' @ fieldName @ '': '' @ why)"

definition pluginOptionDefaultValue ::
  "stmt option \<Rightarrow> stmt list \<Rightarrow> stmt option \<Rightarrow> string \<Rightarrow> string \<Rightarrow> bool gomap \<Rightarrow> go_error + bool" where
  "pluginOptionDefaultValue init body els optionName fieldName booleanVariables =
     (let addressable = unsupported fieldName ''expected an addressable boolean variable'';
          single = unsupported fieldName ''expected a single assignment'' in
      if init \<noteq> None \<or> els \<noteq> None \<or> length body \<noteq> 1 then
        Inl (unsupported fieldName ''expected a single assignment in a nil guard'')
      else (case hd body of
          AssignStmt tok lhs rhs \<Rightarrow>
            if tok \<noteq> ''='' \<or> length lhs \<noteq> 1 \<or> length rhs \<noteq> 1 then Inl single
            else if selectedPluginOptionField (hd lhs) optionName \<noteq> Some fieldName then
              Inl (unsupported fieldName ''nil guard and assignment do not match'')
            else (case hd rhs of
                UnaryExpr op x \<Rightarrow>
                  if op \<noteq> ''&'' then Inl addressable
                  else (case x of
                      Ident name \<Rightarrow>
                        (case gm_get booleanVariables name of
                           None \<Rightarrow> Inl (errorf (''cannot resolve boolean variable '' @ name @ '' used as the default for PluginOption.'' @ fieldName))
                         | Some v \<Rightarrow> Inr v)
                    | _ \<Rightarrow> Inl addressable)
              | _ \<Rightarrow> Inl addressable)
        | _ \<Rightarrow> Inl single))"

fun default_values ::
  "string \<Rightarrow> string gomap \<Rightarrow> stmt list \<Rightarrow> bool gomap \<Rightarrow> bool gomap \<Rightarrow> go_error + bool gomap" where
  "default_values optionName optionFields [] booleanVariables defaults = Inr defaults"
| "default_values optionName optionFields (AssignStmt tok lhs rhs # body) booleanVariables defaults =
     (case recordBooleanAssignment tok lhs rhs booleanVariables of
        Inl e \<Rightarrow> Inl e
      | Inr values \<Rightarrow> default_values optionName optionFields body values defaults)"
| "default_values optionName optionFields (IfStmt init c block els # body) booleanVariables defaults =
     (case nilPluginOptionField c optionName of
        None \<Rightarrow> default_values optionName optionFields body booleanVariables defaults
      | Some fieldName \<Rightarrow>
          (case gm_get optionFields fieldName of
             None \<Rightarrow> Inl (errorf (''ApplyPluginConfDefaults guards unknown or non-*bool field PluginOption.'' @ fieldName))
           | Some yamlName \<Rightarrow>
               (case pluginOptionDefaultValue init block els optionName fieldName booleanVariables of
                  Inl e \<Rightarrow> Inl e
                | Inr v \<Rightarrow>
                    if gm_has defaults yamlName then
                      Inl (errorf (''PluginOption.'' @ fieldName @ '' default is assigned more than once''))
                    else default_values optionName optionFields body booleanVariables (gm_set yamlName v defaults))))"
| "default_values optionName optionFields (st # body) booleanVariables defaults =
     default_values optionName optionFields body booleanVariables defaults"

definition loadSchedulerPluginDefaultValues :: "source_fs \<Rightarrow> string \<Rightarrow> string gomap \<Rightarrow> go_error + bool gomap" where
  "loadSchedulerPluginDefaultValues fs base optionFields =
     (case loadSchedulerSource fs base schedulerPluginDefaultsPath of
        Inl e \<Rightarrow> Inl e
      | Inr None \<Rightarrow> Inl (errorf (''Volcano scheduler plugin defaults source '' @ schedulerPluginDefaultsPath @ '' is missing''))
      | Inr (Some candidate) \<Rightarrow>
     (case fs_parse fs schedulerPluginDefaultsPath (ca_content candidate) of
        Inl e \<Rightarrow> Inl (errorw (''parse scheduler plugin defaults '' @ schedulerPluginDefaultsPath @ '': '') e)
      | Inr file \<Rightarrow>
     (case schedulerPluginDefaultsFunction file of
        Inl e \<Rightarrow> Inl e
      | Inr (body, optionName) \<Rightarrow>
     (case default_values optionName optionFields body [] [] of
        Inl e \<Rightarrow> Inl e
      | Inr defaults \<Rightarrow>
          if defaults = [] then
            Inl (errorf (''ApplyPluginConfDefaults in '' @ schedulerPluginDefaultsPath @ '' contains no reliably parseable PluginOption defaults''))
          else Inr defaults))))"

definition LoadSchedulerPluginDefaults :: "source_fs \<Rightarrow> string \<Rightarrow> go_error + bool gomap" where
  "LoadSchedulerPluginDefaults fs worktree =
     (case schedulerSourceRoot fs worktree of
        Inl e \<Rightarrow> Inl e
      | Inr base \<Rightarrow>
          (case loadSchedulerPluginOptionFields fs base of
             Inl e \<Rightarrow> Inl e
           | Inr optionFields \<Rightarrow> loadSchedulerPluginDefaultValues fs base optionFields))"


section \<open>Facts about the switches\<close>

lemma option_fields_ok:
  assumes "option_fields fl fs ys = Inr r" and "\<forall>f y. gm_get fs f = Some y \<longrightarrow> gm_get ys y = Some f"
  shows "(\<forall>f y. gm_get r f = Some y \<longrightarrow> gm_get fs f = Some y
        \<or> (\<exists>x \<in> set fl. isBooleanPointer (field_type x) \<and> field_names x = [f] \<and> schedulerPluginOptionYAMLName x = Inr y))
     \<and> (\<forall>g h y. gm_get r g = Some y \<and> gm_get r h = Some y \<longrightarrow> g = h)
     \<and> (\<forall>f. gm_has fs f \<longrightarrow> gm_has r f)
     \<and> (\<forall>x \<in> set fl. isBooleanPointer (field_type x) \<longrightarrow>
          (\<exists>f y. field_names x = [f] \<and> schedulerPluginOptionYAMLName x = Inr y \<and> gm_has r f))"
  using assms
proof (induction fl fs ys rule: option_fields.induct)
  case (1 fs ys)
  then have r: "r = fs" by simp
  from 1(2) show ?case unfolding r by (metis empty_iff list.set(1) option.inject)
next
  case (2 x rest fs ys)
  show ?case
  proof (cases "isBooleanPointer (field_type x)")
    case False
    with 2 show ?thesis by simp
  next
    case True
    with 2(3) obtain f y where f: "field_names x = [f]" "schedulerPluginOptionYAMLName x = Inr y" "gm_get ys y = None"
      and r: "option_fields rest (gm_set f y fs) (gm_set y f ys) = Inr r"
      by (auto split: list.splits sum.splits option.splits)
    have inv: "\<forall>g z. gm_get (gm_set f y fs) g = Some z \<longrightarrow> gm_get (gm_set y f ys) z = Some g"
      using 2(4) f(3) by auto
    from True f have "\<not> \<not> isBooleanPointer (field_type x)" by simp
    note IH = 2(2) [OF this f(1) refl f(2,3) r inv]
    have kept: "gm_has (gm_set f y fs) f" "gm_has fs g \<Longrightarrow> gm_has (gm_set f y fs) g" for g by (simp_all add: gm_has_def)
    show ?thesis
    proof (intro conjI allI impI ballI)
      fix g z assume g: "gm_get r g = Some z"
      with IH consider "gm_get (gm_set f y fs) g = Some z"
        | "\<exists>x \<in> set rest. isBooleanPointer (field_type x) \<and> field_names x = [g] \<and> schedulerPluginOptionYAMLName x = Inr z" by blast
      then show "gm_get fs g = Some z \<or> (\<exists>x \<in> set (x # rest). isBooleanPointer (field_type x) \<and> field_names x = [g]
          \<and> schedulerPluginOptionYAMLName x = Inr z)"
      proof cases
        case 1
        then show ?thesis using True f(1,2) by (cases "g = f") simp_all
      qed simp
    next
      fix g h z assume "gm_get r g = Some z \<and> gm_get r h = Some z"
      with IH show "g = h" by blast
    next
      fix g assume "gm_has fs g"
      with IH kept(2) show "gm_has r g" by blast
    next
      fix w assume w: "w \<in> set (x # rest)" "isBooleanPointer (field_type w)"
      from IH kept(1) have has: "gm_has r f" by blast
      show "\<exists>f y. field_names w = [f] \<and> schedulerPluginOptionYAMLName w = Inr y \<and> gm_has r f"
      proof (cases "w = x")
        case True
        with f(1,2) has show ?thesis by simp
      next
        case False
        with w have "w \<in> set rest" by simp
        with IH w(2) show ?thesis by blast
      qed
    qed
  qed
qed

text \<open>The switches are the \<open>*bool\<close> fields, each under its own YAML name.\<close>

theorem option_switches:
  assumes "loadSchedulerPluginOptionFields fs base = Inr found"
  shows "\<exists>candidate tree declared. loadSchedulerSource fs base schedulerPluginOptionsPath = Inr (Some candidate)
    \<and> fs_parse fs schedulerPluginOptionsPath (ca_content candidate) = Inr tree
    \<and> TypeSpec ''PluginOption'' (StructType declared) \<in> set (type_specs tree)
    \<and> (\<forall>f y. gm_get found f = Some y \<longrightarrow> (\<exists>x \<in> set declared. isBooleanPointer (field_type x) \<and> field_names x = [f]
          \<and> schedulerPluginOptionYAMLName x = Inr y))
    \<and> (\<forall>x \<in> set declared. isBooleanPointer (field_type x) \<longrightarrow> (\<exists>f. field_names x = [f] \<and> gm_has found f))
    \<and> (\<forall>g h y. gm_get found g = Some y \<and> gm_get found h = Some y \<longrightarrow> g = h)"
proof -
  from assms obtain candidate tree declared where c: "loadSchedulerSource fs base schedulerPluginOptionsPath = Inr (Some candidate)"
    "fs_parse fs schedulerPluginOptionsPath (ca_content candidate) = Inr tree"
    and s: "option_struct (type_specs tree) None = Inr (Some declared)" and r: "option_fields declared [] [] = Inr found"
    by (auto simp: loadSchedulerPluginOptionFields_def split: sum.splits option.splits if_splits)
  have "found0 = Some declared \<or> TypeSpec ''PluginOption'' (StructType declared) \<in> set specs"
    if "option_struct specs found0 = Inr (Some declared)" for specs found0
    using that by (induction specs found0 rule: option_struct.induct) (auto split: if_splits expr.splits)
  with s have t: "TypeSpec ''PluginOption'' (StructType declared) \<in> set (type_specs tree)" by blast
  have e: "gm_get [] k = None" for k :: string by (simp add: gm_get_def)
  note ok = option_fields_ok [OF r]
  show ?thesis
    by (intro exI [of _ candidate] exI [of _ tree] exI [of _ declared] conjI c t) (use ok in \<open>auto simp: e\<close>)
qed

section \<open>Facts about the defaults\<close>

text \<open>The literal a statement assigns to a variable, and the last one of some statements.\<close>

definition literal_assigned :: "string \<Rightarrow> stmt \<Rightarrow> bool option" where
  "literal_assigned x st =
     (case st of AssignStmt tok lhs rhs \<Rightarrow> if lhs = [Ident x] \<and> length rhs = 1 then booleanLiteral (hd rhs) else None | _ \<Rightarrow> None)"

fun last_literal :: "string \<Rightarrow> bool option \<Rightarrow> stmt list \<Rightarrow> bool option" where
  "last_literal x v [] = v"
| "last_literal x v (st # rest) = last_literal x (case literal_assigned x st of Some b \<Rightarrow> Some b | None \<Rightarrow> v) rest"

text \<open>The statement that sets a field still nil to the address of a variable.\<close>

definition guards :: "string \<Rightarrow> stmt \<Rightarrow> string \<Rightarrow> string \<Rightarrow> bool" where
  "guards optionName st f x \<longleftrightarrow>
     (\<exists>c l. st = IfStmt None c [AssignStmt ''='' [l] [UnaryExpr ''&'' (Ident x)]] None
        \<and> nilPluginOptionField c optionName = Some f \<and> selectedPluginOptionField l optionName = Some f)"

definition explicit_default ::
  "string \<Rightarrow> string gomap \<Rightarrow> (string \<Rightarrow> bool option) \<Rightarrow> stmt list \<Rightarrow> string \<Rightarrow> bool \<Rightarrow> bool" where
  "explicit_default optionName optionFields vars body y v \<longleftrightarrow>
     (\<exists>pre st post f x. body = pre @ st # post \<and> guards optionName st f x \<and> gm_get optionFields f = Some y
        \<and> last_literal x (vars x) pre = Some v)"

lemma explicit_default_Nil: "\<not> explicit_default opt fs vars [] y v"
  by (simp add: explicit_default_def)

lemma explicit_default_Cons:
  "explicit_default opt fs vars (st # body) y v \<longleftrightarrow>
     (\<exists>f x. guards opt st f x \<and> gm_get fs f = Some y \<and> vars x = Some v)
     \<or> explicit_default opt fs (\<lambda>x. case literal_assigned x st of Some b \<Rightarrow> Some b | None \<Rightarrow> vars x) body y v"
  (is "?l = (?a \<or> explicit_default opt fs ?vars body y v)")
proof
  assume ?l
  then obtain pre s post f x where p: "st # body = pre @ s # post" "guards opt s f x" "gm_get fs f = Some y"
    "last_literal x (vars x) pre = Some v" unfolding explicit_default_def by blast
  show "?a \<or> explicit_default opt fs ?vars body y v"
  proof (cases pre)
    case Nil
    with p show ?thesis by auto
  next
    case (Cons s' pre')
    with p have "body = pre' @ s # post" "last_literal x (?vars x) pre' = Some v" by simp_all
    with p(2,3) show ?thesis unfolding explicit_default_def by blast
  qed
next
  assume "?a \<or> explicit_default opt fs ?vars body y v"
  then show ?l
  proof
    assume ?a
    then obtain f x where "guards opt st f x" "gm_get fs f = Some y" "last_literal x (vars x) [] = Some v" by auto
    then show ?l unfolding explicit_default_def by (metis append_Nil)
  next
    assume "explicit_default opt fs ?vars body y v"
    then obtain pre s post f x where p: "body = pre @ s # post" "guards opt s f x" "gm_get fs f = Some y"
      "last_literal x (?vars x) pre = Some v" unfolding explicit_default_def by blast
    then have "st # body = (st # pre) @ s # post" "last_literal x (vars x) (st # pre) = Some v" by simp_all
    with p(2,3) show ?l unfolding explicit_default_def by blast
  qed
qed

lemma default_value_iff:
  "pluginOptionDefaultValue init body els opt f vars = Inr v \<longleftrightarrow>
     init = None \<and> els = None \<and> (\<exists>l x. body = [AssignStmt ''='' [l] [UnaryExpr ''&'' (Ident x)]]
       \<and> selectedPluginOptionField l opt = Some f \<and> gm_get vars x = Some v)"
proof
  assume r: "pluginOptionDefaultValue init body els opt f vars = Inr v"
  then have n: "init = None" "els = None" "length body = 1" by (auto simp: pluginOptionDefaultValue_def Let_def split: if_splits)
  then obtain st where st: "body = [st]" by (auto simp: length_Suc_conv)
  with r n obtain lhs rhs where a: "st = AssignStmt ''='' lhs rhs" "length lhs = 1" "length rhs = 1"
    by (cases st) (auto simp: pluginOptionDefaultValue_def Let_def split: if_splits)
  from a(2,3) obtain l e where lr: "lhs = [l]" "rhs = [e]" by (auto simp: length_Suc_conv)
  with r n st a show "init = None \<and> els = None \<and> (\<exists>l x. body = [AssignStmt ''='' [l] [UnaryExpr ''&'' (Ident x)]]
       \<and> selectedPluginOptionField l opt = Some f \<and> gm_get vars x = Some v)"
    by (auto simp: pluginOptionDefaultValue_def Let_def split: if_splits expr.splits option.splits)
qed (auto simp: pluginOptionDefaultValue_def Let_def)

lemma recorded:
  "recordBooleanAssignment tok lhs rhs vals = Inr vals' \<Longrightarrow>
     gm_get vals' x = (case literal_assigned x (AssignStmt tok lhs rhs) of Some b \<Rightarrow> Some b | None \<Rightarrow> gm_get vals x)"
  by (auto simp: recordBooleanAssignment_def literal_assigned_def split: list.splits expr.splits option.splits if_splits)


definition after_statement :: "(string \<Rightarrow> bool option) \<Rightarrow> stmt \<Rightarrow> string \<Rightarrow> bool option" where
  "after_statement vars st x = (case literal_assigned x st of Some b \<Rightarrow> Some b | None \<Rightarrow> vars x)"

lemma explicit_default_step:
  "explicit_default opt fs vars (st # body) y v \<longleftrightarrow>
     (\<exists>f x. guards opt st f x \<and> gm_get fs f = Some y \<and> vars x = Some v)
     \<or> explicit_default opt fs (after_statement vars st) body y v"
  unfolding explicit_default_Cons [of opt fs vars st body y v] after_statement_def ..

lemma not_guards: "\<not> guards opt (AssignStmt tok l r) f x" "\<not> guards opt (ExprStmt e) f x" "\<not> guards opt (OtherStmt es ss) f x"
  by (simp_all add: guards_def)

lemma after_other [simp]: "after_statement vars (ExprStmt e) = vars" "after_statement vars (OtherStmt es ss) = vars"
  "after_statement vars (IfStmt i c b els) = vars"
  by (simp_all add: after_statement_def literal_assigned_def fun_eq_iff)

text \<open>Every guard of the body is resolved, and the defaults are those it sets.\<close>

lemma default_values_ok:
  assumes "default_values opt fs body vars d = Inr r"
  shows "(\<forall>y v. gm_get r y = Some v \<longleftrightarrow> gm_get d y = Some v \<or> explicit_default opt fs (gm_get vars) body y v)
    \<and> (\<forall>init c block els f. IfStmt init c block els \<in> set body \<and> nilPluginOptionField c opt = Some f \<longrightarrow>
         (\<exists>y. gm_get fs f = Some y \<and> gm_has r y)) \<and> (\<forall>y. gm_has d y \<longrightarrow> gm_has r y)"
  using assms
proof (induction opt fs body vars d rule: default_values.induct)
  case (1 opt fs vars d)
  then show ?case by (simp add: explicit_default_Nil)
next
  case (2 opt fs tok lhs rhs body vars d)
  from 2(2) obtain vars' where v: "recordBooleanAssignment tok lhs rhs vars = Inr vars'"
    and r: "default_values opt fs body vars' d = Inr r" by (auto split: sum.splits)
  have "gm_get vars' = after_statement (gm_get vars) (AssignStmt tok lhs rhs)"
    using recorded [OF v] by (simp add: after_statement_def fun_eq_iff)
  with 2(1) [OF v r] show ?case by (simp add: explicit_default_step not_guards)
next
  case (3 opt fs init c block els body vars d)
  show ?case
  proof (cases "nilPluginOptionField c opt")
    case None
    then have "\<not> guards opt (IfStmt init c block els) f x" for f x by (simp add: guards_def)
    with 3 None show ?thesis by (auto simp: explicit_default_step)
  next
    case (Some f)
    with 3(3) obtain y v where y: "gm_get fs f = Some y" and v: "pluginOptionDefaultValue init block els opt f vars = Inr v"
      and new: "\<not> gm_has d y" and r: "default_values opt fs body vars (gm_set y v d) = Inr r"
      by (auto split: option.splits sum.splits if_splits)
    note IH = 3(2) [OF Some y v new r]
    have g: "(\<exists>f' x. guards opt (IfStmt init c block els) f' x \<and> gm_get fs f' = Some y' \<and> gm_get vars x = Some v')
        \<longleftrightarrow> y' = y \<and> v' = v" for y' v'
      using v Some y by (auto simp: guards_def default_value_iff)
    have none: "gm_get d y = None" using new by (simp add: gm_has_def)
    have has: "gm_has (gm_set y v d) y" "gm_has d y' \<Longrightarrow> gm_has (gm_set y v d) y'" for y' by (simp_all add: gm_has_def)
    show ?thesis
    proof (intro conjI allI impI)
      fix y' v'
      have "gm_get r y' = Some v' \<longleftrightarrow> gm_get (gm_set y v d) y' = Some v' \<or> explicit_default opt fs (gm_get vars) body y' v'"
        using IH by blast
      also have "\<dots> \<longleftrightarrow> gm_get d y' = Some v' \<or> (y' = y \<and> v' = v) \<or> explicit_default opt fs (gm_get vars) body y' v'"
        using none by auto
      finally show "gm_get r y' = Some v' \<longleftrightarrow> gm_get d y' = Some v' \<or> explicit_default opt fs (gm_get vars) (IfStmt init c block els # body) y' v'"
        unfolding explicit_default_step g after_other .
    next
      fix init' c' block' els' f'
      assume i: "IfStmt init' c' block' els' \<in> set (IfStmt init c block els # body) \<and> nilPluginOptionField c' opt = Some f'"
      show "\<exists>y. gm_get fs f' = Some y \<and> gm_has r y"
      proof (cases "IfStmt init' c' block' els' = IfStmt init c block els")
        case True
        with i Some have "f' = f" by simp
        with y IH has(1) show ?thesis by blast
      next
        case False
        with i have "IfStmt init' c' block' els' \<in> set body" by auto
        with i IH show ?thesis by blast
      qed
    next
      fix y' assume "gm_has d y'"
      with IH has(2) show "gm_has r y'" by blast
    qed
  qed
qed (auto simp: explicit_default_step not_guards)

text \<open>C24: A default is returned exactly for a field with a nil guard in the function, with the literal assigned last
  before it to the variable it takes the address of; and no guard is left unresolved.\<close>

theorem defaults_explicit:
  assumes "loadSchedulerPluginDefaultValues fs base optionFields = Inr defaults"
  shows "\<exists>candidate tree body optionName. loadSchedulerSource fs base schedulerPluginDefaultsPath = Inr (Some candidate)
    \<and> fs_parse fs schedulerPluginDefaultsPath (ca_content candidate) = Inr tree
    \<and> schedulerPluginDefaultsFunction tree = Inr (body, optionName)
    \<and> (\<forall>y v. gm_get defaults y = Some v \<longleftrightarrow> explicit_default optionName optionFields (\<lambda>x. None) body y v)
    \<and> (\<forall>init c block els f. IfStmt init c block els \<in> set body \<and> nilPluginOptionField c optionName = Some f \<longrightarrow>
         (\<exists>y. gm_get optionFields f = Some y \<and> gm_has defaults y))"
proof -
  from assms obtain candidate tree body optionName where c: "loadSchedulerSource fs base schedulerPluginDefaultsPath = Inr (Some candidate)"
    "fs_parse fs schedulerPluginDefaultsPath (ca_content candidate) = Inr tree"
    "schedulerPluginDefaultsFunction tree = Inr (body, optionName)"
    and r: "default_values optionName optionFields body [] [] = Inr defaults"
    by (auto simp: loadSchedulerPluginDefaultValues_def split: sum.splits option.splits if_splits)
  have e: "gm_get [] = (\<lambda>k. None :: bool option)" by (simp add: gm_get_def fun_eq_iff)
  note ok = default_values_ok [OF r, unfolded e]
  show ?thesis
    by (intro exI [of _ candidate] exI [of _ tree] exI [of _ body] exI [of _ optionName] conjI c) (use ok in simp_all)
qed


section \<open>A branch\<close>

definition quoted :: "string \<Rightarrow> string" where
  "quoted s = CHR 0x22 # s @ [CHR 0x22]"

definition yaml_field :: "string \<Rightarrow> expr \<Rightarrow> string \<Rightarrow> field" where
  "yaml_field name ty key = Field [name] ty (Some (CHR 0x60 # ''yaml:'' @ quoted key @ [CHR 0x60]))"

definition sample_options :: ast_file where
  "sample_options =
     [GenDecl ''import'' [OtherSpec], GenDecl ''type'' [TypeSpec ''PluginOption'' (StructType
       [yaml_field ''Name'' (Ident ''string'') ''name'',
        yaml_field ''EnabledJobOrder'' (StarExpr (Ident ''bool'')) ''enableJobOrder'',
        yaml_field ''EnabledHierarchy'' (StarExpr (Ident ''bool'')) ''enableHierarchy,omitempty''])]]"

definition nil_guard :: "string \<Rightarrow> string \<Rightarrow> stmt" where
  "nil_guard f x =
     IfStmt None (BinaryExpr ''=='' (SelectorExpr (Ident ''option'') f) (Ident ''nil''))
       [AssignStmt ''='' [SelectorExpr (Ident ''option'') f] [UnaryExpr ''&'' (Ident x)]] None"

definition sample_defaults :: ast_file where
  "sample_defaults =
     [FuncDecl ''ApplyPluginConfDefaults'' (Some [Field [''option''] (StarExpr (SelectorExpr (Ident ''conf'') ''PluginOption'')) None]) []
       (Some [AssignStmt '':='' [Ident ''t''] [Ident ''true''], nil_guard ''EnabledJobOrder'' ''t'',
          AssignStmt '':='' [Ident ''f''] [Ident ''false''], nil_guard ''EnabledHierarchy'' ''f''])]"

definition sample_branch :: source_fs where
  "sample_branch = sample_worktree\<lparr>fs_lstat := (\<lambda>p.
       if p = ''/vo'' then FileInfo Directory 0
       else if p = ''/vo/'' @ schedulerPluginOptionsPath \<or> p = ''/vo/'' @ schedulerPluginDefaultsPath then FileInfo Regular 6
       else NoFile (errorf ''no such file'')),
     fs_parse := (\<lambda>p c. Inr (if p = schedulerPluginOptionsPath then sample_options else sample_defaults))\<rparr>"

definition sample_candidate :: "string \<Rightarrow> candidate" where
  "sample_candidate p = \<lparr>ca_path = p, ca_hooks = [], ca_names = [], ca_content = ''abcdef''\<rparr>"

lemma sample_branch_loaded:
  "loadSchedulerSource sample_branch ''/vo'' schedulerPluginOptionsPath = Inr (Some (sample_candidate schedulerPluginOptionsPath))"
  "loadSchedulerSource sample_branch ''/vo'' schedulerPluginDefaultsPath = Inr (Some (sample_candidate schedulerPluginDefaultsPath))"
proof -
  have p: "plain_path ''/vo'' schedulerPluginOptionsPath" "plain_path ''/vo'' schedulerPluginDefaultsPath" by code_simp+
  have m: "fs_lstat sample_branch (''/vo'' @ ''/'' @ schedulerPluginOptionsPath) = FileInfo Regular 6"
    "fs_lstat sample_branch (''/vo'' @ ''/'' @ schedulerPluginDefaultsPath) = FileInfo Regular 6"
    by (simp_all add: sample_branch_def)
  show "loadSchedulerSource sample_branch ''/vo'' schedulerPluginOptionsPath = Inr (Some (sample_candidate schedulerPluginOptionsPath))"
    unfolding sample_candidate_def
    by (rule load_found [OF _ _ _ _ _ _ m(1)]) (use p(1) in \<open>simp_all add: plain_path_def sample_branch_def sample_worktree_def\<close>)
  show "loadSchedulerSource sample_branch ''/vo'' schedulerPluginDefaultsPath = Inr (Some (sample_candidate schedulerPluginDefaultsPath))"
    unfolding sample_candidate_def
    by (rule load_found [OF _ _ _ _ _ _ m(2)]) (use p(2) in \<open>simp_all add: plain_path_def sample_branch_def sample_worktree_def\<close>)
qed

definition sample_switches :: "string gomap" where
  "sample_switches = [(''EnabledJobOrder'', ''enableJobOrder''), (''EnabledHierarchy'', ''enableHierarchy'')]"

definition sample_values :: "bool gomap" where
  "sample_values = [(''enableJobOrder'', True), (''enableHierarchy'', False)]"

lemma sample_option_fields: "loadSchedulerPluginOptionFields sample_branch ''/vo'' = Inr sample_switches"
proof -
  have p: "fs_parse sample_branch schedulerPluginOptionsPath x = Inr sample_options" for x by (simp add: sample_branch_def)
  show ?thesis unfolding loadSchedulerPluginOptionFields_def sample_branch_loaded sum.case option.case p by code_simp
qed

lemma sample_default_values: "loadSchedulerPluginDefaultValues sample_branch ''/vo'' sample_switches = Inr sample_values"
proof -
  have ne: "schedulerPluginDefaultsPath \<noteq> schedulerPluginOptionsPath" by code_simp
  then have p: "fs_parse sample_branch schedulerPluginDefaultsPath x = Inr sample_defaults" for x by (simp add: sample_branch_def)
  show ?thesis unfolding loadSchedulerPluginDefaultValues_def sample_branch_loaded sum.case option.case p by code_simp
qed

lemma option_switches_witness:
  "LoadSchedulerPluginDefaults sample_branch ''/vo'' = Inr sample_values
   \<and> (\<exists>tree declared. TypeSpec ''PluginOption'' (StructType declared) \<in> set (type_specs tree)
        \<and> (\<forall>f y. gm_get sample_switches f = Some y \<longrightarrow> (\<exists>x \<in> set declared. schedulerPluginOptionYAMLName x = Inr y)))"
proof
  have "schedulerSourceRoot sample_branch ''/vo'' = Inr ''/vo''" by code_simp
  then show "LoadSchedulerPluginDefaults sample_branch ''/vo'' = Inr sample_values"
    by (simp add: LoadSchedulerPluginDefaults_def sample_option_fields sample_default_values)
  from option_switches [OF sample_option_fields]
  show "\<exists>tree declared. TypeSpec ''PluginOption'' (StructType declared) \<in> set (type_specs tree)
        \<and> (\<forall>f y. gm_get sample_switches f = Some y \<longrightarrow> (\<exists>x \<in> set declared. schedulerPluginOptionYAMLName x = Inr y))"
    by (elim exE conjE) blast
qed

lemma defaults_explicit_witness:
  "\<exists>body opt. explicit_default opt sample_switches (\<lambda>x. None) body ''enableHierarchy'' False
     \<and> \<not> explicit_default opt sample_switches (\<lambda>x. None) body ''enableHierarchy'' True"
proof -
  have g: "gm_get sample_values ''enableHierarchy'' = Some False" "gm_get sample_values ''enableHierarchy'' \<noteq> Some True"
    by code_simp+
  from defaults_explicit [OF sample_default_values] obtain body opt
    where e: "\<forall>y v. gm_get sample_values y = Some v \<longleftrightarrow> explicit_default opt sample_switches (\<lambda>x. None) body y v"
    by (elim exE conjE)
  show ?thesis using g unfolding spec [OF spec [OF e]] by blast
qed

text \<open>The variable is only followed up to the guard: when the function assigns it again behind the guard, or
  gives it a value that is no literal, the branch itself uses another default than the one returned.\<close>

theorem reassigned_variable_not_followed:
  "default_values ''option'' [(''F'', ''f'')]
     [AssignStmt '':='' [Ident ''t''] [Ident ''true''], nil_guard ''F'' ''t'', AssignStmt ''='' [Ident ''t''] [Ident ''false'']] [] []
     = Inr [(''f'', True)]
   \<and> default_values ''option'' [(''F'', ''f'')]
     [AssignStmt '':='' [Ident ''t''] [Ident ''true''], AssignStmt ''='' [Ident ''t''] [CallExpr 1 (Ident ''compute'') []], nil_guard ''F'' ''t''] [] []
     = Inr [(''f'', True)]"
  by code_simp

end
