(* ===== verification/Predicate_Defaults.thy ===== *)
theory Predicate_Defaults
  imports Plugin_Defaults
begin

text \<open>
  File \<open>internal/source/predicate_defaults.go\<close>: the default of each switch of the predicates plugin, linked
  through three places of its source: a bool field of \<open>predicateEnable\<close>, its value in the literal of
  \<open>enablePredicate\<close>, and the call of \<open>args.GetBool\<close> that names the configuration key. The facts: a key is
  returned exactly when all three links are there (\<open>predicate_defaults_linked\<close>), and any call of
  \<open>args.GetBool\<close> the code does not understand makes the whole reading fail (\<open>no_getbool_overlooked\<close>).
\<close>

definition predicatePluginSourcePath :: string where
  "predicatePluginSourcePath = ''pkg/scheduler/plugins/predicates/predicates.go''"

section \<open>The bool fields\<close>

fun enable_struct :: "spec list \<Rightarrow> field list option \<Rightarrow> go_error + field list option" where
  "enable_struct [] target = Inr target"
| "enable_struct (TypeSpec name ty # specs) target =
     (if name \<noteq> ''predicateEnable'' then enable_struct specs target
      else (case ty of
          StructType fs \<Rightarrow>
            if target \<noteq> None then Inl (errorf (''multiple predicateEnable declarations in '' @ predicatePluginSourcePath))
            else enable_struct specs (Some fs)
        | _ \<Rightarrow> Inl (errorf (''predicateEnable in '' @ predicatePluginSourcePath @ '' is not a struct''))))"
| "enable_struct (sp # specs) target = enable_struct specs target"

definition is_bool_type :: "expr \<Rightarrow> bool" where
  "is_bool_type e = (case e of Ident name \<Rightarrow> name = ''bool'' | _ \<Rightarrow> False)"

fun bool_fields :: "field list \<Rightarrow> string list \<Rightarrow> go_error + string list" where
  "bool_fields [] found = Inr found"
| "bool_fields (f # rest) found =
     (if \<not> is_bool_type (field_type f) then bool_fields rest found
      else (case field_names f of
          [name] \<Rightarrow> bool_fields rest (name # found)
        | _ \<Rightarrow> Inl (errorf (''predicateEnable bool field in '' @ predicatePluginSourcePath @ '' must have exactly one name''))))"

definition predicateEnableBooleanFields :: "ast_file \<Rightarrow> go_error + string list" where
  "predicateEnableBooleanFields tree =
     (case enable_struct (type_specs tree) None of
        Inl e \<Rightarrow> Inl e
      | Inr None \<Rightarrow> Inl (errorf (''predicateEnable declaration is missing from '' @ predicatePluginSourcePath))
      | Inr (Some fs) \<Rightarrow>
          (case bool_fields fs [] of
             Inl e \<Rightarrow> Inl e
           | Inr found \<Rightarrow>
               if found = [] then Inl (errorf (''predicateEnable in '' @ predicatePluginSourcePath @ '' has no bool fields''))
               else Inr found))"

section \<open>The function and its literal\<close>

definition isArgumentsType :: "expr \<Rightarrow> bool" where
  "isArgumentsType e = (case e of Ident name \<Rightarrow> name = ''Arguments'' | SelectorExpr x sel \<Rightarrow> sel = ''Arguments'' | _ \<Rightarrow> False)"

definition enablePredicateFunction :: "ast_file \<Rightarrow> go_error + stmt list \<times> string" where
  "enablePredicateFunction tree =
     (let parameter_error = errorf ''enablePredicate must have one named Arguments parameter'' in
      case declared_functions ''enablePredicate'' tree of
        f # g # rest \<Rightarrow> Inl (errorf (''multiple enablePredicate declarations in '' @ predicatePluginSourcePath))
      | [(params, Some body)] \<Rightarrow>
          (case params of
             Some [parameter] \<Rightarrow>
               (case field_names parameter of
                  [name] \<Rightarrow> if isArgumentsType (field_type parameter) then Inr (body, name) else Inl parameter_error
                | _ \<Rightarrow> Inl parameter_error)
           | _ \<Rightarrow> Inl parameter_error)
      | _ \<Rightarrow> Inl (errorf (''enablePredicate declaration is missing from '' @ predicatePluginSourcePath)))"

definition isPredicateEnableType :: "expr option \<Rightarrow> bool" where
  "isPredicateEnableType ty = (case ty of Some (Ident name) \<Rightarrow> name = ''predicateEnable'' | _ \<Rightarrow> False)"

text \<open>What a statement assigns of the literal: token, target, elements and the end of the literal.\<close>

definition literal_statement :: "stmt \<Rightarrow> (string \<times> expr \<times> expr list \<times> nat) option" where
  "literal_statement st =
     (case st of
        AssignStmt tok [l] [r] \<Rightarrow>
          (case r of CompositeLit ty elts end_pos \<Rightarrow> if isPredicateEnableType ty then Some (tok, l, elts, end_pos) else None
           | _ \<Rightarrow> None)
      | _ \<Rightarrow> None)"

type_synonym enable_literal = "string \<times> expr list \<times> nat"

fun find_literal :: "stmt list \<Rightarrow> enable_literal option \<Rightarrow> go_error + enable_literal option" where
  "find_literal [] found = Inr found"
| "find_literal (st # body) found =
     (case literal_statement st of
        None \<Rightarrow> find_literal body found
      | Some (tok, target, elts, end_pos) \<Rightarrow>
          if tok \<noteq> '':='' \<and> tok \<noteq> ''='' then Inl (errorf ''unsupported predicateEnable initialization in enablePredicate'')
          else (case target of
              Ident name \<Rightarrow>
                if found \<noteq> None then Inl (errorf ''multiple predicateEnable struct literals in enablePredicate'')
                else find_literal body (Some (name, elts, end_pos))
            | _ \<Rightarrow> Inl (errorf ''unsupported predicateEnable target in enablePredicate'')))"

fun literal_defaults :: "string list \<Rightarrow> expr list \<Rightarrow> bool gomap \<Rightarrow> go_error + bool gomap" where
  "literal_defaults booleanFields [] defaults = Inr defaults"
| "literal_defaults booleanFields (element # rest) defaults =
     (case element of
        KeyValueExpr key v \<Rightarrow>
          (case key of
             Ident name \<Rightarrow>
               if \<not> List.member booleanFields name then literal_defaults booleanFields rest defaults
               else (case booleanLiteral v of
                   None \<Rightarrow> Inl (errorf (''unsupported bool default syntax for predicateEnable.'' @ name))
                 | Some b \<Rightarrow>
                     if gm_has defaults name then Inl (errorf (''predicateEnable.'' @ name @ '' default is assigned more than once''))
                     else literal_defaults booleanFields rest (gm_set name b defaults))
           | _ \<Rightarrow> Inl (errorf ''unsupported predicateEnable field key in enablePredicate''))
      | _ \<Rightarrow> Inl (errorf ''unsupported unkeyed predicateEnable struct literal in enablePredicate''))"

definition predicateEnableLiteralDefaults :: "stmt list \<Rightarrow> string list \<Rightarrow> go_error + string \<times> nat \<times> bool gomap" where
  "predicateEnableLiteralDefaults body booleanFields =
     (case find_literal body None of
        Inl e \<Rightarrow> Inl e
      | Inr None \<Rightarrow> Inl (errorf (''predicateEnable struct literal is missing from enablePredicate in '' @ predicatePluginSourcePath))
      | Inr (Some (name, elts, end_pos)) \<Rightarrow>
          (case literal_defaults booleanFields elts [] of
             Inl e \<Rightarrow> Inl e
           | Inr defaults \<Rightarrow> Inr (name, end_pos, defaults)))"

section \<open>The constants\<close>

text \<open>Name and value of each string constant, in the order of the declarations.\<close>

definition string_constants :: "ast_file \<Rightarrow> (string \<times> string) list" where
  "string_constants tree =
     concat (map (\<lambda>d. case d of
       GenDecl tok specs \<Rightarrow>
         if tok \<noteq> ''const'' then []
         else concat (map (\<lambda>s. case s of
             ValueSpec names types vs \<Rightarrow>
               concat (map (\<lambda>(name, v). case v of
                   BasicLit kind literal \<Rightarrow>
                     if kind \<noteq> ''STRING'' then [] else (case Unquote literal of None \<Rightarrow> [] | Some x \<Rightarrow> [(name, x)])
                 | _ \<Rightarrow> []) (zip names vs))
           | _ \<Rightarrow> []) specs)
     | _ \<Rightarrow> []) tree)"

definition predicateStringConstants :: "ast_file \<Rightarrow> string gomap" where
  "predicateStringConstants tree = fold (\<lambda>(name, v) constants. gm_set name v constants) (string_constants tree) []"

section \<open>The calls\<close>

definition isArgumentsGetBoolCall :: "expr \<Rightarrow> string \<Rightarrow> bool" where
  "isArgumentsGetBoolCall f argumentsName =
     (case f of
        SelectorExpr x sel \<Rightarrow> if sel \<noteq> ''GetBool'' then False else (case x of Ident name \<Rightarrow> name = argumentsName | _ \<Rightarrow> False)
      | _ \<Rightarrow> False)"

definition predicateGetBoolAssociation :: "expr list \<Rightarrow> string \<Rightarrow> string list \<Rightarrow> go_error + string \<times> string" where
  "predicateGetBoolAssociation args predicateName booleanFields =
     (let target = errorf (''unsupported args.GetBool target: expected &'' @ predicateName @ ''.<bool field>'') in
      if length args \<noteq> 2 then Inl (errorf ''unsupported args.GetBool syntax: expected two arguments'')
      else (case args ! 0 of
          UnaryExpr op x \<Rightarrow>
            if op \<noteq> ''&'' then Inl target
            else (case x of
                SelectorExpr y sel \<Rightarrow>
                  (case y of
                     Ident name \<Rightarrow>
                       if name \<noteq> predicateName \<or> \<not> List.member booleanFields sel then Inl target
                       else (case args ! 1 of
                           Ident constant \<Rightarrow> Inr (sel, constant)
                         | _ \<Rightarrow> Inl (errorf (''unsupported args.GetBool key for predicateEnable.'' @ sel @ '': expected a constant identifier'')))
                   | _ \<Rightarrow> Inl target)
              | _ \<Rightarrow> Inl target)
        | _ \<Rightarrow> Inl target))"

text \<open>A statement that is nothing but a call of \<open>args.GetBool\<close>: its position and arguments.\<close>

definition getbool_statement :: "string \<Rightarrow> stmt \<Rightarrow> (nat \<times> expr list) option" where
  "getbool_statement argumentsName st =
     (case st of
        ExprStmt e \<Rightarrow>
          (case e of CallExpr pos f args \<Rightarrow> if isArgumentsGetBoolCall f argumentsName then Some (pos, args) else None | _ \<Rightarrow> None)
      | _ \<Rightarrow> None)"

record getbool_state =
  gs_recognized :: "nat list"
  gs_seen :: "string list"
  gs_result :: "bool gomap"

record getbool_context =
  gc_arguments :: string
  gc_predicate :: string
  gc_end :: nat
  gc_fields :: "string list"
  gc_defaults :: "bool gomap"
  gc_constants :: "string gomap"

definition getbool_step :: "getbool_context \<Rightarrow> stmt \<Rightarrow> getbool_state \<Rightarrow> go_error + getbool_state" where
  "getbool_step gc st s =
     (case getbool_statement (gc_arguments gc) st of
        None \<Rightarrow> Inr s
      | Some (pos, args) \<Rightarrow>
          if pos \<le> gc_end gc then Inl (errorf ''unsupported args.GetBool call before predicateEnable initialization'')
          else (case predicateGetBoolAssociation args (gc_predicate gc) (gc_fields gc) of
              Inl e \<Rightarrow> Inl e
            | Inr (fieldName, constantName) \<Rightarrow>
                (case gm_get (gc_defaults gc) fieldName of
                   None \<Rightarrow> Inl (errorf (''predicateEnable.'' @ fieldName @ '' has no explicit bool default in enablePredicate''))
                 | Some v \<Rightarrow>
                     (let configurationKey = gm_or '''' (gc_constants gc) constantName in
                      if configurationKey = '''' then
                        Inl (errorf (''args.GetBool key '' @ constantName @ '' is not a direct non-empty string constant''))
                      else if List.member (gs_seen s) fieldName then
                        Inl (errorf (''predicateEnable.'' @ fieldName @ '' is associated with args.GetBool more than once''))
                      else if gm_has (gs_result s) configurationKey then
                        Inl (errorf (''predicate configuration key '' @ fmt_q configurationKey @ '' is associated more than once''))
                      else Inr \<lparr>gs_recognized = pos # gs_recognized s, gs_seen = fieldName # gs_seen s,
                             gs_result = gm_set configurationKey v (gs_result s)\<rparr>))))"

fun getbool_loop :: "getbool_context \<Rightarrow> stmt list \<Rightarrow> getbool_state \<Rightarrow> go_error + getbool_state" where
  "getbool_loop gc [] s = Inr s"
| "getbool_loop gc (st # body) s =
     (case getbool_step gc st s of Inl e \<Rightarrow> Inl e | Inr s' \<Rightarrow> getbool_loop gc body s')"

text \<open>All calls of \<open>args.GetBool\<close> in the body, wherever they stand.\<close>

definition all_getbool_calls :: "string \<Rightarrow> stmt list \<Rightarrow> nat list" where
  "all_getbool_calls argumentsName body =
     map (\<lambda>(pos, f, args). pos)
       (filter (\<lambda>(pos, f, args). isArgumentsGetBoolCall f argumentsName) (concat (map calls_stmt body)))"

definition predicateGetBoolDefaults :: "stmt list \<Rightarrow> getbool_context \<Rightarrow> go_error + bool gomap" where
  "predicateGetBoolDefaults body gc =
     (case getbool_loop gc body \<lparr>gs_recognized = [], gs_seen = [], gs_result = []\<rparr> of
        Inl e \<Rightarrow> Inl e
      | Inr s \<Rightarrow>
          if \<not> list_all (List.member (gs_recognized s)) (all_getbool_calls (gc_arguments gc) body) then
            Inl (errorf ''unsupported args.GetBool syntax in enablePredicate'')
          else if gs_result s = [] then
            Inl (errorf (''enablePredicate in '' @ predicatePluginSourcePath @ '' contains no reliably parseable args.GetBool defaults''))
          else Inr (gs_result s))"

definition read_predicate_defaults :: "ast_file \<Rightarrow> go_error + bool gomap" where
  "read_predicate_defaults tree =
     (case predicateEnableBooleanFields tree of
        Inl e \<Rightarrow> Inl e
      | Inr booleanFields \<Rightarrow>
     (case enablePredicateFunction tree of
        Inl e \<Rightarrow> Inl e
      | Inr (body, argumentsName) \<Rightarrow>
     (case predicateEnableLiteralDefaults body booleanFields of
        Inl e \<Rightarrow> Inl e
      | Inr (predicateName, literalEnd, defaults) \<Rightarrow>
          predicateGetBoolDefaults body
            \<lparr>gc_arguments = argumentsName, gc_predicate = predicateName, gc_end = literalEnd, gc_fields = booleanFields,
             gc_defaults = defaults, gc_constants = predicateStringConstants tree\<rparr>)))"

definition LoadPredicatePluginDefaults :: "source_fs \<Rightarrow> string \<Rightarrow> go_error + bool gomap" where
  "LoadPredicatePluginDefaults fs worktree =
     (case schedulerSourceRoot fs worktree of
        Inl e \<Rightarrow> Inl e
      | Inr base \<Rightarrow>
     (case loadSchedulerSource fs base predicatePluginSourcePath of
        Inl e \<Rightarrow> Inl e
      | Inr None \<Rightarrow> Inl (errorf (''Volcano predicates plugin source '' @ predicatePluginSourcePath @ '' is missing''))
      | Inr (Some candidate) \<Rightarrow>
     (case fs_parse fs predicatePluginSourcePath (ca_content candidate) of
        Inl e \<Rightarrow> Inl (errorw (''parse predicates plugin '' @ predicatePluginSourcePath @ '': '') e)
      | Inr tree \<Rightarrow> read_predicate_defaults tree)))"

section \<open>Facts\<close>

lemma getbool_call_iff: "isArgumentsGetBoolCall f a \<longleftrightarrow> f = SelectorExpr (Ident a) ''GetBool''"
  by (auto simp: isArgumentsGetBoolCall_def split: expr.splits if_splits)

lemma getbool_statement_iff:
  "getbool_statement a st = Some (pos, args) \<longleftrightarrow> st = ExprStmt (CallExpr pos (SelectorExpr (Ident a) ''GetBool'') args)"
  by (auto simp: getbool_statement_def getbool_call_iff split: stmt.splits expr.splits if_splits)

lemma association_iff:
  "predicateGetBoolAssociation args p fs = Inr (f, c) \<longleftrightarrow> args = [UnaryExpr ''&'' (SelectorExpr (Ident p) f), Ident c] \<and> f \<in> set fs"
proof
  assume r: "predicateGetBoolAssociation args p fs = Inr (f, c)"
  then have "length args = 2" by (auto simp: predicateGetBoolAssociation_def Let_def split: if_splits)
  then obtain a b where ab: "args = [a, b]" by (auto simp: length_Suc_conv numeral_2_eq_2)
  from r show "args = [UnaryExpr ''&'' (SelectorExpr (Ident p) f), Ident c] \<and> f \<in> set fs"
    unfolding ab predicateGetBoolAssociation_def Let_def
    by (auto simp: List.member_iff split: if_splits expr.splits)
qed (simp add: predicateGetBoolAssociation_def List.member_iff)

text \<open>A statement that links a configuration key to a default: the three places agree.\<close>

definition links :: "getbool_context \<Rightarrow> stmt \<Rightarrow> string \<Rightarrow> bool \<Rightarrow> nat \<Rightarrow> bool" where
  "links gc st k v pos \<longleftrightarrow>
     (\<exists>f c. st = ExprStmt (CallExpr pos (SelectorExpr (Ident (gc_arguments gc)) ''GetBool'')
              [UnaryExpr ''&'' (SelectorExpr (Ident (gc_predicate gc)) f), Ident c])
        \<and> gc_end gc < pos \<and> f \<in> set (gc_fields gc) \<and> gm_get (gc_defaults gc) f = Some v
        \<and> gm_get (gc_constants gc) c = Some k \<and> k \<noteq> '''')"

lemma links_functional: "links gc st k v pos \<Longrightarrow> links gc st k' v' pos' \<Longrightarrow> k = k' \<and> v = v' \<and> pos = pos'"
  unfolding links_def by fastforce

lemma getbool_step_cases:
  assumes "getbool_step gc st s = Inr s'"
  shows "((\<forall>k v pos. \<not> links gc st k v pos) \<and> s' = s)
    \<or> (\<exists>k v pos. links gc st k v pos \<and> gm_get (gs_result s) k = None \<and> gs_result s' = gm_set k v (gs_result s)
         \<and> gs_recognized s' = pos # gs_recognized s)"
proof (cases "getbool_statement (gc_arguments gc) st")
  case None
  then have "\<not> links gc st k v pos" for k v pos by (auto simp: links_def getbool_statement_def getbool_call_iff)
  with None assms show ?thesis by (simp add: getbool_step_def)
next
  case (Some pa)
  obtain pos args where pa: "pa = (pos, args)" by force
  from assms Some pa have lt: "gc_end gc < pos" by (auto simp: getbool_step_def split: if_splits)
  with assms Some pa obtain f c where a: "predicateGetBoolAssociation args (gc_predicate gc) (gc_fields gc) = Inr (f, c)"
    by (auto simp: getbool_step_def split: sum.splits)
  with assms Some pa lt obtain v where v: "gm_get (gc_defaults gc) f = Some v"
    by (auto simp: getbool_step_def split: option.splits)
  let ?k = "gm_or '''' (gc_constants gc) c"
  from assms Some pa lt a v have k: "?k \<noteq> ''''" "\<not> gm_has (gs_result s) ?k"
    and s': "gs_result s' = gm_set ?k v (gs_result s)" "gs_recognized s' = pos # gs_recognized s"
    by (auto simp: getbool_step_def Let_def split: if_splits)
  from k(1) have "gm_get (gc_constants gc) c = Some ?k" by (auto simp: gm_or_def split: option.splits)
  then have "links gc st ?k v pos"
    using Some pa lt a v k(1) unfolding links_def by (auto simp: getbool_statement_iff association_iff)
  moreover have "gm_get (gs_result s) ?k = None" using k(2) by (simp add: gm_has_def)
  ultimately show ?thesis using s' by blast
qed

lemma getbool_loop_ok:
  "getbool_loop gc body s = Inr s' \<Longrightarrow>
     (\<forall>k v. gm_get (gs_result s') k = Some v \<longleftrightarrow> gm_get (gs_result s) k = Some v \<or> (\<exists>st \<in> set body. \<exists>pos. links gc st k v pos))
     \<and> (\<forall>pos. pos \<in> set (gs_recognized s') \<longleftrightarrow> pos \<in> set (gs_recognized s) \<or> (\<exists>st \<in> set body. \<exists>k v. links gc st k v pos))"
proof (induction body arbitrary: s)
  case (Cons st body)
  from Cons.prems obtain t where t: "getbool_step gc st s = Inr t" and r: "getbool_loop gc body t = Inr s'" by (auto split: sum.splits)
  note IH = Cons.IH [OF r]
  from getbool_step_cases [OF t] show ?case
  proof (elim disjE conjE exE)
    assume "\<forall>k v pos. \<not> links gc st k v pos" "t = s"
    with IH show ?thesis by auto
  next
    fix k v pos
    assume l: "links gc st k v pos" and n: "gm_get (gs_result s) k = None" and u: "gs_result t = gm_set k v (gs_result s)"
      "gs_recognized t = pos # gs_recognized s"
    have only: "links gc st k' v' pos' \<longleftrightarrow> k' = k \<and> v' = v \<and> pos' = pos" for k' v' pos'
      using l links_functional [OF l] by blast
    have "gm_get (gs_result t) k' = Some v' \<longleftrightarrow> gm_get (gs_result s) k' = Some v' \<or> k' = k \<and> v' = v" for k' v'
      using n by (auto simp: u)
    with IH show ?thesis by (auto simp: u only)
  qed
qed simp

lemma getbool_defaults_ok:
  assumes "predicateGetBoolDefaults body gc = Inr r"
  shows "gm_get r k = Some v \<longleftrightarrow> (\<exists>st \<in> set body. \<exists>pos. links gc st k v pos)"
    and "(pos, f, args) \<in> set (concat (map calls_stmt body)) \<Longrightarrow> isArgumentsGetBoolCall f (gc_arguments gc)
      \<Longrightarrow> \<exists>st \<in> set body. \<exists>k v. links gc st k v pos"
proof -
  from assms obtain s where l: "getbool_loop gc body \<lparr>gs_recognized = [], gs_seen = [], gs_result = []\<rparr> = Inr s"
    and all: "list_all (List.member (gs_recognized s)) (all_getbool_calls (gc_arguments gc) body)" and r: "r = gs_result s"
    by (auto simp: predicateGetBoolDefaults_def split: sum.splits if_splits)
  note ok = getbool_loop_ok [OF l]
  have e: "gm_get [] k \<noteq> Some v" for k :: string and v :: bool by (simp add: gm_get_def)
  show "gm_get r k = Some v \<longleftrightarrow> (\<exists>st \<in> set body. \<exists>pos. links gc st k v pos)" using ok by (simp add: r e)
  show "\<exists>st \<in> set body. \<exists>k v. links gc st k v pos"
    if "(pos, f, args) \<in> set (concat (map calls_stmt body))" "isArgumentsGetBoolCall f (gc_arguments gc)"
  proof -
    have "pos \<in> set (all_getbool_calls (gc_arguments gc) body)"
      using that by (force simp: all_getbool_calls_def)
    with all have "pos \<in> set (gs_recognized s)" by (auto simp: list_all_iff List.member_iff)
    with ok show ?thesis by simp
  qed
qed


lemma enable_type_iff: "isPredicateEnableType ty \<longleftrightarrow> ty = Some (Ident ''predicateEnable'')"
proof (cases ty)
  case (Some e)
  then show ?thesis by (cases e) (simp_all add: isPredicateEnableType_def)
qed (simp add: isPredicateEnableType_def)

lemma find_literal_ok:
  "find_literal body found = Inr (Some (name, elts, end_pos)) \<Longrightarrow> found = Some (name, elts, end_pos)
     \<or> (\<exists>tok. AssignStmt tok [Ident name] [CompositeLit (Some (Ident ''predicateEnable'')) elts end_pos] \<in> set body)"
proof (induction body found rule: find_literal.induct)
  case (2 st body found)
  show ?case
  proof (cases "literal_statement st")
    case None
    with 2(1) 2(3) show ?thesis by auto
  next
    case (Some r)
    then obtain tok target el en where r: "literal_statement st = Some (tok, target, el, en)" by (cases r) auto
    then have st: "st = AssignStmt tok [target] [CompositeLit (Some (Ident ''predicateEnable'')) el en]"
      by (auto simp: literal_statement_def enable_type_iff split: stmt.splits list.splits expr.splits if_splits)
    from 2(3) r obtain n where n: "target = Ident n" "\<not> (tok \<noteq> '':='' \<and> tok \<noteq> ''='')" "\<not> found \<noteq> None"
      and f: "find_literal body (Some (n, el, en)) = Inr (Some (name, elts, end_pos))"
      by (auto split: if_splits expr.splits)
    from 2(2) [OF r refl refl refl n(2,1,3) f] show ?thesis using st n(1) by auto
  qed
qed simp

lemma literal_defaults_ok:
  "literal_defaults bs elts d = Inr r \<Longrightarrow>
     gm_get r f = Some v \<longleftrightarrow> gm_get d f = Some v \<or> (f \<in> set bs \<and> (\<exists>e. KeyValueExpr (Ident f) e \<in> set elts \<and> booleanLiteral e = Some v))"
proof (induction bs elts d rule: literal_defaults.induct)
  case (2 bs element rest d)
  from 2(3) obtain key e name where el: "element = KeyValueExpr key e" "key = Ident name"
    by (cases element; simp split: expr.splits)
  show ?case
  proof (cases "List.member bs name")
    case False
    from 2(3) el False have "literal_defaults bs rest d = Inr r" by simp
    from 2(1) [OF el _ this] False show ?thesis by (auto simp: el List.member_iff)
  next
    case True
    with 2(3) el obtain b where b: "booleanLiteral e = Some b" "\<not> gm_has d name"
      and r: "literal_defaults bs rest (gm_set name b d) = Inr r" by (auto split: option.splits if_splits)
    from True have nn: "\<not> \<not> List.member bs name" by simp
    have none: "gm_get d name = None" using b(2) by (simp add: gm_has_def)
    from 2(2) [OF el nn b r] True b(1) none show ?thesis by (auto simp: el List.member_iff)
  qed
qed simp


text \<open>C11: A key is returned with a value exactly when a call behind the literal names it by a string constant for a
  bool field, and the literal gives that field that value.\<close>

theorem predicate_defaults_linked:
  assumes "read_predicate_defaults tree = Inr r"
  shows "\<exists>found body args name tok elts end_pos. predicateEnableBooleanFields tree = Inr found
    \<and> enablePredicateFunction tree = Inr (body, args)
    \<and> AssignStmt tok [Ident name] [CompositeLit (Some (Ident ''predicateEnable'')) elts end_pos] \<in> set body
    \<and> (\<forall>k v. gm_get r k = Some v \<longleftrightarrow> (\<exists>f c pos e. end_pos < pos \<and> f \<in> set found \<and> k \<noteq> ''''
         \<and> ExprStmt (CallExpr pos (SelectorExpr (Ident args) ''GetBool'')
             [UnaryExpr ''&'' (SelectorExpr (Ident name) f), Ident c]) \<in> set body
         \<and> gm_get (predicateStringConstants tree) c = Some k
         \<and> KeyValueExpr (Ident f) e \<in> set elts \<and> booleanLiteral e = Some v))"
proof -
  from assms obtain found body args name end_pos d gc where c: "predicateEnableBooleanFields tree = Inr found"
    "enablePredicateFunction tree = Inr (body, args)" and l: "predicateEnableLiteralDefaults body found = Inr (name, end_pos, d)"
    and gc: "gc = \<lparr>gc_arguments = args, gc_predicate = name, gc_end = end_pos, gc_fields = found,
             gc_defaults = d, gc_constants = predicateStringConstants tree\<rparr>" and r: "predicateGetBoolDefaults body gc = Inr r"
    by (auto simp: read_predicate_defaults_def split: sum.splits)
  from l obtain elts where fl: "find_literal body None = Inr (Some (name, elts, end_pos))" and ld: "literal_defaults found elts [] = Inr d"
    by (auto simp: predicateEnableLiteralDefaults_def split: sum.splits option.splits)
  from find_literal_ok [OF fl] obtain tok
    where t: "AssignStmt tok [Ident name] [CompositeLit (Some (Ident ''predicateEnable'')) elts end_pos] \<in> set body" by auto
  have e: "gm_get [] f = None" for f :: string by (simp add: gm_get_def)
  have d: "gm_get d f = Some v \<longleftrightarrow> f \<in> set found \<and> (\<exists>e. KeyValueExpr (Ident f) e \<in> set elts \<and> booleanLiteral e = Some v)" for f v
    using literal_defaults_ok [OF ld, of f v] by (simp add: e)
  have "gm_get r k = Some v \<longleftrightarrow> (\<exists>f c pos e. end_pos < pos \<and> f \<in> set found \<and> k \<noteq> ''''
         \<and> ExprStmt (CallExpr pos (SelectorExpr (Ident args) ''GetBool'')
             [UnaryExpr ''&'' (SelectorExpr (Ident name) f), Ident c]) \<in> set body
         \<and> gm_get (predicateStringConstants tree) c = Some k
         \<and> KeyValueExpr (Ident f) e \<in> set elts \<and> booleanLiteral e = Some v)" for k v
    unfolding getbool_defaults_ok(1) [OF r] links_def gc getbool_context.select_convs d by blast
  with c t show ?thesis by blast
qed

text \<open>No call of \<open>args.GetBool\<close> is overlooked, wherever it stands in the body: each is one of the statements
  whose key is returned, or nothing is returned at all.\<close>

theorem no_getbool_overlooked:
  assumes "predicateGetBoolDefaults body gc = Inr r" and "(pos, f, args) \<in> set (concat (map calls_stmt body))"
    and "isArgumentsGetBoolCall f (gc_arguments gc)"
  shows "\<exists>st \<in> set body. \<exists>k v. links gc st k v pos \<and> gm_get r k = Some v"
  using getbool_defaults_ok(2) [OF assms] getbool_defaults_ok(1) [OF assms(1)] by blast

section \<open>A plugin\<close>

definition getbool_call :: "nat \<Rightarrow> string \<Rightarrow> string \<Rightarrow> expr" where
  "getbool_call pos f c =
     CallExpr pos (SelectorExpr (Ident ''args'') ''GetBool'')
       [UnaryExpr ''&'' (SelectorExpr (Ident ''predicate'') f), Ident c]"

definition sample_predicates :: "stmt list \<Rightarrow> ast_file" where
  "sample_predicates extra =
     [GenDecl ''const'' [ValueSpec [''NodePortKey''] [] [BasicLit ''STRING'' (quoted ''predicate.NodePorts'')]],
      GenDecl ''type'' [TypeSpec ''predicateEnable'' (StructType [Field [''nodePort''] (Ident ''bool'') None])],
      FuncDecl ''enablePredicate'' (Some [Field [''args''] (SelectorExpr (Ident ''framework'') ''Arguments'') None]) []
        (Some (AssignStmt '':='' [Ident ''predicate'']
           [CompositeLit (Some (Ident ''predicateEnable'')) [KeyValueExpr (Ident ''nodePort'') (Ident ''true'')] 10]
         # extra))]"

definition sample_body :: "stmt list" where
  "sample_body =
     [AssignStmt '':='' [Ident ''predicate'']
        [CompositeLit (Some (Ident ''predicateEnable'')) [KeyValueExpr (Ident ''nodePort'') (Ident ''true'')] 10],
      ExprStmt (getbool_call 20 ''nodePort'' ''NodePortKey'')]"

definition sample_context :: getbool_context where
  "sample_context = \<lparr>gc_arguments = ''args'', gc_predicate = ''predicate'', gc_end = 10, gc_fields = [''nodePort''],
     gc_defaults = [(''nodePort'', True)], gc_constants = [(''NodePortKey'', ''predicate.NodePorts'')]\<rparr>"

lemma predicate_defaults_linked_witness:
  "read_predicate_defaults (sample_predicates [ExprStmt (getbool_call 20 ''nodePort'' ''NodePortKey'')]) = Inr [(''predicate.NodePorts'', True)]
   \<and> read_predicate_defaults (sample_predicates [IfStmt None (getbool_call 20 ''nodePort'' ''NodePortKey'') [] None])
       = Inl (errorf ''unsupported args.GetBool syntax in enablePredicate'')
   \<and> (\<exists>elts e. KeyValueExpr (Ident ''nodePort'') e \<in> set elts \<and> booleanLiteral e = Some True)"
proof (intro conjI)
  show e: "read_predicate_defaults (sample_predicates [ExprStmt (getbool_call 20 ''nodePort'' ''NodePortKey'')]) = Inr [(''predicate.NodePorts'', True)]"
    by code_simp
  show "read_predicate_defaults (sample_predicates [IfStmt None (getbool_call 20 ''nodePort'' ''NodePortKey'') [] None])
       = Inl (errorf ''unsupported args.GetBool syntax in enablePredicate'')"
    by code_simp
  have g: "gm_get [(''predicate.NodePorts'', True)] ''predicate.NodePorts'' = Some True" by code_simp
  have b: "predicateEnableBooleanFields (sample_predicates extra) = Inr [''nodePort'']" for extra by code_simp
  from predicate_defaults_linked [OF e] g b
  show "\<exists>elts e. KeyValueExpr (Ident ''nodePort'') e \<in> set elts \<and> booleanLiteral e = Some True"
    by (elim exE conjE) fastforce
qed

lemma no_getbool_overlooked_witness:
  "\<exists>st \<in> set sample_body. \<exists>k v. links sample_context st k v 20 \<and> gm_get [(''predicate.NodePorts'', True)] k = Some v"
proof -
  have r: "predicateGetBoolDefaults sample_body sample_context = Inr [(''predicate.NodePorts'', True)]" by code_simp
  show ?thesis
    by (rule no_getbool_overlooked [OF r, of 20 "SelectorExpr (Ident ''args'') ''GetBool''"
          "[UnaryExpr ''&'' (SelectorExpr (Ident ''predicate'') ''nodePort''), Ident ''NodePortKey'']"])
      (simp add: sample_body_def getbool_call_def, simp add: getbool_call_iff sample_context_def)
qed

end
