(* ===== verification/Cluster_Client.thy ===== *)
theory Cluster_Client
  imports Scheduler_Client Scheduler_Config
begin

text \<open>
  File \<open>internal/cluster/client.go\<close>: how the client is made and started, and how it talks to a Pod. The
  configuration comes from the cluster or from KUBECONFIG, a client has six informers, and its start happens
  once whatever it is called with. The libraries of Kubernetes are functions of an environment. The facts:
  where the configuration comes from (\<open>configuration_source\<close>), that a client waits for every cache it reads
  (\<open>client_waits_for_all\<close>), that the factories are started once and every call returns the outcome of the first
  (\<open>start_happens_once\<close>), and when a signal counts as sent (\<open>signal_is_one_exec\<close>).
\<close>

section \<open>Configuration\<close>

record 'c rest_env =
  re_in_cluster :: "go_error + 'c"
  re_kubeconfig :: string
  re_load :: "go_error + 'c"

definition loadRESTConfig :: "'c rest_env \<Rightarrow> go_error + 'c" where
  "loadRESTConfig env =
     (case re_in_cluster env of
        Inr config \<Rightarrow> Inr config
      | Inl err \<Rightarrow>
          if re_kubeconfig env \<noteq> '''' then
            (case re_load env of
               Inl fallbackErr \<Rightarrow> Inl (errorw (''load KUBECONFIG '' @ fmt_q (re_kubeconfig env) @ '': '') fallbackErr)
             | Inr config \<Rightarrow> Inr config)
          else Inl (errorw ''load in-cluster Kubernetes config: '' err))"

text \<open>What the client changes of the configuration is its user agent; the rest is \<open>'r\<close>.\<close>

record 'r rest_config =
  rf_user_agent :: string
  rf_rest :: 'r

section \<open>Construction\<close>

datatype informer = PodInformer | NodeInformer | ConfigMapInformer | PriorityInformer | PodGroupInformer | QueueInformer

instantiation informer :: enum
begin

definition enum_informer :: "informer list" where
  "enum_informer = [PodInformer, NodeInformer, ConfigMapInformer, PriorityInformer, PodGroupInformer, QueueInformer]"

definition enum_all_informer :: "(informer \<Rightarrow> bool) \<Rightarrow> bool" where
  "enum_all_informer P \<longleftrightarrow> list_all P enum_class.enum"

definition enum_ex_informer :: "(informer \<Rightarrow> bool) \<Rightarrow> bool" where
  "enum_ex_informer P \<longleftrightarrow> list_ex P enum_class.enum"

instance
proof
  have all: "i \<in> set (enum_class.enum :: informer list)" for i by (cases i) (simp_all add: enum_informer_def)
  then show u: "(UNIV :: informer set) = set enum_class.enum" by blast
  show "distinct (enum_class.enum :: informer list)" by (simp add: enum_informer_def)
  show "enum_class.enum_all P \<longleftrightarrow> Ball (UNIV :: informer set) P" for P
    unfolding enum_all_informer_def list_all_iff u [symmetric] ..
  show "enum_class.enum_ex P \<longleftrightarrow> Bex (UNIV :: informer set) P" for P
    unfolding enum_ex_informer_def list_ex_iff u [symmetric] ..
qed

end

datatype factory = CoreFactory | VolcanoFactory

text \<open>A client: its configuration, the caches it waits for, whether it has the Volcano factory, the factories
  started so far, whether \<open>startOnce\<close> is done, and \<open>startErr\<close>.\<close>

record 'r client =
  cc_config :: "'r rest_config"
  cc_synced :: "informer list"
  cc_volcano :: bool
  cc_started :: "factory list"
  cc_stopped :: "factory list"
  cc_once :: bool
  cc_start_err :: "go_error option"

record 'r kube_env =
  ke_kube :: "'r rest_config \<Rightarrow> go_error option"
  ke_dynamic :: "'r rest_config \<Rightarrow> go_error option"
  ke_indexers :: "informer \<Rightarrow> go_error option"

text \<open>\<open>kube\<close> and \<open>volcano\<close> say whether the interfaces are there.\<close>

definition newClientWithDynamic :: "'r kube_env \<Rightarrow> bool \<Rightarrow> bool \<Rightarrow> 'r rest_config \<Rightarrow> go_error + 'r client" where
  "newClientWithDynamic env kube volcano restConfig =
     (if \<not> kube then Inl (errorf ''Kubernetes client is nil'')
      else (case ke_indexers env PodInformer of
          Some e \<Rightarrow> Inl (errorw ''add Pod informer index: '' e)
        | None \<Rightarrow>
            (let manager = \<lparr>cc_config = restConfig,
                   cc_synced = [PodInformer, NodeInformer, ConfigMapInformer, PriorityInformer],
                   cc_volcano = False, cc_started = [], cc_stopped = [], cc_once = False, cc_start_err = None\<rparr> in
             if volcano then
               (case ke_indexers env PodGroupInformer of
                  Some e \<Rightarrow> Inl (errorw ''add PodGroup informer index: '' e)
                | None \<Rightarrow> Inr (manager\<lparr>cc_volcano := True,
                    cc_synced := cc_synced manager @ [PodGroupInformer, QueueInformer]\<rparr>))
             else Inr manager)))"

definition newClient :: "'r kube_env \<Rightarrow> bool \<Rightarrow> 'r rest_config \<Rightarrow> go_error + 'r client" where
  "newClient env kube restConfig = newClientWithDynamic env kube False restConfig"

definition NewClient :: "'r kube_env \<Rightarrow> 'r rest_config option \<Rightarrow> go_error + 'r client" where
  "NewClient env config =
     (case config of
        None \<Rightarrow> Inl (errorf ''Kubernetes REST config is nil'')
      | Some c \<Rightarrow>
          (let restConfig = c\<lparr>rf_user_agent := ''volens''\<rparr> in
           case ke_kube env restConfig of
             Some e \<Rightarrow> Inl (errorw ''create Kubernetes client: '' e)
           | None \<Rightarrow>
               (case ke_dynamic env restConfig of
                  Some e \<Rightarrow> Inl (errorw ''create Kubernetes dynamic client: '' e)
                | None \<Rightarrow> newClientWithDynamic env True True restConfig)))"

definition NewInClusterClient :: "'r rest_config rest_env \<Rightarrow> 'r kube_env \<Rightarrow> go_error + 'r client" where
  "NewInClusterClient renv env = (case loadRESTConfig renv of Inl e \<Rightarrow> Inl e | Inr config \<Rightarrow> NewClient env (Some config))"

section \<open>Start and shutdown\<close>

definition factories :: "'r client \<Rightarrow> factory list" where
  "factories m = CoreFactory # (if cc_volcano m then [VolcanoFactory] else [])"

text \<open>A call of \<open>Start\<close>: without a context, or with one under which \<open>WaitForCacheSync\<close> answers for each cache.\<close>

type_synonym start_context = "(informer \<Rightarrow> bool) option"

definition nil_context :: go_error where "nil_context = errorf ''Kubernetes informer context is nil''"
definition sync_interrupted :: go_error where "sync_interrupted = errorf ''Kubernetes informer cache sync interrupted''"

definition Start :: "start_context \<Rightarrow> 'r client \<Rightarrow> go_error option \<times> 'r client" where
  "Start ctx m =
     (case ctx of
        None \<Rightarrow> (Some nil_context, m)
      | Some synced \<Rightarrow>
          (let m' = (if cc_once m then m
                     else m\<lparr>cc_once := True, cc_started := cc_started m @ factories m,
                            cc_start_err := (if list_all synced (cc_synced m) then cc_start_err m else Some sync_interrupted)\<rparr>)
           in (cc_start_err m', m')))"

definition Shutdown :: "'r client \<Rightarrow> 'r client" where
  "Shutdown m = m\<lparr>cc_stopped := cc_stopped m @ factories m\<rparr>"

text \<open>The answers of a sequence of calls.\<close>

fun start_all :: "start_context list \<Rightarrow> 'r client \<Rightarrow> go_error option list \<times> 'r client" where
  "start_all [] m = ([], m)"
| "start_all (c # cs) m = (let (r, m') = Start c m; (rs, m'') = start_all cs m' in (r # rs, m''))"

section \<open>Talking to a Pod\<close>

record log_options =
  lo_container :: string
  lo_follow :: bool
  lo_tail :: int

record exec_options =
  eo_container :: string
  eo_command :: "string list"
  eo_stdout :: bool
  eo_stderr :: bool
  eo_tty :: bool

text \<open>The transport: making an executor for a Pod, running it (both outputs and the error), and opening a log.\<close>

record 's transport =
  tr_executor :: "string \<Rightarrow> string \<Rightarrow> exec_options \<Rightarrow> go_error option"
  tr_stream :: "string \<Rightarrow> string \<Rightarrow> exec_options \<Rightarrow> (string \<times> string) \<times> go_error option"
  tr_logs :: "string \<Rightarrow> string \<Rightarrow> log_options \<Rightarrow> go_error + 's"

definition streamPodLogs :: "'s transport \<Rightarrow> scheduler \<Rightarrow> go_error + 's" where
  "streamPodLogs t scheduler =
     (case tr_logs t (sch_namespace scheduler) (sch_name scheduler)
             \<lparr>lo_container = sch_container scheduler, lo_follow = True, lo_tail = 0\<rparr> of
        Inl e \<Rightarrow> Inl (errorw (''stream logs from scheduler '' @ sch_namespace scheduler @ ''/'' @ sch_name scheduler
                      @ '' container '' @ sch_container scheduler @ '': '') e)
      | Inr stream \<Rightarrow> Inr stream)"

definition exec_request :: "string \<Rightarrow> string list \<Rightarrow> exec_options" where
  "exec_request container command =
     \<lparr>eo_container = container, eo_command = command, eo_stdout = True, eo_stderr = True, eo_tty = False\<rparr>"

definition execInPod :: "'s transport \<Rightarrow> string \<Rightarrow> string \<Rightarrow> string \<Rightarrow> string list \<Rightarrow> string \<times> go_error option" where
  "execInPod t namespace pod container command =
     (let request = exec_request container command in
      case tr_executor t namespace pod request of
        Some e \<Rightarrow> ('''', Some (errorw ''create SPDY executor: '' e))
      | None \<Rightarrow>
          (case tr_stream t namespace pod request of ((stdout, stderr), err) \<Rightarrow>
             (trim_space (stdout @ [CHR 0x0A] @ stderr), err)))"

text \<open>The client with this transport.\<close>

definition transported :: "'s transport \<Rightarrow> client_api \<Rightarrow> client_api" where
  "transported t api = api\<lparr>ka_exec := execInPod t\<rparr>"

text \<open>The configuration of whatever scheduler is found now.\<close>

definition GetVolcanoSchedulerConfiguration :: "client_api \<Rightarrow> config_api \<Rightarrow> runtime_config \<times> go_error option" where
  "GetVolcanoSchedulerConfiguration api capi =
     (case ka_ctx_err api of
        Some e \<Rightarrow> (empty_runtime_config, Some e)
      | None \<Rightarrow>
          (case GetVolcanoScheduler api of
             (scheduler, Some e) \<Rightarrow> (empty_runtime_config, Some e)
           | (scheduler, None) \<Rightarrow> GetVolcanoSchedulerConfigurationFor capi (ka_ctx_err api) scheduler))"

section \<open>Facts\<close>

text \<open>The cluster's own configuration wins; KUBECONFIG is only read when there is none and the variable is set.\<close>

theorem configuration_source:
  "loadRESTConfig env = Inr config \<longleftrightarrow>
     (if isl (re_in_cluster env) then re_kubeconfig env \<noteq> '''' \<and> re_load env = Inr config
      else re_in_cluster env = Inr config)"
  by (cases "re_in_cluster env") (auto simp: loadRESTConfig_def split: sum.splits)

text \<open>A client for a configuration has not been started, waits for every cache it reads, and names itself.\<close>

theorem client_waits_for_all:
  assumes "NewClient env config = Inr m"
  shows "set (cc_synced m) = UNIV \<and> distinct (cc_synced m) \<and> factories m = [CoreFactory, VolcanoFactory]
    \<and> cc_started m = [] \<and> \<not> cc_once m \<and> rf_user_agent (cc_config m) = ''volens''"
  using assms
  by (auto simp: NewClient_def newClientWithDynamic_def factories_def Let_def UNIV_enum enum_informer_def split: option.splits)

lemma start_again: "cc_once m \<Longrightarrow> start_all calls m
    = (map (\<lambda>c. case c of None \<Rightarrow> Some nil_context | Some synced \<Rightarrow> cc_start_err m) calls, m)"
  by (induction calls) (auto simp: Start_def split: option.splits)

text \<open>However often \<open>Start\<close> is called and with whatever contexts, the factories are started once, by the first call
  with a context, and every call with a context returns the outcome of that one: the client is usable exactly
  when that call saw all caches synchronised.\<close>

theorem start_happens_once:
  assumes "\<not> cc_once m" and "cc_start_err m = None" and "start_all calls m = (answers, m')"
  shows "(case filter (\<lambda>c. c \<noteq> None) calls of
      [] \<Rightarrow> m' = m \<and> answers = map (\<lambda>c. Some nil_context) calls
    | first # others \<Rightarrow> cc_started m' = cc_started m @ factories m \<and> cc_once m'
        \<and> answers = map (\<lambda>c. if c = None then Some nil_context
             else if list_all (the first) (cc_synced m) then None else Some sync_interrupted) calls)"
  using assms(3)
proof (induction calls arbitrary: answers)
  case (Cons c calls)
  show ?case
  proof (cases c)
    case None
    with Cons.prems obtain as where a: "start_all calls m = (as, m')" "answers = Some nil_context # as"
      by (auto simp: Start_def split: prod.splits)
    from Cons.IH [OF a(1)] show ?thesis using None a(2) by (cases "filter (\<lambda>c. c \<noteq> None) calls") simp_all
  next
    case (Some synced)
    obtain r m1 where s: "Start c m = (r, m1)" by force
    then have o: "cc_once m1" "cc_started m1 = cc_started m @ factories m"
      "cc_start_err m1 = (if list_all synced (cc_synced m) then None else Some sync_interrupted)" "r = cc_start_err m1"
      using assms(1,2) by (auto simp: Some Start_def Let_def)
    have m': "m' = m1"
      and ans: "answers = r # map (\<lambda>c. case c of None \<Rightarrow> Some nil_context | Some synced \<Rightarrow> cc_start_err m1) calls"
      using Cons.prems by (simp_all add: s start_again [OF o(1)])
    have "(\<lambda>c. case c of None \<Rightarrow> Some nil_context | Some synced \<Rightarrow> cc_start_err m1)
        = (\<lambda>c. if c = None then Some nil_context else cc_start_err m1)"
      by (auto simp: fun_eq_iff split: option.split)
    from ans [unfolded this] have as: "answers = map (\<lambda>c. if c = None then Some nil_context else cc_start_err m1) (c # calls)"
      by (simp only: list.map Some option.simps if_False o(4))
    have f: "filter (\<lambda>c. c \<noteq> None) (c # calls) = c # filter (\<lambda>c. c \<noteq> None) calls" using Some by simp
    show ?thesis unfolding f list.case m' as o(2,3) using o(1) by (simp only: Some option.sel simp_thms)
  qed
qed simp

text \<open>A signal counts as sent exactly when one exec of \<open>kill -s USR2 1\<close>, without a terminal, in the container of
  that scheduler could be made and ended without an error.\<close>

theorem signal_is_one_exec:
  "signalCacheDump (transported t api) scheduler = None \<longleftrightarrow>
     (let request = exec_request (sch_container scheduler) [''kill'', ''-s'', ''USR2'', ''1'']
      in tr_executor t (sch_namespace scheduler) (sch_name scheduler) request = None
       \<and> snd (tr_stream t (sch_namespace scheduler) (sch_name scheduler) request) = None)"
  by (auto simp: signalCacheDump_def transported_def execInPod_def Let_def split: option.splits prod.splits)

section \<open>A client\<close>

definition sample_kube :: "unit kube_env" where
  "sample_kube = \<lparr>ke_kube = (\<lambda>c. None), ke_dynamic = (\<lambda>c. None), ke_indexers = (\<lambda>i. None)\<rparr>"

definition sample_started :: "unit client" where
  "sample_started =
     \<lparr>cc_config = \<lparr>rf_user_agent = ''volens'', rf_rest = ()\<rparr>,
      cc_synced = [PodInformer, NodeInformer, ConfigMapInformer, PriorityInformer, PodGroupInformer, QueueInformer],
      cc_volcano = True, cc_started = [], cc_stopped = [], cc_once = False, cc_start_err = None\<rparr>"

lemma sample_client: "NewClient sample_kube (Some \<lparr>rf_user_agent = ''kubectl'', rf_rest = ()\<rparr>) = Inr sample_started"
  by code_simp

lemma client_waits_for_all_witness:
  "QueueInformer \<in> set (cc_synced sample_started) \<and> set (cc_synced sample_started) = UNIV"
  using client_waits_for_all [OF sample_client] by simp

text \<open>A client whose first start was interrupted stays unusable.\<close>

definition interrupted_calls :: "start_context list" where
  "interrupted_calls = [None, Some (\<lambda>i. i \<noteq> PodInformer), Some (\<lambda>i. True)]"

lemma start_happens_once_witness:
  "fst (start_all interrupted_calls sample_started) = [Some nil_context, Some sync_interrupted, Some sync_interrupted]
   \<and> cc_started (snd (start_all interrupted_calls sample_started)) = [CoreFactory, VolcanoFactory]"
proof -
  have "\<not> cc_once sample_started" "cc_start_err sample_started = None" by (simp_all add: sample_started_def)
  from start_happens_once [OF this, of interrupted_calls "fst (start_all interrupted_calls sample_started)"
      "snd (start_all interrupted_calls sample_started)"]
  show ?thesis by (simp add: interrupted_calls_def sample_started_def factories_def)
qed

end
