(* ===== verification/Spec2Isabelle.thy ===== *)
theory Spec2Isabelle
  imports Analyzer Llm Scheduler_Config Cache_Dump Agent_Tools Web_Server Predicate_Defaults Cluster_Client
begin

text \<open>
  Volens explains why a Volcano job is not scheduled: a web service reads the pending Pod, its PodGroup and
  queue and the scheduler's own configuration and cache from the cluster, runs the gates of the scheduler over
  them, and reports what failed, what passed and what could not be decided. When the gates leave the question
  open it asks a language model, which may read a little more through tools but never changes the verdict.

  \<^bold>\<open>The parts and how they interact.\<close> A request enters the server (\<open>cmd/volens/main.go\<close>), which admits one
  analysis at a time. The analysis (\<open>internal/agent/analyzer.go\<close>) runs four rules (\<open>rules.go\<close>): validate,
  enqueue, jobValid and allocate. Each rule calls a package that turns cluster data into \<^emph>\<open>checks\<close>
  (\<open>validate\<close>, \<open>enqueue\<close>, \<open>filter\<close>, \<open>runtime\<close>), reading the cluster through the client of
  \<open>internal/cluster\<close>: the informer caches, the scheduler's configuration, its version, and the cache dump it
  writes to its log. The results are presented per stage and queue resource (\<open>presentation.go\<close>) and cut into
  sections per action with a conclusion (\<open>report.go\<close>). \<open>fallback.go\<close> prepares a prompt with the sources of
  the scheduler's own branch, from the packages \<open>source\<close> (git worktrees, plugin hooks and plugin
  defaults read from Go syntax), and \<open>llm.go\<close> runs the loop of chat rounds and tools (\<open>skills.go\<close>).

  \<^bold>\<open>Conventions.\<close> A Go struct is a record, an enumeration a datatype, a map an association list with distinct
  keys in the order the runtime chose (\<open>gomap\<close>, \<open>gm_ok\<close>; facts that a result does not depend on that order are
  stated as such), a string a list of bytes, an error a record of its text and its chain, a fallible function a
  sum with the error on the left, an \<open>int32\<close> a 32-bit word, an \<open>int64\<close> or \<open>int\<close> an integer with the
  wrap-around or the range written out where it can be left, a \<open>float64\<close> the IEEE value of \<open>Go_Float64\<close>. A
  pointer that may be nil is an option. The names of the code are kept; names that clash have a suffix.

  \<^bold>\<open>Foundations.\<close>
  \<^item> \<open>Prelude\<close>: maps, sorted lists, errors; the locale \<open>pointwise_loop\<close>, the contract of a loop over a map that
    treats every key by itself, interpreted for the loops of \<open>Filter_Resources\<close>, \<open>Queue_Snapshot\<close> and
    \<open>Presentation_Resources\<close>.
  \<^item> The standard library: \<open>Go_Strings\<close> (strings, strconv, fmt), \<open>Go_Float64\<close> (arithmetic, rounding, printing),
    \<open>Go_Paths\<close> (filepath: cleaning is idempotent, \<open>Rel\<close> decides what lies below), \<open>Go_Parse\<close> (the regular
    expressions used, reading numbers), \<open>Go_Json\<close> and \<open>Go_Json_Write\<close> (reading and writing JSON, reading what was
    written), \<open>Go_Duration\<close> (durations) and \<open>Go_Ast\<close> (syntax trees, string literals, struct tags).
  \<^item> \<open>Kube_Types\<close>, \<open>Cluster_Types\<close>, \<open>Model\<close> (package \<open>model\<close>): the data. \<open>Model\<close> has the locale
    \<open>check_emitter\<close>, the contract of every function that emits checks; it is interpreted for the policy, the
    Pod and PodGroup preflight, the enqueue stage, the node and the allocate filter. \<open>Texts\<close>: literals with
    characters outside ASCII.

  \<^bold>\<open>The gates.\<close>
  \<^item> \<open>Runtime_Policy\<close> (\<open>runtime/policy.go\<close>), \<open>Runtime_Plugins\<close> (\<open>plugins.go\<close>): the observed policy and the
    inventory of plugin hooks, which equals the product of actions, hooks and plugins.
  \<^item> \<open>Validate\<close> (\<open>validate.go\<close>): when the preflight fails, and the gang counts within their width.
  \<^item> \<open>Enqueue\<close> (\<open>enqueue.go\<close>): the queue of a job, the events read as evidence, the three checks.
  \<^item> \<open>Amounts\<close>, \<open>Filter_Resources\<close>, \<open>Filter_Affinity\<close>, \<open>Filter_Node\<close>, \<open>Filter_Stage\<close> (package \<open>filter\<close>):
    requests, affinity, one node, all nodes; exact characterisations of when a node or the stage fails.
  \<^item> \<open>Queue_Snapshot\<close> (\<open>queue_snapshot.go\<close>, \<open>proportion_snapshot.go\<close>): sums, guarantees, deserved shares and
    real capability, exact for whole amounts.

  \<^bold>\<open>Presentation and report.\<close>
  \<^item> \<open>Presentation_Checks\<close> (the list a merge gives, as a map update in place; the outcome of a stage),
    \<open>Presentation_Resources\<close> (the quota rows are Volcano's formula), \<open>Presentation_Hooks\<close>, \<open>Presentation\<close> (the
    three stages) and \<open>Diagnosis\<close> (which failure of a shown report is blamed), all of \<open>presentation.go\<close>; \<open>Report\<close> (\<open>report.go\<close>).
  \<^item> \<open>Analyzer\<close> (\<open>rules.go\<close>, \<open>analyzer.go\<close>): the locale \<open>rule\<close> is the contract the loop over the rules needs,
    interpreted for all four; the end-to-end facts are here. \<open>Fallback\<close> (\<open>fallback.go\<close>).

  \<^bold>\<open>The language model.\<close>
  \<^item> \<open>Llm\<close>, \<open>Llm_Config\<close> (\<open>llm.go\<close>): configuration, requests and answers, and the tool loop as a step relation with
    its limits as an invariant; the locale \<open>bounded_runner\<close> is what the loop needs of the tools.
  \<^item> \<open>Agent_Views\<close>, \<open>Agent_Tools\<close> (\<open>skills.go\<close>): what is shown, and the tools; they interpret \<open>bounded_runner\<close>, so
    every completion stays in the scope of its analysis.

  \<^bold>\<open>The cluster.\<close>
  \<^item> \<open>Scheduler_Config\<close> (\<open>scheduler_config.go\<close>), \<open>Cache_Dump\<close> (\<open>cache.go\<close>: the parser of the dump, and the two
    threads of a capture as a step relation over a log that may stay silent), \<open>Volcano_Resources\<close> (\<open>volcano_resources.go\<close>: decoding untyped
    objects), \<open>Scheduler_Client\<close> (\<open>client.go\<close>: Pods, the leader, flags, version, events, logs) and
    \<open>Cluster_Client\<close> (\<open>client.go\<close>: construction, start, exec).

  \<^bold>\<open>The sources.\<close>
  \<^item> \<open>Source_Manager\<close> (\<open>manager.go\<close>): git as steps over a disk; \<open>Source_Files\<close> (\<open>scheduler_sources.go\<close>),
    \<open>Plugin_Defaults\<close> (\<open>plugin_defaults.go\<close>) and \<open>Predicate_Defaults\<close> (\<open>predicate_defaults.go\<close>).

  \<^bold>\<open>The service.\<close>
  \<^item> \<open>Web_Server\<close> (\<open>main.go\<close>): admission, the slot of the running analysis as a step relation, the branches
    offered, the cache of the version, shutdown.

  \<^bold>\<open>Termination and bounds.\<close> Loops are structural or have a measure: the rest of the text for the readers, the
  rounds left for the tool loop, the length of the path for the walk up to the package of a plugin. Only the
  JSON reader has fuel, two more than twice the length of the text: \<open>parse_fuel\<close> shows that no more
  ever changes its result. A run of the two threads of a capture has at most eight steps, by a rank, and the
  capturing thread never waits for the log once its context has expired. The limits of the code are constants of the model with their values in bytes.

  \<^bold>\<open>Parameters.\<close> What is not in the repository is an argument of the definitions: \<open>resource.Quantity\<close>, the
  toleration test, the YAML decoder, the JSON encoder of prompts and tool results, the wording of JSON errors, the stores
  and transports of client-go, git, the file system, the hash, \<open>go/parser\<close>, the clock. What the facts need of
  them is a hypothesis by name, with a witness that instantiates it.

  \<^bold>\<open>Not modelled.\<close> Logging; mutexes, beyond the sequences of steps they force (the capture, the slot and the tool
  loop are step relations; the first calls of \<open>Start\<close> are taken one after the other); the routing, middleware and
  embedded static files of the web server (\<open>web/web.go\<close> and \<open>newRouter\<close> call gin and \<open>net/http\<close> only); the
  construction of informers beyond which caches are waited for; copying of values behind pointers, which is the
  identity here; the aliases of \<open>internal/agent/types.go\<close>; changes of the file system between two calls of one
  load of the sources (it is a function there); lower-casing beyond ASCII; the options of a configuration entry.
\<close>

end
